(* ===== verification/Prelude.thy ===== *)
theory Prelude
  imports Main
begin

text \<open>
  Prelude of the development: the effect monad in which the launcher's services are
  written, its loops, and the two relational judgements the component proofs use.

  A Go method that reads and writes the program's state and may return an error is a
  function \<open>'w \<Rightarrow> ('e + 'a) \<times> 'w\<close>: the state after an error return is kept, as it is in
  the code.  \<open>bindE\<close> is the statement sequence with its \<open>if err != nil { return err }\<close>,
  \<open>finallyE\<close> is \<open>defer\<close>, \<open>catchE\<close> is a call whose error the caller inspects.
\<close>

named_theorems evolve_rules \<open>introduction rules for evolves, one per effect combinator\<close>
named_theorems effect_defs \<open>definitions of the effect combinators\<close>

type_synonym ('w, 'e, 'a) eff = "'w \<Rightarrow> ('e + 'a) \<times> 'w"

definition returnE :: "'a \<Rightarrow> ('w, 'e, 'a) eff" where
  "returnE x = (\<lambda>w. (Inr x, w))"

definition throwE :: "'e \<Rightarrow> ('w, 'e, 'a) eff" where
  "throwE e = (\<lambda>w. (Inl e, w))"

definition bindE :: "('w, 'e, 'a) eff \<Rightarrow> ('a \<Rightarrow> ('w, 'e, 'b) eff) \<Rightarrow> ('w, 'e, 'b) eff" where
  "bindE m f = (\<lambda>w. case m w of (Inl e, w') \<Rightarrow> (Inl e, w') | (Inr x, w') \<Rightarrow> f x w')"

definition catchE :: "('w, 'e, 'a) eff \<Rightarrow> ('e + 'a \<Rightarrow> ('w, 'e, 'b) eff) \<Rightarrow> ('w, 'e, 'b) eff" where
  "catchE m f = (\<lambda>w. case m w of (r, w') \<Rightarrow> f r w')"

definition finallyE :: "('w, 'e, 'a) eff \<Rightarrow> ('w \<Rightarrow> 'w) \<Rightarrow> ('w, 'e, 'a) eff" where
  "finallyE m c = (\<lambda>w. case m w of (r, w') \<Rightarrow> (r, c w'))"

definition getE :: "('w \<Rightarrow> 'a) \<Rightarrow> ('w, 'e, 'a) eff" where
  "getE f = (\<lambda>w. (Inr (f w), w))"

definition modifyE :: "('w \<Rightarrow> 'w) \<Rightarrow> ('w, 'e, unit) eff" where
  "modifyE f = (\<lambda>w. (Inr (), f w))"

fun forE :: "'a list \<Rightarrow> ('a \<Rightarrow> ('w, 'e, unit) eff) \<Rightarrow> ('w, 'e, unit) eff" where
  "forE [] f = returnE ()"
| "forE (x # xs) f = bindE (f x) (\<lambda>_. forE xs f)"

fun foldE :: "('a \<Rightarrow> 'b \<Rightarrow> ('w, 'e, 'b) eff) \<Rightarrow> 'a list \<Rightarrow> 'b \<Rightarrow> ('w, 'e, 'b) eff" where
  "foldE f [] acc = returnE acc"
| "foldE f (x # xs) acc = bindE (f x acc) (\<lambda>acc'. foldE f xs acc')"

declare returnE_def [effect_defs] throwE_def [effect_defs] bindE_def [effect_defs]
  catchE_def [effect_defs] finallyE_def [effect_defs] getE_def [effect_defs]
  modifyE_def [effect_defs]

section \<open>Running the combinators\<close>

lemma returnE_apply [simp]: "returnE x w = (Inr x, w)"
  by (simp add: returnE_def)

lemma throwE_apply [simp]: "throwE e w = (Inl e, w)"
  by (simp add: throwE_def)

lemma getE_apply [simp]: "getE f w = (Inr (f w), w)"
  by (simp add: getE_def)

lemma modifyE_apply [simp]: "modifyE f w = (Inr (), f w)"
  by (simp add: modifyE_def)

lemma bindE_Inr: "m w = (Inr x, w') \<Longrightarrow> bindE m f w = f x w'"
  by (simp add: bindE_def)

lemma bindE_Inl: "m w = (Inl e, w') \<Longrightarrow> bindE m f w = (Inl e, w')"
  by (simp add: bindE_def)

lemma bindE_InrD:
  "bindE m f w = (Inr y, w'') \<Longrightarrow> \<exists>x w'. m w = (Inr x, w') \<and> f x w' = (Inr y, w'')"
  by (auto simp: bindE_def split: prod.splits sum.splits)

lemma bindE_InlD:
  "bindE m f w = (Inl e, w'') \<Longrightarrow>
     m w = (Inl e, w'') \<or> (\<exists>x w'. m w = (Inr x, w') \<and> f x w' = (Inl e, w''))"
  by (auto simp: bindE_def split: prod.splits sum.splits)

lemma bindE_returnE [simp]: "bindE (returnE x) f = f x"
  by (simp add: bindE_def fun_eq_iff)

lemma bindE_throwE [simp]: "bindE (throwE e) f = throwE e"
  by (simp add: bindE_def fun_eq_iff)

lemma snd_finallyE: "snd (finallyE m c w) = c (snd (m w))"
  by (simp add: finallyE_def split: prod.splits)

lemma fst_finallyE: "fst (finallyE m c w) = fst (m w)"
  by (simp add: finallyE_def split: prod.splits)

section \<open>How an effect may change the state\<close>

text \<open>
  \<open>evolves R m\<close>: whatever \<open>m\<close> answers, the state after it is related to the state
  before it by \<open>R\<close>.  With \<open>R w w' = (f w' = f w)\<close> it is a frame property.  The rules of
  \<open>evolve_rules\<close> push it through every combinator for a reflexive and transitive \<open>R\<close>.
\<close>

definition evolves :: "('w \<Rightarrow> 'w \<Rightarrow> bool) \<Rightarrow> ('w, 'e, 'a) eff \<Rightarrow> bool" where
  "evolves R m \<longleftrightarrow> (\<forall>w. R w (snd (m w)))"

definition preorder_rel :: "('w \<Rightarrow> 'w \<Rightarrow> bool) \<Rightarrow> bool" where
  "preorder_rel R \<longleftrightarrow> reflp R \<and> transp R"

definition keeping :: "('w \<Rightarrow> 'x) \<Rightarrow> 'w \<Rightarrow> 'w \<Rightarrow> bool" where
  "keeping f w w' \<longleftrightarrow> f w' = f w"

lemma preorder_keeping [simp]: "preorder_rel (keeping f)"
  by (auto simp: preorder_rel_def keeping_def reflp_def transp_def)

lemma evolvesD: "evolves R m \<Longrightarrow> m w = (r, w') \<Longrightarrow> R w w'"
  by (metis evolves_def snd_conv)

lemma evolves_keepingD: "evolves (keeping f) m \<Longrightarrow> f (snd (m w)) = f w"
  by (simp add: evolves_def keeping_def)

lemma evolves_returnE [evolve_rules]: "preorder_rel R \<Longrightarrow> evolves R (returnE x)"
  by (simp add: evolves_def preorder_rel_def reflp_def)

lemma evolves_throwE [evolve_rules]: "preorder_rel R \<Longrightarrow> evolves R (throwE e)"
  by (simp add: evolves_def preorder_rel_def reflp_def)

lemma evolves_getE [evolve_rules]: "preorder_rel R \<Longrightarrow> evolves R (getE f)"
  by (simp add: evolves_def preorder_rel_def reflp_def)

lemma evolves_modifyE [evolve_rules]: "(\<And>w. R w (f w)) \<Longrightarrow> evolves R (modifyE f)"
  by (simp add: evolves_def)

lemma evolves_catchE [evolve_rules]:
  assumes "preorder_rel R" "evolves R m" "\<And>r. evolves R (f r)"
  shows "evolves R (catchE m f)"
  unfolding evolves_def
proof
  fix w
  obtain r w' where m: "m w = (r, w')" by fastforce
  then have "R w w'" using assms(2) by (rule evolvesD [rotated])
  moreover have "R w' (snd (f r w'))" using assms(3) by (simp add: evolves_def)
  ultimately show "R w (snd (catchE m f w))"
    using assms(1) m unfolding preorder_rel_def transp_def catchE_def by auto
qed

lemma bindE_catchE: "bindE m f = catchE m (\<lambda>r. case r of Inl e \<Rightarrow> throwE e | Inr x \<Rightarrow> f x)"
  by (auto simp: bindE_def catchE_def fun_eq_iff split: prod.splits sum.splits)

lemma evolves_bindE [evolve_rules]:
  assumes "preorder_rel R" "evolves R m" "\<And>x. evolves R (f x)"
  shows "evolves R (bindE m f)"
  unfolding bindE_catchE
  by (rule evolves_catchE) (auto simp: assms evolves_throwE split: sum.splits)

lemma evolves_finallyE [evolve_rules]:
  assumes "preorder_rel R" "evolves R m" "\<And>w. R w (c w)"
  shows "evolves R (finallyE m c)"
  using assms unfolding evolves_def preorder_rel_def transp_def snd_finallyE by blast

lemma evolves_if [evolve_rules]:
  "(b \<Longrightarrow> evolves R m) \<Longrightarrow> (\<not> b \<Longrightarrow> evolves R n) \<Longrightarrow> evolves R (if b then m else n)"
  by simp

lemma evolves_case_sum [evolve_rules]:
  "(\<And>e. evolves R (f e)) \<Longrightarrow> (\<And>x. evolves R (g x)) \<Longrightarrow>
     evolves R (case r of Inl e \<Rightarrow> f e | Inr x \<Rightarrow> g x)"
  by (cases r) auto

lemma evolves_case_option [evolve_rules]:
  "evolves R f \<Longrightarrow> (\<And>x. evolves R (g x)) \<Longrightarrow>
     evolves R (case r of None \<Rightarrow> f | Some x \<Rightarrow> g x)"
  by (cases r) auto

lemma evolves_case_prod [evolve_rules]:
  "(\<And>x y. evolves R (f x y)) \<Longrightarrow> evolves R (case p of (x, y) \<Rightarrow> f x y)"
  by (cases p) auto

lemma evolves_case_list [evolve_rules]:
  "evolves R f \<Longrightarrow> (\<And>x xs. evolves R (g x xs)) \<Longrightarrow>
     evolves R (case l of [] \<Rightarrow> f | x # xs \<Rightarrow> g x xs)"
  by (cases l) auto

lemma evolves_Let [evolve_rules]:
  "(\<And>y. y = x \<Longrightarrow> evolves R (f y)) \<Longrightarrow> evolves R (let y = x in f y)"
  by simp

lemma evolves_forE [evolve_rules]:
  "preorder_rel R \<Longrightarrow> (\<And>x. evolves R (f x)) \<Longrightarrow> evolves R (forE xs f)"
  by (induction xs) (auto intro!: evolve_rules)

lemma evolves_foldE [evolve_rules]:
  "preorder_rel R \<Longrightarrow> (\<And>x acc. evolves R (f x acc)) \<Longrightarrow> evolves R (foldE f xs acc)"
  by (induction xs arbitrary: acc) (auto intro!: evolve_rules)

section \<open>What an effect guarantees\<close>

text \<open>
  \<open>wp m Q X w\<close>: run in \<open>w\<close>, the effect ends with \<open>Q\<close> when it returns and with \<open>X\<close> when it
  throws.  The equations of \<open>wp_simps\<close> turn a composed effect into its calls; loops go by an
  invariant.
\<close>

named_theorems wp_simps \<open>equations that compute wp of the effect combinators\<close>

definition wp :: "('w, 'e, 'a) eff \<Rightarrow> ('a \<Rightarrow> 'w \<Rightarrow> bool) \<Rightarrow> ('e \<Rightarrow> 'w \<Rightarrow> bool) \<Rightarrow> 'w \<Rightarrow> bool" where
  "wp m Q X w = (case m w of (Inl e, w') \<Rightarrow> X e w' | (Inr x, w') \<Rightarrow> Q x w')"

lemma wp_InrD: "wp m Q X w \<Longrightarrow> m w = (Inr x, w') \<Longrightarrow> Q x w'"
  by (simp add: wp_def)

lemma wp_InlD: "wp m Q X w \<Longrightarrow> m w = (Inl e, w') \<Longrightarrow> X e w'"
  by (simp add: wp_def)

lemma wpI: "(\<And>x w'. m w = (Inr x, w') \<Longrightarrow> Q x w') \<Longrightarrow> (\<And>e w'. m w = (Inl e, w') \<Longrightarrow> X e w') \<Longrightarrow> wp m Q X w"
  by (auto simp: wp_def split: prod.splits sum.splits)

lemma wp_mono:
  "wp m Q X w \<Longrightarrow> (\<And>x w'. Q x w' \<Longrightarrow> Q' x w') \<Longrightarrow> (\<And>e w'. X e w' \<Longrightarrow> X' e w') \<Longrightarrow> wp m Q' X' w"
  by (auto simp: wp_def split: prod.splits sum.splits)

lemma wp_returnE [wp_simps]: "wp (returnE x) Q X w \<longleftrightarrow> Q x w"
  by (simp add: wp_def)

lemma wp_returnE_fun [wp_simps]: "wp (returnE x) Q X = Q x"
  by (simp add: wp_def fun_eq_iff)

lemma wp_throwE [wp_simps]: "wp (throwE e) Q X w \<longleftrightarrow> X e w"
  by (simp add: wp_def)

lemma wp_getE [wp_simps]: "wp (getE f) Q X w \<longleftrightarrow> Q (f w) w"
  by (simp add: wp_def)

lemma wp_modifyE [wp_simps]: "wp (modifyE f) Q X w \<longleftrightarrow> Q () (f w)"
  by (simp add: wp_def)

lemma wp_bindE [wp_simps]: "wp (bindE m f) Q X w \<longleftrightarrow> wp m (\<lambda>x. wp (f x) Q X) X w"
  by (auto simp: wp_def bindE_def split: prod.splits sum.splits)

lemma wp_catchE [wp_simps]:
  "wp (catchE m f) Q X w \<longleftrightarrow> wp m (\<lambda>x. wp (f (Inr x)) Q X) (\<lambda>e. wp (f (Inl e)) Q X) w"
  by (auto simp: wp_def catchE_def split: prod.splits sum.splits)

lemma wp_finallyE [wp_simps]:
  "wp (finallyE m c) Q X w \<longleftrightarrow> wp m (\<lambda>x w'. Q x (c w')) (\<lambda>e w'. X e (c w')) w"
  by (auto simp: wp_def finallyE_def split: prod.splits sum.splits)

lemma wp_if [wp_simps]: "wp (if b then m else n) Q X w \<longleftrightarrow> (if b then wp m Q X w else wp n Q X w)"
  by simp

lemma wp_forE:
  assumes "\<And>x w. x \<in> set xs \<Longrightarrow> I w \<Longrightarrow> wp (f x) (\<lambda>_. I) X w" "I w"
  shows "wp (forE xs f) (\<lambda>_. I) X w"
  using assms
proof (induction xs arbitrary: w)
  case (Cons x xs)
  have "wp (f x) (\<lambda>_. I) X w" using Cons.prems by simp
  then have "wp (f x) (\<lambda>_. wp (forE xs f) (\<lambda>_. I) X) X w"
    by (rule wp_mono) (use Cons in auto)
  then show ?case by (simp add: wp_simps)
qed (simp add: wp_simps)

text \<open>The invariant of a fold sees the elements already folded.\<close>

lemma wp_foldE:
  assumes "\<And>ys x zs acc w. xs = ys @ x # zs \<Longrightarrow> I ys acc w \<Longrightarrow> wp (f x acc) (I (ys @ [x])) X w"
    and "I [] acc w"
  shows "wp (foldE f xs acc) (I xs) X w"
proof -
  have run: "wp (foldE f zs acc) (I xs) X w" if "xs = ys @ zs" "I ys acc w" for ys zs acc w
    using that
  proof (induction zs arbitrary: ys acc w)
    case (Cons z zs)
    have "wp (f z acc) (I (ys @ [z])) X w" using assms(1) Cons.prems by blast
    then have "wp (f z acc) (\<lambda>acc'. wp (foldE f zs acc') (I xs) X) X w"
      by (rule wp_mono) (use Cons in auto)
    then show ?case by (simp add: wp_simps)
  qed (simp add: wp_simps)
  show ?thesis by (rule run [of "[]"]) (simp_all add: assms(2))
qed

lemma wp_forE_prefix:
  assumes "\<And>ys x zs w. xs = ys @ x # zs \<Longrightarrow> I ys w \<Longrightarrow> wp (f x) (\<lambda>_. I (ys @ [x])) X w"
    and "I [] w"
  shows "wp (forE xs f) (\<lambda>_. I xs) X w"
proof -
  have run: "wp (forE zs f) (\<lambda>_. I xs) X w" if "xs = ys @ zs" "I ys w" for ys zs w
    using that
  proof (induction zs arbitrary: ys w)
    case (Cons z zs)
    have "wp (f z) (\<lambda>_. I (ys @ [z])) X w" using assms(1) Cons.prems by blast
    then have "wp (f z) (\<lambda>_. wp (forE zs f) (\<lambda>_. I xs) X) X w"
      by (rule wp_mono) (use Cons in auto)
    then show ?case by (simp add: wp_simps)
  qed (simp add: wp_simps)
  show ?thesis by (rule run [of "[]"]) (simp_all add: assms(2))
qed

section \<open>Lists the components share\<close>

text \<open>Go's \<open>map[k]v\<close> lookup with the zero value of a missing key.\<close>

definition lookup_default :: "'v \<Rightarrow> ('k \<rightharpoonup> 'v) \<Rightarrow> 'k \<Rightarrow> 'v" where
  "lookup_default d m k = (case m k of None \<Rightarrow> d | Some v \<Rightarrow> v)"

lemma lookup_default_upd [simp]:
  "lookup_default d (m(k \<mapsto> v)) k' = (if k' = k then v else lookup_default d m k')"
  by (simp add: lookup_default_def)

lemma lookup_default_del [simp]:
  "lookup_default d (m(k := None)) k' = (if k' = k then d else lookup_default d m k')"
  by (simp add: lookup_default_def)

lemma lookup_default_empty [simp]: "lookup_default d (\<lambda>_. None) k = d"
  by (simp add: lookup_default_def)

text \<open>The first element that satisfies a condition, as a \<open>for\<close> loop with \<open>return\<close> finds it.\<close>

lemma find_None_filter: "find P xs = None \<longleftrightarrow> filter P xs = []"
  by (induction xs) auto

lemma find_SomeD: "find P xs = Some x \<Longrightarrow> x \<in> set xs \<and> P x"
  by (induction xs) (auto split: if_splits)

text \<open>Keep the first of the elements with equal keys, as a \<open>seen\<close> map in a loop does.\<close>

fun dedup_by :: "('a \<Rightarrow> 'k) \<Rightarrow> 'k list \<Rightarrow> 'a list \<Rightarrow> 'a list" where
  "dedup_by k seen [] = []"
| "dedup_by k seen (x # xs) =
     (if k x \<in> set seen then dedup_by k seen xs else x # dedup_by k (k x # seen) xs)"

lemma dedup_by_subset: "set (dedup_by k seen xs) \<subseteq> set xs"
  by (induction k seen xs rule: dedup_by.induct) (auto split: if_splits)

lemma dedup_by_fresh: "x \<in> set (dedup_by k seen xs) \<Longrightarrow> k x \<notin> set seen"
  by (induction k seen xs rule: dedup_by.induct) (auto split: if_splits)

lemma dedup_by_distinct: "distinct (map k (dedup_by k seen xs))"
  by (induction k seen xs rule: dedup_by.induct)
     (auto split: if_splits dest: dedup_by_fresh)

lemma dedup_by_keys: "k ` set (dedup_by k seen xs) = k ` set xs - set seen"
  by (induction k seen xs rule: dedup_by.induct) (auto split: if_splits)

end
