(* ===== verification/Errs.thy ===== *)
theory Errs
  imports GoStrings
begin

text \<open>
  Package \<open>internal/errs\<close>: the launcher's coded error, the sentinel errors the services
  compare with, and \<open>errors.Is\<close> / \<open>errors.As\<close> along the chain of causes.
\<close>

text \<open>
  \<open>AppError\<close> wraps its cause, \<open>WrapError\<close> is \<open>fmt.Errorf("text: %w", err)\<close>.  \<open>OsNotExist\<close> and \<open>OsPermission\<close> are the errors of
  the \<open>os\<close> package that \<open>errors.Is\<close> recognises as \<open>os.ErrNotExist\<close> and
  \<open>os.ErrPermission\<close>; \<open>OtherError\<close> is any further error, with its text.
\<close>

datatype go_error =
    AppError (err_code: string) (err_message: string) (err_retryable: bool) (err_cause: "go_error option")
  | WrapError string go_error
  | NotFoundError
  | KeyActiveError
  | ModFileExistsError
  | LocalModNotMatchedError
  | LocalModAlreadyExistsError
  | ReleaseBusyError string string
  | OsNotExist string
  | OsPermission string
  | CtxCanceled
  | OtherError string

type_synonym 'a result = "go_error + 'a"

definition NewError :: "string \<Rightarrow> string \<Rightarrow> go_error" where
  "NewError code message = AppError code message False None"

text \<open>\<open>Error()\<close>: what a log line or a stored error message shows.\<close>

fun errorText :: "go_error \<Rightarrow> string" where
  "errorText (AppError code message _ _) = code @ '': '' @ message"
| "errorText (WrapError text e) = text @ '': '' @ errorText e"
| "errorText NotFoundError = ''not found''"
| "errorText KeyActiveError = ''operation key is already active''"
| "errorText ModFileExistsError = ''mod file already exists''"
| "errorText LocalModNotMatchedError = ''local mod not matched to the catalog''"
| "errorText LocalModAlreadyExistsError = ''local mod already in the library''"
| "errorText (ReleaseBusyError task key) = ''task '' @ task @ '' is downloading '' @ key"
| "errorText (OsNotExist text) = text"
| "errorText (OsPermission text) = text"
| "errorText CtxCanceled = ''context canceled''"
| "errorText (OtherError text) = text"

fun unwrapError :: "go_error \<Rightarrow> go_error option" where
  "unwrapError (AppError _ _ _ cause) = cause"
| "unwrapError (WrapError _ e) = Some e"
| "unwrapError _ = None"

text \<open>\<open>errors.Is\<close> against a class of sentinel values, along the chain of causes.\<close>

fun chainHas :: "(go_error \<Rightarrow> bool) \<Rightarrow> go_error \<Rightarrow> bool" where
  "chainHas p (AppError c m r (Some e)) = (p (AppError c m r (Some e)) \<or> chainHas p e)"
| "chainHas p (WrapError t e) = (p (WrapError t e) \<or> chainHas p e)"
| "chainHas p e = p e"

definition isNotExist :: "go_error \<Rightarrow> bool" where
  "isNotExist = chainHas is_OsNotExist"

definition isPermission :: "go_error \<Rightarrow> bool" where
  "isPermission = chainHas is_OsPermission"

definition isCanceled :: "go_error \<Rightarrow> bool" where
  "isCanceled = chainHas (\<lambda>e. e = CtxCanceled)"

definition errIs :: "go_error \<Rightarrow> go_error \<Rightarrow> bool" where
  "errIs e target = chainHas (\<lambda>x. x = target) e"

text \<open>\<open>errors.As\<close> to \<open>*AppError\<close>: the first coded error of the chain.\<close>

fun asAppError :: "go_error \<Rightarrow> go_error option" where
  "asAppError (AppError c m r cause) = Some (AppError c m r cause)"
| "asAppError (WrapError _ e) = asAppError e"
| "asAppError _ = None"

definition isAppErrorCode :: "go_error \<Rightarrow> string \<Rightarrow> bool" where
  "isAppErrorCode e code = (case asAppError e of None \<Rightarrow> False | Some a \<Rightarrow> err_code a = code)"

section \<open>Error codes\<close>

abbreviation "ErrValidation \<equiv> ''VALIDATION_ERROR''"
abbreviation "ErrOperationNotFound \<equiv> ''OPERATION_NOT_FOUND''"
abbreviation "ErrOperationInterrupted \<equiv> ''OPERATION_INTERRUPTED''"
abbreviation "ErrFilePermission \<equiv> ''FILE_PERMISSION_DENIED''"
abbreviation "ErrDownloadFailed \<equiv> ''DOWNLOAD_FAILED''"
abbreviation "ErrDataFolderBusy \<equiv> ''DATA_FOLDER_BUSY''"
abbreviation "ErrModVersionNotFound \<equiv> ''MOD_VERSION_NOT_FOUND''"
abbreviation "ErrModCatalog \<equiv> ''MOD_CATALOG_UNAVAILABLE''"
abbreviation "ErrModIncompatible \<equiv> ''MOD_INCOMPATIBLE''"
abbreviation "ErrModAlreadyActive \<equiv> ''MOD_DOWNLOAD_ALREADY_ACTIVE''"
abbreviation "ErrInvalidModFile \<equiv> ''INVALID_MOD_FILE''"
abbreviation "ErrModNotFound \<equiv> ''MOD_NOT_FOUND''"
abbreviation "ErrInstanceNotFound \<equiv> ''INSTANCE_NOT_FOUND''"
abbreviation "ErrInstanceRunning \<equiv> ''INSTANCE_ALREADY_RUNNING''"
abbreviation "ErrSnapshotInProgress \<equiv> ''SNAPSHOT_IN_PROGRESS''"
abbreviation "ErrAccountNotFound \<equiv> ''ACCOUNT_NOT_FOUND''"
abbreviation "ErrVersionNotFound \<equiv> ''GAME_VERSION_NOT_FOUND''"
abbreviation "ErrDirectoryConflict \<equiv> ''INSTANCE_DIRECTORY_CONFLICT''"
abbreviation "ErrProcessStart \<equiv> ''PROCESS_START_FAILED''"
abbreviation "ErrProcessStop \<equiv> ''PROCESS_STOP_FAILED''"
abbreviation "ErrSessionExpired \<equiv> ''SESSION_EXPIRED''"
abbreviation "ErrAuthNetwork \<equiv> ''AUTH_NETWORK_ERROR''"
abbreviation "ErrAuthServer \<equiv> ''AUTH_SERVER_ERROR''"
abbreviation "ErrAuthInvalidResponse \<equiv> ''AUTH_INVALID_RESPONSE''"
abbreviation "ErrAuthFlowExpired \<equiv> ''AUTH_FLOW_EXPIRED''"
abbreviation "ErrSecretStorage \<equiv> ''SECRET_STORAGE_ERROR''"
abbreviation "ErrClientSettings \<equiv> ''CLIENT_SETTINGS_ERROR''"
abbreviation "ErrInsufficientSpace \<equiv> ''INSUFFICIENT_DISK_SPACE''"
abbreviation "ErrPackageSecurity \<equiv> ''PACKAGE_SECURITY_VIOLATION''"
abbreviation "ErrPackageInvalid \<equiv> ''PACKAGE_INVALID''"
abbreviation "ErrPackageUnsupported \<equiv> ''PACKAGE_UNSUPPORTED_VERSION''"

lemma chainHas_self: "p e \<Longrightarrow> chainHas p e"
  by (induction p e rule: chainHas.induct) auto

lemma errIs_refl [simp]: "errIs e e"
  by (simp add: errIs_def chainHas_self)

lemma chainHas_cause: "chainHas p e \<Longrightarrow> chainHas p (AppError c m r (Some e))"
  by simp

lemma isAppErrorCode_NewError [simp]: "isAppErrorCode (NewError c m) c' \<longleftrightarrow> c = c'"
  by (simp add: isAppErrorCode_def NewError_def)

lemma NewError_inject [simp]: "NewError c m = NewError c' m' \<longleftrightarrow> c = c' \<and> m = m'"
  by (simp add: NewError_def)

lemma NewError_not_sentinel [simp]:
  "NewError c m \<noteq> KeyActiveError" "NewError c m \<noteq> ModFileExistsError"
  "NewError c m \<noteq> LocalModNotMatchedError" "NewError c m \<noteq> LocalModAlreadyExistsError"
  "NewError c m \<noteq> CtxCanceled" "NewError c m \<noteq> NotFoundError"
  by (simp_all add: NewError_def)

end
