(* ===== verification/Mutations.thy ===== *)
theory Mutations
  imports Errs
begin

text \<open>
  Package \<open>internal/mutations\<close>.  \<open>Gate\<close> separates the launcher's writes from the
  relocation of its data folder; \<open>Slot\<close> keeps the operations of one instance mutually
  exclusive.  Every Go method takes the mutex for its whole body, so a method is one
  atomic step, and concurrent callers are the step relations \<open>gate_step\<close> and \<open>slot_step\<close>
  over any interleaving of those steps.
\<close>

section \<open>Gate\<close>

record gate =
  relocating :: bool
  active :: int

definition newGate :: gate where
  "newGate = \<lparr>relocating = False, active = 0\<rparr>"

definition busyError :: go_error where
  "busyError = NewError ErrDataFolderBusy
     ''The data folder is being moved; wait for the relocation to finish''"

definition Begin :: "gate \<Rightarrow> unit result \<times> gate" where
  "Begin g = (if relocating g then (Inl busyError, g)
              else (Inr (), g\<lparr>active := active g + 1\<rparr>))"

definition End :: "gate \<Rightarrow> gate" where
  "End g = (if active g > 0 then g\<lparr>active := active g - 1\<rparr> else g)"

definition BeginRelocation :: "gate \<Rightarrow> unit result \<times> gate" where
  "BeginRelocation g = (if relocating g \<or> active g > 0 then (Inl busyError, g)
                        else (Inr (), g\<lparr>relocating := True\<rparr>))"

definition EndRelocation :: "gate \<Rightarrow> gate" where
  "EndRelocation g = g\<lparr>relocating := False\<rparr>"

definition Busy :: "gate \<Rightarrow> bool" where
  "Busy g = relocating g"

lemmas gate_defs = newGate_def Begin_def End_def BeginRelocation_def EndRelocation_def Busy_def

definition gate_inv :: "gate \<Rightarrow> bool" where
  "gate_inv g \<longleftrightarrow> 0 \<le> active g \<and> (relocating g \<longrightarrow> active g = 0)"

lemma gate_inv_new [simp]: "gate_inv newGate"
  by (simp add: gate_inv_def newGate_def)

lemma gate_inv_Begin [simp]: "gate_inv g \<Longrightarrow> gate_inv (snd (Begin g))"
  by (auto simp: gate_inv_def Begin_def)

lemma gate_inv_End [simp]: "gate_inv g \<Longrightarrow> gate_inv (End g)"
  by (auto simp: gate_inv_def End_def)

lemma gate_inv_BeginRelocation [simp]: "gate_inv g \<Longrightarrow> gate_inv (snd (BeginRelocation g))"
  by (auto simp: gate_inv_def BeginRelocation_def)

lemma gate_inv_EndRelocation [simp]: "gate_inv g \<Longrightarrow> gate_inv (EndRelocation g)"
  by (auto simp: gate_inv_def EndRelocation_def)

text \<open>A bracket of \<open>Begin\<close> and \<open>End\<close> leaves the gate as it was, nested brackets included.\<close>

lemma End_Begin: "0 \<le> active g \<Longrightarrow> Begin g = (Inr (), g') \<Longrightarrow> End g' = g"
  by (auto simp: Begin_def End_def split: if_splits)

lemma Begin_Inl: "Begin g = (Inl e, g') \<Longrightarrow> g' = g \<and> e = busyError \<and> relocating g"
  by (auto simp: Begin_def split: if_splits)

lemma Begin_Inr: "Begin g = (Inr u, g') \<Longrightarrow> \<not> relocating g \<and> g' = g\<lparr>active := active g + 1\<rparr>"
  by (auto simp: Begin_def split: if_splits)

subsection \<open>Concurrent writers and relocations\<close>

text \<open>
  The callers: a set of running mutations (by number) and at most one relocation, beside
  the shared gate.  A rule is one method call of one caller; a caller calls \<open>End\<close> only for
  a mutation it began, as every \<open>defer gate.End()\<close> of the launcher does.
\<close>

record gate_sys =
  sys_gate :: gate
  mutators :: "nat set"
  relocators :: "nat set"

definition gate_init :: gate_sys where
  "gate_init = \<lparr>sys_gate = newGate, mutators = {}, relocators = {}\<rparr>"

inductive gate_step :: "gate_sys \<Rightarrow> gate_sys \<Rightarrow> bool" where
  begin_ok: "Begin (sys_gate s) = (Inr (), g) \<Longrightarrow> t \<notin> mutators s \<Longrightarrow>
     gate_step s (s\<lparr>sys_gate := g, mutators := insert t (mutators s)\<rparr>)"
| begin_refused: "Begin (sys_gate s) = (Inl e, g) \<Longrightarrow> gate_step s (s\<lparr>sys_gate := g\<rparr>)"
| finish: "t \<in> mutators s \<Longrightarrow>
     gate_step s (s\<lparr>sys_gate := End (sys_gate s), mutators := mutators s - {t}\<rparr>)"
| relocate_ok: "BeginRelocation (sys_gate s) = (Inr (), g) \<Longrightarrow> t \<notin> relocators s \<Longrightarrow>
     gate_step s (s\<lparr>sys_gate := g, relocators := insert t (relocators s)\<rparr>)"
| relocate_refused: "BeginRelocation (sys_gate s) = (Inl e, g) \<Longrightarrow>
     gate_step s (s\<lparr>sys_gate := g\<rparr>)"
| relocate_finish: "t \<in> relocators s \<Longrightarrow>
     gate_step s (s\<lparr>sys_gate := EndRelocation (sys_gate s), relocators := relocators s - {t}\<rparr>)"

definition gate_reachable :: "gate_sys \<Rightarrow> bool" where
  "gate_reachable s \<longleftrightarrow> gate_step\<^sup>*\<^sup>* gate_init s"

definition gate_sys_inv :: "gate_sys \<Rightarrow> bool" where
  "gate_sys_inv s \<longleftrightarrow> finite (mutators s) \<and> active (sys_gate s) = int (card (mutators s)) \<and>
     (relocating (sys_gate s) \<longleftrightarrow> relocators s \<noteq> {}) \<and>
     finite (relocators s) \<and> card (relocators s) \<le> 1 \<and>
     (relocators s \<noteq> {} \<longrightarrow> mutators s = {})"

lemma End_gate_sys_inv:
  assumes "gate_sys_inv s" "t \<in> mutators s"
  shows "gate_sys_inv (s\<lparr>sys_gate := End (sys_gate s), mutators := mutators s - {t}\<rparr>)"
proof -
  from assms have fin: "finite (mutators s)" by (simp add: gate_sys_inv_def)
  with assms(2) have "0 < card (mutators s)" by (auto simp: card_gt_0_iff)
  moreover have "card (mutators s - {t}) = card (mutators s) - 1"
    using fin assms(2) by (simp add: card_Diff_singleton)
  ultimately show ?thesis using assms by (auto simp: gate_sys_inv_def End_def)
qed

lemma EndRelocation_gate_sys_inv:
  assumes "gate_sys_inv s" "t \<in> relocators s"
  shows "gate_sys_inv (s\<lparr>sys_gate := EndRelocation (sys_gate s), relocators := relocators s - {t}\<rparr>)"
proof -
  from assms have "finite (relocators s)" "card (relocators s) \<le> 1" "t \<in> relocators s"
    by (auto simp: gate_sys_inv_def)
  then have "relocators s = {t}"
    by (metis card_le_Suc0_iff_eq One_nat_def insertI1 is_singletonI' is_singleton_the_elem
        empty_iff singletonD)
  with assms show ?thesis by (auto simp: gate_sys_inv_def EndRelocation_def)
qed

lemma gate_step_inv: "gate_step s t \<Longrightarrow> gate_sys_inv s \<Longrightarrow> gate_sys_inv t"
proof (induction rule: gate_step.induct)
  case (begin_ok s g t)
  then show ?case by (auto simp: gate_sys_inv_def dest!: Begin_Inr)
next
  case (begin_refused s e g)
  then show ?case by (auto simp: gate_sys_inv_def dest!: Begin_Inl)
next
  case (finish t s)
  then show ?case by (simp add: End_gate_sys_inv)
next
  case (relocate_ok s g t)
  then have "\<not> relocating (sys_gate s)" "\<not> active (sys_gate s) > 0" "g = (sys_gate s)\<lparr>relocating := True\<rparr>"
    by (auto simp: BeginRelocation_def split: if_splits)
  with relocate_ok show ?case by (auto simp: gate_sys_inv_def card_insert_if)
next
  case (relocate_refused s e g)
  then have "g = sys_gate s" by (auto simp: BeginRelocation_def split: if_splits)
  with relocate_refused show ?case by simp
next
  case (relocate_finish t s)
  then show ?case by (simp add: EndRelocation_gate_sys_inv)
qed

lemma gate_init_inv: "gate_sys_inv gate_init"
  by (simp add: gate_sys_inv_def gate_init_def newGate_def)

lemma gate_reachable_inv: "gate_reachable s \<Longrightarrow> gate_sys_inv s"
  unfolding gate_reachable_def
  by (induction rule: rtranclp_induct) (simp_all add: gate_init_inv gate_step_inv)

text \<open>
  C31 (safety).  Whatever the interleaving, a relocation of the data folder and a mutation
  never run at the same time, at most one relocation runs, and the counter is the number
  of running mutations.
\<close>

theorem relocation_excludes_mutations:
  assumes "gate_reachable s"
  shows "(relocators s = {} \<or> mutators s = {}) \<and> card (relocators s) \<le> 1 \<and>
    active (sys_gate s) = int (card (mutators s))"
  using gate_reachable_inv [OF assms] by (auto simp: gate_sys_inv_def)

lemma one_mutation_reachable:
  "gate_reachable (gate_init\<lparr>sys_gate := newGate\<lparr>active := 1\<rparr>, mutators := {7}\<rparr>)"
  unfolding gate_reachable_def
  by (rule r_into_rtranclp, subst gate_step.simps)
     (auto simp: gate_init_def newGate_def Begin_def)

lemma relocation_excludes_mutations_witness:
  "card (relocators (gate_init\<lparr>sys_gate := newGate\<lparr>active := 1\<rparr>, mutators := {7}\<rparr>)) \<le> 1"
  using relocation_excludes_mutations [OF one_mutation_reachable] by blast

section \<open>Slot\<close>

type_synonym slot = "string \<rightharpoonup> string"

definition newSlot :: slot where
  "newSlot = Map.empty"

definition BusyMarker :: "slot \<Rightarrow> string \<Rightarrow> string" where
  "BusyMarker s i = lookup_default [] s i"

definition IsBusy :: "slot \<Rightarrow> string \<Rightarrow> bool" where
  "IsBusy s i \<longleftrightarrow> BusyMarker s i \<noteq> []"

text \<open>
  \<open>TryAcquire\<close> answers the current marker, empty when the slot was free and is now
  reserved.  The release function it returns is \<open>Release\<close> on the same arguments.
\<close>

definition TryAcquire :: "slot \<Rightarrow> string \<Rightarrow> string \<Rightarrow> string \<times> slot" where
  "TryAcquire s i m = (if BusyMarker s i \<noteq> [] then (BusyMarker s i, s) else ([], s(i \<mapsto> m)))"

definition Release :: "slot \<Rightarrow> string \<Rightarrow> string \<Rightarrow> slot" where
  "Release s i m = (if BusyMarker s i = m then s(i := None) else s)"

definition SetMarker :: "slot \<Rightarrow> string \<Rightarrow> string \<Rightarrow> slot" where
  "SetMarker s i m = s(i \<mapsto> m)"

lemma BusyMarker_new [simp]: "BusyMarker newSlot i = []"
  by (simp add: BusyMarker_def newSlot_def)

lemma BusyMarker_Set [simp]: "BusyMarker (SetMarker s i m) j = (if j = i then m else BusyMarker s j)"
  by (simp add: BusyMarker_def SetMarker_def)

lemma BusyMarker_Release [simp]:
  "BusyMarker (Release s i m) j = (if j = i \<and> BusyMarker s i = m then [] else BusyMarker s j)"
  by (simp add: BusyMarker_def Release_def)

lemma BusyMarker_TryAcquire [simp]:
  "BusyMarker (snd (TryAcquire s i m)) j =
     (if j = i \<and> BusyMarker s i = [] then m else BusyMarker s j)"
  by (simp add: BusyMarker_def TryAcquire_def)

lemma TryAcquire_free: "fst (TryAcquire s i m) = [] \<longleftrightarrow> BusyMarker s i = []"
  by (simp add: TryAcquire_def)

lemma TryAcquire_busy: "BusyMarker s i \<noteq> [] \<Longrightarrow> TryAcquire s i m = (BusyMarker s i, s)"
  by (simp add: TryAcquire_def)

lemma Release_stale: "BusyMarker s i \<noteq> m \<Longrightarrow> Release s i m = s"
  by (simp add: Release_def)

subsection \<open>The contract of a slot\<close>

text \<open>
  What the slot promises the services that reserve instances through it: a free
  instance can be reserved, a reserved one is refused with its holder and nothing
  changes, and a release frees exactly its own reservation.
\<close>

locale instance_slot =
  fixes holder :: "'s \<Rightarrow> string \<Rightarrow> string"
    and acquire :: "'s \<Rightarrow> string \<Rightarrow> string \<Rightarrow> string \<times> 's"
    and release :: "'s \<Rightarrow> string \<Rightarrow> string \<Rightarrow> 's"
  assumes acquire_busy: "holder s i \<noteq> [] \<Longrightarrow> acquire s i m = (holder s i, s)"
    and acquire_free: "holder s i = [] \<Longrightarrow> fst (acquire s i m) = []"
    and holder_acquire: "holder s i = [] \<Longrightarrow> holder (snd (acquire s i m)) = (holder s)(i := m)"
    and holder_release:
      "holder (release s i m) = (if holder s i = m then (holder s)(i := []) else holder s)"
begin

lemma acquire_granted: "fst (acquire s i m) = [] \<longleftrightarrow> holder s i = []"
  using acquire_busy acquire_free by (metis fst_conv)

text \<open>
  Mutual exclusion: while a non-empty marker holds an instance, every further request for
  it is refused without effect, and the instances of the others are untouched.
\<close>

lemma exclusive:
  assumes "fst (acquire s i m) = []" "m \<noteq> []"
  shows "acquire (snd (acquire s i m)) i m' = (m, snd (acquire s i m))"
  using assms by (simp add: acquire_granted holder_acquire acquire_busy)

lemma frame:
  assumes "fst (acquire s i m) = []" "j \<noteq> i"
  shows "holder (snd (acquire s i m)) j = holder s j"
  using assms by (simp add: acquire_granted holder_acquire)

lemma bracket:
  assumes "fst (acquire s i m) = []" "holder s' = holder (snd (acquire s i m))"
  shows "holder (release s' i m) = holder s"
  using assms by (auto simp: acquire_granted holder_acquire holder_release fun_eq_iff)

lemma stale_release:
  assumes "holder s i \<noteq> m" shows "holder (release s i m) = holder s"
  using assms by (simp add: holder_release)

end

interpretation slot: instance_slot BusyMarker TryAcquire Release
  by unfold_locales
     (auto simp: TryAcquire_busy TryAcquire_free fun_eq_iff)

subsection \<open>Concurrent operations on the slot\<close>

text \<open>
  The reservations the callers hold, as triples of caller, instance and marker.  A caller
  releases a reservation it holds; \<open>stale\<close> is a release function called again after the
  instance went to an operation with another marker, and \<open>override\<close> is a restore that
  holds the instance and makes its operation the visible holder.
\<close>

record slot_sys =
  sys_slot :: slot
  held :: "(nat \<times> string \<times> string) set"

definition slot_init :: slot_sys where
  "slot_init = \<lparr>sys_slot = newSlot, held = {}\<rparr>"

inductive slot_step :: "slot_sys \<Rightarrow> slot_sys \<Rightarrow> bool" where
  acquire: "TryAcquire (sys_slot s) i m = ([], sl) \<Longrightarrow> m \<noteq> [] \<Longrightarrow>
     slot_step s (s\<lparr>sys_slot := sl, held := insert (t, i, m) (held s)\<rparr>)"
| refused: "TryAcquire (sys_slot s) i m = (h, sl) \<Longrightarrow> h \<noteq> [] \<Longrightarrow>
     slot_step s (s\<lparr>sys_slot := sl\<rparr>)"
| release: "(t, i, m) \<in> held s \<Longrightarrow>
     slot_step s (s\<lparr>sys_slot := Release (sys_slot s) i m, held := held s - {(t, i, m)}\<rparr>)"
| stale: "BusyMarker (sys_slot s) i \<noteq> m \<Longrightarrow>
     slot_step s (s\<lparr>sys_slot := Release (sys_slot s) i m\<rparr>)"
| override: "(t, i, m) \<in> held s \<Longrightarrow> m' \<noteq> [] \<Longrightarrow>
     slot_step s (s\<lparr>sys_slot := SetMarker (sys_slot s) i m',
                    held := insert (t, i, m') (held s - {(t, i, m)})\<rparr>)"

definition slot_reachable :: "slot_sys \<Rightarrow> bool" where
  "slot_reachable s \<longleftrightarrow> slot_step\<^sup>*\<^sup>* slot_init s"

definition slot_inv :: "slot_sys \<Rightarrow> bool" where
  "slot_inv s \<longleftrightarrow>
     (\<forall>t i m. (t, i, m) \<in> held s \<longrightarrow> m \<noteq> [] \<and> BusyMarker (sys_slot s) i = m) \<and>
     (\<forall>t t' i m m'. (t, i, m) \<in> held s \<longrightarrow> (t', i, m') \<in> held s \<longrightarrow> t = t')"

lemma slot_invI:
  assumes "\<And>t i m. (t, i, m) \<in> held s \<Longrightarrow> m \<noteq> [] \<and> BusyMarker (sys_slot s) i = m"
    and "\<And>t t' i m m'. (t, i, m) \<in> held s \<Longrightarrow> (t', i, m') \<in> held s \<Longrightarrow> t = t'"
  shows "slot_inv s"
  using assms unfolding slot_inv_def by blast

lemma slot_inv_marker: "slot_inv s \<Longrightarrow> (t, i, m) \<in> held s \<Longrightarrow> m \<noteq> [] \<and> BusyMarker (sys_slot s) i = m"
  unfolding slot_inv_def by blast

lemma slot_inv_owner: "slot_inv s \<Longrightarrow> (t, i, m) \<in> held s \<Longrightarrow> (t', i, m') \<in> held s \<Longrightarrow> t' = t \<and> m' = m"
  unfolding slot_inv_def by blast

lemma slot_init_inv: "slot_inv slot_init"
  by (simp add: slot_inv_def slot_init_def)

lemma slot_step_inv: "slot_step s u \<Longrightarrow> slot_inv s \<Longrightarrow> slot_inv u"
proof (induction rule: slot_step.induct)
  case (acquire s i m sl t)
  then have free: "BusyMarker (sys_slot s) i = []" and sl: "sl = (sys_slot s)(i \<mapsto> m)"
    by (auto simp: TryAcquire_def split: if_splits)
  then have none: "(t', i, m') \<notin> held s" for t' m'
    using slot_inv_marker [OF acquire.prems] by auto
  show ?case
    by (rule slot_invI)
       (use acquire none sl in \<open>auto simp: BusyMarker_def dest: slot_inv_marker slot_inv_owner\<close>)
next
  case (refused s i m h sl)
  then show ?case by (auto simp: TryAcquire_def split: if_splits)
next
  case (release t i m s)
  show ?case
  proof (rule slot_invI)
    fix t' i' m'
    assume "(t', i', m') \<in> held (s\<lparr>sys_slot := Release (sys_slot s) i m, held := held s - {(t, i, m)}\<rparr>)"
    then have h: "(t', i', m') \<in> held s" "(t', i', m') \<noteq> (t, i, m)" by auto
    then have "i' \<noteq> i" using slot_inv_owner [OF release.prems release.hyps] by blast
    with slot_inv_marker [OF release.prems h(1)]
    show "m' \<noteq> [] \<and> BusyMarker (sys_slot (s\<lparr>sys_slot := Release (sys_slot s) i m,
        held := held s - {(t, i, m)}\<rparr>)) i' = m'" by simp
  next
    fix t1 t2 i' m1 m2
    assume "(t1, i', m1) \<in> held (s\<lparr>sys_slot := Release (sys_slot s) i m, held := held s - {(t, i, m)}\<rparr>)"
      and "(t2, i', m2) \<in> held (s\<lparr>sys_slot := Release (sys_slot s) i m, held := held s - {(t, i, m)}\<rparr>)"
    then show "t1 = t2" using slot_inv_owner [OF release.prems, of t1 i' m1 t2 m2] by simp
  qed
next
  case (stale s i m)
  then show ?case by (simp add: Release_stale)
next
  case (override t i m s m')
  have only: "(t'', i, m'') \<in> held s \<Longrightarrow> t'' = t \<and> m'' = m" for t'' m''
    using slot_inv_owner [OF override.prems override.hyps(1)] .
  show ?case
    by (rule slot_invI)
       (use override.hyps(2) only in \<open>auto dest: slot_inv_marker [OF override.prems]
          slot_inv_owner [OF override.prems]\<close>)
qed

lemma slot_reachable_inv: "slot_reachable s \<Longrightarrow> slot_inv s"
  unfolding slot_reachable_def
  by (induction rule: rtranclp_induct) (simp_all add: slot_init_inv slot_step_inv)


lemma one_holder_reachable:
  "slot_reachable \<lparr>sys_slot = newSlot(''i'' \<mapsto> ''m''), held = {(1, ''i'', ''m'')}\<rparr>"
  unfolding slot_reachable_def
  by (rule r_into_rtranclp, subst slot_step.simps)
     (auto simp: slot_init_def TryAcquire_def)


end
