(* ===== verification/Registry.thy ===== *)
theory Registry
  imports Mutations "HOL-Library.AList"
begin

text \<open>
  \<open>internal/launching/registry.go\<close>: the running games and the per-instance reservations.
  The running-game map is an association list (Go's map iteration order is the order of
  the list); the process handle, the log and the cleanup function of a game are opaque
  values of the type parameter.  \<open>launchMu\<close> makes \<open>Guard\<close> one atomic step.
\<close>

abbreviation "MutationLockMarker \<equiv> ''instance-mutation''"
abbreviation "SnapshotReservationMarker \<equiv> ''snapshot-reservation''"

record 'p running_game =
  process :: 'p
  sessionID :: string
  started :: int
  client :: string

record 'p registry =
  slots :: slot
  games :: "(string \<times> 'p running_game) list"

definition NewRegistry :: "slot \<Rightarrow> 'p registry" where
  "NewRegistry s = \<lparr>slots = s, games = []\<rparr>"

definition Running :: "'p registry \<Rightarrow> string \<Rightarrow> bool" where
  "Running r i \<longleftrightarrow> map_of (games r) i \<noteq> None"

definition instanceBusyError :: go_error where
  "instanceBusyError = NewError ErrSnapshotInProgress
     ''Wait for the running operation on this instance to finish''"

definition Guard :: "'p registry \<Rightarrow> string \<Rightarrow> string \<Rightarrow> string \<Rightarrow> unit result \<times> 'p registry" where
  "Guard r i marker runningMessage =
     (if Running r i then (Inl (NewError ErrInstanceRunning runningMessage), r)
      else (case TryAcquire (slots r) i marker of
              (hld, s) \<Rightarrow> (if hld \<noteq> [] then (Inl instanceBusyError, r\<lparr>slots := s\<rparr>)
                         else (Inr (), r\<lparr>slots := s\<rparr>))))"

definition Lock :: "'p registry \<Rightarrow> string \<Rightarrow> string \<Rightarrow> unit result \<times> 'p registry" where
  "Lock r i marker =
     (case TryAcquire (slots r) i marker of
        (hld, s) \<Rightarrow> (if hld \<noteq> [] then (Inl instanceBusyError, r\<lparr>slots := s\<rparr>)
                   else (Inr (), r\<lparr>slots := s\<rparr>)))"

definition releaseSlot :: "'p registry \<Rightarrow> string \<Rightarrow> string \<Rightarrow> 'p registry" where
  "releaseSlot r i marker = r\<lparr>slots := Release (slots r) i marker\<rparr>"

definition InstanceBusy :: "'p registry \<Rightarrow> string \<Rightarrow> bool" where
  "InstanceBusy r i = IsBusy (slots r) i"

definition ClientRunning :: "'p registry \<Rightarrow> string \<Rightarrow> bool" where
  "ClientRunning r c = list_ex (\<lambda>(_, g). client g = c) (games r)"

definition StartGame :: "'p registry \<Rightarrow> string \<Rightarrow> 'p running_game \<Rightarrow> 'p registry" where
  "StartGame r i g = r\<lparr>games := AList.update i g (games r)\<rparr>"

definition GetGame :: "'p registry \<Rightarrow> string \<Rightarrow> 'p running_game option" where
  "GetGame r i = map_of (games r) i"

definition StopGame :: "'p registry \<Rightarrow> string \<Rightarrow> 'p registry" where
  "StopGame r i = r\<lparr>games := AList.delete i (games r)\<rparr>"

definition RunningInstanceIDs :: "'p registry \<Rightarrow> string list" where
  "RunningInstanceIDs r = sort_strings (map fst (games r))"

definition registry_inv :: "'p registry \<Rightarrow> bool" where
  "registry_inv r \<longleftrightarrow> distinct (map fst (games r))"

section \<open>Facts\<close>

lemma registry_inv_New [simp]: "registry_inv (NewRegistry s)"
  by (simp add: registry_inv_def NewRegistry_def)

lemma registry_inv_Start [simp]: "registry_inv r \<Longrightarrow> registry_inv (StartGame r i g)"
  by (simp add: registry_inv_def StartGame_def distinct_update)

lemma registry_inv_Stop [simp]: "registry_inv r \<Longrightarrow> registry_inv (StopGame r i)"
  by (simp add: registry_inv_def StopGame_def distinct_delete)

lemma Guard_games [simp]: "games (snd (Guard r i m e)) = games r"
  by (auto simp: Guard_def split: prod.splits)

lemma Lock_games [simp]: "games (snd (Lock r i m)) = games r"
  by (auto simp: Lock_def split: prod.splits)

lemma Guard_not_running: "\<not> Running r i \<Longrightarrow> Guard r i m e = Lock r i m"
  by (simp add: Guard_def Lock_def)

lemma Lock_eq:
  "Lock r i m = (if BusyMarker (slots r) i \<noteq> [] then (Inl instanceBusyError, r)
                 else (Inr (), r\<lparr>slots := (slots r)(i \<mapsto> m)\<rparr>))"
  by (simp add: Lock_def TryAcquire_def)

lemma GetGame_Start [simp]: "GetGame (StartGame r i g) j = (if j = i then Some g else GetGame r j)"
  by (simp add: GetGame_def StartGame_def update_conv)

lemma GetGame_Stop [simp]: "GetGame (StopGame r i) j = (if j = i then None else GetGame r j)"
  by (simp add: GetGame_def StopGame_def delete_conv)

lemma Running_GetGame: "Running r i \<longleftrightarrow> GetGame r i \<noteq> None"
  by (simp add: Running_def GetGame_def)

lemma set_RunningInstanceIDs: "set (RunningInstanceIDs r) = {i. Running r i}"
  by (auto simp: RunningInstanceIDs_def Running_def map_of_eq_None_iff)

text \<open>
  A guard is granted exactly for an instance that has no running game and no
  reservation, it then holds the reservation against every later guard or lock, and
  releasing it gives back the reservations the registry had before.
\<close>

theorem guard_reserves:
  "(fst (Guard r i m e) = Inr () \<longleftrightarrow> \<not> Running r i \<and> \<not> InstanceBusy r i) \<and>
   (fst (Guard r i m e) \<noteq> Inr () \<longrightarrow> snd (Guard r i m e) = r) \<and>
   (fst (Guard r i m e) = Inr () \<longrightarrow> m \<noteq> [] \<longrightarrow>
      (let r' = snd (Guard r i m e)
       in fst (Guard r' i m' e') = Inl instanceBusyError \<and>
          fst (Lock r' i m') = Inl instanceBusyError \<and>
          BusyMarker (slots (releaseSlot r' i m)) = BusyMarker (slots r)))"
proof -
  have fresh: "Running (r\<lparr>slots := s\<rparr>) i = Running r i" for s
    by (simp add: Running_def)
  show ?thesis
  proof (cases "Running r i")
    case True
    then show ?thesis by (simp add: Guard_def)
  next
    case False
    then show ?thesis
      by (auto simp: Guard_not_running fresh Lock_eq InstanceBusy_def IsBusy_def Let_def
          releaseSlot_def BusyMarker_def Release_def fun_eq_iff)
  qed
qed

theorem guard_reserves_witness:
  "fst (Guard (NewRegistry newSlot :: unit registry) ''i'' MutationLockMarker ''running'') = Inr ()
   \<and> fst (Lock (snd (Guard (NewRegistry newSlot :: unit registry) ''i'' MutationLockMarker ''running''))
        ''i'' SnapshotReservationMarker) = Inl instanceBusyError"
proof -
  let ?r = "NewRegistry newSlot :: unit registry"
  have idle: "\<not> Running ?r ''i'' \<and> \<not> InstanceBusy ?r ''i''"
    by (simp add: Running_def InstanceBusy_def IsBusy_def NewRegistry_def)
  show ?thesis
    using guard_reserves [of ?r "''i''" MutationLockMarker "''running''"
        SnapshotReservationMarker "''running''"] idle
    by (simp add: Let_def)
qed

end
