(* ===== verification/LogBuffer.thy ===== *)
theory LogBuffer
  imports Prelude
begin

text \<open>
  \<open>internal/platform/logging/buffer.go\<close>: the ring of recent log entries.  The Go slice
  \<open>items\<close> is a list of fixed length, updated by index; \<open>start\<close> and \<open>count\<close> stay below
  \<open>len(items)\<close>, so Go's \<open>%\<close> on them is \<open>mod\<close>.
\<close>

record 'a ring_buffer =
  items :: "'a list"
  start :: nat
  count :: nat

definition DefaultCapacity :: nat where
  "DefaultCapacity = 2000"

definition NewRingBuffer :: "'a \<Rightarrow> int \<Rightarrow> 'a ring_buffer" where
  "NewRingBuffer zero capacity =
     \<lparr>items = replicate (if capacity \<le> 0 then DefaultCapacity else nat capacity) zero,
      start = 0, count = 0\<rparr>"

definition Append :: "'a ring_buffer \<Rightarrow> 'a \<Rightarrow> 'a ring_buffer" where
  "Append b entry =
     (let index = (start b + count b) mod length (items b);
          b' = b\<lparr>items := (items b)[index := entry]\<rparr>
      in if count b < length (items b) then b'\<lparr>count := count b + 1\<rparr>
         else b'\<lparr>start := (start b + 1) mod length (items b)\<rparr>)"

definition Snapshot :: "'a ring_buffer \<Rightarrow> 'a list" where
  "Snapshot b = map (\<lambda>i. items b ! ((start b + i) mod length (items b))) [0..<count b]"

definition Clear :: "'a ring_buffer \<Rightarrow> 'a ring_buffer" where
  "Clear b = b\<lparr>start := 0, count := 0\<rparr>"

section \<open>The abstract buffer\<close>

text \<open>What the ring implements: the last \<open>cap\<close> entries of the log, in order.\<close>

definition take_last :: "nat \<Rightarrow> 'a list \<Rightarrow> 'a list" where
  "take_last n xs = drop (length xs - n) xs"

definition ring_inv :: "'a ring_buffer \<Rightarrow> bool" where
  "ring_inv b \<longleftrightarrow> 0 < length (items b) \<and> start b < length (items b) \<and>
     count b \<le> length (items b)"

lemma ring_inv_New [simp]: "ring_inv (NewRingBuffer z c)"
  by (auto simp: ring_inv_def NewRingBuffer_def DefaultCapacity_def)

lemma ring_inv_Clear [simp]: "ring_inv b \<Longrightarrow> ring_inv (Clear b)"
  by (auto simp: ring_inv_def Clear_def)

lemma ring_inv_Append [simp]: "ring_inv b \<Longrightarrow> ring_inv (Append b x)"
  by (auto simp: ring_inv_def Append_def Let_def)

lemma length_Snapshot [simp]: "length (Snapshot b) = count b"
  by (simp add: Snapshot_def)

lemma items_Append [simp]: "length (items (Append b x)) = length (items b)"
  by (simp add: Append_def Let_def)

lemma Snapshot_Clear [simp]: "Snapshot (Clear b) = []"
  by (simp add: Snapshot_def Clear_def)

lemma Snapshot_New [simp]: "Snapshot (NewRingBuffer z c) = []"
  by (simp add: Snapshot_def NewRingBuffer_def)

lemma ring_index_le:
  fixes s i j n :: nat
  assumes "i \<le> j" "j < n" "(s + i) mod n = (s + j) mod n"
  shows "i = j"
proof -
  have "n dvd (s + j) - (s + i)"
    using assms by (metis add_le_cancel_left mod_eq_dvd_iff_nat)
  then have "n dvd j - i" by simp
  with assms show ?thesis by (metis diff_is_0_eq dvd_imp_le le_antisym le_less_trans
      diff_le_self not_less zero_less_iff_neq_zero)
qed

lemma ring_index_inj:
  fixes s i j n :: nat
  shows "i < n \<Longrightarrow> j < n \<Longrightarrow> (s + i) mod n = (s + j) mod n \<Longrightarrow> i = j"
  by (metis linear ring_index_le)

lemma Snapshot_nth: "i < count b \<Longrightarrow> Snapshot b ! i = items b ! ((start b + i) mod length (items b))"
  by (simp add: Snapshot_def)

lemma Snapshot_Append_room:
  assumes "ring_inv b" "count b < length (items b)"
  shows "Snapshot (Append b x) = Snapshot b @ [x]"
proof (rule nth_equalityI)
  show "length (Snapshot (Append b x)) = length (Snapshot b @ [x])"
    using assms by (simp add: Append_def Let_def)
  fix i
  assume "i < length (Snapshot (Append b x))"
  then have i: "i < Suc (count b)" using assms by (simp add: Append_def Let_def)
  have idx: "(start b + count b) mod length (items b) < length (items b)"
    using assms by (auto simp: ring_inv_def)
  show "Snapshot (Append b x) ! i = (Snapshot b @ [x]) ! i"
  proof (cases "i = count b")
    case True
    then show ?thesis using assms idx
      by (simp add: nth_append Snapshot_nth Append_def Let_def)
  next
    case False
    then have "i < count b" using i by simp
    moreover from this have "(start b + count b) mod length (items b) \<noteq> (start b + i) mod length (items b)"
      using ring_index_inj [of i "length (items b)" "count b" "start b"] assms(2) by force
    ultimately show ?thesis using assms
      by (simp add: nth_append Snapshot_nth Append_def Let_def)
  qed
qed

lemma Snapshot_Append_full:
  assumes "ring_inv b" "count b = length (items b)"
  shows "Snapshot (Append b x) = tl (Snapshot b) @ [x]"
proof (rule nth_equalityI)
  let ?n = "length (items b)"
  have n: "0 < ?n" "start b < ?n" using assms by (auto simp: ring_inv_def)
  have app: "Append b x = b\<lparr>items := (items b)[start b := x], start := (start b + 1) mod ?n\<rparr>"
    using assms n by (simp add: Append_def Let_def)
  show "length (Snapshot (Append b x)) = length (tl (Snapshot b) @ [x])"
    using assms n by (simp add: app)
  fix i
  assume "i < length (Snapshot (Append b x))"
  then have i: "i < ?n" using assms by (simp add: app)
  have at: "Snapshot (Append b x) ! i = (items b)[start b := x] ! ((start b + Suc i) mod ?n)"
    using i assms by (simp add: app Snapshot_nth mod_add_left_eq)
  show "Snapshot (Append b x) ! i = (tl (Snapshot b) @ [x]) ! i"
  proof (cases "Suc i = ?n")
    case True
    then have "\<not> i < length (items b) - Suc 0" by simp
    then show ?thesis using True at n assms by (simp add: nth_append)
  next
    case False
    with i have si: "Suc i < ?n" by simp
    then have "(start b + 0) mod ?n \<noteq> (start b + Suc i) mod ?n"
      using ring_index_inj [of 0 ?n "Suc i" "start b"] n by force
    then have "(start b + Suc i) mod ?n \<noteq> start b" using n by simp
    moreover have "i < length (items b) - Suc 0" using si by arith
    ultimately show ?thesis using at si assms
      by (simp add: nth_append nth_tl Snapshot_nth)
  qed
qed

lemma Snapshot_Append:
  assumes "ring_inv b"
  shows "Snapshot (Append b x) = take_last (length (items b)) (Snapshot b @ [x])"
proof (cases "count b < length (items b)")
  case True
  then show ?thesis
    using Snapshot_Append_room [OF assms True] by (simp add: take_last_def)
next
  case False
  then have full: "count b = length (items b)" using assms by (simp add: ring_inv_def)
  then have len: "length (Snapshot b) = length (items b)" by simp
  moreover have "items b \<noteq> []" using assms by (auto simp: ring_inv_def)
  ultimately have "Snapshot b \<noteq> []" by (metis length_0_conv)
  then obtain y ys where S: "Snapshot b = y # ys" by (cases "Snapshot b") auto
  then have "length (items b) = Suc (length ys)" using len by simp
  then show ?thesis
    using Snapshot_Append_full [OF assms full] S by (simp add: take_last_def)
qed

lemma take_last_take_last:
  "take_last n (take_last n xs @ ys) = take_last n (xs @ ys)"
  by (cases "length xs \<le> n") (auto simp: take_last_def add.commute)

lemma fold_inv:
  "ring_inv b \<Longrightarrow> ring_inv (foldl Append b es) \<and> length (items (foldl Append b es)) = length (items b)"
  by (induction es rule: rev_induct) auto

lemma Snapshot_fold:
  "ring_inv b \<Longrightarrow> Snapshot b = [] \<Longrightarrow>
     Snapshot (foldl Append b es) = take_last (length (items b)) es"
proof (induction es rule: rev_induct)
  case Nil
  then show ?case by (simp add: take_last_def)
next
  case (snoc e es)
  then show ?case
    using fold_inv [of b es] by (simp add: Snapshot_Append take_last_take_last)
qed

text \<open>
  C40 (refinement).  The ring implements the bounded log: the snapshot of a new ring after
  any sequence of appends is the last \<open>capacity\<close> of the appended entries, in order, where
  a capacity that is not positive stands for the default; a cleared ring is empty.
\<close>

theorem ring_buffer_refines_log:
  "Snapshot (foldl Append (NewRingBuffer z c) es) =
     take_last (if c \<le> 0 then DefaultCapacity else nat c) es \<and>
   Snapshot (Clear (foldl Append (NewRingBuffer z c) es)) = []"
proof -
  have "length (items (NewRingBuffer z c)) = (if c \<le> 0 then DefaultCapacity else nat c)"
    by (simp add: NewRingBuffer_def)
  then show ?thesis
    using Snapshot_fold [of "NewRingBuffer z c" es] by simp
qed

end
