(* ===== verification/GoTime.thy ===== *)
theory GoTime
  imports GoStrings
begin

text \<open>
  Times.  A \<open>time.Time\<close> in UTC is its number of nanoseconds since 1970-01-01; the zero
  time of Go is a constant of its own.  \<open>ts\<close> is \<open>platform/sqlite/db.go\<close>'s text form of a
  time, \<open>Format(time.RFC3339Nano)\<close>, which the database stores and orders by: the fraction
  of a second loses its trailing zeros, and is absent when it is zero.
\<close>

type_synonym time = int

text \<open>Go's zero time is 0001-01-01T00:00:00Z.\<close>

definition zeroTime :: time where
  "zeroTime = - 62135596800 * 1000000000"

definition IsZero :: "time \<Rightarrow> bool" where
  "IsZero t \<longleftrightarrow> t = zeroTime"

text \<open>The civil date of a day number, in the proleptic Gregorian calendar.\<close>

definition year_of_era :: "int \<Rightarrow> int" where
  "year_of_era doe = (doe - doe div 1460 + doe div 36524 - doe div 146096) div 365"

definition day_of_year :: "int \<Rightarrow> int" where
  "day_of_year doe = doe - (365 * year_of_era doe + year_of_era doe div 4 - year_of_era doe div 100)"

definition month_index :: "int \<Rightarrow> int" where
  "month_index doy = (5 * doy + 2) div 153"

definition civil_of :: "int \<Rightarrow> int \<Rightarrow> int \<times> int \<times> int" where
  "civil_of y doy =
     (if month_index doy < 10
      then (y, month_index doy + 3, doy - (153 * month_index doy + 2) div 5 + 1)
      else (y + 1, month_index doy - 9, doy - (153 * month_index doy + 2) div 5 + 1))"

definition civil_date :: "int \<Rightarrow> int \<times> int \<times> int" where
  "civil_date day =
     civil_of (year_of_era ((day + 719468) mod 146097) + (day + 719468) div 146097 * 400)
       (day_of_year ((day + 719468) mod 146097))"

lemmas civil_eval = civil_date_def civil_of_def month_index_def day_of_year_def year_of_era_def

function pad_left :: "nat \<Rightarrow> string \<Rightarrow> string" where
  "pad_left n s = (if length s < n then pad_left n (CHR ''0'' # s) else s)"
  by pat_completeness auto
termination
  by (relation "measure (\<lambda>(n, s). n - length s)") auto

declare pad_left.simps [simp del]

definition pad :: "nat \<Rightarrow> int \<Rightarrow> string" where
  "pad n i = pad_left n (Itoa i)"

definition fraction :: "int \<Rightarrow> string" where
  "fraction ns = (if ns = 0 then []
     else CHR ''.'' # rev (dropWhile (\<lambda>c. c = CHR ''0'') (rev (pad 9 ns))))"

fun date_text :: "int \<times> int \<times> int \<Rightarrow> string" where
  "date_text (y, m, d) = pad 4 y @ ''-'' @ pad 2 m @ ''-'' @ pad 2 d"

definition clock_text :: "int \<Rightarrow> string" where
  "clock_text sod = pad 2 (sod div 3600) @ '':'' @ pad 2 (sod mod 3600 div 60) @ '':'' @ pad 2 (sod mod 60)"

definition ts :: "time \<Rightarrow> string" where
  "ts t = date_text (civil_date (t div 1000000000 div 86400)) @ ''T'' @
          clock_text (t div 1000000000 mod 86400) @ fraction (t mod 1000000000) @ ''Z''"

lemmas text_eval = clock_text_def pad_def pad_left.simps Itoa_def digits_of.simps digit_char_def
  fraction_def

lemma civil_date_example: "civil_date 19675 = (2023, 11, 14)"
  by (simp add: civil_eval)

lemma civil_date_zero: "civil_date (-719162) = (1, 1, 1)"
  by (simp add: civil_eval)

lemma ts_example: "ts 1700000000123000000 = ''2023-11-14T22:13:20.123Z''"
  by (simp add: ts_def civil_date_example text_eval)

lemma ts_zeroTime: "ts zeroTime = ''0001-01-01T00:00:00Z''"
  by (simp add: ts_def zeroTime_def civil_date_zero text_eval)

text \<open>
  The text order is not the order of time: a fraction of a second starts with \<open>.\<close>, which
  is smaller than the \<open>Z\<close> that ends the whole second.
\<close>

lemma ts_not_monotone:
  "(1700000000000000000 :: time) < 1700000000500000000 \<and>
   ts 1700000000500000000 < ts 1700000000000000000"
  by (simp add: ts_def civil_date_example text_eval less_char_def)

end
