(* ===== verification/Operations.thy ===== *)
theory Operations
  imports Errs GoTime Complex_Main
begin

text \<open>
  Package \<open>internal/operations\<close> over \<open>internal/platform/sqlite/operations.go\<close>: the
  persisted operations, and the manager that starts, cancels and forgets their workers.
\<close>

section \<open>Operations and their table\<close>

abbreviation "StatusQueued \<equiv> ''queued''"
abbreviation "StatusRunning \<equiv> ''running''"
abbreviation "StatusCompleted \<equiv> ''completed''"
abbreviation "StatusFailed \<equiv> ''failed''"
abbreviation "StatusCancelled \<equiv> ''cancelled''"

record operation =
  op_id :: string
  op_type :: string
  op_resource :: "string option"
  op_title :: string
  op_title_key :: string
  op_title_params :: "(string \<times> string) list"
  op_status :: string
  op_progress :: rat
  op_current_bytes :: int
  op_total_bytes :: int
  op_bytes_per_second :: int
  op_error_code :: "string option"
  op_error_message :: "string option"
  op_created :: time
  op_started :: "time option"
  op_finished :: "time option"

text \<open>
  The table holds one row per identifier (the primary key).  \<open>SaveOperation\<close> is an upsert:
  a new row goes to the end, an existing one is overwritten except for its \<open>created_at\<close>.
\<close>

fun SaveOperation :: "operation \<Rightarrow> operation list \<Rightarrow> operation list" where
  "SaveOperation new [] = [new]"
| "SaveOperation new (row # rows) =
     (if op_id row = op_id new then new\<lparr>op_created := op_created row\<rparr> # rows
      else row # SaveOperation new rows)"

definition finished_status :: "string \<Rightarrow> bool" where
  "finished_status s \<longleftrightarrow> s = StatusCompleted \<or> s = StatusFailed \<or> s = StatusCancelled"

definition open_status :: "string \<Rightarrow> bool" where
  "open_status s \<longleftrightarrow> s = StatusQueued \<or> s = StatusRunning"

text \<open>\<open>LIMIT\<close> of SQLite: a negative limit is no limit.\<close>

definition limit_rows :: "int \<Rightarrow> 'a list \<Rightarrow> 'a list" where
  "limit_rows limit xs = (if limit < 0 then xs else take (nat limit) xs)"

text \<open>
  \<open>ORDER BY created_at DESC\<close> compares the stored texts.  Rows with equal texts keep the
  order of the table here; SQLite leaves it open.
\<close>

definition order_desc :: "('a \<Rightarrow> string) \<Rightarrow> 'a list \<Rightarrow> 'a list" where
  "order_desc key xs = rev (sort_key key (rev xs))"

definition ListOperations :: "int \<Rightarrow> operation list \<Rightarrow> operation list" where
  "ListOperations limit rows = limit_rows limit (order_desc (\<lambda>r. ts (op_created r)) rows)"

definition interrupt_row :: "time \<Rightarrow> string \<Rightarrow> string \<Rightarrow> operation \<Rightarrow> operation" where
  "interrupt_row finishedAt errorCode errorMessage row =
     (if open_status (op_status row)
      then row\<lparr>op_status := StatusFailed, op_error_code := Some errorCode,
               op_error_message := Some errorMessage, op_finished := Some finishedAt,
               op_bytes_per_second := 0\<rparr>
      else row)"

definition ReconcileInterruptedOperations ::
  "time \<Rightarrow> string \<Rightarrow> string \<Rightarrow> operation list \<Rightarrow> int \<times> operation list" where
  "ReconcileInterruptedOperations finishedAt errorCode errorMessage rows =
     (int (length (filter (\<lambda>r. open_status (op_status r)) rows)),
      map (interrupt_row finishedAt errorCode errorMessage) rows)"

definition DeleteFinishedOperation :: "string \<Rightarrow> operation list \<Rightarrow> unit result \<times> operation list" where
  "DeleteFinishedOperation i rows =
     (let hit = (\<lambda>r. op_id r = i \<and> finished_status (op_status r))
      in if list_ex hit rows then (Inr (), filter (\<lambda>r. \<not> hit r) rows)
         else (Inl (NewError ErrOperationNotFound ''The finished operation was not found''), rows))"

definition ClearFinishedOperations :: "operation list \<Rightarrow> int \<times> operation list" where
  "ClearFinishedOperations rows =
     (int (length (filter (\<lambda>r. finished_status (op_status r)) rows)),
      filter (\<lambda>r. \<not> finished_status (op_status r)) rows)"

definition ops_inv :: "operation list \<Rightarrow> bool" where
  "ops_inv rows \<longleftrightarrow> distinct (map op_id rows)"

lemma set_SaveOperation_ids: "op_id ` set (SaveOperation new rows) = insert (op_id new) (op_id ` set rows)"
  by (induction rows) auto

lemma ops_inv_Save [simp]: "ops_inv rows \<Longrightarrow> ops_inv (SaveOperation new rows)"
  unfolding ops_inv_def
proof (induction rows)
  case (Cons row rows)
  then show ?case
    using set_SaveOperation_ids [of new rows] by auto
qed simp

lemma ops_inv_Reconcile [simp]:
  "ops_inv rows \<Longrightarrow> ops_inv (snd (ReconcileInterruptedOperations t c m rows))"
proof -
  have "op_id (interrupt_row t c m r) = op_id r" for r by (simp add: interrupt_row_def)
  then show "ops_inv rows \<Longrightarrow> ?thesis"
    by (simp add: ops_inv_def ReconcileInterruptedOperations_def comp_def)
qed

lemma ops_inv_Delete [simp]: "ops_inv rows \<Longrightarrow> ops_inv (snd (DeleteFinishedOperation i rows))"
  by (auto simp: ops_inv_def DeleteFinishedOperation_def Let_def distinct_map intro: inj_on_subset)

lemma ops_inv_Clear [simp]: "ops_inv rows \<Longrightarrow> ops_inv (snd (ClearFinishedOperations rows))"
  by (auto simp: ops_inv_def ClearFinishedOperations_def distinct_map intro: inj_on_subset)

definition row_of :: "string \<Rightarrow> operation list \<Rightarrow> operation option" where
  "row_of i rows = find (\<lambda>r. op_id r = i) rows"

lemma row_of_Save:
  "row_of j (SaveOperation new rows) =
     (if j = op_id new
      then Some (case row_of j rows of None \<Rightarrow> new | Some r \<Rightarrow> new\<lparr>op_created := op_created r\<rparr>)
      else row_of j rows)"
  by (induction rows) (auto simp: row_of_def)

section \<open>The manager\<close>

text \<open>
  A worker entry, and the future its starter waits on.  Closing \<open>state.done\<close> after setting
  \<open>state.result\<close> and \<open>state.err\<close> is the step from \<open>Pending\<close> to a final future.
  \<open>has_cancel\<close> says that the worker goroutine has stored its cancel function (before that,
  \<open>cancel\<close> is the empty function), \<open>ctx_cancelled\<close> that the worker's context is cancelled.
\<close>

datatype future = Pending | DoneOk | DoneErr go_error

record worker_entry =
  we_active :: bool
  we_key :: string
  cancelRequested :: bool
  has_cancel :: bool
  ctx_cancelled :: bool

record manager =
  op_rows :: "operation list"
  workers :: "string \<rightharpoonup> worker_entry"
  activeKeys :: "string \<rightharpoonup> string"
  futures :: "string \<rightharpoonup> future"
  op_events :: "(string \<times> operation) list"

definition NewManager :: "operation list \<Rightarrow> manager" where
  "NewManager rows = \<lparr>op_rows = rows, workers = Map.empty, activeKeys = Map.empty,
     futures = Map.empty, op_events = []\<rparr>"

text \<open>
  \<open>Start\<close>, one definition per critical section.  The answer of the database and of the
  lifecycle owner are arguments: \<open>saveErr\<close> is the error of \<open>SaveOperation\<close>, if any, and
  \<open>started\<close> the result of \<open>owner.Go\<close>.
\<close>

definition reserveKey :: "operation \<Rightarrow> string \<Rightarrow> manager \<Rightarrow> unit result \<times> manager" where
  "reserveKey oper key m =
     (if key \<noteq> [] then
        (case activeKeys m key of
           Some _ \<Rightarrow> (Inl KeyActiveError, m)
         | None \<Rightarrow> (Inr (), m\<lparr>activeKeys := (activeKeys m)(key \<mapsto> op_id oper)\<rparr>))
      else (Inr (), m))"

definition saveStarted :: "go_error option \<Rightarrow> operation \<Rightarrow> string \<Rightarrow> manager \<Rightarrow> unit result \<times> manager" where
  "saveStarted saveErr oper key m =
     (case saveErr of
        Some e \<Rightarrow> (Inl e, m\<lparr>activeKeys := (activeKeys m)(key := None)\<rparr>)
      | None \<Rightarrow> (Inr (), m\<lparr>op_rows := SaveOperation oper (op_rows m),
                           op_events := op_events m @ [(''operation:created'', oper)]\<rparr>))"

definition registerWorker :: "operation \<Rightarrow> string \<Rightarrow> manager \<Rightarrow> manager" where
  "registerWorker oper key m =
     m\<lparr>workers := (workers m)(op_id oper \<mapsto>
          \<lparr>we_active = True, we_key = key, cancelRequested = False, has_cancel = False,
           ctx_cancelled = False\<rparr>),
       futures := (futures m)(op_id oper \<mapsto> Pending)\<rparr>"

definition launchWorker :: "bool \<Rightarrow> operation \<Rightarrow> string \<Rightarrow> manager \<Rightarrow> unit result \<times> manager" where
  "launchWorker started oper key m =
     (if started then (Inr (), m)
      else (Inl (OtherError ''application lifecycle is not running''),
            m\<lparr>activeKeys := (activeKeys m)(key := None),
              workers := (workers m)(op_id oper := None)\<rparr>))"

definition Start :: "go_error option \<Rightarrow> bool \<Rightarrow> operation \<Rightarrow> string \<Rightarrow> manager \<Rightarrow> unit result \<times> manager" where
  "Start saveErr started oper key m =
     bindE (reserveKey oper key) (\<lambda>_.
     bindE (saveStarted saveErr oper key) (\<lambda>_.
     bindE (modifyE (registerWorker oper key)) (\<lambda>_.
     launchWorker started oper key))) m"

text \<open>The goroutine: its first critical section, and the one after the worker returned.\<close>

definition workerBegin :: "string \<Rightarrow> string \<Rightarrow> manager \<Rightarrow> bool \<times> manager" where
  "workerBegin i key m =
     (case workers m i of
        None \<Rightarrow>
          (False, m\<lparr>activeKeys := (if key \<noteq> [] \<and> activeKeys m key = Some i
                                 then (activeKeys m)(key := None) else activeKeys m),
                    futures := (futures m)(i \<mapsto> DoneErr CtxCanceled)\<rparr>)
      | Some entry \<Rightarrow>
          (True, m\<lparr>workers := (workers m)(i \<mapsto>
             entry\<lparr>has_cancel := True, ctx_cancelled := cancelRequested entry\<rparr>)\<rparr>))"

definition workerEnd :: "string \<Rightarrow> string \<Rightarrow> go_error option \<Rightarrow> manager \<Rightarrow> manager" where
  "workerEnd i key err m =
     m\<lparr>workers := (case workers m i of
                     None \<Rightarrow> workers m
                   | Some entry \<Rightarrow> (workers m)(i \<mapsto> entry\<lparr>we_active := False, ctx_cancelled := True\<rparr>)),
       activeKeys := (if key \<noteq> [] \<and> activeKeys m key = Some i
                      then (activeKeys m)(key := None) else activeKeys m),
       futures := (futures m)(i \<mapsto> (case err of None \<Rightarrow> DoneOk | Some e \<Rightarrow> DoneErr e))\<rparr>"

text \<open>
  \<open>Cancel\<close> asks the worker to stop, then waits for its future; \<open>cancelOutcome\<close> is what it
  answers once the future is there.
\<close>

definition Cancel :: "string \<Rightarrow> manager \<Rightarrow> unit result \<times> manager" where
  "Cancel i m =
     (case workers m i of
        None \<Rightarrow> (Inl (NewError ErrOperationNotFound ''The operation is no longer running''), m)
      | Some entry \<Rightarrow>
          (if \<not> we_active entry
           then (Inl (NewError ErrOperationNotFound ''The operation is no longer running''), m)
           else (Inr (), m\<lparr>workers := (workers m)(i \<mapsto>
                   entry\<lparr>cancelRequested := True,
                         ctx_cancelled := (ctx_cancelled entry \<or> has_cancel entry)\<rparr>)\<rparr>)))"

fun cancelOutcome :: "future \<Rightarrow> unit result option" where
  "cancelOutcome Pending = None"
| "cancelOutcome DoneOk = Some (Inr ())"
| "cancelOutcome (DoneErr e) =
     Some (if isCanceled e then Inr ()
           else Inl (AppError ErrFilePermission ''Could not fully clean up the cancelled operation''
                       False (Some e)))"

text \<open>\<open>Wait\<close>: \<open>None\<close> while neither the worker nor the caller's context is done.\<close>

definition WaitWorker :: "string \<Rightarrow> bool \<Rightarrow> manager \<Rightarrow> unit result option" where
  "WaitWorker i ctxDone m =
     (case workers m i of
        None \<Rightarrow> Some (Inl (NewError ErrOperationNotFound
                  ''The game version install task is no longer running''))
      | Some _ \<Rightarrow>
          (case futures m i of
             Some DoneOk \<Rightarrow> Some (Inr ())
           | Some (DoneErr e) \<Rightarrow> Some (Inl e)
           | _ \<Rightarrow> if ctxDone then Some (Inl CtxCanceled) else None))"

definition Delete :: "string \<Rightarrow> manager \<Rightarrow> unit result \<times> manager" where
  "Delete i m =
     (if TrimSpace i = [] then (Inl (NewError ErrValidation ''Select an operation to delete''), m)
      else (case DeleteFinishedOperation (TrimSpace i) (op_rows m) of
              (Inl e, rows) \<Rightarrow> (Inl e, m\<lparr>op_rows := rows\<rparr>)
            | (Inr _, rows) \<Rightarrow>
                (Inr (), m\<lparr>op_rows := rows, workers := (workers m)(TrimSpace i := None)\<rparr>)))"

definition ClearAll :: "manager \<Rightarrow> int \<times> manager" where
  "ClearAll m =
     (case ClearFinishedOperations (op_rows m) of
        (n, rows) \<Rightarrow>
          (n, m\<lparr>op_rows := rows,
               workers := (\<lambda>i. case workers m i of
                                 None \<Rightarrow> None
                               | Some w \<Rightarrow> if we_active w then Some w else None)\<rparr>))"

definition ReconcileInterrupted :: "time \<Rightarrow> manager \<Rightarrow> int \<times> manager" where
  "ReconcileInterrupted now m =
     (case ReconcileInterruptedOperations now ErrOperationInterrupted
             ''The operation was interrupted when the launcher closed'' (op_rows m) of
        (n, rows) \<Rightarrow> (n, m\<lparr>op_rows := rows\<rparr>))"

definition Save :: "operation \<Rightarrow> string \<Rightarrow> go_error option \<Rightarrow> manager \<Rightarrow> unit result \<times> manager" where
  "Save oper event saveErr m =
     (case saveErr of
        Some e \<Rightarrow> (Inl e, m)
      | None \<Rightarrow>
          (Inr (), m\<lparr>op_rows := SaveOperation oper (op_rows m),
                    op_events := (if event = [] then op_events m
                                  else op_events m @ [(event, oper)])\<rparr>))"

text \<open>An operation with every field but the identifier and the status empty, for examples.\<close>

definition blankOperation :: "string \<Rightarrow> string \<Rightarrow> operation" where
  "blankOperation i st = \<lparr>op_id = i, op_type = [], op_resource = None, op_title = [],
     op_title_key = [], op_title_params = [], op_status = st, op_progress = 0,
     op_current_bytes = 0, op_total_bytes = 0, op_bytes_per_second = 0, op_error_code = None,
     op_error_message = None, op_created = 0, op_started = None, op_finished = None\<rparr>"

section \<open>One call of Start\<close>

lemma reserveKey_Inl: "reserveKey oper key m = (Inl e, m') \<Longrightarrow>
    e = KeyActiveError \<and> m' = m \<and> key \<noteq> [] \<and> activeKeys m key \<noteq> None"
  by (auto simp: reserveKey_def split: if_splits option.splits)

lemma reserveKey_Inr: "reserveKey oper key m = (Inr u, m') \<Longrightarrow>
    (key \<noteq> [] \<longrightarrow> activeKeys m key = None) \<and>
    m' = m\<lparr>activeKeys := (if key \<noteq> [] then (activeKeys m)(key \<mapsto> op_id oper) else activeKeys m)\<rparr>"
  by (auto simp: reserveKey_def split: if_splits option.splits)

text \<open>
  A \<open>Start\<close> that returns an error leaves no reservation and no worker behind:
  the active keys are those before the call, and so are the workers, for an operation
  whose identifier is new and keys that are never empty.  A start that succeeds has
  persisted the operation, announced it, reserved the key and registered an active worker.
\<close>

theorem Start_outcome:
  assumes "workers m (op_id oper) = None" "activeKeys m [] = None"
    and "Start saveErr started oper key m = (r, m')"
  shows "(\<forall>e. r = Inl e \<longrightarrow> activeKeys m' = activeKeys m \<and> workers m' = workers m) \<and>
    (r = Inr () \<longrightarrow> saveErr = None \<and> started \<and> op_rows m' = SaveOperation oper (op_rows m) \<and>
       op_events m' = op_events m @ [(''operation:created'', oper)] \<and>
       (key \<noteq> [] \<longrightarrow> activeKeys m' key = Some (op_id oper)) \<and>
       (\<exists>w. workers m' (op_id oper) = Some w \<and> we_active w \<and> \<not> cancelRequested w))"
proof (cases "reserveKey oper key m")
  case (Pair r1 m1)
  show ?thesis
  proof (cases r1)
    case (Inl e)
    with Pair assms show ?thesis
      by (auto simp: Start_def bindE_Inl dest!: reserveKey_Inl)
  next
    case (Inr u)
    with Pair have run1: "reserveKey oper key m = (Inr u, m1)" by simp
    have "Start saveErr started oper key m =
        bindE (saveStarted saveErr oper key) (\<lambda>_. bindE (modifyE (registerWorker oper key))
          (\<lambda>_. launchWorker started oper key)) m1"
      by (simp add: Start_def bindE_def run1)
    with reserveKey_Inr [OF run1] assms show ?thesis
      by (cases saveErr; cases started)
         (auto simp: bindE_def saveStarted_def registerWorker_def launchWorker_def fun_upd_idem)
  qed
qed

theorem Start_outcome_witness:
  "\<exists>m'. Start (Some (OtherError ''disk full'')) True (blankOperation ''op1'' StatusQueued)
     ''game'' (NewManager []) = (Inl (OtherError ''disk full''), m') \<and> activeKeys m' ''game'' = None"
proof -
  let ?op = "blankOperation ''op1'' StatusQueued"
  let ?run = "Start (Some (OtherError ''disk full'')) True ?op ''game'' (NewManager [])"
  obtain r m' where run: "?run = (r, m')" by fastforce
  have "fst ?run = Inl (OtherError ''disk full'')"
    by (simp add: Start_def bindE_def reserveKey_def saveStarted_def NewManager_def)
  with run have r: "r = Inl (OtherError ''disk full'')" by simp
  have "workers (NewManager []) (op_id ?op) = None" "activeKeys (NewManager []) [] = None"
    by (simp_all add: NewManager_def)
  from Start_outcome [OF this run] r have "activeKeys m' = activeKeys (NewManager [])" by simp
  with run r show ?thesis by (auto simp: NewManager_def)
qed

section \<open>Concurrent calls\<close>

text \<open>
  Any number of calls of \<open>Start\<close> with their goroutines, in any interleaving of their
  critical sections with each other and with \<open>Cancel\<close>, \<open>Delete\<close> and \<open>ClearAll\<close>.  The
  identifiers of operations are fresh, as the launcher's generator makes them.
\<close>

datatype phase = Reserved | Persisted | Registered | Launched | Working | Finished

record call =
  c_op :: operation
  c_key :: string
  c_phase :: phase

record op_sys =
  mgr :: manager
  calls :: "nat \<rightharpoonup> call"

definition op_init :: "operation list \<Rightarrow> op_sys" where
  "op_init rows = \<lparr>mgr = NewManager rows, calls = Map.empty\<rparr>"

definition call_to :: "phase \<Rightarrow> nat \<Rightarrow> manager \<Rightarrow> op_sys \<Rightarrow> op_sys" where
  "call_to ph c m s =
     s\<lparr>mgr := m, calls := (calls s)(c := map_option (\<lambda>k. k\<lparr>c_phase := ph\<rparr>) (calls s c))\<rparr>"

inductive op_step :: "op_sys \<Rightarrow> op_sys \<Rightarrow> bool" where
  reserve: "calls s c = None \<Longrightarrow> (\<forall>c' k. calls s c' = Some k \<longrightarrow> op_id (c_op k) \<noteq> op_id oper) \<Longrightarrow>
     reserveKey oper key (mgr s) = (Inr (), m) \<Longrightarrow>
     op_step s (s\<lparr>mgr := m, calls := (calls s)(c \<mapsto> \<lparr>c_op = oper, c_key = key, c_phase = Reserved\<rparr>)\<rparr>)"
| persist: "calls s c = Some k \<Longrightarrow> c_phase k = Reserved \<Longrightarrow>
     saveStarted None (c_op k) (c_key k) (mgr s) = (Inr (), m) \<Longrightarrow>
     op_step s (call_to Persisted c m s)"
| persist_failed: "calls s c = Some k \<Longrightarrow> c_phase k = Reserved \<Longrightarrow>
     saveStarted (Some e) (c_op k) (c_key k) (mgr s) = (Inl e, m) \<Longrightarrow>
     op_step s (call_to Finished c m s)"
| register: "calls s c = Some k \<Longrightarrow> c_phase k = Persisted \<Longrightarrow>
     op_step s (call_to Registered c (registerWorker (c_op k) (c_key k) (mgr s)) s)"
| launch: "calls s c = Some k \<Longrightarrow> c_phase k = Registered \<Longrightarrow>
     launchWorker True (c_op k) (c_key k) (mgr s) = (Inr (), m) \<Longrightarrow>
     op_step s (call_to Launched c m s)"
| launch_failed: "calls s c = Some k \<Longrightarrow> c_phase k = Registered \<Longrightarrow>
     launchWorker False (c_op k) (c_key k) (mgr s) = (Inl e, m) \<Longrightarrow>
     op_step s (call_to Finished c m s)"
| run: "calls s c = Some k \<Longrightarrow> c_phase k = Launched \<Longrightarrow>
     workerBegin (op_id (c_op k)) (c_key k) (mgr s) = (True, m) \<Longrightarrow>
     op_step s (call_to Working c m s)"
| run_forgotten: "calls s c = Some k \<Longrightarrow> c_phase k = Launched \<Longrightarrow>
     workerBegin (op_id (c_op k)) (c_key k) (mgr s) = (False, m) \<Longrightarrow>
     op_step s (call_to Finished c m s)"
| finish: "calls s c = Some k \<Longrightarrow> c_phase k = Working \<Longrightarrow>
     op_step s (call_to Finished c (workerEnd (op_id (c_op k)) (c_key k) err (mgr s)) s)"
| cancel: "Cancel i (mgr s) = (r, m) \<Longrightarrow> op_step s (s\<lparr>mgr := m\<rparr>)"
| delete: "Delete i (mgr s) = (r, m) \<Longrightarrow> op_step s (s\<lparr>mgr := m\<rparr>)"
| clear: "ClearAll (mgr s) = (n, m) \<Longrightarrow> op_step s (s\<lparr>mgr := m\<rparr>)"

definition op_reachable :: "operation list \<Rightarrow> op_sys \<Rightarrow> bool" where
  "op_reachable rows s \<longleftrightarrow> op_step\<^sup>*\<^sup>* (op_init rows) s"

text \<open>A call holds a key from its reservation to its end.\<close>

definition holds_key :: "op_sys \<Rightarrow> nat \<Rightarrow> string \<Rightarrow> string \<Rightarrow> bool" where
  "holds_key s c key i \<longleftrightarrow>
     (\<exists>k. calls s c = Some k \<and> c_phase k \<noteq> Finished \<and> c_key k = key \<and> op_id (c_op k) = i)"

definition op_inv :: "op_sys \<Rightarrow> bool" where
  "op_inv s \<longleftrightarrow>
     (\<forall>c c' k k'. calls s c = Some k \<longrightarrow> calls s c' = Some k' \<longrightarrow>
        op_id (c_op k) = op_id (c_op k') \<longrightarrow> c = c') \<and>
     (\<forall>key i. activeKeys (mgr s) key = Some i \<longleftrightarrow> key \<noteq> [] \<and> (\<exists>c. holds_key s c key i))"

lemma op_inv_unique:
  "op_inv s \<Longrightarrow> calls s c = Some k \<Longrightarrow> calls s c' = Some k' \<Longrightarrow> op_id (c_op k) = op_id (c_op k') \<Longrightarrow> c = c'"
  unfolding op_inv_def by blast

lemma op_inv_keys:
  "op_inv s \<Longrightarrow> activeKeys (mgr s) key = Some i \<longleftrightarrow> key \<noteq> [] \<and> (\<exists>c. holds_key s c key i)"
  unfolding op_inv_def by blast

lemma op_invI:
  assumes "\<And>c c' k k'. calls s c = Some k \<Longrightarrow> calls s c' = Some k' \<Longrightarrow>
      op_id (c_op k) = op_id (c_op k') \<Longrightarrow> c = c'"
    and "\<And>key i. activeKeys (mgr s) key = Some i \<longleftrightarrow> key \<noteq> [] \<and> (\<exists>c. holds_key s c key i)"
  shows "op_inv s"
  using assms unfolding op_inv_def by blast

lemma calls_call_to: "calls (call_to ph c m s) c' =
    (if c' = c then map_option (\<lambda>k. k\<lparr>c_phase := ph\<rparr>) (calls s c) else calls s c')"
  by (simp add: call_to_def)

lemma mgr_call_to [simp]: "mgr (call_to ph c m s) = m"
  by (simp add: call_to_def)

lemma op_init_inv: "op_inv (op_init rows)"
  by (simp add: op_inv_def op_init_def NewManager_def holds_key_def)

lemma unique_call_to:
  assumes "op_inv s"
    and "calls (call_to ph c m s) d = Some k" "calls (call_to ph c m s) d' = Some k'"
    and "op_id (c_op k) = op_id (c_op k')"
  shows "d = d'"
  using assms op_inv_unique [OF assms(1)] by (auto simp: calls_call_to split: if_splits)

text \<open>A step of a call that goes on holding its key, with the active keys unchanged.\<close>

lemma op_inv_advance:
  assumes "op_inv s" "calls s c = Some k" "c_phase k \<noteq> Finished" "ph \<noteq> Finished"
    and "activeKeys m = activeKeys (mgr s)"
  shows "op_inv (call_to ph c m s)"
proof (rule op_invI)
  have "holds_key (call_to ph c m s) d key i \<longleftrightarrow> holds_key s d key i" for d key i
    using assms by (auto simp: holds_key_def calls_call_to)
  then show "activeKeys (mgr (call_to ph c m s)) key = Some i \<longleftrightarrow>
      key \<noteq> [] \<and> (\<exists>d. holds_key (call_to ph c m s) d key i)" for key i
    using assms(5) op_inv_keys [OF assms(1)] by simp
qed (rule unique_call_to [OF assms(1)])

text \<open>A step that ends a call, with its key removed from the active keys.\<close>

lemma op_inv_end:
  assumes "op_inv s" "calls s c = Some k" "c_phase k \<noteq> Finished"
    and "activeKeys m = (activeKeys (mgr s))(c_key k := None)"
  shows "op_inv (call_to Finished c m s)"
proof (rule op_invI)
  fix key i
  have hold: "holds_key (call_to Finished c m s) d key' j \<longleftrightarrow> d \<noteq> c \<and> holds_key s d key' j" for d key' j
    by (auto simp: holds_key_def calls_call_to)
  have own: "holds_key s c (c_key k) (op_id (c_op k))"
    using assms by (simp add: holds_key_def)
  have only: "d = c" if "holds_key s d (c_key k) j" "c_key k \<noteq> []" for d j
  proof -
    have "activeKeys (mgr s) (c_key k) = Some j" "activeKeys (mgr s) (c_key k) = Some (op_id (c_op k))"
      using op_inv_keys [OF assms(1)] that own by blast+
    then have "j = op_id (c_op k)" by simp
    with that(1) show ?thesis
      using op_inv_unique [OF assms(1)] assms(2) by (auto simp: holds_key_def)
  qed
  show "activeKeys (mgr (call_to Finished c m s)) key = Some i \<longleftrightarrow>
      key \<noteq> [] \<and> (\<exists>d. holds_key (call_to Finished c m s) d key i)"
  proof (cases "key = c_key k")
    case True
    then show ?thesis using assms(4) only by (auto simp: hold)
  next
    case False
    then have "\<not> holds_key s c key i" using assms(2) by (simp add: holds_key_def)
    then show ?thesis
      using False assms(4) op_inv_keys [OF assms(1), of key i] by (auto simp: hold)
  qed
qed (rule unique_call_to [OF assms(1)])

lemma activeKeys_other:
  "Cancel i m = (r, m') \<Longrightarrow> activeKeys m' = activeKeys m"
  "Delete i m = (r, m') \<Longrightarrow> activeKeys m' = activeKeys m"
  "ClearAll m = (n, m') \<Longrightarrow> activeKeys m' = activeKeys m"
  by (auto simp: Cancel_def Delete_def ClearAll_def
      split: option.splits if_splits prod.splits sum.splits)

lemma op_inv_mgr: "op_inv s \<Longrightarrow> activeKeys m = activeKeys (mgr s) \<Longrightarrow> op_inv (s\<lparr>mgr := m\<rparr>)"
  by (simp add: op_inv_def holds_key_def)

text \<open>A call that has not finished finds its own reservation in the active keys.\<close>

lemma own_key:
  assumes "op_inv s" "calls s c = Some k" "c_phase k \<noteq> Finished"
  shows "c_key k = [] \<and> activeKeys (mgr s) [] = None \<or>
     c_key k \<noteq> [] \<and> activeKeys (mgr s) (c_key k) = Some (op_id (c_op k))"
proof -
  have "holds_key s c (c_key k) (op_id (c_op k))" using assms by (simp add: holds_key_def)
  moreover have "activeKeys (mgr s) [] = None"
    using op_inv_keys [OF assms(1), of "[]"] by (meson not_None_eq)
  ultimately show ?thesis using op_inv_keys [OF assms(1)] by blast
qed

lemma op_inv_reserve:
  assumes inv: "op_inv s" and new: "calls s c = None"
    and fresh: "\<forall>c' k. calls s c' = Some k \<longrightarrow> op_id (c_op k) \<noteq> op_id oper"
    and res: "reserveKey oper key (mgr s) = (Inr (), m)"
  shows "op_inv (s\<lparr>mgr := m, calls := (calls s)(c \<mapsto> \<lparr>c_op = oper, c_key = key, c_phase = Reserved\<rparr>)\<rparr>)"
    (is "op_inv ?s'")
proof (rule op_invI)
  have hold: "holds_key ?s' d key' j \<longleftrightarrow>
      (if d = c then key' = key \<and> j = op_id oper else holds_key s d key' j)" for d key' j
    by (auto simp: holds_key_def)
  have nohold: "\<not> holds_key s c key' j" for key' j using new by (simp add: holds_key_def)
  fix key' j
  from reserveKey_Inr [OF res]
  have m: "activeKeys m = (if key \<noteq> [] then (activeKeys (mgr s))(key \<mapsto> op_id oper) else activeKeys (mgr s))"
    and free: "key \<noteq> [] \<Longrightarrow> activeKeys (mgr s) key = None" by auto
  have nokey: "key \<noteq> [] \<Longrightarrow> \<not> holds_key s d key j'" for d j'
    using free op_inv_keys [OF inv, of key j'] by auto
  show "activeKeys (mgr ?s') key' = Some j \<longleftrightarrow> key' \<noteq> [] \<and> (\<exists>d. holds_key ?s' d key' j)"
  proof (cases "key' = key \<and> key \<noteq> []")
    case True
    then show ?thesis using m nokey op_inv_keys [OF inv, of key j] by (auto simp: hold)
  next
    case False
    have "(\<exists>d. holds_key ?s' d key' j) \<longleftrightarrow> key' = key \<and> j = op_id oper \<or> (\<exists>d. holds_key s d key' j)"
      unfolding hold using nohold by metis
    with False show ?thesis using m op_inv_keys [OF inv, of key' j] by auto
  qed
next
  fix d d' k k'
  assume k: "calls ?s' d = Some k" and k': "calls ?s' d' = Some k'"
    and same: "op_id (c_op k) = op_id (c_op k')"
  have old: "op_id (c_op k1) \<noteq> op_id oper" if "calls s c1 = Some k1" for c1 k1
    using fresh that by blast
  show "d = d'"
  proof (cases "d = c \<or> d' = c")
    case True
    show ?thesis
    proof (rule ccontr)
      assume "d \<noteq> d'"
      with True k k' consider "calls s d' = Some k'" "op_id (c_op k) = op_id oper"
        | "calls s d = Some k" "op_id (c_op k') = op_id oper"
        by (cases "d = c") auto
      then show False using old same by cases metis+
    qed
  next
    case False
    with k k' have "calls s d = Some k" "calls s d' = Some k'" by auto
    from op_inv_unique [OF inv this same] show ?thesis .
  qed
qed

lemma op_step_inv: "op_step s t \<Longrightarrow> op_inv s \<Longrightarrow> op_inv t"
proof (induction rule: op_step.induct)
  case (reserve s c oper key m)
  then show ?case by (auto intro: op_inv_reserve)
next
  case (persist s c k m)
  then show ?case
    by (intro op_inv_advance [of s c k]) (auto simp: saveStarted_def)
next
  case (persist_failed s c k e m)
  then show ?case
    by (intro op_inv_end [of s c k]) (auto simp: saveStarted_def)
next
  case (register s c k)
  then show ?case
    by (intro op_inv_advance [of s c k]) (auto simp: registerWorker_def)
next
  case (launch s c k m)
  then show ?case
    by (intro op_inv_advance [of s c k]) (auto simp: launchWorker_def)
next
  case (launch_failed s c k e m)
  then show ?case
    by (intro op_inv_end [of s c k]) (auto simp: launchWorker_def)
next
  case (run s c k m)
  then show ?case
    by (intro op_inv_advance [of s c k]) (auto simp: workerBegin_def split: option.splits)
next
  case (run_forgotten s c k m)
  from own_key [OF run_forgotten.prems run_forgotten.hyps(1)] run_forgotten.hyps
  have "activeKeys m = (activeKeys (mgr s))(c_key k := None)"
    by (auto simp: workerBegin_def fun_upd_idem split: option.splits)
  with run_forgotten show ?case by (intro op_inv_end [of s c k]) auto
next
  case (finish s c k err)
  from own_key [OF finish.prems finish.hyps(1)] finish.hyps
  have "activeKeys (workerEnd (op_id (c_op k)) (c_key k) err (mgr s)) = (activeKeys (mgr s))(c_key k := None)"
    by (auto simp: workerEnd_def fun_upd_idem)
  with finish show ?case by (intro op_inv_end [of s c k]) auto
qed (auto intro: op_inv_mgr activeKeys_other)

lemma op_reachable_inv: "op_reachable rows s \<Longrightarrow> op_inv s"
  unfolding op_reachable_def
  by (induction rule: rtranclp_induct) (simp_all add: op_init_inv op_step_inv)

text \<open>
  C36 (safety).  Under every interleaving of starts, workers, cancellations and deletions,
  two unfinished operations never hold the same key, and a key is reserved exactly as long
  as an unfinished operation holds it: when none does, the key can be started again.
\<close>

theorem operation_keys_exclusive:
  assumes "op_reachable rows s"
  shows "(\<forall>c c' k k'. calls s c = Some k \<and> calls s c' = Some k' \<and> c_phase k \<noteq> Finished \<and>
            c_phase k' \<noteq> Finished \<and> c_key k = c_key k' \<and> c_key k \<noteq> [] \<longrightarrow> c = c') \<and>
         (\<forall>key. activeKeys (mgr s) key \<noteq> None \<longleftrightarrow>
            key \<noteq> [] \<and> (\<exists>c k. calls s c = Some k \<and> c_phase k \<noteq> Finished \<and> c_key k = key))"
proof (intro conjI allI impI)
  note inv = op_reachable_inv [OF assms]
  fix c c' k k'
  assume *: "calls s c = Some k \<and> calls s c' = Some k' \<and> c_phase k \<noteq> Finished \<and>
    c_phase k' \<noteq> Finished \<and> c_key k = c_key k' \<and> c_key k \<noteq> []"
  then have "op_id (c_op k) = op_id (c_op k')"
    using own_key [OF inv, of c k] own_key [OF inv, of c' k'] by auto
  with * show "c = c'" using op_inv_unique [OF inv] by blast
next
  fix key
  show "activeKeys (mgr s) key \<noteq> None \<longleftrightarrow>
      key \<noteq> [] \<and> (\<exists>c k. calls s c = Some k \<and> c_phase k \<noteq> Finished \<and> c_key k = key)"
    using op_inv_keys [OF op_reachable_inv [OF assms], of key]
    by (auto simp: holds_key_def)
qed

theorem operation_keys_exclusive_witness:
  "\<exists>s. op_reachable [] s \<and> activeKeys (mgr s) ''game'' \<noteq> None"
proof -
  let ?op = "blankOperation ''op1'' StatusQueued"
  let ?init = "op_init []"
  obtain m where m: "reserveKey ?op ''game'' (mgr ?init) = (Inr (), m)"
    by (simp add: reserveKey_def op_init_def NewManager_def)
  let ?s = "?init\<lparr>mgr := m, calls := (calls ?init)(0 \<mapsto> \<lparr>c_op = ?op, c_key = ''game'', c_phase = Reserved\<rparr>)\<rparr>"
  have "op_step ?init ?s"
    by (rule op_step.reserve) (use m in \<open>simp_all add: op_init_def\<close>)
  then have r: "op_reachable [] ?s" unfolding op_reachable_def by (rule r_into_rtranclp)
  then show ?thesis
    using conjunct2 [OF operation_keys_exclusive [OF r], THEN spec, of "''game''"] r
    by (intro exI [of _ ?s] conjI) (assumption, fastforce)
qed

section \<open>Cancellation\<close>

text \<open>
  A cancellation is never lost: whether the goroutine has begun or not
  when an active operation is cancelled, its context is cancelled once both have happened;
  a worker that is gone is reported as not running and nothing changes.
\<close>

theorem Cancel_reaches_worker:
  "(\<forall>w. workers m i = Some w \<longrightarrow> we_active w \<longrightarrow>
      fst (Cancel i m) = Inr () \<and>
      (\<exists>w'. workers (snd (workerBegin i key (snd (Cancel i m)))) i = Some w' \<and> ctx_cancelled w') \<and>
      (\<exists>w'. workers (snd (Cancel i (snd (workerBegin i key m)))) i = Some w' \<and> ctx_cancelled w')) \<and>
   (workers m i = None \<or> (\<exists>w. workers m i = Some w \<and> \<not> we_active w) \<longrightarrow>
      Cancel i m = (Inl (NewError ErrOperationNotFound ''The operation is no longer running''), m))"
  by (auto simp: Cancel_def workerBegin_def)

theorem Cancel_reaches_worker_witness:
  "\<exists>w'. workers (snd (workerBegin ''op1'' [] (snd (Cancel ''op1''
       (registerWorker (blankOperation ''op1'' StatusQueued) [] (NewManager [])))))) ''op1'' = Some w'
     \<and> ctx_cancelled w'"
  using Cancel_reaches_worker [of "registerWorker (blankOperation ''op1'' StatusQueued) [] (NewManager [])"
      "''op1''" "[]"]
  by (simp add: registerWorker_def blankOperation_def)

section \<open>The table\<close>

text \<open>
  After a restart no operation is left open: reconciliation turns
  exactly the queued and running rows into failed ones with the interruption's code, counts
  them, keeps every other row and the order, and a second reconciliation does nothing.
\<close>

theorem Reconcile_closes_open:
  "filter (\<lambda>r. open_status (op_status r)) (op_rows (snd (ReconcileInterrupted now m))) = [] \<and>
   fst (ReconcileInterrupted now m) =
     int (length (filter (\<lambda>r. open_status (op_status r)) (op_rows m))) \<and>
   map op_id (op_rows (snd (ReconcileInterrupted now m))) = map op_id (op_rows m) \<and>
   filter (\<lambda>r. \<not> open_status (op_status r)) (op_rows m) =
     map snd (filter (\<lambda>(r', r). r' = r \<and> \<not> open_status (op_status r))
       (zip (op_rows (snd (ReconcileInterrupted now m))) (op_rows m))) \<and>
   ReconcileInterrupted now' (snd (ReconcileInterrupted now m)) =
     (0, snd (ReconcileInterrupted now m))"
proof -
  let ?f = "interrupt_row now ErrOperationInterrupted
     ''The operation was interrupted when the launcher closed''"
  have closed: "\<not> open_status (op_status (?f r))" for r
    by (simp add: interrupt_row_def open_status_def)
  have id: "op_id (?f r) = op_id r" for r by (simp add: interrupt_row_def)
  have again: "interrupt_row t c msg (?f r) = ?f r" for t c msg r
    using closed [of r] by (simp add: interrupt_row_def)
  have kept: "filter (\<lambda>r. \<not> open_status (op_status r)) rs =
      map snd (filter (\<lambda>(r', r). r' = r \<and> \<not> open_status (op_status r)) (zip (map ?f rs) rs))" for rs
    by (induction rs) (auto simp: interrupt_row_def)
  show ?thesis
    by (simp add: ReconcileInterrupted_def ReconcileInterruptedOperations_def closed id again
        kept comp_def filter_empty_conv)
qed

text \<open>
  Saving an operation and reading it back by its identifier gives what was
  saved, except that the first save decides the creation time; other rows are untouched,
  and no operation of the table breaks the uniqueness of identifiers.
\<close>

theorem SaveOperation_roundtrip:
  "row_of j (SaveOperation oper rows) =
     (if j = op_id oper
      then Some (oper\<lparr>op_created := (case row_of j rows of None \<Rightarrow> op_created oper | Some r \<Rightarrow> op_created r)\<rparr>)
      else row_of j rows) \<and>
   (distinct (map op_id rows) \<longrightarrow> distinct (map op_id (SaveOperation oper rows)))"
  using ops_inv_Save [of rows oper] by (simp add: row_of_Save ops_inv_def split: option.splits)

theorem SaveOperation_roundtrip_witness:
  "row_of ''a'' (SaveOperation (blankOperation ''a'' StatusFailed) [blankOperation ''a'' StatusRunning])
     = Some (blankOperation ''a'' StatusFailed)
   \<and> distinct (map op_id (SaveOperation (blankOperation ''a'' StatusFailed) [blankOperation ''a'' StatusRunning]))"
  using SaveOperation_roundtrip [of "''a''" "blankOperation ''a'' StatusFailed"
      "[blankOperation ''a'' StatusRunning]"]
  by (simp add: row_of_def blankOperation_def)

text \<open>
  The listing is not in the order of time.  It sorts the stored texts,
  and within one second a text with a fraction is smaller than the text of the whole
  second: an operation created half a second later is listed after the earlier one, and a
  limit cuts off the newer operation instead of the older.
\<close>

theorem ListOperations_text_order:
  "let older = (blankOperation ''older'' StatusCompleted)\<lparr>op_created := 1700000000000000000\<rparr>;
       newer = (blankOperation ''newer'' StatusCompleted)\<lparr>op_created := 1700000000500000000\<rparr>
   in op_created older < op_created newer \<and>
      ListOperations 1 [older, newer] = [older] \<and> ListOperations 1 [newer, older] = [older]"
proof -
  have "\<not> ts 1700000000000000000 < ts 1700000000500000000" "ts 1700000000500000000 \<le> ts 1700000000000000000"
    using ts_not_monotone by auto
  with ts_not_monotone show ?thesis
    by (auto simp: ListOperations_def limit_rows_def order_desc_def Let_def)
qed

end
