(* ===== verification/ModModels.thy ===== *)
theory ModModels
  imports Errs GoTime
begin

text \<open>
  \<open>internal/mods/models.go\<close>: the data of the mods feature.  A \<open>*time.Time\<close> is a
  \<open>time option\<close>, a slice whose \<open>nil\<close> the code distinguishes (the tags of a cached release)
  an option; byte counts are integers.  \<open>ModDetails\<close> embeds \<open>ModSummary\<close>, as a record
  extension does.
\<close>

abbreviation "UpdatePolicyAutomatic \<equiv> ''automatic''"
abbreviation "UpdatePolicyCompatibleOnly \<equiv> ''compatible_only''"
abbreviation "UpdatePolicyPinned \<equiv> ''pinned''"

definition NormalizeUpdatePolicy :: "string \<Rightarrow> string" where
  "NormalizeUpdatePolicy policy =
     (if policy = UpdatePolicyCompatibleOnly \<or> policy = UpdatePolicyPinned then policy
      else if policy = ''ignore'' then UpdatePolicyPinned
      else UpdatePolicyAutomatic)"

lemma NormalizeUpdatePolicy_idem [simp]:
  "NormalizeUpdatePolicy (NormalizeUpdatePolicy p) = NormalizeUpdatePolicy p"
  by (simp add: NormalizeUpdatePolicy_def)

section \<open>Installed and discovered mods\<close>

record installed_mod =
  im_id :: string
  im_instance :: string
  im_name :: string
  im_version :: string
  im_file_name :: string
  im_file_path :: string
  im_enabled :: bool
  im_managed :: bool
  im_source :: string
  im_policy :: string
  im_size :: int
  im_installed_at :: time
  im_updated_at :: time

definition blankInstalledMod :: installed_mod where
  "blankInstalledMod = \<lparr>im_id = [], im_instance = [], im_name = [], im_version = [],
     im_file_name = [], im_file_path = [], im_enabled = False, im_managed = False,
     im_source = [], im_policy = [], im_size = 0, im_installed_at = zeroTime,
     im_updated_at = zeroTime\<rparr>"

record discovered_mod =
  disc_name :: string
  disc_version :: string
  disc_mod_id :: string
  disc_file_name :: string
  disc_file_path :: string
  disc_enabled :: bool
  disc_size :: int
  disc_modified :: time

text \<open>\<open>instances.Instance\<close>; the environment variables are a map kept as an association list.\<close>

record instance_ref =
  ir_id :: string
  ir_name :: string
  ir_directory :: string
  ir_game_version :: string
  ir_description :: string
  ir_client :: string
  ir_account :: "string option"
  ir_cover :: "string option"
  ir_status :: string
  ir_arguments :: "string list"
  ir_environment :: "(string \<times> string) list"
  ir_pinned :: bool
  ir_last_played :: "time option"
  ir_created :: time
  ir_updated :: time

definition plainInstance :: "string \<Rightarrow> string \<Rightarrow> string \<Rightarrow> string \<Rightarrow> instance_ref" where
  "plainInstance i name directory version =
     \<lparr>ir_id = i, ir_name = name, ir_directory = directory, ir_game_version = version,
      ir_description = [], ir_client = ''vanilla'', ir_account = None, ir_cover = None, ir_status = ''ready'',
      ir_arguments = [], ir_environment = [], ir_pinned = False, ir_last_played = None,
      ir_created = 0, ir_updated = 0\<rparr>"

lemma plainInstance_fields [simp]:
  "ir_id (plainInstance i n d v) = i" "ir_name (plainInstance i n d v) = n"
  "ir_directory (plainInstance i n d v) = d" "ir_game_version (plainInstance i n d v) = v"
  by (simp_all add: plainInstance_def)

section \<open>The catalog\<close>

record mod_version =
  mv_id :: string
  mv_version :: string
  mv_game_versions :: "string list"
  mv_release_type :: string
  mv_file_name :: string
  mv_file_size :: int
  mv_download_url :: string
  mv_checksum :: string
  mv_published :: "time option"
  mv_changelog :: string

definition blankModVersion :: mod_version where
  "blankModVersion = \<lparr>mv_id = [], mv_version = [], mv_game_versions = [], mv_release_type = [],
     mv_file_name = [], mv_file_size = 0, mv_download_url = [], mv_checksum = [],
     mv_published = None, mv_changelog = []\<rparr>"

record mod_dependency =
  dep_mod_id :: string
  dep_name :: string
  dep_version :: string
  dep_requirement :: string

record mod_summary =
  ms_id :: string
  ms_slug :: string
  ms_name :: string
  ms_author :: string
  ms_summary :: string
  ms_image_url :: string
  ms_side :: string
  ms_latest :: string
  ms_game_versions :: "string list"
  ms_mod_id_strings :: "string list"
  ms_downloads :: int
  ms_created :: "time option"
  ms_updated :: "time option"
  ms_tags :: "string list"
  ms_is_downloaded :: bool
  ms_is_installed :: bool
  ms_update_available :: bool

record mod_details = mod_summary +
  md_description :: string
  md_screenshots :: "(string \<times> string) list"
  md_versions :: "mod_version list"
  md_dependencies :: "mod_dependency list"
  md_website :: string
  md_source_url :: string
  md_license :: string

record mod_search_query =
  sq_text :: string
  sq_game_version :: string
  sq_side :: string
  sq_updated_after :: "time option"
  sq_tags :: "string list"
  sq_compatible_only :: bool
  sq_instance :: string
  sq_sort :: string
  sq_page :: int
  sq_page_size :: int

record mod_search_result =
  sr_items :: "mod_summary list"
  sr_page :: int
  sr_page_size :: int
  sr_total_items :: int
  sr_total_pages :: int
  sr_has_next :: bool

section \<open>The library of cached releases\<close>

record installed_mod_instance =
  imi_id :: string
  imi_name :: string
  imi_version :: string
  imi_enabled :: bool

record downloaded_mod =
  dm_schema :: int
  dm_mod_id :: string
  dm_slug :: string
  dm_name :: string
  dm_author :: string
  dm_image_url :: string
  dm_side :: string
  dm_version_id :: string
  dm_version :: string
  dm_game_versions :: "string list"
  dm_tags :: "string list option"
  dm_file_name :: string
  dm_file_path :: string
  dm_file_size :: int
  dm_checksum :: string
  dm_download_url :: string
  dm_downloaded_at :: time
  dm_instances :: "installed_mod_instance list"
  dm_latest :: string
  dm_update_available :: bool

definition blankDownloadedMod :: downloaded_mod where
  "blankDownloadedMod = \<lparr>dm_schema = 0, dm_mod_id = [], dm_slug = [], dm_name = [], dm_author = [],
     dm_image_url = [], dm_side = [], dm_version_id = [], dm_version = [], dm_game_versions = [],
     dm_tags = None, dm_file_name = [], dm_file_path = [], dm_file_size = 0, dm_checksum = [],
     dm_download_url = [], dm_downloaded_at = zeroTime, dm_instances = [], dm_latest = [],
     dm_update_available = False\<rparr>"

section \<open>Requests and answers\<close>

record download_mod_request =
  rq_mod_id :: string
  rq_version_id :: string
  rq_instances :: "string list"
  rq_download_only :: bool
  rq_allow_incompatible :: bool

record mod_target =
  tg_mod_id :: string
  tg_version_id :: string

record mod_installation_result =
  mir_instance :: string
  mir_instance_name :: string
  mir_installed :: bool
  mir_message :: string

record mod_install_result =
  ins_task :: string
  ins_downloaded :: downloaded_mod
  ins_downloaded_now :: "downloaded_mod list"
  ins_installations :: "mod_installation_result list"

definition blankModInstallResult :: mod_install_result where
  "blankModInstallResult = \<lparr>ins_task = [], ins_downloaded = blankDownloadedMod,
     ins_downloaded_now = [], ins_installations = []\<rparr>"

record batch_mod_install_result =
  bat_mod_id :: string
  bat_version_id :: string
  bat_result :: mod_install_result
  bat_error :: string

record cleanup_result =
  cl_removed :: int
  cl_freed :: int

record local_mod_link =
  lk_path :: string
  lk_name :: string
  lk_version :: string
  lk_file_name :: string
  lk_mod_id :: string
  lk_version_id :: string
  lk_slug :: string
  lk_latest :: string
  lk_update_available :: bool
  lk_reason :: string

record link_local_mods_result =
  ll_linked :: "local_mod_link list"
  ll_not_matched :: "local_mod_link list"
  ll_failed :: "local_mod_link list"

record upload_mods_result =
  up_linked :: "local_mod_link list"
  up_not_matched :: "local_mod_link list"
  up_skipped :: "string list"
  up_failed :: "local_mod_link list"

record mod_file_failure =
  ff_path :: string
  ff_error :: string

record install_mod_files_result =
  imf_installed :: "string list"
  imf_skipped :: "string list"
  imf_failed :: "mod_file_failure list"

record mod_delete_preview =
  pv_mod_id :: string
  pv_mod_name :: string
  pv_dependencies :: "installed_mod list"

record mod_update_result =
  ur_updated :: int
  ur_skipped :: int

text \<open>\<open>ArchiveInfo\<close> of \<open>archive.go\<close>; the dependency map is a list in iteration order.\<close>

record archive_info =
  ai_mod_id :: string
  ai_name :: string
  ai_version :: string
  ai_dependencies :: "(string \<times> string) list"

definition emptyArchiveInfo :: archive_info where
  "emptyArchiveInfo = \<lparr>ai_mod_id = [], ai_name = [], ai_version = [], ai_dependencies = []\<rparr>"

end
