(* ===== verification/SnapshotModels.thy ===== *)
theory SnapshotModels
  imports ModModels
begin

text \<open>
  \<open>internal/snapshots/models.go\<close> and \<open>internal/recovery/models.go\<close>: the manifest of a snapshot,
  the marker of the last configuration that launched, and the identity of a mod in both, with
  the pure functions of \<open>snapshots/service.go\<close> on them.  A \<open>map[string]string\<close> that is only
  stored is its list of pairs.
\<close>

abbreviation "TypeManual \<equiv> ''manual''"
abbreviation "TypeAutomatic \<equiv> ''automatic''"
abbreviation "ModSourceModDB \<equiv> ''moddb''"
abbreviation "ModSourceUnknown \<equiv> ''unknown''"
abbreviation "FormatVersion \<equiv> 2 :: int"
abbreviation "FormatVersion1 \<equiv> 1 :: int"
abbreviation "ErrSnapshotNotFound \<equiv> ''SNAPSHOT_NOT_FOUND''"
abbreviation "ErrSnapshotInvalid \<equiv> ''SNAPSHOT_INVALID''"

record snapshot_mod =
  sm_source :: string
  sm_mod_id :: string
  sm_release_id :: string
  sm_identifier :: string
  sm_version :: string
  sm_file_name :: string
  sm_sha256 :: string
  sm_enabled :: bool

record manifest =
  mf_format :: int
  mf_id :: string
  mf_instance :: string
  mf_instance_name :: string
  mf_created :: time
  mf_type :: string
  mf_reason :: string
  mf_context :: "(string \<times> string) list"
  mf_game_version :: string
  mf_size :: int
  mf_mod_count :: int
  mf_world_count :: int
  mf_mods :: "snapshot_mod list"

record instance_snapshot =
  si_id :: string
  si_instance :: string
  si_instance_name :: string
  si_type :: string
  si_reason :: string
  si_context :: "(string \<times> string) list"
  si_game_version :: string
  si_created :: time
  si_size :: int
  si_mod_count :: int
  si_world_count :: int

section \<open>The identity of a mod\<close>

definition ModKey :: "snapshot_mod \<Rightarrow> string" where
  "ModKey m =
     (if sm_source m = ModSourceModDB then ''moddb:'' @ TrimSpace (sm_mod_id m)
      else (let name = TrimSpace (sm_identifier m)
            in ''local:'' @ (if name = [] then TrimSpace (sm_file_name m) else name)))"

definition ModDisplayName :: "snapshot_mod \<Rightarrow> string" where
  "ModDisplayName m =
     (if TrimSpace (sm_identifier m) \<noteq> [] then sm_identifier m
      else if TrimSpace (sm_mod_id m) \<noteq> [] then sm_mod_id m
      else sm_file_name m)"

text \<open>The map a loop builds: a later entry replaces an earlier one with its key.\<close>

definition byKey :: "snapshot_mod list \<Rightarrow> string \<Rightarrow> snapshot_mod option" where
  "byKey mods key = find (\<lambda>m. ModKey m = key) (rev mods)"

definition SameModSet :: "snapshot_mod list \<Rightarrow> snapshot_mod list \<Rightarrow> bool" where
  "SameModSet left right \<longleftrightarrow> length left = length right \<and>
     list_all (\<lambda>m. case byKey left (ModKey m) of
        None \<Rightarrow> False | Some l \<Rightarrow> sm_version l = sm_version m) right"

definition validateMod :: "snapshot_mod \<Rightarrow> unit result" where
  "validateMod m =
     (if sm_source m = ModSourceModDB
      then (if TrimSpace (sm_mod_id m) = [] \<or> TrimSpace (sm_release_id m) = []
            then Inl (NewError ErrSnapshotInvalid ''Snapshot mod metadata is incomplete'') else Inr ())
      else if sm_source m = ModSourceUnknown
      then Inl (NewError ErrSnapshotInvalid
             (''This snapshot contains a mod that Waxlight cannot download automatically: '' @
              ModDisplayName m @ '' '' @ sm_version m))
      else Inl (NewError ErrSnapshotInvalid ''Snapshot contains an unsupported mod source''))"

fun ValidateMods :: "snapshot_mod list \<Rightarrow> unit result" where
  "ValidateMods [] = Inr ()"
| "ValidateMods (m # mods) = (case validateMod m of Inl e \<Rightarrow> Inl e | Inr _ \<Rightarrow> ValidateMods mods)"

lemma ValidateMods_Inr: "ValidateMods mods = Inr () \<longleftrightarrow> (\<forall>m \<in> set mods. validateMod m = Inr ())"
  by (induction mods) (auto split: sum.splits)

lemma validateMod_Inr:
  "validateMod m = Inr () \<longleftrightarrow> sm_source m = ModSourceModDB \<and> TrimSpace (sm_mod_id m) \<noteq> [] \<and>
     TrimSpace (sm_release_id m) \<noteq> []"
  by (auto simp: validateMod_def)

section \<open>The last known good configuration\<close>

record last_known_good =
  lkg_instance :: string
  lkg_recorded :: time
  lkg_game_version :: string
  lkg_snapshot :: string
  lkg_mods :: "snapshot_mod list"

record mod_change =
  mc_name :: string
  mc_from :: string
  mc_to :: string

record configuration_changes =
  cc_version_from :: string
  cc_version_to :: string
  cc_updated :: "mod_change list"
  cc_added :: "mod_change list"
  cc_removed :: "mod_change list"

record last_known_good_status =
  ls_recorded :: time
  ls_game_version :: string
  ls_mod_count :: int
  ls_snapshot :: string
  ls_snapshot_exists :: bool
  ls_matches :: bool
  ls_changes :: configuration_changes

record recovery_suggestion =
  rs_instance :: string
  rs_recorded :: time
  rs_snapshot :: string
  rs_snapshot_exists :: bool
  rs_changes :: configuration_changes
  rs_signature :: string

text \<open>\<open>settings.Settings\<close>, as far as safety snapshots look at it.\<close>

record safety_settings =
  ss_automatic :: bool
  ss_retention :: int

end
