(* ===== verification/GameClient.thy ===== *)
theory GameClient
  imports GoStrings
begin

text \<open>\<open>instances/models.go\<close>: the game client an instance starts.\<close>

abbreviation "GameClientVanilla \<equiv> ''vanilla''"
abbreviation "GameClientOptimum \<equiv> ''optimum''"

definition NormalizeGameClient :: "string \<Rightarrow> string option" where
  "NormalizeGameClient c =
     (if c = [] \<or> c = GameClientVanilla then Some GameClientVanilla
      else if c = GameClientOptimum then Some GameClientOptimum else None)"

lemma NormalizeGameClient_idem: "NormalizeGameClient c = Some d \<Longrightarrow> NormalizeGameClient d = Some d"
  by (auto simp: NormalizeGameClient_def split: if_splits)

end
