(* ===== verification/PackageModels.thy ===== *)
theory PackageModels
  imports SnapshotModels GameClient "HOL-Library.Word"
begin

text \<open>
  \<open>instances/package_models.go\<close>: the manifest of a portable instance package, and the entries of
  the archive that holds it as \<open>archive/zip\<close> shows them.  The size of an entry is the number of the
  central directory, a 64-bit word that nobody has compared with the bytes yet.
\<close>

record package_mod =
  pm_mod_id :: string
  pm_version_id :: string
  pm_name :: string
  pm_version :: string
  pm_file_name :: string
  pm_source :: string
  pm_checksum :: string
  pm_download_url :: string
  pm_enabled :: bool
  pm_policy :: string
  pm_archive_path :: string

record package_manifest =
  pk_schema :: int
  pk_name :: string
  pk_description :: string
  pk_author :: "(string \<times> string \<times> string) option"
  pk_version_id :: string
  pk_version_name :: string
  pk_client :: string
  pk_arguments :: "string list"
  pk_mods :: "package_mod list"
  pk_configs :: "string list"
  pk_icon :: bool
  pk_created :: time

abbreviation "PackageModSourceCatalog \<equiv> ''moddb''"
abbreviation "PackageModSourceEmbedded \<equiv> ''embedded''"
abbreviation "InstancePackageLegacySchemaVersion \<equiv> (1::int)"
abbreviation "InstancePackageSchemaVersion \<equiv> (3::int)"

datatype entry_kind = RegularEntry | DirectoryEntry | SymlinkEntry | SpecialEntry

text \<open>An entry: its name, kind and declared size; the content is added where contents are declared.\<close>

type_synonym entry_header = "string \<times> entry_kind \<times> 64 word"

end
