(* ===== verification/FileSystem.thy ===== *)
theory FileSystem
  imports PackageModels "HOL-Library.AList"
begin

text \<open>
  The part of Go's \<open>os\<close> package the mods feature uses, on a tree of clean absolute paths: a
  node is a directory or a file.  A file's content is its bytes, or the record whose JSON encoding
  \<open>modstorage\<close>, \<open>platform/snapshots\<close> or \<open>platform/dataroot\<close> wrote there (the encoding itself is \<open>encoding/json\<close>),
  or the entries of a readable archive, each with its content and the package manifest
  \<open>encoding/json\<close> makes of it, if any.
  The list of nodes keeps one entry per path.  Permissions and symbolic links are not
  modelled; the failures of single calls are injected by the state's environment.
\<close>

text \<open>\<open>dataroot.Marker\<close>: a move of the data folder that the next start has to finish.\<close>

record relocation_marker =
  rk_from :: string
  rk_to :: string
  rk_copy :: string
  rk_phase :: string
  rk_pid :: int
  rk_created :: bool
  rk_committed :: bool
  rk_owner :: string

datatype content =
    Blob (bytes: string)
  | MetadataJson downloaded_mod
  | ManifestJson manifest
  | MarkerJson relocation_marker
  | ZipArchive "(entry_header \<times> content \<times> package_manifest option) list"

record file_data =
  fd_content :: content
  fd_mtime :: time

datatype node = DirNode | FileNode file_data

type_synonym fs = "(string \<times> node) list"

definition fs_node :: "fs \<Rightarrow> string \<Rightarrow> node option" where
  "fs_node t p = map_of t p"

definition is_dir :: "fs \<Rightarrow> string \<Rightarrow> bool" where
  "is_dir t p \<longleftrightarrow> fs_node t p = Some DirNode"

definition is_file :: "fs \<Rightarrow> string \<Rightarrow> bool" where
  "is_file t p \<longleftrightarrow> (\<exists>d. fs_node t p = Some (FileNode d))"

lemma is_file_code [code]:
  "is_file t p = (case fs_node t p of Some (FileNode d) \<Rightarrow> True | _ \<Rightarrow> False)"
  by (auto simp: is_file_def split: option.splits node.splits)

fun content_size :: "content \<Rightarrow> int" where
  "content_size (Blob b) = int (length b)"
| "content_size (MetadataJson m) = 0"
| "content_size (ManifestJson m) = 0"
| "content_size (MarkerJson m) = 0"
| "content_size (ZipArchive es) = 0"

text \<open>\<open>under root p\<close>: the path lies strictly below the directory.\<close>

definition below :: "string \<Rightarrow> string" where
  "below root = (if root = ''/'' then ''/'' else root @ ''/'')"

definition under :: "string \<Rightarrow> string \<Rightarrow> bool" where
  "under root p \<longleftrightarrow> HasPrefix p (below root) \<and> length p > length (below root)"

definition entry_of :: "string \<Rightarrow> string \<Rightarrow> string option" where
  "entry_of root p =
     (if under root p \<and> CHR ''/'' \<notin> set (drop (length (below root)) p)
      then Some (drop (length (below root)) p) else None)"

section \<open>Calls\<close>

definition osStat :: "string \<Rightarrow> fs \<Rightarrow> node result" where
  "osStat p t = (case fs_node t p of None \<Rightarrow> Inl (OsNotExist ''no such file or directory'') | Some n \<Rightarrow> Inr n)"

text \<open>\<open>os.ReadDir\<close>: the names in the directory, sorted.\<close>

definition dir_names :: "string \<Rightarrow> fs \<Rightarrow> string list" where
  "dir_names root t = sort_strings (List.map_filter (\<lambda>(p, _). entry_of root p) t)"

definition osReadDir :: "string \<Rightarrow> fs \<Rightarrow> string list result" where
  "osReadDir root t =
     (case fs_node t root of
        None \<Rightarrow> Inl (OsNotExist ''no such file or directory'')
      | Some (FileNode _) \<Rightarrow> Inl (OtherError ''not a directory'')
      | Some DirNode \<Rightarrow> Inr (dir_names root t))"

definition osRemove :: "string \<Rightarrow> fs \<Rightarrow> unit result \<times> fs" where
  "osRemove p t =
     (case fs_node t p of
        None \<Rightarrow> (Inl (OsNotExist ''no such file or directory''), t)
      | Some (FileNode _) \<Rightarrow> (Inr (), AList.delete p t)
      | Some DirNode \<Rightarrow>
          (if list_ex (\<lambda>(q, _). under p q) t then (Inl (OtherError ''directory not empty''), t)
           else (Inr (), AList.delete p t)))"

definition osRemoveAll :: "string \<Rightarrow> fs \<Rightarrow> fs" where
  "osRemoveAll p t = filter (\<lambda>(q, _). q \<noteq> p \<and> \<not> under p q) t"

text \<open>The directories above a path, outermost first.\<close>

definition ancestors :: "string \<Rightarrow> string list" where
  "ancestors p = map (\<lambda>i. take i p) (filter (\<lambda>i. p ! i = CHR ''/'') [1..<length p])"

definition add_dir :: "string \<Rightarrow> fs \<Rightarrow> fs" where
  "add_dir p t = (if fs_node t p = None then (p, DirNode) # t else t)"

definition osMkdirAll :: "string \<Rightarrow> fs \<Rightarrow> unit result \<times> fs" where
  "osMkdirAll p t =
     (if list_ex (is_file t) (ancestors p @ [p]) then (Inl (OtherError ''not a directory''), t)
      else (Inr (), fold add_dir (ancestors p @ [p]) t))"

text \<open>\<open>os.Rename\<close>: a file replaces a file, a directory moves with everything below it.\<close>

definition move_path :: "string \<Rightarrow> string \<Rightarrow> string \<Rightarrow> string" where
  "move_path a b p = (if p = a then b else if under a p then below b @ drop (length (below a)) p else p)"

definition osRename :: "string \<Rightarrow> string \<Rightarrow> fs \<Rightarrow> unit result \<times> fs" where
  "osRename a b t =
     (case fs_node t a of
        None \<Rightarrow> (Inl (OsNotExist ''no such file or directory''), t)
      | Some (FileNode d) \<Rightarrow>
          (if is_dir t b then (Inl (OtherError ''file exists''), t)
           else if \<not> is_dir t (Dir b) then (Inl (OsNotExist ''no such file or directory''), t)
           else (Inr (), AList.update b (FileNode d) (AList.delete a t)))
      | Some DirNode \<Rightarrow>
          (if a = b then (Inr (), t)
           else if is_file t b then (Inl (OtherError ''not a directory''), t)
           else if under a b then (Inl (OtherError ''invalid argument''), t)
           else if list_ex (\<lambda>(q, _). under b q) t then (Inl (OtherError ''directory not empty''), t)
           else if \<not> is_dir t (Dir b) then (Inl (OsNotExist ''no such file or directory''), t)
           else (Inr (), map (\<lambda>(q, n). (move_path a b q, n)) (AList.delete b t))))"

text \<open>
  \<open>os.OpenFile\<close> with \<open>O_CREATE | O_TRUNC\<close> leaves an empty file; \<open>writeContent\<close> is the copy
  into an open file.
\<close>

definition osCreate :: "string \<Rightarrow> time \<Rightarrow> fs \<Rightarrow> unit result \<times> fs" where
  "osCreate p now t =
     (if is_dir t p then (Inl (OtherError ''is a directory''), t)
      else if \<not> is_dir t (Dir p) then (Inl (OsNotExist ''no such file or directory''), t)
      else (Inr (), AList.update p (FileNode \<lparr>fd_content = Blob [], fd_mtime = now\<rparr>) t))"

definition writeContent :: "string \<Rightarrow> content \<Rightarrow> time \<Rightarrow> fs \<Rightarrow> fs" where
  "writeContent p c now t = AList.update p (FileNode \<lparr>fd_content = c, fd_mtime = now\<rparr>) t"

definition osReadFile :: "string \<Rightarrow> fs \<Rightarrow> content result" where
  "osReadFile p t =
     (case fs_node t p of
        None \<Rightarrow> Inl (OsNotExist ''no such file or directory'')
      | Some DirNode \<Rightarrow> Inl (OtherError ''is a directory'')
      | Some (FileNode d) \<Rightarrow> Inr (fd_content d))"

text \<open>\<open>filepath.WalkDir\<close>: the files below a root, in the order of their path elements.\<close>

definition walk_files :: "string \<Rightarrow> fs \<Rightarrow> string list" where
  "walk_files root t =
     sort_key (\<lambda>p. Split p (CHR ''/''))
       (map fst (filter (\<lambda>(p, n). under root p \<and> n \<noteq> DirNode) t))"

section \<open>What a call changes\<close>

lemma fs_node_Nil [simp]: "fs_node [] p = None"
  by (simp add: fs_node_def)

lemma fs_node_update [simp]: "fs_node (AList.update p n t) q = (if q = p then Some n else fs_node t q)"
  by (simp add: fs_node_def update_conv)

lemma fs_node_delete [simp]: "fs_node (AList.delete p t) q = (if q = p then None else fs_node t q)"
  by (simp add: fs_node_def delete_conv)

lemma fs_node_filter:
  "fs_node (filter (\<lambda>(q, _). P q) t) p = (if P p then fs_node t p else None)"
  by (induction t) (auto simp: fs_node_def)

lemma osRemove_node:
  "osRemove p t = (r, t') \<Longrightarrow> fs_node t' q = (if q = p \<and> r = Inr () then None else fs_node t q)"
  by (auto simp: osRemove_def split: option.splits node.splits if_splits)

lemma osRemove_only: "osRemove p t = (r, t') \<Longrightarrow> q \<noteq> p \<Longrightarrow> fs_node t' q = fs_node t q"
  by (simp add: osRemove_node)

lemma osRemove_Inl: "osRemove p t = (Inl e, t') \<Longrightarrow> t' = t"
  by (auto simp: osRemove_def split: option.splits node.splits if_splits)

lemma osRemoveAll_node:
  "fs_node (osRemoveAll p t) q = (if q = p \<or> under p q then None else fs_node t q)"
  by (simp add: osRemoveAll_def fs_node_filter)

lemma fs_node_add_dir:
  "fs_node (add_dir p t) q = (if q = p \<and> fs_node t p = None then Some DirNode else fs_node t q)"
  by (simp add: add_dir_def fs_node_def)

lemma fs_node_add_dirs:
  "fs_node (fold add_dir ps t) q =
     (if fs_node t q = None \<and> q \<in> set ps then Some DirNode else fs_node t q)"
  by (induction ps arbitrary: t) (auto simp: fs_node_add_dir)

lemma osMkdirAll_keeps: "osMkdirAll p t = (r, t') \<Longrightarrow> fs_node t q = Some n \<Longrightarrow> fs_node t' q = Some n"
  by (auto simp: osMkdirAll_def fs_node_add_dirs split: if_splits simp del: fold_append)

lemma osMkdirAll_dir: "osMkdirAll p t = (Inr u, t') \<Longrightarrow> is_dir t' p"
proof -
  assume "osMkdirAll p t = (Inr u, t')"
  then have t': "t' = fold add_dir (ancestors p @ [p]) t" and "\<not> is_file t p"
    by (auto simp: osMkdirAll_def simp del: fold_append split: if_splits)
  then show ?thesis
    by (cases "fs_node t p"; cases "the (fs_node t p)")
       (auto simp: is_dir_def is_file_def fs_node_add_dirs simp del: fold_append)
qed

lemma osMkdirAll_only_dirs:
  "osMkdirAll p t = (r, t') \<Longrightarrow> fs_node t' q = fs_node t q \<or> fs_node t' q = Some DirNode"
  by (auto simp: osMkdirAll_def fs_node_add_dirs split: if_splits simp del: fold_append)

lemma under_trans: "under a b \<Longrightarrow> under b c \<Longrightarrow> under a c"
  by (auto simp: under_def below_def HasPrefix_iff split: if_splits)

lemma under_irrefl: "\<not> under p p"
  by (auto simp: under_def below_def HasPrefix_iff split: if_splits)

text \<open>One entry per path.\<close>

definition fs_wf :: "fs \<Rightarrow> bool" where
  "fs_wf t \<longleftrightarrow> distinct (map fst t)"

lemma fs_wf_osRemove: "fs_wf t \<Longrightarrow> osRemove p t = (r, t') \<Longrightarrow> fs_wf t'"
  by (auto simp: fs_wf_def osRemove_def distinct_delete split: option.splits node.splits if_splits)

lemma fs_wf_update [simp]: "fs_wf t \<Longrightarrow> fs_wf (AList.update p n t)"
  by (simp add: fs_wf_def distinct_update)

lemma fs_wf_delete [simp]: "fs_wf t \<Longrightarrow> fs_wf (AList.delete p t)"
  by (simp add: fs_wf_def distinct_delete)

lemma fs_node_in: "fs_wf t \<Longrightarrow> (p, n) \<in> set t \<longleftrightarrow> fs_node t p = Some n"
  by (simp add: fs_wf_def fs_node_def)

lemma set_dir_names: "set (dir_names root t) = {e. \<exists>p n. (p, n) \<in> set t \<and> entry_of root p = Some e}"
  by (force simp: dir_names_def map_filter_def)

lemma entry_of_eq: "entry_of root p = Some e \<longleftrightarrow> p = below root @ e \<and> e \<noteq> [] \<and> CHR ''/'' \<notin> set e"
  by (auto simp: entry_of_def under_def HasPrefix_iff)

lemma mem_dir_names:
  "fs_wf t \<Longrightarrow> e \<in> set (dir_names root t) \<longleftrightarrow>
     e \<noteq> [] \<and> CHR ''/'' \<notin> set e \<and> fs_node t (below root @ e) \<noteq> None"
  by (auto simp: set_dir_names entry_of_eq fs_node_in)

end
