(* ===== verification/ModVersions.thy ===== *)
theory ModVersions
  imports ModModels "HOL-Library.Multiset"
begin

text \<open>
  The pure part of \<open>internal/mods\<close>: the identity of catalog releases (\<open>identity.go\<close>), the
  choice of a release that satisfies a requirement (\<open>semver.go\<close>), the recognition of local
  files (\<open>match.go\<close>) and the choice of an upgrade (\<open>catalog.go\<close>, \<open>updates.go\<close>).

  \<open>golang.org/x/mod/semver\<close> and the comparison functions of \<open>vintagestory-go/modpack\<close> are
  not part of the repository: they are the fields of \<open>versioning\<close>, the parameter of every
  definition that calls them.
\<close>

record versioning =
  sv_valid :: "string \<Rightarrow> bool"
  sv_compare :: "string \<Rightarrow> string \<Rightarrow> int"
  vs_compare :: "string \<Rightarrow> string \<Rightarrow> int"
  vs_upgrade :: "string \<Rightarrow> string \<Rightarrow> string \<Rightarrow> bool"

section \<open>Identity\<close>

abbreviation "colon \<equiv> CHR '':''"

definition ParseModDBSource :: "string \<Rightarrow> (string \<times> string) option" where
  "ParseModDBSource source =
     (case Split source colon of
        [p0, p1, p2] \<Rightarrow>
          (if p0 \<noteq> ''moddb'' \<or> p1 = [] \<or> p2 = [] then None else Some (p1, p2))
      | _ \<Rightarrow> None)"

definition ModDBSource :: "string \<Rightarrow> string \<Rightarrow> string" where
  "ModDBSource modID versionID = ''moddb:'' @ modID @ '':'' @ versionID"

definition IsLocalModSource :: "string \<Rightarrow> bool" where
  "IsLocalModSource source \<longleftrightarrow> source = [] \<or> source = ''local''"

definition FindModVersion :: "mod_version list \<Rightarrow> string \<Rightarrow> mod_version option" where
  "FindModVersion versions i =
     (if i = [] \<and> versions \<noteq> [] then
        (case find (\<lambda>v. mv_release_type v = ''stable'') versions of
           Some v \<Rightarrow> Some v
         | None \<Rightarrow> Some (hd versions))
      else find (\<lambda>v. mv_id v = i) versions)"

definition majorMinor :: "string \<Rightarrow> string" where
  "majorMinor version = Join (take 2 (Split version (CHR ''.''))) ''.''"

definition ModSupportsVersion :: "string list \<Rightarrow> string \<Rightarrow> bool" where
  "ModSupportsVersion versions requested \<longleftrightarrow>
     list_ex (\<lambda>v. v = requested \<or> majorMinor v \<noteq> [] \<and> HasPrefix requested (majorMinor v @ ''.''))
       versions \<or> versions = []"

definition isBuiltInModDependency :: "string \<Rightarrow> bool" where
  "isBuiltInModDependency modID \<longleftrightarrow>
     ToLower (TrimSpace modID) \<in> {''game'', ''survival'', ''creative''}"

definition canonicalCatalogModID :: "'a mod_details_scheme \<Rightarrow> string" where
  "canonicalCatalogModID details =
     ToLower (if TrimSpace (ms_id details) = [] then TrimSpace (ms_slug details)
              else TrimSpace (ms_id details))"

definition modDownloadKey :: "string \<Rightarrow> string \<Rightarrow> string" where
  "modDownloadKey modID versionID = modID @ '':'' @ versionID"

lemma Split_Join: "xs \<noteq> [] \<Longrightarrow> (\<forall>x \<in> set xs. c \<notin> set x) \<Longrightarrow> Split (Join xs [c]) c = xs"
proof (induction xs rule: induct_list012)
  case (2 x)
  then show ?case by (simp add: Split_id)
next
  case (3 x y zs)
  then show ?case by (simp add: Split_append)
qed simp

lemma ModDBSource_Join: "ModDBSource m v = Join [''moddb'', m, v] [colon]"
  by (simp add: ModDBSource_def)

text \<open>
  The persisted source of a catalog release reads back as exactly that
  release when its identifiers are non-empty and hold no colon, and only the source written
  for a release reads as it; a local source never reads as a catalog release.
\<close>

theorem ParseModDBSource_roundtrip:
  "(ParseModDBSource (ModDBSource m v) = Some (m, v) \<longleftrightarrow>
      m \<noteq> [] \<and> v \<noteq> [] \<and> colon \<notin> set m \<and> colon \<notin> set v) \<and>
   (ParseModDBSource s = Some (m, v) \<longrightarrow> s = ModDBSource m v) \<and>
   (IsLocalModSource s \<longrightarrow> ParseModDBSource s = None)"
proof (intro conjI impI)
  have only: "s' = ModDBSource m' v' \<and> m' \<noteq> [] \<and> v' \<noteq> [] \<and> colon \<notin> set m' \<and> colon \<notin> set v'"
    if "ParseModDBSource s' = Some (m', v')" for s' m' v'
  proof -
    from that have parts: "Split s' colon = [''moddb'', m', v']" and ne: "m' \<noteq> []" "v' \<noteq> []"
      by (auto simp: ParseModDBSource_def split: list.splits if_splits)
    have "s' = Join (Split s' colon) [colon]" by simp
    then have "s' = ModDBSource m' v'" by (simp only: parts ModDBSource_Join)
    moreover have "colon \<notin> set m'" "colon \<notin> set v'"
      using Split_no_sep [of _ s' colon] parts by auto
    ultimately show ?thesis using ne by simp
  qed
  have fwd: "ParseModDBSource (ModDBSource m v) = Some (m, v)"
    if "m \<noteq> []" "v \<noteq> []" "colon \<notin> set m" "colon \<notin> set v"
  proof -
    have "Split (ModDBSource m v) colon = [''moddb'', m, v]"
      unfolding ModDBSource_Join using that by (intro Split_Join) auto
    with that show ?thesis by (simp add: ParseModDBSource_def)
  qed
  show "ParseModDBSource (ModDBSource m v) = Some (m, v) \<longleftrightarrow>
      m \<noteq> [] \<and> v \<noteq> [] \<and> colon \<notin> set m \<and> colon \<notin> set v"
    using only fwd by blast
  show "s = ModDBSource m v" if "ParseModDBSource s = Some (m, v)" using only that by blast
  show "ParseModDBSource s = None" if "IsLocalModSource s"
    using that by (auto simp: IsLocalModSource_def ParseModDBSource_def)
qed

theorem ParseModDBSource_roundtrip_witness:
  "ParseModDBSource ''moddb:42:7'' = Some (''42'', ''7'') \<and> ParseModDBSource ''local'' = None"
  using ParseModDBSource_roundtrip [of "''42''" "''7''" "''local''"]
  by (simp add: ModDBSource_def IsLocalModSource_def)

lemma FindModVersion_member: "FindModVersion vs i = Some v \<Longrightarrow> v \<in> set vs"
  by (auto simp: FindModVersion_def split: if_splits option.splits dest: find_SomeD)

lemma FindModVersion_id: "FindModVersion vs i = Some v \<Longrightarrow> i \<noteq> [] \<Longrightarrow> mv_id v = i"
  by (auto simp: FindModVersion_def dest: find_SomeD)

lemma FindModVersion_found: "i \<noteq> [] \<Longrightarrow> v \<in> set vs \<Longrightarrow> mv_id v = i \<Longrightarrow> FindModVersion vs i \<noteq> None"
  by (auto simp: FindModVersion_def find_None_iff)

section \<open>Requirements\<close>

definition normalizeModSemver :: "'a versioning_scheme \<Rightarrow> string \<Rightarrow> string" where
  "normalizeModSemver V version =
     (let t = TrimSpace version;
          p = (if HasPrefix (ToLower t) ''v'' then t else CHR ''v'' # t)
      in if t = [] then [] else if sv_valid V p then p else [])"

abbreviation "operators \<equiv> [''>='', ''<='', ''=='', ''>'', ''<'', ''='']"

definition anyRequirement :: "string \<Rightarrow> bool" where
  "anyRequirement requirement \<longleftrightarrow> TrimSpace requirement = [] \<or> TrimSpace requirement = ''*''"

definition modVersionExactlyMatches :: "'a versioning_scheme \<Rightarrow> string \<Rightarrow> string \<Rightarrow> bool" where
  "modVersionExactlyMatches V version requirement =
     (if anyRequirement requirement then False
      else if list_ex (HasPrefix (TrimSpace requirement)) operators then False
      else if normalizeModSemver V version \<noteq> [] \<and> normalizeModSemver V (TrimSpace requirement) \<noteq> []
        then sv_compare V (normalizeModSemver V version)
               (normalizeModSemver V (TrimSpace requirement)) = 0
      else EqualFold (TrimSpace version) (TrimSpace requirement))"

text \<open>The operator of a trimmed requirement and the version behind it.\<close>

definition requirementOperator :: "string \<Rightarrow> string \<times> string" where
  "requirementOperator requirement =
     (case find (HasPrefix requirement) operators of
        Some oper \<Rightarrow> (oper, TrimSpace (TrimPrefix requirement oper))
      | None \<Rightarrow> (''>='', requirement))"

definition compareOperator :: "string \<Rightarrow> int \<Rightarrow> bool" where
  "compareOperator oper c =
     (if oper = ''>'' then c > 0 else if oper = ''<'' then c < 0 else if oper = ''<='' then c \<le> 0
      else if oper = ''='' \<or> oper = ''=='' then c = 0 else c \<ge> 0)"

definition modVersionSatisfies :: "'a versioning_scheme \<Rightarrow> string \<Rightarrow> string \<Rightarrow> bool" where
  "modVersionSatisfies V version requirement =
     (if anyRequirement requirement then True
      else
       (let (oper, text) = requirementOperator (TrimSpace requirement);
            actual = normalizeModSemver V version;
            required = normalizeModSemver V text
        in if actual = [] \<or> required = [] then
             (if oper = ''='' \<or> oper = ''=='' then EqualFold (TrimSpace version) text else False)
           else compareOperator oper (sv_compare V actual required)))"

section \<open>The best release\<close>

text \<open>
  \<open>sort.SliceStable\<close> with the comparison \<open>before\<close>: insertion sort, each element moved before
  its predecessors as long as it is before the one before it.  That is Go's algorithm for
  up to 20 elements, and its result for more whenever the comparison is a strict weak order.
  The sorted prefix is kept in reverse.
\<close>

fun insert_back :: "('a \<Rightarrow> 'a \<Rightarrow> bool) \<Rightarrow> 'a \<Rightarrow> 'a list \<Rightarrow> 'a list" where
  "insert_back before x [] = [x]"
| "insert_back before x (y # ys) = (if before x y then y # insert_back before x ys else x # y # ys)"

definition SliceStable :: "('a \<Rightarrow> 'a \<Rightarrow> bool) \<Rightarrow> 'a list \<Rightarrow> 'a list" where
  "SliceStable before xs = rev (fold (insert_back before) xs [])"

definition candidateLess :: "'a versioning_scheme \<Rightarrow> string \<Rightarrow> mod_version \<Rightarrow> mod_version \<Rightarrow> bool" where
  "candidateLess V requirement left right =
     (let leftExact = modVersionExactlyMatches V (mv_version left) requirement;
          rightExact = modVersionExactlyMatches V (mv_version right) requirement;
          leftStable = EqualFold (mv_release_type left) ''stable'';
          rightStable = EqualFold (mv_release_type right) ''stable'';
          leftVersion = normalizeModSemver V (mv_version left);
          rightVersion = normalizeModSemver V (mv_version right)
      in if leftExact \<noteq> rightExact then leftExact
         else if leftStable \<noteq> rightStable then leftStable
         else if leftVersion \<noteq> [] \<and> rightVersion \<noteq> [] \<and> leftVersion \<noteq> rightVersion
           then sv_compare V leftVersion rightVersion > 0
         else
           (case (mv_published left, mv_published right) of
              (Some l, Some r) \<Rightarrow> (if l \<noteq> r then l > r else mv_id left > mv_id right)
            | _ \<Rightarrow> mv_id left > mv_id right))"

definition candidateReleases ::
  "'a versioning_scheme \<Rightarrow> mod_version list \<Rightarrow> string \<Rightarrow> string list \<Rightarrow> bool \<Rightarrow> mod_version list" where
  "candidateReleases V versions requirement gameVersions allowIncompatible =
     filter (\<lambda>v. HasPrefix (mv_download_url v) ''https://'' \<and>
                 modVersionSatisfies V (mv_version v) requirement \<and>
                 (allowIncompatible \<or> list_all (ModSupportsVersion (mv_game_versions v)) gameVersions))
       versions"

definition bestSatisfyingVersion ::
  "'a versioning_scheme \<Rightarrow> mod_version list \<Rightarrow> string \<Rightarrow> string list \<Rightarrow> bool \<Rightarrow> mod_version option" where
  "bestSatisfyingVersion V versions requirement gameVersions allowIncompatible =
     (case SliceStable (candidateLess V requirement)
             (candidateReleases V versions requirement gameVersions allowIncompatible) of
        [] \<Rightarrow> None
      | v # _ \<Rightarrow> Some v)"

definition findDependencyVersion ::
  "'a versioning_scheme \<Rightarrow> mod_version list \<Rightarrow> string \<Rightarrow> string list \<Rightarrow> bool \<Rightarrow> mod_version option" where
  "findDependencyVersion V versions requirement gameVersions allowIncompatible =
     (case bestSatisfyingVersion V versions requirement gameVersions allowIncompatible of
        Some best \<Rightarrow> Some best
      | None \<Rightarrow>
          (if anyRequirement requirement
           then bestSatisfyingVersion V versions (TrimSpace requirement) gameVersions True
           else None))"

lemma insert_back_perm: "mset (insert_back before x ys) = add_mset x (mset ys)"
  by (induction ys) auto

lemma fold_insert_back_perm: "mset (fold (insert_back before) xs acc) = mset xs + mset acc"
  by (induction xs arbitrary: acc) (auto simp: insert_back_perm)

lemma SliceStable_perm: "mset (SliceStable before xs) = mset xs"
  by (simp add: SliceStable_def fold_insert_back_perm)

lemma set_SliceStable [simp]: "set (SliceStable before xs) = set xs"
  using SliceStable_perm [of before xs] by (metis set_mset_mset)

lemma SliceStable_Nil [simp]: "SliceStable before xs = [] \<longleftrightarrow> xs = []"
  using set_SliceStable [of before xs] by (metis set_empty)

lemma SliceStable_of_Nil [simp]: "SliceStable before [] = []"
  by (simp add: SliceStable_def)

text \<open>
  A comparison that only refines a strict weak order \<open>lt\<close> on the elements still sorts by it,
  whatever it does with the elements \<open>lt\<close> does not separate.
\<close>

definition refines_order :: "('a \<Rightarrow> 'a \<Rightarrow> bool) \<Rightarrow> ('a \<Rightarrow> 'a \<Rightarrow> bool) \<Rightarrow> 'a set \<Rightarrow> bool" where
  "refines_order before lt A \<longleftrightarrow>
     (\<forall>x \<in> A. \<forall>y \<in> A. lt x y \<longrightarrow> before x y \<and> \<not> before y x) \<and>
     (\<forall>x \<in> A. \<forall>y \<in> A. \<forall>z \<in> A. \<not> lt x y \<longrightarrow> \<not> lt y z \<longrightarrow> \<not> lt x z)"

lemma refines_less: "refines_order before lt A \<Longrightarrow> x \<in> A \<Longrightarrow> y \<in> A \<Longrightarrow> lt x y \<Longrightarrow> before x y \<and> \<not> before y x"
  unfolding refines_order_def by blast

lemma refines_negtrans:
  "refines_order before lt A \<Longrightarrow> x \<in> A \<Longrightarrow> y \<in> A \<Longrightarrow> z \<in> A \<Longrightarrow> \<not> lt x y \<Longrightarrow> \<not> lt y z \<Longrightarrow> \<not> lt x z"
  unfolding refines_order_def by blast

lemma sorted_insert_back:
  assumes "refines_order before lt A" "set ys \<subseteq> A" "x \<in> A" "sorted_wrt (\<lambda>a b. \<not> lt a b) ys"
  shows "sorted_wrt (\<lambda>a b. \<not> lt a b) (insert_back before x ys)"
  using assms(2,4)
proof (induction ys)
  case (Cons y ys)
  have set_ib: "set (insert_back before x ys) = insert x (set ys)" for ys
    using insert_back_perm [of before x ys] by (metis set_mset_add_mset_insert set_mset_mset)
  show ?case
  proof (cases "before x y")
    case True
    with Cons.prems assms(1,3) have "\<not> lt y x" by (auto dest: refines_less)
    with True Cons show ?thesis by (auto simp: set_ib)
  next
    case False
    with Cons.prems assms(1,3) have xy: "\<not> lt x y" by (auto dest: refines_less)
    have "\<not> lt x z" if "z \<in> set ys" for z
      using refines_negtrans [OF assms(1,3), of y z] xy that Cons.prems by auto
    with False xy Cons.prems show ?thesis by auto
  qed
qed simp

lemma sorted_fold_insert_back:
  assumes "refines_order before lt A" "set xs \<subseteq> A" "set acc \<subseteq> A" "sorted_wrt (\<lambda>a b. \<not> lt a b) acc"
  shows "sorted_wrt (\<lambda>a b. \<not> lt a b) (fold (insert_back before) xs acc)"
  using assms(2-4)
proof (induction xs arbitrary: acc)
  case (Cons x xs)
  have "set (insert_back before x acc) = insert x (set acc)"
    using insert_back_perm [of before x acc] by (metis set_mset_add_mset_insert set_mset_mset)
  with Cons show ?case
    by (simp add: sorted_insert_back [OF assms(1)])
qed simp

lemma SliceStable_head:
  assumes "refines_order before lt (set xs)" "SliceStable before xs = x # rest" "y \<in> set xs"
  shows "y = x \<or> \<not> lt y x"
proof -
  let ?l = "fold (insert_back before) xs []"
  have "sorted_wrt (\<lambda>a b. \<not> lt a b) ?l"
    using assms(1) by (rule sorted_fold_insert_back) auto
  moreover have l: "?l = rev rest @ [x]"
    using assms(2) unfolding SliceStable_def by (metis rev_rev_ident rev.simps(2))
  ultimately have "\<forall>z \<in> set rest. \<not> lt z x" by (simp add: sorted_wrt_append)
  moreover have "set (x # rest) = set xs" using set_SliceStable [of before xs] assms(2) by simp
  ultimately show ?thesis using assms(3) by auto
qed

definition releaseLayer :: "'a versioning_scheme \<Rightarrow> string \<Rightarrow> mod_version \<Rightarrow> nat" where
  "releaseLayer V requirement v =
     (if modVersionExactlyMatches V (mv_version v) requirement then 2 else 0) +
     (if EqualFold (mv_release_type v) ''stable'' then 1 else 0)"

lemma candidateLess_layer:
  "releaseLayer V r x > releaseLayer V r y \<Longrightarrow> candidateLess V r x y \<and> \<not> candidateLess V r y x"
  by (auto simp: releaseLayer_def candidateLess_def Let_def split: if_splits)

lemma candidateLess_version:
  assumes "releaseLayer V r x = releaseLayer V r y"
    and "normalizeModSemver V (mv_version x) \<noteq> []" "normalizeModSemver V (mv_version y) \<noteq> []"
    and "normalizeModSemver V (mv_version x) \<noteq> normalizeModSemver V (mv_version y)"
  shows "candidateLess V r x y \<longleftrightarrow>
    sv_compare V (normalizeModSemver V (mv_version x)) (normalizeModSemver V (mv_version y)) > 0"
  using assms by (auto simp: releaseLayer_def candidateLess_def Let_def split: if_splits)

lemma layer_refines: "refines_order (candidateLess V r) (\<lambda>x y. releaseLayer V r x > releaseLayer V r y) A"
  unfolding refines_order_def using candidateLess_layer by fastforce

lemma normalizeModSemver_valid: "normalizeModSemver V t \<noteq> [] \<Longrightarrow> sv_valid V (normalizeModSemver V t)"
  by (simp add: normalizeModSemver_def Let_def split: if_splits)

text \<open>The documented behaviour of \<open>semver.Compare\<close>: it ranks the valid versions.\<close>

definition semver_ranked :: "'a versioning_scheme \<Rightarrow> (string \<Rightarrow> int) \<Rightarrow> bool" where
  "semver_ranked V rank \<longleftrightarrow>
     (\<forall>a b. sv_valid V a \<longrightarrow> sv_valid V b \<longrightarrow>
        (sv_compare V a b > 0 \<longleftrightarrow> rank a > rank b) \<and> (sv_compare V a b < 0 \<longleftrightarrow> rank a < rank b))"

lemma version_refines:
  assumes rank: "semver_ranked V rank"
    and norm: "\<And>x. x \<in> A \<Longrightarrow> normalizeModSemver V (mv_version x) \<noteq> []"
  shows "refines_order (candidateLess V r)
    (\<lambda>x y. releaseLayer V r x > releaseLayer V r y \<or>
       releaseLayer V r x = releaseLayer V r y \<and>
       sv_compare V (normalizeModSemver V (mv_version x)) (normalizeModSemver V (mv_version y)) > 0) A"
proof -
  let ?n = "\<lambda>x. normalizeModSemver V (mv_version x)"
  have cmp: "sv_compare V (?n x) (?n y) > 0 \<longleftrightarrow> rank (?n x) > rank (?n y)"
    if "x \<in> A" "y \<in> A" for x y
    using rank that by (simp add: semver_ranked_def norm normalizeModSemver_valid)
  have step: "candidateLess V r x y \<and> \<not> candidateLess V r y x"
    if "x \<in> A" "y \<in> A" "releaseLayer V r x = releaseLayer V r y" "sv_compare V (?n x) (?n y) > 0" for x y
  proof -
    have "?n x \<noteq> ?n y" using cmp [OF that(1,2)] that(4) by auto
    moreover have "\<not> sv_compare V (?n y) (?n x) > 0"
      using cmp [OF that(1,2)] cmp [OF that(2,1)] that(4) by auto
    ultimately show ?thesis
      using that candidateLess_version [of V r x y] candidateLess_version [of V r y x] norm by auto
  qed
  show ?thesis
    unfolding refines_order_def
  proof (intro conjI ballI impI)
    fix x y assume "x \<in> A" "y \<in> A" and
      "releaseLayer V r x > releaseLayer V r y \<or>
       releaseLayer V r x = releaseLayer V r y \<and> sv_compare V (?n x) (?n y) > 0"
    then show "candidateLess V r x y" "\<not> candidateLess V r y x"
      using candidateLess_layer step by blast+
  next
    fix x y z assume "x \<in> A" "y \<in> A" "z \<in> A" and
      "\<not> (releaseLayer V r x > releaseLayer V r y \<or>
         releaseLayer V r x = releaseLayer V r y \<and> sv_compare V (?n x) (?n y) > 0)"
      "\<not> (releaseLayer V r y > releaseLayer V r z \<or>
         releaseLayer V r y = releaseLayer V r z \<and> sv_compare V (?n y) (?n z) > 0)"
    then show "\<not> (releaseLayer V r x > releaseLayer V r z \<or>
         releaseLayer V r x = releaseLayer V r z \<and> sv_compare V (?n x) (?n z) > 0)"
      by (simp add: cmp) linarith
  qed
qed

lemma bestSatisfyingVersion_Some:
  "bestSatisfyingVersion V vs r gvs b = Some v \<longleftrightarrow>
     (\<exists>rest. SliceStable (candidateLess V r) (candidateReleases V vs r gvs b) = v # rest)"
  by (auto simp: bestSatisfyingVersion_def split: list.splits)

lemma bestSatisfyingVersion_member:
  "bestSatisfyingVersion V vs r gvs b = Some v \<Longrightarrow> v \<in> set (candidateReleases V vs r gvs b)"
  unfolding bestSatisfyingVersion_Some by (metis list.set_intros(1) set_SliceStable)

lemma candidateReleases_iff:
  "v \<in> set (candidateReleases V vs r gvs b) \<longleftrightarrow>
     v \<in> set vs \<and> HasPrefix (mv_download_url v) ''https://'' \<and> modVersionSatisfies V (mv_version v) r \<and>
     (b \<or> (\<forall>g \<in> set gvs. ModSupportsVersion (mv_game_versions v) g))"
  by (auto simp: candidateReleases_def list_all_iff)

text \<open>
  The chosen dependency release is a downloadable release that satisfies
  the requirement and supports every game version asked for, and there is none only when no
  release qualifies.  Among the qualifying releases an exact match wins, then a stable
  release, and when all of them have semantic versions no other one of the same kind is
  newer.
\<close>

theorem bestSatisfyingVersion_best:
  assumes "semver_ranked V rank"
  shows "(bestSatisfyingVersion V vs r gvs b = None \<longleftrightarrow> candidateReleases V vs r gvs b = []) \<and>
    (\<forall>v. bestSatisfyingVersion V vs r gvs b = Some v \<longrightarrow>
       v \<in> set vs \<and> HasPrefix (mv_download_url v) ''https://'' \<and>
       modVersionSatisfies V (mv_version v) r \<and>
       (b \<or> (\<forall>g \<in> set gvs. ModSupportsVersion (mv_game_versions v) g)) \<and>
       (\<forall>u \<in> set (candidateReleases V vs r gvs b).
          releaseLayer V r u \<le> releaseLayer V r v \<and>
          ((\<forall>c \<in> set (candidateReleases V vs r gvs b). normalizeModSemver V (mv_version c) \<noteq> []) \<longrightarrow>
           releaseLayer V r u = releaseLayer V r v \<longrightarrow>
           sv_compare V (normalizeModSemver V (mv_version u)) (normalizeModSemver V (mv_version v)) \<le> 0)))"
proof (intro conjI allI impI ballI)
  let ?C = "candidateReleases V vs r gvs b"
  show "bestSatisfyingVersion V vs r gvs b = None \<longleftrightarrow> ?C = []"
    by (auto simp: bestSatisfyingVersion_def split: list.splits)
  fix v assume best: "bestSatisfyingVersion V vs r gvs b = Some v"
  from bestSatisfyingVersion_member [OF best]
  show "v \<in> set vs" "HasPrefix (mv_download_url v) ''https://''"
    "modVersionSatisfies V (mv_version v) r"
    "b \<or> (\<forall>g \<in> set gvs. ModSupportsVersion (mv_game_versions v) g)"
    by (auto simp: candidateReleases_iff)
  obtain rest where sorted: "SliceStable (candidateLess V r) ?C = v # rest"
    using best by (auto simp: bestSatisfyingVersion_Some)
  fix u assume u: "u \<in> set ?C"
  show "releaseLayer V r u \<le> releaseLayer V r v"
    using SliceStable_head [OF layer_refines sorted u] by auto
  assume "\<forall>c \<in> set ?C. normalizeModSemver V (mv_version c) \<noteq> []"
    and same: "releaseLayer V r u = releaseLayer V r v"
  then have norm: "\<And>c. c \<in> set ?C \<Longrightarrow> normalizeModSemver V (mv_version c) \<noteq> []" by blast
  let ?nv = "normalizeModSemver V (mv_version v)"
  have "v \<in> set ?C" using bestSatisfyingVersion_member [OF best] .
  then have "sv_valid V ?nv" using norm by (intro normalizeModSemver_valid)
  then have "\<not> sv_compare V ?nv ?nv > 0"
    using assms by (simp add: semver_ranked_def)
  then show "sv_compare V (normalizeModSemver V (mv_version u)) ?nv \<le> 0"
    using SliceStable_head [OF version_refines [OF assms norm] sorted u] same by auto
qed

text \<open>An instance of the version library: versions compared by their length.\<close>

definition length_versioning :: versioning where
  "length_versioning = \<lparr>sv_valid = (\<lambda>v. True), sv_compare = (\<lambda>a b. int (length a) - int (length b)),
     vs_compare = (\<lambda>a b. int (length a) - int (length b)),
     vs_upgrade = (\<lambda>i v t. length v > length i)\<rparr>"

lemma length_versioning_ranked: "semver_ranked length_versioning (\<lambda>v. int (length v))"
  by (simp add: semver_ranked_def length_versioning_def)

definition sampleRelease :: "string \<Rightarrow> string \<Rightarrow> string \<Rightarrow> mod_version" where
  "sampleRelease i version releaseType =
     blankModVersion\<lparr>mv_id := i, mv_version := version, mv_release_type := releaseType,
       mv_download_url := ''https://x/'' @ i\<rparr>"

lemmas version_eval = bestSatisfyingVersion_def SliceStable_def candidateLess_def candidateReleases_def
  modVersionSatisfies_def modVersionExactlyMatches_def anyRequirement_def requirementOperator_def
  normalizeModSemver_def compareOperator_def TrimSpace_def is_space_def char_code_def HasPrefix_def
  TrimPrefix_def EqualFold_def ToLower_def lower_char_def

theorem bestSatisfyingVersion_best_witness:
  "bestSatisfyingVersion length_versioning
     [sampleRelease ''a'' ''1.0'' ''beta'', sampleRelease ''b'' ''1.00'' ''stable''] ''*'' [] False \<noteq> None"
  using bestSatisfyingVersion_best [OF length_versioning_ranked, of
      "[sampleRelease ''a'' ''1.0'' ''beta'', sampleRelease ''b'' ''1.00'' ''stable'']" "''*''" "[]" False]
  by (simp add: candidateReleases_def sampleRelease_def modVersionSatisfies_def anyRequirement_def
      HasPrefix_def TrimSpace_def is_space_def char_code_def)


section \<open>Recognising a local file\<close>

definition matchCandidates :: "mod_summary list \<Rightarrow> string \<Rightarrow> mod_summary list" where
  "matchCandidates summaries modID =
     (if TrimSpace modID = [] then []
      else filter (\<lambda>summary. list_ex (\<lambda>c. EqualFold (TrimSpace c) (TrimSpace modID))
                     (ms_mod_id_strings summary)) summaries)"

definition matchByFileName :: "mod_version list \<Rightarrow> string \<Rightarrow> mod_version option" where
  "matchByFileName versions fileName =
     (if fileName = [] then None
      else find (\<lambda>v. mv_file_name v \<noteq> [] \<and>
             EqualFold (ToLower (Base (mv_file_name v))) (ToLower (Base fileName))) versions)"

definition pickByFile :: "mod_version list \<Rightarrow> string \<Rightarrow> mod_version option" where
  "pickByFile versions fileName =
     (case matchByFileName versions fileName of
        Some v \<Rightarrow> Some v
      | None \<Rightarrow> (case versions of [v] \<Rightarrow> Some v | _ \<Rightarrow> None))"

definition pickLocalModVersion :: "mod_version list \<Rightarrow> string \<Rightarrow> string \<Rightarrow> mod_version option" where
  "pickLocalModVersion versions version fileName =
     (if TrimSpace version \<noteq> [] then
        (case filter (\<lambda>c. EqualFold (TrimSpace (mv_version c)) (TrimSpace version)) versions of
           [] \<Rightarrow> pickByFile versions fileName
         | [v] \<Rightarrow> Some v
         | v # vs \<Rightarrow>
             (case matchByFileName (v # vs) fileName of Some w \<Rightarrow> Some w | None \<Rightarrow> Some v))
      else pickByFile versions fileName)"

lemma matchByFileName_member: "matchByFileName vs f = Some v \<Longrightarrow> v \<in> set vs"
  by (auto simp: matchByFileName_def split: if_splits dest: find_SomeD)

lemma pickByFile_member: "pickByFile vs f = Some v \<Longrightarrow> v \<in> set vs"
  by (auto simp: pickByFile_def split: option.splits list.splits dest: matchByFileName_member)

text \<open>
  A local file is only ever bound to a release of the record, and to a
  release of its own declared version whenever the record lists that version.
\<close>

theorem pickLocalModVersion_own_version:
  assumes "pickLocalModVersion versions version fileName = Some v"
  shows "v \<in> set versions \<and>
    (TrimSpace version \<noteq> [] \<and>
       (\<exists>u \<in> set versions. EqualFold (TrimSpace (mv_version u)) (TrimSpace version)) \<longrightarrow>
     EqualFold (TrimSpace (mv_version v)) (TrimSpace version))"
proof -
  let ?ms = "filter (\<lambda>c. EqualFold (TrimSpace (mv_version c)) (TrimSpace version)) versions"
  have none: "?ms = [] \<longleftrightarrow> \<not> (\<exists>u \<in> set versions. EqualFold (TrimSpace (mv_version u)) (TrimSpace version))"
    by (auto simp: filter_empty_conv)
  show ?thesis
  proof (cases "TrimSpace version \<noteq> [] \<and> ?ms \<noteq> []")
    case True
    with assms have "v \<in> set ?ms"
      by (auto simp: pickLocalModVersion_def simp del: set_filter split: list.splits option.splits
          dest: matchByFileName_member)
    then show ?thesis by simp
  next
    case False
    with assms have "pickByFile versions fileName = Some v"
      by (auto simp: pickLocalModVersion_def split: list.splits if_splits)
    with False none show ?thesis by (auto dest: pickByFile_member)
  qed
qed

theorem pickLocalModVersion_own_version_witness:
  "pickLocalModVersion [sampleRelease ''a'' ''1'' [], sampleRelease ''b'' ''2'' []] ''2'' ''x'' =
     Some (sampleRelease ''b'' ''2'' []) \<and>
   sampleRelease ''b'' ''2'' [] \<in> set [sampleRelease ''a'' ''1'' [], sampleRelease ''b'' ''2'' []]"
proof -
  have "pickLocalModVersion [sampleRelease ''a'' ''1'' [], sampleRelease ''b'' ''2'' []] ''2'' ''x'' =
     Some (sampleRelease ''b'' ''2'' [])"
    by (simp add: pickLocalModVersion_def sampleRelease_def blankModVersion_def EqualFold_def
        ToLower_def TrimSpace_def is_space_def char_code_def lower_char_def)
  from conjI [OF this conjunct1 [OF pickLocalModVersion_own_version [OF this]]] show ?thesis .
qed

section \<open>Upgrades\<close>

definition normalizeUpdateID :: "string \<Rightarrow> string" where
  "normalizeUpdateID i = ToLower (TrimSpace i)"

definition isUpgradeTarget :: "'a versioning_scheme \<Rightarrow> string \<Rightarrow> mod_version \<Rightarrow> bool" where
  "isUpgradeTarget V installed version = vs_upgrade V installed (mv_version version) (mv_release_type version)"

definition isStableReleaseType :: "string \<Rightarrow> bool" where
  "isStableReleaseType releaseType \<longleftrightarrow> releaseType = [] \<or> EqualFold releaseType ''stable''"

definition findModVersionForUpgrade :: "'a versioning_scheme \<Rightarrow> mod_version list \<Rightarrow> string \<Rightarrow> mod_version option" where
  "findModVersionForUpgrade V versions value = find (\<lambda>v. vs_compare V (mv_version v) value = 0) versions"

definition newestStrict :: "'a versioning_scheme \<Rightarrow> mod_version list \<Rightarrow> string \<Rightarrow> bool \<Rightarrow> mod_version option" where
  "newestStrict V versions installed stableOnly =
     fold (\<lambda>version best.
        if \<not> isUpgradeTarget V installed version then best
        else if stableOnly \<and> \<not> isStableReleaseType (mv_release_type version) then best
        else (case best of
                None \<Rightarrow> Some version
              | Some b \<Rightarrow> (if vs_compare V (mv_version version) (mv_version b) > 0 then Some version else Some b)))
       versions None"

definition newestOther :: "'a versioning_scheme \<Rightarrow> mod_version list \<Rightarrow> string \<Rightarrow> mod_version option" where
  "newestOther V versions installed =
     (case newestStrict V versions installed True of
        Some v \<Rightarrow> Some v
      | None \<Rightarrow> newestStrict V versions installed False)"

definition newestStrictUpgrade ::
  "'a versioning_scheme \<Rightarrow> 'b mod_details_scheme \<Rightarrow> string \<Rightarrow> mod_version option" where
  "newestStrictUpgrade V details installed =
     (if ms_latest details \<noteq> [] \<and>
         isUpgradeTarget V installed (blankModVersion\<lparr>mv_version := ms_latest details\<rparr>)
      then
        (case findModVersionForUpgrade V (md_versions details) (ms_latest details) of
           Some version \<Rightarrow>
             (if isUpgradeTarget V installed version then Some version
              else newestOther V (md_versions details) installed)
         | None \<Rightarrow> Some (blankModVersion\<lparr>mv_version := ms_latest details\<rparr>))
      else newestOther V (md_versions details) installed)"

definition highestInstalledVersion :: "'a versioning_scheme \<Rightarrow> installed_mod list \<Rightarrow> string" where
  "highestInstalledVersion V installed =
     fold (\<lambda>m best. if best = [] \<or> vs_compare V (im_version m) best > 0 then im_version m else best)
       installed []"

definition installedRelease :: "installed_mod list \<Rightarrow> string \<Rightarrow> bool" where
  "installedRelease installed versionID =
     list_ex (\<lambda>m. case ParseModDBSource (im_source m) of
                    None \<Rightarrow> False
                  | Some (_, current) \<Rightarrow> normalizeUpdateID current = normalizeUpdateID versionID)
       installed"

definition findUpdateVersion :: "mod_version list \<Rightarrow> string \<Rightarrow> mod_version option" where
  "findUpdateVersion versions versionID =
     find (\<lambda>v. normalizeUpdateID (mv_id v) = normalizeUpdateID versionID) versions"

definition upgrade_candidate :: "'a versioning_scheme \<Rightarrow> string \<Rightarrow> bool \<Rightarrow> mod_version \<Rightarrow> bool" where
  "upgrade_candidate V installed stableOnly v \<longleftrightarrow>
     isUpgradeTarget V installed v \<and> (stableOnly \<longrightarrow> isStableReleaseType (mv_release_type v))"

text \<open>The loop of \<open>newestStrict\<close>: what it has found after some releases.\<close>

lemma newestStrict_step:
  fixes V versions installed stableOnly
  defines "step \<equiv> (\<lambda>version best.
        if \<not> isUpgradeTarget V installed version then best
        else if stableOnly \<and> \<not> isStableReleaseType (mv_release_type version) then best
        else (case best of
                None \<Rightarrow> Some version
              | Some b \<Rightarrow> (if vs_compare V (mv_version version) (mv_version b) > 0 then Some version else Some b)))"
  shows "fold step versions best = None \<longleftrightarrow>
           best = None \<and> (\<forall>v \<in> set versions. \<not> upgrade_candidate V installed stableOnly v)"
    and "fold step versions best = Some w \<Longrightarrow>
           best = Some w \<or> w \<in> set versions \<and> upgrade_candidate V installed stableOnly w"
  by (induction versions arbitrary: best)
     (auto simp: step_def upgrade_candidate_def split: if_splits option.splits)

lemma newestStrict_None:
  "newestStrict V versions installed s = None \<longleftrightarrow>
     (\<forall>v \<in> set versions. \<not> upgrade_candidate V installed s v)"
  unfolding newestStrict_def by (simp add: newestStrict_step(1))

lemma newestStrict_Some:
  "newestStrict V versions installed s = Some w \<Longrightarrow>
     w \<in> set versions \<and> upgrade_candidate V installed s w"
  unfolding newestStrict_def using newestStrict_step(2) by fastforce

text \<open>
  The proposed upgrade of a cached release is always strictly newer than it;
  nothing is proposed only when neither a listed release nor an unlisted latest one is; and
  a prerelease is proposed only as the catalog's latest release or when no stable release is
  an upgrade.
\<close>

theorem newestStrictUpgrade_strict:
  "(newestStrictUpgrade V details installed = None \<longleftrightarrow>
      (\<forall>v \<in> set (md_versions details). \<not> isUpgradeTarget V installed v) \<and>
      (ms_latest details \<noteq> [] \<and>
         isUpgradeTarget V installed (blankModVersion\<lparr>mv_version := ms_latest details\<rparr>) \<longrightarrow>
       findModVersionForUpgrade V (md_versions details) (ms_latest details) \<noteq> None)) \<and>
   (\<forall>v. newestStrictUpgrade V details installed = Some v \<longrightarrow>
      isUpgradeTarget V installed v \<and>
      (isStableReleaseType (mv_release_type v) \<or>
       findModVersionForUpgrade V (md_versions details) (ms_latest details) = Some v \<or>
       (\<forall>u \<in> set (md_versions details). isUpgradeTarget V installed u \<longrightarrow>
          \<not> isStableReleaseType (mv_release_type u))))"
proof -
  have other: "newestOther V vs installed = None \<longleftrightarrow> (\<forall>v \<in> set vs. \<not> isUpgradeTarget V installed v)" for vs
    using newestStrict_Some [of V vs installed True]
    by (fastforce simp: newestOther_def newestStrict_None upgrade_candidate_def split: option.splits)
  have other_Some: "isUpgradeTarget V installed v \<and>
      (isStableReleaseType (mv_release_type v) \<or>
       (\<forall>u \<in> set vs. isUpgradeTarget V installed u \<longrightarrow> \<not> isStableReleaseType (mv_release_type u)))"
    if "newestOther V vs installed = Some v" for vs v
    using that newestStrict_Some [of V vs installed True v] newestStrict_Some [of V vs installed False v]
      newestStrict_None [of V vs installed True]
    by (auto simp: newestOther_def upgrade_candidate_def split: option.splits)
  have listed: "v \<in> set vs" if "findModVersionForUpgrade V vs x = Some v" for vs x v
    using that by (auto simp: findModVersionForUpgrade_def dest: find_SomeD)
  show ?thesis
    using listed [of "md_versions details"] other [of "md_versions details"]
      other_Some [of "md_versions details"]
    by (auto simp: newestStrictUpgrade_def isStableReleaseType_def blankModVersion_def
        split: option.splits if_splits)
qed

definition sampleDetails :: "string \<Rightarrow> mod_version list \<Rightarrow> mod_details" where
  "sampleDetails i versions =
     \<lparr>ms_id = i, ms_slug = i, ms_name = i, ms_author = [], ms_summary = [], ms_image_url = [],
      ms_side = ''both'', ms_latest = [], ms_game_versions = [], ms_mod_id_strings = [i],
      ms_downloads = 0, ms_created = None, ms_updated = None, ms_tags = [], ms_is_downloaded = False,
      ms_is_installed = False, ms_update_available = False, md_description = [], md_screenshots = [],
      md_versions = versions, md_dependencies = [], md_website = [], md_source_url = [],
      md_license = []\<rparr>"

theorem newestStrictUpgrade_strict_witness:
  "newestStrictUpgrade length_versioning (sampleDetails ''m'' [sampleRelease ''a'' ''10'' ''beta'']) ''1'' =
     Some (sampleRelease ''a'' ''10'' ''beta'') \<and>
   isUpgradeTarget length_versioning ''1'' (sampleRelease ''a'' ''10'' ''beta'')"
proof -
  let ?d = "sampleDetails ''m'' [sampleRelease ''a'' ''10'' ''beta'']"
  have "newestStrictUpgrade length_versioning ?d ''1'' = Some (sampleRelease ''a'' ''10'' ''beta'')"
    by (simp add: newestStrictUpgrade_def newestOther_def newestStrict_def isUpgradeTarget_def
        isStableReleaseType_def length_versioning_def sampleDetails_def sampleRelease_def
        EqualFold_def ToLower_def lower_char_def char_code_def)
  with newestStrictUpgrade_strict [of length_versioning ?d "''1''"] show ?thesis by blast
qed

end
