(* ===== verification/ModTasks.thy ===== *)
theory ModTasks
  imports ModVersions "HOL-Library.AList"
begin

text \<open>
  \<open>internal/mods/tasks.go\<close>: the running catalog downloads.  A task reserves the releases it
  downloads, so that no release is fetched twice at the same time, and owns the cancellation
  of its download context.  Every method is one critical section.
\<close>

record task_manager =
  tm_active :: "(string \<times> string) list"
  tm_cancels :: "string list"
  tm_cancelled :: "string list"

definition NewModTaskManager :: task_manager where
  "NewModTaskManager = \<lparr>tm_active = [], tm_cancels = [], tm_cancelled = []\<rparr>"

definition TaskBegin ::
  "task_manager \<Rightarrow> string \<Rightarrow> string \<Rightarrow> string \<Rightarrow> (string \<times> go_error + unit) \<times> task_manager" where
  "TaskBegin tm taskID modID versionID =
     (case map_of (tm_active tm) (modDownloadKey modID versionID) of
        Some existing \<Rightarrow>
          (Inl (existing, NewError ErrModAlreadyActive ''This mod is already downloading''), tm)
      | None \<Rightarrow>
          (Inr (), tm\<lparr>tm_active := AList.update (modDownloadKey modID versionID) taskID (tm_active tm),
                      tm_cancels := List.insert taskID (tm_cancels tm)\<rparr>))"

definition TaskClaim ::
  "task_manager \<Rightarrow> string \<Rightarrow> string \<Rightarrow> string \<Rightarrow> unit result \<times> task_manager" where
  "TaskClaim tm taskID modID versionID =
     (case map_of (tm_active tm) (modDownloadKey modID versionID) of
        Some existing \<Rightarrow>
          (if existing = taskID then (Inr (), tm)
           else (Inl (ReleaseBusyError existing (modDownloadKey modID versionID)), tm))
      | None \<Rightarrow>
          (Inr (), tm\<lparr>tm_active := AList.update (modDownloadKey modID versionID) taskID (tm_active tm)\<rparr>))"

definition IsDownloading :: "task_manager \<Rightarrow> string \<Rightarrow> string \<Rightarrow> bool" where
  "IsDownloading tm modID versionID \<longleftrightarrow> map_of (tm_active tm) (modDownloadKey modID versionID) \<noteq> None"

definition TaskCancel :: "task_manager \<Rightarrow> string \<Rightarrow> unit result \<times> task_manager" where
  "TaskCancel tm taskID =
     (if taskID \<notin> set (tm_cancels tm)
      then (Inl (NewError ErrOperationNotFound ''Mod task not found''), tm)
      else (Inr (), tm\<lparr>tm_cancelled := List.insert taskID (tm_cancelled tm)\<rparr>))"

definition TaskRelease :: "task_manager \<Rightarrow> string \<Rightarrow> task_manager" where
  "TaskRelease tm taskID =
     tm\<lparr>tm_active := filter (\<lambda>(key, owner). owner \<noteq> taskID) (tm_active tm),
        tm_cancels := filter (\<lambda>t. t \<noteq> taskID) (tm_cancels tm)\<rparr>"

text \<open>\<open>errors.As\<close> to \<open>*ReleaseBusyError\<close>.\<close>

definition IsReleaseBusy :: "go_error \<Rightarrow> bool" where
  "IsReleaseBusy = chainHas is_ReleaseBusyError"

section \<open>The contract of a reservation table\<close>

text \<open>
  What the downloads rely on: a reserved release stays with its owner until that owner
  releases it, and a release of one task never touches the reservations of another.
\<close>

locale reservations =
  fixes owner :: "'s \<Rightarrow> 'k \<Rightarrow> 't option"
    and claim :: "'s \<Rightarrow> 't \<Rightarrow> 'k \<Rightarrow> bool \<times> 's"
    and release :: "'s \<Rightarrow> 't \<Rightarrow> 's"
  assumes claim_fst: "fst (claim s t k) \<longleftrightarrow> owner s k = None \<or> owner s k = Some t"
    and claim_owner: "owner (snd (claim s t k)) =
          (if fst (claim s t k) then (owner s)(k \<mapsto> t) else owner s)"
    and release_owner: "owner (release s t) k = (if owner s k = Some t then None else owner s k)"
begin

lemma claim_exclusive: "fst (claim s t k) \<Longrightarrow> t' \<noteq> t \<Longrightarrow> \<not> fst (claim (snd (claim s t k)) t' k)"
  by (simp add: claim_fst claim_owner)

lemma claim_others: "k' \<noteq> k \<Longrightarrow> owner (snd (claim s t k)) k' = owner s k'"
  by (simp add: claim_owner)

lemma claim_idem: "fst (claim s t k) \<Longrightarrow> fst (claim (snd (claim s t k)) t k)"
  by (simp add: claim_fst claim_owner)

lemma release_frees: "owner (release s t) k \<noteq> Some t"
  by (simp add: release_owner)

lemma release_others: "owner s k = Some t' \<Longrightarrow> t' \<noteq> t \<Longrightarrow> owner (release s t) k = Some t'"
  by (simp add: release_owner)

lemma stale_release: "\<forall>k. owner s k \<noteq> Some t \<Longrightarrow> owner (release s t) = owner s"
  by (simp add: release_owner fun_eq_iff)

end

definition task_owner :: "task_manager \<Rightarrow> string \<Rightarrow> string option" where
  "task_owner tm key = map_of (tm_active tm) key"

definition claim_key :: "task_manager \<Rightarrow> string \<Rightarrow> string \<Rightarrow> bool \<times> task_manager" where
  "claim_key tm t key =
     (case map_of (tm_active tm) key of
        Some existing \<Rightarrow> (existing = t, tm)
      | None \<Rightarrow> (True, tm\<lparr>tm_active := AList.update key t (tm_active tm)\<rparr>))"

lemma TaskClaim_claim_key:
  "snd (TaskClaim tm t m v) = snd (claim_key tm t (modDownloadKey m v))"
  "fst (TaskClaim tm t m v) = Inr () \<longleftrightarrow> fst (claim_key tm t (modDownloadKey m v))"
  by (auto simp: TaskClaim_def claim_key_def split: option.splits)

definition tasks_wf :: "task_manager \<Rightarrow> bool" where
  "tasks_wf tm \<longleftrightarrow> distinct (map fst (tm_active tm))"

lemma map_of_filter_owner:
  "distinct (map fst xs) \<Longrightarrow>
     map_of (filter (\<lambda>(k, v). P v) xs) k = (case map_of xs k of None \<Rightarrow> None | Some v \<Rightarrow> if P v then Some v else None)"
  by (induction xs) (auto split: option.splits simp: map_of_eq_None_iff rev_image_eqI)

text \<open>The reservation table proper: the manager states with one entry per release.\<close>

typedef reservation_table = "{tm. tasks_wf tm}"
  by (rule exI [of _ NewModTaskManager]) (simp add: tasks_wf_def NewModTaskManager_def)

setup_lifting type_definition_reservation_table

lift_definition table_owner :: "reservation_table \<Rightarrow> string \<Rightarrow> string option" is task_owner .

lift_definition table_claim :: "reservation_table \<Rightarrow> string \<Rightarrow> string \<Rightarrow> bool \<times> reservation_table" is claim_key
  by (auto simp: tasks_wf_def claim_key_def distinct_update split: option.splits)

lift_definition table_release :: "reservation_table \<Rightarrow> string \<Rightarrow> reservation_table" is TaskRelease
  by (auto simp: tasks_wf_def TaskRelease_def distinct_map intro: inj_on_subset)

interpretation downloads: reservations table_owner table_claim table_release
proof unfold_locales
  fix s t k
  show "fst (table_claim s t k) \<longleftrightarrow> table_owner s k = None \<or> table_owner s k = Some t"
    by transfer (auto simp: claim_key_def task_owner_def split: option.splits)
  show "table_owner (snd (table_claim s t k)) =
      (if fst (table_claim s t k) then (table_owner s)(k \<mapsto> t) else table_owner s)"
    by transfer
       (auto simp: claim_key_def task_owner_def update_conv' fun_eq_iff update_conv split: option.splits)
  show "table_owner (table_release s t) k = (if table_owner s k = Some t then None else table_owner s k)"
    by transfer (simp add: TaskRelease_def task_owner_def tasks_wf_def map_of_filter_owner
        split: option.splits)
qed

section \<open>Concurrent downloads\<close>

text \<open>
  Any interleaving of the calls of several download tasks.  A task begins with a fresh
  identifier, claims releases while it runs, and releases once; \<open>td_held\<close> is what each
  running task was granted.
\<close>

record task_sys =
  td_tm :: task_manager
  td_running :: "string set"
  td_held :: "(string \<times> string) set"

definition task_init :: task_sys where
  "task_init = \<lparr>td_tm = NewModTaskManager, td_running = {}, td_held = {}\<rparr>"

inductive task_step :: "task_sys \<Rightarrow> task_sys \<Rightarrow> bool" where
  begin_ok: "t \<notin> td_running s \<Longrightarrow> TaskBegin (td_tm s) t m v = (Inr (), tm) \<Longrightarrow>
     task_step s (s\<lparr>td_tm := tm, td_running := insert t (td_running s),
                    td_held := insert (t, modDownloadKey m v) (td_held s)\<rparr>)"
| begin_refused: "TaskBegin (td_tm s) t m v = (Inl e, tm) \<Longrightarrow> task_step s (s\<lparr>td_tm := tm\<rparr>)"
| claim_ok: "t \<in> td_running s \<Longrightarrow> TaskClaim (td_tm s) t m v = (Inr (), tm) \<Longrightarrow>
     task_step s (s\<lparr>td_tm := tm, td_held := insert (t, modDownloadKey m v) (td_held s)\<rparr>)"
| claim_refused: "TaskClaim (td_tm s) t m v = (Inl e, tm) \<Longrightarrow> task_step s (s\<lparr>td_tm := tm\<rparr>)"
| cancel_task: "TaskCancel (td_tm s) t = (r, tm) \<Longrightarrow> task_step s (s\<lparr>td_tm := tm\<rparr>)"
| release_task: "t \<in> td_running s \<Longrightarrow>
     task_step s (s\<lparr>td_tm := TaskRelease (td_tm s) t, td_running := td_running s - {t},
                    td_held := {(t', k) \<in> td_held s. t' \<noteq> t}\<rparr>)"

definition task_reachable :: "task_sys \<Rightarrow> bool" where
  "task_reachable s \<longleftrightarrow> task_step\<^sup>*\<^sup>* task_init s"

definition task_inv :: "task_sys \<Rightarrow> bool" where
  "task_inv s \<longleftrightarrow> tasks_wf (td_tm s) \<and> set (tm_cancels (td_tm s)) = td_running s \<and>
     (\<forall>k t. task_owner (td_tm s) k = Some t \<longleftrightarrow> (t, k) \<in> td_held s) \<and>
     fst ` td_held s \<subseteq> td_running s"

lemma TaskBegin_InrD: "TaskBegin tm t m v = (Inr u, tm') \<Longrightarrow>
    task_owner tm (modDownloadKey m v) = None \<and>
    tm' = tm\<lparr>tm_active := AList.update (modDownloadKey m v) t (tm_active tm),
             tm_cancels := List.insert t (tm_cancels tm)\<rparr>"
  by (auto simp: TaskBegin_def task_owner_def split: option.splits)

lemma TaskBegin_InlD: "TaskBegin tm t m v = (Inl e, tm') \<Longrightarrow> tm' = tm \<and> IsDownloading tm m v"
  by (auto simp: TaskBegin_def IsDownloading_def split: option.splits)

lemma TaskClaim_InrD: "TaskClaim tm t m v = (Inr u, tm') \<Longrightarrow>
    task_owner tm (modDownloadKey m v) = Some t \<and> tm' = tm \<or>
    task_owner tm (modDownloadKey m v) = None \<and>
    tm' = tm\<lparr>tm_active := AList.update (modDownloadKey m v) t (tm_active tm)\<rparr>"
  by (auto simp: TaskClaim_def task_owner_def split: option.splits if_splits)

lemma TaskClaim_InlD: "TaskClaim tm t m v = (Inl e, tm') \<Longrightarrow> tm' = tm \<and> is_ReleaseBusyError e"
  by (auto simp: TaskClaim_def split: option.splits if_splits)

lemma task_owner_update [simp]:
  "task_owner (tm\<lparr>tm_active := AList.update k t (tm_active tm), tm_cancels := cs\<rparr>) k' =
     (if k' = k then Some t else task_owner tm k')"
  "task_owner (tm\<lparr>tm_active := AList.update k t (tm_active tm)\<rparr>) k' =
     (if k' = k then Some t else task_owner tm k')"
  by (simp_all add: task_owner_def update_conv)

lemma tasks_wf_update [simp]:
  "tasks_wf tm \<Longrightarrow> tasks_wf (tm\<lparr>tm_active := AList.update k t (tm_active tm), tm_cancels := cs\<rparr>)"
  "tasks_wf tm \<Longrightarrow> tasks_wf (tm\<lparr>tm_active := AList.update k t (tm_active tm)\<rparr>)"
  by (simp_all add: tasks_wf_def distinct_update)

lemma task_inv_owner: "task_inv s \<Longrightarrow> (t, k) \<in> td_held s \<longleftrightarrow> task_owner (td_tm s) k = Some t"
  by (simp add: task_inv_def)

lemma task_step_inv: "task_step s s' \<Longrightarrow> task_inv s \<Longrightarrow> task_inv s'"
proof (induction rule: task_step.induct)
  case (begin_ok t s m v tm)
  note granted = TaskBegin_InrD [OF begin_ok.hyps(2)]
  then have "(t', modDownloadKey m v) \<notin> td_held s" for t'
    by (simp add: task_inv_owner [OF begin_ok.prems])
  with granted begin_ok.prems show ?case
    by (auto simp: task_inv_def)
next
  case (begin_refused s t m v e tm)
  then show ?case by (auto dest: TaskBegin_InlD)
next
  case (claim_ok t s m v tm)
  note granted = TaskClaim_InrD [OF claim_ok.hyps(2)]
  have "(t', modDownloadKey m v) \<in> td_held s \<longrightarrow> t' = t" for t'
    using granted by (auto simp: task_inv_owner [OF claim_ok.prems])
  with granted claim_ok.hyps(1) claim_ok.prems show ?case
    by (auto simp: task_inv_def split: if_splits)
next
  case (claim_refused s t m v e tm)
  then show ?case by (auto dest: TaskClaim_InlD)
next
  case (cancel_task s t r tm)
  then show ?case
    by (auto simp: TaskCancel_def task_inv_def tasks_wf_def task_owner_def split: if_splits)
next
  case (release_task t s)
  then have wf: "distinct (map fst (tm_active (td_tm s)))" by (simp add: task_inv_def tasks_wf_def)
  have own: "task_owner (TaskRelease (td_tm s) t) k =
      (if task_owner (td_tm s) k = Some t then None else task_owner (td_tm s) k)" for k
    using wf by (simp add: TaskRelease_def task_owner_def map_of_filter_owner split: option.splits)
  have "tasks_wf (TaskRelease (td_tm s) t)"
    using wf by (auto simp: tasks_wf_def TaskRelease_def distinct_map intro: inj_on_subset)
  moreover have "tm_cancels (TaskRelease (td_tm s) t) = filter (\<lambda>t'. t' \<noteq> t) (tm_cancels (td_tm s))"
    by (simp add: TaskRelease_def)
  moreover have "ta = t" if "(t, k) \<in> td_held s" "(ta, k) \<in> td_held s" for k ta
    using that by (simp add: task_inv_owner [OF release_task.prems])
  ultimately show ?case
    using release_task by (auto simp: task_inv_def own split: if_splits)
qed

lemma task_reachable_inv: "task_reachable s \<Longrightarrow> task_inv s"
  unfolding task_reachable_def
proof (induction rule: rtranclp_induct)
  case base
  show ?case by (simp add: task_inv_def task_init_def NewModTaskManager_def tasks_wf_def task_owner_def)
qed (simp add: task_step_inv)

text \<open>
  C32 (safety).  Whatever the interleaving, a release is held by at most one running task and
  counts as downloading exactly while a running task holds it; a task can be cancelled
  exactly while it runs; and when no task runs, nothing is reserved.
\<close>

theorem downloads_exclusive:
  assumes "task_reachable s"
  shows "(\<forall>t t' k. (t, k) \<in> td_held s \<and> (t', k) \<in> td_held s \<longrightarrow> t = t') \<and>
    (\<forall>m v. IsDownloading (td_tm s) m v \<longleftrightarrow> (\<exists>t \<in> td_running s. (t, modDownloadKey m v) \<in> td_held s)) \<and>
    (\<forall>t. fst (TaskCancel (td_tm s) t) = Inr () \<longleftrightarrow> t \<in> td_running s) \<and>
    (td_running s = {} \<longrightarrow> (\<forall>m v. \<not> IsDownloading (td_tm s) m v))"
proof -
  from task_reachable_inv [OF assms]
  have own: "\<And>k t. task_owner (td_tm s) k = Some t \<longleftrightarrow> (t, k) \<in> td_held s"
    and run: "fst ` td_held s \<subseteq> td_running s" and can: "set (tm_cancels (td_tm s)) = td_running s"
    by (auto simp: task_inv_def)
  have down: "IsDownloading (td_tm s) m v \<longleftrightarrow> (\<exists>t \<in> td_running s. (t, modDownloadKey m v) \<in> td_held s)" for m v
    using own run by (force simp: IsDownloading_def task_owner_def)
  have "t = t'" if "(t, k) \<in> td_held s" "(t', k) \<in> td_held s" for t t' k
    using that own by (metis option.inject)
  with down can show ?thesis by (auto simp: TaskCancel_def)
qed

theorem downloads_exclusive_witness:
  "\<exists>s. task_reachable s \<and> IsDownloading (td_tm s) ''m'' ''1'' \<and>
     fst (TaskCancel (td_tm s) ''task'') = Inr () \<and> ''task'' \<in> td_running s"
proof -
  obtain tm where tm: "TaskBegin (td_tm task_init) ''task'' ''m'' ''1'' = (Inr (), tm)"
    by (simp add: TaskBegin_def task_init_def NewModTaskManager_def)
  let ?s = "task_init\<lparr>td_tm := tm, td_running := insert ''task'' (td_running task_init),
    td_held := insert (''task'', modDownloadKey ''m'' ''1'') (td_held task_init)\<rparr>"
  have "task_step task_init ?s"
    by (rule task_step.begin_ok [OF _ tm]) (simp add: task_init_def)
  then have r: "task_reachable ?s" unfolding task_reachable_def by (rule r_into_rtranclp)
  have run: "''task'' \<in> td_running ?s" and "(''task'', modDownloadKey ''m'' ''1'') \<in> td_held ?s"
    by simp_all
  with downloads_exclusive [OF r]
  have "IsDownloading (td_tm ?s) ''m'' ''1''" "fst (TaskCancel (td_tm ?s) ''task'') = Inr ()" by blast+
  with r run show ?thesis by blast
qed

end
