(* ===== verification/ModWorld.thy ===== *)
theory ModWorld
  imports Registry Operations FileSystem ModTasks
begin

text \<open>
  The state the services of \<open>internal/mods\<close> share, and their ports: the mutation gate and the
  instance slots, the \<open>installed_mods\<close> table (\<open>platform/sqlite/mods.go\<close>, \<open>paths.go\<close>), the
  instances and game versions, the favourites, the operations, the files, the running
  downloads, the markers of the last known good configurations, and what the services emit
  (events, telemetry, safety snapshots).

  \<open>env\<close> holds what the launcher does not compute itself: the version libraries, the archive
  reader, the catalog and download servers, the URL and JSON encoders, the hash functions, the
  clock and the identifier generator; what may answer differently from call to call is a
  function of the number of external calls made so far (\<open>w_ticks\<close>).  \<open>ev_catalog_size\<close> is the
  number of mods the catalog knows, the depth to which dependencies are followed.  \<open>ev_fault\<close> lets any call to the database, to the file system, to the
  snapshot service or to the network fail with any error, cancellation included.
\<close>

datatype mod_event =
    ModEvent string installed_mod
  | ModRemovedEvent string string
  | TaskProgressEvent string string string int int rat string
  | DownloadsChangedEvent string string "(string \<times> string \<times> string) list"
  | LastKnownGoodUpdated string
  | RecoverySuggested recovery_suggestion
  | DataFolderEvent string
  | InstanceEvent string instance_ref
  | InstanceDeletedEvent string

datatype report =
    EventReport string
  | ErrorReport string string string

record safety_snapshot =
  sn_instance :: string
  sn_reason :: string
  sn_affected :: string
  sn_fs :: fs
  sn_rows :: "installed_mod list"

record mods_world =
  w_gate :: gate
  w_registry :: "unit registry"
  w_rows :: "installed_mod list"
  w_instances :: "instance_ref list"
  w_versions :: "(string \<times> string) list"
  w_favorites :: "string list"
  w_fs :: fs
  w_operations :: manager
  w_tasks :: task_manager
  w_events :: "mod_event list"
  w_reports :: "report list"
  w_snapshots :: "safety_snapshot list"
  w_last_good :: "last_known_good list"
  w_settings :: safety_settings
  w_ticks :: nat

datatype archive_error = NotAnArchive | NoModInfo | TooLarge | InvalidContent string | ArchiveError string

text \<open>
  A response of a download server: its status, the announced length (-1 when unknown), the
  pieces the body is read in, and the error that ends the stream, if any.
\<close>

record http_response =
  hr_status :: int
  hr_length :: int
  hr_body :: "string list"
  hr_error :: "go_error option"

record env = versioning +
  ev_fault :: "nat \<Rightarrow> go_error option"
  ev_clock :: "nat \<Rightarrow> time"
  ev_new_id :: "nat \<Rightarrow> string"
  ev_data_root :: string
  ev_telemetry :: bool
  ev_archive :: "content \<Rightarrow> archive_error + archive_info"
  ev_catalog_list :: "nat \<Rightarrow> mod_summary list result"
  ev_catalog_get :: "nat \<Rightarrow> string \<Rightarrow> mod_details result"
  ev_catalog_search :: "nat \<Rightarrow> mod_search_query \<Rightarrow> mod_search_result result"
  ev_catalog_tags :: "nat \<Rightarrow> (string \<times> int) list result"
  ev_catalog_size :: nat
  ev_url :: "string \<Rightarrow> string result"
  ev_http :: "nat \<Rightarrow> string \<Rightarrow> int \<Rightarrow> http_response result"
  ev_checksum :: "string \<Rightarrow> content \<Rightarrow> string"
  ev_encoded :: "content \<Rightarrow> string"
  ev_delivers :: "nat \<Rightarrow> bool"

type_synonym 'a act = "(mods_world, go_error, 'a) eff"

section \<open>External calls\<close>

definition callE :: "env \<Rightarrow> (mods_world \<Rightarrow> 'a result \<times> mods_world) \<Rightarrow> 'a act" where
  "callE E f = (\<lambda>w.
     case ev_fault E (w_ticks w) of
       Some e \<Rightarrow> (Inl e, w\<lparr>w_ticks := Suc (w_ticks w)\<rparr>)
     | None \<Rightarrow> f (w\<lparr>w_ticks := Suc (w_ticks w)\<rparr>))"

definition readE :: "env \<Rightarrow> (mods_world \<Rightarrow> 'a result) \<Rightarrow> 'a act" where
  "readE E f = callE E (\<lambda>w. (f w, w))"

definition fsE :: "env \<Rightarrow> (fs \<Rightarrow> 'a result \<times> fs) \<Rightarrow> 'a act" where
  "fsE E f = callE E (\<lambda>w. case f (w_fs w) of (r, t) \<Rightarrow> (r, w\<lparr>w_fs := t\<rparr>))"

definition statE :: "env \<Rightarrow> string \<Rightarrow> node act" where
  "statE E p = readE E (\<lambda>w. osStat p (w_fs w))"

definition nowE :: "env \<Rightarrow> time act" where
  "nowE E = getE (\<lambda>w. ev_clock E (w_ticks w))"

definition newIDE :: "env \<Rightarrow> string act" where
  "newIDE E = (\<lambda>w. (Inr (ev_new_id E (w_ticks w)), w\<lparr>w_ticks := Suc (w_ticks w)\<rparr>))"

definition publishE :: "mod_event \<Rightarrow> unit act" where
  "publishE e = modifyE (\<lambda>w. w\<lparr>w_events := w_events w @ [e]\<rparr>)"

definition reportEvent :: "env \<Rightarrow> string \<Rightarrow> unit act" where
  "reportEvent E name =
     (if ev_telemetry E then modifyE (\<lambda>w. w\<lparr>w_reports := w_reports w @ [EventReport name]\<rparr>)
      else returnE ())"

definition reportError :: "env \<Rightarrow> string \<Rightarrow> string \<Rightarrow> string \<Rightarrow> unit act" where
  "reportError E code component operation =
     (if ev_telemetry E
      then modifyE (\<lambda>w. w\<lparr>w_reports := w_reports w @ [ErrorReport code component operation]\<rparr>)
      else returnE ())"

text \<open>\<open>if err != nil\<close> on a call whose error is dropped.\<close>

definition ignoreE :: "'a act \<Rightarrow> unit act" where
  "ignoreE m = catchE m (\<lambda>_. returnE ())"

section \<open>The gate and the instance slots\<close>

definition withGate :: "'a act \<Rightarrow> 'a act" where
  "withGate body = bindE
     (\<lambda>w. case Begin (w_gate w) of (r, g) \<Rightarrow> (r, w\<lparr>w_gate := g\<rparr>))
     (\<lambda>_. finallyE body (\<lambda>w. w\<lparr>w_gate := End (w_gate w)\<rparr>))"

definition lockInstanceMutations :: "string \<Rightarrow> unit act" where
  "lockInstanceMutations i = (\<lambda>w.
     case Lock (w_registry w) i MutationLockMarker of (r, reg) \<Rightarrow> (r, w\<lparr>w_registry := reg\<rparr>))"

definition unlockInstance :: "string \<Rightarrow> mods_world \<Rightarrow> mods_world" where
  "unlockInstance i w = w\<lparr>w_registry := releaseSlot (w_registry w) i MutationLockMarker\<rparr>"

definition withLock :: "string \<Rightarrow> 'a act \<Rightarrow> 'a act" where
  "withLock i body = bindE (lockInstanceMutations i) (\<lambda>_. finallyE body (unlockInstance i))"

definition createSnapshot :: "env \<Rightarrow> string \<Rightarrow> string \<Rightarrow> nat \<Rightarrow> unit act" where
  "createSnapshot E i reason affected = callE E (\<lambda>w.
     (Inr (), w\<lparr>w_snapshots := w_snapshots w @
        [\<lparr>sn_instance = i, sn_reason = reason, sn_affected = Itoa (int affected),
          sn_fs = w_fs w, sn_rows = w_rows w\<rparr>]\<rparr>))"

section \<open>Stored paths\<close>

text \<open>
  \<open>filepath.Rel\<close> of an absolute path against a root, when the result does not climb out of
  the root: the paths the stores keep relative.
\<close>

definition relInside :: "string \<Rightarrow> string \<Rightarrow> string option" where
  "relInside base path =
     (if Clean path = base then Some ''.''
      else if under base (Clean path) then Some (drop (length (below base)) (Clean path))
      else None)"

definition storedPath :: "string \<Rightarrow> string \<Rightarrow> string" where
  "storedPath base path =
     (if path = [] \<or> \<not> IsAbs path then path
      else (case relInside base path of None \<Rightarrow> path | Some rel \<Rightarrow> rel))"

definition resolvePath :: "string \<Rightarrow> string \<Rightarrow> string" where
  "resolvePath base path = (if path = [] \<or> IsAbs path then path else JoinPath [base, path])"

section \<open>The repository\<close>

definition scanMod :: "string \<Rightarrow> installed_mod \<Rightarrow> installed_mod" where
  "scanMod base row = row\<lparr>im_file_path := resolvePath base (im_file_path row),
     im_policy := NormalizeUpdatePolicy (im_policy row)\<rparr>"

fun upsertMod :: "installed_mod \<Rightarrow> installed_mod list \<Rightarrow> installed_mod list" where
  "upsertMod new [] = [new]"
| "upsertMod new (row # rows) =
     (if im_id row = im_id new
      then new\<lparr>im_instance := im_instance row, im_installed_at := im_installed_at row\<rparr> # rows
      else row # upsertMod new rows)"

text \<open>Rows with equal names keep the order of the table; SQLite leaves it open.\<close>

definition rowsOf :: "string \<Rightarrow> string \<Rightarrow> installed_mod list \<Rightarrow> installed_mod list" where
  "rowsOf base i rows =
     map (scanMod base) (sort_key im_name (filter (\<lambda>r. im_instance r = i) rows))"

definition ListModRows :: "env \<Rightarrow> string \<Rightarrow> installed_mod list act" where
  "ListModRows E i = readE E (\<lambda>w. Inr (rowsOf (ev_data_root E) i (w_rows w)))"

definition GetMod :: "env \<Rightarrow> string \<Rightarrow> installed_mod act" where
  "GetMod E i = readE E (\<lambda>w.
     case find (\<lambda>r. im_id r = i) (w_rows w) of
       None \<Rightarrow> Inl (NewError ErrModNotFound ''Mod not found'')
     | Some r \<Rightarrow> Inr (scanMod (ev_data_root E) r))"

definition SaveMod :: "env \<Rightarrow> installed_mod \<Rightarrow> unit act" where
  "SaveMod E m = callE E (\<lambda>w.
     (let row = m\<lparr>im_policy := NormalizeUpdatePolicy (im_policy m),
                 im_file_path := storedPath (ev_data_root E) (im_file_path m)\<rparr>
      in if list_ex (\<lambda>r. im_id r = im_id m) (w_rows w) \<or>
            list_ex (\<lambda>r. ir_id r = im_instance m) (w_instances w)
         then (Inr (), w\<lparr>w_rows := upsertMod row (w_rows w)\<rparr>)
         else (Inl (OtherError ''FOREIGN KEY constraint failed''), w)))"

definition DeleteModRow :: "env \<Rightarrow> string \<Rightarrow> unit act" where
  "DeleteModRow E i = callE E (\<lambda>w.
     (if list_ex (\<lambda>r. im_id r = i) (w_rows w)
      then (Inr (), w\<lparr>w_rows := filter (\<lambda>r. im_id r \<noteq> i) (w_rows w)\<rparr>)
      else (Inl (NewError ErrModNotFound ''Mod not found''), w)))"

definition GetInstance :: "env \<Rightarrow> string \<Rightarrow> instance_ref act" where
  "GetInstance E i = readE E (\<lambda>w.
     case find (\<lambda>r. ir_id r = i) (w_instances w) of
       None \<Rightarrow> Inl (NewError ErrInstanceNotFound ''Instance not found'')
     | Some r \<Rightarrow> Inr r)"

definition ListInstances :: "env \<Rightarrow> instance_ref list act" where
  "ListInstances E = readE E (\<lambda>w. Inr (w_instances w))"

definition GetVersion :: "env \<Rightarrow> string \<Rightarrow> (string \<times> string) act" where
  "GetVersion E i = readE E (\<lambda>w.
     case map_of (w_versions w) i of
       None \<Rightarrow> Inl (NewError ErrVersionNotFound ''Game version not found'')
     | Some name \<Rightarrow> Inr (i, name))"

definition gameVersionName :: "string \<times> string \<Rightarrow> string" where
  "gameVersionName v = (if snd v = [] then fst v else snd v)"

definition ListFavoriteModIDs :: "env \<Rightarrow> string list act" where
  "ListFavoriteModIDs E = readE E (\<lambda>w. Inr (sort_strings (w_favorites w)))"

definition StoreModFavorite :: "env \<Rightarrow> string \<Rightarrow> bool \<Rightarrow> unit act" where
  "StoreModFavorite E m favorite = callE E (\<lambda>w.
     (Inr (), w\<lparr>w_favorites := (if favorite then List.insert m (w_favorites w)
                               else filter (\<lambda>x. x \<noteq> m) (w_favorites w))\<rparr>))"

definition SaveOperationE :: "env \<Rightarrow> operation \<Rightarrow> unit act" where
  "SaveOperationE E oper = (\<lambda>w.
     case Save oper [] (ev_fault E (w_ticks w)) (w_operations w) of
       (r, m) \<Rightarrow> (r, w\<lparr>w_operations := m, w_ticks := Suc (w_ticks w)\<rparr>))"

section \<open>The catalog\<close>

definition CatalogList :: "env \<Rightarrow> mod_summary list act" where
  "CatalogList E = callE E (\<lambda>w. (ev_catalog_list E (w_ticks w), w))"

definition CatalogGet :: "env \<Rightarrow> string \<Rightarrow> mod_details act" where
  "CatalogGet E m = callE E (\<lambda>w. (ev_catalog_get E (w_ticks w) m, w))"

definition CatalogSearch :: "env \<Rightarrow> mod_search_query \<Rightarrow> mod_search_result act" where
  "CatalogSearch E q = callE E (\<lambda>w. (ev_catalog_search E (w_ticks w) q, w))"

definition ListModTags :: "env \<Rightarrow> (string \<times> int) list act" where
  "ListModTags E = callE E (\<lambda>w. (ev_catalog_tags E (w_ticks w), w))"

text \<open>\<open>ReadModArchiveInfo\<close>: \<open>vintagestory-go/modinfo\<close> reads the file, its errors are classified.\<close>

fun archiveFailure :: "archive_error \<Rightarrow> archive_info result" where
  "archiveFailure NotAnArchive = Inr emptyArchiveInfo"
| "archiveFailure NoModInfo = Inr emptyArchiveInfo"
| "archiveFailure TooLarge = Inl (NewError ErrInvalidModFile ''modinfo.json is unexpectedly large'')"
| "archiveFailure (InvalidContent t) =
     Inl (AppError ErrInvalidModFile ''The downloaded mod contains an invalid modinfo.json'' False
            (Some (OtherError t)))"
| "archiveFailure (ArchiveError t) =
     Inl (AppError ErrInvalidModFile ''Could not inspect the downloaded mod archive'' False
            (Some (OtherError t)))"

definition ReadModArchiveInfo :: "env \<Rightarrow> string \<Rightarrow> archive_info act" where
  "ReadModArchiveInfo E path = catchE
     (readE E (\<lambda>w. osReadFile path (w_fs w)))
     (\<lambda>r. case r of
        Inl e \<Rightarrow> throwE (AppError ErrInvalidModFile ''Could not inspect the downloaded mod archive'' False (Some e))
      | Inr c \<Rightarrow>
          (case ev_archive E c of
             Inr info \<Rightarrow> returnE info
           | Inl err \<Rightarrow>
               (case archiveFailure err of Inl e \<Rightarrow> throwE e | Inr info \<Rightarrow> returnE info)))"

end
