(* ===== verification/ModFrames.thy ===== *)
theory ModFrames
  imports ModWorld
begin

text \<open>
  What the ports may change, as \<open>evolves\<close> rules.  A relation on states that ignores a field
  of the state is not disturbed by the ports that write only that field; every operation of
  the services is built from the ports, so its frame follows from \<open>evolve_rules\<close>.
  \<open>balanced\<close> is the frame of the two locks: the gate's counter and the instance slots are
  after the operation what they were before it, on every branch.
\<close>

definition tick_free :: "(mods_world \<Rightarrow> mods_world \<Rightarrow> bool) \<Rightarrow> bool" where
  "tick_free R \<longleftrightarrow> preorder_rel R \<and> (\<forall>w n. R w (w\<lparr>w_ticks := n\<rparr>))"

definition ignores_fs :: "(mods_world \<Rightarrow> mods_world \<Rightarrow> bool) \<Rightarrow> bool" where
  "ignores_fs R \<longleftrightarrow> (\<forall>w t. R w (w\<lparr>w_fs := t\<rparr>))"

definition ignores_rows :: "(mods_world \<Rightarrow> mods_world \<Rightarrow> bool) \<Rightarrow> bool" where
  "ignores_rows R \<longleftrightarrow> (\<forall>w t. R w (w\<lparr>w_rows := t\<rparr>))"

definition ignores_output :: "(mods_world \<Rightarrow> mods_world \<Rightarrow> bool) \<Rightarrow> bool" where
  "ignores_output R \<longleftrightarrow> (\<forall>w e r. R w (w\<lparr>w_events := e\<rparr>) \<and> R w (w\<lparr>w_reports := r\<rparr>))"

definition ignores_operations :: "(mods_world \<Rightarrow> mods_world \<Rightarrow> bool) \<Rightarrow> bool" where
  "ignores_operations R \<longleftrightarrow> (\<forall>w m. R w (w\<lparr>w_operations := m\<rparr>))"

definition ignores_tasks :: "(mods_world \<Rightarrow> mods_world \<Rightarrow> bool) \<Rightarrow> bool" where
  "ignores_tasks R \<longleftrightarrow> (\<forall>w m. R w (w\<lparr>w_tasks := m\<rparr>))"

definition ignores_snapshots :: "(mods_world \<Rightarrow> mods_world \<Rightarrow> bool) \<Rightarrow> bool" where
  "ignores_snapshots R \<longleftrightarrow> (\<forall>w m. R w (w\<lparr>w_snapshots := m\<rparr>))"

definition ignores_favorites :: "(mods_world \<Rightarrow> mods_world \<Rightarrow> bool) \<Rightarrow> bool" where
  "ignores_favorites R \<longleftrightarrow> (\<forall>w m. R w (w\<lparr>w_favorites := m\<rparr>))"

lemmas ignores_defs = ignores_fs_def ignores_rows_def ignores_output_def ignores_operations_def
  ignores_tasks_def ignores_snapshots_def ignores_favorites_def

lemma tick_free_preorder [simp]: "tick_free R \<Longrightarrow> preorder_rel R"
  by (simp add: tick_free_def)

lemma tick_freeD: "tick_free R \<Longrightarrow> R w (w\<lparr>w_ticks := n\<rparr>)"
  by (simp add: tick_free_def)

lemma preorder_trans: "preorder_rel R \<Longrightarrow> R a b \<Longrightarrow> R b c \<Longrightarrow> R a c"
  by (auto simp: preorder_rel_def transp_def)

lemma preorder_refl: "preorder_rel R \<Longrightarrow> R a a"
  by (auto simp: preorder_rel_def reflp_def)

text \<open>The ports.\<close>

lemma evolves_callE:
  assumes "tick_free R" "\<And>w. R w (snd (f w))" shows "evolves R (callE E f)"
  unfolding evolves_def
proof
  fix w
  have "R w (w\<lparr>w_ticks := Suc (w_ticks w)\<rparr>)" using assms(1) by (rule tick_freeD)
  moreover have "R (w\<lparr>w_ticks := Suc (w_ticks w)\<rparr>) (snd (f (w\<lparr>w_ticks := Suc (w_ticks w)\<rparr>)))"
    by (rule assms(2))
  ultimately show "R w (snd (callE E f w))"
    using preorder_trans [OF tick_free_preorder [OF assms(1)]]
    by (auto simp: callE_def split: option.splits)
qed

lemma evolves_readE [evolve_rules]: "tick_free R \<Longrightarrow> evolves R (readE E f)"
  unfolding readE_def by (rule evolves_callE) (simp_all add: preorder_refl)

lemma evolves_fsE [evolve_rules]: "tick_free R \<Longrightarrow> ignores_fs R \<Longrightarrow> evolves R (fsE E f)"
  unfolding fsE_def by (rule evolves_callE) (simp_all add: ignores_fs_def split: prod.splits)

lemma evolves_statE [evolve_rules]: "tick_free R \<Longrightarrow> evolves R (statE E p)"
  unfolding statE_def by (rule evolves_readE)

lemma evolves_nowE [evolve_rules]: "tick_free R \<Longrightarrow> evolves R (nowE E)"
  unfolding nowE_def by (rule evolves_getE) simp

lemma evolves_newIDE [evolve_rules]: "tick_free R \<Longrightarrow> evolves R (newIDE E)"
  by (simp add: evolves_def newIDE_def tick_freeD)

lemma evolves_publishE [evolve_rules]: "ignores_output R \<Longrightarrow> evolves R (publishE e)"
  unfolding publishE_def by (rule evolves_modifyE) (simp add: ignores_output_def)

lemma evolves_reportEvent [evolve_rules]:
  "tick_free R \<Longrightarrow> ignores_output R \<Longrightarrow> evolves R (reportEvent E n)"
  unfolding reportEvent_def
  by (auto intro!: evolve_rules simp: ignores_output_def)

lemma evolves_reportError [evolve_rules]:
  "tick_free R \<Longrightarrow> ignores_output R \<Longrightarrow> evolves R (reportError E c k n)"
  unfolding reportError_def
  by (auto intro!: evolve_rules simp: ignores_output_def)

lemma evolves_ignoreE [evolve_rules]: "tick_free R \<Longrightarrow> evolves R m \<Longrightarrow> evolves R (ignoreE m)"
  unfolding ignoreE_def by (intro evolves_catchE evolves_returnE) simp_all

lemma evolves_createSnapshot [evolve_rules]:
  "tick_free R \<Longrightarrow> ignores_snapshots R \<Longrightarrow> evolves R (createSnapshot E i r n)"
  unfolding createSnapshot_def by (rule evolves_callE) (simp_all add: ignores_snapshots_def)

lemma evolves_ListModRows [evolve_rules]: "tick_free R \<Longrightarrow> evolves R (ListModRows E i)"
  unfolding ListModRows_def by (rule evolves_readE)

lemma evolves_GetMod [evolve_rules]: "tick_free R \<Longrightarrow> evolves R (GetMod E i)"
  unfolding GetMod_def by (rule evolves_readE)

lemma evolves_SaveMod [evolve_rules]: "tick_free R \<Longrightarrow> ignores_rows R \<Longrightarrow> evolves R (SaveMod E m)"
  unfolding SaveMod_def
  by (rule evolves_callE) (auto simp: ignores_rows_def Let_def preorder_refl)

lemma evolves_DeleteModRow [evolve_rules]:
  "tick_free R \<Longrightarrow> ignores_rows R \<Longrightarrow> evolves R (DeleteModRow E i)"
  unfolding DeleteModRow_def
  by (rule evolves_callE) (auto simp: ignores_rows_def preorder_refl)

lemma evolves_GetInstance [evolve_rules]: "tick_free R \<Longrightarrow> evolves R (GetInstance E i)"
  unfolding GetInstance_def by (rule evolves_readE)

lemma evolves_ListInstances [evolve_rules]: "tick_free R \<Longrightarrow> evolves R (ListInstances E)"
  unfolding ListInstances_def by (rule evolves_readE)

lemma evolves_GetVersion [evolve_rules]: "tick_free R \<Longrightarrow> evolves R (GetVersion E i)"
  unfolding GetVersion_def by (rule evolves_readE)

lemma evolves_ListFavoriteModIDs [evolve_rules]: "tick_free R \<Longrightarrow> evolves R (ListFavoriteModIDs E)"
  unfolding ListFavoriteModIDs_def by (rule evolves_readE)

lemma evolves_StoreModFavorite [evolve_rules]:
  "tick_free R \<Longrightarrow> ignores_favorites R \<Longrightarrow> evolves R (StoreModFavorite E m b)"
  unfolding StoreModFavorite_def by (rule evolves_callE) (simp_all add: ignores_favorites_def)

lemma evolves_SaveOperationE [evolve_rules]:
  assumes "tick_free R" "ignores_operations R" shows "evolves R (SaveOperationE E oper)"
  unfolding evolves_def
proof
  fix w
  have "R w (w\<lparr>w_operations := m\<rparr>)" "R (w\<lparr>w_operations := m\<rparr>) (w\<lparr>w_operations := m, w_ticks := n\<rparr>)" for m n
    using assms tick_freeD [OF assms(1), of "w\<lparr>w_operations := m\<rparr>"] by (simp_all add: ignores_operations_def)
  then show "R w (snd (SaveOperationE E oper w))"
    using preorder_trans [OF tick_free_preorder [OF assms(1)]]
    by (cases "Save oper [] (ev_fault E (w_ticks w)) (w_operations w)")
       (auto simp: SaveOperationE_def, blast)
qed

lemma evolves_CatalogList [evolve_rules]: "tick_free R \<Longrightarrow> evolves R (CatalogList E)"
  unfolding CatalogList_def by (rule evolves_callE) (simp_all add: preorder_refl)

lemma evolves_CatalogGet [evolve_rules]: "tick_free R \<Longrightarrow> evolves R (CatalogGet E m)"
  unfolding CatalogGet_def by (rule evolves_callE) (simp_all add: preorder_refl)

lemma evolves_CatalogSearch [evolve_rules]: "tick_free R \<Longrightarrow> evolves R (CatalogSearch E q)"
  unfolding CatalogSearch_def by (rule evolves_callE) (simp_all add: preorder_refl)

lemma evolves_ReadModArchiveInfo [evolve_rules]: "tick_free R \<Longrightarrow> evolves R (ReadModArchiveInfo E p)"
  unfolding ReadModArchiveInfo_def
  by (intro evolves_catchE evolves_readE evolves_case_sum evolves_throwE evolves_returnE) simp_all

section \<open>Frames\<close>

lemma tick_free_keeping [simp]:
  "tick_free (keeping w_fs)" "tick_free (keeping w_rows)" "tick_free (keeping w_snapshots)"
  "tick_free (keeping w_tasks)" "tick_free (keeping w_instances)" "tick_free (keeping w_favorites)"
  "tick_free (keeping w_events)" "tick_free (keeping w_gate)" "tick_free (keeping w_registry)"
  "tick_free (keeping w_versions)" "tick_free (keeping w_operations)" "tick_free (keeping w_reports)"
  by (simp_all add: tick_free_def) (simp_all add: keeping_def)

lemma keeping_ignores_fs [simp]:
  "ignores_fs (keeping w_rows)" "ignores_fs (keeping w_snapshots)" "ignores_fs (keeping w_tasks)"
  "ignores_fs (keeping w_instances)" "ignores_fs (keeping w_favorites)" "ignores_fs (keeping w_gate)"
  "ignores_fs (keeping w_registry)" "ignores_fs (keeping w_versions)"
  by (simp_all add: ignores_fs_def keeping_def)

lemma keeping_ignores_rows [simp]:
  "ignores_rows (keeping w_fs)" "ignores_rows (keeping w_snapshots)" "ignores_rows (keeping w_tasks)"
  "ignores_rows (keeping w_instances)" "ignores_rows (keeping w_favorites)" "ignores_rows (keeping w_gate)"
  "ignores_rows (keeping w_registry)" "ignores_rows (keeping w_versions)"
  by (simp_all add: ignores_rows_def keeping_def)

lemma keeping_ignores_output [simp]:
  "ignores_output (keeping w_fs)" "ignores_output (keeping w_rows)" "ignores_output (keeping w_snapshots)"
  "ignores_output (keeping w_tasks)" "ignores_output (keeping w_instances)"
  "ignores_output (keeping w_favorites)" "ignores_output (keeping w_gate)"
  "ignores_output (keeping w_registry)" "ignores_output (keeping w_versions)"
  by (simp_all add: ignores_output_def keeping_def)

lemma keeping_ignores_operations [simp]:
  "ignores_operations (keeping w_fs)" "ignores_operations (keeping w_rows)"
  "ignores_operations (keeping w_snapshots)" "ignores_operations (keeping w_tasks)"
  "ignores_operations (keeping w_instances)" "ignores_operations (keeping w_gate)"
  "ignores_operations (keeping w_registry)" "ignores_operations (keeping w_versions)"
  by (simp_all add: ignores_operations_def keeping_def)

lemma keeping_ignores_tasks [simp]:
  "ignores_tasks (keeping w_fs)" "ignores_tasks (keeping w_rows)" "ignores_tasks (keeping w_snapshots)"
  "ignores_tasks (keeping w_instances)" "ignores_tasks (keeping w_gate)"
  "ignores_tasks (keeping w_registry)" "ignores_tasks (keeping w_versions)"
  by (simp_all add: ignores_tasks_def keeping_def)

lemma keeping_ignores_snapshots [simp]:
  "ignores_snapshots (keeping w_fs)" "ignores_snapshots (keeping w_rows)"
  "ignores_snapshots (keeping w_instances)" "ignores_snapshots (keeping w_gate)"
  "ignores_snapshots (keeping w_registry)" "ignores_snapshots (keeping w_versions)"
  by (simp_all add: ignores_snapshots_def keeping_def)

definition slot_view :: "mods_world \<Rightarrow> (string \<Rightarrow> string) \<times> (string \<times> unit running_game) list" where
  "slot_view w = (BusyMarker (slots (w_registry w)), games (w_registry w))"

definition balanced :: "mods_world \<Rightarrow> mods_world \<Rightarrow> bool" where
  "balanced w w' \<longleftrightarrow> (0 \<le> active (w_gate w) \<longrightarrow> w_gate w' = w_gate w) \<and> slot_view w' = slot_view w"

lemma tick_free_balanced [simp]: "tick_free balanced"
  by (auto simp: tick_free_def preorder_rel_def reflp_def transp_def balanced_def slot_view_def)

lemma balanced_ignores [simp]:
  "ignores_fs balanced" "ignores_rows balanced" "ignores_output balanced" "ignores_operations balanced"
  "ignores_tasks balanced" "ignores_snapshots balanced" "ignores_favorites balanced"
  by (simp_all add: ignores_defs balanced_def slot_view_def)

lemma withGate_eq:
  "withGate body w = (if relocating (w_gate w) then (Inl busyError, w)
     else (case body (w\<lparr>w_gate := (w_gate w)\<lparr>active := active (w_gate w) + 1\<rparr>\<rparr>) of
             (r, w') \<Rightarrow> (r, w'\<lparr>w_gate := End (w_gate w')\<rparr>)))"
  by (simp add: withGate_def bindE_def Begin_def finallyE_def)

text \<open>
  The relations that survive the brackets of the gate and of an instance slot: \<open>balanced\<close>,
  and every relation that does not look at them.
\<close>

definition gate_closed :: "(mods_world \<Rightarrow> mods_world \<Rightarrow> bool) \<Rightarrow> bool" where
  "gate_closed R \<longleftrightarrow> (\<forall>w u. R (w\<lparr>w_gate := (w_gate w)\<lparr>active := active (w_gate w) + 1\<rparr>\<rparr>) u \<longrightarrow>
     R w (u\<lparr>w_gate := End (w_gate u)\<rparr>))"

definition ignores_locks :: "(mods_world \<Rightarrow> mods_world \<Rightarrow> bool) \<Rightarrow> bool" where
  "ignores_locks R \<longleftrightarrow> (\<forall>w g r. R w (w\<lparr>w_gate := g\<rparr>) \<and> R w (w\<lparr>w_registry := r\<rparr>))"

lemma gate_closed_balanced [simp]: "gate_closed balanced"
  by (auto simp: gate_closed_def balanced_def slot_view_def End_def)

lemma gate_closed_ignores:
  assumes "preorder_rel R" "ignores_locks R" shows "gate_closed R"
  unfolding gate_closed_def
  using assms(2) preorder_trans [OF assms(1)] unfolding ignores_locks_def by blast

lemma evolves_withGate [evolve_rules]:
  assumes "tick_free R" "gate_closed R" "evolves R body" shows "evolves R (withGate body)"
  unfolding evolves_def
proof
  fix w :: mods_world
  let ?v = "w\<lparr>w_gate := (w_gate w)\<lparr>active := active (w_gate w) + 1\<rparr>\<rparr>"
  have "R ?v (snd (body ?v))" using assms(3) by (simp add: evolves_def)
  then show "R w (snd (withGate body w))"
    using assms(1,2) by (auto simp: withGate_eq gate_closed_def preorder_refl split: prod.splits)
qed

lemma lock_busy:
  "BusyMarker (slots (w_registry w)) i \<noteq> [] \<Longrightarrow> withLock i body w = (Inl instanceBusyError, w)"
  by (simp add: withLock_def lockInstanceMutations_def bindE_def Lock_eq)

definition locked :: "string \<Rightarrow> mods_world \<Rightarrow> mods_world" where
  "locked i w = w\<lparr>w_registry := (w_registry w)\<lparr>slots := (slots (w_registry w))(i \<mapsto> MutationLockMarker)\<rparr>\<rparr>"

lemma lock_free:
  "BusyMarker (slots (w_registry w)) i = [] \<Longrightarrow>
     withLock i body w = (case body (locked i w) of (r, w') \<Rightarrow> (r, unlockInstance i w'))"
  by (simp add: withLock_def lockInstanceMutations_def bindE_def Lock_eq finallyE_def locked_def)

definition slot_closed :: "(mods_world \<Rightarrow> mods_world \<Rightarrow> bool) \<Rightarrow> bool" where
  "slot_closed R \<longleftrightarrow> (\<forall>i w u. BusyMarker (slots (w_registry w)) i = [] \<longrightarrow> R (locked i w) u \<longrightarrow>
     R w (unlockInstance i u))"

lemma slot_closed_balanced [simp]: "slot_closed balanced"
  unfolding slot_closed_def
proof (intro allI impI)
  fix i w u
  assume free: "BusyMarker (slots (w_registry w)) i = []" and "balanced (locked i w) u"
  then have busy: "BusyMarker (slots (w_registry u)) = (BusyMarker (slots (w_registry w)))(i := MutationLockMarker)"
    and rest: "games (w_registry u) = games (w_registry w)"
      "0 \<le> active (w_gate w) \<longrightarrow> w_gate u = w_gate w"
    by (auto simp: balanced_def slot_view_def locked_def BusyMarker_def fun_eq_iff)
  have "BusyMarker (Release (slots (w_registry u)) i MutationLockMarker) = BusyMarker (slots (w_registry w))"
    using free by (auto simp: busy fun_eq_iff)
  with rest show "balanced w (unlockInstance i u)"
    by (simp add: balanced_def slot_view_def unlockInstance_def releaseSlot_def)
qed

lemma slot_closed_ignores:
  assumes "preorder_rel R" "ignores_locks R" shows "slot_closed R"
  unfolding slot_closed_def locked_def unlockInstance_def
  using assms(2) preorder_trans [OF assms(1)] unfolding ignores_locks_def by blast

lemma evolves_withLock [evolve_rules]:
  assumes "tick_free R" "slot_closed R" "evolves R body" shows "evolves R (withLock i body)"
  unfolding evolves_def
proof
  fix w
  show "R w (snd (withLock i body w))"
  proof (cases "BusyMarker (slots (w_registry w)) i = []")
    case True
    have "R (locked i w) (snd (body (locked i w)))" using assms(3) by (simp add: evolves_def)
    then show ?thesis
      using True assms(2) by (auto simp: lock_free slot_closed_def split: prod.splits)
  qed (simp add: lock_busy assms(1) preorder_refl)
qed

definition lock_closed :: "(mods_world \<Rightarrow> mods_world \<Rightarrow> bool) \<Rightarrow> bool" where
  "lock_closed R \<longleftrightarrow> tick_free R \<and> gate_closed R \<and> slot_closed R"

lemma lock_closed_balanced [simp]: "lock_closed balanced"
  by (simp add: lock_closed_def)

lemma lock_closed_ignores: "tick_free R \<Longrightarrow> ignores_locks R \<Longrightarrow> lock_closed R"
  by (simp add: lock_closed_def gate_closed_ignores slot_closed_ignores)

lemma lock_closedD [simp]: "lock_closed R \<Longrightarrow> tick_free R" "lock_closed R \<Longrightarrow> gate_closed R"
  "lock_closed R \<Longrightarrow> slot_closed R"
  by (simp_all add: lock_closed_def)

lemma keeping_ignores_locks:
  "ignores_locks (keeping w_fs)" "ignores_locks (keeping w_rows)" "ignores_locks (keeping w_snapshots)"
  "ignores_locks (keeping w_tasks)" "ignores_locks (keeping w_instances)" "ignores_locks (keeping w_versions)"
  "ignores_locks (keeping w_favorites)"
  by (simp_all add: ignores_locks_def keeping_def)

lemma lock_closed_keeping [simp]:
  "lock_closed (keeping w_fs)" "lock_closed (keeping w_rows)" "lock_closed (keeping w_snapshots)"
  "lock_closed (keeping w_tasks)" "lock_closed (keeping w_instances)" "lock_closed (keeping w_versions)"
  "lock_closed (keeping w_favorites)"
  by (rule lock_closed_ignores, rule tick_free_keeping, rule keeping_ignores_locks)+

section \<open>What the ports guarantee\<close>

definition tick :: "mods_world \<Rightarrow> mods_world" where
  "tick w = w\<lparr>w_ticks := Suc (w_ticks w)\<rparr>"

lemma tick_fields [simp]:
  "w_fs (tick w) = w_fs w" "w_rows (tick w) = w_rows w" "w_snapshots (tick w) = w_snapshots w"
  "w_last_good (tick w) = w_last_good w" "w_settings (tick w) = w_settings w"
  "w_gate (tick w) = w_gate w" "w_registry (tick w) = w_registry w" "w_tasks (tick w) = w_tasks w"
  "w_instances (tick w) = w_instances w" "w_events (tick w) = w_events w"
  "w_versions (tick w) = w_versions w" "w_favorites (tick w) = w_favorites w"
  "w_operations (tick w) = w_operations w" "w_reports (tick w) = w_reports w"
  "w_ticks (tick w) = Suc (w_ticks w)"
  by (simp_all add: tick_def)

lemma wp_callE:
  "(\<And>e. X e (tick w)) \<Longrightarrow> wp f Q X (tick w) \<Longrightarrow> wp (callE E f) Q X w"
  by (auto simp: wp_def callE_def tick_def split: option.splits)

lemma wp_readE:
  "(\<And>e. X e (tick w)) \<Longrightarrow> (\<And>x. f (tick w) = Inr x \<Longrightarrow> Q x (tick w)) \<Longrightarrow> wp (readE E f) Q X w"
  unfolding readE_def by (rule wp_callE) (auto simp: wp_def split: sum.splits)

lemma wp_fsE:
  "(\<And>e. X e (tick w)) \<Longrightarrow>
   (\<And>x t. f (w_fs w) = (Inr x, t) \<Longrightarrow> Q x ((tick w)\<lparr>w_fs := t\<rparr>)) \<Longrightarrow>
   (\<And>e t. f (w_fs w) = (Inl e, t) \<Longrightarrow> X e ((tick w)\<lparr>w_fs := t\<rparr>)) \<Longrightarrow> wp (fsE E f) Q X w"
  unfolding fsE_def by (rule wp_callE) (auto simp: wp_def split: sum.splits prod.splits)

lemma wp_withGate:
  assumes "relocating (w_gate w) \<Longrightarrow> X busyError w"
    and "wp body (\<lambda>x w'. Q x (w'\<lparr>w_gate := End (w_gate w')\<rparr>)) (\<lambda>e w'. X e (w'\<lparr>w_gate := End (w_gate w')\<rparr>))
           (w\<lparr>w_gate := (w_gate w)\<lparr>active := active (w_gate w) + 1\<rparr>\<rparr>)"
  shows "wp (withGate body) Q X w"
  using assms by (auto simp: wp_def withGate_eq split: prod.splits sum.splits)

lemma wp_withLock:
  assumes "BusyMarker (slots (w_registry w)) i \<noteq> [] \<Longrightarrow> X instanceBusyError w"
    and "BusyMarker (slots (w_registry w)) i = [] \<Longrightarrow>
      wp body (\<lambda>x w'. Q x (unlockInstance i w')) (\<lambda>e w'. X e (unlockInstance i w')) (locked i w)"
  shows "wp (withLock i body) Q X w"
proof (cases "BusyMarker (slots (w_registry w)) i = []")
  case True
  then show ?thesis
    using assms(2) by (auto simp: wp_def lock_free split: prod.splits sum.splits)
next
  case False
  then show ?thesis using assms(1) by (simp add: wp_def lock_busy)
qed

lemma locked_fields [simp]:
  "w_fs (locked i w) = w_fs w" "w_rows (locked i w) = w_rows w" "w_snapshots (locked i w) = w_snapshots w"
  "w_last_good (locked i w) = w_last_good w" "w_settings (locked i w) = w_settings w"
  "w_last_good (unlockInstance i w) = w_last_good w" "w_settings (unlockInstance i w) = w_settings w"
  "w_gate (locked i w) = w_gate w" "w_tasks (locked i w) = w_tasks w" "w_instances (locked i w) = w_instances w"
  "w_ticks (locked i w) = w_ticks w"
  "w_fs (unlockInstance i w) = w_fs w" "w_rows (unlockInstance i w) = w_rows w"
  "w_snapshots (unlockInstance i w) = w_snapshots w" "w_gate (unlockInstance i w) = w_gate w"
  "w_tasks (unlockInstance i w) = w_tasks w" "w_instances (unlockInstance i w) = w_instances w"
  "w_ticks (unlockInstance i w) = w_ticks w"
  by (simp_all add: locked_def unlockInstance_def)

lemma wp_Inr: "wp (\<lambda>w. (Inr x, f w)) Q X w \<longleftrightarrow> Q x (f w)"
  by (simp add: wp_def)

lemma wp_evolves: "evolves R m \<Longrightarrow> wp m (\<lambda>_ w'. R w w') (\<lambda>_ w'. R w w') w"
  by (auto simp: wp_def evolves_def split: prod.splits sum.splits dest: spec [of _ w])

lemma wp_evolves_trans:
  assumes "evolves R m" "preorder_rel R" "R v w"
  shows "wp m (\<lambda>_ w'. R v w') (\<lambda>_ w'. R v w') w"
  using wp_evolves [OF assms(1)] by (rule wp_mono) (use assms(2,3) in \<open>auto intro: preorder_trans\<close>)

section \<open>Protected changes\<close>

text \<open>
  \<open>protected_by reason w w'\<close>: between the two states the files and the records are untouched
  and no snapshot was taken, or exactly one snapshot was taken, for that reason, and it
  captured the files and the records as they were at the start.
\<close>

definition untouched :: "mods_world \<Rightarrow> mods_world \<Rightarrow> bool" where
  "untouched w w' \<longleftrightarrow> w_fs w' = w_fs w \<and> w_rows w' = w_rows w \<and> w_snapshots w' = w_snapshots w"

definition one_snapshot :: "string \<Rightarrow> string \<Rightarrow> mods_world \<Rightarrow> mods_world \<Rightarrow> bool" where
  "one_snapshot i reason w w' \<longleftrightarrow>
     (\<exists>n. w_snapshots w' = w_snapshots w @
        [\<lparr>sn_instance = i, sn_reason = reason, sn_affected = n, sn_fs = w_fs w, sn_rows = w_rows w\<rparr>])"

lemma tick_free_untouched [simp]: "tick_free untouched"
  by (auto simp: tick_free_def preorder_rel_def reflp_def transp_def untouched_def)

lemma untouched_ignores [simp]:
  "ignores_output untouched" "ignores_operations untouched" "ignores_tasks untouched" "ignores_favorites untouched"
  by (simp_all add: ignores_defs untouched_def)

lemma untouched_fields [simp]:
  "untouched v (w\<lparr>w_gate := g\<rparr>) = untouched v w" "untouched v (unlockInstance i w) = untouched v w"
  "untouched v (locked i w) = untouched v w" "untouched v (tick w) = untouched v w" "untouched v v"
  by (simp_all add: untouched_def tick_def)

lemma one_snapshot_fields [simp]:
  "one_snapshot i r v (w\<lparr>w_gate := g\<rparr>) = one_snapshot i r v w"
  "one_snapshot i r v (unlockInstance j w) = one_snapshot i r v w"
  by (simp_all add: one_snapshot_def)

text \<open>A snapshot, then any change that takes none.\<close>

lemma wp_snapshot_then:
  assumes "evolves (keeping w_snapshots) body" "untouched v w"
  shows "wp (bindE (createSnapshot E i reason n) (\<lambda>_. body))
    (\<lambda>_. one_snapshot i reason v) (\<lambda>_ w'. untouched v w' \<or> one_snapshot i reason v w') w"
proof -
  have body: "wp body (\<lambda>_. one_snapshot i reason v)
      (\<lambda>_ w'. untouched v w' \<or> one_snapshot i reason v w') u" if "one_snapshot i reason v u" for u
    using wp_evolves [OF assms(1), of u]
    by (rule wp_mono) (use that in \<open>auto simp: keeping_def one_snapshot_def\<close>)
  show ?thesis
    unfolding wp_bindE createSnapshot_def
  proof (rule wp_callE)
    show "untouched v (tick w) \<or> one_snapshot i reason v (tick w)" using assms(2) by simp
    show "wp (\<lambda>w. (Inr (), w\<lparr>w_snapshots := w_snapshots w @ [\<lparr>sn_instance = i, sn_reason = reason,
          sn_affected = Itoa (int n), sn_fs = w_fs w, sn_rows = w_rows w\<rparr>]\<rparr>))
        (\<lambda>_. wp body (\<lambda>_. one_snapshot i reason v) (\<lambda>_ w'. untouched v w' \<or> one_snapshot i reason v w'))
        (\<lambda>_ w'. untouched v w' \<or> one_snapshot i reason v w') (tick w)"
      unfolding wp_Inr
      by (rule body) (use assms(2) in \<open>simp add: untouched_def one_snapshot_def tick_def\<close>)
  qed
qed

section \<open>An example state\<close>

text \<open>
  A launcher with one instance and an idle gate, and an environment in which nothing fails,
  for the concrete runs of the properties.
\<close>

definition sampleFile :: "string \<Rightarrow> node" where
  "sampleFile b = FileNode \<lparr>fd_content = Blob b, fd_mtime = 5\<rparr>"

definition sampleEnv :: env where
  "sampleEnv =
     \<lparr>sv_valid = (\<lambda>v. True), sv_compare = (\<lambda>a b. int (length a) - int (length b)),
      vs_compare = (\<lambda>a b. int (length a) - int (length b)),
      vs_upgrade = (\<lambda>i v t. length v > length i),
      ev_fault = (\<lambda>n. None), ev_clock = (\<lambda>n. int n), ev_new_id = (\<lambda>n. replicate n (CHR ''i'')),
      ev_data_root = ''/d'', ev_telemetry = True,
      ev_archive = (\<lambda>c. Inr emptyArchiveInfo), ev_catalog_list = (\<lambda>n. Inr []),
      ev_catalog_get = (\<lambda>n m. Inl NotFoundError), ev_catalog_search = (\<lambda>n q. Inl NotFoundError),
      ev_catalog_tags = (\<lambda>n. Inr []), ev_catalog_size = 5, ev_url = Inr,
      ev_http = (\<lambda>n u off. Inr \<lparr>hr_status = 200, hr_length = 3, hr_body = [''n'', ''ew''], hr_error = None\<rparr>),
      ev_checksum = (\<lambda>a c. ''sum''), ev_encoded = (\<lambda>c. ''{}''), ev_delivers = (\<lambda>n. True)\<rparr>"

definition sampleWorld :: "fs \<Rightarrow> installed_mod list \<Rightarrow> mods_world" where
  "sampleWorld t rows =
     \<lparr>w_gate = newGate, w_registry = NewRegistry newSlot, w_rows = rows,
      w_instances = [plainInstance ''i'' ''I'' ''/i'' ''v''],
      w_versions = [(''v'', ''1.20.0'')], w_favorites = [], w_fs = t, w_operations = NewManager [],
      w_tasks = NewModTaskManager, w_events = [], w_reports = [], w_snapshots = [],
      w_last_good = [], w_settings = \<lparr>ss_automatic = True, ss_retention = 10\<rparr>, w_ticks = 0\<rparr>"

lemma sampleWorld_fields [simp]:
  "w_gate (sampleWorld t rows) = newGate" "w_rows (sampleWorld t rows) = rows"
  "w_fs (sampleWorld t rows) = t" "w_snapshots (sampleWorld t rows) = []"
  "w_tasks (sampleWorld t rows) = NewModTaskManager" "w_ticks (sampleWorld t rows) = 0"
  "w_registry (sampleWorld t rows) = NewRegistry newSlot"
  "w_instances (sampleWorld t rows) =
     [plainInstance ''i'' ''I'' ''/i'' ''v'']"
  by (simp_all add: sampleWorld_def)

lemmas path_eval = JoinPath_def Clean_def IsAbs_def HasPrefix_def Base_def strip_slashes_def
  after_last_def Dir_def Let_def

end
