(* ===== verification/ModFiles.thy ===== *)
theory ModFiles
  imports ModFrames
begin

text \<open>
  \<open>internal/platform/filesystem/mods.go\<close>: the mod files of an instance, enabled ones in
  \<open>Mods\<close>, disabled ones in \<open>ModsDisabled\<close>.  Every call of \<open>os\<close> is one step that may fail on
  its own; a copy that fails half-way leaves an unfinished file that the code then removes.
\<close>

abbreviation "modsDirectory \<equiv> ''Mods''"
abbreviation "disabledModsDirectory \<equiv> ''ModsDisabled''"

definition isModFile :: "string \<Rightarrow> bool" where
  "isModFile name \<longleftrightarrow> ToLower (Ext name) \<in> {''.zip'', ''.cs'', ''.dll''}"

definition fsNowE :: "env \<Rightarrow> (time \<Rightarrow> fs \<Rightarrow> 'a result \<times> fs) \<Rightarrow> 'a act" where
  "fsNowE E f = callE E (\<lambda>w.
     case f (ev_clock E (w_ticks w)) (w_fs w) of (r, t) \<Rightarrow> (r, w\<lparr>w_fs := t\<rparr>))"

definition mkdirE :: "env \<Rightarrow> string \<Rightarrow> unit act" where
  "mkdirE E p = fsE E (osMkdirAll p)"

definition removeE :: "env \<Rightarrow> string \<Rightarrow> unit act" where
  "removeE E p = fsE E (osRemove p)"

definition renameE :: "env \<Rightarrow> string \<Rightarrow> string \<Rightarrow> unit act" where
  "renameE E a b = fsE E (osRename a b)"

definition createE :: "env \<Rightarrow> string \<Rightarrow> unit act" where
  "createE E p = fsNowE E (osCreate p)"

definition readFileE :: "env \<Rightarrow> string \<Rightarrow> content act" where
  "readFileE E p = readE E (\<lambda>w. osReadFile p (w_fs w))"

definition copyIntoE :: "env \<Rightarrow> string \<Rightarrow> content \<Rightarrow> unit act" where
  "copyIntoE E p c = fsNowE E (\<lambda>now t. (Inr (), writeContent p c now t))"

definition closeE :: "env \<Rightarrow> unit act" where
  "closeE E = readE E (\<lambda>_. Inr ())"

text \<open>\<open>os.Stat\<close> where only success matters: any error counts as absence.\<close>

definition existsE :: "env \<Rightarrow> string \<Rightarrow> bool act" where
  "existsE E p = catchE (statE E p) (\<lambda>r. returnE (case r of Inl _ \<Rightarrow> False | Inr _ \<Rightarrow> True))"

text \<open>\<open>statErr == nil && !info.IsDir()\<close>, and \<open>err == nil && info.IsDir()\<close>.\<close>

definition isFileE :: "env \<Rightarrow> string \<Rightarrow> bool act" where
  "isFileE E p = catchE (statE E p)
     (\<lambda>r. returnE (case r of Inl _ \<Rightarrow> False | Inr n \<Rightarrow> n \<noteq> DirNode))"

definition isDirE :: "env \<Rightarrow> string \<Rightarrow> bool act" where
  "isDirE E p = catchE (statE E p)
     (\<lambda>r. returnE (case r of Inl _ \<Rightarrow> False | Inr n \<Rightarrow> n = DirNode))"

fun node_size :: "node \<Rightarrow> int" where
  "node_size DirNode = 0"
| "node_size (FileNode d) = content_size (fd_content d)"

fun node_mtime :: "node \<Rightarrow> time" where
  "node_mtime DirNode = zeroTime"
| "node_mtime (FileNode d) = fd_mtime d"

section \<open>Scan\<close>

definition readModInfo :: "env \<Rightarrow> string \<Rightarrow> archive_info option act" where
  "readModInfo E path = catchE (readFileE E path)
     (\<lambda>r. returnE (case r of
        Inl _ \<Rightarrow> None
      | Inr c \<Rightarrow> (case ev_archive E c of Inl _ \<Rightarrow> None | Inr info \<Rightarrow> Some info)))"

definition discoveredName :: "string \<Rightarrow> archive_info option \<Rightarrow> string" where
  "discoveredName entry metadata =
     (case metadata of
        None \<Rightarrow> TrimSuffix entry (Ext entry)
      | Some info \<Rightarrow>
          (if TrimSpace (ai_name info) \<noteq> [] then TrimSpace (ai_name info)
           else if TrimSpace (ai_mod_id info) \<noteq> [] then TrimSpace (ai_mod_id info)
           else TrimSuffix entry (Ext entry)))"

definition discoveredVersion :: "archive_info option \<Rightarrow> string" where
  "discoveredVersion metadata =
     (case metadata of
        None \<Rightarrow> ''unknown''
      | Some info \<Rightarrow> (if TrimSpace (ai_version info) \<noteq> [] then TrimSpace (ai_version info) else ''unknown''))"

definition scanEntry :: "env \<Rightarrow> string \<Rightarrow> bool \<Rightarrow> string \<Rightarrow> discovered_mod list \<Rightarrow> discovered_mod list act" where
  "scanEntry E dir enabled entry found =
     bindE (statE E (JoinPath [dir, entry])) (\<lambda>info.
       if info = DirNode \<or> \<not> isModFile entry then returnE found
       else bindE
         (if EqualFold (Ext entry) ''.zip'' then readModInfo E (JoinPath [dir, entry]) else returnE None)
         (\<lambda>metadata. returnE (found @
            [\<lparr>disc_name = discoveredName entry metadata, disc_version = discoveredVersion metadata,
              disc_mod_id = (case metadata of None \<Rightarrow> [] | Some i \<Rightarrow> TrimSpace (ai_mod_id i)),
              disc_file_name = entry, disc_file_path = JoinPath [dir, entry],
              disc_enabled = enabled, disc_size = node_size info,
              disc_modified = node_mtime info\<rparr>])))"

definition scanDirectory :: "env \<Rightarrow> string \<Rightarrow> string \<times> bool \<Rightarrow> discovered_mod list \<Rightarrow> discovered_mod list act" where
  "scanDirectory E instanceDirectory directory found =
     catchE (readE E (\<lambda>w. osReadDir (JoinPath [instanceDirectory, fst directory]) (w_fs w)))
       (\<lambda>r. case r of
          Inl e \<Rightarrow> (if isNotExist e then returnE found else throwE e)
        | Inr entries \<Rightarrow>
            foldE (scanEntry E (JoinPath [instanceDirectory, fst directory]) (snd directory)) entries found)"

definition Scan :: "env \<Rightarrow> string \<Rightarrow> discovered_mod list act" where
  "Scan E instanceDirectory =
     foldE (scanDirectory E instanceDirectory)
       [(modsDirectory, True), (disabledModsDirectory, False)] []"

section \<open>The layout\<close>

definition migrateEntry :: "env \<Rightarrow> string \<Rightarrow> string \<Rightarrow> string \<Rightarrow> unit act" where
  "migrateEntry E oldPath newPath entry =
     catchE (statE E (JoinPath [newPath, entry]))
       (\<lambda>r. case r of
          Inr _ \<Rightarrow> returnE ()
        | Inl e \<Rightarrow>
            (if isNotExist e then renameE E (JoinPath [oldPath, entry]) (JoinPath [newPath, entry])
             else throwE e))"

text \<open>\<open>os.SameFile\<close> of two different paths is false on the case-sensitive Linux build.\<close>

definition migrateDirectory :: "env \<Rightarrow> string \<Rightarrow> string \<Rightarrow> unit act" where
  "migrateDirectory E oldPath newPath =
     catchE (statE E oldPath)
       (\<lambda>r. case r of
          Inl e \<Rightarrow> (if isNotExist e then returnE () else throwE e)
        | Inr oldInfo \<Rightarrow>
            (if oldInfo \<noteq> DirNode
             then throwE (OtherError (''legacy mod path is not a directory: '' @ oldPath))
             else catchE (statE E newPath)
               (\<lambda>r. case r of
                  Inl e \<Rightarrow> (if isNotExist e then renameE E oldPath newPath else throwE e)
                | Inr _ \<Rightarrow>
                    (if oldPath = newPath then returnE ()
                     else bindE (readE E (\<lambda>w. osReadDir oldPath (w_fs w))) (\<lambda>entries.
                          bindE (forE entries (migrateEntry E oldPath newPath)) (\<lambda>_.
                          removeE E oldPath))))))"

definition EnsureLayout :: "env \<Rightarrow> string \<Rightarrow> unit act" where
  "EnsureLayout E d =
     bindE (migrateDirectory E (JoinPath [d, ''mods'']) (JoinPath [d, modsDirectory])) (\<lambda>_.
     bindE (migrateDirectory E (JoinPath [d, ''mods-disabled'']) (JoinPath [d, disabledModsDirectory])) (\<lambda>_.
     bindE (mkdirE E (JoinPath [d, modsDirectory])) (\<lambda>_.
     mkdirE E (JoinPath [d, disabledModsDirectory]))))"

section \<open>Install\<close>

text \<open>
  A failure of the copy or of the close removes the unfinished file; the error of the
  removal itself is dropped.
\<close>

definition cleanupE :: "env \<Rightarrow> string \<Rightarrow> 'a act \<Rightarrow> 'a act" where
  "cleanupE E p m = catchE m (\<lambda>r. case r of
     Inr x \<Rightarrow> returnE x
   | Inl e \<Rightarrow> bindE (ignoreE (removeE E p)) (\<lambda>_. throwE e))"

definition unsupportedExtension :: "string \<Rightarrow> go_error" where
  "unsupportedExtension sourcePath =
     OtherError (''unsupported mod file extension: '' @ ToLower (Ext sourcePath))"

definition Install :: "env \<Rightarrow> string \<Rightarrow> string \<Rightarrow> (string \<times> int) act" where
  "Install E sourcePath instanceDirectory =
     (let modsPath = JoinPath [instanceDirectory, modsDirectory];
          destinationPath = JoinPath [modsPath, Base sourcePath];
          partialPath = destinationPath @ ''.partial''
      in if \<not> isModFile sourcePath then throwE (unsupportedExtension sourcePath)
         else bindE (statE E sourcePath) (\<lambda>info.
           if info = DirNode then throwE (OtherError ''mod source must be a file'')
           else bindE (mkdirE E modsPath) (\<lambda>_.
                bindE (existsE E destinationPath) (\<lambda>exists.
                  if exists then throwE ModFileExistsError
                  else bindE (readFileE E sourcePath) (\<lambda>source.
                       bindE (createE E partialPath) (\<lambda>_.
                       bindE (cleanupE E partialPath
                               (bindE (copyIntoE E partialPath source) (\<lambda>_. closeE E))) (\<lambda>_.
                       bindE (renameE E partialPath destinationPath) (\<lambda>_.
                       returnE (destinationPath, node_size info)))))))))"

text \<open>
  \<open>InstallOrReplace\<close>: the new file is staged beside its destination, the old file is kept as
  a backup until the staged file is in place.
\<close>

definition restoreBackup :: "env \<Rightarrow> string \<Rightarrow> string \<Rightarrow> string \<Rightarrow> go_error \<Rightarrow> 'a act" where
  "restoreBackup E backupPath oldPath stagedPath e =
     bindE (ignoreE (renameE E backupPath oldPath)) (\<lambda>_.
     bindE (ignoreE (removeE E stagedPath)) (\<lambda>_. throwE e))"

definition backupOld :: "env \<Rightarrow> string \<Rightarrow> string \<Rightarrow> string \<Rightarrow> unit act" where
  "backupOld E oldPath backupPath stagedPath =
     bindE (existsE E oldPath) (\<lambda>exists.
       if \<not> exists then returnE ()
       else bindE (ignoreE (removeE E backupPath)) (\<lambda>_.
            cleanupE E stagedPath (renameE E oldPath backupPath)))"

definition stageFile :: "env \<Rightarrow> string \<Rightarrow> string \<Rightarrow> unit act" where
  "stageFile E sourcePath stagedPath =
     bindE (createE E stagedPath) (\<lambda>_.
     cleanupE E stagedPath
       (bindE (readFileE E sourcePath) (\<lambda>source.
        bindE (copyIntoE E stagedPath source) (\<lambda>_.
        bindE (closeE E) (\<lambda>_. closeE E)))))"

definition replaceFile :: "env \<Rightarrow> string \<Rightarrow> string \<Rightarrow> string \<Rightarrow> string \<Rightarrow> unit act" where
  "replaceFile E oldPath backupPath stagedPath destinationPath =
     bindE (backupOld E oldPath backupPath stagedPath) (\<lambda>_.
     bindE (if destinationPath \<noteq> oldPath then existsE E destinationPath else returnE False) (\<lambda>taken.
       if taken then restoreBackup E backupPath oldPath stagedPath (OtherError ''mod file already exists'')
       else bindE
         (catchE (renameE E stagedPath destinationPath)
            (\<lambda>r. case r of
               Inl e \<Rightarrow> restoreBackup E backupPath oldPath stagedPath e
             | Inr _ \<Rightarrow> returnE ())) (\<lambda>_.
         ignoreE (removeE E backupPath))))"

definition InstallOrReplace :: "env \<Rightarrow> string \<Rightarrow> string \<Rightarrow> string \<Rightarrow> (string \<times> int) act" where
  "InstallOrReplace E sourcePath instanceDirectory oldPath =
     (let modsPath = JoinPath [instanceDirectory, modsDirectory];
          destinationPath = JoinPath [modsPath, Base sourcePath];
          stagedPath = destinationPath @ ''.waxlight-new''
      in if oldPath = [] then Install E sourcePath instanceDirectory
         else bindE (statE E sourcePath) (\<lambda>info.
           if info = DirNode then throwE (OtherError ''mod source must be a file'')
           else if \<not> isModFile sourcePath then throwE (unsupportedExtension sourcePath)
           else bindE (mkdirE E modsPath) (\<lambda>_.
                bindE (stageFile E sourcePath stagedPath) (\<lambda>_.
                bindE (replaceFile E oldPath (oldPath @ ''.waxlight-backup'') stagedPath destinationPath) (\<lambda>_.
                returnE (destinationPath, node_size info))))))"

definition SetEnabled :: "env \<Rightarrow> string \<Rightarrow> string \<Rightarrow> bool \<Rightarrow> string act" where
  "SetEnabled E filePath instanceDirectory enabled =
     (let targetRoot = JoinPath [instanceDirectory, if enabled then modsDirectory else disabledModsDirectory];
          targetPath = JoinPath [targetRoot, Base filePath]
      in bindE (mkdirE E targetRoot) (\<lambda>_.
           if filePath = targetPath then returnE filePath
           else bindE (renameE E filePath targetPath) (\<lambda>_. returnE targetPath)))"

section \<open>Frames\<close>

lemma evolves_fsNowE [evolve_rules]: "tick_free R \<Longrightarrow> ignores_fs R \<Longrightarrow> evolves R (fsNowE E f)"
  unfolding fsNowE_def by (rule evolves_callE) (simp_all add: ignores_fs_def split: prod.splits)

lemma evolves_file_ports [evolve_rules]:
  "tick_free R \<Longrightarrow> ignores_fs R \<Longrightarrow> evolves R (mkdirE E p)"
  "tick_free R \<Longrightarrow> ignores_fs R \<Longrightarrow> evolves R (removeE E p)"
  "tick_free R \<Longrightarrow> ignores_fs R \<Longrightarrow> evolves R (renameE E p q)"
  "tick_free R \<Longrightarrow> ignores_fs R \<Longrightarrow> evolves R (createE E p)"
  "tick_free R \<Longrightarrow> ignores_fs R \<Longrightarrow> evolves R (copyIntoE E p c)"
  "tick_free R \<Longrightarrow> evolves R (readFileE E p)"
  "tick_free R \<Longrightarrow> evolves R (closeE E)"
  by (simp_all add: mkdirE_def removeE_def renameE_def createE_def copyIntoE_def readFileE_def
      closeE_def evolves_fsE evolves_fsNowE evolves_readE)

lemma evolves_stat_ports [evolve_rules]:
  "tick_free R \<Longrightarrow> evolves R (existsE E p)"
  "tick_free R \<Longrightarrow> evolves R (isFileE E p)"
  "tick_free R \<Longrightarrow> evolves R (isDirE E p)"
  unfolding existsE_def isFileE_def isDirE_def
  by (auto intro!: evolve_rules)

lemma evolves_readModInfo [evolve_rules]: "tick_free R \<Longrightarrow> evolves R (readModInfo E p)"
  unfolding readModInfo_def by (auto intro!: evolve_rules)

lemma evolves_Scan [evolve_rules]: "tick_free R \<Longrightarrow> evolves R (Scan E d)"
  unfolding Scan_def scanDirectory_def scanEntry_def by (auto intro!: evolve_rules)

lemma evolves_cleanupE [evolve_rules]:
  "tick_free R \<Longrightarrow> ignores_fs R \<Longrightarrow> evolves R m \<Longrightarrow> evolves R (cleanupE E p m)"
  unfolding cleanupE_def by (auto intro!: evolve_rules)

lemma evolves_EnsureLayout [evolve_rules]:
  "tick_free R \<Longrightarrow> ignores_fs R \<Longrightarrow> evolves R (EnsureLayout E d)"
  unfolding EnsureLayout_def migrateDirectory_def migrateEntry_def by (auto intro!: evolve_rules)

lemma evolves_Install [evolve_rules]:
  "tick_free R \<Longrightarrow> ignores_fs R \<Longrightarrow> evolves R (Install E s d)"
  unfolding Install_def Let_def by (auto intro!: evolve_rules)

lemma evolves_InstallOrReplace [evolve_rules]:
  "tick_free R \<Longrightarrow> ignores_fs R \<Longrightarrow> evolves R (InstallOrReplace E s d old)"
  unfolding InstallOrReplace_def Let_def replaceFile_def stageFile_def backupOld_def restoreBackup_def
  by (auto intro!: evolve_rules)

lemma evolves_SetEnabled [evolve_rules]:
  "tick_free R \<Longrightarrow> ignores_fs R \<Longrightarrow> evolves R (SetEnabled E p d b)"
  unfolding SetEnabled_def Let_def by (auto intro!: evolve_rules)

section \<open>Replacing a release never loses it\<close>

text \<open>
  The four paths a replacement touches, and what holds of the tree \<open>t\<close> while it runs, started
  on \<open>t0\<close> with the old release's file \<open>d\<close>: that file is at its own path and there is no other
  backup, or it is the backup; and no other file has changed.
\<close>

definition touched :: "string \<Rightarrow> string \<Rightarrow> string \<Rightarrow> string \<Rightarrow> string set" where
  "touched old backup staged dest = {old, backup, staged, dest}"

definition others_kept :: "string set \<Rightarrow> fs \<Rightarrow> fs \<Rightarrow> bool" where
  "others_kept P t0 t \<longleftrightarrow> (\<forall>q n. q \<notin> P \<longrightarrow> fs_node t0 q = Some n \<longrightarrow> fs_node t q = Some n)"

definition old_in_place :: "string \<Rightarrow> string \<Rightarrow> file_data \<Rightarrow> fs \<Rightarrow> bool" where
  "old_in_place old backup d t \<longleftrightarrow> fs_node t old = Some (FileNode d) \<and> \<not> is_file t backup"

definition old_safe :: "string \<Rightarrow> string \<Rightarrow> file_data \<Rightarrow> fs \<Rightarrow> bool" where
  "old_safe old backup d t \<longleftrightarrow> old_in_place old backup d t \<or> fs_node t backup = Some (FileNode d)"

definition holds_content :: "string \<Rightarrow> content \<Rightarrow> fs \<Rightarrow> bool" where
  "holds_content p c t \<longleftrightarrow> (\<exists>now. fs_node t p = Some (FileNode \<lparr>fd_content = c, fd_mtime = now\<rparr>))"

lemma others_kept_refl [simp]: "others_kept P t t"
  by (simp add: others_kept_def)

lemma others_kept_step:
  "others_kept P t0 t \<Longrightarrow> (\<And>q n. q \<notin> P \<Longrightarrow> fs_node t q = Some n \<Longrightarrow> fs_node t' q = Some n) \<Longrightarrow> others_kept P t0 t'"
  unfolding others_kept_def by blast

lemma osRename_file:
  assumes "osRename a b t = (r, t')" "fs_node t a = Some (FileNode d)" "a \<noteq> b"
  shows "r = Inr () \<and> (\<forall>q. fs_node t' q = (if q = b then Some (FileNode d) else if q = a then None else fs_node t q)) \<or>
         (\<exists>e. r = Inl e) \<and> t' = t"
  using assms by (auto simp: osRename_def split: if_splits)

lemma osRename_onto_file:
  "\<not> is_file t a \<Longrightarrow> fs_node t b = Some (FileNode d) \<Longrightarrow> osRename a b t = (r, t') \<Longrightarrow> t' = t"
  by (auto simp: osRename_def is_file_def split: option.splits node.splits if_splits)

text \<open>Removing a path, ignoring the error, changes at most that path.\<close>

definition maybe_removed :: "string \<Rightarrow> fs \<Rightarrow> fs \<Rightarrow> bool" where
  "maybe_removed p t t' \<longleftrightarrow>
     (\<forall>q. fs_node t' q = fs_node t q \<or> q = p \<and> fs_node t' q = None)"

lemma maybe_removed_other: "maybe_removed p t t' \<Longrightarrow> q \<noteq> p \<Longrightarrow> fs_node t' q = fs_node t q"
  unfolding maybe_removed_def by blast

lemma maybe_removed_no_file: "maybe_removed p t t' \<Longrightarrow> \<not> is_file t q \<Longrightarrow> \<not> is_file t' q"
  unfolding maybe_removed_def is_file_def by (metis option.distinct(1))

lemma maybe_removed_refl [simp]: "maybe_removed p t t"
  by (simp add: maybe_removed_def)

lemma osRemove_maybe: "osRemove p t = (r, t') \<Longrightarrow> maybe_removed p t t'"
  by (auto simp: maybe_removed_def osRemove_node)

lemma wp_remove_ignored:
  assumes "\<And>t'. maybe_removed p (w_fs w) t' \<Longrightarrow> Q () ((tick w)\<lparr>w_fs := t'\<rparr>)"
  shows "wp (ignoreE (removeE E p)) Q X w"
proof -
  have keep: "Q () (tick w)" using assms [of "w_fs w"] by (simp add: tick_def)
  show ?thesis
    unfolding ignoreE_def removeE_def wp_catchE wp_returnE
    by (rule wp_fsE) (use keep in \<open>auto intro!: assms dest: osRemove_maybe\<close>)
qed

lemma wp_rename_ignored:
  assumes "Q () (tick w)"
    and "\<And>t'. osRename a b (w_fs w) = (Inr (), t') \<Longrightarrow> Q () ((tick w)\<lparr>w_fs := t'\<rparr>)"
    and "\<And>e t'. osRename a b (w_fs w) = (Inl e, t') \<Longrightarrow> Q () ((tick w)\<lparr>w_fs := t'\<rparr>)"
  shows "wp (ignoreE (renameE E a b)) Q X w"
  unfolding ignoreE_def renameE_def wp_catchE wp_returnE
  by (rule wp_fsE) (use assms in auto)

lemma wp_fsNowE:
  "(\<And>e. X e (tick w)) \<Longrightarrow>
   (\<And>now x t. f now (w_fs w) = (Inr x, t) \<Longrightarrow> Q x ((tick w)\<lparr>w_fs := t\<rparr>)) \<Longrightarrow>
   (\<And>now e t. f now (w_fs w) = (Inl e, t) \<Longrightarrow> X e ((tick w)\<lparr>w_fs := t\<rparr>)) \<Longrightarrow> wp (fsNowE E f) Q X w"
  unfolding fsNowE_def by (rule wp_callE) (auto simp: wp_def split: sum.splits prod.splits)

lemma wp_existsE:
  "(\<And>n. Q False (tick w)) \<Longrightarrow> (\<And>n. fs_node (w_fs w) p = Some n \<Longrightarrow> Q True (tick w)) \<Longrightarrow> wp (existsE E p) Q X w"
  unfolding existsE_def statE_def wp_catchE wp_returnE
  by (rule wp_readE) (auto simp: osStat_def split: option.splits)

lemma wp_cleanupE:
  assumes "wp m Q (\<lambda>e w'. \<forall>t'. maybe_removed p (w_fs w') t' \<longrightarrow> X e ((tick w')\<lparr>w_fs := t'\<rparr>)) w"
  shows "wp (cleanupE E p m) Q X w"
  unfolding cleanupE_def wp_catchE wp_bindE wp_returnE wp_throwE sum.case
  using assms
  by (rule wp_mono) (auto simp: wp_simps intro!: wp_remove_ignored)

text \<open>
  The invariant of a replacement before the old file has moved, and after.  \<open>in_place\<close> and
  \<open>safe\<close> depend on the tree only through \<open>fs_node\<close>.
\<close>

definition in_place :: "string \<Rightarrow> string \<Rightarrow> string \<Rightarrow> string \<Rightarrow> file_data \<Rightarrow> fs \<Rightarrow> fs \<Rightarrow> bool" where
  "in_place old backup staged dest d t0 t \<longleftrightarrow>
     old_in_place old backup d t \<and> others_kept (touched old backup staged dest) t0 t"

definition safe :: "string \<Rightarrow> string \<Rightarrow> string \<Rightarrow> string \<Rightarrow> file_data \<Rightarrow> fs \<Rightarrow> fs \<Rightarrow> bool" where
  "safe old backup staged dest d t0 t \<longleftrightarrow>
     old_safe old backup d t \<and> others_kept (touched old backup staged dest) t0 t"

lemma in_place_safe: "in_place old backup staged dest d t0 t \<Longrightarrow> safe old backup staged dest d t0 t"
  by (simp add: in_place_def safe_def old_safe_def)

lemma in_place_change:
  assumes "in_place old backup staged dest d t0 t" "staged \<noteq> old" "staged \<noteq> backup"
    and "\<And>q. q \<noteq> staged \<Longrightarrow> fs_node t' q = fs_node t q"
  shows "in_place old backup staged dest d t0 t'"
  using assms by (auto simp: in_place_def old_in_place_def is_file_def touched_def others_kept_def)

lemma safe_change:
  assumes "safe old backup staged dest d t0 t" "staged \<noteq> old" "staged \<noteq> backup"
    and "\<And>q. q \<noteq> staged \<Longrightarrow> fs_node t' q = fs_node t q"
  shows "safe old backup staged dest d t0 t'"
  using assms by (auto simp: safe_def old_safe_def old_in_place_def is_file_def touched_def others_kept_def)

lemma stageFile_keeps:
  assumes inv: "in_place old backup staged dest d t0 (w_fs w)"
    and sep: "staged \<noteq> old" "staged \<noteq> backup"
    and src: "fs_node t0 src = Some (FileNode s)" "src \<notin> touched old backup staged dest"
  shows "wp (stageFile E src staged)
    (\<lambda>_ w'. in_place old backup staged dest d t0 (w_fs w') \<and> holds_content staged (fd_content s) (w_fs w'))
    (\<lambda>_ w'. in_place old backup staged dest d t0 (w_fs w')) w"
proof -
  let ?I = "in_place old backup staged dest d t0"
  have clean: "?I t'" if "?I t" "maybe_removed staged t t'" for t t'
    by (rule in_place_change [OF that(1) sep]) (rule maybe_removed_other [OF that(2)])
  have read: "osReadFile src t = Inr (fd_content s)" if "?I t" for t
    using that src by (simp add: in_place_def others_kept_def osReadFile_def)
  have created: "?I t'" if "?I t" "osCreate staged now t = (r, t')" for t t' r now
    using that(2) by (intro in_place_change [OF that(1) sep]) (auto simp: osCreate_def split: if_splits)
  have written: "?I (writeContent staged c now t)" if "?I t" for t c now
    by (intro in_place_change [OF that sep]) (simp add: writeContent_def)
  have got: "c = fd_content s" if "?I t" "osReadFile src t = Inr c" for t c
    using read [OF that(1)] that(2) by simp
  have close: "wp (closeE E) (\<lambda>_. P) (\<lambda>_. P') v" if "P (tick v)" "P' (tick v)" for P P' v
    unfolding closeE_def by (rule wp_readE) (use that in auto)
  have body: "wp (bindE (readFileE E src) (\<lambda>source. bindE (copyIntoE E staged source)
        (\<lambda>_. bindE (closeE E) (\<lambda>_. closeE E))))
      (\<lambda>_ w'. ?I (w_fs w') \<and> holds_content staged (fd_content s) (w_fs w')) (\<lambda>_ w'. ?I (w_fs w')) v"
    if v: "?I (w_fs v)" for v
    unfolding wp_bindE readFileE_def copyIntoE_def
    using v
    by (intro wp_readE wp_fsNowE close)
       (auto simp: written [unfolded writeContent_def] writeContent_def holds_content_def dest: got)
  show ?thesis
    unfolding stageFile_def wp_bindE createE_def
    by (intro wp_fsNowE wp_cleanupE wp_mono [OF body])
       (use inv in \<open>auto dest: created clean\<close>)
qed

lemma others_kept_touch:
  assumes "others_kept (touched old backup staged dest) t0 t"
    and "\<And>q. q \<notin> touched old backup staged dest \<Longrightarrow> fs_node t' q = fs_node t q"
  shows "others_kept (touched old backup staged dest) t0 t'"
  using assms by (auto simp: others_kept_def)

lemma restoreBackup_keeps:
  assumes inv: "safe old backup staged dest d t0 (w_fs w)"
    and sep: "staged \<noteq> old" "staged \<noteq> backup" "old \<noteq> backup"
  shows "wp (restoreBackup E backup old staged e) Q (\<lambda>_ w'. safe old backup staged dest d t0 (w_fs w')) w"
proof -
  let ?S = "safe old backup staged dest d t0"
  have moved: "?S t'" if S: "?S t" and ren: "osRename backup old t = (r, t')" for t t' r
  proof (cases "fs_node t backup = Some (FileNode d)")
    case True
    from osRename_file [OF ren True] S sep show ?thesis
      by (auto simp: safe_def old_safe_def old_in_place_def is_file_def touched_def
          intro: others_kept_touch [unfolded touched_def])
  next
    case False
    with S have "old_in_place old backup d t" by (simp add: safe_def old_safe_def)
    with S ren show ?thesis by (auto simp: old_in_place_def dest: osRename_onto_file)
  qed
  have clean: "?S t'" if "?S t" "maybe_removed staged t t'" for t t'
    by (rule safe_change [OF that(1) sep(1,2)]) (rule maybe_removed_other [OF that(2)])
  have drop: "wp (ignoreE (removeE E staged)) (\<lambda>_ w'. ?S (w_fs w')) (\<lambda>_ w'. ?S (w_fs w')) v"
    if "?S (w_fs v)" for v
    by (rule wp_remove_ignored) (use clean [OF that] in auto)
  show ?thesis
    unfolding restoreBackup_def wp_bindE wp_throwE
    by (rule wp_rename_ignored) (use inv in \<open>auto intro!: drop intro: moved\<close>)
qed

lemma backupOld_keeps:
  assumes inv: "in_place old backup staged dest d t0 (w_fs w)" "holds_content staged c (w_fs w)"
    and sep: "staged \<noteq> old" "staged \<noteq> backup" "old \<noteq> backup"
  shows "wp (backupOld E old backup staged)
    (\<lambda>_ w'. safe old backup staged dest d t0 (w_fs w') \<and> holds_content staged c (w_fs w'))
    (\<lambda>_ w'. safe old backup staged dest d t0 (w_fs w')) w"
proof -
  let ?I = "in_place old backup staged dest d t0"
  let ?S = "safe old backup staged dest d t0"
  let ?H = "holds_content staged c"
  have dropped: "?I t' \<and> ?H t'"
    if "?I t" "?H t" "maybe_removed backup t t'" for t t'
  proof -
    have "\<not> is_file t' backup"
      using that by (auto simp: in_place_def old_in_place_def dest: maybe_removed_no_file)
    with that(1,2) maybe_removed_other [OF that(3)] sep show ?thesis
      by (simp add: in_place_def old_in_place_def others_kept_def holds_content_def touched_def)
  qed
  have moved: "(r = Inr () \<longrightarrow> ?S t' \<and> ?H t') \<and> (\<forall>e. r = Inl e \<longrightarrow> ?I t')"
    if "?I t" "?H t" "osRename old backup t = (r, t')" for t t' r
  proof -
    have "fs_node t old = Some (FileNode d)" using that(1) by (simp add: in_place_def old_in_place_def)
    from osRename_file [OF that(3) this sep(3)] that(1,2) sep show ?thesis
      by (auto simp: in_place_def safe_def old_safe_def touched_def holds_content_def
          intro: others_kept_touch [unfolded touched_def])
  qed
  have clean: "?S t'" if "?I t" "maybe_removed staged t t'" for t t'
    by (rule safe_change [OF in_place_safe [OF that(1)] sep(1,2)]) (rule maybe_removed_other [OF that(2)])
  have rename: "wp (cleanupE E staged (renameE E old backup))
      (\<lambda>_ w'. ?S (w_fs w') \<and> ?H (w_fs w')) (\<lambda>_ w'. ?S (w_fs w')) v"
    if v: "?I (w_fs v)" "?H (w_fs v)" for v
    unfolding renameE_def
    by (intro wp_cleanupE wp_fsE allI impI) (use v in \<open>auto dest: moved clean\<close>)
  have drop: "wp (ignoreE (removeE E backup)) (\<lambda>_ w'. ?I (w_fs w') \<and> ?H (w_fs w')) (\<lambda>_ w'. ?S (w_fs w')) v"
    if "?I (w_fs v)" "?H (w_fs v)" for v
    by (rule wp_remove_ignored) (use dropped [OF that] in auto)
  show ?thesis
    unfolding backupOld_def wp_bindE
    by (rule wp_existsE)
       (use inv in \<open>auto simp: wp_returnE in_place_safe wp_bindE intro!: wp_mono [OF drop] rename\<close>)
qed

lemma replaceFile_keeps:
  assumes inv: "in_place old backup staged dest d t0 (w_fs w)" "holds_content staged c (w_fs w)"
    and sep: "staged \<noteq> old" "staged \<noteq> backup" "old \<noteq> backup" "dest \<noteq> backup" "dest \<noteq> staged"
  shows "wp (replaceFile E old backup staged dest)
    (\<lambda>_ w'. holds_content dest c (w_fs w') \<and> others_kept (touched old backup staged dest) t0 (w_fs w'))
    (\<lambda>_ w'. safe old backup staged dest d t0 (w_fs w')) w"
proof -
  let ?S = "safe old backup staged dest d t0"
  let ?H = "holds_content staged c"
  let ?D = "\<lambda>t. holds_content dest c t \<and> others_kept (touched old backup staged dest) t0 t"
  have restore: "wp (restoreBackup E backup old staged e) Q (\<lambda>_ w'. ?S (w_fs w')) v"
    if "?S (w_fs v)" for v e and Q :: "unit \<Rightarrow> _"
    using that sep by (intro restoreBackup_keeps)
  have moved: "(r = Inr () \<longrightarrow> ?D t') \<and> (\<forall>e. r = Inl e \<longrightarrow> ?S t')"
    if S: "?S t" and H: "?H t" and ren: "osRename staged dest t = (r, t')" for t t' r
  proof -
    obtain now where "fs_node t staged = Some (FileNode \<lparr>fd_content = c, fd_mtime = now\<rparr>)"
      using H by (auto simp: holds_content_def)
    from osRename_file [OF ren this] S sep show ?thesis
      by (auto simp: safe_def touched_def holds_content_def others_kept_def)
  qed
  have tidied: "?D t'" if "?D t" "maybe_removed backup t t'" for t t'
    using that(1) maybe_removed_other [OF that(2)] sep
    by (auto simp: holds_content_def touched_def others_kept_def)
  have finish: "wp (ignoreE (removeE E backup)) (\<lambda>_ w'. ?D (w_fs w')) (\<lambda>_ w'. ?S (w_fs w')) v"
    if "?D (w_fs v)" for v
    by (rule wp_remove_ignored) (use tidied [OF that] in auto)
  have commit: "wp (bindE (catchE (renameE E staged dest)
        (\<lambda>r. case r of Inl e \<Rightarrow> restoreBackup E backup old staged e | Inr _ \<Rightarrow> returnE ()))
        (\<lambda>_. ignoreE (removeE E backup))) (\<lambda>_ w'. ?D (w_fs w')) (\<lambda>_ w'. ?S (w_fs w')) v"
    if v: "?S (w_fs v)" "?H (w_fs v)" for v
    unfolding wp_bindE wp_catchE sum.case wp_returnE renameE_def
    by (rule wp_fsE) (use v in \<open>auto intro!: restore finish dest: moved\<close>)
  have check: "wp (bindE (if dest \<noteq> old then existsE E dest else returnE False) (\<lambda>taken.
        if taken then restoreBackup E backup old staged (OtherError ''mod file already exists'')
        else bindE (catchE (renameE E staged dest)
          (\<lambda>r. case r of Inl e \<Rightarrow> restoreBackup E backup old staged e | Inr _ \<Rightarrow> returnE ()))
          (\<lambda>_. ignoreE (removeE E backup)))) (\<lambda>_ w'. ?D (w_fs w')) (\<lambda>_ w'. ?S (w_fs w')) v"
    if v: "?S (w_fs v)" "?H (w_fs v)" for v
    using v commit [of v] commit [of "tick v"] unfolding wp_bindE wp_if wp_returnE
    by (auto intro!: wp_existsE restore)
  show ?thesis
    unfolding replaceFile_def wp_bindE [of "backupOld E old backup staged"]
    by (rule wp_mono [OF backupOld_keeps [OF inv sep(1-3)]]) (erule conjE, rule check, assumption+)
qed



end
