(* ===== verification/ModStore.thy ===== *)
theory ModStore
  imports ModFiles
begin

text \<open>
  \<open>internal/platform/modstorage/store.go\<close> over \<open>platform/atomicfile\<close>: the library of
  downloaded releases, one directory \<open>cache/mods/<mod>/<version>\<close> with the release's file and
  its \<open>metadata.json\<close>.  The JSON text is \<open>encoding/json\<close>'s and not modelled: a metadata file
  holds the record it encodes, whose field \<open>InstalledInstances\<close> is not written.
\<close>

abbreviation "metadataFile \<equiv> ''metadata.json''"

definition cacheRoot :: "string \<Rightarrow> string" where
  "cacheRoot dataRoot = JoinPath [dataRoot, ''cache'', ''mods'']"

definition storeRoot :: "env \<Rightarrow> string" where
  "storeRoot E = cacheRoot (ev_data_root E)"

definition safeSegment :: "string \<Rightarrow> string result" where
  "safeSegment value =
     (let t = TrimSpace value
      in if t = [] \<or> t = ''.'' \<or> t = ''..'' \<or> Base t \<noteq> t \<or> CHR ''/'' \<in> set t \<or> CHR 0x5C \<in> set t
         then Inl (NewError ErrValidation ''Invalid mod identifier'') else Inr t)"

definition metadataPath :: "string \<Rightarrow> string \<Rightarrow> string \<Rightarrow> string result" where
  "metadataPath base modID versionID =
     (case safeSegment modID of
        Inl e \<Rightarrow> Inl e
      | Inr m \<Rightarrow>
          (case safeSegment versionID of
             Inl e \<Rightarrow> Inl e
           | Inr v \<Rightarrow> Inr (JoinPath [base, m, v, metadataFile])))"

definition FilePath :: "string \<Rightarrow> string \<Rightarrow> string \<Rightarrow> string \<Rightarrow> string result" where
  "FilePath base modID versionID fileName =
     (case metadataPath base modID versionID of
        Inl e \<Rightarrow> Inl e
      | Inr path \<Rightarrow>
          (let name = Base (TrimSpace fileName)
           in if name = ''.'' \<or> name = [] then Inl (NewError ErrInvalidModFile ''Invalid mod file name'')
              else if \<not> isModFile name then Inl (NewError ErrInvalidModFile ''Unsupported mod file type'')
              else Inr (JoinPath [Dir path, name])))"

definition liftE :: "'a result \<Rightarrow> 'a act" where
  "liftE r = (case r of Inl e \<Rightarrow> throwE e | Inr x \<Rightarrow> returnE x)"

definition metadataValue :: "content \<Rightarrow> downloaded_mod result" where
  "metadataValue c =
     (case c of
        Blob _ \<Rightarrow> Inl (OtherError ''invalid character looking for beginning of value'')
      | ManifestJson _ \<Rightarrow> Inl (NewError ErrValidation ''Unsupported downloaded mod metadata'')
      | MarkerJson _ \<Rightarrow> Inl (NewError ErrValidation ''Unsupported downloaded mod metadata'')
      | ZipArchive _ \<Rightarrow> Inl (OtherError ''invalid character looking for beginning of value'')
      | MetadataJson v \<Rightarrow>
          (if dm_schema v \<noteq> 1 then Inl (NewError ErrValidation ''Unsupported downloaded mod metadata'')
           else Inr v))"

definition readMetadata :: "env \<Rightarrow> string \<Rightarrow> downloaded_mod act" where
  "readMetadata E path = bindE (readFileE E path) (\<lambda>c. liftE (metadataValue c))"

definition encodeMetadata :: "downloaded_mod \<Rightarrow> content" where
  "encodeMetadata v = MetadataJson (v\<lparr>dm_instances := []\<rparr>)"

text \<open>
  \<open>atomicfile.Write\<close>: the temporary file is written, synchronised and closed before the
  target is replaced in one step; the permissions and the directory are made durable after.
\<close>

definition atomicWrite :: "env \<Rightarrow> string \<Rightarrow> content \<Rightarrow> unit act" where
  "atomicWrite E path c =
     bindE (mkdirE E (Dir path)) (\<lambda>_.
     bindE (isDirE E (Dir path)) (\<lambda>safe.
       if \<not> safe then throwE (OtherError ''atomic file parent is not a safe directory'')
       else bindE
         (catchE (statE E path) (\<lambda>r. case r of
            Inr n \<Rightarrow> (if n = DirNode then throwE (OtherError ''atomic file target is not a regular file'')
                     else returnE ())
          | Inl e \<Rightarrow> (if isNotExist e then returnE () else throwE e))) (\<lambda>_.
       bindE (closeE E) (\<lambda>_.
       bindE (copyIntoE E path c) (\<lambda>_.
       closeE E)))))"

definition storeList :: "env \<Rightarrow> downloaded_mod list act" where
  "storeList E =
     catchE (readE E (\<lambda>w. Inr (filter (\<lambda>p. Base p = metadataFile) (walk_files (storeRoot E) (w_fs w)))))
       (\<lambda>r. case r of
          Inl e \<Rightarrow> (if isNotExist e then returnE [] else throwE e)
        | Inr paths \<Rightarrow>
            foldE (\<lambda>path found.
              bindE (catchE (closeE E) (\<lambda>r. case r of Inl _ \<Rightarrow> throwE CtxCanceled | Inr _ \<Rightarrow> returnE ())) (\<lambda>_.
              catchE (readMetadata E path) (\<lambda>r. case r of
                Inl _ \<Rightarrow> returnE found
              | Inr v \<Rightarrow> returnE (found @ [v\<lparr>dm_file_path := resolvePath (storeRoot E) (dm_file_path v)\<rparr>]))))
              paths [])"

definition storeGet :: "env \<Rightarrow> string \<Rightarrow> string \<Rightarrow> downloaded_mod act" where
  "storeGet E modID versionID =
     bindE (liftE (metadataPath (storeRoot E) modID versionID)) (\<lambda>path.
     catchE (readMetadata E path) (\<lambda>r. case r of
       Inl e \<Rightarrow> throwE (if isNotExist e
                       then NewError ErrModVersionNotFound ''Downloaded mod version not found'' else e)
     | Inr v \<Rightarrow> returnE (v\<lparr>dm_file_path := resolvePath (storeRoot E) (dm_file_path v)\<rparr>)))"

definition storeSave :: "env \<Rightarrow> downloaded_mod \<Rightarrow> unit act" where
  "storeSave E v =
     bindE (liftE (metadataPath (storeRoot E) (dm_mod_id v) (dm_version_id v))) (\<lambda>path.
     atomicWrite E path (encodeMetadata
       (v\<lparr>dm_file_path := storedPath (storeRoot E) (dm_file_path v)\<rparr>)))"

definition storeDelete :: "env \<Rightarrow> string \<Rightarrow> string \<Rightarrow> unit act" where
  "storeDelete E modID versionID =
     bindE (liftE (metadataPath (storeRoot E) modID versionID)) (\<lambda>path.
       if Dir (Dir (Clean (Dir path))) \<noteq> Clean (storeRoot E)
       then throwE (NewError ErrValidation ''Unsafe mod cache path'')
       else fsE E (\<lambda>t. (Inr (), osRemoveAll (Clean (Dir path)) t)))"

definition storeFilePath :: "env \<Rightarrow> string \<Rightarrow> string \<Rightarrow> string \<Rightarrow> string act" where
  "storeFilePath E modID versionID fileName = liftE (FilePath (storeRoot E) modID versionID fileName)"

text \<open>After a move of the data root: the paths under the old cache become relative.\<close>

definition RelocateOldRoot :: "env \<Rightarrow> string \<Rightarrow> unit act" where
  "RelocateOldRoot E oldRoot =
     (if oldRoot = [] then returnE ()
      else catchE (readE E (\<lambda>w. Inr (filter (\<lambda>p. Base p = metadataFile) (walk_files (storeRoot E) (w_fs w)))))
       (\<lambda>r. case r of
          Inl e \<Rightarrow> (if isNotExist e then returnE () else throwE e)
        | Inr paths \<Rightarrow>
            forE paths (\<lambda>path.
              bindE (catchE (closeE E) (\<lambda>r. case r of Inl _ \<Rightarrow> throwE CtxCanceled | Inr _ \<Rightarrow> returnE ())) (\<lambda>_.
              catchE (readMetadata E path) (\<lambda>r. case r of
                Inl _ \<Rightarrow> returnE ()
              | Inr v \<Rightarrow>
                  (if \<not> HasPrefix (dm_file_path v) (cacheRoot oldRoot @ ''/'') then returnE ()
                   else atomicWrite E path (encodeMetadata
                     (v\<lparr>dm_file_path := TrimPrefix (dm_file_path v) (cacheRoot oldRoot @ ''/'')\<rparr>))))))))"

section \<open>Frames\<close>

lemma evolves_liftE [evolve_rules]: "tick_free R \<Longrightarrow> evolves R (liftE r)"
  unfolding liftE_def by (auto intro!: evolve_rules)

lemma evolves_readMetadata [evolve_rules]: "tick_free R \<Longrightarrow> evolves R (readMetadata E p)"
  unfolding readMetadata_def by (auto intro!: evolve_rules)

lemma evolves_atomicWrite [evolve_rules]:
  "tick_free R \<Longrightarrow> ignores_fs R \<Longrightarrow> evolves R (atomicWrite E p c)"
  unfolding atomicWrite_def by (auto intro!: evolve_rules)

lemma evolves_storeList [evolve_rules]: "tick_free R \<Longrightarrow> evolves R (storeList E)"
  unfolding storeList_def by (auto intro!: evolve_rules)

lemma evolves_storeGet [evolve_rules]: "tick_free R \<Longrightarrow> evolves R (storeGet E m v)"
  unfolding storeGet_def by (auto intro!: evolve_rules)

lemma evolves_storeSave [evolve_rules]:
  "tick_free R \<Longrightarrow> ignores_fs R \<Longrightarrow> evolves R (storeSave E v)"
  unfolding storeSave_def by (auto intro!: evolve_rules)

lemma evolves_storeDelete [evolve_rules]:
  "tick_free R \<Longrightarrow> ignores_fs R \<Longrightarrow> evolves R (storeDelete E m v)"
  unfolding storeDelete_def by (auto intro!: evolve_rules)

lemma evolves_storeFilePath [evolve_rules]: "tick_free R \<Longrightarrow> evolves R (storeFilePath E m v f)"
  unfolding storeFilePath_def by (auto intro!: evolve_rules)

section \<open>Paths inside the library\<close>

text \<open>A path element that \<open>filepath.Clean\<close> keeps, and the absolute path of such elements.\<close>

definition plain :: "string \<Rightarrow> bool" where
  "plain e \<longleftrightarrow> e \<noteq> [] \<and> e \<noteq> ''.'' \<and> e \<noteq> ''..'' \<and> CHR ''/'' \<notin> set e"

definition abs_path :: "string list \<Rightarrow> string" where
  "abs_path es = CHR ''/'' # Join es ''/''"

lemma clean_elems_plain:
  "(\<forall>e \<in> set es. plain e) \<Longrightarrow> clean_elems b out es = rev out @ es"
  by (induction es arbitrary: out) (auto simp: plain_def)

lemma clean_elems_rooted_plain:
  "(\<forall>e \<in> set out. plain e) \<Longrightarrow> (\<forall>e \<in> set es. CHR ''/'' \<notin> set e) \<Longrightarrow>
     e \<in> set (clean_elems True out es) \<Longrightarrow> plain e"
  by (induction "True" out es rule: clean_elems.induct)
     (auto simp: plain_def split: list.splits if_splits)

lemma Split_abs: "(\<forall>e \<in> set es. plain e) \<Longrightarrow> es \<noteq> [] \<Longrightarrow> Split (abs_path es) (CHR ''/'') = [] # es"
  by (simp add: abs_path_def Split_Join plain_def)

lemma Clean_abs_path: "(\<forall>e \<in> set es. plain e) \<Longrightarrow> Clean (abs_path es) = abs_path es"
proof (cases "es = []")
  case True
  then show ?thesis by (simp add: abs_path_def Clean_def IsAbs_def HasPrefix_def)
next
  case False
  moreover assume plain: "\<forall>e \<in> set es. plain e"
  moreover have "IsAbs (abs_path es)" by (simp add: IsAbs_def abs_path_def HasPrefix_def)
  ultimately show ?thesis
    by (simp add: Clean_def Split_abs clean_elems_plain) (simp add: abs_path_def)
qed

lemma Clean_IsAbs:
  assumes "IsAbs p" obtains es where "Clean p = abs_path es" "\<forall>e \<in> set es. plain e"
proof
  let ?es = "clean_elems True [] (Split p (CHR ''/''))"
  show "Clean p = abs_path ?es" using assms by (simp add: Clean_def abs_path_def Let_def)
  show "\<forall>e \<in> set ?es. plain e"
    using clean_elems_rooted_plain [of "[]" "Split p (CHR ''/'')"] Split_no_sep by auto
qed

lemma Join_append:
  "xs \<noteq> [] \<Longrightarrow> ys \<noteq> [] \<Longrightarrow> Join (xs @ ys) sep = Join xs sep @ sep @ Join ys sep"
  by (induction xs rule: induct_list012) (auto simp: Join_Cons)

lemma plain_chars: "plain e \<Longrightarrow> e \<noteq> [] \<and> CHR ''/'' \<notin> set e"
  by (simp add: plain_def)

lemma JoinPath_abs:
  assumes "\<forall>e \<in> set es. plain e" "\<forall>e \<in> set fs. plain e" "es \<noteq> []" "fs \<noteq> []"
  shows "JoinPath (abs_path es # fs) = abs_path (es @ fs)"
proof -
  have "filter (\<lambda>e. e \<noteq> []) (abs_path es # fs) = abs_path es # fs"
    using assms(2) by (auto simp: filter_id_conv abs_path_def plain_def)
  moreover have "Join (abs_path es # fs) ''/'' = abs_path (es @ fs)"
    using assms(3,4) by (simp add: Join_Cons Join_append abs_path_def)
  ultimately show ?thesis
    using Clean_abs_path [of "es @ fs"] assms(1,2) by (simp add: JoinPath_def ball_Un)
qed

lemma after_last_append: "c \<notin> set e \<Longrightarrow> after_last c (p @ c # e) = e"
proof -
  assume "c \<notin> set e"
  then have "takeWhile (\<lambda>x. x \<noteq> c) (rev e @ c # rev p) = rev e"
    by (subst takeWhile_append2) auto
  then show ?thesis by (simp add: after_last_def)
qed

lemma Dir_abs_path:
  assumes "\<forall>e \<in> set es. plain e" "plain e" "es \<noteq> []"
  shows "Dir (abs_path (es @ [e])) = abs_path es"
proof -
  have p: "abs_path (es @ [e]) = abs_path es @ CHR ''/'' # e"
    using assms(3) by (simp add: Join_append abs_path_def)
  have "after_last (CHR ''/'') (abs_path (es @ [e])) = e"
    unfolding p using assms(2) by (intro after_last_append) (simp add: plain_def)
  then have dir: "Dir (abs_path (es @ [e])) = Clean (abs_path es @ ''/'')"
    by (simp add: Dir_def p)
  have abs: "IsAbs (abs_path es @ ''/'')" by (simp add: IsAbs_def abs_path_def HasPrefix_def)
  have "Split (Join es ''/'' @ ''/'') (CHR ''/'') = es @ [[]]"
  proof -
    have "Join es ''/'' @ ''/'' = Join (es @ [[]]) ''/''" using assms(3) by (simp add: Join_append)
    then show ?thesis using assms(1) by (simp only:) (rule Split_Join, auto simp: plain_def)
  qed
  then have "Split (abs_path es @ ''/'') (CHR ''/'') = [] # es @ [[]]" by (simp add: abs_path_def)
  moreover have "clean_elems True [] (es @ [[]]) = es"
  proof -
    have "clean_elems True out (es @ [[]]) = rev out @ es" for out
      using assms(1) by (induction es arbitrary: out) (auto simp: plain_def)
    then show ?thesis by simp
  qed
  ultimately show ?thesis unfolding dir Clean_def using abs by (simp add: abs_path_def)
qed

definition root_path :: "string \<Rightarrow> string list \<Rightarrow> bool" where
  "root_path base es \<longleftrightarrow> base = abs_path es \<and> es \<noteq> [] \<and> (\<forall>e \<in> set es. plain e)"

lemma cacheRoot_root:
  "root_path base es \<Longrightarrow> root_path (cacheRoot base) (es @ [''cache'', ''mods''])"
  unfolding root_path_def cacheRoot_def
  using JoinPath_abs [of es "[''cache'', ''mods'']"] by (auto simp: plain_def)

lemma safeSegment_plain: "safeSegment s = Inr t \<Longrightarrow> t = TrimSpace s \<and> plain t"
  by (auto simp: safeSegment_def plain_def Let_def split: if_splits)

lemma metadataPath_Inr:
  assumes "root_path base es" "metadataPath base m v = Inr p"
  shows "plain (TrimSpace m) \<and> plain (TrimSpace v) \<and>
    p = abs_path (es @ [TrimSpace m, TrimSpace v, metadataFile])"
proof -
  from assms(2) have p: "p = JoinPath [base, TrimSpace m, TrimSpace v, metadataFile]"
    and "plain (TrimSpace m)" "plain (TrimSpace v)"
    by (auto simp: metadataPath_def split: sum.splits dest: safeSegment_plain)
  moreover have "plain metadataFile" by (simp add: plain_def)
  ultimately show ?thesis
    using assms(1) JoinPath_abs [of es "[TrimSpace m, TrimSpace v, metadataFile]"]
    by (auto simp: root_path_def)
qed

lemma Dir_metadata:
  assumes "root_path base es" "plain m" "plain v"
  shows "Dir (abs_path (es @ [m, v, metadataFile])) = abs_path (es @ [m, v])"
proof -
  have "plain metadataFile" by (simp add: plain_def)
  then show ?thesis
    using assms Dir_abs_path [of "es @ [m, v]" metadataFile] by (auto simp: root_path_def)
qed

lemma isModFile_Base_plain: "isModFile (Base f) \<Longrightarrow> Base f \<noteq> [] \<Longrightarrow> Base f \<noteq> ''.'' \<Longrightarrow> plain (Base f)"
proof -
  assume m: "isModFile (Base f)" "Base f \<noteq> []" "Base f \<noteq> ''.''"
  have "\<not> isModFile ''..''" "\<not> isModFile ''/''"
    by (simp_all add: isModFile_def Ext_def after_last_def Let_def ToLower_def lower_char_def char_code_def)
  with m Base_no_slash [of f] show ?thesis by (auto simp: plain_def)
qed

lemma FilePath_Inr:
  assumes "root_path base es" "FilePath base m v f = Inr q"
  shows "\<exists>name. plain name \<and> isModFile name \<and> name \<noteq> metadataFile \<and>
     q = abs_path (es @ [TrimSpace m, TrimSpace v, name])"
proof -
  from assms(2) obtain p where p: "metadataPath base m v = Inr p" and q: "q = JoinPath [Dir p, Base (TrimSpace f)]"
    and name: "isModFile (Base (TrimSpace f))" "plain (Base (TrimSpace f))"
    by (auto simp: FilePath_def Let_def split: sum.splits if_splits intro: isModFile_Base_plain)
  note path = metadataPath_Inr [OF assms(1) p]
  then have "q = abs_path ((es @ [TrimSpace m, TrimSpace v]) @ [Base (TrimSpace f)])"
    unfolding q using assms(1) name Dir_metadata [OF assms(1)]
    by (subst JoinPath_abs [symmetric]) (auto simp: root_path_def)
  moreover have "\<not> isModFile metadataFile"
    by (simp add: isModFile_def Ext_def after_last_def Let_def ToLower_def lower_char_def char_code_def)
  ultimately show "\<exists>name. plain name \<and> isModFile name \<and> name \<noteq> metadataFile \<and>
      q = abs_path (es @ [TrimSpace m, TrimSpace v, name])"
    using name by auto
qed

text \<open>
  C39 (safety).  Every path the library computes from the identifiers and file names of a
  catalog lies in the directory of that release below the cache: no identifier or name
  escapes it, and the file is never the metadata file.
\<close>

theorem store_paths_confined:
  assumes "root_path base es"
  shows "(metadataPath base m v = Inr p \<longrightarrow>
      plain (TrimSpace m) \<and> plain (TrimSpace v) \<and>
      p = abs_path (es @ [TrimSpace m, TrimSpace v, metadataFile])) \<and>
    (FilePath base m v f = Inr q \<longrightarrow>
      (\<exists>name. plain name \<and> isModFile name \<and> name \<noteq> metadataFile \<and>
         q = abs_path (es @ [TrimSpace m, TrimSpace v, name])))"
proof (intro conjI impI)
  assume "metadataPath base m v = Inr p"
  from metadataPath_Inr [OF assms this]
  show "plain (TrimSpace m)" "plain (TrimSpace v)"
    "p = abs_path (es @ [TrimSpace m, TrimSpace v, metadataFile])" by auto
next
  assume "FilePath base m v f = Inr q"
  then show "\<exists>name. plain name \<and> isModFile name \<and> name \<noteq> metadataFile \<and>
      q = abs_path (es @ [TrimSpace m, TrimSpace v, name])"
    by (rule FilePath_Inr [OF assms])
qed

theorem store_paths_confined_witness:
  "metadataPath ''/d'' '' 42'' ''7'' = Inr ''/d/42/7/metadata.json'' \<and>
   ''/d/42/7/metadata.json'' = abs_path ([''d''] @ [TrimSpace '' 42'', TrimSpace ''7'', metadataFile])"
proof -
  have r: "root_path ''/d'' [''d'']" by (simp add: root_path_def abs_path_def plain_def)
  have m: "metadataPath ''/d'' '' 42'' ''7'' = Inr ''/d/42/7/metadata.json''"
    by (simp add: metadataPath_def safeSegment_def TrimSpace_def is_space_def char_code_def path_eval)
  with store_paths_confined [OF r, of "'' 42''" "''7''" "''/d/42/7/metadata.json''"] show ?thesis by blast
qed

section \<open>Saving, reading and deleting a release\<close>

lemma Clean_abs_extra:
  assumes "\<forall>e \<in> set es. plain e" "es \<noteq> []"
  shows "Clean (abs_path es @ ''/.'') = abs_path es"
proof -
  have abs: "IsAbs (abs_path es @ ''/.'')" by (simp add: IsAbs_def abs_path_def HasPrefix_def)
  have "Join es ''/'' @ ''/.'' = Join (es @ [''.'']) ''/''" using assms(2) by (simp add: Join_append)
  then have "Split (Join es ''/'' @ ''/.'') (CHR ''/'') = es @ [''.'']"
    using assms(1) by (simp only:) (rule Split_Join, auto simp: plain_def)
  then have "Split (abs_path es @ ''/.'') (CHR ''/'') = [] # es @ [''.'']" by (simp add: abs_path_def)
  moreover have "clean_elems True out (es @ [''.'']) = rev out @ es" for out
    using assms(1) by (induction es arbitrary: out) (auto simp: plain_def)
  ultimately show ?thesis unfolding Clean_def using abs by (simp add: abs_path_def)
qed

lemma below_abs_path:
  assumes "\<forall>e \<in> set es. plain e" "es \<noteq> []"
  shows "below (abs_path es) = abs_path es @ ''/''"
proof -
  have "Join es ''/'' \<noteq> []"
    using assms by (cases es; cases "tl es") (auto simp: plain_def)
  then show ?thesis by (simp add: below_def abs_path_def)
qed

lemma resolve_stored:
  assumes "root_path base es" "IsAbs p" "Clean p = p"
  shows "resolvePath base (storedPath base p) = p"
proof (cases "relInside base p")
  case None
  with assms show ?thesis by (simp add: storedPath_def resolvePath_def)
next
  case (Some rel)
  from assms(1) have base: "base = abs_path es" "\<forall>e \<in> set es. plain e" "es \<noteq> []"
    by (auto simp: root_path_def)
  then have below: "below base = base @ ''/''"
    by (simp add: below_abs_path)
  from Some assms(3) consider "p = base" "rel = ''.''" | "under base p" "rel = drop (length (below base)) p"
    by (auto simp: relInside_def split: if_splits)
  then show ?thesis
  proof cases
    case 1
    then have "resolvePath base rel = Clean (base @ ''/.'')"
      using base by (simp add: resolvePath_def JoinPath_def IsAbs_def HasPrefix_def abs_path_def)
    with 1 Some assms(2) base Clean_abs_extra [of es] show ?thesis
      by (auto simp: storedPath_def IsAbs_def HasPrefix_def)
  next
    case 2
    then obtain r where p: "p = base @ CHR ''/'' # r" "r \<noteq> []" "rel = r"
      by (auto simp: under_def below HasPrefix_iff)
    have "\<not> IsAbs r"
    proof
      assume "IsAbs r"
      then obtain r' where "r = CHR ''/'' # r'" by (cases r) (auto simp: IsAbs_def HasPrefix_def)
      with p have double: "p = base @ ''/'' @ ''/'' @ r'" by simp
      obtain ps where ps: "p = abs_path ps" "\<forall>e \<in> set ps. plain e"
        using Clean_IsAbs [OF assms(2)] assms(3) by metis
      have "[] \<in> set (Split (Join es ''/'' @ ''/'' @ ''/'' @ r') (CHR ''/''))"
      proof -
        have sp: "Split (Join es ''/'' @ CHR ''/'' # t) (CHR ''/'') = es @ Split t (CHR ''/'')" for t
          using base(2,3)
          by (induction es rule: induct_list012) (simp_all add: Split_append plain_def)
        show ?thesis using sp [of "CHR ''/'' # r'"] by simp
      qed
      moreover have "Join ps ''/'' = Join es ''/'' @ ''/'' @ ''/'' @ r'"
        using ps(1) double base(1) by (simp add: abs_path_def)
      moreover have "ps \<noteq> []" using calculation(2) by auto
      ultimately have "[] \<in> set ps"
        using Split_Join [of ps "CHR ''/''"] ps(2) by (simp add: plain_def)
      with ps(2) show False by (auto simp: plain_def)
    qed
    moreover have "base \<noteq> []" using base by (simp add: abs_path_def)
    ultimately have "resolvePath base r = Clean p"
      using p by (simp add: resolvePath_def JoinPath_def)
    with Some p assms(2,3) show ?thesis by (auto simp: storedPath_def IsAbs_def HasPrefix_def)
  qed
qed

lemma wp_closeE: "Q () (tick w) \<Longrightarrow> (\<And>e. X e (tick w)) \<Longrightarrow> wp (closeE E) Q X w"
  unfolding closeE_def by (rule wp_readE) auto

lemma wp_isDirE:
  "(\<And>b. (b \<Longrightarrow> is_dir (w_fs w) p) \<Longrightarrow> Q b (tick w)) \<Longrightarrow> wp (isDirE E p) Q X w"
  unfolding isDirE_def statE_def wp_catchE wp_returnE
  by (rule wp_readE) (auto simp: osStat_def is_dir_def split: option.splits)

lemma mkdir_kept: "osMkdirAll q t = (r, t') \<Longrightarrow> others_kept P t t'"
  by (auto simp: others_kept_def dest: osMkdirAll_keeps)

text \<open>What an atomic write leaves: everything that was there, and on success the new content.\<close>

lemma atomicWrite_effect:
  "wp (atomicWrite E p c)
     (\<lambda>_ w'. holds_content p c (w_fs w') \<and> others_kept {p} (w_fs w) (w_fs w'))
     (\<lambda>_ w'. others_kept {p} (w_fs w) (w_fs w')) w"
proof -
  let ?K = "\<lambda>v. others_kept {p} (w_fs w) (w_fs v)"
  have store: "wp (bindE (closeE E) (\<lambda>_. bindE (copyIntoE E p c) (\<lambda>_. closeE E)))
      (\<lambda>_ w'. holds_content p c (w_fs w') \<and> ?K w') (\<lambda>_ w'. ?K w') v" if "?K v" for v
    unfolding wp_bindE copyIntoE_def
    using that
    by (intro wp_closeE wp_fsNowE)
       (auto simp: writeContent_def holds_content_def others_kept_def)
  have target: "wp (bindE (catchE (statE E p) (\<lambda>r. case r of
            Inr n \<Rightarrow> (if n = DirNode then throwE (OtherError ''atomic file target is not a regular file'')
                     else returnE ())
          | Inl e \<Rightarrow> (if isNotExist e then returnE () else throwE e)))
        (\<lambda>_. bindE (closeE E) (\<lambda>_. bindE (copyIntoE E p c) (\<lambda>_. closeE E))))
      (\<lambda>_ w'. holds_content p c (w_fs w') \<and> ?K w') (\<lambda>_ w'. ?K w') v" if "?K v" for v
    using that store [of "tick v"] unfolding statE_def wp_bindE [of "catchE _ _"] wp_catchE
    by (intro wp_readE) (auto simp: wp_if wp_throwE wp_returnE)
  show ?thesis
    unfolding atomicWrite_def mkdirE_def wp_bindE [of "fsE E (osMkdirAll (Dir p))"]
      wp_bindE [of "isDirE E (Dir p)"]
    by (intro wp_fsE wp_isDirE)
       (auto simp: wp_if wp_throwE mkdir_kept intro!: target)
qed

definition fault_free :: "env \<Rightarrow> bool" where
  "fault_free E \<longleftrightarrow> (\<forall>n. ev_fault E n = None)"

lemma callE_ok: "ev_fault E (w_ticks w) = None \<Longrightarrow> callE E f w = f (tick w)"
  by (simp add: callE_def tick_def)

lemma readMetadata_ok:
  "ev_fault E (w_ticks w) = None \<Longrightarrow> holds_content p (MetadataJson v) (w_fs w) \<Longrightarrow> dm_schema v = 1 \<Longrightarrow>
     readMetadata E p w = (Inr v, tick w)"
  by (auto simp: readMetadata_def bindE_def readFileE_def readE_def callE_ok holds_content_def
      osReadFile_def liftE_def metadataValue_def)

text \<open>
  C38 (roundtrip).  A release saved in the library reads back as it was saved, its file at
  the same absolute path (the instances it is installed in are not part of the record);
  saving it, even when it fails, changes no other file or record of the disk.
\<close>

theorem storeSave_storeGet:
  assumes base: "root_path (storeRoot E) es" and run: "storeSave E v w = (r, w')"
  shows "(\<forall>q n. metadataPath (storeRoot E) (dm_mod_id v) (dm_version_id v) \<noteq> Inr q \<longrightarrow>
      fs_node (w_fs w) q = Some n \<longrightarrow> fs_node (w_fs w') q = Some n) \<and>
    (r = Inr () \<and> dm_schema v = 1 \<and> IsAbs (dm_file_path v) \<and> Clean (dm_file_path v) = dm_file_path v \<and>
       ev_fault E (w_ticks w') = None \<longrightarrow>
     fst (storeGet E (dm_mod_id v) (dm_version_id v) w') = Inr (v\<lparr>dm_instances := []\<rparr>))"
proof (cases "metadataPath (storeRoot E) (dm_mod_id v) (dm_version_id v)")
  case (Inl e)
  with run show ?thesis by (auto simp: storeSave_def liftE_def)
next
  case (Inr p)
  let ?v = "v\<lparr>dm_file_path := storedPath (storeRoot E) (dm_file_path v), dm_instances := []\<rparr>"
  have run': "atomicWrite E p (MetadataJson ?v) w = (r, w')"
    using run Inr by (simp add: storeSave_def liftE_def encodeMetadata_def)
  from atomicWrite_effect [of E p "MetadataJson ?v" w] run'
  have kept: "others_kept {p} (w_fs w) (w_fs w')"
    and new: "r = Inr () \<Longrightarrow> holds_content p (MetadataJson ?v) (w_fs w')"
    by (auto simp: wp_def split: sum.splits)
  have "fst (storeGet E (dm_mod_id v) (dm_version_id v) w') = Inr (v\<lparr>dm_instances := []\<rparr>)"
    if "r = Inr ()" "dm_schema v = 1" "IsAbs (dm_file_path v)" "Clean (dm_file_path v) = dm_file_path v"
      "ev_fault E (w_ticks w') = None"
    using readMetadata_ok [OF that(5) new [OF that(1)]] that Inr resolve_stored [OF base that(3,4)]
    by (simp add: storeGet_def liftE_def catchE_def)
  with kept Inr show ?thesis by (auto simp: others_kept_def)
qed

definition sampleRecord :: downloaded_mod where
  "sampleRecord = blankDownloadedMod\<lparr>dm_schema := 1, dm_mod_id := ''42'', dm_version_id := ''7'',
     dm_file_path := ''/x.zip''\<rparr>"

theorem storeSave_storeGet_witness:
  "\<exists>r w'. storeSave sampleEnv sampleRecord (sampleWorld [(''/'', DirNode)] []) = (r, w') \<and>
     fs_node (w_fs w') ''/'' = Some DirNode \<and>
     (r = Inr () \<longrightarrow> fst (storeGet sampleEnv ''42'' ''7'' w') = Inr sampleRecord)"
proof -
  obtain r w' where run: "storeSave sampleEnv sampleRecord (sampleWorld [(''/'', DirNode)] []) = (r, w')"
    by fastforce
  have "root_path (ev_data_root sampleEnv) [''d'']"
    by (simp add: root_path_def abs_path_def plain_def sampleEnv_def)
  then have base: "root_path (storeRoot sampleEnv) ([''d''] @ [''cache'', ''mods''])"
    unfolding storeRoot_def by (rule cacheRoot_root)
  have path: "metadataPath (storeRoot sampleEnv) ''42'' ''7'' \<noteq> Inr ''/''"
    using metadataPath_Inr [OF base, of "''42''" "''7''" "''/''"]
    by (auto simp: abs_path_def)
  have "dm_instances sampleRecord = []" by (simp add: sampleRecord_def blankDownloadedMod_def)
  then have same: "sampleRecord\<lparr>dm_instances := []\<rparr> = sampleRecord" by simp
  from storeSave_storeGet [OF base run] run path same show ?thesis
    by (auto simp: sampleRecord_def path_eval sampleEnv_def fs_node_def)
qed

definition release_dir :: "string list \<Rightarrow> string \<Rightarrow> string \<Rightarrow> string" where
  "release_dir es m v = abs_path (es @ [TrimSpace m, TrimSpace v])"

lemma release_dir_ok:
  assumes base: "root_path base es" and p: "metadataPath base m v = Inr p"
  shows "Clean (Dir p) = release_dir es m v \<and> Dir (Dir (Clean (Dir p))) = Clean base"
proof -
  from base have es: "\<forall>e \<in> set es. plain e" "es \<noteq> []" "base = abs_path es" by (auto simp: root_path_def)
  note path = metadataPath_Inr [OF base p]
  then have dir: "Dir p = abs_path ((es @ [TrimSpace m]) @ [TrimSpace v])"
    using Dir_metadata [OF base] by simp
  moreover have "Clean (abs_path ((es @ [TrimSpace m]) @ [TrimSpace v])) =
      abs_path ((es @ [TrimSpace m]) @ [TrimSpace v])"
    using es path by (intro Clean_abs_path) auto
  moreover have "Dir (abs_path ((es @ [TrimSpace m]) @ [TrimSpace v])) = abs_path (es @ [TrimSpace m])"
    using es path by (intro Dir_abs_path) auto
  moreover have "Dir (abs_path (es @ [TrimSpace m])) = abs_path es"
    using es path by (intro Dir_abs_path) auto
  ultimately show ?thesis using es Clean_abs_path [of es] by (simp add: release_dir_def)
qed

text \<open>
  Deleting a release from the library removes exactly its own directory: no
  path outside it changes on any outcome, after a success nothing of it is left, and only
  an invalid identifier or a failing disk refuses the deletion.
\<close>

theorem storeDelete_confined:
  assumes base: "root_path (storeRoot E) es" and run: "storeDelete E m v w = (r, w')"
  shows "(\<forall>q. q = release_dir es m v \<or> under (release_dir es m v) q \<or> fs_node (w_fs w') q = fs_node (w_fs w) q) \<and>
    (r = Inr () \<longrightarrow> (\<forall>q. q = release_dir es m v \<or> under (release_dir es m v) q \<longrightarrow> fs_node (w_fs w') q = None)) \<and>
    (\<forall>e. r = Inl e \<longrightarrow> w_fs w' = w_fs w \<and>
       (metadataPath (storeRoot E) m v = Inl e \<or> ev_fault E (w_ticks w) = Some e))"
proof (cases "metadataPath (storeRoot E) m v")
  case (Inl e)
  with run show ?thesis by (auto simp: storeDelete_def liftE_def)
next
  case (Inr p)
  from release_dir_ok [OF base Inr] run Inr show ?thesis
    by (auto simp: storeDelete_def liftE_def fsE_def callE_def osRemoveAll_node split: option.splits if_splits)
qed

theorem storeDelete_confined_witness:
  "\<exists>r w'. storeDelete sampleEnv ''42'' ''7''
       (sampleWorld [(''/'', DirNode), (''/d/cache/mods/42/7/a.zip'', sampleFile ''x'')] []) = (r, w') \<and>
     fs_node (w_fs w') ''/'' = Some DirNode"
proof -
  let ?w = "sampleWorld [(''/'', DirNode), (''/d/cache/mods/42/7/a.zip'', sampleFile ''x'')] []"
  obtain r w' where run: "storeDelete sampleEnv ''42'' ''7'' ?w = (r, w')" by fastforce
  have "root_path (ev_data_root sampleEnv) [''d'']"
    by (simp add: root_path_def abs_path_def plain_def sampleEnv_def)
  then have base: "root_path (storeRoot sampleEnv) ([''d''] @ [''cache'', ''mods''])"
    unfolding storeRoot_def by (rule cacheRoot_root)
  have "''/'' \<noteq> release_dir ([''d''] @ [''cache'', ''mods'']) ''42'' ''7''"
    "\<not> under (release_dir ([''d''] @ [''cache'', ''mods'']) ''42'' ''7'') ''/''"
    by (simp_all add: release_dir_def abs_path_def under_def below_def)
  with storeDelete_confined [OF base run] run show ?thesis by (auto simp: fs_node_def)
qed

end
