(* ===== verification/ModService.thy ===== *)
theory ModService
  imports ModStore
begin

text \<open>
  \<open>internal/mods/service.go\<close>: the installed mods of one instance.  An operation is the
  sequence of its port calls, inside \<open>withGate\<close> (\<open>gate.Begin\<close> with \<open>defer gate.End\<close>) and
  \<open>withLock\<close> (the instance's slot).  An error return carries the error; the value Go returns
  beside it is dropped.
\<close>

abbreviation "EventModDownloaded \<equiv> ''mod_downloaded''"
abbreviation "EventModRemoved \<equiv> ''mod_removed''"
abbreviation "ReasonBeforeModRemoval \<equiv> ''before_mod_removal''"
abbreviation "ReasonBeforeModUpdate \<equiv> ''before_mod_update''"

section \<open>Recognising local files\<close>

type_synonym mod_match = "mod_details \<times> mod_version"

definition matchStep ::
  "env \<Rightarrow> string \<Rightarrow> string \<Rightarrow> mod_summary \<Rightarrow> mod_match list \<Rightarrow> mod_match list act" where
  "matchStep E version fileName summary matches =
     catchE (CatalogGet E (ms_id summary)) (\<lambda>r. returnE (case r of
       Inl _ \<Rightarrow> matches
     | Inr details \<Rightarrow>
         (case pickLocalModVersion (md_versions details) version fileName of
            None \<Rightarrow> matches
          | Some selected \<Rightarrow>
              (if list_ex (\<lambda>(d, v). ms_id d @ '':'' @ mv_id v = ms_id details @ '':'' @ mv_id selected) matches
               then matches else matches @ [(details, selected)]))))"

text \<open>The answer is the match, or the reason why there is none.\<close>

definition matchLocalMod :: "env \<Rightarrow> string \<Rightarrow> string \<Rightarrow> string \<Rightarrow> (string + mod_match) act" where
  "matchLocalMod E modID version fileName =
     catchE (CatalogList E) (\<lambda>r. case r of
       Inl _ \<Rightarrow> returnE (Inl ''catalog_unavailable'')
     | Inr summaries \<Rightarrow>
         (if matchCandidates summaries modID = [] then returnE (Inl ''not_in_catalog'')
          else bindE (foldE (matchStep E version fileName) (matchCandidates summaries modID) [])
            (\<lambda>matches. returnE (case matches of
               [] \<Rightarrow> Inl ''version_not_found''
             | [m] \<Rightarrow> Inr m
             | _ \<Rightarrow> Inl ''ambiguous''))))"

definition matchLocalModForFile :: "env \<Rightarrow> string \<Rightarrow> mod_match option act" where
  "matchLocalModForFile E filePath =
     catchE (ReadModArchiveInfo E filePath) (\<lambda>r. case r of
       Inl _ \<Rightarrow> returnE None
     | Inr info \<Rightarrow>
         bindE (matchLocalMod E (ai_mod_id info) (ai_version info) (Base filePath))
           (\<lambda>m. returnE (case m of Inl _ \<Rightarrow> None | Inr x \<Rightarrow> Some x)))"

section \<open>Listing\<close>

definition samePath :: "string \<Rightarrow> string \<Rightarrow> bool" where
  "samePath left right \<longleftrightarrow> Clean left = Clean right"

fun findIndex :: "(nat \<Rightarrow> bool) \<Rightarrow> nat list \<Rightarrow> nat option" where
  "findIndex P [] = None"
| "findIndex P (i # is) = (if P i then Some i else findIndex P is)"

definition findDiscoveredMod :: "discovered_mod list \<Rightarrow> bool list \<Rightarrow> installed_mod \<Rightarrow> nat option" where
  "findDiscoveredMod discovered matched installed =
     (case findIndex (\<lambda>i. \<not> matched ! i \<and> samePath (disc_file_path (discovered ! i)) (im_file_path installed))
             [0..<length discovered] of
        Some i \<Rightarrow> Some i
      | None \<Rightarrow>
          findIndex (\<lambda>i. \<not> matched ! i \<and> EqualFold (disc_file_name (discovered ! i)) (im_file_name installed))
            [0..<length discovered])"

definition refreshMod :: "discovered_mod \<Rightarrow> time \<Rightarrow> installed_mod \<Rightarrow> installed_mod" where
  "refreshMod found now m =
     m\<lparr>im_file_name := disc_file_name found, im_file_path := disc_file_path found,
       im_enabled := disc_enabled found, im_size := disc_size found, im_updated_at := now\<rparr>"

definition reconcileRow ::
  "env \<Rightarrow> discovered_mod list \<Rightarrow> time \<Rightarrow> installed_mod \<Rightarrow> bool list \<Rightarrow> bool list act" where
  "reconcileRow E discovered now m matched =
     (case findDiscoveredMod discovered matched m of
        None \<Rightarrow> bindE (DeleteModRow E (im_id m)) (\<lambda>_. returnE matched)
      | Some i \<Rightarrow>
          bindE (SaveMod E (refreshMod (discovered ! i) now m)) (\<lambda>_. returnE (matched[i := True])))"

definition importedMod :: "string \<Rightarrow> string \<Rightarrow> time \<Rightarrow> discovered_mod \<Rightarrow> installed_mod" where
  "importedMod i instanceID now found =
     \<lparr>im_id = i, im_instance = instanceID, im_name = disc_name found, im_version = disc_version found,
      im_file_name = disc_file_name found, im_file_path = disc_file_path found,
      im_enabled = disc_enabled found, im_managed = False, im_source = ''local'', im_policy = [],
      im_size = disc_size found,
      im_installed_at = (if IsZero (disc_modified found) then now else disc_modified found),
      im_updated_at = now\<rparr>"

definition importDiscovered :: "env \<Rightarrow> string \<Rightarrow> time \<Rightarrow> discovered_mod \<times> bool \<Rightarrow> unit act" where
  "importDiscovered E instanceID now fm =
     (if snd fm then returnE ()
      else bindE (newIDE E) (\<lambda>i. SaveMod E (importedMod i instanceID now (fst fm))))"

definition reconcileMods :: "env \<Rightarrow> string \<Rightarrow> instance_ref \<Rightarrow> unit act" where
  "reconcileMods E instanceID inst =
     bindE (EnsureLayout E (ir_directory inst)) (\<lambda>_.
     bindE (ListModRows E instanceID) (\<lambda>mods.
     bindE (Scan E (ir_directory inst)) (\<lambda>discovered.
     bindE (nowE E) (\<lambda>now.
     bindE (foldE (reconcileRow E discovered now) mods (replicate (length discovered) False)) (\<lambda>matched.
     forE (zip discovered matched) (importDiscovered E instanceID now))))))"

definition ListMods :: "env \<Rightarrow> string \<Rightarrow> installed_mod list act" where
  "ListMods E instanceID = withGate
     (bindE (GetInstance E instanceID) (\<lambda>inst.
      bindE (isDirE E (ir_directory inst)) (\<lambda>present.
        if \<not> present then ListModRows E instanceID
        else bindE (reconcileMods E instanceID inst) (\<lambda>_. ListModRows E instanceID))))"

definition ListStoredMods :: "env \<Rightarrow> string \<Rightarrow> installed_mod list act" where
  "ListStoredMods E instanceID = ListModRows E instanceID"

definition SetUpdatePolicy :: "env \<Rightarrow> string \<Rightarrow> string \<Rightarrow> installed_mod act" where
  "SetUpdatePolicy E i policy =
     (if policy \<noteq> NormalizeUpdatePolicy policy
      then throwE (NewError ErrValidation ''Invalid mod update policy'')
      else bindE (GetMod E i) (\<lambda>m.
           bindE (nowE E) (\<lambda>now.
           bindE (SaveMod E (m\<lparr>im_policy := policy, im_updated_at := now\<rparr>)) (\<lambda>_.
           returnE (m\<lparr>im_policy := policy, im_updated_at := now\<rparr>)))))"

section \<open>Installing local files\<close>

definition linkedTo :: "mod_match \<Rightarrow> time \<Rightarrow> installed_mod \<Rightarrow> installed_mod" where
  "linkedTo match now m =
     m\<lparr>im_source := ModDBSource (ms_id (fst match)) (mv_id (snd match)), im_managed := True,
       im_version := mv_version (snd match), im_updated_at := now\<rparr>"

definition saveLinked :: "env \<Rightarrow> installed_mod \<Rightarrow> unit act" where
  "saveLinked E m = catchE (SaveMod E m) (\<lambda>r. case r of
     Inl _ \<Rightarrow> returnE ()
   | Inr _ \<Rightarrow> publishE (ModEvent ''mod:linked'' m))"

definition bindInstalledModToExistingCache :: "env \<Rightarrow> installed_mod \<Rightarrow> unit act" where
  "bindInstalledModToExistingCache E m =
     (if im_file_path m = [] then returnE ()
      else bindE (matchLocalModForFile E (im_file_path m)) (\<lambda>found.
        case found of
          None \<Rightarrow> returnE ()
        | Some match \<Rightarrow>
            catchE (storeGet E (ms_id (fst match)) (mv_id (snd match))) (\<lambda>r. case r of
              Inl _ \<Rightarrow> returnE ()
            | Inr _ \<Rightarrow> bindE (nowE E) (\<lambda>now. saveLinked E (linkedTo match now m)))))"

definition installOperation :: "string \<Rightarrow> string \<Rightarrow> time \<Rightarrow> operation" where
  "installOperation i instanceID now =
     (blankOperation i StatusRunning)\<lparr>op_type := ''mod_install'', op_resource := Some instanceID,
       op_title := ''Installing mod'', op_title_key := ''operation_installing_mod'',
       op_progress := 1 / 10, op_created := now, op_started := Some now\<rparr>"

definition failedInstall :: "operation \<Rightarrow> time \<Rightarrow> go_error \<Rightarrow> operation" where
  "failedInstall oper finished e =
     oper\<lparr>op_finished := Some finished, op_status := StatusFailed,
       op_error_code := Some ''MOD_INSTALL_FAILED'', op_error_message := Some (errorText e)\<rparr>"

definition completedInstall :: "operation \<Rightarrow> time \<Rightarrow> int \<Rightarrow> operation" where
  "completedInstall oper finished n =
     oper\<lparr>op_finished := Some finished, op_status := StatusCompleted, op_progress := 1,
       op_current_bytes := n, op_total_bytes := n\<rparr>"

definition localMod ::
  "string \<Rightarrow> string \<Rightarrow> string \<Rightarrow> string \<Rightarrow> string \<Rightarrow> string \<times> int \<Rightarrow> time \<Rightarrow> installed_mod" where
  "localMod i instanceID sourcePath name version installed finished =
     \<lparr>im_id = i, im_instance = instanceID,
      im_name = (if name = [] then TrimSuffix (Base sourcePath) (Ext sourcePath) else name),
      im_version = (if version = [] then ''unknown'' else version),
      im_file_name = Base (fst installed), im_file_path = fst installed, im_enabled = True,
      im_managed = False, im_source = ''local'', im_policy = [], im_size = snd installed,
      im_installed_at = finished, im_updated_at = finished\<rparr>"

definition recordInstall ::
  "env \<Rightarrow> operation \<Rightarrow> instance_ref \<Rightarrow> string \<Rightarrow> string \<Rightarrow> string \<Rightarrow> string \<times> int \<Rightarrow> time \<Rightarrow> operation act" where
  "recordInstall E oper inst sourcePath name version installed finished =
     bindE (newIDE E) (\<lambda>i.
     bindE (SaveMod E (localMod i (ir_id inst) sourcePath name version installed finished)) (\<lambda>_.
     bindE (bindInstalledModToExistingCache E (localMod i (ir_id inst) sourcePath name version installed finished)) (\<lambda>_.
     bindE (ignoreE (SaveOperationE E (completedInstall oper finished (snd installed)))) (\<lambda>_.
     bindE (publishE (ModEvent ''mod:installed'' (localMod i (ir_id inst) sourcePath name version installed finished))) (\<lambda>_.
     returnE (completedInstall oper finished (snd installed)))))))"

definition installModFile :: "env \<Rightarrow> instance_ref \<Rightarrow> string \<Rightarrow> string \<Rightarrow> string \<Rightarrow> operation act" where
  "installModFile E inst sourcePath name version =
     (if sourcePath = [] then throwE (NewError ErrValidation ''Select a mod file'')
      else bindE (nowE E) (\<lambda>now.
           bindE (newIDE E) (\<lambda>i.
           bindE (ignoreE (SaveOperationE E (installOperation i (ir_id inst) now))) (\<lambda>_.
           catchE (Install E sourcePath (ir_directory inst)) (\<lambda>r.
           bindE (nowE E) (\<lambda>finished.
             case r of
               Inl e \<Rightarrow>
                 bindE (ignoreE (SaveOperationE E (failedInstall (installOperation i (ir_id inst) now) finished e)))
                   (\<lambda>_. throwE e)
             | Inr installed \<Rightarrow>
                 recordInstall E (installOperation i (ir_id inst) now) inst sourcePath name version
                   installed finished))))))"

definition InstallModFile :: "env \<Rightarrow> string \<Rightarrow> string \<Rightarrow> string \<Rightarrow> string \<Rightarrow> operation act" where
  "InstallModFile E instanceID sourcePath name version = withGate
     (bindE (GetInstance E instanceID) (\<lambda>inst.
      withLock instanceID (installModFile E inst sourcePath name version)))"

definition installOne ::
  "env \<Rightarrow> instance_ref \<Rightarrow> string \<Rightarrow> install_mod_files_result \<Rightarrow> install_mod_files_result act" where
  "installOne E inst sourcePath result =
     (if sourcePath = []
      then returnE (result\<lparr>imf_failed := imf_failed result @ [\<lparr>ff_path = sourcePath, ff_error = ''empty path''\<rparr>]\<rparr>)
      else catchE (installModFile E inst sourcePath [] []) (\<lambda>r. returnE (case r of
        Inr _ \<Rightarrow> result\<lparr>imf_installed := imf_installed result @ [Base sourcePath]\<rparr>
      | Inl e \<Rightarrow>
          (if errIs e ModFileExistsError
           then result\<lparr>imf_skipped := imf_skipped result @ [Base sourcePath]\<rparr>
           else result\<lparr>imf_failed := imf_failed result @ [\<lparr>ff_path = sourcePath, ff_error = errorText e\<rparr>]\<rparr>))))"

definition InstallModFiles :: "env \<Rightarrow> string \<Rightarrow> string list \<Rightarrow> install_mod_files_result act" where
  "InstallModFiles E instanceID sourcePaths = withGate
     (if sourcePaths = [] then throwE (NewError ErrValidation ''Select at least one mod file'')
      else bindE (GetInstance E instanceID) (\<lambda>inst.
        withLock instanceID
          (bindE (foldE (installOne E inst) sourcePaths
                   \<lparr>imf_installed = [], imf_skipped = [], imf_failed = []\<rparr>) (\<lambda>result.
             if imf_installed result = [] \<and> imf_failed result \<noteq> []
             then throwE (NewError ErrInvalidModFile ''no mods were installed'')
             else returnE result))))"

definition SetModEnabled :: "env \<Rightarrow> string \<Rightarrow> bool \<Rightarrow> installed_mod act" where
  "SetModEnabled E i enabled = withGate
     (bindE (GetMod E i) (\<lambda>m.
      withLock (im_instance m)
        (bindE (GetInstance E (im_instance m)) (\<lambda>inst.
         bindE (SetEnabled E (im_file_path m) (ir_directory inst) enabled) (\<lambda>path.
         bindE (nowE E) (\<lambda>now.
         bindE (SaveMod E (m\<lparr>im_file_path := path, im_enabled := enabled, im_updated_at := now\<rparr>)) (\<lambda>_.
         bindE (publishE (ModEvent (if enabled then ''mod:enabled'' else ''mod:disabled'')
                  (m\<lparr>im_file_path := path, im_enabled := enabled, im_updated_at := now\<rparr>))) (\<lambda>_.
         returnE (m\<lparr>im_file_path := path, im_enabled := enabled, im_updated_at := now\<rparr>)))))))))"

section \<open>Frames\<close>

lemma evolves_matchLocalMod [evolve_rules]: "tick_free R \<Longrightarrow> evolves R (matchLocalMod E m v f)"
  unfolding matchLocalMod_def matchStep_def by (auto intro!: evolve_rules)

lemma evolves_matchLocalModForFile [evolve_rules]: "tick_free R \<Longrightarrow> evolves R (matchLocalModForFile E p)"
  unfolding matchLocalModForFile_def by (auto intro!: evolve_rules)

lemma evolves_reconcileMods [evolve_rules]:
  "tick_free R \<Longrightarrow> ignores_fs R \<Longrightarrow> ignores_rows R \<Longrightarrow> evolves R (reconcileMods E i inst)"
  unfolding reconcileMods_def reconcileRow_def importDiscovered_def
  by (auto intro!: evolve_rules)

lemma evolves_saveLinked [evolve_rules]:
  "tick_free R \<Longrightarrow> ignores_rows R \<Longrightarrow> ignores_output R \<Longrightarrow> evolves R (saveLinked E m)"
  unfolding saveLinked_def by (auto intro!: evolve_rules)

lemma evolves_bindInstalled [evolve_rules]:
  "tick_free R \<Longrightarrow> ignores_rows R \<Longrightarrow> ignores_output R \<Longrightarrow> evolves R (bindInstalledModToExistingCache E m)"
  unfolding bindInstalledModToExistingCache_def by (auto intro!: evolve_rules)

lemma evolves_installModFile [evolve_rules]:
  "tick_free R \<Longrightarrow> ignores_fs R \<Longrightarrow> ignores_rows R \<Longrightarrow> ignores_output R \<Longrightarrow> ignores_operations R \<Longrightarrow>
     evolves R (installModFile E inst s n v)"
  unfolding installModFile_def recordInstall_def by (auto intro!: evolve_rules)

lemma evolves_ListMods [evolve_rules]:
  "lock_closed R \<Longrightarrow> ignores_fs R \<Longrightarrow> ignores_rows R \<Longrightarrow> evolves R (ListMods E i)"
  unfolding ListMods_def by (auto intro!: evolve_rules)

lemma evolves_service_ops [evolve_rules]:
  assumes "lock_closed R" "ignores_fs R" "ignores_rows R" "ignores_output R" "ignores_operations R"
  shows "evolves R (InstallModFile E i s n v)"
    and "evolves R (InstallModFiles E i ss)"
    and "evolves R (SetModEnabled E i b)"
    and "evolves R (SetUpdatePolicy E i p)"
  unfolding InstallModFile_def InstallModFiles_def SetModEnabled_def SetUpdatePolicy_def installOne_def
  using assms by (auto intro!: evolve_rules)

end
