(* ===== verification/ModDeletion.thy ===== *)
theory ModDeletion
  imports ModService
begin

text \<open>
  The removal half of \<open>internal/mods/service.go\<close>: \<open>modDeletionSet\<close>, the previews and the
  removals.  The two maps of \<open>modDeletionSet\<close> are lists of entries in the order in which the
  loop fills them; the work list \<open>ordered\<close> is scanned by index while it grows, and
  \<open>deleting\<close> is always the set of its identifiers.
\<close>

section \<open>The deletion set\<close>

type_synonym requirements = "(string \<times> string list) list"
type_synonym provider_list = "(string \<times> installed_mod) list"

definition requiredOf :: "requirements \<Rightarrow> string \<Rightarrow> string list" where
  "requiredOf reqs i = concat (map snd (filter (\<lambda>(j, _). j = i) reqs))"

definition providerKey :: "string \<Rightarrow> string" where
  "providerKey dependencyID = ToLower (TrimSpace dependencyID)"

definition providersOf :: "provider_list \<Rightarrow> string \<Rightarrow> installed_mod list" where
  "providersOf provs key = map snd (filter (\<lambda>(k, _). k = key) provs)"

definition stillRequiredByOther ::
  "installed_mod list \<Rightarrow> string list \<Rightarrow> requirements \<Rightarrow> string \<Rightarrow> bool" where
  "stillRequiredByOther mods deleting reqs dependencyID =
     list_ex (\<lambda>m. im_id m \<notin> set deleting \<and>
                 list_ex (\<lambda>required. EqualFold required dependencyID) (requiredOf reqs (im_id m))) mods"

definition addProvider :: "installed_mod \<Rightarrow> installed_mod list \<Rightarrow> installed_mod list" where
  "addProvider provider ordered =
     (if im_id provider \<in> im_id ` set ordered then ordered else ordered @ [provider])"

definition deleteDependency ::
  "installed_mod list \<Rightarrow> requirements \<Rightarrow> provider_list \<Rightarrow> string \<Rightarrow> installed_mod list \<Rightarrow> installed_mod list" where
  "deleteDependency mods reqs provs dependencyID ordered =
     (if providersOf provs (providerKey dependencyID) = [] \<or>
         stillRequiredByOther mods (map im_id ordered) reqs dependencyID
      then ordered
      else fold addProvider (providersOf provs (providerKey dependencyID)) ordered)"

text \<open>What a step may append: providers with identifiers that are new and distinct.\<close>

definition extends :: "provider_list \<Rightarrow> installed_mod list \<Rightarrow> installed_mod list \<Rightarrow> bool" where
  "extends provs xs ys \<longleftrightarrow> (\<exists>zs. ys = xs @ zs \<and> set zs \<subseteq> snd ` set provs \<and>
     distinct (map im_id zs) \<and> im_id ` set zs \<inter> im_id ` set xs = {})"

lemma extends_refl [simp]: "extends provs xs xs"
  by (simp add: extends_def)

lemma extends_trans:
  assumes "extends provs xs ys" "extends provs ys zs" shows "extends provs xs zs"
proof -
  from assms obtain us vs where "ys = xs @ us" "zs = ys @ vs" and
    "set us \<subseteq> snd ` set provs" "distinct (map im_id us)" "im_id ` set us \<inter> im_id ` set xs = {}"
    "set vs \<subseteq> snd ` set provs" "distinct (map im_id vs)" "im_id ` set vs \<inter> im_id ` set ys = {}"
    by (auto simp: extends_def)
  then show ?thesis
    unfolding extends_def by (intro exI [of _ "us @ vs"]) auto
qed

lemma extends_addProvider: "p \<in> snd ` set provs \<Longrightarrow> extends provs xs (addProvider p xs)"
  by (auto simp: extends_def addProvider_def)

lemma extends_fold:
  "(\<And>x ys. x \<in> set xs \<Longrightarrow> extends provs ys (f x ys)) \<Longrightarrow> extends provs ys (fold f xs ys)"
proof (induction xs arbitrary: ys)
  case (Cons x xs)
  then show ?case by (auto intro: extends_trans [of provs ys "f x ys"])
qed simp

lemma set_providersOf: "set (providersOf provs key) = {m. (key, m) \<in> set provs}"
  by (force simp: providersOf_def)

lemma extends_deleteDependency: "extends provs xs (deleteDependency mods reqs provs d xs)"
  unfolding deleteDependency_def
  by (auto intro!: extends_fold extends_addProvider simp: set_providersOf) force

definition deleteAt ::
  "installed_mod list \<Rightarrow> requirements \<Rightarrow> provider_list \<Rightarrow> nat \<Rightarrow> installed_mod list \<Rightarrow> installed_mod list" where
  "deleteAt mods reqs provs index ordered =
     fold (deleteDependency mods reqs provs) (requiredOf reqs (im_id (ordered ! index))) ordered"

lemma extends_deleteAt: "extends provs xs (deleteAt mods reqs provs i xs)"
  unfolding deleteAt_def by (rule extends_fold) (rule extends_deleteDependency)

definition deletion_measure :: "provider_list \<Rightarrow> nat \<Rightarrow> installed_mod list \<Rightarrow> nat" where
  "deletion_measure provs i ordered =
     2 * card (im_id ` snd ` set provs - im_id ` set ordered) + (length ordered - i)"

lemma deletion_measure_less:
  assumes "i < length ordered" "extends provs ordered ordered'"
  shows "deletion_measure provs (Suc i) ordered' < deletion_measure provs i ordered"
proof -
  let ?P = "im_id ` snd ` set provs"
  from assms(2) obtain zs where zs: "ordered' = ordered @ zs" "set zs \<subseteq> snd ` set provs"
    "distinct (map im_id zs)" "im_id ` set zs \<inter> im_id ` set ordered = {}"
    by (auto simp: extends_def)
  have "?P - im_id ` set ordered' = (?P - im_id ` set ordered) - im_id ` set zs"
    using zs(1) by auto
  moreover have "im_id ` set zs \<subseteq> ?P - im_id ` set ordered" using zs(2,4) by blast
  moreover have "card (im_id ` set zs) = length zs"
    using zs(3) by (metis distinct_card length_map list.set_map)
  ultimately have "card (?P - im_id ` set ordered') = card (?P - im_id ` set ordered) - length zs"
    and "length zs \<le> card (?P - im_id ` set ordered)"
    by (simp_all add: card_Diff_subset) (metis card_mono finite_Diff finite_imageI finite_set)
  with assms(1) zs(1) show ?thesis by (simp add: deletion_measure_def)
qed

function deletionLoop ::
  "installed_mod list \<Rightarrow> requirements \<Rightarrow> provider_list \<Rightarrow> nat \<Rightarrow> installed_mod list \<Rightarrow> installed_mod list" where
  "deletionLoop mods reqs provs index ordered =
     (if index < length ordered
      then deletionLoop mods reqs provs (Suc index) (deleteAt mods reqs provs index ordered)
      else ordered)"
  by pat_completeness auto
termination
  by (relation "measure (\<lambda>(mods, reqs, provs, index, ordered). deletion_measure provs index ordered)")
     (simp_all add: deletion_measure_less extends_deleteAt)

declare deletionLoop.simps [simp del]

text \<open>Reading the archives of the installed mods fills the two maps.\<close>

definition graphStep ::
  "env \<Rightarrow> installed_mod \<Rightarrow> requirements \<times> provider_list \<Rightarrow> (requirements \<times> provider_list) act" where
  "graphStep E m g =
     catchE (ReadModArchiveInfo E (im_file_path m)) (\<lambda>r. returnE (case r of
       Inl _ \<Rightarrow> g
     | Inr info \<Rightarrow>
         (if TrimSpace (ai_mod_id info) = [] then g
          else (fst g @ [(im_id m, filter (\<lambda>d. \<not> isBuiltInModDependency d) (map fst (ai_dependencies info)))],
                snd g @ [(providerKey (ai_mod_id info), m)]))))"

definition modDeletionSet :: "env \<Rightarrow> installed_mod \<Rightarrow> installed_mod list act" where
  "modDeletionSet E target =
     bindE (ListModRows E (im_instance target)) (\<lambda>mods.
     bindE (foldE (graphStep E) mods ([], [])) (\<lambda>g.
     returnE (deletionLoop mods (fst g) (snd g) 0 [target])))"

section \<open>Removing\<close>

definition removeInstalledMod :: "env \<Rightarrow> installed_mod \<Rightarrow> unit act" where
  "removeInstalledMod E m =
     bindE (catchE (removeE E (im_file_path m)) (\<lambda>r. case r of
       Inl e \<Rightarrow> (if isNotExist e then returnE () else throwE e)
     | Inr _ \<Rightarrow> returnE ())) (\<lambda>_.
     bindE (DeleteModRow E (im_id m)) (\<lambda>_.
     bindE (publishE (ModRemovedEvent (im_id m) (im_instance m))) (\<lambda>_.
     reportEvent E EventModRemoved)))"

definition removeInstalledMods :: "env \<Rightarrow> string \<Rightarrow> installed_mod list \<Rightarrow> unit act" where
  "removeInstalledMods E instanceID toDelete = withLock instanceID
     (bindE (createSnapshot E instanceID ReasonBeforeModRemoval (length toDelete)) (\<lambda>_.
      forE toDelete (removeInstalledMod E)))"

definition deletionTargets :: "env \<Rightarrow> bool \<Rightarrow> installed_mod \<Rightarrow> installed_mod list act" where
  "deletionTargets E deleteDependencies m =
     (if deleteDependencies then modDeletionSet E m else returnE [m])"

definition DeleteMod :: "env \<Rightarrow> string \<Rightarrow> bool \<Rightarrow> unit act" where
  "DeleteMod E i deleteDependencies = withGate
     (bindE (GetMod E i) (\<lambda>m.
      bindE (deletionTargets E deleteDependencies m) (\<lambda>toDelete.
      removeInstalledMods E (im_instance m) toDelete)))"

definition collectRemoval ::
  "env \<Rightarrow> instance_ref \<Rightarrow> bool \<Rightarrow> string \<Rightarrow> string list \<times> installed_mod list \<Rightarrow> (string list \<times> installed_mod list) act" where
  "collectRemoval E inst deleteDependencies rawID acc =
     (if TrimSpace rawID = [] \<or> TrimSpace rawID \<in> set (fst acc) then returnE acc
      else bindE (GetMod E (TrimSpace rawID)) (\<lambda>m.
        if im_instance m \<noteq> ir_id inst
        then throwE (NewError ErrValidation ''The selected mod does not belong to this instance'')
        else bindE (deletionTargets E deleteDependencies m) (\<lambda>ms.
          returnE (TrimSpace rawID # fst acc, snd acc @ ms))))"

definition RemoveMods :: "env \<Rightarrow> string \<Rightarrow> string list \<Rightarrow> bool \<Rightarrow> unit act" where
  "RemoveMods E instanceID modIDs deleteDependencies = withGate
     (if modIDs = [] then throwE (NewError ErrValidation ''Select at least one mod to remove'')
      else bindE (GetInstance E instanceID) (\<lambda>inst.
        bindE (foldE (collectRemoval E inst deleteDependencies) modIDs ([], [])) (\<lambda>acc.
          if snd acc = [] then returnE ()
          else removeInstalledMods E (ir_id inst) (snd acc))))"

definition ModDeletePreview :: "env \<Rightarrow> string \<Rightarrow> mod_delete_preview act" where
  "ModDeletePreview E i =
     bindE (GetMod E i) (\<lambda>m.
     bindE (modDeletionSet E m) (\<lambda>toDelete.
     returnE \<lparr>pv_mod_id = im_id m, pv_mod_name = im_name m, pv_dependencies = tl toDelete\<rparr>))"

section \<open>What the deletion set holds\<close>

lemma extends_deletionLoop: "extends provs ordered (deletionLoop mods reqs provs index ordered)"
proof (induction mods reqs provs index ordered rule: deletionLoop.induct)
  case (1 mods reqs provs index ordered)
  show ?case
  proof (cases "index < length ordered")
    case True
    from extends_trans [OF extends_deleteAt 1 [OF True]] True show ?thesis
      by (simp add: deletionLoop.simps [of _ _ _ index])
  next
    case False
    then show ?thesis by (simp add: deletionLoop.simps)
  qed
qed

definition kept :: "installed_mod list \<Rightarrow> installed_mod list \<Rightarrow> installed_mod set" where
  "kept mods ordered = {m \<in> set mods. im_id m \<notin> im_id ` set ordered}"

lemma extends_ids: "extends provs xs ys \<Longrightarrow> im_id ` set xs \<subseteq> im_id ` set ys"
  by (auto simp: extends_def)

lemma extends_kept: "extends provs xs ys \<Longrightarrow> kept mods ys \<subseteq> kept mods xs"
  using extends_ids [of provs xs ys] unfolding kept_def by blast

lemma stillRequired_iff:
  "stillRequiredByOther mods (map im_id ordered) reqs d \<longleftrightarrow>
     (\<exists>m \<in> kept mods ordered. \<exists>r \<in> set (requiredOf reqs (im_id m)). EqualFold r d)"
  by (auto simp: stillRequiredByOther_def kept_def list_ex_iff)

text \<open>
  Safety: whatever is appended provides a dependency that no mod outside the set requires,
  as long as required identifiers carry no surrounding white space (the code compares them
  untrimmed).
\<close>

definition unbroken :: "installed_mod list \<Rightarrow> requirements \<Rightarrow> provider_list \<Rightarrow> installed_mod \<Rightarrow> installed_mod list \<Rightarrow> bool" where
  "unbroken mods reqs provs target ordered \<longleftrightarrow>
     (\<forall>d \<in> set ordered. im_id d \<noteq> im_id target \<longrightarrow>
        (\<exists>key. (key, d) \<in> set provs \<and>
           (\<forall>m \<in> kept mods ordered. \<forall>r \<in> set (requiredOf reqs (im_id m)). providerKey r \<noteq> key)))"

lemma unbroken_mono:
  assumes "unbroken mods reqs provs target xs" "extends provs xs (xs @ zs)"
    and "\<And>d. d \<in> set zs \<Longrightarrow> \<exists>key. (key, d) \<in> set provs \<and>
           (\<forall>m \<in> kept mods (xs @ zs). \<forall>r \<in> set (requiredOf reqs (im_id m)). providerKey r \<noteq> key)"
  shows "unbroken mods reqs provs target (xs @ zs)"
  using assms extends_kept [OF assms(2), of mods] unfolding unbroken_def by fastforce

definition trimmed :: "requirements \<Rightarrow> bool" where
  "trimmed reqs \<longleftrightarrow> (\<forall>(i, ds) \<in> set reqs. \<forall>d \<in> set ds. TrimSpace d = d)"

lemma trimmed_requiredOf: "trimmed reqs \<Longrightarrow> r \<in> set (requiredOf reqs i) \<Longrightarrow> TrimSpace r = r"
  by (fastforce simp: trimmed_def requiredOf_def)

lemma fold_addProvider_new:
  "\<exists>zs. fold addProvider ps xs = xs @ zs \<and> set zs \<subseteq> set ps"
proof (induction ps arbitrary: xs)
  case (Cons p ps)
  obtain zs where "fold addProvider ps (addProvider p xs) = addProvider p xs @ zs" "set zs \<subseteq> set ps"
    using Cons by blast
  moreover have "addProvider p xs = xs \<or> addProvider p xs = xs @ [p]" by (simp add: addProvider_def)
  ultimately show ?case by fastforce
qed simp

lemma unbroken_deleteDependency:
  assumes "unbroken mods reqs provs target xs" "trimmed reqs" "TrimSpace d = d"
  shows "unbroken mods reqs provs target (deleteDependency mods reqs provs d xs)"
proof (cases "providersOf provs (providerKey d) = [] \<or> stillRequiredByOther mods (map im_id xs) reqs d")
  case True
  then show ?thesis using assms by (simp add: deleteDependency_def)
next
  case False
  obtain zs where zs: "fold addProvider (providersOf provs (providerKey d)) xs = xs @ zs"
    "set zs \<subseteq> set (providersOf provs (providerKey d))"
    using fold_addProvider_new by blast
  have result: "deleteDependency mods reqs provs d xs = xs @ zs"
    using False zs(1) by (simp add: deleteDependency_def)
  have ext: "extends provs xs (xs @ zs)" using extends_deleteDependency result by metis
  have free: "providerKey r \<noteq> providerKey d" if "m \<in> kept mods xs" "r \<in> set (requiredOf reqs (im_id m))" for m r
  proof
    assume "providerKey r = providerKey d"
    then have "EqualFold r d"
      using trimmed_requiredOf [OF assms(2) that(2)] assms(3) by (simp add: providerKey_def EqualFold_def)
    with that False show False by (auto simp: stillRequired_iff)
  qed
  show ?thesis
    unfolding result
  proof (rule unbroken_mono [OF assms(1) ext])
    fix x assume "x \<in> set zs"
    with zs(2) have "(providerKey d, x) \<in> set provs" by (auto simp: set_providersOf)
    moreover have "\<forall>m \<in> kept mods (xs @ zs). \<forall>r \<in> set (requiredOf reqs (im_id m)). providerKey r \<noteq> providerKey d"
      using free extends_kept [OF ext, of mods] by blast
    ultimately show "\<exists>key. (key, x) \<in> set provs \<and>
        (\<forall>m \<in> kept mods (xs @ zs). \<forall>r \<in> set (requiredOf reqs (im_id m)). providerKey r \<noteq> key)"
      by blast
  qed
qed

lemma unbroken_fold:
  assumes "unbroken mods reqs provs target xs" "trimmed reqs" "\<forall>d \<in> set ds. TrimSpace d = d"
  shows "unbroken mods reqs provs target (fold (deleteDependency mods reqs provs) ds xs)"
  using assms by (induction ds arbitrary: xs) (auto intro: unbroken_deleteDependency)

lemma unbroken_loop:
  assumes "unbroken mods reqs provs target ordered" "trimmed reqs"
  shows "unbroken mods reqs provs target (deletionLoop mods reqs provs index ordered)"
  using assms
proof (induction mods reqs provs index ordered rule: deletionLoop.induct)
  case (1 mods reqs provs index ordered)
  have "unbroken mods reqs provs target (deleteAt mods reqs provs index ordered)"
    unfolding deleteAt_def using 1(2,3) by (intro unbroken_fold) (auto dest: trimmed_requiredOf)
  with 1 show ?case by (subst deletionLoop.simps) auto
qed

text \<open>
  Completeness: a dependency of a mod already processed is gone with its providers, or a
  mod that has not been processed still requires it.
\<close>

definition settled ::
  "installed_mod list \<Rightarrow> requirements \<Rightarrow> provider_list \<Rightarrow> string set \<Rightarrow> installed_mod list \<Rightarrow> string \<Rightarrow> bool" where
  "settled mods reqs provs processed ordered dep \<longleftrightarrow>
     im_id ` set (providersOf provs (providerKey dep)) \<subseteq> im_id ` set ordered \<or>
     (\<exists>m \<in> set mods. im_id m \<notin> processed \<and>
        (\<exists>r \<in> set (requiredOf reqs (im_id m)). EqualFold r dep))"

lemma EqualFold_providerKey: "EqualFold r d \<Longrightarrow> providerKey r = providerKey d"
  by (simp add: EqualFold_def providerKey_def ToLower_TrimSpace)

lemma settled_fold: "EqualFold r dep \<Longrightarrow> settled mods reqs provs P xs r \<Longrightarrow> settled mods reqs provs P xs dep"
  unfolding settled_def using EqualFold_providerKey EqualFold_trans by metis

lemma settled_extends:
  "settled mods reqs provs P xs dep \<Longrightarrow> extends provs xs ys \<Longrightarrow> settled mods reqs provs P ys dep"
  unfolding settled_def by (metis extends_ids subset_trans)

lemma settled_deleteDependency:
  assumes "P \<subseteq> im_id ` set xs"
  shows "settled mods reqs provs P (deleteDependency mods reqs provs d xs) d"
proof (cases "providersOf provs (providerKey d) = [] \<or> stillRequiredByOther mods (map im_id xs) reqs d")
  case True
  then show ?thesis
    using assms by (auto simp: settled_def deleteDependency_def stillRequired_iff kept_def)
next
  case False
  have "im_id ` set ps \<subseteq> im_id ` set (fold addProvider ps ys)" for ps ys
  proof (induction ps arbitrary: ys)
    case (Cons p ps)
    have "extends (map (\<lambda>m. ([], m)) (p # ps)) (addProvider p ys) (fold addProvider ps (addProvider p ys))"
      by (rule extends_fold) (auto intro!: extends_addProvider simp: image_image)
    then have "im_id ` set (addProvider p ys) \<subseteq> im_id ` set (fold addProvider ps (addProvider p ys))"
      by (rule extends_ids)
    moreover have "im_id p \<in> im_id ` set (addProvider p ys)" by (auto simp: addProvider_def)
    ultimately show ?case using Cons [of "addProvider p ys"] by auto
  qed simp
  with False show ?thesis by (simp add: settled_def deleteDependency_def)
qed

lemma settled_fold_deps:
  assumes "P \<subseteq> im_id ` set xs" "d \<in> set ds"
  shows "settled mods reqs provs P (fold (deleteDependency mods reqs provs) ds xs) d"
  using assms
proof (induction ds arbitrary: xs)
  case (Cons e ds)
  let ?ys = "deleteDependency mods reqs provs e xs"
  have P: "P \<subseteq> im_id ` set ?ys"
    using Cons.prems(1) extends_ids [OF extends_deleteDependency] by blast
  have rest: "extends provs ?ys (fold (deleteDependency mods reqs provs) ds ?ys)"
    by (rule extends_fold) (rule extends_deleteDependency)
  show ?case
  proof (cases "d = e")
    case True
    with settled_extends [OF settled_deleteDependency [OF Cons.prems(1)] rest] show ?thesis by simp
  next
    case False
    with Cons.IH [OF P] Cons.prems(2) show ?thesis by simp
  qed
qed simp

definition settled_upto ::
  "installed_mod list \<Rightarrow> requirements \<Rightarrow> provider_list \<Rightarrow> nat \<Rightarrow> installed_mod list \<Rightarrow> bool" where
  "settled_upto mods reqs provs i ordered \<longleftrightarrow>
     (\<forall>x \<in> set (take i ordered). \<forall>dep \<in> set (requiredOf reqs (im_id x)).
        settled mods reqs provs (im_id ` set (take i ordered)) ordered dep)"

lemma settled_upto_step:
  assumes "settled_upto mods reqs provs i ordered" "i < length ordered"
  shows "settled_upto mods reqs provs (Suc i) (deleteAt mods reqs provs i ordered)"
proof -
  let ?new = "deleteAt mods reqs provs i ordered"
  let ?P = "im_id ` set (take i ordered)"
  let ?x = "ordered ! i"
  have ext: "extends provs ordered ?new" by (rule extends_deleteAt)
  then obtain zs where "?new = ordered @ zs" by (auto simp: extends_def)
  then have take: "take (Suc i) ?new = take i ordered @ [?x]"
    using assms(2) by (simp add: take_Suc_conv_app_nth)
  have P: "insert (im_id ?x) ?P \<subseteq> im_id ` set ordered"
    using assms(2) by (auto dest: in_set_takeD)
  have own: "settled mods reqs provs (insert (im_id ?x) ?P) ?new d" if "d \<in> set (requiredOf reqs (im_id ?x))" for d
    unfolding deleteAt_def by (rule settled_fold_deps [OF P that])
  have "settled mods reqs provs (insert (im_id ?x) ?P) ?new dep"
    if "settled mods reqs provs ?P ordered dep" for dep
  proof -
    from settled_extends [OF that ext]
    consider "im_id ` set (providersOf provs (providerKey dep)) \<subseteq> im_id ` set ?new"
      | m r where "m \<in> set mods" "im_id m \<notin> ?P" "r \<in> set (requiredOf reqs (im_id m))" "EqualFold r dep"
      unfolding settled_def by blast
    then show ?thesis
    proof cases
      case 1
      then show ?thesis by (simp add: settled_def)
    next
      case 2
      show ?thesis
      proof (cases "im_id m = im_id ?x")
        case True
        with 2 own show ?thesis by (auto intro: settled_fold)
      next
        case False
        with 2 show ?thesis by (auto simp: settled_def)
      qed
    qed
  qed
  with own assms(1) show ?thesis unfolding settled_upto_def take by auto
qed

lemma settled_loop:
  "settled_upto mods reqs provs i ordered \<Longrightarrow>
     settled_upto mods reqs provs (length (deletionLoop mods reqs provs i ordered))
       (deletionLoop mods reqs provs i ordered)"
proof (induction mods reqs provs i ordered rule: deletionLoop.induct)
  case (1 mods reqs provs i ordered)
  show ?case
  proof (cases "i < length ordered")
    case True
    from 1(1) [OF True settled_upto_step [OF 1(2) True]] True show ?thesis
      by (simp add: deletionLoop.simps [of _ _ _ i])
  next
    case False
    with 1(2) show ?thesis by (simp add: deletionLoop.simps [of _ _ _ i] settled_upto_def)
  qed
qed

section \<open>The graph of the installed mods\<close>

text \<open>
  What the archives declare: a mod's identity and dependencies, when its archive can be read
  and names an identifier.
\<close>

definition declared :: "env \<Rightarrow> fs \<Rightarrow> installed_mod \<Rightarrow> archive_info option" where
  "declared E t m =
     (case osReadFile (im_file_path m) t of
        Inl _ \<Rightarrow> None
      | Inr c \<Rightarrow>
          (case ev_archive E c of
             Inl _ \<Rightarrow> None
           | Inr info \<Rightarrow> (if TrimSpace (ai_mod_id info) = [] then None else Some info)))"

definition requires :: "env \<Rightarrow> fs \<Rightarrow> installed_mod \<Rightarrow> string \<Rightarrow> bool" where
  "requires E t m d \<longleftrightarrow>
     (\<exists>info. declared E t m = Some info \<and> d \<in> fst ` set (ai_dependencies info) \<and> \<not> isBuiltInModDependency d)"

definition provides :: "env \<Rightarrow> fs \<Rightarrow> installed_mod \<Rightarrow> string \<Rightarrow> bool" where
  "provides E t m key \<longleftrightarrow> (\<exists>info. declared E t m = Some info \<and> providerKey (ai_mod_id info) = key)"

definition graphOf :: "env \<Rightarrow> fs \<Rightarrow> installed_mod list \<Rightarrow> requirements \<times> provider_list" where
  "graphOf E t mods =
     (List.map_filter (\<lambda>m. map_option (\<lambda>info. (im_id m,
          filter (\<lambda>d. \<not> isBuiltInModDependency d) (map fst (ai_dependencies info)))) (declared E t m)) mods,
      List.map_filter (\<lambda>m. map_option (\<lambda>info. (providerKey (ai_mod_id info), m)) (declared E t m)) mods)"

lemma map_filter_append: "List.map_filter f (xs @ ys) = List.map_filter f xs @ List.map_filter f ys"
  by (simp add: map_filter_def)

lemma graphStep_run:
  assumes "fault_free E"
  shows "graphStep E m (graphOf E (w_fs w) ms) w = (Inr (graphOf E (w_fs w) (ms @ [m])), tick w)"
proof -
  have nf: "ev_fault E n = None" for n using assms by (simp add: fault_free_def)
  show ?thesis
    by (auto simp: graphStep_def ReadModArchiveInfo_def catchE_def readE_def callE_ok nf graphOf_def
        map_filter_append map_filter_simps declared_def emptyArchiveInfo_def
        split: sum.splits archive_error.splits elim!: archiveFailure.elims)
qed

lemma graph_run:
  assumes "fault_free E"
  shows "\<exists>w'. foldE (graphStep E) ms (graphOf E (w_fs w) done) w =
      (Inr (graphOf E (w_fs w) (done @ ms)), w') \<and> w_fs w' = w_fs w"
proof (induction ms arbitrary: "done" w)
  case (Cons m ms)
  from Cons [of "tick w" "done @ [m]"] graphStep_run [OF assms, of m w "done"] show ?case
    by (auto simp: bindE_def)
qed simp

lemma set_map_filter: "set (List.map_filter f xs) = {y. \<exists>x \<in> set xs. f x = Some y}"
  by (force simp: map_filter_def)

lemma requiredOf_graph:
  assumes "distinct (map im_id mods)" "m \<in> set mods"
  shows "set (requiredOf (fst (graphOf E t mods)) (im_id m)) = {d. requires E t m d}"
proof -
  have same: "x = m" if "x \<in> set mods" "im_id x = im_id m" for x
    using assms that by (meson distinct_map inj_onD)
  have entries: "(i, ds) \<in> set (fst (graphOf E t mods)) \<longleftrightarrow>
      (\<exists>x \<in> set mods. \<exists>info. i = im_id x \<and> declared E t x = Some info \<and>
         ds = filter (\<lambda>d. \<not> isBuiltInModDependency d) (map fst (ai_dependencies info)))" for i ds
    by (auto simp: graphOf_def set_map_filter)
  have req: "d \<in> set (requiredOf (fst (graphOf E t mods)) (im_id m)) \<longleftrightarrow>
      (\<exists>ds. (im_id m, ds) \<in> set (fst (graphOf E t mods)) \<and> d \<in> set ds)" for d
    by (force simp: requiredOf_def)
  show ?thesis
  proof (intro set_eqI iffI)
    fix d assume "d \<in> set (requiredOf (fst (graphOf E t mods)) (im_id m))"
    then obtain x info where "x \<in> set mods" "im_id m = im_id x" "declared E t x = Some info"
      "d \<in> fst ` set (ai_dependencies info)" "\<not> isBuiltInModDependency d"
      unfolding req entries by auto
    with same [of x] show "d \<in> {d. requires E t m d}" by (auto simp: requires_def)
  next
    fix d assume "d \<in> {d. requires E t m d}"
    then obtain info where info: "declared E t m = Some info" "d \<in> fst ` set (ai_dependencies info)"
      "\<not> isBuiltInModDependency d" by (auto simp: requires_def)
    then have "(im_id m, filter (\<lambda>d. \<not> isBuiltInModDependency d) (map fst (ai_dependencies info)))
        \<in> set (fst (graphOf E t mods))"
      unfolding entries using assms(2) by blast
    then show "d \<in> set (requiredOf (fst (graphOf E t mods)) (im_id m))"
      unfolding req using info by (intro exI conjI) (assumption, simp)
  qed
qed

lemma providersOf_graph:
  "set (providersOf (snd (graphOf E t mods)) key) = {m \<in> set mods. provides E t m key}"
  by (auto simp: set_providersOf graphOf_def set_map_filter provides_def)

lemma trimmed_graph:
  "(\<And>m d. m \<in> set mods \<Longrightarrow> requires E t m d \<Longrightarrow> TrimSpace d = d) \<Longrightarrow> trimmed (fst (graphOf E t mods))"
  by (auto simp: trimmed_def graphOf_def set_map_filter requires_def)

definition rows_wf :: "installed_mod list \<Rightarrow> bool" where
  "rows_wf rows \<longleftrightarrow> distinct (map im_id rows)"

lemma distinct_rowsOf: "rows_wf rows \<Longrightarrow> distinct (map im_id (rowsOf base i rows))"
proof -
  assume "rows_wf rows"
  then have "distinct (map im_id (filter (\<lambda>r. im_instance r = i) rows))"
    by (auto simp: rows_wf_def distinct_map intro: inj_on_subset)
  then have "distinct (map im_id (sort_key im_name (filter (\<lambda>r. im_instance r = i) rows)))"
    by (simp add: distinct_map)
  then show ?thesis by (simp add: rowsOf_def comp_def scanMod_def)
qed

text \<open>
  C1 (functional).  The set of mods a deletion with dependencies removes starts with the
  chosen mod and adds installed providers, each once.  It is safe: no mod that stays requires
  anything an added mod provides (for dependency identifiers without surrounding white
  space).  It is complete: a dependency of a removed mod stays only when a mod that stays
  requires it.  The work list always comes to an end.
\<close>

theorem modDeletionSet_exact:
  fixes E w target
  defines "mods \<equiv> rowsOf (ev_data_root E) (im_instance target) (w_rows w)"
    and "t \<equiv> w_fs w"
  assumes "fault_free E" "rows_wf (w_rows w)"
  shows "\<exists>ordered w'. modDeletionSet E target w = (Inr ordered, w') \<and>
    hd ordered = target \<and> distinct (map im_id ordered) \<and> set (tl ordered) \<subseteq> set mods \<and>
    ((\<forall>m \<in> set mods. \<forall>d. requires E t m d \<longrightarrow> TrimSpace d = d) \<longrightarrow>
       (\<forall>x \<in> set (tl ordered). \<exists>key. provides E t x key \<and>
          (\<forall>m \<in> kept mods ordered. \<forall>d. requires E t m d \<longrightarrow> providerKey d \<noteq> key))) \<and>
    (\<forall>x \<in> set mods. im_id x \<in> im_id ` set ordered \<longrightarrow>
       (\<forall>d p. requires E t x d \<and> p \<in> set mods \<and> provides E t p (providerKey d) \<longrightarrow>
          im_id p \<in> im_id ` set ordered \<or>
          (\<exists>m \<in> kept mods ordered. \<exists>r. requires E t m r \<and> EqualFold r d)))"
proof -
  let ?g = "graphOf E t mods"
  let ?reqs = "fst ?g" and ?provs = "snd ?g"
  let ?L = "deletionLoop mods ?reqs ?provs 0 [target]"
  have dist: "distinct (map im_id mods)" unfolding mods_def by (rule distinct_rowsOf [OF assms(4)])
  have nf: "ev_fault E n = None" for n using assms(3) by (simp add: fault_free_def)
  have rows: "ListModRows E (im_instance target) w = (Inr mods, tick w)"
    by (simp add: ListModRows_def readE_def callE_ok nf mods_def)
  obtain w' where graph: "foldE (graphStep E) mods ([], []) (tick w) = (Inr ?g, w')"
    using graph_run [OF assms(3), of mods "tick w" "[]"]
    by (auto simp: graphOf_def map_filter_simps t_def)
  have run: "modDeletionSet E target w = (Inr ?L, w')"
    by (simp add: modDeletionSet_def bindE_def rows graph)
  obtain zs where L: "?L = target # zs" and zs: "set zs \<subseteq> snd ` set ?provs"
    "distinct (map im_id zs)" "im_id target \<notin> im_id ` set zs"
    using extends_deletionLoop [of ?provs "[target]" mods ?reqs 0] by (auto simp: extends_def)
  have "snd ` set ?provs \<subseteq> set mods" by (auto simp: graphOf_def set_map_filter)
  with zs(1) have zs_mods: "set zs \<subseteq> set mods" by blast
  have safe: "\<exists>key. provides E t x key \<and>
      (\<forall>m \<in> kept mods ?L. \<forall>d. requires E t m d \<longrightarrow> providerKey d \<noteq> key)"
    if trim: "\<forall>m \<in> set mods. \<forall>d. requires E t m d \<longrightarrow> TrimSpace d = d" and x: "x \<in> set zs" for x
  proof -
    have "trimmed ?reqs" by (rule trimmed_graph) (use trim in blast)
    moreover have "unbroken mods ?reqs ?provs target [target]" by (simp add: unbroken_def)
    ultimately have "unbroken mods ?reqs ?provs target ?L" by (intro unbroken_loop)
    moreover have "x \<in> set ?L" using x L by simp
    moreover have "im_id x \<noteq> im_id target" using x zs(3) by (metis imageI)
    ultimately obtain key where key: "(key, x) \<in> set ?provs"
      "\<forall>m \<in> kept mods ?L. \<forall>r \<in> set (requiredOf ?reqs (im_id m)). providerKey r \<noteq> key"
      unfolding unbroken_def by blast
    moreover have "provides E t x key" using key(1) by (auto simp: graphOf_def set_map_filter provides_def)
    moreover have "set (requiredOf ?reqs (im_id m)) = {d. requires E t m d}" if "m \<in> kept mods ?L" for m
      using that by (intro requiredOf_graph [OF dist]) (simp add: kept_def)
    ultimately show ?thesis by blast
  qed
  have complete: "im_id p \<in> im_id ` set ?L \<or> (\<exists>m \<in> kept mods ?L. \<exists>r. requires E t m r \<and> EqualFold r d)"
    if "x \<in> set mods" "im_id x \<in> im_id ` set ?L" "requires E t x d" "p \<in> set mods" "provides E t p (providerKey d)" for x d p
  proof -
    have "settled_upto mods ?reqs ?provs 0 [target]" by (simp add: settled_upto_def)
    then have "settled_upto mods ?reqs ?provs (length ?L) ?L" by (rule settled_loop)
    moreover from that(2) obtain y where "y \<in> set ?L" "im_id y = im_id x" by auto
    moreover have "d \<in> set (requiredOf ?reqs (im_id x))"
      using requiredOf_graph [OF dist that(1)] that(3) by simp
    ultimately have "settled mods ?reqs ?provs (im_id ` set ?L) ?L d"
      by (auto simp: settled_upto_def)
    moreover have "p \<in> set (providersOf ?provs (providerKey d))"
      using that(4,5) by (simp add: providersOf_graph)
    ultimately show ?thesis
      unfolding settled_def kept_def using requiredOf_graph [OF dist] by blast
  qed
  show ?thesis
    by (intro exI [of _ ?L] exI [of _ w'] conjI)
       (use run L zs zs_mods safe complete in \<open>simp_all\<close>)
qed

text \<open>
  An instance with three mods: \<open>a\<close> requires \<open>b\<close> and the game, \<open>b\<close> requires \<open>c\<close>.
\<close>

definition chainMod :: "string \<Rightarrow> installed_mod" where
  "chainMod x = blankInstalledMod\<lparr>im_id := x, im_instance := ''i'', im_name := x, im_file_path := ''/i/'' @ x,
     im_policy := UpdatePolicyAutomatic\<rparr>"

definition chainEnv :: env where
  "chainEnv = sampleEnv\<lparr>ev_archive := (\<lambda>c. Inr (
     if c = Blob ''a'' then \<lparr>ai_mod_id = ''A'', ai_name = ''A'', ai_version = ''1'', ai_dependencies = [(''b'', ''1''), (''game'', ''1'')]\<rparr>
     else if c = Blob ''b'' then \<lparr>ai_mod_id = ''B'', ai_name = ''B'', ai_version = ''1'', ai_dependencies = [(''c'', ''1'')]\<rparr>
     else \<lparr>ai_mod_id = ''C'', ai_name = ''C'', ai_version = ''1'', ai_dependencies = []\<rparr>))\<rparr>"

definition chainWorld :: mods_world where
  "chainWorld = sampleWorld
     [(''/i'', DirNode), (''/i/a'', sampleFile ''a''), (''/i/b'', sampleFile ''b''), (''/i/c'', sampleFile ''c'')]
     [chainMod ''a'', chainMod ''b'', chainMod ''c'']"

lemma chain_facts:
  "fault_free chainEnv" "rows_wf (w_rows chainWorld)"
  by (simp_all add: fault_free_def chainEnv_def sampleEnv_def rows_wf_def chainWorld_def chainMod_def)

lemma chain_deletes: "fst (modDeletionSet chainEnv (chainMod ''a'') chainWorld) = Inr [chainMod ''a'', chainMod ''b'', chainMod ''c'']"
  by code_simp

lemma chain_delete_run: "fst (DeleteMod chainEnv ''a'' True chainWorld) = Inr ()"
  by code_simp

theorem modDeletionSet_exact_witness:
  "\<exists>ordered w'. modDeletionSet chainEnv (chainMod ''a'') chainWorld = (Inr ordered, w') \<and>
     hd ordered = chainMod ''a'' \<and> distinct (map im_id ordered) \<and> map im_id ordered = [''a'', ''b'', ''c'']"
  using modDeletionSet_exact [OF chain_facts, of "chainMod ''a''"] chain_deletes
  by (auto simp: chainMod_def)

section \<open>What a removal does\<close>

lemma evolves_modDeletionSet [evolve_rules]: "tick_free R \<Longrightarrow> evolves R (modDeletionSet E m)"
  unfolding modDeletionSet_def graphStep_def by (auto intro!: evolve_rules)

lemma evolves_deletionTargets [evolve_rules]: "tick_free R \<Longrightarrow> evolves R (deletionTargets E b m)"
  unfolding deletionTargets_def by (auto intro!: evolve_rules)

lemma evolves_removeInstalledMod [evolve_rules]:
  "tick_free R \<Longrightarrow> ignores_fs R \<Longrightarrow> ignores_rows R \<Longrightarrow> ignores_output R \<Longrightarrow>
     evolves R (removeInstalledMod E m)"
  unfolding removeInstalledMod_def by (auto intro!: evolve_rules)

lemma evolves_collectRemoval [evolve_rules]: "tick_free R \<Longrightarrow> evolves R (collectRemoval E inst b i acc)"
  unfolding collectRemoval_def by (auto intro!: evolve_rules)

lemma evolves_removal_ops [evolve_rules]:
  assumes "lock_closed R" "ignores_fs R" "ignores_rows R" "ignores_output R" "ignores_snapshots R"
  shows "evolves R (DeleteMod E i b)"
    and "evolves R (RemoveMods E i ms b)"
    and "evolves R (ModDeletePreview E i)"
  unfolding DeleteMod_def RemoveMods_def ModDeletePreview_def removeInstalledMods_def
  using assms by (auto intro!: evolve_rules)

lemma removeInstalledMods_protected:
  assumes "untouched v w"
  shows "wp (removeInstalledMods E i ms)
    (\<lambda>_. one_snapshot i ReasonBeforeModRemoval v)
    (\<lambda>_ w'. untouched v w' \<or> one_snapshot i ReasonBeforeModRemoval v w') w"
  unfolding removeInstalledMods_def
  by (rule wp_withLock)
     (use assms in \<open>auto intro!: wp_snapshot_then evolve_rules\<close>)

lemma DeleteMod_wp:
  "wp (DeleteMod E i b)
     (\<lambda>_ w'. \<exists>inst. one_snapshot inst ReasonBeforeModRemoval w w')
     (\<lambda>_ w'. untouched w w' \<or> (\<exists>inst. one_snapshot inst ReasonBeforeModRemoval w w')) w"
proof -
  let ?X = "\<lambda>_ w'. untouched w w' \<or> (\<exists>inst. one_snapshot inst ReasonBeforeModRemoval w w')"
  have remove: "wp (removeInstalledMods E j ms) (\<lambda>_ w'. \<exists>inst. one_snapshot inst ReasonBeforeModRemoval w w') ?X u"
    if "untouched w u" for j ms u
    by (rule wp_mono [OF removeInstalledMods_protected [OF that]]) auto
  have collect: "wp (deletionTargets E b m)
      (\<lambda>ms. wp (removeInstalledMods E (im_instance m) ms) (\<lambda>_ w'. \<exists>inst. one_snapshot inst ReasonBeforeModRemoval w w') ?X)
      ?X u" if "untouched w u" for m u
  proof -
    have ev: "evolves untouched (deletionTargets E b m)"
      by (auto intro!: evolve_rules)
    show ?thesis
      by (rule wp_mono [OF wp_evolves_trans [OF ev _ that]]) (auto intro!: remove)
  qed
  have get: "evolves untouched (GetMod E i)" by (auto intro!: evolve_rules)
  show ?thesis
    unfolding DeleteMod_def
    by (rule wp_withGate)
       (auto simp: wp_bindE intro!: wp_mono [OF wp_evolves_trans [OF get, of w]] wp_mono [OF collect])
qed

lemma RemoveMods_wp:
  "wp (RemoveMods E i ids b)
     (\<lambda>_ w'. untouched w w' \<or> (\<exists>inst. one_snapshot inst ReasonBeforeModRemoval w w'))
     (\<lambda>_ w'. untouched w w' \<or> (\<exists>inst. one_snapshot inst ReasonBeforeModRemoval w w')) w"
proof -
  let ?X = "\<lambda>w'. untouched w w' \<or> (\<exists>inst. one_snapshot inst ReasonBeforeModRemoval w w')"
  have remove: "wp (removeInstalledMods E j ms) (\<lambda>_. ?X) (\<lambda>_. ?X) u" if "untouched w u" for j ms u
    by (rule wp_mono [OF removeInstalledMods_protected [OF that]]) auto
  have ev: "evolves untouched (foldE (collectRemoval E inst b) ids ([], []))" for inst
    by (auto intro!: evolve_rules)
  have collect: "wp (foldE (collectRemoval E inst b) ids ([], []))
      (\<lambda>acc. wp (if snd acc = [] then returnE () else removeInstalledMods E (ir_id inst) (snd acc)) (\<lambda>_. ?X) (\<lambda>_. ?X))
      (\<lambda>_. ?X) u" if "untouched w u" for inst u
    by (rule wp_mono [OF wp_evolves_trans [OF ev _ that]]) (auto simp: wp_returnE intro!: remove)
  have get: "evolves untouched (GetInstance E i)" by (auto intro!: evolve_rules)
  show ?thesis
    unfolding RemoveMods_def
    by (rule wp_withGate)
       (auto simp: wp_bindE wp_throwE intro!: wp_mono [OF wp_evolves_trans [OF get, of w]] wp_mono [OF collect])
qed


lemma osRemove_absent: "osRemove p t = (Inl e, t') \<Longrightarrow> isNotExist e \<Longrightarrow> fs_node t p = None"
  by (auto simp: osRemove_def isNotExist_def split: option.splits node.splits if_splits)

lemma removeInstalledMod_run:
  assumes "fault_free E" "removeInstalledMod E m w = (Inr (), w')"
  shows "fs_node (w_fs w') q = (if q = im_file_path m then None else fs_node (w_fs w) q) \<and>
    w_rows w' = filter (\<lambda>r. im_id r \<noteq> im_id m) (w_rows w)"
proof -
  have nf: "ev_fault E n = None" for n using assms(1) by (simp add: fault_free_def)
  obtain r t where rem: "osRemove (im_file_path m) (w_fs w) = (r, t)" by fastforce
  have ok: "r = Inr () \<or> (\<exists>e. r = Inl e \<and> isNotExist e)"
    using assms(2) rem
    by (cases r) (simp_all add: removeInstalledMod_def bindE_def catchE_def removeE_def fsE_def callE_ok nf
        split: if_splits)
  have node: "fs_node t q = (if q = im_file_path m then None else fs_node (w_fs w) q)"
  proof (cases r)
    case (Inr x)
    then show ?thesis using osRemove_node [OF rem, of q] by simp
  next
    case (Inl e)
    then have "t = w_fs w" using rem osRemove_Inl by blast
    moreover have "fs_node (w_fs w) (im_file_path m) = None"
      using rem ok Inl osRemove_absent by blast
    ultimately show ?thesis by simp
  qed
  have "w_fs w' = t \<and> w_rows w' = filter (\<lambda>r. im_id r \<noteq> im_id m) (w_rows w)"
    using assms(2) rem ok
    by (auto simp: removeInstalledMod_def bindE_def catchE_def removeE_def fsE_def callE_ok nf
        DeleteModRow_def publishE_def reportEvent_def tick_def split: if_splits)
  with node show ?thesis by simp
qed

lemma removeInstalledMods_run:
  assumes "fault_free E" "forE ms (removeInstalledMod E) w = (Inr (), w')"
  shows "fs_node (w_fs w') q = (if q \<in> im_file_path ` set ms then None else fs_node (w_fs w) q) \<and>
    w_rows w' = filter (\<lambda>r. im_id r \<notin> im_id ` set ms) (w_rows w)"
  using assms(2)
proof (induction ms arbitrary: w)
  case (Cons m ms)
  from Cons.prems obtain w1 where w1: "removeInstalledMod E m w = (Inr (), w1)"
    and rest: "forE ms (removeInstalledMod E) w1 = (Inr (), w')"
    by (auto dest!: bindE_InrD)
  from Cons.IH [OF rest] removeInstalledMod_run [OF assms(1) w1, of q] show ?case
    by (cases "q = im_file_path m") (simp_all add: filter_filter conj_commute)
qed simp

text \<open>
  When nothing fails, a deletion removes exactly its set of mods, the chosen
  mod among them: their records leave the table, their files leave the disk, and every other
  record and file stays as it was.
\<close>

theorem DeleteMod_removes:
  assumes "fault_free E" "DeleteMod E i b w = (Inr (), w')"
  shows "\<exists>m toDelete u u'. GetMod E i u = (Inr m, u') \<and> w_rows u = w_rows w \<and>
    fst (deletionTargets E b m u') = Inr toDelete \<and>
    w_rows w' = filter (\<lambda>r. im_id r \<notin> im_id ` set toDelete) (w_rows w) \<and>
    (\<forall>q. fs_node (w_fs w') q = (if q \<in> im_file_path ` set toDelete then None else fs_node (w_fs w) q))"
proof -
  let ?v = "w\<lparr>w_gate := (w_gate w)\<lparr>active := active (w_gate w) + 1\<rparr>\<rparr>"
  let ?body = "bindE (GetMod E i) (\<lambda>m. bindE (deletionTargets E b m) (removeInstalledMods E (im_instance m)))"
  from assms(2) obtain w1 where w1: "?body ?v = (Inr (), w1)" and w': "w' = w1\<lparr>w_gate := End (w_gate w1)\<rparr>"
    by (auto simp: DeleteMod_def withGate_eq split: if_splits prod.splits)
  from bindE_InrD [OF w1] obtain m u' where m: "GetMod E i ?v = (Inr m, u')"
    and r1: "bindE (deletionTargets E b m) (removeInstalledMods E (im_instance m)) u' = (Inr (), w1)" by blast
  from bindE_InrD [OF r1] obtain ms u2 where ms: "deletionTargets E b m u' = (Inr ms, u2)"
    and r2: "removeInstalledMods E (im_instance m) ms u2 = (Inr (), w1)" by blast
  have "evolves untouched (GetMod E i)" "evolves untouched (deletionTargets E b m)"
    by (auto intro!: evolve_rules)
  from this [unfolded evolves_def, THEN spec, of ?v] this [unfolded evolves_def, THEN spec, of u']
  have "untouched ?v u'" "untouched u' u2" by (simp_all add: m ms)
  then have same: "w_fs u2 = w_fs w" "w_rows u2 = w_rows w" by (simp_all add: untouched_def)
  have nf: "ev_fault E n = None" for n using assms(1) by (simp add: fault_free_def)
  from r2 obtain u3 u4 where u3: "forE ms (removeInstalledMod E) u3 = (Inr (), u4)"
    and u3_same: "w_fs u3 = w_fs w" "w_rows u3 = w_rows w" and w1_eq: "w1 = unlockInstance (im_instance m) u4"
    by (cases "BusyMarker (slots (w_registry u2)) (im_instance m) = []")
       (auto simp: removeInstalledMods_def lock_free lock_busy bindE_def createSnapshot_def callE_ok nf tick_def same
         split: prod.splits sum.splits)
  from removeInstalledMods_run [OF assms(1) u3] u3_same m ms w' w1_eq show ?thesis
    by (intro exI [of _ m] exI [of _ ms] exI [of _ ?v] exI [of _ u']) auto
qed

theorem DeleteMod_removes_witness:
  "\<exists>m toDelete u u' w'. DeleteMod chainEnv ''a'' True chainWorld = (Inr (), w') \<and>
     GetMod chainEnv ''a'' u = (Inr m, u') \<and> fst (deletionTargets chainEnv True m u') = Inr toDelete \<and>
     w_rows w' = filter (\<lambda>r. im_id r \<notin> im_id ` set toDelete) (w_rows chainWorld)"
proof -
  obtain w' where run: "DeleteMod chainEnv ''a'' True chainWorld = (Inr (), w')"
    using chain_delete_run by (metis prod.collapse)
  from DeleteMod_removes [OF chain_facts(1) run] run show ?thesis by blast
qed

section \<open>Overlapping removals\<close>

lemma removeInstalledMod_present:
  assumes "fault_free E" "removeInstalledMod E m w = (Inr (), w')"
  shows "im_id m \<in> im_id ` set (w_rows w)"
proof -
  have nf: "ev_fault E n = None" for n using assms(1) by (simp add: fault_free_def)
  obtain r t where rem: "osRemove (im_file_path m) (w_fs w) = (r, t)" by fastforce
  with assms(2) have "list_ex (\<lambda>r. im_id r = im_id m) (w_rows w)"
    by (auto simp: removeInstalledMod_def bindE_def catchE_def removeE_def fsE_def callE_ok nf
        DeleteModRow_def split: if_splits sum.splits)
  then show ?thesis by (auto simp: list_ex_iff) (metis imageI)
qed

lemma removeInstalledMods_distinct:
  assumes "fault_free E" "forE ms (removeInstalledMod E) w = (Inr (), w')"
  shows "distinct (map im_id ms) \<and> im_id ` set ms \<subseteq> im_id ` set (w_rows w)"
  using assms(2)
proof (induction ms arbitrary: w)
  case (Cons m ms)
  from Cons.prems obtain w1 where step: "removeInstalledMod E m w = (Inr (), w1)"
    and rest: "forE ms (removeInstalledMod E) w1 = (Inr (), w')"
    by (auto dest!: bindE_InrD)
  have "im_id ` set (w_rows w1) = im_id ` set (w_rows w) - {im_id m}"
    using removeInstalledMod_run [OF assms(1) step] by auto
  with Cons.IH [OF rest] removeInstalledMod_present [OF assms(1) step] show ?case by auto
qed simp

text \<open>
  \<open>RemoveMods\<close> concatenates the deletion sets of the selected mods.  When two of
  them share a mod (a selected mod that another selected mod depends on, or a common
  dependency), it does not succeed: the second removal of the shared mod finds no record and
  the loop stops there, after the snapshot and the earlier removals.
\<close>

theorem RemoveMods_overlap:
  assumes "fault_free E" and "find (\<lambda>r. ir_id r = i) (w_instances w) = Some inst"
    and "foldE (collectRemoval E inst b) ids ([], [])
          (tick (w\<lparr>w_gate := (w_gate w)\<lparr>active := active (w_gate w) + 1\<rparr>\<rparr>)) = (Inr acc, u)"
    and "\<not> distinct (map im_id (snd acc))"
  shows "\<exists>e w'. RemoveMods E i ids b w = (Inl e, w')"
proof (rule ccontr)
  let ?v = "w\<lparr>w_gate := (w_gate w)\<lparr>active := active (w_gate w) + 1\<rparr>\<rparr>"
  assume "\<not> (\<exists>e w'. RemoveMods E i ids b w = (Inl e, w'))"
  then obtain w' where ok: "RemoveMods E i ids b w = (Inr (), w')"
    by (metis old.sum.exhaust old.unit.exhaust surj_pair)
  have nf: "ev_fault E n = None" for n using assms(1) by (simp add: fault_free_def)
  have "GetInstance E i ?v = (Inr inst, tick ?v)"
    using assms(2) by (simp add: GetInstance_def readE_def callE_ok nf)
  note step = bindE_Inr [where m = "GetInstance E i" and w = ?v, OF this]
    bindE_Inr [where m = "foldE (collectRemoval E inst b) ids ([], [])" and w = "tick ?v", OF assms(3)]
  have "snd acc \<noteq> []" using assms(4) by auto
  with ok obtain w1 where "removeInstalledMods E (ir_id inst) (snd acc) u = (Inr (), w1)"
    by (auto simp: RemoveMods_def withGate_eq step split: if_splits prod.splits)
  then obtain u1 u2 where "forE (snd acc) (removeInstalledMod E) u1 = (Inr (), u2)"
    by (cases "BusyMarker (slots (w_registry u)) (ir_id inst) = []")
       (auto simp: removeInstalledMods_def lock_free lock_busy bindE_def createSnapshot_def callE_ok nf
         split: prod.splits sum.splits)
  from removeInstalledMods_distinct [OF assms(1) this] assms(4) show False by simp
qed

lemma chain_overlap:
  "case foldE (collectRemoval chainEnv (plainInstance ''i'' ''I'' ''/i'' ''v'') True)
      [''a'', ''b''] ([], [])
      (tick (chainWorld\<lparr>w_gate := (w_gate chainWorld)\<lparr>active := active (w_gate chainWorld) + 1\<rparr>\<rparr>)) of
     (Inr acc, _) \<Rightarrow> map im_id (snd acc) = [''a'', ''b'', ''c'', ''b'', ''c''] | _ \<Rightarrow> False"
  by code_simp

theorem RemoveMods_overlap_witness:
  "\<exists>e w'. RemoveMods chainEnv ''i'' [''a'', ''b''] True chainWorld = (Inl e, w')"
proof -
  have "find (\<lambda>r. ir_id r = ''i'') (w_instances chainWorld) =
      Some (plainInstance ''i'' ''I'' ''/i'' ''v'')"
    by (simp add: chainWorld_def)
  with chain_overlap show ?thesis
    by (auto split: prod.splits sum.splits intro!: RemoveMods_overlap [OF chain_facts(1)])
qed

end
