(* ===== verification/ModListing.thy ===== *)
theory ModListing
  imports ModDeletion "HOL-Library.Multiset"
begin

text \<open>
  What \<open>ListMods\<close> of \<open>internal/mods/service.go\<close> leaves in the table: after the reconciliation
  the records of the instance are, file by file, what the scan found.
\<close>

section \<open>Upserts and deletions by identifier\<close>

lemma upsertMod_split:
  "im_id new \<notin> im_id ` set xs \<Longrightarrow> im_id r = im_id new \<Longrightarrow>
     upsertMod new (xs @ r # ys) =
     xs @ new\<lparr>im_instance := im_instance r, im_installed_at := im_installed_at r\<rparr> # ys"
  by (induction xs) auto

lemma upsertMod_fresh: "im_id new \<notin> im_id ` set rows \<Longrightarrow> upsertMod new rows = rows @ [new]"
  by (induction rows) auto

lemma rows_wf_split:
  "rows_wf (xs @ r # ys) \<longleftrightarrow> rows_wf (xs @ ys) \<and> im_id r \<notin> im_id ` set xs \<and> im_id r \<notin> im_id ` set ys"
  by (auto simp: rows_wf_def)

lemma filter_id_split:
  assumes "rows_wf (xs @ r # ys)"
  shows "filter (\<lambda>x. im_id x \<noteq> im_id r) (xs @ r # ys) = xs @ ys"
proof -
  have "filter (\<lambda>x. im_id x \<noteq> im_id r) zs = zs" if "im_id r \<notin> im_id ` set zs" for zs
    using that by (induction zs) auto
  from this [of xs] this [of ys] show ?thesis using assms by (simp add: rows_wf_split)
qed

definition storedRow :: "env \<Rightarrow> installed_mod \<Rightarrow> installed_mod" where
  "storedRow E m = m\<lparr>im_policy := NormalizeUpdatePolicy (im_policy m),
     im_file_path := storedPath (ev_data_root E) (im_file_path m)\<rparr>"

lemma storedRow_fields [simp]:
  "im_id (storedRow E m) = im_id m" "im_instance (storedRow E m) = im_instance m"
  "im_file_name (storedRow E m) = im_file_name m" "im_enabled (storedRow E m) = im_enabled m"
  "im_size (storedRow E m) = im_size m"
  "im_file_path (storedRow E m) = storedPath (ev_data_root E) (im_file_path m)"
  by (simp_all add: storedRow_def)

lemma SaveMod_run:
  assumes "fault_free E" "SaveMod E m w = (Inr (), w')"
  shows "w' = (tick w)\<lparr>w_rows := upsertMod (storedRow E m) (w_rows w)\<rparr>"
  using assms by (auto simp: SaveMod_def callE_ok fault_free_def storedRow_def Let_def split: if_splits)

lemma DeleteModRow_run:
  assumes "fault_free E" "DeleteModRow E i w = (Inr (), w')"
  shows "w' = (tick w)\<lparr>w_rows := filter (\<lambda>r. im_id r \<noteq> i) (w_rows w)\<rparr>"
  using assms by (auto simp: DeleteModRow_def callE_ok fault_free_def split: if_splits)

section \<open>The facts of a file\<close>

type_synonym file_facts = "string \<times> string \<times> bool \<times> int"

definition rowFacts :: "installed_mod \<Rightarrow> file_facts" where
  "rowFacts r = (im_file_name r, im_file_path r, im_enabled r, im_size r)"

definition discFacts :: "env \<Rightarrow> discovered_mod \<Rightarrow> file_facts" where
  "discFacts E d = (disc_file_name d, storedPath (ev_data_root E) (disc_file_path d), disc_enabled d, disc_size d)"

definition instanceFacts :: "string \<Rightarrow> string set \<Rightarrow> installed_mod list \<Rightarrow> file_facts multiset" where
  "instanceFacts i P rows = image_mset rowFacts (mset (filter (\<lambda>r. im_instance r = i \<and> im_id r \<in> P) rows))"

definition matchedFacts :: "env \<Rightarrow> (discovered_mod \<times> bool) list \<Rightarrow> file_facts multiset" where
  "matchedFacts E fms = image_mset (discFacts E \<circ> fst) (mset (filter snd fms))"

definition othersOf :: "string \<Rightarrow> installed_mod list \<Rightarrow> installed_mod list" where
  "othersOf i rows = filter (\<lambda>r. im_instance r \<noteq> i) rows"

lemma instanceFacts_split:
  "instanceFacts i P (xs @ r # ys) =
     instanceFacts i P (xs @ ys) + (if im_instance r = i \<and> im_id r \<in> P then {#rowFacts r#} else {#})"
  by (simp add: instanceFacts_def)

lemma instanceFacts_cong:
  "(\<And>r. r \<in> set rows \<Longrightarrow> im_id r \<in> P \<longleftrightarrow> im_id r \<in> Q) \<Longrightarrow> instanceFacts i P rows = instanceFacts i Q rows"
  unfolding instanceFacts_def by (metis (no_types, lifting) filter_cong)

lemma matchedFacts_update:
  assumes "k < length ds" "length ms = length ds" "\<not> ms ! k"
  shows "matchedFacts E (zip ds (ms[k := True])) = matchedFacts E (zip ds ms) + {#discFacts E (ds ! k)#}"
proof -
  let ?z = "zip ds ms"
  have new: "zip ds (ms[k := True]) = take k ?z @ (ds ! k, True) # drop (Suc k) ?z"
    using assms upd_conv_take_nth_drop [of k ?z "(ds ! k, True)"] by (simp add: update_zip)
  have "?z = take k ?z @ (ds ! k, False) # drop (Suc k) ?z"
    using assms id_take_nth_drop [of k ?z] by simp
  then have "filter snd ?z = filter snd (take k ?z @ (ds ! k, False) # drop (Suc k) ?z)"
    by (rule arg_cong)
  then have old: "filter snd ?z = filter snd (take k ?z) @ filter snd (drop (Suc k) ?z)" by simp
  show ?thesis
    unfolding matchedFacts_def new old by simp
qed

lemma matchedFacts_none: "matchedFacts E (zip ds (replicate (length ds) False)) = {#}"
  by (auto simp: matchedFacts_def set_zip filter_empty_conv)

section \<open>One row\<close>

definition rows_pending :: "string \<Rightarrow> installed_mod list \<Rightarrow> string set \<Rightarrow> installed_mod list \<Rightarrow> bool" where
  "rows_pending i mods P rows \<longleftrightarrow>
     (\<forall>r \<in> set rows. im_instance r = i \<longrightarrow> im_id r \<in> im_id ` set mods) \<and>
     (\<forall>m \<in> set mods. im_id m \<notin> P \<longrightarrow> (\<exists>r \<in> set rows. im_id r = im_id m \<and> im_instance r = i))"

definition reconciled ::
  "env \<Rightarrow> string \<Rightarrow> installed_mod list \<Rightarrow> discovered_mod list \<Rightarrow> string set \<Rightarrow> bool list \<Rightarrow> installed_mod list \<Rightarrow> bool" where
  "reconciled E i mods ds P ms rows \<longleftrightarrow>
     length ms = length ds \<and> rows_wf rows \<and> rows_pending i mods P rows \<and>
     instanceFacts i P rows = matchedFacts E (zip ds ms)"

lemma findIndex_Some: "findIndex P is = Some i \<Longrightarrow> i \<in> set is \<and> P i"
  by (induction "is") (auto split: if_splits)

lemma findDiscoveredMod_Some:
  "findDiscoveredMod ds ms m = Some k \<Longrightarrow> k < length ds \<and> \<not> ms ! k"
  by (auto simp: findDiscoveredMod_def dest!: findIndex_Some split: option.splits)

lemma refreshMod_fields [simp]:
  "im_id (refreshMod d now m) = im_id m" "im_file_name (refreshMod d now m) = disc_file_name d"
  "im_file_path (refreshMod d now m) = disc_file_path d" "im_enabled (refreshMod d now m) = disc_enabled d"
  "im_size (refreshMod d now m) = disc_size d"
  by (simp_all add: refreshMod_def)

lemma reconcileRow_step:
  assumes ff: "fault_free E" and run: "reconcileRow E ds now m ms w = (Inr ms', w')"
    and inv: "reconciled E i mods ds P ms (w_rows w)" and m: "m \<in> set mods" "im_id m \<notin> P"
  shows "reconciled E i mods ds (insert (im_id m) P) ms' (w_rows w') \<and>
    othersOf i (w_rows w') = othersOf i (w_rows w) \<and> im_id ` set (w_rows w') \<subseteq> im_id ` set (w_rows w) \<and>
    w_instances w' = w_instances w \<and> w_fs w' = w_fs w"
proof -
  from inv m obtain r where r: "r \<in> set (w_rows w)" "im_id r = im_id m" "im_instance r = i"
    unfolding reconciled_def rows_pending_def by blast
  then obtain xs ys where rows: "w_rows w = xs @ r # ys" by (meson split_list)
  have wf: "rows_wf (xs @ r # ys)" using inv rows by (simp add: reconciled_def)
  then have ids: "im_id m \<notin> im_id ` set xs" "im_id m \<notin> im_id ` set ys" "rows_wf (xs @ ys)"
    using r(2) by (simp_all add: rows_wf_split)
  have old: "instanceFacts i P (xs @ ys) = matchedFacts E (zip ds ms)"
    using inv rows r m(2) by (simp add: reconciled_def instanceFacts_split)
  have same: "instanceFacts i (insert (im_id m) P) (xs @ ys) = instanceFacts i P (xs @ ys)"
    by (rule instanceFacts_cong) (use ids in \<open>auto simp: image_iff\<close>)
  have pending: "rows_pending i mods (insert (im_id m) P) (xs @ zs @ ys)"
    if "zs = [] \<or> (\<exists>z. zs = [z] \<and> im_id z = im_id m)" for zs
    using inv that m unfolding reconciled_def rows_pending_def rows
    by (auto simp: r(2))
  show ?thesis
  proof (cases "findDiscoveredMod ds ms m")
    case None
    with run have del: "DeleteModRow E (im_id m) w = (Inr (), w')" and ms': "ms' = ms"
      by (auto simp: reconcileRow_def dest!: bindE_InrD)
    have w': "w_rows w' = xs @ ys" "w_instances w' = w_instances w" "w_fs w' = w_fs w"
      using DeleteModRow_run [OF ff del] filter_id_split [OF wf] r(2) by (simp_all add: rows)
    show ?thesis
      using w' ms' inv pending [of "[]"] same old ids(3) r
      by (auto simp: reconciled_def othersOf_def rows)
  next
    case (Some k)
    with run obtain u where save: "SaveMod E (refreshMod (ds ! k) now m) w = (Inr (), u)"
      and ms': "ms' = ms[k := True]" and u: "w' = u"
      by (auto simp: reconcileRow_def dest!: bindE_InrD)
    let ?new = "(storedRow E (refreshMod (ds ! k) now m))\<lparr>im_instance := im_instance r, im_installed_at := im_installed_at r\<rparr>"
    have w': "w_rows w' = xs @ ?new # ys" "w_instances w' = w_instances w" "w_fs w' = w_fs w"
      using SaveMod_run [OF ff save] ids(1) r(2) u by (simp_all add: rows upsertMod_split)
    have k: "k < length ds" "\<not> ms ! k" using findDiscoveredMod_Some [OF Some] by simp_all
    have facts: "rowFacts ?new = discFacts E (ds ! k)" by (simp add: rowFacts_def discFacts_def)
    have "instanceFacts i (insert (im_id m) P) (xs @ ?new # ys) = matchedFacts E (zip ds (ms[k := True]))"
      using matchedFacts_update [of k ds ms E] k inv facts old same r
      by (simp add: instanceFacts_split reconciled_def)
    moreover have "rows_wf (xs @ ?new # ys)" using ids by (simp add: rows_wf_split)
    moreover have "rows_pending i mods (insert (im_id m) P) (xs @ ?new # ys)"
      using pending [of "[?new]"] by simp
    ultimately show ?thesis
      using w' ms' inv r by (auto simp: reconciled_def othersOf_def rows)
  qed
qed

section \<open>The whole run\<close>

lemma reconcileRows_run:
  assumes ff: "fault_free E" and run: "foldE (reconcileRow E ds now) ms0 ms w = (Inr ms', w')"
    and inv: "reconciled E i mods ds P ms (w_rows w)"
    and rest: "distinct (map im_id ms0)" "set ms0 \<subseteq> set mods" "im_id ` set ms0 \<inter> P = {}"
  shows "reconciled E i mods ds (im_id ` set ms0 \<union> P) ms' (w_rows w') \<and>
    othersOf i (w_rows w') = othersOf i (w_rows w) \<and> im_id ` set (w_rows w') \<subseteq> im_id ` set (w_rows w) \<and>
    w_instances w' = w_instances w \<and> w_fs w' = w_fs w"
  using run inv rest
proof (induction ms0 arbitrary: ms w P)
  case (Cons m ms0)
  from Cons.prems(1) obtain ms1 w1 where step: "reconcileRow E ds now m ms w = (Inr ms1, w1)"
    and run: "foldE (reconcileRow E ds now) ms0 ms1 w1 = (Inr ms', w')"
    by (auto dest!: bindE_InrD)
  from Cons.prems(4,5) have "m \<in> set mods" "im_id m \<notin> P" by auto
  from reconcileRow_step [OF ff step Cons.prems(2) this]
  have one: "reconciled E i mods ds (insert (im_id m) P) ms1 (w_rows w1)"
    "othersOf i (w_rows w1) = othersOf i (w_rows w)" "im_id ` set (w_rows w1) \<subseteq> im_id ` set (w_rows w)"
    "w_instances w1 = w_instances w" "w_fs w1 = w_fs w" by blast+
  have "reconciled E i mods ds (im_id ` set ms0 \<union> insert (im_id m) P) ms' (w_rows w') \<and>
    othersOf i (w_rows w') = othersOf i (w_rows w1) \<and> im_id ` set (w_rows w') \<subseteq> im_id ` set (w_rows w1) \<and>
    w_instances w' = w_instances w1 \<and> w_fs w' = w_fs w1"
    by (rule Cons.IH [OF run one(1)]) (use Cons.prems in auto)
  with one show ?case using subset_trans by (simp, blast)
qed simp

text \<open>The identifiers still to come are new.\<close>

definition ids_fresh :: "env \<Rightarrow> mods_world \<Rightarrow> bool" where
  "ids_fresh E w \<longleftrightarrow> (\<forall>n \<ge> w_ticks w. ev_new_id E n \<notin> im_id ` set (w_rows w))"

definition listed ::
  "string \<Rightarrow> mods_world \<Rightarrow> bool" where
  "listed i w \<longleftrightarrow> rows_wf (w_rows w) \<and> list_ex (\<lambda>r. ir_id r = i) (w_instances w)"

lemma importDiscovered_run:
  assumes ff: "fault_free E" and inj: "inj (ev_new_id E)"
    and run: "importDiscovered E i now fm w = (Inr (), w')" and ok: "listed i w" "ids_fresh E w"
  shows "listed i w' \<and> ids_fresh E w' \<and> othersOf i (w_rows w') = othersOf i (w_rows w) \<and> w_fs w' = w_fs w \<and>
    instanceFacts i UNIV (w_rows w') =
      instanceFacts i UNIV (w_rows w) + (if snd fm then {#} else {#discFacts E (fst fm)#})"
proof (cases "snd fm")
  case True
  then show ?thesis using run ok by (simp add: importDiscovered_def)
next
  case False
  let ?id = "ev_new_id E (w_ticks w)"
  let ?new = "storedRow E (importedMod ?id i now (fst fm))"
  have fresh: "?id \<notin> im_id ` set (w_rows w)" using ok(2) by (simp add: ids_fresh_def)
  have "SaveMod E (importedMod ?id i now (fst fm)) (tick w) = (Inr (), w')"
    using run False by (auto simp: importDiscovered_def newIDE_def bindE_def tick_def)
  from SaveMod_run [OF ff this] fresh
  have w': "w' = (tick (tick w))\<lparr>w_rows := w_rows w @ [?new]\<rparr>"
    by (simp add: upsertMod_fresh importedMod_def)
  have "ids_fresh E w'"
    unfolding ids_fresh_def
  proof (intro allI impI)
    fix n assume "n \<ge> w_ticks w'"
    then have "n \<ge> w_ticks w" "n \<noteq> w_ticks w" by (simp_all add: w')
    then show "ev_new_id E n \<notin> im_id ` set (w_rows w')"
      using ok(2) injD [OF inj] by (auto simp: w' ids_fresh_def importedMod_def)
  qed
  moreover have "rows_wf (w_rows w')" using ok(1) fresh by (auto simp: w' rows_wf_def listed_def importedMod_def)
  ultimately show ?thesis
    using ok(1) False
    by (simp add: w' listed_def othersOf_def instanceFacts_def rowFacts_def discFacts_def importedMod_def)
qed

lemma importAll_run:
  assumes ff: "fault_free E" and inj: "inj (ev_new_id E)"
    and run: "forE fms (importDiscovered E i now) w = (Inr (), w')" and ok: "listed i w" "ids_fresh E w"
  shows "othersOf i (w_rows w') = othersOf i (w_rows w) \<and> w_fs w' = w_fs w \<and>
    instanceFacts i UNIV (w_rows w') =
      instanceFacts i UNIV (w_rows w) + image_mset (discFacts E \<circ> fst) (mset (filter (\<lambda>fm. \<not> snd fm) fms))"
  using run ok
proof (induction fms arbitrary: w)
  case (Cons fm fms)
  from Cons.prems(1) obtain w1 where step: "importDiscovered E i now fm w = (Inr (), w1)"
    and run: "forE fms (importDiscovered E i now) w1 = (Inr (), w')"
    by (auto dest!: bindE_InrD)
  from importDiscovered_run [OF ff inj step Cons.prems(2,3)] Cons.IH [OF run] show ?case by auto
qed simp

lemma set_rowsOf: "set (rowsOf base i rows) = scanMod base ` {r \<in> set rows. im_instance r = i}"
  by (auto simp: rowsOf_def)

lemma ids_rowsOf: "im_id ` set (rowsOf base i rows) = im_id ` {r \<in> set rows. im_instance r = i}"
  by (simp add: set_rowsOf image_image scanMod_def)

lemma reconciled_start:
  "rows_wf rows \<Longrightarrow> reconciled E i (rowsOf base i rows) ds {} (replicate (length ds) False) rows"
  by (auto simp: reconciled_def rows_pending_def instanceFacts_def matchedFacts_none ids_rowsOf)
     (auto simp: set_rowsOf scanMod_def)

lemma reconciled_end:
  "reconciled E i mods ds (im_id ` set mods) ms rows \<Longrightarrow>
     instanceFacts i UNIV rows = matchedFacts E (zip ds ms)"
proof -
  assume rec: "reconciled E i mods ds (im_id ` set mods) ms rows"
  have "filter (\<lambda>r. im_instance r = i \<and> im_id r \<in> UNIV) rows =
      filter (\<lambda>r. im_instance r = i \<and> im_id r \<in> im_id ` set mods) rows"
    by (rule filter_cong) (use rec in \<open>auto simp: reconciled_def rows_pending_def\<close>)
  with rec show ?thesis by (simp add: reconciled_def instanceFacts_def)
qed

lemma matched_and_imported:
  "length ms = length ds \<Longrightarrow>
     matchedFacts E (zip ds ms) + image_mset (discFacts E \<circ> fst) (mset (filter (\<lambda>fm. \<not> snd fm) (zip ds ms))) =
     image_mset (discFacts E) (mset ds)"
proof -
  assume len: "length ms = length ds"
  have "mset (filter snd (zip ds ms)) + mset (filter (\<lambda>fm. \<not> snd fm) (zip ds ms)) = mset (zip ds ms)"
    by simp
  then have "matchedFacts E (zip ds ms) + image_mset (discFacts E \<circ> fst) (mset (filter (\<lambda>fm. \<not> snd fm) (zip ds ms)))
      = image_mset (discFacts E \<circ> fst) (mset (zip ds ms))"
    unfolding matchedFacts_def by (metis image_mset_union)
  also have "\<dots> = image_mset (discFacts E) (mset (map fst (zip ds ms)))"
    by (simp add: image_mset.compositionality)
  finally show ?thesis using len by simp
qed

lemma reconcileMods_run:
  assumes ff: "fault_free E" and inj: "inj (ev_new_id E)" and wf: "rows_wf (w_rows w)"
    and fresh: "\<And>n. ev_new_id E n \<notin> im_id ` set (w_rows w)"
    and inst: "list_ex (\<lambda>r. ir_id r = i) (w_instances w)"
    and run: "reconcileMods E i inst w = (Inr (), w')"
  shows "\<exists>ds u. w_fs u = w_fs w' \<and> fst (Scan E (ir_directory inst) u) = Inr ds \<and>
    othersOf i (w_rows w') = othersOf i (w_rows w) \<and>
    instanceFacts i UNIV (w_rows w') = image_mset (discFacts E) (mset ds)"
proof -
  from run obtain x w1 where layout: "EnsureLayout E (ir_directory inst) w = (Inr x, w1)"
    and r1: "bindE (ListModRows E i) (\<lambda>mods. bindE (Scan E (ir_directory inst)) (\<lambda>discovered.
      bindE (nowE E) (\<lambda>now.
      bindE (foldE (reconcileRow E discovered now) mods (replicate (length discovered) False)) (\<lambda>matched.
      forE (zip discovered matched) (importDiscovered E i now))))) w1 = (Inr (), w')"
    using bindE_InrD [OF run [unfolded reconcileMods_def]] by blast
  from bindE_InrD [OF r1] obtain mods w2 where rows: "ListModRows E i w1 = (Inr mods, w2)"
    and r2: "bindE (Scan E (ir_directory inst)) (\<lambda>discovered.
      bindE (nowE E) (\<lambda>now.
      bindE (foldE (reconcileRow E discovered now) mods (replicate (length discovered) False)) (\<lambda>matched.
      forE (zip discovered matched) (importDiscovered E i now)))) w2 = (Inr (), w')" by blast
  from bindE_InrD [OF r2] obtain ds w3 where scan: "Scan E (ir_directory inst) w2 = (Inr ds, w3)"
    and r3: "bindE (nowE E) (\<lambda>now.
      bindE (foldE (reconcileRow E ds now) mods (replicate (length ds) False)) (\<lambda>matched.
      forE (zip ds matched) (importDiscovered E i now))) w3 = (Inr (), w')" by blast
  from bindE_InrD [OF r3] obtain now where
    "bindE (foldE (reconcileRow E ds now) mods (replicate (length ds) False)) (\<lambda>matched.
      forE (zip ds matched) (importDiscovered E i now)) w3 = (Inr (), w')"
    by (auto simp: nowE_def)
  from bindE_InrD [OF this] obtain ms w4 where
    rec: "foldE (reconcileRow E ds now) mods (replicate (length ds) False) w3 = (Inr ms, w4)"
    and imp: "forE (zip ds ms) (importDiscovered E i now) w4 = (Inr (), w')" by blast
  have keep: "evolves (keeping w_rows) (EnsureLayout E (ir_directory inst))"
    "evolves (keeping w_instances) (EnsureLayout E (ir_directory inst))"
    "evolves (keeping w_rows) (Scan E (ir_directory inst))"
    "evolves (keeping w_instances) (Scan E (ir_directory inst))"
    "evolves (keeping w_fs) (Scan E (ir_directory inst))"
    by (auto intro!: evolve_rules)
  have w2: "w2 = tick w1" and mods: "mods = rowsOf (ev_data_root E) i (w_rows w1)"
    using rows ff by (auto simp: ListModRows_def readE_def callE_ok fault_free_def)
  have same: "w_rows w1 = w_rows w" "w_rows w3 = w_rows w" "w_instances w3 = w_instances w" "w_fs w3 = w_fs w2"
    using keep [THEN evolves_keepingD, of w] keep [THEN evolves_keepingD, of w2]
    by (simp_all add: layout scan [unfolded w2] w2)
  have start: "reconciled E i mods ds {} (replicate (length ds) False) (w_rows w3)"
    using reconciled_start [OF wf] by (simp add: mods same)
  have dist: "distinct (map im_id mods)" unfolding mods same by (rule distinct_rowsOf [OF wf])
  from reconcileRows_run [OF ff rec start dist] have
    done4: "reconciled E i mods ds (im_id ` set mods) ms (w_rows w4)" "othersOf i (w_rows w4) = othersOf i (w_rows w)"
      "im_id ` set (w_rows w4) \<subseteq> im_id ` set (w_rows w)" "w_instances w4 = w_instances w" "w_fs w4 = w_fs w2"
    by (simp_all add: same)
  have "listed i w4" "ids_fresh E w4"
    using done4 inst fresh by (auto simp: listed_def ids_fresh_def reconciled_def)
  from importAll_run [OF ff inj imp this] reconciled_end [OF done4(1)] matched_and_imported [of ms ds E] done4
  have "othersOf i (w_rows w') = othersOf i (w_rows w)" "w_fs w' = w_fs w2"
    "instanceFacts i UNIV (w_rows w') = image_mset (discFacts E) (mset ds)"
    by (simp_all add: reconciled_def)
  with scan show ?thesis by (intro exI [of _ ds] exI [of _ w2]) simp
qed

text \<open>
  C2 (functional).  After a successful listing the records of the instance are exactly the
  mod files on disk: one record per file found by the scan, with its name, path, switch and
  size, and none besides; the other instances' records are as they were.  While the
  directory of the instance is missing (a disconnected disk), nothing is recorded as lost:
  records and files stay, and the stored records are the answer.
\<close>

theorem ListMods_reconciles:
  assumes "fault_free E" "inj (ev_new_id E)" "rows_wf (w_rows w)"
    and "\<forall>n. ev_new_id E n \<notin> im_id ` set (w_rows w)"
    and "find (\<lambda>r. ir_id r = i) (w_instances w) = Some inst"
    and "ListMods E i w = (Inr mods, w')"
  shows "mods = rowsOf (ev_data_root E) i (w_rows w') \<and> othersOf i (w_rows w') = othersOf i (w_rows w) \<and>
    (if is_dir (w_fs w) (ir_directory inst)
     then \<exists>ds u. w_fs u = w_fs w' \<and> fst (Scan E (ir_directory inst) u) = Inr ds \<and>
            instanceFacts i UNIV (w_rows w') = image_mset (discFacts E) (mset ds)
     else w_rows w' = w_rows w \<and> w_fs w' = w_fs w)"
proof -
  let ?v = "w\<lparr>w_gate := (w_gate w)\<lparr>active := active (w_gate w) + 1\<rparr>\<rparr>"
  let ?body = "bindE (GetInstance E i) (\<lambda>inst. bindE (isDirE E (ir_directory inst)) (\<lambda>present.
        if \<not> present then ListModRows E i else bindE (reconcileMods E i inst) (\<lambda>_. ListModRows E i)))"
  have nf: "ev_fault E n = None" for n using assms(1) by (simp add: fault_free_def)
  from assms(6) obtain w1 where body: "?body ?v = (Inr mods, w1)" and w': "w' = w1\<lparr>w_gate := End (w_gate w1)\<rparr>"
    by (auto simp: ListMods_def withGate_eq split: if_splits prod.splits)
  have inst: "GetInstance E i ?v = (Inr inst, tick ?v)"
    using assms(5) by (simp add: GetInstance_def readE_def callE_ok nf)
  have present: "isDirE E (ir_directory inst) (tick ?v) = (Inr (is_dir (w_fs w) (ir_directory inst)), tick (tick ?v))"
    by (auto simp: isDirE_def statE_def readE_def callE_ok nf catchE_def osStat_def is_dir_def split: option.splits)
  note step = bindE_Inr [where m = "GetInstance E i" and w = ?v, OF inst]
    bindE_Inr [where m = "isDirE E (ir_directory inst)" and w = "tick ?v", OF present]
  have rows: "ListModRows E i u = (Inr (rowsOf (ev_data_root E) i (w_rows u)), tick u)" for u
    by (simp add: ListModRows_def readE_def callE_ok nf)
  show ?thesis
  proof (cases "is_dir (w_fs w) (ir_directory inst)")
    case False
    with body w' show ?thesis by (auto simp: step rows)
  next
    case True
    with body obtain w2 where rec: "reconcileMods E i inst (tick (tick ?v)) = (Inr (), w2)"
      and w1: "mods = rowsOf (ev_data_root E) i (w_rows w2)" "w1 = tick w2"
      by (auto simp: step rows dest!: bindE_InrD)
    have "list_ex (\<lambda>r. ir_id r = i) (w_instances w)"
      using find_SomeD [OF assms(5)] by (auto simp: list_ex_iff)
    with reconcileMods_run [OF assms(1,2) _ _ _ rec] assms(3,4) True w1 w' show ?thesis by simp blast
  qed
qed

lemma chain_lists: "case ListMods chainEnv ''i'' chainWorld of (Inr mods, _) \<Rightarrow> True | _ \<Rightarrow> False"
  by code_simp

theorem ListMods_reconciles_witness:
  "\<exists>mods w' ds u. ListMods chainEnv ''i'' chainWorld = (Inr mods, w') \<and>
     w_fs u = w_fs w' \<and> fst (Scan chainEnv ''/i'' u) = Inr ds \<and>
     instanceFacts ''i'' UNIV (w_rows w') = image_mset (discFacts chainEnv) (mset ds)"
proof -
  have fresh: "\<forall>n. ev_new_id chainEnv n \<notin> im_id ` set (w_rows chainWorld)"
  proof (intro allI notI)
    fix n assume "ev_new_id chainEnv n \<in> im_id ` set (w_rows chainWorld)"
    then have "replicate n (CHR ''i'') \<in> {''a'', ''b'', ''c''}"
      by (simp add: chainEnv_def sampleEnv_def chainWorld_def chainMod_def)
    then show False by (cases n) auto
  qed
  have inj: "inj (ev_new_id chainEnv)"
    by (rule injI) (auto simp: chainEnv_def sampleEnv_def dest: arg_cong [where f = length])
  have inst: "find (\<lambda>r. ir_id r = ''i'') (w_instances chainWorld) =
      Some (plainInstance ''i'' ''I'' ''/i'' ''v'')"
    by (simp add: chainWorld_def)
  have dir: "is_dir (w_fs chainWorld) ''/i''"
    by (simp add: chainWorld_def is_dir_def fs_node_def)
  from chain_lists obtain mods w' where run: "ListMods chainEnv ''i'' chainWorld = (Inr mods, w')"
    by (auto split: prod.splits sum.splits)
  from ListMods_reconciles [OF chain_facts(1) inj chain_facts(2) fresh inst run] dir run
  show ?thesis by auto
qed

end
