(* ===== verification/Downloader.thy ===== *)
theory Downloader
  imports ModStore
begin

text \<open>
  \<open>internal/platform/downloader/http.go\<close>: one download into a \<open>.partial\<close> file beside its
  destination, resumed, bounded, verified and then renamed.  The server's answer, the URL
  normalisation of \<open>net/url\<close> and the hash functions are parameters of the environment; the
  progress channel is a callback, and \<open>ev_delivers\<close> decides whether an update fits into it.
\<close>

record download_request =
  dr_url :: string
  dr_destination :: string
  dr_checksum :: string
  dr_algorithm :: string
  dr_resume :: bool
  dr_max_bytes :: int

type_synonym progress_sink = "int \<Rightarrow> int \<Rightarrow> unit act"

abbreviation "maxDownloadAttempts \<equiv> 3 :: nat"

text \<open>\<open>ctx.Err()\<close>.\<close>

definition ctxE :: "env \<Rightarrow> unit act" where
  "ctxE E = readE E (\<lambda>_. Inr ())"

text \<open>The GET with its retries: \<open>n\<close> attempts are left after this one.\<close>

primrec requestAttempt :: "env \<Rightarrow> string \<Rightarrow> int \<Rightarrow> nat \<Rightarrow> http_response act" where
  "requestAttempt E url offset 0 = callE E (\<lambda>w. (ev_http E (w_ticks w) url offset, w))"
| "requestAttempt E url offset (Suc n) =
     catchE (callE E (\<lambda>w. (ev_http E (w_ticks w) url offset, w))) (\<lambda>r. case r of
       Inr resp \<Rightarrow> returnE resp
     | Inl e \<Rightarrow>
         catchE (ctxE E) (\<lambda>c. case c of
           Inl _ \<Rightarrow> throwE e
         | Inr _ \<Rightarrow> bindE (ctxE E) (\<lambda>_. requestAttempt E url offset n)))"

definition doDownloadRequest :: "env \<Rightarrow> string \<Rightarrow> int \<Rightarrow> http_response act" where
  "doDownloadRequest E url offset = requestAttempt E url offset (maxDownloadAttempts - 1)"

fun content_append :: "env \<Rightarrow> content \<Rightarrow> string \<Rightarrow> content" where
  "content_append E (Blob b) piece = Blob (b @ piece)"
| "content_append E c piece = Blob (ev_encoded E c @ piece)"

text \<open>A write at the end of the open partial file.\<close>

definition appendTo :: "env \<Rightarrow> string \<Rightarrow> string \<Rightarrow> time \<Rightarrow> fs \<Rightarrow> unit result \<times> fs" where
  "appendTo E p piece now t =
     (case osReadFile p t of
        Inl e \<Rightarrow> (Inl e, t)
      | Inr c \<Rightarrow> (Inr (), writeContent p (content_append E c piece) now t))"

definition appendE :: "env \<Rightarrow> string \<Rightarrow> string \<Rightarrow> unit act" where
  "appendE E p piece = fsNowE E (appendTo E p piece)"

text \<open>\<open>O_APPEND\<close> without \<open>O_TRUNC\<close>: an existing file keeps its content.\<close>

definition openAppend :: "string \<Rightarrow> time \<Rightarrow> fs \<Rightarrow> unit result \<times> fs" where
  "openAppend p now t = (if is_file t p then (Inr (), t) else osCreate p now t)"

definition tooLargeError :: go_error where
  "tooLargeError = OtherError ''download exceeds the maximum allowed size''"

definition emitUpdate :: "env \<Rightarrow> progress_sink \<Rightarrow> int \<Rightarrow> int \<Rightarrow> unit act" where
  "emitUpdate E progress downloaded whole =
     bindE (getE (\<lambda>w. ev_delivers E (w_ticks w))) (\<lambda>fits. if fits then progress downloaded whole else returnE ())"

text \<open>The read loop over the pieces of the body; its result is the number of bytes held.\<close>

fun copyBody ::
  "env \<Rightarrow> string \<Rightarrow> int \<Rightarrow> int \<Rightarrow> progress_sink \<Rightarrow> go_error option \<Rightarrow> string list \<Rightarrow> int \<Rightarrow> int act" where
  "copyBody E partial maxBytes whole progress err [] downloaded =
     bindE (ctxE E) (\<lambda>_. case err of Some e \<Rightarrow> throwE e | None \<Rightarrow> returnE downloaded)"
| "copyBody E partial maxBytes whole progress err (piece # pieces) downloaded =
     bindE (ctxE E) (\<lambda>_.
       if piece = [] then copyBody E partial maxBytes whole progress err pieces downloaded
       else if maxBytes > 0 \<and> downloaded + int (length piece) > maxBytes
       then bindE (ignoreE (removeE E partial)) (\<lambda>_. throwE tooLargeError)
       else bindE (appendE E partial piece) (\<lambda>_.
            bindE (emitUpdate E progress (downloaded + int (length piece)) whole) (\<lambda>_.
            copyBody E partial maxBytes whole progress err pieces (downloaded + int (length piece)))))"

text \<open>\<open>checksumFile\<close>: the algorithm is checked before the file is hashed.\<close>

definition knownAlgorithm :: "string \<Rightarrow> bool" where
  "knownAlgorithm algorithm \<longleftrightarrow> ToLower (TrimSpace algorithm) \<in> {''md5'', ''sha256'', ''sha-256'', []}"

definition checksumFile :: "env \<Rightarrow> string \<Rightarrow> string \<Rightarrow> string act" where
  "checksumFile E path algorithm =
     bindE (readFileE E path) (\<lambda>c.
       if knownAlgorithm algorithm then returnE (ev_checksum E (ToLower (TrimSpace algorithm)) c)
       else throwE (OtherError (''unsupported checksum algorithm '' @ algorithm)))"

definition verifyChecksum :: "env \<Rightarrow> download_request \<Rightarrow> string \<Rightarrow> unit act" where
  "verifyChecksum E req partial =
     (if dr_checksum req = [] then returnE ()
      else bindE (checksumFile E partial (dr_algorithm req)) (\<lambda>actual.
        if EqualFold actual (dr_checksum req) then returnE ()
        else throwE (OtherError (''checksum mismatch: expected '' @ dr_checksum req @ '', got '' @ actual))))"

text \<open>The bytes already there, and whether the file is opened for appending.\<close>

definition resumeOffset :: "env \<Rightarrow> download_request \<Rightarrow> string \<Rightarrow> (int \<times> bool) act" where
  "resumeOffset E req partial =
     (if dr_resume req
      then catchE (statE E partial) (\<lambda>r. returnE (case r of Inl _ \<Rightarrow> (0, False) | Inr n \<Rightarrow> (node_size n, True)))
      else returnE (0, False))"

definition acceptResponse :: "download_request \<Rightarrow> http_response \<Rightarrow> go_error option" where
  "acceptResponse req resp =
     (if hr_status resp < 200 \<or> hr_status resp \<ge> 300
      then Some (OtherError (''download returned HTTP '' @ Itoa (hr_status resp)))
      else if dr_max_bytes req > 0 \<and> hr_length resp > dr_max_bytes req then Some tooLargeError
      else None)"

definition receiveBody :: "env \<Rightarrow> download_request \<Rightarrow> string \<Rightarrow> progress_sink \<Rightarrow> int \<times> bool \<Rightarrow> http_response \<Rightarrow> unit act" where
  "receiveBody E req partial progress resume resp =
     (let (offset, reopen) = (if fst resume > 0 \<and> hr_status resp \<noteq> 206 then (0, False) else resume);
          whole = (if hr_length resp > 0 then hr_length resp + offset else hr_length resp)
      in bindE (if reopen then fsNowE E (openAppend partial) else createE E partial) (\<lambda>_.
         bindE (copyBody E partial (dr_max_bytes req) whole progress (hr_error resp) (hr_body resp) offset) (\<lambda>_.
         bindE (closeE E) (\<lambda>_.
         bindE (verifyChecksum E req partial) (\<lambda>_.
         renameE E partial (dr_destination req))))))"

definition Download :: "env \<Rightarrow> download_request \<Rightarrow> progress_sink \<Rightarrow> unit act" where
  "Download E req progress =
     (if \<not> HasPrefix (dr_url req) ''https://'' then throwE (OtherError ''only HTTPS downloads are allowed'')
      else (case ev_url E (dr_url req) of
        Inl e \<Rightarrow> throwE (OtherError (''invalid download URL: '' @ errorText e))
      | Inr url \<Rightarrow>
          (let partial = dr_destination req @ ''.partial''
           in bindE (mkdirE E (Dir (dr_destination req))) (\<lambda>_.
              bindE (resumeOffset E req partial) (\<lambda>resume.
              bindE (doDownloadRequest E url (fst resume)) (\<lambda>resp.
              case acceptResponse req resp of
                Some e \<Rightarrow> throwE e
              | None \<Rightarrow> receiveBody E req partial progress resume resp))))))"

section \<open>Frames\<close>

lemma evolves_ctxE [evolve_rules]: "tick_free R \<Longrightarrow> evolves R (ctxE E)"
  unfolding ctxE_def by (auto intro!: evolve_rules)

lemma evolves_requestAttempt [evolve_rules]: "tick_free R \<Longrightarrow> evolves R (requestAttempt E u off n)"
  by (induction n) (auto intro!: evolve_rules evolves_callE simp: preorder_refl)

lemma evolves_copyBody [evolve_rules]:
  "tick_free R \<Longrightarrow> ignores_fs R \<Longrightarrow> (\<And>a b. evolves R (progress a b)) \<Longrightarrow>
     evolves R (copyBody E p m t progress err pieces n)"
  by (induction pieces arbitrary: n)
     (auto intro!: evolve_rules evolves_callE simp: emitUpdate_def appendE_def fsNowE_def ignores_fs_def
       split: prod.splits)

lemma evolves_Download [evolve_rules]:
  "tick_free R \<Longrightarrow> ignores_fs R \<Longrightarrow> (\<And>a b. evolves R (progress a b)) \<Longrightarrow> evolves R (Download E req progress)"
  unfolding Download_def resumeOffset_def doDownloadRequest_def receiveBody_def verifyChecksum_def checksumFile_def
    Let_def fsNowE_def
  by (auto intro!: evolve_rules evolves_callE simp: ignores_fs_def split: prod.splits)

section \<open>What a download leaves behind\<close>

lemma wp_ctxE: "Q () (tick w) \<Longrightarrow> (\<And>e. X e (tick w)) \<Longrightarrow> wp (ctxE E) Q X w"
  unfolding ctxE_def by (rule wp_readE) auto

lemma node_size_nonneg: "0 \<le> node_size n"
proof (cases n)
  case (FileNode d)
  then show ?thesis by (cases "fd_content d") simp_all
qed simp

definition partial_holds :: "string \<Rightarrow> int \<Rightarrow> fs \<Rightarrow> bool" where
  "partial_holds p n t \<longleftrightarrow>
     (\<exists>d b. fs_node t p = Some (FileNode d) \<and> fd_content d = Blob b \<and> int (length b) = n)"

lemma wp_emitUpdate:
  assumes "\<And>a b. evolves (keeping w_fs) (progress a b)" "\<And>v. w_fs v = w_fs w \<Longrightarrow> Q () v" "\<And>e v. w_fs v = w_fs w \<Longrightarrow> X e v"
  shows "wp (emitUpdate E progress a b) Q X w"
proof -
  have "wp (progress a b) Q X w"
    by (rule wp_mono [OF wp_evolves [OF assms(1)]]) (auto simp: keeping_def assms(2,3))
  then show ?thesis using assms(2) [of w] by (simp add: emitUpdate_def wp_simps)
qed

lemma wp_append:
  assumes "partial_holds p n (w_fs w)" "others_kept {p} orig (w_fs w)"
    and "\<And>v. partial_holds p (n + int (length piece)) (w_fs v) \<Longrightarrow> others_kept {p} orig (w_fs v) \<Longrightarrow> Q () v"
    and "\<And>e v. others_kept {p} orig (w_fs v) \<Longrightarrow> X e v"
  shows "wp (appendE E p piece) Q X w"
  unfolding appendE_def
  using assms(1,2)
  by (intro wp_fsNowE)
     (auto simp: partial_holds_def appendTo_def osReadFile_def writeContent_def others_kept_def
       intro!: assms(3,4))

definition copied :: "string \<Rightarrow> fs \<Rightarrow> int \<Rightarrow> int \<Rightarrow> int \<Rightarrow> mods_world \<Rightarrow> bool" where
  "copied p orig M n n' w' \<longleftrightarrow>
     partial_holds p n' (w_fs w') \<and> others_kept {p} orig (w_fs w') \<and> (M > 0 \<longrightarrow> n' \<le> max M n)"

lemma copied_mono: "copied p orig M n n' w' \<Longrightarrow> M > 0 \<longrightarrow> n \<le> max M m \<Longrightarrow> copied p orig M m n' w'"
  by (auto simp: copied_def)

lemma copyBody_effect:
  assumes "\<And>a b. evolves (keeping w_fs) (progress a b)"
    and "partial_holds p n (w_fs w)" "others_kept {p} orig (w_fs w)"
  shows "wp (copyBody E p M whole progress err pieces n)
    (copied p orig M n) (\<lambda>_ w'. others_kept {p} orig (w_fs w')) w"
  using assms(2,3)
proof (induction pieces arbitrary: n w)
  case Nil
  then show ?case
    by (auto simp: wp_bindE wp_returnE wp_throwE copied_def intro!: wp_ctxE split: option.splits)
next
  case (Cons piece pieces)
  have drop: "wp (ignoreE (removeE E p)) (\<lambda>_. wp (throwE tooLargeError)
      (copied p orig M n) (\<lambda>_ w'. others_kept {p} orig (w_fs w'))) (\<lambda>_ w'. others_kept {p} orig (w_fs w')) (tick w)"
    by (rule wp_remove_ignored)
       (use Cons.prems(2) in \<open>auto simp: wp_throwE others_kept_def dest: maybe_removed_other\<close>)
  have go: "wp (copyBody E p M whole progress err pieces (n + int (length piece)))
      (copied p orig M n) (\<lambda>_ w'. others_kept {p} orig (w_fs w')) v"
    if "partial_holds p (n + int (length piece)) (w_fs v)" "others_kept {p} orig (w_fs v)"
      "\<not> (M > 0 \<and> n + int (length piece) > M)" for v
    by (rule wp_mono [OF Cons.IH [OF that(1,2)]]) (use that(3) in \<open>auto elim: copied_mono\<close>)
  show ?case
    using Cons.IH [of n "tick w"] Cons.prems drop
    by (auto simp: wp_bindE wp_if intro!: wp_ctxE wp_append [where orig = orig and n = n] wp_emitUpdate [OF assms(1)] go)
qed

definition verified :: "env \<Rightarrow> download_request \<Rightarrow> content \<Rightarrow> bool" where
  "verified E req c \<longleftrightarrow> dr_checksum req = [] \<or>
     knownAlgorithm (dr_algorithm req) \<and>
     EqualFold (ev_checksum E (ToLower (TrimSpace (dr_algorithm req))) c) (dr_checksum req)"

lemma wp_verifyChecksum:
  assumes "\<And>c. osReadFile p (w_fs w) = Inr c \<Longrightarrow> verified E req c \<Longrightarrow> Q () (tick w)"
    and "dr_checksum req = [] \<Longrightarrow> Q () w" and "\<And>e. X e (tick w)"
  shows "wp (verifyChecksum E req p) Q X w"
  unfolding verifyChecksum_def checksumFile_def readFileE_def wp_if wp_returnE wp_bindE wp_throwE
  using assms by (auto simp: verified_def intro!: wp_readE)

definition file_with :: "string \<Rightarrow> content \<Rightarrow> fs \<Rightarrow> bool" where
  "file_with p c t \<longleftrightarrow> (\<exists>d. fs_node t p = Some (FileNode d) \<and> fd_content d = c)"

definition old_size :: "string \<Rightarrow> fs \<Rightarrow> int" where
  "old_size p t = (case fs_node t p of None \<Rightarrow> 0 | Some n \<Rightarrow> node_size n)"

definition downloaded_ok :: "env \<Rightarrow> download_request \<Rightarrow> fs \<Rightarrow> int \<Rightarrow> fs \<Rightarrow> bool" where
  "downloaded_ok E req orig m t \<longleftrightarrow>
     (\<exists>c. file_with (dr_destination req) c t \<and> verified E req c \<and>
        (dr_max_bytes req > 0 \<longrightarrow> content_size c \<le> max (dr_max_bytes req) m)) \<and>
     others_kept {dr_destination req @ ''.partial'', dr_destination req} orig t"

lemma rename_partial:
  assumes "osRename p dest t = (Inr (), t')" "file_with p c t" "p \<noteq> dest" "others_kept {p} orig t"
  shows "file_with dest c t' \<and> others_kept {p, dest} orig t'"
proof -
  from assms(2) obtain d where d: "fs_node t p = Some (FileNode d)" "fd_content d = c"
    by (auto simp: file_with_def)
  from osRename_file [OF assms(1) d(1) assms(3)] d(2) assms(4) show ?thesis
    by (auto simp: file_with_def others_kept_def)
qed

lemma osRename_Inl: "osRename a b t = (Inl e, t') \<Longrightarrow> t' = t"
  by (auto simp: osRename_def split: option.splits node.splits if_splits)

definition resumable :: "string \<Rightarrow> int \<times> bool \<Rightarrow> fs \<Rightarrow> bool" where
  "resumable p r t \<longleftrightarrow> (if snd r then partial_holds p (fst r) t \<or> is_dir t p else fst r = 0)"

lemma open_partial:
  assumes "resumable p (n, reopen) t" "others_kept {p} orig t"
    and "(if reopen then openAppend p now t else osCreate p now t) = (r, t')"
  shows "others_kept {p} orig t' \<and> (r = Inr () \<longrightarrow> partial_holds p n t')"
  using assms
  by (auto simp: resumable_def openAppend_def osCreate_def partial_holds_def others_kept_def is_file_def is_dir_def
      split: if_splits option.splits node.splits)

lemma finish_download:
  assumes "partial_holds p n (w_fs w)" "others_kept {p} orig (w_fs w)"
    and "p = dr_destination req @ ''.partial''" "dr_max_bytes req > 0 \<longrightarrow> n \<le> max (dr_max_bytes req) m"
  shows "wp (bindE (closeE E) (\<lambda>_. bindE (verifyChecksum E req p) (\<lambda>_. renameE E p (dr_destination req))))
    (\<lambda>_ w'. downloaded_ok E req orig m (w_fs w')) (\<lambda>_ w'. others_kept {p} orig (w_fs w')) w"
proof -
  from assms(1) obtain d b where d: "fs_node (w_fs w) p = Some (FileNode d)" "fd_content d = Blob b" "int (length b) = n"
    by (auto simp: partial_holds_def)
  then have there: "file_with p (Blob b) (w_fs w)" by (auto simp: file_with_def)
  have read: "osReadFile p (w_fs w) = Inr (Blob b)" using d by (simp add: osReadFile_def)
  have rename: "wp (renameE E p (dr_destination req)) (\<lambda>_ w'. downloaded_ok E req orig m (w_fs w'))
      (\<lambda>_ w'. others_kept {p} orig (w_fs w')) v"
    if "w_fs v = w_fs w" "verified E req (Blob b)" for v
    unfolding renameE_def
  proof (rule wp_fsE)
    fix e t assume "osRename p (dr_destination req) (w_fs v) = (Inl e, t)"
    then show "others_kept {p} orig (w_fs ((tick v)\<lparr>w_fs := t\<rparr>))"
      using osRename_Inl [of p "dr_destination req" "w_fs v" e t] assms(2) that(1) by simp
  next
    fix x t assume "osRename p (dr_destination req) (w_fs v) = (Inr x, t)"
    with rename_partial [of p "dr_destination req" "w_fs w" t "Blob b" orig] there assms(2,3,4) that d(3)
    show "downloaded_ok E req orig m (w_fs ((tick v)\<lparr>w_fs := t\<rparr>))"
      by (auto simp: downloaded_ok_def)
  qed (use assms(2) that in auto)
  show ?thesis
    unfolding wp_bindE
    by (intro wp_closeE wp_verifyChecksum)
       (use read assms(2) in \<open>auto intro!: rename simp: verified_def\<close>)
qed

lemma receiveBody_effect:
  assumes "\<And>a b. evolves (keeping w_fs) (progress a b)" and "p = dr_destination req @ ''.partial''"
    and "resumable p resume (w_fs w)" "others_kept {p} orig (w_fs w)" "0 \<le> m" "fst resume \<le> m"
  shows "wp (receiveBody E req p progress resume resp)
    (\<lambda>_ w'. downloaded_ok E req orig m (w_fs w')) (\<lambda>_ w'. others_kept {p} orig (w_fs w')) w"
proof -
  let ?adj = "if fst resume > 0 \<and> hr_status resp \<noteq> 206 then (0, False) else resume"
  obtain n reopen where adj: "?adj = (n, reopen)" by fastforce
  have ok: "resumable p (n, reopen) (w_fs w)" "n \<le> m"
    using assms(3,5,6) adj by (auto simp: resumable_def split: if_splits)
  obtain whole where whole: "(if hr_length resp > 0 then hr_length resp + n else hr_length resp) = whole" by simp
  let ?rest = "\<lambda>_. bindE (copyBody E p (dr_max_bytes req) whole progress (hr_error resp) (hr_body resp) n) (\<lambda>_.
      bindE (closeE E) (\<lambda>_. bindE (verifyChecksum E req p) (\<lambda>_. renameE E p (dr_destination req))))"
  have copy: "wp (?rest u) (\<lambda>_ w'. downloaded_ok E req orig m (w_fs w')) (\<lambda>_ w'. others_kept {p} orig (w_fs w')) v"
    if "partial_holds p n (w_fs v)" "others_kept {p} orig (w_fs v)" for u v
    unfolding wp_bindE [of "copyBody _ _ _ _ _ _ _ _"]
    by (rule wp_mono [OF copyBody_effect [OF assms(1) that]])
       (use ok(2) in \<open>auto simp: copied_def intro!: finish_download [OF _ _ assms(2)]\<close>)
  have "receiveBody E req p progress resume resp =
      bindE (fsNowE E (\<lambda>now t. if reopen then openAppend p now t else osCreate p now t)) ?rest"
    unfolding receiveBody_def adj Let_def prod.case whole by (cases reopen) (simp_all add: createE_def)
  then show ?thesis
    unfolding wp_bindE [of "fsNowE _ _"]
    by (simp only: wp_bindE [of "fsNowE _ _"])
       (intro wp_fsNowE; use assms(4) in \<open>auto dest!: open_partial [OF ok(1) assms(4)] intro!: copy\<close>)
qed

lemma osMkdirAll_node:
  "osMkdirAll p t = (r, t') \<Longrightarrow> fs_node t' q = fs_node t q \<or> fs_node t q = None \<and> fs_node t' q = Some DirNode"
  by (auto simp: osMkdirAll_def fs_node_add_dirs split: if_splits simp del: fold_append)

lemma resumeOffset_effect:
  assumes "\<And>d. fs_node (w_fs w) p = Some (FileNode d) \<Longrightarrow> is_Blob (fd_content d)"
    and "\<And>r. resumable p r (w_fs w) \<Longrightarrow> 0 \<le> fst r \<Longrightarrow> fst r \<le> old_size p (w_fs w) \<Longrightarrow> Q r (tick w)"
    and "Q (0, False) w"
  shows "wp (resumeOffset E req p) Q X w"
proof -
  have none: "Q (0, False) (tick w)"
  proof (rule assms(2))
    show "fst (0 :: int, False) \<le> old_size p (w_fs w)"
      by (auto simp: old_size_def node_size_nonneg split: option.splits)
  qed (simp_all add: resumable_def)
  have stat: "Q (node_size n, True) (tick w)" if n: "fs_node (w_fs w) p = Some n" for n
  proof (cases n)
    case DirNode
    then show ?thesis using n by (intro assms(2)) (auto simp: resumable_def is_dir_def old_size_def)
  next
    case (FileNode d)
    with assms(1) n obtain b where "fd_content d = Blob b" by (cases "fd_content d") force+
    then show ?thesis
      using n FileNode by (intro assms(2)) (auto simp: resumable_def partial_holds_def old_size_def)
  qed
  show ?thesis
    unfolding resumeOffset_def wp_if wp_returnE wp_catchE statE_def
    using none stat assms(3)
    by (auto intro!: wp_readE simp: osStat_def split: option.splits)
qed

text \<open>
  C4 (safety).  A download that succeeds has put at its destination a file with the expected
  checksum, within the size limit (or within what an earlier attempt had already left), and
  has touched no other file.  A download that fails, at whatever point, has changed no file
  but its own partial one: whatever the destination held is still there.
\<close>

theorem Download_verified:
  assumes "\<And>a b. evolves (keeping w_fs) (progress a b)"
    and "\<And>d. fs_node (w_fs w) (dr_destination req @ ''.partial'') = Some (FileNode d) \<Longrightarrow> is_Blob (fd_content d)"
  shows "case Download E req progress w of
      (Inr _, w') \<Rightarrow> downloaded_ok E req (w_fs w) (old_size (dr_destination req @ ''.partial'') (w_fs w)) (w_fs w')
    | (Inl _, w') \<Rightarrow> others_kept {dr_destination req @ ''.partial''} (w_fs w) (w_fs w')"
proof -
  let ?p = "dr_destination req @ ''.partial''"
  let ?Q = "\<lambda>_ w'. downloaded_ok E req (w_fs w) (old_size ?p (w_fs w)) (w_fs w')"
  let ?X = "\<lambda>_ w'. others_kept {?p} (w_fs w) (w_fs w')"
  have received: "wp (receiveBody E req ?p progress resume resp) ?Q ?X v"
    if "resumable ?p resume (w_fs v)" "others_kept {?p} (w_fs w) (w_fs v)" "0 \<le> fst resume"
      "fst resume \<le> old_size ?p (w_fs w)" for resume resp v
    by (rule receiveBody_effect [OF assms(1) refl that(1,2)]) (use that in auto)
  have answered: "wp (bindE (doDownloadRequest E url (fst resume)) (\<lambda>resp. case acceptResponse req resp of
        Some e \<Rightarrow> throwE e | None \<Rightarrow> receiveBody E req ?p progress resume resp)) ?Q ?X v"
    if "resumable ?p resume (w_fs v)" "others_kept {?p} (w_fs w) (w_fs v)" "0 \<le> fst resume"
      "fst resume \<le> old_size ?p (w_fs w)" for resume url v
  proof -
    have ev: "evolves (keeping w_fs) (doDownloadRequest E url (fst resume))"
      unfolding doDownloadRequest_def by (auto intro!: evolve_rules)
    show ?thesis
      unfolding wp_bindE
      by (rule wp_mono [OF wp_evolves [OF ev]])
         (use that in \<open>auto simp: keeping_def wp_throwE intro!: received split: option.splits\<close>)
  qed
  have made: "wp (bindE (resumeOffset E req ?p) (\<lambda>resume. bindE (doDownloadRequest E url (fst resume)) (\<lambda>resp.
        case acceptResponse req resp of
        Some e \<Rightarrow> throwE e | None \<Rightarrow> receiveBody E req ?p progress resume resp))) ?Q ?X v"
    if "osMkdirAll (Dir (dr_destination req)) (w_fs w) = (r, w_fs v)" for r url v
  proof -
    have node: "fs_node (w_fs v) ?p = fs_node (w_fs w) ?p \<or>
        fs_node (w_fs w) ?p = None \<and> fs_node (w_fs v) ?p = Some DirNode"
      by (rule osMkdirAll_node [OF that])
    then have "old_size ?p (w_fs v) = old_size ?p (w_fs w)" by (auto simp: old_size_def)
    moreover have "\<And>d. fs_node (w_fs v) ?p = Some (FileNode d) \<Longrightarrow> is_Blob (fd_content d)"
      using node assms(2) by auto
    moreover have "0 \<le> old_size ?p (w_fs w)"
      unfolding old_size_def by (cases "fs_node (w_fs w) ?p") (auto simp: node_size_nonneg)
    ultimately show ?thesis
      using mkdir_kept [OF that, of "{?p}"] answered [of "(0, False)" v url]
      by (subst wp_bindE) (rule resumeOffset_effect, auto intro!: answered simp: resumable_def)
  qed
  have "wp (Download E req progress) ?Q ?X w"
    unfolding Download_def Let_def mkdirE_def
    by (auto simp: wp_throwE wp_bindE [of "fsE _ _"] intro!: wp_fsE made dest: mkdir_kept split: sum.splits)
  then show ?thesis by (auto simp: wp_def split: prod.splits sum.splits)
qed

lemma sample_download:
  "case Download sampleEnv \<lparr>dr_url = ''https://x/m.zip'', dr_destination = ''/d/m.zip'', dr_checksum = ''SUM'',
      dr_algorithm = ''sha256'', dr_resume = True, dr_max_bytes = 3\<rparr> (\<lambda>a b. returnE ())
      (sampleWorld [(''/d'', DirNode), (''/d/m.zip'', sampleFile ''old'')] []) of
     (Inr _, w') \<Rightarrow> osReadFile ''/d/m.zip'' (w_fs w') = Inr (Blob ''new'') | _ \<Rightarrow> False"
  by code_simp

theorem Download_verified_witness:
  "\<exists>w'. Download sampleEnv \<lparr>dr_url = ''https://x/m.zip'', dr_destination = ''/d/m.zip'', dr_checksum = ''SUM'',
      dr_algorithm = ''sha256'', dr_resume = True, dr_max_bytes = 3\<rparr> (\<lambda>a b. returnE ())
      (sampleWorld [(''/d'', DirNode), (''/d/m.zip'', sampleFile ''old'')] []) = (Inr (), w') \<and>
     (\<exists>c. file_with ''/d/m.zip'' c (w_fs w') \<and> content_size c \<le> 3 \<and> EqualFold (ev_checksum sampleEnv ''sha256'' c) ''SUM'')"
proof -
  let ?req = "\<lparr>dr_url = ''https://x/m.zip'', dr_destination = ''/d/m.zip'', dr_checksum = ''SUM'',
      dr_algorithm = ''sha256'', dr_resume = True, dr_max_bytes = 3\<rparr>"
  let ?w = "sampleWorld [(''/d'', DirNode), (''/d/m.zip'', sampleFile ''old'')] []"
  obtain w' where run: "Download sampleEnv ?req (\<lambda>a b. returnE ()) ?w = (Inr (), w')"
    using sample_download by (auto split: prod.splits sum.splits)
  have "\<And>a b :: int. evolves (keeping w_fs) (returnE () :: unit act)" by (auto intro!: evolve_rules)
  moreover have "fs_node (w_fs ?w) (dr_destination ?req @ ''.partial'') = None" by (simp add: fs_node_def)
  ultimately have "downloaded_ok sampleEnv ?req (w_fs ?w) 0 (w_fs w')"
    using Download_verified [of "\<lambda>a b. returnE ()" ?w ?req sampleEnv] run by (simp add: old_size_def)
  moreover have "ToLower (TrimSpace ''sha256'') = ''sha256''" by code_simp
  ultimately show ?thesis using run by (auto simp: downloaded_ok_def verified_def)
qed

end
