(* ===== verification/ModInstall.thy ===== *)
theory ModInstall
  imports ModListing Downloader
begin

text \<open>
  \<open>internal/mods/download.go\<close> and \<open>archive.go\<close>: one catalog release is fetched into the
  library, and one cached release is installed into an instance.  A context handed to the
  calls is their environment; cancelling it makes them fail with \<open>CtxCanceled\<close>.
\<close>

abbreviation "phasePreparing \<equiv> ''preparing''"
abbreviation "phaseDownloading \<equiv> ''downloading''"
abbreviation "phaseResolving \<equiv> ''resolving''"
abbreviation "phaseComplete \<equiv> ''complete''"
abbreviation "phaseFailed \<equiv> ''failed''"

definition EmitProgress :: "string \<Rightarrow> string \<Rightarrow> string \<Rightarrow> int \<Rightarrow> int \<Rightarrow> rat \<Rightarrow> string \<Rightarrow> unit act" where
  "EmitProgress taskID modID phase downloadedBytes totalBytes progress message =
     publishE (TaskProgressEvent taskID modID phase downloadedBytes totalBytes progress message)"

definition EmitDownloadsChanged :: "string \<Rightarrow> string \<Rightarrow> (string \<times> string \<times> string) list \<Rightarrow> unit act" where
  "EmitDownloadsChanged taskID modID dependencies = publishE (DownloadsChangedEvent taskID modID dependencies)"

section \<open>Messages\<close>

definition friendlyInstallError :: "go_error \<Rightarrow> string" where
  "friendlyInstallError e =
     (if isPermission e then ''Waxlight does not have permission to write to this instance''
      else if isCanceled e then ''Mod installation was cancelled''
      else if isNotExist e then ''The downloaded mod file is missing. Download it again and retry.''
      else if Contains (errorText e) ''mod source must be a file'' then ''The downloaded mod is not a file''
      else if Contains (errorText e) ''unsupported mod file extension''
      then ''The downloaded file is not a supported mod archive''
      else if Contains (errorText e) ''mod file already exists''
      then ''A different mod file with this name already exists in the instance''
      else ''Could not install the mod in this instance'')"

definition dependencyFailureMessage :: "go_error \<Rightarrow> string" where
  "dependencyFailureMessage e =
     (if isCanceled e then ''Download cancelled''
      else (case asAppError e of
              Some a \<Rightarrow> (if err_message a \<noteq> [] then err_message a
                        else ''Could not resolve or install mod dependencies'')
            | None \<Rightarrow> ''Could not resolve or install mod dependencies''))"

definition downloadHTTPStatus :: "go_error \<Rightarrow> int" where
  "downloadHTTPStatus e =
     (case afterLastMarker ''HTTP '' (errorText e) of
        None \<Rightarrow> 0
      | Some rest \<Rightarrow> (case Atoi (TrimSpace rest) of Some status \<Rightarrow> status | None \<Rightarrow> 0))"

definition reportModDownloadError :: "env \<Rightarrow> go_error \<Rightarrow> unit act" where
  "reportModDownloadError E e =
     reportError E (if downloadHTTPStatus e = 404 then ''MOD_DOWNLOAD_HTTP_404'' else ''MOD_DOWNLOAD_FAILED'')
       ''mod_downloader'' ''download_mod''"

section \<open>Fetching a release\<close>

abbreviation "maxModDownloadBytes \<equiv> 536870912 :: int"

text \<open>A release of the library whose file is there.\<close>

definition cachedRelease :: "env \<Rightarrow> string \<Rightarrow> string \<Rightarrow> downloaded_mod option act" where
  "cachedRelease E modID versionID =
     catchE (storeGet E modID versionID) (\<lambda>r. case r of
       Inl _ \<Rightarrow> returnE None
     | Inr d \<Rightarrow> bindE (isFileE E (dm_file_path d)) (\<lambda>there. returnE (if there then Some d else None)))"

definition claimRelease :: "string \<Rightarrow> string \<Rightarrow> string \<Rightarrow> unit act" where
  "claimRelease taskID modID versionID =
     (\<lambda>w. case TaskClaim (w_tasks w) taskID modID versionID of (r, tm) \<Rightarrow> (r, w\<lparr>w_tasks := tm\<rparr>))"

definition downloadPercent :: "int \<Rightarrow> int \<Rightarrow> rat" where
  "downloadPercent downloadedBytes totalBytes =
     (if totalBytes > 0 then of_int downloadedBytes / of_int totalBytes else 0)"

definition downloadFailure :: "go_error \<Rightarrow> go_error" where
  "downloadFailure e =
     AppError ErrDownloadFailed (if isCanceled e then ''Download cancelled'' else ''Could not download the mod'')
       True (Some e)"

definition releaseRecord ::
  "'a mod_details_scheme \<Rightarrow> mod_version \<Rightarrow> string \<Rightarrow> int \<Rightarrow> time \<Rightarrow> downloaded_mod" where
  "releaseRecord details selected destination fileSize now =
     \<lparr>dm_schema = 1, dm_mod_id = ms_id details, dm_slug = ms_slug details, dm_name = ms_name details,
      dm_author = ms_author details, dm_image_url = ms_image_url details, dm_side = ms_side details,
      dm_version_id = mv_id selected, dm_version = mv_version selected,
      dm_game_versions = mv_game_versions selected, dm_tags = Some (ms_tags details),
      dm_file_name = Base destination, dm_file_path = destination, dm_file_size = fileSize,
      dm_checksum = mv_checksum selected, dm_download_url = mv_download_url selected,
      dm_downloaded_at = now, dm_instances = [], dm_latest = ms_latest details,
      dm_update_available = False\<rparr>"

definition releaseDownload :: "mod_version \<Rightarrow> string \<Rightarrow> download_request" where
  "releaseDownload selected destination =
     \<lparr>dr_url = mv_download_url selected, dr_destination = destination, dr_checksum = mv_checksum selected,
      dr_algorithm = ''sha256'', dr_resume = True, dr_max_bytes = maxModDownloadBytes\<rparr>"

definition fetchRelease :: "env \<Rightarrow> string \<Rightarrow> 'a mod_details_scheme \<Rightarrow> mod_version \<Rightarrow> string \<Rightarrow> unit act" where
  "fetchRelease E taskID details selected destination =
     catchE (Download E (releaseDownload selected destination) (\<lambda>downloadedBytes totalBytes.
         EmitProgress taskID (ms_id details) phaseDownloading downloadedBytes totalBytes
           (downloadPercent downloadedBytes totalBytes) (''Downloading '' @ ms_name details)))
       (\<lambda>r. case r of
          Inr _ \<Rightarrow> returnE ()
        | Inl e \<Rightarrow>
            bindE (ignoreE (removeE E (destination @ ''.partial''))) (\<lambda>_.
            bindE (if isCanceled e then returnE () else reportModDownloadError E e) (\<lambda>_.
            throwE (downloadFailure e))))"

definition storeRelease ::
  "env \<Rightarrow> string \<Rightarrow> 'a mod_details_scheme \<Rightarrow> mod_version \<Rightarrow> string \<Rightarrow> (downloaded_mod \<times> bool) act" where
  "storeRelease E taskID details selected destination =
     bindE (EmitProgress taskID (ms_id details) phasePreparing 0 0 0 ''Preparing download'') (\<lambda>_.
     bindE (fetchRelease E taskID details selected destination) (\<lambda>_.
     bindE (statE E destination) (\<lambda>info.
     bindE (nowE E) (\<lambda>now.
     bindE (storeSave E (releaseRecord details selected destination (node_size info) now)) (\<lambda>_.
     bindE (reportEvent E EventModDownloaded) (\<lambda>_.
     returnE (releaseRecord details selected destination (node_size info) now, True)))))))"

definition downloadCatalogVersion ::
  "env \<Rightarrow> string \<Rightarrow> 'a mod_details_scheme \<Rightarrow> mod_version \<Rightarrow> (downloaded_mod \<times> bool) act" where
  "downloadCatalogVersion E taskID details selected =
     (if \<not> HasPrefix (mv_download_url selected) ''https://''
      then throwE (NewError ErrInvalidModFile
             (''The catalog returned an unsafe download URL for '' @ ms_name details))
      else bindE (storeFilePath E (ms_id details) (mv_id selected) (mv_file_name selected)) (\<lambda>destination.
        bindE (cachedRelease E (ms_id details) (mv_id selected)) (\<lambda>cached.
        case cached of
          Some d \<Rightarrow> returnE (d, False)
        | None \<Rightarrow>
            bindE (catchE (claimRelease taskID (ms_id details) (mv_id selected)) (\<lambda>r. case r of
                Inr _ \<Rightarrow> returnE ()
              | Inl e \<Rightarrow>
                  throwE (if IsReleaseBusy e
                          then AppError ErrModAlreadyActive (ms_name details @ '' is already downloading'') False (Some e)
                          else e))) (\<lambda>_.
            bindE (cachedRelease E (ms_id details) (mv_id selected)) (\<lambda>again.
            case again of
              Some d \<Rightarrow> returnE (d, False)
            | None \<Rightarrow> storeRelease E taskID details selected destination)))))"

text \<open>A task: the reservation of its root release, freed when the body ends.\<close>

definition beginTask :: "string \<Rightarrow> string \<Rightarrow> string \<Rightarrow> mods_world \<Rightarrow> (string \<times> go_error + unit) \<times> mods_world" where
  "beginTask taskID modID versionID w =
     (case TaskBegin (w_tasks w) taskID modID versionID of (r, tm) \<Rightarrow> (r, w\<lparr>w_tasks := tm\<rparr>))"

definition endTask :: "string \<Rightarrow> mods_world \<Rightarrow> mods_world" where
  "endTask taskID w = w\<lparr>w_tasks := TaskRelease (w_tasks w) taskID\<rparr>"

definition withTask ::
  "string \<Rightarrow> string \<Rightarrow> string \<Rightarrow> (string \<Rightarrow> go_error \<Rightarrow> 'a act) \<Rightarrow> 'a act \<Rightarrow> 'a act" where
  "withTask taskID modID versionID refused body = (\<lambda>w.
     case beginTask taskID modID versionID w of
       (Inl (existing, e), w') \<Rightarrow> refused existing e w'
     | (Inr _, w') \<Rightarrow> finallyE body (endTask taskID) w')"

definition DownloadRelease :: "env \<Rightarrow> string \<Rightarrow> string \<Rightarrow> downloaded_mod act" where
  "DownloadRelease E modID versionID =
     bindE (cachedRelease E modID versionID) (\<lambda>cached.
     case cached of
       Some d \<Rightarrow> returnE d
     | None \<Rightarrow>
         bindE (CatalogGet E modID) (\<lambda>details.
         case FindModVersion (md_versions details) versionID of
           None \<Rightarrow> throwE (NewError ErrModVersionNotFound ''The exact mod release is no longer available'')
         | Some selected \<Rightarrow>
             bindE (newIDE E) (\<lambda>taskID.
             withTask taskID modID versionID (\<lambda>_ e. throwE e)
               (bindE (downloadCatalogVersion E taskID details selected) (\<lambda>d. returnE (fst d))))))"

section \<open>Installing a cached release\<close>

primrec sourceInUse :: "env \<Rightarrow> string \<Rightarrow> instance_ref list \<Rightarrow> bool act" where
  "sourceInUse E source [] = returnE False"
| "sourceInUse E source (inst # rest) =
     catchE (ListModRows E (ir_id inst)) (\<lambda>r. case r of
       Inl _ \<Rightarrow> returnE True
     | Inr mods \<Rightarrow>
         (if list_ex (\<lambda>m. im_source m = source) mods then returnE True else sourceInUse E source rest))"

definition removeSupersededCacheVersion :: "env \<Rightarrow> string \<Rightarrow> string \<Rightarrow> unit act" where
  "removeSupersededCacheVersion E modID versionID =
     catchE (ListInstances E) (\<lambda>r. case r of
       Inl _ \<Rightarrow> returnE ()
     | Inr instances \<Rightarrow>
         bindE (sourceInUse E (ModDBSource modID versionID) instances) (\<lambda>used.
           if used then returnE () else ignoreE (storeDelete E modID versionID)))"

definition previousRelease :: "string \<Rightarrow> installed_mod list \<Rightarrow> installed_mod option" where
  "previousRelease modID mods = find (\<lambda>m. HasPrefix (im_source m) (''moddb:'' @ modID @ '':'')) mods"

definition catalogMod ::
  "string \<Rightarrow> downloaded_mod \<Rightarrow> instance_ref \<Rightarrow> string \<times> int \<Rightarrow> string \<Rightarrow> time \<Rightarrow> installed_mod" where
  "catalogMod i d inst installed policy now =
     \<lparr>im_id = i, im_instance = ir_id inst, im_name = dm_name d, im_version = dm_version d,
      im_file_name = Base (fst installed), im_file_path = fst installed, im_enabled = True,
      im_managed = True, im_source = ModDBSource (dm_mod_id d) (dm_version_id d), im_policy = policy,
      im_size = snd installed, im_installed_at = now, im_updated_at = now\<rparr>"

definition installationResult :: "instance_ref \<Rightarrow> bool \<Rightarrow> string \<Rightarrow> mod_installation_result" where
  "installationResult inst installed message =
     \<lparr>mir_instance = ir_id inst, mir_instance_name = ir_name inst, mir_installed = installed, mir_message = message\<rparr>"

definition recordRelease ::
  "env \<Rightarrow> downloaded_mod \<Rightarrow> instance_ref \<Rightarrow> string \<times> int \<Rightarrow> string \<Rightarrow> mod_installation_result act" where
  "recordRelease E d inst installed policy =
     bindE (nowE E) (\<lambda>now.
     bindE (newIDE E) (\<lambda>i.
     catchE (SaveMod E (catalogMod i d inst installed policy now)) (\<lambda>r. case r of
       Inl _ \<Rightarrow> returnE (installationResult inst False ''Installed the file but could not save its metadata'')
     | Inr _ \<Rightarrow>
         bindE (publishE (ModEvent ''mod:installed'' (catalogMod i d inst installed policy now))) (\<lambda>_.
         returnE (installationResult inst True ''Installed'')))))"

definition dropPrevious :: "env \<Rightarrow> installed_mod \<Rightarrow> unit act" where
  "dropPrevious E previous =
     bindE (DeleteModRow E (im_id previous)) (\<lambda>_.
     case ParseModDBSource (im_source previous) of
       None \<Rightarrow> returnE ()
     | Some (modID, versionID) \<Rightarrow> removeSupersededCacheVersion E modID versionID)"

definition replaceRelease ::
  "env \<Rightarrow> downloaded_mod \<Rightarrow> instance_ref \<Rightarrow> installed_mod option \<Rightarrow> mod_installation_result act" where
  "replaceRelease E d inst previous =
     catchE (InstallOrReplace E (dm_file_path d) (ir_directory inst)
               (case previous of None \<Rightarrow> [] | Some p \<Rightarrow> im_file_path p)) (\<lambda>r. case r of
       Inl e \<Rightarrow> returnE (installationResult inst False (friendlyInstallError e))
     | Inr installed \<Rightarrow>
         (case previous of
            None \<Rightarrow> recordRelease E d inst installed UpdatePolicyAutomatic
          | Some p \<Rightarrow>
              catchE (dropPrevious E p) (\<lambda>r. case r of
                Inl _ \<Rightarrow> returnE (installationResult inst False
                                   ''Installed the file but could not update its metadata'')
              | Inr _ \<Rightarrow> recordRelease E d inst installed (NormalizeUpdatePolicy (im_policy p)))))"

definition installDownloadedMod :: "env \<Rightarrow> downloaded_mod \<Rightarrow> instance_ref \<Rightarrow> mod_installation_result act" where
  "installDownloadedMod E d inst =
     catchE (ListModRows E (ir_id inst)) (\<lambda>r. case r of
       Inl _ \<Rightarrow> returnE (installationResult inst False ''Could not inspect installed mods'')
     | Inr mods \<Rightarrow>
         (case previousRelease (dm_mod_id d) mods of
            None \<Rightarrow> replaceRelease E d inst None
          | Some p \<Rightarrow>
              (if im_source p = ModDBSource (dm_mod_id d) (dm_version_id d) \<and> im_version p = dm_version d
               then returnE (installationResult inst True ''Already installed'')
               else replaceRelease E d inst (Some p))))"

section \<open>The install plan\<close>

record plan_item =
  pi_downloaded :: downloaded_mod
  pi_root :: bool
  pi_now :: bool
  pi_requirements :: "string list"

type_synonym versions_by_mod = "(string \<times> string list) list"

definition versionsOf :: "versions_by_mod \<Rightarrow> string \<Rightarrow> string list" where
  "versionsOf byModID modID = lookup_default [] (map_of byModID) modID"

definition versionsSatisfyDependencies :: "'a versioning_scheme \<Rightarrow> string list \<Rightarrow> string list \<Rightarrow> bool" where
  "versionsSatisfyDependencies V versions requirements =
     list_ex (\<lambda>version. list_all (modVersionSatisfies V version) requirements) versions"

definition allTargetsSatisfyDependency ::
  "'a versioning_scheme \<Rightarrow> (string \<times> versions_by_mod) list \<Rightarrow> string \<Rightarrow> string \<Rightarrow> bool" where
  "allTargetsSatisfyDependency V installedVersions modID requirement \<longleftrightarrow>
     installedVersions \<noteq> [] \<and>
     list_all (\<lambda>(_, byModID). versionsSatisfyDependencies V (versionsOf byModID modID) [requirement]) installedVersions"

fun addCatalogModRequirement :: "string \<Rightarrow> string \<Rightarrow> plan_item list \<Rightarrow> plan_item list" where
  "addCatalogModRequirement modID requirement [] = []"
| "addCatalogModRequirement modID requirement (item # items) =
     (if EqualFold (TrimSpace (dm_mod_id (pi_downloaded item))) modID
      then item\<lparr>pi_requirements := pi_requirements item @ [requirement]\<rparr> # items
      else item # addCatalogModRequirement modID requirement items)"

definition removeCatalogModFromInstallPlan :: "string \<Rightarrow> plan_item list \<Rightarrow> plan_item list" where
  "removeCatalogModFromInstallPlan modID plan =
     filter (\<lambda>item. \<not> EqualFold (dm_mod_id (pi_downloaded item)) modID) plan"

definition newlyDownloadedDependencies :: "plan_item list \<Rightarrow> (string \<times> string \<times> string) list" where
  "newlyDownloadedDependencies plan =
     map (\<lambda>item. (dm_mod_id (pi_downloaded item), dm_name (pi_downloaded item), dm_version (pi_downloaded item)))
       (filter (\<lambda>item. \<not> pi_root item \<and> pi_now item) plan)"

definition alreadySatisfied :: "'a versioning_scheme \<Rightarrow> versions_by_mod \<Rightarrow> plan_item \<Rightarrow> bool" where
  "alreadySatisfied V installedVersions item \<longleftrightarrow> \<not> pi_root item \<and>
     versionsSatisfyDependencies V
       (versionsOf installedVersions (ToLower (TrimSpace (dm_mod_id (pi_downloaded item))))) (pi_requirements item)"

primrec installModPlan ::
  "env \<Rightarrow> instance_ref \<Rightarrow> versions_by_mod \<Rightarrow> plan_item list \<Rightarrow> mod_installation_result act" where
  "installModPlan E inst installedVersions [] =
     returnE (installationResult inst False ''The installation plan did not contain the requested mod'')"
| "installModPlan E inst installedVersions (item # items) =
     (if alreadySatisfied E installedVersions item
      then installModPlan E inst installedVersions items
      else bindE (installDownloadedMod E (pi_downloaded item) inst) (\<lambda>result.
        if \<not> mir_installed result
        then returnE (if pi_root item then result
                      else installationResult inst False
                        (''Could not install dependency '' @ dm_name (pi_downloaded item) @ '': '' @ mir_message result))
        else if pi_root item then returnE result
        else installModPlan E inst installedVersions items))"

section \<open>Frames\<close>

lemma evolves_EmitProgress [evolve_rules]: "ignores_output R \<Longrightarrow> evolves R (EmitProgress t m p a b c d)"
  unfolding EmitProgress_def by (auto intro!: evolve_rules)

lemma evolves_EmitDownloadsChanged [evolve_rules]: "ignores_output R \<Longrightarrow> evolves R (EmitDownloadsChanged t m d)"
  unfolding EmitDownloadsChanged_def by (auto intro!: evolve_rules)

lemma evolves_cachedRelease [evolve_rules]: "tick_free R \<Longrightarrow> evolves R (cachedRelease E m v)"
  unfolding cachedRelease_def isFileE_def by (auto intro!: evolve_rules)

text \<open>Only the claim of a release writes the reservations.\<close>

lemma evolves_downloadCatalogVersion_claims:
  assumes "tick_free R" "ignores_fs R" "ignores_output R" "\<And>m v. evolves R (claimRelease t m v)"
  shows "evolves R (downloadCatalogVersion E t details selected)"
  using assms
  unfolding downloadCatalogVersion_def storeRelease_def fetchRelease_def reportModDownloadError_def removeE_def
  by (auto intro!: evolve_rules)

lemma evolves_claimRelease: "tick_free R \<Longrightarrow> ignores_tasks R \<Longrightarrow> evolves R (claimRelease t m v)"
  by (auto simp: evolves_def claimRelease_def ignores_tasks_def split: prod.splits)

lemma evolves_downloadCatalogVersion:
  "tick_free R \<Longrightarrow> ignores_fs R \<Longrightarrow> ignores_output R \<Longrightarrow> ignores_tasks R \<Longrightarrow>
     evolves R (downloadCatalogVersion E t details selected)"
  by (intro evolves_downloadCatalogVersion_claims evolves_claimRelease)

lemma evolves_withTask [evolve_rules]:
  assumes "tick_free R" "ignores_tasks R" "\<And>x e. evolves R (refused x e)" "evolves R body"
  shows "evolves R (withTask t m v refused body)"
proof -
  have started: "R w ((w :: mods_world)\<lparr>w_tasks := tm\<rparr>)" for w tm using assms(2) by (simp add: ignores_tasks_def)
  have fin: "evolves R (finallyE body (endTask t))"
    by (rule evolves_finallyE) (use assms started in \<open>auto simp: endTask_def\<close>)
  show ?thesis
    unfolding evolves_def
  proof
    fix w :: mods_world
    obtain r tm where b: "TaskBegin (w_tasks w) t m v = (r, tm)" by fastforce
    have "R (w\<lparr>w_tasks := tm\<rparr>) (snd ((case r of Inl (x, e) \<Rightarrow> refused x e | Inr _ \<Rightarrow> finallyE body (endTask t)) (w\<lparr>w_tasks := tm\<rparr>)))"
      using assms(3) fin by (cases r) (auto simp: evolves_def)
    with started preorder_trans [OF tick_free_preorder [OF assms(1)]]
    show "R w (snd (withTask t m v refused body w))"
      by (cases r) (auto simp: withTask_def beginTask_def b split: prod.splits, blast+)
  qed
qed

lemma evolves_DownloadRelease [evolve_rules]:
  "tick_free R \<Longrightarrow> ignores_fs R \<Longrightarrow> ignores_output R \<Longrightarrow> ignores_tasks R \<Longrightarrow> evolves R (DownloadRelease E m v)"
  unfolding DownloadRelease_def by (auto intro!: evolve_rules evolves_downloadCatalogVersion)

lemma evolves_sourceInUse [evolve_rules]: "tick_free R \<Longrightarrow> evolves R (sourceInUse E s is)"
  by (induction "is") (auto intro!: evolve_rules)

lemma evolves_removeSuperseded [evolve_rules]:
  "tick_free R \<Longrightarrow> ignores_fs R \<Longrightarrow> evolves R (removeSupersededCacheVersion E m v)"
  unfolding removeSupersededCacheVersion_def by (auto intro!: evolve_rules)

lemma evolves_installDownloadedMod [evolve_rules]:
  "tick_free R \<Longrightarrow> ignores_fs R \<Longrightarrow> ignores_rows R \<Longrightarrow> ignores_output R \<Longrightarrow>
     evolves R (installDownloadedMod E d inst)"
  unfolding installDownloadedMod_def replaceRelease_def dropPrevious_def recordRelease_def
  by (auto intro!: evolve_rules)

lemma evolves_installModPlan [evolve_rules]:
  "tick_free R \<Longrightarrow> ignores_fs R \<Longrightarrow> ignores_rows R \<Longrightarrow> ignores_output R \<Longrightarrow>
     evolves R (installModPlan E inst vs plan)"
  by (induction plan) (auto intro!: evolve_rules)

end
