(* ===== verification/ModResolve.thy ===== *)
theory ModResolve
  imports ModInstall
begin

text \<open>
  \<open>resolveAndDownloadCatalogMod\<close> of \<open>internal/mods/download.go\<close>: the recursion over the
  dependencies a release declares.  The maps and slices it fills through pointers
  (\<open>resolved\<close>, \<open>plan\<close>, \<open>newDownloads\<close>) are the record \<open>resolution\<close>, a second component of
  the state; they keep what was filled in when the recursion fails.  \<open>visiting\<close> is the path
  of the recursion (its entries are deleted on return), so it is an argument.  An error is
  \<open>Some e\<close>; \<open>None\<close> stands for the end of the fuel, and \<open>resolve_fuel_enough\<close> shows that it
  does not occur.
\<close>

record resolution =
  rs_resolved :: "(string \<times> mod_version) list"
  rs_plan :: "plan_item list"
  rs_new :: "downloaded_mod list"

definition emptyResolution :: resolution where
  "emptyResolution = \<lparr>rs_resolved = [], rs_plan = [], rs_new = []\<rparr>"

type_synonym 'a res_act = "(mods_world \<times> resolution, go_error option, 'a) eff"

definition liftW :: "'a act \<Rightarrow> 'a res_act" where
  "liftW m = (\<lambda>(w, s). case m w of (Inl e, w') \<Rightarrow> (Inl (Some e), (w', s)) | (Inr x, w') \<Rightarrow> (Inr x, (w', s)))"

definition failS :: "go_error \<Rightarrow> 'a res_act" where
  "failS e = throwE (Some e)"

definition changeS :: "(resolution \<Rightarrow> resolution) \<Rightarrow> unit res_act" where
  "changeS f = modifyE (\<lambda>(w, s). (w, f s))"

definition resolvedVersion :: "string \<Rightarrow> mod_version option res_act" where
  "resolvedVersion canonicalID = getE (\<lambda>(w, s). map_of (rs_resolved s) canonicalID)"

text \<open>What stays the same during one resolution.\<close>

record resolve_request =
  rr_task :: string
  rr_game_versions :: "string list"
  rr_allow_incompatible :: bool
  rr_installed :: "(string \<times> versions_by_mod) list"

definition dependencyIDs :: "archive_info \<Rightarrow> string list" where
  "dependencyIDs info = sort_strings (filter (\<lambda>d. \<not> isBuiltInModDependency d) (map fst (ai_dependencies info)))"

definition requirementOf :: "archive_info \<Rightarrow> string \<Rightarrow> string" where
  "requirementOf info d = TrimSpace (lookup_default [] (map_of (ai_dependencies info)) d)"

definition noReleaseError :: "mod_details \<Rightarrow> string \<Rightarrow> mod_details \<Rightarrow> go_error" where
  "noReleaseError dependency requirement details = NewError ErrModVersionNotFound
     (''No compatible release of dependency '' @ ms_name dependency @ '' ('' @
        (if requirement = [] \<or> requirement = ''*'' then ''any version'' else requirement) @
        '') was found for '' @ ms_name details)"

definition dependencyDetails :: "env \<Rightarrow> mod_details \<Rightarrow> string \<Rightarrow> mod_details act" where
  "dependencyDetails E details d = catchE (CatalogGet E d) (\<lambda>r. case r of
     Inr x \<Rightarrow> returnE x
   | Inl e \<Rightarrow> throwE (AppError ErrModCatalog
       (''Could not resolve required dependency '' @ d @ '' for '' @ ms_name details) False (Some e)))"

text \<open>An earlier version that does not satisfy this branch is dropped from the plan.\<close>

definition dropResolved :: "string \<Rightarrow> string \<Rightarrow> resolution \<Rightarrow> resolution" where
  "dropResolved canonicalID modID s =
     s\<lparr>rs_resolved := AList.delete canonicalID (rs_resolved s),
       rs_plan := removeCatalogModFromInstallPlan modID (rs_plan s)\<rparr>"

type_synonym resolver = "mod_details \<Rightarrow> mod_version \<Rightarrow> bool \<Rightarrow> string list \<Rightarrow> string \<Rightarrow> downloaded_mod res_act"

definition chooseDependency ::
  "resolver \<Rightarrow> env \<Rightarrow> resolve_request \<Rightarrow> mod_details \<Rightarrow> string list \<Rightarrow> string \<Rightarrow> mod_details \<Rightarrow> unit res_act" where
  "chooseDependency recur E q details visiting requirement dependency =
     (if allTargetsSatisfyDependency E (rr_installed q) (canonicalCatalogModID dependency) requirement
      then returnE ()
      else (case findDependencyVersion E (md_versions dependency) requirement (rr_game_versions q)
                   (rr_allow_incompatible q) of
              None \<Rightarrow> failS (noReleaseError dependency requirement details)
            | Some version \<Rightarrow>
                bindE (recur dependency version False visiting requirement) (\<lambda>_. returnE ())))"

definition resolveDependency ::
  "resolver \<Rightarrow> env \<Rightarrow> resolve_request \<Rightarrow> mod_details \<Rightarrow> string list \<Rightarrow> archive_info \<Rightarrow> string \<Rightarrow> unit res_act" where
  "resolveDependency recur E q details visiting info d =
     bindE (liftW (EmitProgress (rr_task q) (ms_id details) phaseResolving 0 0 0
              (''Resolving dependency '' @ d @ '' for '' @ ms_name details))) (\<lambda>_.
     bindE (liftW (dependencyDetails E details d)) (\<lambda>dependency.
     bindE (resolvedVersion (canonicalCatalogModID dependency)) (\<lambda>known.
     case known of
       None \<Rightarrow> chooseDependency recur E q details visiting (requirementOf info d) dependency
     | Some v \<Rightarrow>
         (if modVersionSatisfies E (mv_version v) (requirementOf info d)
          then changeS (\<lambda>s. s\<lparr>rs_plan :=
                 addCatalogModRequirement (canonicalCatalogModID dependency) (requirementOf info d) (rs_plan s)\<rparr>)
          else bindE (changeS (dropResolved (canonicalCatalogModID dependency) (ms_id dependency))) (\<lambda>_.
               chooseDependency recur E q details visiting (requirementOf info d) dependency)))))"

definition finishRelease ::
  "string \<Rightarrow> mod_version \<Rightarrow> downloaded_mod \<Rightarrow> bool \<Rightarrow> bool \<Rightarrow> string \<Rightarrow> resolution \<Rightarrow> resolution" where
  "finishRelease canonicalID selected downloaded isRoot downloadedNow requirement s =
     s\<lparr>rs_resolved := AList.update canonicalID selected (rs_resolved s),
       rs_plan := rs_plan s @ [\<lparr>pi_downloaded = downloaded, pi_root = isRoot, pi_now = downloadedNow,
                                pi_requirements = [requirement]\<rparr>]\<rparr>"

definition resolveFresh :: "resolver \<Rightarrow> env \<Rightarrow> resolve_request \<Rightarrow> resolver" where
  "resolveFresh recur E q details selected isRoot visiting requirement =
     bindE (liftW (downloadCatalogVersion E (rr_task q) details selected)) (\<lambda>(downloaded, downloadedNow).
     bindE (changeS (\<lambda>s. if downloadedNow then s\<lparr>rs_new := rs_new s @ [downloaded]\<rparr> else s)) (\<lambda>_.
     bindE (liftW (ReadModArchiveInfo E (dm_file_path downloaded))) (\<lambda>info.
     bindE (forE (dependencyIDs info)
              (resolveDependency recur E q details (canonicalCatalogModID details # visiting) info)) (\<lambda>_.
     bindE (changeS (finishRelease (canonicalCatalogModID details) selected downloaded isRoot downloadedNow requirement)) (\<lambda>_.
     returnE downloaded)))))"

definition resolveStep :: "resolver \<Rightarrow> env \<Rightarrow> resolve_request \<Rightarrow> resolver" where
  "resolveStep recur E q details selected isRoot visiting requirement =
     (if canonicalCatalogModID details = []
      then failS (NewError ErrModCatalog ''The catalog returned a mod without an ID'')
      else bindE (resolvedVersion (canonicalCatalogModID details)) (\<lambda>known.
        case known of
          Some v \<Rightarrow> liftW (storeGet E (ms_id details) (mv_id v))
        | None \<Rightarrow>
            (if canonicalCatalogModID details \<in> set visiting
             then failS (NewError ErrModCatalog
                    (''Circular dependency detected while resolving '' @ ms_name details))
             else resolveFresh recur E q details selected isRoot visiting requirement)))"

primrec resolveAndDownload :: "nat \<Rightarrow> env \<Rightarrow> resolve_request \<Rightarrow> resolver" where
  "resolveAndDownload 0 E q = (\<lambda>details selected isRoot visiting requirement. throwE None)"
| "resolveAndDownload (Suc fuel) E q = resolveStep (resolveAndDownload fuel E q) E q"

definition resolveAndDownloadCatalogMod ::
  "env \<Rightarrow> resolve_request \<Rightarrow> mod_details \<Rightarrow> mod_version \<Rightarrow> downloaded_mod res_act" where
  "resolveAndDownloadCatalogMod E q details selected =
     resolveAndDownload (Suc (ev_catalog_size E)) E q details selected True [] []"

section \<open>Frames\<close>

definition onWorld :: "(mods_world \<Rightarrow> mods_world \<Rightarrow> bool) \<Rightarrow> mods_world \<times> resolution \<Rightarrow> mods_world \<times> resolution \<Rightarrow> bool" where
  "onWorld R s s' \<longleftrightarrow> R (fst s) (fst s')"

lemma preorder_onWorld [simp]: "preorder_rel R \<Longrightarrow> preorder_rel (onWorld R)"
  by (auto simp: preorder_rel_def onWorld_def reflp_def transp_def)

lemma evolves_liftW [evolve_rules]: "evolves R m \<Longrightarrow> evolves (onWorld R) (liftW m)"
  by (auto simp: evolves_def onWorld_def liftW_def split: prod.splits sum.splits)
     (metis snd_conv)+

lemma evolves_failS [evolve_rules]: "preorder_rel R \<Longrightarrow> evolves (onWorld R) (failS e)"
  unfolding failS_def by (auto intro!: evolve_rules)

lemma evolves_changeS [evolve_rules]: "preorder_rel R \<Longrightarrow> evolves (onWorld R) (changeS f)"
  unfolding changeS_def by (auto intro!: evolve_rules simp: onWorld_def preorder_refl)

lemma evolves_resolvedVersion [evolve_rules]: "preorder_rel R \<Longrightarrow> evolves (onWorld R) (resolvedVersion c)"
  unfolding resolvedVersion_def by (auto intro!: evolve_rules)

lemma evolves_resolveAndDownload_claims:
  assumes "tick_free R" "ignores_fs R" "ignores_output R" "\<And>m v. evolves R (claimRelease (rr_task q) m v)"
  shows "evolves (onWorld R) (resolveAndDownload fuel E q details selected isRoot visiting requirement)"
proof (induction fuel arbitrary: details selected isRoot visiting requirement)
  case (Suc fuel)
  then show ?case
    using assms
    unfolding resolveAndDownload.simps resolveStep_def resolveFresh_def resolveDependency_def chooseDependency_def
      dependencyDetails_def
    by (auto intro!: evolve_rules evolves_downloadCatalogVersion_claims)
qed (use assms in \<open>auto intro!: evolve_rules\<close>)

section \<open>What the effects on the pair guarantee\<close>

lemma wp_liftW [wp_simps]:
  "wp (liftW m) Q X ws \<longleftrightarrow> wp m (\<lambda>x w'. Q x (w', snd ws)) (\<lambda>e w'. X (Some e) (w', snd ws)) (fst ws)"
  by (cases ws) (auto simp: wp_def liftW_def split: prod.splits sum.splits)

lemma wp_failS [wp_simps]: "wp (failS e) Q X ws \<longleftrightarrow> X (Some e) ws"
  by (simp add: failS_def wp_simps)

lemma wp_changeS [wp_simps]: "wp (changeS f) Q X ws \<longleftrightarrow> Q () (fst ws, f (snd ws))"
  by (cases ws) (simp add: changeS_def wp_simps)

lemma wp_resolvedVersion [wp_simps]:
  "wp (resolvedVersion c) Q X ws \<longleftrightarrow> Q (map_of (rs_resolved (snd ws)) c) ws"
  by (cases ws) (simp add: resolvedVersion_def wp_simps)

lemma wp_any: "(\<And>x w'. Q x w') \<Longrightarrow> (\<And>e w'. X e w') \<Longrightarrow> wp m Q X w"
  by (auto simp: wp_def split: prod.splits sum.splits)

text \<open>
  One dependency and one release, for a condition \<open>I\<close> on the resolution: \<open>K\<close> is what is
  known of the details the catalog answers.
\<close>

lemma wp_chooseDependency:
  assumes "\<And>v. wp (recur dependency v False visiting requirement) (\<lambda>_. Q) X ws" "Q ws" "\<And>e. X (Some e) ws"
  shows "wp (chooseDependency recur E q details visiting requirement dependency) (\<lambda>_. Q) X ws"
  using assms unfolding chooseDependency_def
  by (cases "findDependencyVersion E (md_versions dependency) requirement (rr_game_versions q)
        (rr_allow_incompatible q)") (simp_all add: wp_simps)

lemma wp_resolveDependency:
  assumes recur: "\<And>dependency v ws. K dependency \<Longrightarrow> I (snd ws) \<Longrightarrow>
      wp (recur dependency v False visiting (requirementOf info d)) (\<lambda>_ ws'. I (snd ws')) X ws"
    and details: "\<And>w. wp (dependencyDetails E details d) (\<lambda>dependency _. K dependency) (\<lambda>_ _. True) w"
    and fail: "\<And>e ws. X (Some e) ws"
    and keep: "\<And>m s. I s \<Longrightarrow> I (s\<lparr>rs_plan := addCatalogModRequirement m (requirementOf info d) (rs_plan s)\<rparr>)"
      "\<And>c m s. I s \<Longrightarrow> I (dropResolved c m s)"
    and I: "I (snd ws)"
  shows "wp (resolveDependency recur E q details visiting info d) (\<lambda>_ ws'. I (snd ws')) X ws"
proof -
  have choose: "wp (chooseDependency recur E q details visiting (requirementOf info d) dependency)
      (\<lambda>_ ws'. I (snd ws')) X us" if "K dependency" "I (snd us)" for dependency us
    by (rule wp_chooseDependency) (use that recur fail in auto)
  have known: "wp (case map_of (rs_resolved s) (canonicalCatalogModID dependency) of
       None \<Rightarrow> chooseDependency recur E q details visiting (requirementOf info d) dependency
     | Some v \<Rightarrow>
         (if modVersionSatisfies E (mv_version v) (requirementOf info d)
          then changeS (\<lambda>s. s\<lparr>rs_plan :=
                 addCatalogModRequirement (canonicalCatalogModID dependency) (requirementOf info d) (rs_plan s)\<rparr>)
          else bindE (changeS (dropResolved (canonicalCatalogModID dependency) (ms_id dependency))) (\<lambda>_.
               chooseDependency recur E q details visiting (requirementOf info d) dependency)))
      (\<lambda>_ ws'. I (snd ws')) X (w, s)" if "K dependency" "I s" for dependency w s
    using that keep choose by (auto simp: wp_if wp_changeS wp_bindE split: option.split)
  have step: "wp (liftW (dependencyDetails E details d)) (\<lambda>dependency ws'. K dependency \<and> I (snd ws')) X us"
    if "I (snd us)" for us
    unfolding wp_liftW by (rule wp_mono [OF details]) (use that fail in auto)
  show ?thesis
    unfolding resolveDependency_def EmitProgress_def publishE_def wp_bindE wp_resolvedVersion
    by (subst wp_liftW, unfold wp_modifyE)
       (rule wp_mono [OF step], use I known in auto)
qed

lemma wp_resolveStep:
  assumes deps: "\<And>info d us. canonicalCatalogModID details \<notin> set visiting \<Longrightarrow> I (snd us) \<Longrightarrow>
      wp (resolveDependency recur E q details (canonicalCatalogModID details # visiting) info d)
        (\<lambda>_ ws'. I (snd ws')) X us"
    and fail: "\<And>e us. X (Some e) us"
    and new: "\<And>d s. I s \<Longrightarrow> I (s\<lparr>rs_new := rs_new s @ [d]\<rparr>)"
    and finish: "\<And>d n us. I (snd us) \<Longrightarrow>
      Q d (fst us, finishRelease (canonicalCatalogModID details) selected d isRoot n requirement (snd us))"
    and known: "\<And>v d w. map_of (rs_resolved (snd ws)) (canonicalCatalogModID details) = Some v \<Longrightarrow> Q d (w, snd ws)"
    and I: "I (snd ws)"
  shows "wp (resolveStep recur E q details selected isRoot visiting requirement) Q X ws"
proof -
  have all: "wp (forE (dependencyIDs info)
        (resolveDependency recur E q details (canonicalCatalogModID details # visiting) info))
      (\<lambda>_ us'. wp (bindE (changeS (finishRelease (canonicalCatalogModID details) selected downloaded isRoot n requirement))
        (\<lambda>_. returnE downloaded)) Q X us') X us"
    if "canonicalCatalogModID details \<notin> set visiting" "I (snd us)" for info us downloaded n
  proof -
    have "wp (forE (dependencyIDs info)
        (resolveDependency recur E q details (canonicalCatalogModID details # visiting) info))
        (\<lambda>_ us'. I (snd us')) X us"
      by (rule wp_forE) (use deps that in auto)
    then show ?thesis
      by (rule wp_mono) (auto simp: wp_bindE wp_changeS wp_returnE intro: finish)
  qed
  have read: "wp (bindE (liftW (ReadModArchiveInfo E (dm_file_path downloaded))) (\<lambda>info.
      bindE (forE (dependencyIDs info)
              (resolveDependency recur E q details (canonicalCatalogModID details # visiting) info)) (\<lambda>_.
      bindE (changeS (finishRelease (canonicalCatalogModID details) selected downloaded isRoot n requirement)) (\<lambda>_.
      returnE downloaded)))) Q X us"
    if "canonicalCatalogModID details \<notin> set visiting" "I (snd us)" for us downloaded n
    unfolding wp_bindE [of "liftW _"] wp_liftW wp_bindE [of "forE _ _"]
    by (rule wp_any) (use that all fail in auto)
  have fresh: "wp (resolveFresh recur E q details selected isRoot visiting requirement) Q X ws"
    if "canonicalCatalogModID details \<notin> set visiting"
    unfolding resolveFresh_def wp_bindE [of "liftW (downloadCatalogVersion _ _ _ _)"] wp_liftW [of "downloadCatalogVersion _ _ _ _"]
  proof (rule wp_any)
    fix x :: "downloaded_mod \<times> bool" and w'
    obtain downloaded n where x: "x = (downloaded, n)" by fastforce
    show "wp (case x of (downloaded, downloadedNow) \<Rightarrow>
        bindE (changeS (\<lambda>s. if downloadedNow then s\<lparr>rs_new := rs_new s @ [downloaded]\<rparr> else s)) (\<lambda>_.
        bindE (liftW (ReadModArchiveInfo E (dm_file_path downloaded))) (\<lambda>info.
        bindE (forE (dependencyIDs info)
                (resolveDependency recur E q details (canonicalCatalogModID details # visiting) info)) (\<lambda>_.
        bindE (changeS (finishRelease (canonicalCatalogModID details) selected downloaded isRoot downloadedNow requirement)) (\<lambda>_.
        returnE downloaded))))) Q X (w', snd ws)"
      unfolding x prod.case wp_bindE [of "changeS (\<lambda>s. if n then _ s else s)"] wp_changeS [of "\<lambda>s. if n then _ s else s"]
      by (rule read [OF that]) (use I new in auto)
  qed (rule fail)
  show ?thesis
    unfolding resolveStep_def wp_if wp_bindE wp_resolvedVersion
    using fresh fail known by (auto simp: wp_failS wp_liftW intro!: wp_any split: option.split)
qed

section \<open>The recursion ends\<close>

definition catalog_within :: "env \<Rightarrow> string set \<Rightarrow> bool" where
  "catalog_within E known \<longleftrightarrow>
     (\<forall>n m d. ev_catalog_get E n m = Inr d \<longrightarrow> canonicalCatalogModID d \<in> known)"

lemma wp_dependencyDetails:
  assumes "catalog_within E known" "\<And>d w'. canonicalCatalogModID d \<in> known \<Longrightarrow> Q d w'" "\<And>e w'. X e w'"
  shows "wp (dependencyDetails E details d) Q X w"
  unfolding dependencyDetails_def CatalogGet_def wp_catchE
  by (rule wp_callE) (use assms in \<open>auto simp: wp_throwE wp_returnE wp_def catalog_within_def split: sum.splits\<close>)

lemma resolve_fuel:
  assumes "catalog_within E known" "finite known"
  shows "canonicalCatalogModID details \<in> known \<Longrightarrow> card (known - set visiting) < fuel \<Longrightarrow>
    wp (resolveAndDownload fuel E q details selected isRoot visiting requirement) (\<lambda>_ _. True) (\<lambda>e _. e \<noteq> None) ws"
proof (induction fuel arbitrary: details selected isRoot visiting requirement ws)
  case (Suc fuel)
  let ?c = "canonicalCatalogModID details"
  have deps: "wp (resolveDependency (resolveAndDownload fuel E q) E q details (?c # visiting) info d)
      (\<lambda>_ _. True) (\<lambda>e _. e \<noteq> None) us" if "?c \<notin> set visiting" for info d us
  proof -
    have "known - set (?c # visiting) = (known - set visiting) - {?c}" by auto
    then have "card (known - set (?c # visiting)) < fuel"
      using card_Diff1_less [of "known - set visiting" ?c] Suc.prems that assms(2) by simp
    then show ?thesis
      by (intro wp_resolveDependency [where K = "\<lambda>d. canonicalCatalogModID d \<in> known" and I = "\<lambda>_. True"] Suc.IH)
         (auto intro!: wp_dependencyDetails [OF assms(1)])
  qed
  show ?case
    unfolding resolveAndDownload.simps
    by (rule wp_resolveStep [where I = "\<lambda>_. True"]) (use deps in auto)
qed simp

text \<open>
  C37 (termination).  When the catalog knows no more mods than its size says, resolving a
  release always ends with a result or an error of its own: the recursion cannot visit a mod
  twice on one path, so it is never deeper than the catalog is large.
\<close>

theorem resolve_fuel_enough:
  assumes "catalog_within E (set known)" "length known \<le> ev_catalog_size E"
    and "canonicalCatalogModID details \<in> set known"
  shows "fst (resolveAndDownloadCatalogMod E q details selected (w, s)) \<noteq> Inl None"
proof -
  have "card (set known - set []) < Suc (ev_catalog_size E)"
    using assms(2) card_length [of known] by simp
  from resolve_fuel [OF assms(1) finite_set assms(3) this]
  have "wp (resolveAndDownloadCatalogMod E q details selected) (\<lambda>_ _. True) (\<lambda>e _. e \<noteq> None) (w, s)"
    unfolding resolveAndDownloadCatalogMod_def .
  then show ?thesis
    by (cases "fst (resolveAndDownloadCatalogMod E q details selected (w, s))")
       (auto simp: wp_def split: prod.splits)
qed

section \<open>The shape of the plan\<close>

definition no_root :: "plan_item list \<Rightarrow> bool" where
  "no_root plan \<longleftrightarrow> (\<forall>item \<in> set plan. \<not> pi_root item)"

lemma no_root_requirement: "no_root plan \<Longrightarrow> no_root (addCatalogModRequirement m r plan)"
  unfolding no_root_def by (induction m r plan rule: addCatalogModRequirement.induct) auto

lemma no_root_remove: "no_root plan \<Longrightarrow> no_root (removeCatalogModFromInstallPlan m plan)"
  by (auto simp: no_root_def removeCatalogModFromInstallPlan_def)

definition plan_after :: "bool \<Rightarrow> downloaded_mod \<Rightarrow> plan_item list \<Rightarrow> bool" where
  "plan_after isRoot d plan \<longleftrightarrow>
     (if isRoot then \<exists>ps item. plan = ps @ [item] \<and> no_root ps \<and> pi_root item \<and> pi_downloaded item = d
      else no_root plan)"

lemma resolve_plan:
  "no_root (rs_plan (snd ws)) \<Longrightarrow> \<not> isRoot \<or> map_of (rs_resolved (snd ws)) (canonicalCatalogModID details) = None \<Longrightarrow>
    wp (resolveAndDownload fuel E q details selected isRoot visiting requirement)
      (\<lambda>d ws'. plan_after isRoot d (rs_plan (snd ws'))) (\<lambda>_ _. True) ws"
proof (induction fuel arbitrary: details selected isRoot visiting requirement ws)
  case (Suc fuel)
  let ?I = "\<lambda>s. no_root (rs_plan s)"
  have sub: "wp (resolveAndDownload fuel E q details' selected' False visiting' requirement')
      (\<lambda>_ us'. ?I (snd us')) (\<lambda>_ _. True) us" if "?I (snd us)" for details' selected' visiting' requirement' us
    using Suc.IH [of us False details' selected' visiting' requirement'] that by (simp add: plan_after_def)
  have deps: "wp (resolveDependency (resolveAndDownload fuel E q) E q details visiting' info d)
      (\<lambda>_ us'. ?I (snd us')) (\<lambda>_ _. True) us" if "?I (snd us)" for info d us visiting'
    by (rule wp_resolveDependency [where K = "\<lambda>_. True" and I = ?I])
       (use that sub in \<open>auto simp: dropResolved_def no_root_requirement no_root_remove intro!: wp_any\<close>)
  show ?case
    unfolding resolveAndDownload.simps
    by (rule wp_resolveStep [where I = ?I])
       (use Suc.prems deps in \<open>auto simp: finishRelease_def plan_after_def no_root_def\<close>)
qed (simp add: wp_simps)

text \<open>
  A successful resolution from scratch plans the requested release exactly
  once, as the last item and the only root, after everything it depends on.
\<close>

theorem resolve_plan_root:
  "case resolveAndDownloadCatalogMod E q details selected (w, emptyResolution) of
     (Inr d, (_, s)) \<Rightarrow> \<exists>ps item. rs_plan s = ps @ [item] \<and> pi_root item \<and> pi_downloaded item = d \<and> no_root ps
   | _ \<Rightarrow> True"
proof -
  have "wp (resolveAndDownloadCatalogMod E q details selected)
      (\<lambda>d ws'. plan_after True d (rs_plan (snd ws'))) (\<lambda>_ _. True) (w, emptyResolution)"
    unfolding resolveAndDownloadCatalogMod_def
    by (rule resolve_plan) (simp_all add: emptyResolution_def no_root_def)
  then show ?thesis
    by (auto simp: wp_def plan_after_def split: prod.splits sum.splits)
qed

text \<open>A catalog of two mods: \<open>A\<close> requires at least version \<open>1\<close> of \<open>B\<close>.\<close>

definition catalogRelease :: mod_version where
  "catalogRelease = blankModVersion\<lparr>mv_id := ''r'', mv_version := ''11'', mv_release_type := ''stable'',
     mv_file_name := ''m.zip'', mv_download_url := ''https://x/m''\<rparr>"

definition catalogDetails :: "string \<Rightarrow> mod_details" where
  "catalogDetails m = (sampleDetails m [catalogRelease])\<lparr>ms_name := m, ms_latest := ''11''\<rparr>"

definition catalogEnv :: env where
  "catalogEnv = sampleEnv\<lparr>
     ev_catalog_get := (\<lambda>n m. if m = ''A'' \<or> m = ''B'' then Inr (catalogDetails m) else Inl NotFoundError),
     ev_archive := (\<lambda>c. Inr \<lparr>ai_mod_id = ''A'', ai_name = ''A'', ai_version = ''11'', ai_dependencies = [(''B'', ''*'')]\<rparr>)\<rparr>"

definition catalogRequest :: resolve_request where
  "catalogRequest = \<lparr>rr_task = ''t'', rr_game_versions = [], rr_allow_incompatible = True, rr_installed = []\<rparr>"

theorem resolve_fuel_enough_witness:
  "fst (resolveAndDownloadCatalogMod catalogEnv catalogRequest (catalogDetails ''A'') catalogRelease
     (sampleWorld [(''/d'', DirNode)] [], emptyResolution)) \<noteq> Inl None"
proof (rule resolve_fuel_enough)
  show "catalog_within catalogEnv (set [''a'', ''b''])"
    by (auto simp: catalog_within_def catalogEnv_def catalogDetails_def canonicalCatalogModID_def
        split: if_splits) (code_simp+)
  show "canonicalCatalogModID (catalogDetails ''A'') \<in> set [''a'', ''b'']" by code_simp
qed (simp add: catalogEnv_def sampleEnv_def)

end
