(* ===== verification/ModCatalog.thy ===== *)
theory ModCatalog
  imports ModResolve
begin

text \<open>
  \<open>internal/mods/catalog.go\<close> and \<open>favorites.go\<close>: browsing the catalog, the library of
  cached releases, downloads into instances, and the removal of releases nobody uses.  A
  method that returns a value beside its error answers with the pair of both.
\<close>

section \<open>The library and the instances\<close>

type_synonym installed_by_key = "(string \<times> installed_mod_instance) list"

definition installedEntry :: "instance_ref \<Rightarrow> installed_mod \<Rightarrow> (string \<times> installed_mod_instance) option" where
  "installedEntry inst m =
     (case ParseModDBSource (im_source m) of
        None \<Rightarrow> None
      | Some (modID, versionID) \<Rightarrow>
          Some (modDownloadKey modID versionID,
                \<lparr>imi_id = ir_id inst, imi_name = ir_name inst, imi_version = im_version m, imi_enabled = im_enabled m\<rparr>))"

definition collectInstalled :: "env \<Rightarrow> instance_ref \<Rightarrow> installed_by_key \<Rightarrow> installed_by_key act" where
  "collectInstalled E inst acc = catchE (ListModRows E (ir_id inst)) (\<lambda>r. returnE (case r of
     Inl _ \<Rightarrow> acc
   | Inr mods \<Rightarrow> acc @ List.map_filter (installedEntry inst) mods))"

definition instancesOf :: "installed_by_key \<Rightarrow> downloaded_mod \<Rightarrow> installed_mod_instance list" where
  "instancesOf bySource d =
     map snd (filter (\<lambda>(key, _). key = modDownloadKey (dm_mod_id d) (dm_version_id d)) bySource)"

text \<open>\<open>sort.Slice\<close> leaves the order of equal elements open; here they keep theirs.\<close>

definition listDownloadedMods :: "env \<Rightarrow> downloaded_mod list act" where
  "listDownloadedMods E =
     bindE (storeList E) (\<lambda>items.
     bindE (ListInstances E) (\<lambda>instances.
     bindE (foldE (collectInstalled E) instances []) (\<lambda>bySource.
     returnE (SliceStable (\<lambda>a b. dm_downloaded_at a > dm_downloaded_at b)
       (map (\<lambda>d. d\<lparr>dm_instances := instancesOf bySource d\<rparr>) items)))))"

definition ListDownloadedMods :: "env \<Rightarrow> downloaded_mod list act" where
  "ListDownloadedMods E = listDownloadedMods E"

text \<open>The latest download of a mod, as the loop over the list keeps it.\<close>

definition latestDownload :: "string \<Rightarrow> downloaded_mod list \<Rightarrow> downloaded_mod option" where
  "latestDownload modID downloaded =
     fold (\<lambda>d current. if dm_mod_id d \<noteq> modID then current
            else (case current of
                    None \<Rightarrow> Some d
                  | Some c \<Rightarrow> (if dm_downloaded_at d > dm_downloaded_at c then Some d else Some c)))
       downloaded None"

definition enrichSummary :: "downloaded_mod list \<Rightarrow> mod_summary \<Rightarrow> mod_summary" where
  "enrichSummary downloaded item =
     (case latestDownload (ms_id item) downloaded of
        None \<Rightarrow> item
      | Some local \<Rightarrow>
          item\<lparr>ms_is_downloaded := True, ms_is_installed := dm_instances local \<noteq> [],
               ms_update_available := dm_update_available local\<rparr>)"

definition enrichModSummaries :: "env \<Rightarrow> mod_summary list \<Rightarrow> mod_summary list act" where
  "enrichModSummaries E items = catchE (listDownloadedMods E) (\<lambda>r.
     returnE (map (enrichSummary (case r of Inl _ \<Rightarrow> [] | Inr downloaded \<Rightarrow> downloaded)) items))"

definition SearchMods :: "env \<Rightarrow> mod_search_query \<Rightarrow> mod_search_result act" where
  "SearchMods E query =
     bindE (CatalogSearch E query) (\<lambda>result.
     bindE (enrichModSummaries E (sr_items result)) (\<lambda>items.
     returnE (result\<lparr>sr_items := items\<rparr>)))"

definition enrichVersion :: "downloaded_mod \<Rightarrow> mod_version \<Rightarrow> mod_version" where
  "enrichVersion local v =
     (if mv_id v = dm_version_id local \<and> dm_file_size local > 0 then v\<lparr>mv_file_size := dm_file_size local\<rparr> else v)"

definition enrichDetails :: "downloaded_mod \<Rightarrow> mod_details \<Rightarrow> mod_details" where
  "enrichDetails local details =
     (if dm_mod_id local \<noteq> ms_id details then details
      else details\<lparr>ms_is_downloaded := True,
                   ms_is_installed := (ms_is_installed details \<or> dm_instances local \<noteq> []),
                   ms_update_available := (ms_update_available details \<or> dm_update_available local),
                   md_versions := map (enrichVersion local) (md_versions details)\<rparr>)"

definition GetCatalogMod :: "env \<Rightarrow> string \<Rightarrow> mod_details act" where
  "GetCatalogMod E modID =
     bindE (CatalogGet E modID) (\<lambda>details.
     catchE (listDownloadedMods E) (\<lambda>r.
     returnE (fold enrichDetails (case r of Inl _ \<Rightarrow> [] | Inr downloaded \<Rightarrow> downloaded) details)))"

primrec backfillItems :: "env \<Rightarrow> downloaded_mod list \<Rightarrow> unit act" where
  "backfillItems E [] = returnE ()"
| "backfillItems E (item # items) =
     catchE (ctxE E) (\<lambda>c. case c of
       Inl _ \<Rightarrow> returnE ()
     | Inr _ \<Rightarrow>
         (if dm_tags item \<noteq> None then backfillItems E items
          else catchE (CatalogGet E (dm_mod_id item)) (\<lambda>r. case r of
            Inl _ \<Rightarrow> backfillItems E items
          | Inr details \<Rightarrow>
              bindE (ignoreE (storeSave E (item\<lparr>dm_tags := Some (ms_tags details)\<rparr>))) (\<lambda>_.
              backfillItems E items))))"

definition BackfillDownloadedModTags :: "env \<Rightarrow> unit act" where
  "BackfillDownloadedModTags E = catchE (storeList E) (\<lambda>r. case r of
     Inl _ \<Rightarrow> returnE ()
   | Inr items \<Rightarrow> backfillItems E items)"

definition refreshLatest :: "env \<Rightarrow> mod_details \<Rightarrow> downloaded_mod \<Rightarrow> downloaded_mod" where
  "refreshLatest E details item =
     (case newestStrictUpgrade E details (dm_version item) of
        Some target \<Rightarrow> item\<lparr>dm_latest := mv_version target, dm_update_available := True\<rparr>
      | None \<Rightarrow> item\<lparr>dm_latest := ms_latest details, dm_update_available := False\<rparr>)"

definition CheckModUpdates :: "env \<Rightarrow> string \<Rightarrow> downloaded_mod list act" where
  "CheckModUpdates E modID = withGate
     (bindE (CatalogGet E modID) (\<lambda>details.
      bindE (storeList E) (\<lambda>items.
      bindE (forE items (\<lambda>item.
        if dm_mod_id item \<noteq> ms_id details then returnE ()
        else storeSave E (refreshLatest E details item))) (\<lambda>_.
      listDownloadedMods E))))"

definition GetDownloadedMod :: "env \<Rightarrow> string \<Rightarrow> string \<Rightarrow> downloaded_mod act" where
  "GetDownloadedMod E modID versionID = storeGet E modID versionID"

section \<open>Favourites\<close>

definition ListFavoriteMods :: "env \<Rightarrow> mod_summary list act" where
  "ListFavoriteMods E =
     bindE (ListFavoriteModIDs E) (\<lambda>ids.
       if ids = [] then returnE []
       else bindE (CatalogList E) (\<lambda>items.
         enrichModSummaries E (filter (\<lambda>item. ms_id item \<in> set ids) items)))"

definition SetModFavorite :: "env \<Rightarrow> string \<Rightarrow> bool \<Rightarrow> unit act" where
  "SetModFavorite E rawID favorite =
     (if TrimSpace rawID = [] then throwE (NewError ErrValidation ''Mod ID must not be empty'')
      else bindE
        (if favorite
         then bindE (CatalogGet E (TrimSpace rawID)) (\<lambda>details.
           if TrimSpace (ms_id details) = [] then throwE (NewError ErrValidation ''Catalog returned an empty mod ID'')
           else returnE (ms_id details))
         else returnE (TrimSpace rawID))
        (\<lambda>modID. withGate (StoreModFavorite E modID favorite)))"

section \<open>Downloading into instances\<close>

type_synonym reported = "mod_install_result \<times> go_error option"

definition reportedE :: "reported act \<Rightarrow> reported act" where
  "reportedE m = catchE m (\<lambda>r. returnE (case r of Inl e \<Rightarrow> (blankModInstallResult, Some e) | Inr x \<Rightarrow> x))"

primrec withLocks :: "string list \<Rightarrow> 'a act \<Rightarrow> 'a act" where
  "withLocks [] body = body"
| "withLocks (i # is) body = withLock i (withLocks is body)"

text \<open>One requested instance: its record, and its game version once.\<close>

definition collectTarget ::
  "env \<Rightarrow> bool \<Rightarrow> mod_details \<Rightarrow> mod_version \<Rightarrow> string \<Rightarrow> instance_ref list \<times> string list \<Rightarrow>
     (instance_ref list \<times> string list) act" where
  "collectTarget E allowIncompatible details selected instanceID acc =
     bindE (GetInstance E instanceID) (\<lambda>inst.
     bindE (GetVersion E (ir_game_version inst)) (\<lambda>version.
       if \<not> allowIncompatible \<and> \<not> ModSupportsVersion (mv_game_versions selected) (gameVersionName version)
       then throwE (NewError ErrModIncompatible
              (ms_name details @ '' does not list support for Vintage Story '' @ gameVersionName version))
       else returnE (fst acc @ [inst],
              if gameVersionName version \<in> set (snd acc) then snd acc else snd acc @ [gameVersionName version])))"

definition groupVersions :: "installed_mod list \<Rightarrow> versions_by_mod" where
  "groupVersions installed = fold (\<lambda>m acc.
     case ParseModDBSource (im_source m) of
       None \<Rightarrow> acc
     | Some (modID, _) \<Rightarrow>
         (if \<not> im_enabled m \<or> \<not> im_managed m then acc
          else AList.update (ToLower (TrimSpace modID))
                 (versionsOf acc (ToLower (TrimSpace modID)) @ [im_version m]) acc)) installed []"

definition collectVersions ::
  "env \<Rightarrow> instance_ref \<Rightarrow> (string \<times> versions_by_mod) list \<Rightarrow> (string \<times> versions_by_mod) list act" where
  "collectVersions E inst acc =
     bindE (ListMods E (ir_id inst)) (\<lambda>installed.
     returnE (AList.update (ir_id inst) (groupVersions installed) acc))"

definition installTarget ::
  "env \<Rightarrow> plan_item list \<Rightarrow> (string \<times> versions_by_mod) list \<Rightarrow> instance_ref \<Rightarrow>
     mod_installation_result list \<Rightarrow> mod_installation_result list act" where
  "installTarget E plan installedVersions inst acc =
     bindE (installModPlan E inst (lookup_default [] (map_of installedVersions) (ir_id inst)) plan)
       (\<lambda>installation. returnE (acc @ [installation]))"

definition installTargets ::
  "env \<Rightarrow> string \<Rightarrow> mod_details \<Rightarrow> bool \<Rightarrow> instance_ref list \<Rightarrow> (string \<times> versions_by_mod) list \<Rightarrow>
     resolution \<Rightarrow> downloaded_mod \<Rightarrow> mod_install_result act" where
  "installTargets E taskID details downloadOnly targets installedVersions s downloaded =
     (let result = \<lparr>ins_task = taskID, ins_downloaded = downloaded, ins_downloaded_now = rs_new s, ins_installations = []\<rparr>;
          emit = (\<lambda>phase message. EmitProgress taskID (ms_id details) phase (dm_file_size downloaded)
                    (dm_file_size downloaded) 1 message)
      in if downloadOnly \<or> targets = []
         then bindE (emit phaseComplete ''Download complete'') (\<lambda>_. returnE result)
         else bindE (foldE (installTarget E (rs_plan s) installedVersions) targets []) (\<lambda>installations.
              bindE (if list_all mir_installed installations then emit phaseComplete ''Installation complete''
                     else emit phaseFailed ''Installation failed'') (\<lambda>_.
              returnE (result\<lparr>ins_installations := installations\<rparr>))))"

text \<open>The end of the fuel is never reached when the catalog is as large as it says.\<close>

definition resolutionError :: "go_error option \<Rightarrow> go_error" where
  "resolutionError e = (case e of Some x \<Rightarrow> x | None \<Rightarrow> OtherError ''dependency recursion'')"

definition runPlan ::
  "env \<Rightarrow> resolve_request \<Rightarrow> mod_details \<Rightarrow> mod_version \<Rightarrow> bool \<Rightarrow> instance_ref list \<Rightarrow> reported act" where
  "runPlan E q details selected downloadOnly targets = (\<lambda>w.
     case resolveAndDownloadCatalogMod E q details selected (w, emptyResolution) of
       (Inl e, (w', s)) \<Rightarrow>
         bindE (EmitProgress (rr_task q) (ms_id details) phaseFailed 0 0 0
                  (dependencyFailureMessage (resolutionError e))) (\<lambda>_.
         returnE (blankModInstallResult\<lparr>ins_task := rr_task q, ins_downloaded_now := rs_new s\<rparr>,
                  Some (resolutionError e))) w'
     | (Inr downloaded, (w', s)) \<Rightarrow>
         bindE (installTargets E (rr_task q) details downloadOnly targets (rr_installed q) s downloaded) (\<lambda>result.
         bindE (EmitDownloadsChanged (rr_task q) (ms_id details) (newlyDownloadedDependencies (rs_plan s))) (\<lambda>_.
         returnE (result, None))) w')"

definition downloadLocked ::
  "env \<Rightarrow> download_mod_request \<Rightarrow> mod_details \<Rightarrow> mod_version \<Rightarrow> instance_ref list \<Rightarrow> string list \<Rightarrow> reported act" where
  "downloadLocked E request details selected targets gameVersions =
     bindE (if rq_download_only request then returnE [] else foldE (collectVersions E) targets []) (\<lambda>installedVersions.
     bindE (newIDE E) (\<lambda>taskID.
     withTask taskID (ms_id details) (mv_id selected)
       (\<lambda>existing e. returnE (blankModInstallResult\<lparr>ins_task := existing\<rparr>, Some e))
       (runPlan E \<lparr>rr_task = taskID, rr_game_versions = gameVersions,
                   rr_allow_incompatible = rq_allow_incompatible request, rr_installed = installedVersions\<rparr>
          details selected (rq_download_only request) targets)))"

definition lockOrder :: "download_mod_request \<Rightarrow> string list \<Rightarrow> instance_ref list \<Rightarrow> string list" where
  "lockOrder request lockedInstances targets =
     (if rq_download_only request then []
      else sort_strings (filter (\<lambda>i. i \<notin> set lockedInstances) (map ir_id targets)))"

definition downloadCatalogMod :: "env \<Rightarrow> download_mod_request \<Rightarrow> string list \<Rightarrow> reported act" where
  "downloadCatalogMod E request lockedInstances = reportedE (withGate
     (bindE (CatalogGet E (rq_mod_id request)) (\<lambda>details.
      case FindModVersion (md_versions details) (rq_version_id request) of
        None \<Rightarrow> throwE (NewError ErrModVersionNotFound ''Mod version not found'')
      | Some selected \<Rightarrow>
          (if \<not> HasPrefix (mv_download_url selected) ''https://''
           then throwE (NewError ErrInvalidModFile ''The catalog returned an unsafe download URL'')
           else bindE (foldE (collectTarget E (rq_allow_incompatible request) details selected)
                        (dedup_by (\<lambda>i. i) [] (rq_instances request)) ([], [])) (\<lambda>acc.
             withLocks (lockOrder request lockedInstances (fst acc))
               (downloadLocked E request details selected (fst acc) (snd acc)))))))"

definition DownloadCatalogMod :: "env \<Rightarrow> download_mod_request \<Rightarrow> reported act" where
  "DownloadCatalogMod E request = downloadCatalogMod E request []"

definition batchItem :: "mod_target \<Rightarrow> mod_install_result \<Rightarrow> go_error option \<Rightarrow> batch_mod_install_result" where
  "batchItem target result e =
     \<lparr>bat_mod_id = tg_mod_id target, bat_version_id = tg_version_id target, bat_result = result,
      bat_error = (case e of None \<Rightarrow> [] | Some x \<Rightarrow> errorText x)\<rparr>"

definition batchStep ::
  "env \<Rightarrow> string \<Rightarrow> mod_target \<Rightarrow> batch_mod_install_result list \<Rightarrow> batch_mod_install_result list act" where
  "batchStep E instanceID target results =
     bindE (DownloadCatalogMod E \<lparr>rq_mod_id = tg_mod_id target, rq_version_id = tg_version_id target,
              rq_instances = [instanceID], rq_download_only = False, rq_allow_incompatible = True\<rparr>) (\<lambda>(result, e).
     returnE (results @ [batchItem target result e]))"

definition DownloadCatalogModsBatch :: "env \<Rightarrow> string \<Rightarrow> mod_target list \<Rightarrow> batch_mod_install_result list act" where
  "DownloadCatalogModsBatch E instanceID targets =
     catchE (withGate (foldE (batchStep E instanceID) targets [])) (\<lambda>r. returnE (case r of
       Inr results \<Rightarrow> results
     | Inl e \<Rightarrow> map (\<lambda>target. batchItem target blankModInstallResult (Some e)) targets))"

definition InstallDownloadedMod :: "env \<Rightarrow> string \<Rightarrow> string \<Rightarrow> string list \<Rightarrow> bool \<Rightarrow> reported act" where
  "InstallDownloadedMod E modID versionID instanceIDs allowIncompatible =
     DownloadCatalogMod E \<lparr>rq_mod_id = modID, rq_version_id = versionID, rq_instances = instanceIDs,
       rq_download_only = False, rq_allow_incompatible = allowIncompatible\<rparr>"

definition CancelModTask :: "string \<Rightarrow> unit act" where
  "CancelModTask taskID = (\<lambda>w. case TaskCancel (w_tasks w) taskID of (r, tm) \<Rightarrow> (r, w\<lparr>w_tasks := tm\<rparr>))"

section \<open>Cleaning the library\<close>

definition RemoveDownloadedMod :: "env \<Rightarrow> string \<Rightarrow> string \<Rightarrow> unit act" where
  "RemoveDownloadedMod E modID versionID = withGate
     (bindE (storeDelete E modID versionID) (\<lambda>_. reportEvent E EventModRemoved))"

definition installedKeys :: "installed_mod list \<Rightarrow> string list" where
  "installedKeys mods =
     List.map_filter (\<lambda>m. map_option (\<lambda>(modID, versionID). modDownloadKey modID versionID)
       (ParseModDBSource (im_source m))) mods"

definition collectKeys :: "env \<Rightarrow> instance_ref \<Rightarrow> string list \<Rightarrow> string list act" where
  "collectKeys E inst acc = bindE (ListModRows E (ir_id inst)) (\<lambda>mods. returnE (acc @ installedKeys mods))"

definition releaseInUse :: "string list \<Rightarrow> task_manager \<Rightarrow> downloaded_mod \<Rightarrow> bool" where
  "releaseInUse installed tm d \<longleftrightarrow>
     modDownloadKey (dm_mod_id d) (dm_version_id d) \<in> set installed \<or> IsDownloading tm (dm_mod_id d) (dm_version_id d)"

definition deleteRelease :: "env \<Rightarrow> downloaded_mod \<Rightarrow> unit act" where
  "deleteRelease E d =
     bindE (storeDelete E (dm_mod_id d) (dm_version_id d)) (\<lambda>_. reportEvent E EventModRemoved)"

definition RemoveDownloadedModsIfUnusedLocked :: "env \<Rightarrow> downloaded_mod list \<Rightarrow> unit act" where
  "RemoveDownloadedModsIfUnusedLocked E candidates =
     (if candidates = [] then returnE ()
      else bindE (ListInstances E) (\<lambda>instances.
        bindE (foldE (collectKeys E) instances []) (\<lambda>installed.
        forE (dedup_by (\<lambda>d. modDownloadKey (dm_mod_id d) (dm_version_id d)) [] candidates) (\<lambda>candidate.
          bindE (getE (\<lambda>w. releaseInUse installed (w_tasks w) candidate)) (\<lambda>used.
            if used then returnE () else deleteRelease E candidate)))))"

definition unusedDownloadedMods :: "env \<Rightarrow> downloaded_mod list act" where
  "unusedDownloadedMods E =
     bindE (storeList E) (\<lambda>items.
     bindE (ListInstances E) (\<lambda>instances.
     bindE (foldE (collectKeys E) instances []) (\<lambda>installed.
     getE (\<lambda>w. filter (\<lambda>d. \<not> releaseInUse installed (w_tasks w) d) items))))"

definition downloadedModCleanupResult :: "downloaded_mod list \<Rightarrow> cleanup_result" where
  "downloadedModCleanupResult items =
     \<lparr>cl_removed = int (length items), cl_freed = sum_list (map dm_file_size items)\<rparr>"

definition PreviewUnusedDownloadedMods :: "env \<Rightarrow> cleanup_result act" where
  "PreviewUnusedDownloadedMods E =
     bindE (unusedDownloadedMods E) (\<lambda>items. returnE (downloadedModCleanupResult items))"

definition RemoveUnusedDownloadedMods :: "env \<Rightarrow> cleanup_result act" where
  "RemoveUnusedDownloadedMods E = withGate
     (bindE (unusedDownloadedMods E) (\<lambda>items.
      bindE (forE items (deleteRelease E)) (\<lambda>_.
      returnE (downloadedModCleanupResult items))))"

section \<open>Frames\<close>

lemma evolves_collectInstalled [evolve_rules]: "tick_free R \<Longrightarrow> evolves R (collectInstalled E inst acc)"
  unfolding collectInstalled_def by (auto intro!: evolve_rules)

lemma evolves_listDownloadedMods [evolve_rules]: "tick_free R \<Longrightarrow> evolves R (listDownloadedMods E)"
  unfolding listDownloadedMods_def by (auto intro!: evolve_rules)

lemma evolves_enrichModSummaries [evolve_rules]: "tick_free R \<Longrightarrow> evolves R (enrichModSummaries E items)"
  unfolding enrichModSummaries_def by (auto intro!: evolve_rules)

lemma evolves_backfillItems [evolve_rules]:
  "tick_free R \<Longrightarrow> ignores_fs R \<Longrightarrow> evolves R (backfillItems E items)"
  by (induction items) (auto intro!: evolve_rules)

lemma evolves_catalog_reads [evolve_rules]:
  assumes "tick_free R"
  shows "evolves R (ListDownloadedMods E)" "evolves R (SearchMods E q)" "evolves R (GetCatalogMod E m)"
    "evolves R (GetDownloadedMod E m v)" "evolves R (ListFavoriteMods E)"
  unfolding ListDownloadedMods_def SearchMods_def GetCatalogMod_def GetDownloadedMod_def ListFavoriteMods_def
  using assms by (auto intro!: evolve_rules)

lemma evolves_catalog_writes [evolve_rules]:
  assumes "lock_closed R" "ignores_fs R"
  shows "evolves R (BackfillDownloadedModTags E)" "evolves R (CheckModUpdates E m)"
  unfolding BackfillDownloadedModTags_def CheckModUpdates_def
  using assms by (auto intro!: evolve_rules)

lemma evolves_SetModFavorite [evolve_rules]:
  "lock_closed R \<Longrightarrow> ignores_favorites R \<Longrightarrow> evolves R (SetModFavorite E m b)"
  unfolding SetModFavorite_def by (auto intro!: evolve_rules)

lemma evolves_withLocks [evolve_rules]:
  "lock_closed R \<Longrightarrow> evolves R body \<Longrightarrow> evolves R (withLocks is body)"
  by (induction "is") (auto intro!: evolve_rules)

lemma evolves_collectTarget [evolve_rules]: "tick_free R \<Longrightarrow> evolves R (collectTarget E b d s i acc)"
  unfolding collectTarget_def by (auto intro!: evolve_rules)

lemma evolves_collectVersions [evolve_rules]:
  "lock_closed R \<Longrightarrow> ignores_fs R \<Longrightarrow> ignores_rows R \<Longrightarrow> evolves R (collectVersions E inst acc)"
  unfolding collectVersions_def by (auto intro!: evolve_rules)

lemma evolves_installTargets [evolve_rules]:
  "tick_free R \<Longrightarrow> ignores_fs R \<Longrightarrow> ignores_rows R \<Longrightarrow> ignores_output R \<Longrightarrow>
     evolves R (installTargets E t d b targets vs s dl)"
  unfolding installTargets_def installTarget_def by (auto intro!: evolve_rules)

lemma evolves_runPlan:
  assumes "tick_free R" "ignores_fs R" "ignores_rows R" "ignores_output R"
    "\<And>m v. evolves R (claimRelease (rr_task q) m v)"
  shows "evolves R (runPlan E q d s b targets)"
  unfolding evolves_def
proof
  fix w
  obtain r w' st where run: "resolveAndDownloadCatalogMod E q d s (w, emptyResolution) = (r, (w', st))"
    by (cases "resolveAndDownloadCatalogMod E q d s (w, emptyResolution)") auto
  have "onWorld R (w, emptyResolution) (w', st)"
    using evolves_resolveAndDownload_claims [of R q "Suc (ev_catalog_size E)" E d s True "[]" "[]"] assms run
    by (auto simp: resolveAndDownloadCatalogMod_def dest: evolvesD)
  then have step: "R w w'" by (simp add: onWorld_def)
  have done_failed: "evolves R (bindE (EmitProgress (rr_task q) (ms_id d) phaseFailed 0 0 0 msg) (\<lambda>_. returnE x))"
    for msg and x :: reported
    using assms by (auto intro!: evolve_rules)
  have done_ok: "evolves R (bindE (installTargets E (rr_task q) d b targets (rr_installed q) st dl) (\<lambda>result.
      bindE (EmitDownloadsChanged (rr_task q) (ms_id d) (newlyDownloadedDependencies (rs_plan st))) (\<lambda>_.
      returnE (result, None :: go_error option))))" for dl
    using assms by (auto intro!: evolve_rules)
  note trans = preorder_trans [OF tick_free_preorder [OF assms(1)] step]
  show "R w (snd (runPlan E q d s b targets w))"
    by (cases r) (use done_failed done_ok in \<open>auto simp: runPlan_def run evolves_def intro!: trans\<close>)
qed

lemma evolves_downloadLocked [evolve_rules]:
  "lock_closed R \<Longrightarrow> ignores_fs R \<Longrightarrow> ignores_rows R \<Longrightarrow> ignores_output R \<Longrightarrow> ignores_tasks R \<Longrightarrow>
     evolves R (downloadLocked E q d s targets gv)"
  unfolding downloadLocked_def
  by (auto intro!: evolve_rules evolves_runPlan evolves_claimRelease)

lemma evolves_download_ops [evolve_rules]:
  assumes "lock_closed R" "ignores_fs R" "ignores_rows R" "ignores_output R" "ignores_tasks R"
  shows "evolves R (downloadCatalogMod E request locks)" "evolves R (DownloadCatalogMod E request)"
    "evolves R (DownloadCatalogModsBatch E i reqs)" "evolves R (InstallDownloadedMod E m v is b)"
  unfolding InstallDownloadedMod_def DownloadCatalogModsBatch_def DownloadCatalogMod_def downloadCatalogMod_def
    reportedE_def batchStep_def
  using assms by (auto intro!: evolve_rules)

lemma evolves_CancelModTask [evolve_rules]: "tick_free R \<Longrightarrow> ignores_tasks R \<Longrightarrow> evolves R (CancelModTask t)"
  by (auto simp: evolves_def CancelModTask_def ignores_tasks_def split: prod.splits)

lemma evolves_cleanup_reads [evolve_rules]:
  assumes "tick_free R"
  shows "evolves R (collectKeys E inst acc)" "evolves R (unusedDownloadedMods E)"
    "evolves R (PreviewUnusedDownloadedMods E)"
  unfolding PreviewUnusedDownloadedMods_def unusedDownloadedMods_def collectKeys_def
  using assms by (auto intro!: evolve_rules)

lemma evolves_cleanup [evolve_rules]:
  assumes "lock_closed R" "ignores_fs R" "ignores_output R"
  shows "evolves R (deleteRelease E d)" "evolves R (RemoveDownloadedModsIfUnusedLocked E ds)"
    "evolves R (RemoveDownloadedMod E m v)" "evolves R (RemoveUnusedDownloadedMods E)"
  unfolding RemoveDownloadedModsIfUnusedLocked_def RemoveDownloadedMod_def RemoveUnusedDownloadedMods_def
    deleteRelease_def
  using assms by (auto intro!: evolve_rules)

end
