(* ===== verification/ModDownloads.thy ===== *)
theory ModDownloads
  imports ModCatalog
begin

text \<open>
  What the handlers of \<open>internal/mods\<close> guarantee together: the locks are balanced, a running
  relocation refuses every write, a download leaves no reservation behind, and the cleanup of
  the library spares the releases in use.
\<close>

section \<open>The locks\<close>

lemma evolves_at: "evolves R m \<Longrightarrow> R w (snd (m w))"
  by (simp add: evolves_def)

lemmas handlers_evolve = evolves_ListMods [THEN evolves_at] evolves_service_ops [THEN evolves_at]
  evolves_removal_ops [THEN evolves_at] evolves_catalog_writes [THEN evolves_at]
  evolves_DownloadRelease [THEN evolves_at] evolves_download_ops [THEN evolves_at]
  evolves_cleanup [THEN evolves_at] evolves_SetModFavorite [THEN evolves_at]


text \<open>
  While the data folder is being moved, a handler that writes to it answers with
  the busy error and has no effect at all: no file, record, event or call.
\<close>

theorem relocation_refuses_mods:
  assumes "relocating (w_gate w)"
  shows "ListMods E i w = (Inl busyError, w) \<and> InstallModFile E i s n v w = (Inl busyError, w) \<and>
    InstallModFiles E i ss w = (Inl busyError, w) \<and> SetModEnabled E i b w = (Inl busyError, w) \<and>
    DeleteMod E i b w = (Inl busyError, w) \<and> RemoveMods E i ids b w = (Inl busyError, w) \<and>
    CheckModUpdates E i w = (Inl busyError, w) \<and> RemoveDownloadedMod E i v w = (Inl busyError, w) \<and>
    RemoveUnusedDownloadedMods E w = (Inl busyError, w) \<and>
    DownloadCatalogMod E request w = (Inr (blankModInstallResult, Some busyError), w) \<and>
    DownloadCatalogModsBatch E i targets w =
      (Inr (map (\<lambda>target. batchItem target blankModInstallResult (Some busyError)) targets), w)"
  using assms
  by (simp add: ListMods_def InstallModFile_def InstallModFiles_def SetModEnabled_def DeleteMod_def
      RemoveMods_def CheckModUpdates_def RemoveDownloadedMod_def RemoveUnusedDownloadedMods_def
      DownloadCatalogMod_def downloadCatalogMod_def reportedE_def DownloadCatalogModsBatch_def
      withGate_eq catchE_def)

theorem relocation_refuses_mods_witness:
  "DeleteMod sampleEnv ''m'' True ((sampleWorld [] [])\<lparr>w_gate := snd (BeginRelocation newGate)\<rparr>) =
     (Inl busyError, (sampleWorld [] [])\<lparr>w_gate := snd (BeginRelocation newGate)\<rparr>)"
proof -
  have "relocating (w_gate ((sampleWorld [] [])\<lparr>w_gate := snd (BeginRelocation newGate)\<rparr>))"
    by (simp add: BeginRelocation_def newGate_def)
  from relocation_refuses_mods [OF this] show ?thesis by simp
qed

section \<open>The reservations of a download\<close>

text \<open>
  \<open>own_claims t\<close>: only releases nobody held were taken, and only by the task \<open>t\<close>.
  \<open>restores\<close>: the reservations are what they were, when the identifiers the launcher hands
  out are not those of a running task.
\<close>

definition own_claims :: "string \<Rightarrow> mods_world \<Rightarrow> mods_world \<Rightarrow> bool" where
  "own_claims t w w' \<longleftrightarrow> (tasks_wf (w_tasks w) \<longrightarrow> tasks_wf (w_tasks w') \<and>
     (\<forall>k. task_owner (w_tasks w') k = task_owner (w_tasks w) k \<or>
          task_owner (w_tasks w) k = None \<and> task_owner (w_tasks w') k = Some t) \<and>
     set (tm_cancels (w_tasks w')) = set (tm_cancels (w_tasks w)))"

definition fresh_tasks :: "env \<Rightarrow> mods_world \<Rightarrow> bool" where
  "fresh_tasks E w \<longleftrightarrow> tasks_wf (w_tasks w) \<and>
     (\<forall>n. ev_new_id E n \<notin> ran (task_owner (w_tasks w)) \<union> set (tm_cancels (w_tasks w)))"

definition restores :: "env \<Rightarrow> mods_world \<Rightarrow> mods_world \<Rightarrow> bool" where
  "restores E w w' \<longleftrightarrow> (fresh_tasks E w \<longrightarrow> tasks_wf (w_tasks w') \<and>
     task_owner (w_tasks w') = task_owner (w_tasks w) \<and>
     set (tm_cancels (w_tasks w')) = set (tm_cancels (w_tasks w)))"

lemma own_claims_frame [simp]:
  "tick_free (own_claims t)" "ignores_fs (own_claims t)" "ignores_rows (own_claims t)"
  "ignores_output (own_claims t)" "ignores_locks (own_claims t)"
  by (auto simp: tick_free_def preorder_rel_def reflp_def transp_def ignores_defs ignores_locks_def
      own_claims_def) metis+

lemma restores_frame [simp]:
  "tick_free (restores E)" "ignores_fs (restores E)" "ignores_rows (restores E)"
  "ignores_output (restores E)" "ignores_locks (restores E)" "lock_closed (restores E)"
proof -
  show basic: "tick_free (restores E)" "ignores_locks (restores E)"
    by (auto simp: tick_free_def preorder_rel_def reflp_def transp_def ignores_locks_def
        restores_def fresh_tasks_def)
  then show "lock_closed (restores E)" by (rule lock_closed_ignores)
qed (auto simp: ignores_defs restores_def fresh_tasks_def)

lemma evolves_claimRelease_own: "evolves (own_claims t) (claimRelease t m v)"
proof -
  have "own_claims t w (w\<lparr>w_tasks := tm\<rparr>)" if "TaskClaim (w_tasks w) t m v = (r, tm)" for w r tm
    using that by (cases r) (auto simp: own_claims_def tasks_wf_def task_owner_def distinct_update
        update_conv' split: if_splits dest!: TaskClaim_InrD TaskClaim_InlD)
  then show ?thesis by (auto simp: evolves_def claimRelease_def split: prod.splits)
qed

text \<open>The bracket of a task with a new identifier restores what its body claims.\<close>

lemma task_bracket:
  assumes "tasks_wf tm" "t \<notin> ran (task_owner tm)" "t \<notin> set (tm_cancels tm)"
    and "TaskBegin tm t m v = (Inr u, w_tasks w)" and "own_claims t w w'"
  shows "tasks_wf (TaskRelease (w_tasks w') t) \<and> task_owner (TaskRelease (w_tasks w') t) = task_owner tm \<and>
    set (tm_cancels (TaskRelease (w_tasks w') t)) = set (tm_cancels tm)"
proof -
  note began = TaskBegin_InrD [OF assms(4)]
  then have wf: "tasks_wf (w_tasks w)" and own: "task_owner (w_tasks w) = (task_owner tm)(modDownloadKey m v \<mapsto> t)"
    and cancels: "set (tm_cancels (w_tasks w)) = insert t (set (tm_cancels tm))"
    using assms(1) by (auto simp: tasks_wf_def task_owner_def distinct_update update_conv' fun_eq_iff)
  have free: "task_owner tm k \<noteq> Some t" for k using assms(2) by (auto simp: ran_def)
  from assms(5) wf have claims: "tasks_wf (w_tasks w')"
      "\<And>k. task_owner (w_tasks w') k = task_owner (w_tasks w) k \<or>
          task_owner (w_tasks w) k = None \<and> task_owner (w_tasks w') k = Some t"
      "set (tm_cancels (w_tasks w')) = set (tm_cancels (w_tasks w))"
    by (auto simp: own_claims_def)
  have released: "task_owner (TaskRelease (w_tasks w') t) k =
      (if task_owner (w_tasks w') k = Some t then None else task_owner (w_tasks w') k)" for k
    using claims(1) by (simp add: TaskRelease_def task_owner_def tasks_wf_def map_of_filter_owner split: option.splits)
  have "task_owner (TaskRelease (w_tasks w') t) k = task_owner tm k" for k
    using released [of k] claims(2) [of k] free [of k] own began by (auto split: if_splits)
  moreover have "tasks_wf (TaskRelease (w_tasks w') t)"
    using claims(1) by (auto simp: tasks_wf_def TaskRelease_def distinct_map intro: inj_on_subset)
  ultimately show ?thesis using claims(3) cancels assms(3) by (auto simp: TaskRelease_def)
qed

lemma evolves_newTask:
  assumes "\<And>t. evolves (own_claims t) (body t)" "\<And>t x e. evolves (restores E) (refused t x e)"
  shows "evolves (restores E) (bindE (newIDE E) (\<lambda>t. withTask t m v (refused t) (body t)))"
  unfolding evolves_def
proof
  fix w :: mods_world
  let ?t = "ev_new_id E (w_ticks w)" and ?w = "w\<lparr>w_ticks := Suc (w_ticks w)\<rparr>"
  obtain r tm where started: "TaskBegin (w_tasks w) ?t m v = (r, tm)" by fastforce
  show "restores E w (snd (bindE (newIDE E) (\<lambda>t. withTask t m v (refused t) (body t)) w))"
  proof (cases r)
    case (Inl xe)
    obtain x e where xe: "xe = (x, e)" by fastforce
    from started Inl have "tm = w_tasks w" by (auto dest: TaskBegin_InlD [of _ _ _ _ "(x, e)"] simp: xe)
    moreover have "restores E ?w (snd (refused ?t x e ?w))" using assms(2) by (simp add: evolves_def)
    ultimately show ?thesis
      using started Inl xe
      by (simp add: bindE_def newIDE_def withTask_def beginTask_def restores_def fresh_tasks_def)
  next
    case (Inr u)
    obtain o' w' where run: "body ?t (?w\<lparr>w_tasks := tm\<rparr>) = (o', w')" by fastforce
    have "own_claims ?t (?w\<lparr>w_tasks := tm\<rparr>) w'" using assms(1) run by (blast dest: evolvesD)
    with started Inr have "fresh_tasks E w \<Longrightarrow> tasks_wf (TaskRelease (w_tasks w') ?t) \<and>
        task_owner (TaskRelease (w_tasks w') ?t) = task_owner (w_tasks w) \<and>
        set (tm_cancels (TaskRelease (w_tasks w') ?t)) = set (tm_cancels (w_tasks w))"
      by (intro task_bracket) (auto simp: fresh_tasks_def)
    with started Inr run show ?thesis
      by (simp add: bindE_def newIDE_def withTask_def beginTask_def finallyE_def endTask_def restores_def)
  qed
qed

lemma restores_downloadLocked: "evolves (restores E) (downloadLocked E q d s targets gv)"
  unfolding downloadLocked_def
  by (rule evolves_bindE)
     (auto intro!: evolve_rules evolves_newTask evolves_runPlan evolves_claimRelease_own)

lemma restores_DownloadRelease: "evolves (restores E) (DownloadRelease E m v)"
  unfolding DownloadRelease_def
  by (auto intro!: evolves_bindE evolves_cachedRelease evolves_case_option evolves_returnE evolves_CatalogGet
      evolves_throwE evolves_newTask evolves_downloadCatalogVersion_claims evolves_claimRelease_own)

lemma restores_DownloadCatalogMod: "evolves (restores E) (DownloadCatalogMod E request)"
  unfolding DownloadCatalogMod_def downloadCatalogMod_def reportedE_def
  by (auto intro!: evolve_rules restores_downloadLocked)

lemma restores_Batch: "evolves (restores E) (DownloadCatalogModsBatch E i reqs)"
  unfolding DownloadCatalogModsBatch_def batchStep_def
  by (auto intro!: evolve_rules restores_DownloadCatalogMod)

text \<open>
  C29 (invariant).  However a download ends, it leaves no reservation and no cancellable task
  behind: the reserved releases and their owners are the same as before, provided the
  identifier generator does not hand out the identifier of a running task.
\<close>

theorem downloads_release_reservations:
  assumes "fresh_tasks E w" and "w' \<in> {snd (DownloadCatalogMod E request w),
    snd (DownloadCatalogModsBatch E i targets w), snd (DownloadRelease E m v w)}"
  shows "task_owner (w_tasks w') = task_owner (w_tasks w) \<and>
    (IsDownloading (w_tasks w') m' v' \<longleftrightarrow> IsDownloading (w_tasks w) m' v') \<and>
    set (tm_cancels (w_tasks w')) = set (tm_cancels (w_tasks w))"
proof -
  have "restores E w w'"
    using assms(2) restores_DownloadCatalogMod [THEN evolves_at] restores_Batch [THEN evolves_at]
      restores_DownloadRelease [THEN evolves_at] by auto
  with assms(1) show ?thesis by (auto simp: restores_def IsDownloading_def task_owner_def fun_eq_iff)
qed

theorem downloads_release_reservations_witness:
  "task_owner (w_tasks (snd (DownloadRelease catalogEnv ''A'' ''r'' (sampleWorld [] [])))) = (\<lambda>_. None)"
proof -
  have "fresh_tasks catalogEnv (sampleWorld [] [])"
    by (simp add: fresh_tasks_def NewModTaskManager_def tasks_wf_def task_owner_def ran_def)
  from downloads_release_reservations [OF this, of _ undefined undefined undefined "''A''" "''r''"] show ?thesis
    by (simp add: NewModTaskManager_def task_owner_def fun_eq_iff)
qed

section \<open>The cleanup of the library\<close>

text \<open>
  A release is in use when a record of a known instance has its source, or when a task
  downloads it.  \<open>in_release\<close>: the paths of its directory in the library.
\<close>

definition keys_among :: "string set \<Rightarrow> installed_mod list \<Rightarrow> string set" where
  "keys_among ids rows = {modDownloadKey m v |m v.
     \<exists>r \<in> set rows. im_instance r \<in> ids \<and> ParseModDBSource (im_source r) = Some (m, v)}"

definition installed_keys :: "mods_world \<Rightarrow> string set" where
  "installed_keys w = keys_among (ir_id ` set (w_instances w)) (w_rows w)"

definition release_used :: "mods_world \<Rightarrow> downloaded_mod \<Rightarrow> bool" where
  "release_used w d \<longleftrightarrow> modDownloadKey (dm_mod_id d) (dm_version_id d) \<in> installed_keys w \<or>
     IsDownloading (w_tasks w) (dm_mod_id d) (dm_version_id d)"

definition in_release :: "string list \<Rightarrow> downloaded_mod \<Rightarrow> string \<Rightarrow> bool" where
  "in_release es d p \<longleftrightarrow> p = release_dir es (dm_mod_id d) (dm_version_id d) \<or>
     under (release_dir es (dm_mod_id d) (dm_version_id d)) p"

definition same_state :: "mods_world \<Rightarrow> mods_world \<Rightarrow> bool" where
  "same_state w u \<longleftrightarrow> w_rows u = w_rows w \<and> w_instances u = w_instances w \<and> w_tasks u = w_tasks w"

definition same_disk :: "mods_world \<Rightarrow> mods_world \<Rightarrow> bool" where
  "same_disk w u \<longleftrightarrow> same_state w u \<and> w_fs u = w_fs w"

lemma same_state_frame [simp]:
  "tick_free (same_state)" "ignores_output (same_state)" "ignores_fs same_state"
  "tick_free (same_disk)" "ignores_output (same_disk)"
  by (auto simp: tick_free_def preorder_rel_def reflp_def transp_def ignores_output_def ignores_fs_def
      same_state_def same_disk_def)

lemma set_installedKeys:
  "set (installedKeys mods) = {modDownloadKey m v |m v. \<exists>r \<in> set mods. ParseModDBSource (im_source r) = Some (m, v)}"
  by (force simp: installedKeys_def set_map_filter)

lemma rowsOf_keys: "set (installedKeys (rowsOf base i rows)) = keys_among {i} rows"
proof -
  have "(\<exists>r \<in> set (rowsOf base i rows). P (im_source r)) \<longleftrightarrow> (\<exists>r \<in> set rows. im_instance r = i \<and> P (im_source r))" for P
    by (auto simp: rowsOf_def scanMod_def)
  from this [of "\<lambda>s. ParseModDBSource s = Some mv" for mv] show ?thesis
    by (simp add: set_installedKeys keys_among_def)
qed

lemma keys_among_Un: "keys_among (A \<union> B) rows = keys_among A rows \<union> keys_among B rows"
  by (auto simp: keys_among_def)

lemma keys_among_empty [simp]: "keys_among {} rows = {}"
  by (simp add: keys_among_def)

definition keys_read :: "mods_world \<Rightarrow> instance_ref list \<Rightarrow> string list \<Rightarrow> mods_world \<Rightarrow> bool" where
  "keys_read w insts keys u \<longleftrightarrow> set keys = keys_among (ir_id ` set insts) (w_rows w) \<and> same_disk w u"

lemma keys_read_tick [simp]: "keys_read w is ks (tick u) = keys_read w is ks u"
  by (simp add: keys_read_def same_disk_def same_state_def)

lemma wp_collectKey:
  assumes "keys_read w is keys u"
  shows "wp (collectKeys E x keys) (keys_read w (is @ [x])) (\<lambda>_. same_disk w) u"
proof -
  have rows: "w_rows u = w_rows w" using assms by (simp add: keys_read_def same_disk_def same_state_def)
  have next_keys: "keys_read w (is @ [x]) (keys @ installedKeys (rowsOf b (ir_id x) (w_rows w))) (tick u)" for b
    using assms keys_among_Un [of "ir_id ` set is" "{ir_id x}" "w_rows w"]
    by (auto simp: keys_read_def rowsOf_keys same_disk_def same_state_def)
  show ?thesis
    unfolding collectKeys_def ListModRows_def wp_bindE
    by (intro wp_readE) (use assms next_keys rows in \<open>auto simp: wp_simps keys_read_def same_disk_def same_state_def\<close>)
qed

lemma wp_collectKeys:
  assumes "same_disk w u"
  shows "wp (foldE (collectKeys E) insts []) (keys_read w insts) (\<lambda>_. same_disk w) u"
  by (rule wp_foldE [where I = "keys_read w"])
     (use assms in \<open>auto intro: wp_collectKey simp: keys_read_def\<close>)

lemma wp_ListInstances:
  assumes "same_disk w u"
  shows "wp (ListInstances E) (\<lambda>insts u'. insts = w_instances w \<and> same_disk w u') (\<lambda>_. same_disk w) u"
  unfolding ListInstances_def
  by (rule wp_readE) (use assms in \<open>auto simp: same_disk_def same_state_def\<close>)

lemma wp_storeDelete:
  assumes "root_path (storeRoot E) es" "\<And>e. X e w" "\<And>e. X e (tick w)"
    and "Q () ((tick w)\<lparr>w_fs := osRemoveAll (release_dir es m v) (w_fs w)\<rparr>)"
  shows "wp (storeDelete E m v) Q X w"
proof (cases "metadataPath (storeRoot E) m v")
  case (Inl e)
  then show ?thesis using assms(2) by (simp add: storeDelete_def liftE_def wp_simps)
next
  case (Inr p)
  from release_dir_ok [OF assms(1) Inr] Inr show ?thesis
    using assms(3,4) by (auto simp: storeDelete_def liftE_def intro!: wp_fsE)
qed

definition spared :: "mods_world \<Rightarrow> string list \<Rightarrow> mods_world \<Rightarrow> bool" where
  "spared w es u \<longleftrightarrow> same_state w u \<and> (\<forall>p. fs_node (w_fs u) p \<noteq> fs_node (w_fs w) p \<longrightarrow>
     (\<exists>d. \<not> release_used w d \<and> in_release es d p))"

definition cleaned :: "mods_world \<Rightarrow> string list \<Rightarrow> downloaded_mod list \<Rightarrow> mods_world \<Rightarrow> bool" where
  "cleaned w es ds u \<longleftrightarrow> spared w es u \<and>
     (\<forall>d p. d \<in> set ds \<longrightarrow> in_release es d p \<longrightarrow> fs_node (w_fs u) p = None)"

lemma spared_keeps [simp]:
  "spared w es (tick u) = spared w es u" "spared w es (u\<lparr>w_reports := r\<rparr>) = spared w es u"
  "cleaned w es ds (u\<lparr>w_reports := r\<rparr>) = cleaned w es ds u"
  by (simp_all add: spared_def cleaned_def same_state_def)

lemma spared_refl: "same_disk w u \<Longrightarrow> cleaned w es [] u"
  by (simp add: spared_def cleaned_def same_disk_def)

lemma cleaned_remove:
  assumes "cleaned w es ds u" "\<not> release_used w d"
  shows "cleaned w es (ds @ [d])
    ((tick u)\<lparr>w_fs := osRemoveAll (release_dir es (dm_mod_id d) (dm_version_id d)) (w_fs u)\<rparr>)"
  using assms by (auto simp: cleaned_def spared_def same_state_def osRemoveAll_node in_release_def)

lemma wp_deleteRelease:
  assumes "root_path (storeRoot E) es" "cleaned w es ds u" "\<not> release_used w d"
  shows "wp (deleteRelease E d) (\<lambda>_. cleaned w es (ds @ [d])) (\<lambda>_. spared w es) u"
  unfolding deleteRelease_def wp_bindE
  by (rule wp_storeDelete [OF assms(1)])
     (use assms(2) cleaned_remove [OF assms(2,3)] in
       \<open>auto simp: cleaned_def reportEvent_def wp_simps simp del: osRemoveAll_node\<close>)

lemma releaseInUse_used:
  "keys_read w (w_instances w) keys u \<Longrightarrow> releaseInUse keys (w_tasks u) d \<longleftrightarrow> release_used w d"
  by (auto simp: keys_read_def releaseInUse_def release_used_def installed_keys_def same_disk_def same_state_def)

lemma wp_unusedDownloadedMods:
  assumes "same_disk w u"
  shows "wp (unusedDownloadedMods E)
    (\<lambda>items u'. same_disk w u' \<and> (\<forall>d \<in> set items. \<not> release_used w d)) (\<lambda>_. same_disk w) u"
proof -
  have filtered: "wp (getE (\<lambda>w. filter (\<lambda>d. \<not> releaseInUse keys (w_tasks w) d) items))
      (\<lambda>items u'. same_disk w u' \<and> (\<forall>d \<in> set items. \<not> release_used w d)) (\<lambda>_. same_disk w) u"
    if "keys_read w (w_instances w) keys u" for keys items u
    using that releaseInUse_used [OF that] by (simp add: wp_getE keys_read_def)
  have keys: "wp (bindE (foldE (collectKeys E) (w_instances w) []) (\<lambda>keys.
      getE (\<lambda>w. filter (\<lambda>d. \<not> releaseInUse keys (w_tasks w) d) items)))
      (\<lambda>items u'. same_disk w u' \<and> (\<forall>d \<in> set items. \<not> release_used w d)) (\<lambda>_. same_disk w) u"
    if "same_disk w u" for items u
    unfolding wp_bindE by (rule wp_mono [OF wp_collectKeys [OF that]]) (use filtered in auto)
  have insts: "wp (bindE (ListInstances E) (\<lambda>instances. bindE (foldE (collectKeys E) instances []) (\<lambda>keys.
      getE (\<lambda>w. filter (\<lambda>d. \<not> releaseInUse keys (w_tasks w) d) items))))
      (\<lambda>items u'. same_disk w u' \<and> (\<forall>d \<in> set items. \<not> release_used w d)) (\<lambda>_. same_disk w) u"
    if "same_disk w u" for items u
    unfolding wp_bindE [of "ListInstances E"] by (rule wp_mono [OF wp_ListInstances [OF that]]) (use keys in auto)
  have listed: "wp (storeList E) (\<lambda>_. same_disk w) (\<lambda>_. same_disk w) u"
    by (rule wp_evolves_trans) (use assms in \<open>auto intro!: evolve_rules\<close>)
  show ?thesis
    unfolding unusedDownloadedMods_def wp_bindE [of "storeList E"]
    by (rule wp_mono [OF listed]) (use insts in auto)
qed

lemma same_disk_self [simp]: "same_disk w w" "spared w es w"
  by (simp_all add: same_disk_def same_state_def spared_def)

lemma same_disk_spared: "same_disk w u \<Longrightarrow> spared w es u"
  by (simp add: same_disk_def spared_def)

lemma gate_keeps [simp]: "same_disk w (u\<lparr>w_gate := g\<rparr>) = same_disk w u"
  "spared w es (u\<lparr>w_gate := g\<rparr>) = spared w es u" "cleaned w es ds (u\<lparr>w_gate := g\<rparr>) = cleaned w es ds u"
  by (simp_all add: same_disk_def same_state_def spared_def cleaned_def)

lemma wp_RemoveUnused:
  assumes base: "root_path (storeRoot E) es"
  shows "wp (RemoveUnusedDownloadedMods E)
    (\<lambda>res u. \<exists>items. res = downloadedModCleanupResult items \<and> cleaned w es items u) (\<lambda>_. spared w es) w"
  unfolding RemoveUnusedDownloadedMods_def
proof (rule wp_withGate, simp)
  let ?w = "w\<lparr>w_gate := (w_gate w)\<lparr>active := active (w_gate w) + 1\<rparr>\<rparr>"
  have loop: "wp (forE items (deleteRelease E)) (\<lambda>_. cleaned w es items) (\<lambda>_. spared w es) u"
    if "same_disk w u" "\<forall>d \<in> set items. \<not> release_used w d" for items u
    by (rule wp_forE_prefix) (use that in \<open>auto intro: wp_deleteRelease [OF base] spared_refl\<close>)
  have "same_disk w ?w" by simp
  from wp_unusedDownloadedMods [OF this]
  have "wp (bindE (unusedDownloadedMods E) (\<lambda>items. bindE (forE items (deleteRelease E)) (\<lambda>_.
      returnE (downloadedModCleanupResult items))))
      (\<lambda>res u. \<exists>items. res = downloadedModCleanupResult items \<and> cleaned w es items u) (\<lambda>_. spared w es) ?w"
    unfolding wp_bindE
    by (rule wp_mono) (auto simp: wp_simps same_disk_spared intro!: wp_mono [OF loop])
  then show "wp (bindE (unusedDownloadedMods E) (\<lambda>items. bindE (forE items (deleteRelease E)) (\<lambda>_.
      returnE (downloadedModCleanupResult items))))
      (\<lambda>res u. \<exists>items. res = downloadedModCleanupResult items \<and> cleaned w es items (u\<lparr>w_gate := End (w_gate u)\<rparr>))
      (\<lambda>_ u. spared w es (u\<lparr>w_gate := End (w_gate u)\<rparr>)) ?w"
    by simp
qed

lemma wp_RemoveIfUnused:
  assumes base: "root_path (storeRoot E) es"
  shows "wp (RemoveDownloadedModsIfUnusedLocked E candidates) (\<lambda>_. spared w es) (\<lambda>_. spared w es) w"
proof -
  let ?each = "\<lambda>keys d. bindE (getE (\<lambda>w. releaseInUse keys (w_tasks w) d)) (\<lambda>used.
      if used then returnE () else deleteRelease E d)"
  have each: "wp (?each keys d) (\<lambda>_. spared w es) (\<lambda>_. spared w es) u"
    if "set keys = installed_keys w" "spared w es u" for keys d u
  proof -
    have "releaseInUse keys (w_tasks u) d \<longleftrightarrow> release_used w d"
      using that by (auto simp: releaseInUse_def release_used_def spared_def same_state_def)
    moreover have "wp (deleteRelease E d) (\<lambda>_. spared w es) (\<lambda>_. spared w es) u" if "\<not> release_used w d"
      by (rule wp_mono [OF wp_deleteRelease [OF base _ that, of "[]"]])
         (use \<open>spared w es u\<close> in \<open>auto simp: cleaned_def\<close>)
    ultimately show ?thesis using that(2) by (simp add: wp_simps)
  qed
  have all: "wp (forE ds (?each keys)) (\<lambda>_. spared w es) (\<lambda>_. spared w es) u"
    if "keys_read w (w_instances w) keys u" for keys ds u
    by (rule wp_forE) (use that each in \<open>auto simp: keys_read_def installed_keys_def same_disk_spared\<close>)
  have keys: "wp (bindE (foldE (collectKeys E) (w_instances w) []) (\<lambda>keys. forE ds (?each keys)))
      (\<lambda>_. spared w es) (\<lambda>_. spared w es) u"
    if "same_disk w u" for u ds
    unfolding wp_bindE [of "foldE _ _ _"] by (rule wp_mono [OF wp_collectKeys [OF that]])
      (use all in \<open>auto simp: same_disk_spared\<close>)
  have insts: "wp (bindE (ListInstances E) (\<lambda>instances.
      bindE (foldE (collectKeys E) instances []) (\<lambda>keys. forE ds (?each keys))))
      (\<lambda>_. spared w es) (\<lambda>_. spared w es) w" for ds
    unfolding wp_bindE [of "ListInstances E"]
    by (rule wp_mono [OF wp_ListInstances [OF same_disk_self(1)]]) (use keys in \<open>auto simp: same_disk_spared\<close>)
  then show ?thesis
    unfolding RemoveDownloadedModsIfUnusedLocked_def wp_if by (simp add: wp_returnE)
qed



section \<open>Installing a release\<close>

definition is_release :: "downloaded_mod \<Rightarrow> instance_ref \<Rightarrow> installed_mod \<Rightarrow> bool" where
  "is_release d inst row \<longleftrightarrow> im_instance row = ir_id inst \<and>
     im_source row = ModDBSource (dm_mod_id d) (dm_version_id d) \<and> im_version row = dm_version d"

definition same_catalog_mod :: "downloaded_mod \<Rightarrow> instance_ref \<Rightarrow> installed_mod \<Rightarrow> bool" where
  "same_catalog_mod d inst row \<longleftrightarrow> im_instance row = ir_id inst \<and>
     HasPrefix (im_source row) (''moddb:'' @ dm_mod_id d @ '':'')"

definition release_recorded ::
  "downloaded_mod \<Rightarrow> instance_ref \<Rightarrow> installed_mod list \<Rightarrow> bool \<Rightarrow> installed_mod list \<Rightarrow> bool" where
  "release_recorded d inst rows installed rows' \<longleftrightarrow>
     (installed \<longrightarrow> (\<exists>row \<in> set rows'. is_release d inst row)) \<and>
     (\<forall>row \<in> set rows. \<not> same_catalog_mod d inst row \<longrightarrow> row \<in> set rows') \<and>
     (\<forall>row \<in> set rows'. row \<in> set rows \<or> is_release d inst row)"

lemma wp_newIDE [wp_simps]: "wp (newIDE E) Q X w \<longleftrightarrow> Q (ev_new_id E (w_ticks w)) (tick w)"
  by (simp add: wp_def newIDE_def tick_def)

lemma wp_SaveMod_new:
  assumes "im_id m \<notin> im_id ` set (w_rows u)" "\<And>e. X e (tick u)"
    and "\<And>row. im_instance row = im_instance m \<Longrightarrow> im_source row = im_source m \<Longrightarrow>
      im_version row = im_version m \<Longrightarrow> Q () ((tick u)\<lparr>w_rows := w_rows u @ [row]\<rparr>)"
  shows "wp (SaveMod E m) Q X u"
  unfolding SaveMod_def
  by (rule wp_callE) (use assms in \<open>auto simp: wp_def Let_def upsertMod_fresh\<close>)

lemma wp_recordRelease:
  assumes "\<And>n. ev_new_id E n \<notin> im_id ` set (w_rows u)"
  shows "wp (recordRelease E d inst fp policy)
    (\<lambda>r u'. if mir_installed r then \<exists>row. is_release d inst row \<and> w_rows u' = w_rows u @ [row]
            else w_rows u' = w_rows u) (\<lambda>_ _. False) u"
  unfolding recordRelease_def nowE_def wp_bindE wp_getE wp_newIDE wp_catchE
  by (rule wp_SaveMod_new)
     (use assms in \<open>auto simp: wp_simps publishE_def catalogMod_def installationResult_def is_release_def\<close>)

lemma release_recordedI:
  assumes "if installed then \<exists>row. is_release d inst row \<and> rows' = krows @ [row] else rows' = krows"
    and "set krows \<subseteq> set rows" "\<And>row. row \<in> set rows \<Longrightarrow> \<not> same_catalog_mod d inst row \<Longrightarrow> row \<in> set krows"
  shows "release_recorded d inst rows installed rows'"
  using assms by (auto simp: release_recorded_def split: if_splits)

lemma wp_keeping_rows:
  assumes "evolves (keeping w_rows) m" "w_rows u = rows"
    and "\<And>x u'. w_rows u' = rows \<Longrightarrow> Q x u'" "\<And>e u'. w_rows u' = rows \<Longrightarrow> X e u'"
  shows "wp m Q X u"
  by (rule wp_mono [OF wp_evolves [OF assms(1)]]) (use assms(2-4) in \<open>auto simp: keeping_def\<close>)

lemma rowsOf_member:
  "p \<in> set (rowsOf base i rows) \<Longrightarrow> \<exists>r \<in> set rows. im_instance r = i \<and> im_id r = im_id p \<and>
     im_source r = im_source p \<and> im_version r = im_version p"
  by (auto simp: rowsOf_def scanMod_def)

text \<open>The previous record of the mod goes, then the new one comes.\<close>

lemma wp_dropPrevious:
  assumes "rows_wf (w_rows u)" "r \<in> set (w_rows u)" "same_catalog_mod d inst r" "im_id p = im_id r"
    and "\<And>krows u'. set krows \<subseteq> set (w_rows u) \<Longrightarrow>
      (\<And>row. row \<in> set (w_rows u) \<Longrightarrow> \<not> same_catalog_mod d inst row \<Longrightarrow> row \<in> set krows) \<Longrightarrow>
      w_rows u' = krows \<Longrightarrow> Q () u' \<and> (\<forall>e. X e u')"
  shows "wp (dropPrevious E p) Q X u"
proof -
  let ?kept = "filter (\<lambda>r. im_id r \<noteq> im_id p) (w_rows u)"
  have only: "row = r" if "row \<in> set (w_rows u)" "im_id row = im_id p" for row
    using that assms(1,2,4) by (auto simp: rows_wf_def inj_on_def distinct_map)
  have kept_row: "row \<in> set ?kept" if "row \<in> set (w_rows u)" "\<not> same_catalog_mod d inst row" for row
    using that only assms(3) by auto
  have same: "Q () u' \<and> (\<forall>e. X e u')" if "w_rows u' = w_rows u" for u' by (rule assms(5)) (use that in auto)
  have gone: "Q () u' \<and> (\<forall>e. X e u')" if "w_rows u' = ?kept" for u' by (rule assms(5)) (use that kept_row in auto)
  have rest: "wp (case ParseModDBSource (im_source p) of None \<Rightarrow> returnE ()
      | Some (modID, versionID) \<Rightarrow> removeSupersededCacheVersion E modID versionID) Q X u'" if "w_rows u' = ?kept" for u'
    by (rule wp_keeping_rows [OF _ that]) (auto intro!: evolve_rules simp: gone)
  show ?thesis
    unfolding dropPrevious_def wp_bindE DeleteModRow_def
    by (rule wp_callE) (use same rest in \<open>auto simp: wp_def\<close>)
qed

lemma wp_replaceRelease:
  assumes wf: "rows_wf (w_rows w)" and fresh: "\<And>n. ev_new_id E n \<notin> im_id ` set (w_rows w)"
    and p: "p = None \<or> (\<exists>q r. p = Some q \<and> r \<in> set (w_rows w) \<and> same_catalog_mod d inst r \<and> im_id q = im_id r)"
    and u: "w_rows u = w_rows w"
  shows "wp (replaceRelease E d inst p)
    (\<lambda>r w'. release_recorded d inst (w_rows w) (mir_installed r) (w_rows w')) (\<lambda>_ _. False) u"
proof -
  let ?Q = "\<lambda>r w'. release_recorded d inst (w_rows w) (mir_installed r) (w_rows w')"
  have failed: "?Q (installationResult inst False msg) u"
    if "set (w_rows u) \<subseteq> set (w_rows w)"
      "\<And>row. row \<in> set (w_rows w) \<Longrightarrow> \<not> same_catalog_mod d inst row \<Longrightarrow> row \<in> set (w_rows u)" for u msg
    using that by (auto simp: release_recorded_def installationResult_def)
  have saved: "wp (recordRelease E d inst fp policy) ?Q (\<lambda>_ _. False) u"
    if "set (w_rows u) \<subseteq> set (w_rows w)"
      "\<And>row. row \<in> set (w_rows w) \<Longrightarrow> \<not> same_catalog_mod d inst row \<Longrightarrow> row \<in> set (w_rows u)"
    for u fp policy
    by (rule wp_mono [OF wp_recordRelease]) (use that fresh in \<open>auto intro: release_recordedI\<close>)
  have same: "wp (recordRelease E d inst fp policy) ?Q (\<lambda>_ _. False) u"
      "release_recorded d inst (w_rows w) (mir_installed (installationResult inst False msg)) (w_rows w)"
    if "w_rows u = w_rows w" for u fp policy msg
    using saved [of u fp policy] failed [of w msg] that by simp_all
  have previous: "wp (dropPrevious E p) (\<lambda>_. wp (recordRelease E d inst fp policy) ?Q (\<lambda>_ _. False))
      (\<lambda>_ u. ?Q (installationResult inst False msg) u) u"
    if "r \<in> set (w_rows w)" "same_catalog_mod d inst r" "im_id p = im_id r" "w_rows u = w_rows w"
    for p r u fp policy msg
    by (rule wp_dropPrevious) (use that wf in \<open>auto intro: failed saved\<close>)
  show ?thesis
    unfolding replaceRelease_def wp_catchE
    by (rule wp_keeping_rows [OF _ u])
       (use p in \<open>auto simp: wp_simps intro!: evolve_rules same previous\<close>)
qed

lemma wp_installDownloadedMod:
  assumes wf: "rows_wf (w_rows w)" and fresh: "\<And>n. ev_new_id E n \<notin> im_id ` set (w_rows w)"
  shows "wp (installDownloadedMod E d inst)
    (\<lambda>r w'. release_recorded d inst (w_rows w) (mir_installed r) (w_rows w')) (\<lambda>_ _. False) w"
proof -
  let ?Q = "\<lambda>r w'. release_recorded d inst (w_rows w) (mir_installed r) (w_rows w')"
  note replace = wp_replaceRelease [OF wf fresh]
  have failed: "?Q (installationResult inst False msg) u" if "w_rows u = w_rows w" for u msg
    using that by (auto simp: release_recorded_def installationResult_def)
  have found: "wp (case previousRelease (dm_mod_id d) (rowsOf b (ir_id inst) (w_rows w)) of
        None \<Rightarrow> replaceRelease E d inst None
      | Some p \<Rightarrow> (if im_source p = ModDBSource (dm_mod_id d) (dm_version_id d) \<and> im_version p = dm_version d
                  then returnE (installationResult inst True ''Already installed'')
                  else replaceRelease E d inst (Some p))) ?Q (\<lambda>_ _. False) u"
    if u: "w_rows u = w_rows w" for b u
  proof (cases "previousRelease (dm_mod_id d) (rowsOf b (ir_id inst) (w_rows w))")
    case (Some p)
    then have p: "p \<in> set (rowsOf b (ir_id inst) (w_rows w))" "HasPrefix (im_source p) (''moddb:'' @ dm_mod_id d @ '':'')"
      by (auto simp: previousRelease_def dest!: find_SomeD)
    from rowsOf_member [OF p(1)] obtain r where r: "r \<in> set (w_rows w)" "im_instance r = ir_id inst"
        "im_id r = im_id p" "im_source r = im_source p" "im_version r = im_version p" by blast
    then have "same_catalog_mod d inst r" using p(2) by (simp add: same_catalog_mod_def)
    then have "wp (replaceRelease E d inst (Some p)) ?Q (\<lambda>_ _. False) u"
      by (intro replace) (use r u in auto)
    then show ?thesis
      using Some r u by (auto simp: wp_simps release_recorded_def is_release_def installationResult_def)
  qed (use replace u in simp)
  show ?thesis
    unfolding installDownloadedMod_def ListModRows_def wp_catchE
    by (rule wp_readE) (use failed found in \<open>auto simp: wp_simps\<close>)
qed

text \<open>
  C34 (functional).  Installing a cached release into an instance never throws.  When it
  reports success, the instance has a record of exactly that release; whatever it reports,
  every record that is not of the same catalog mod in that instance stays, and the only
  new record is that of the release.
\<close>

theorem installDownloadedMod_records:
  assumes "rows_wf (w_rows w)" "\<And>n. ev_new_id E n \<notin> im_id ` set (w_rows w)"
  shows "\<exists>r w'. installDownloadedMod E d inst w = (Inr r, w') \<and>
    release_recorded d inst (w_rows w) (mir_installed r) (w_rows w')"
  using wp_installDownloadedMod [OF assms, of d inst] by (auto simp: wp_def split: prod.splits sum.splits)

theorem installDownloadedMod_records_witness:
  "\<exists>r w'. installDownloadedMod sampleEnv sampleRecord
      (plainInstance ''i'' ''I'' ''/i'' ''v'')
      (sampleWorld [] []) = (Inr r, w')"
  using installDownloadedMod_records [of "sampleWorld [] []" sampleEnv sampleRecord
      "plainInstance ''i'' ''I'' ''/i'' ''v''"]
  by (auto simp: rows_wf_def)

end
