(* ===== verification/ModUpdates.thy ===== *)
theory ModUpdates
  imports ModDownloads
begin

text \<open>
  \<open>internal/mods/updates.go\<close>: the check of an instance for mod updates, and the update of
  installed mods in one transaction.  The analysis itself is \<open>Analyze\<close> of the module
  \<open>vintagestory-go/modpack\<close>; it is not part of the repository, so it is a parameter, and of
  its report the model has the fields the launcher reads or writes.
\<close>

section \<open>The types of the analyzer\<close>

text \<open>
  The statuses and reasons are string constants of the module; the launcher only
  distinguishes the ones it names in its \<open>switch\<close> statements, which are distinct.
\<close>

datatype update_status = StatusUpToDate | StatusUpdateAvailable | StatusNotUpdatable | OtherStatus string

datatype update_reason = ReasonLocalMod | ReasonNotInCatalog | ReasonCatalogError | OtherReason string

record mod_update =
  mu_mod_id :: string
  mu_installed :: string
  mu_status :: update_status
  mu_reason :: update_reason
  mu_target_id :: string
  mu_target :: string
  mu_compatible :: bool
  mu_prerelease :: bool
  mu_changelog :: string

record update_summary =
  us_total :: int
  us_up_to_date :: int
  us_available :: int
  us_incompatible :: int
  us_local :: int
  us_absent :: int
  us_catalog_error :: int

record update_report =
  rep_mods :: "mod_update list"
  rep_summary :: update_summary

definition blankSummary :: update_summary where
  "blankSummary = \<lparr>us_total = 0, us_up_to_date = 0, us_available = 0, us_incompatible = 0, us_local = 0,
     us_absent = 0, us_catalog_error = 0\<rparr>"

definition blankReport :: update_report where
  "blankReport = \<lparr>rep_mods = [], rep_summary = blankSummary\<rparr>"

record pack_dependency =
  pd_mod_id :: string
  pd_name :: string
  pd_requirement :: string

record pack_version =
  pv_id :: string
  pv_version :: string
  pv_release_type :: string
  pv_game_versions :: "string list"
  pv_changelog :: string
  pv_dependencies :: "pack_dependency list"

record pack_info =
  pk_id :: string
  pk_latest :: string
  pk_versions :: "pack_version list"

definition blankPackInfo :: pack_info where
  "blankPackInfo = \<lparr>pk_id = [], pk_latest = [], pk_versions = []\<rparr>"

record pack_install =
  pt_name :: string
  pt_version :: string
  pt_file_name :: string
  pt_enabled :: bool
  pt_mod_id :: string
  pt_managed :: bool
  pt_dependencies :: "string list"

record pack_build =
  pb_game_version :: string
  pb_mods :: "pack_install list"

type_synonym analyzer = "pack_build \<Rightarrow> (string \<Rightarrow> pack_info act) \<Rightarrow> update_report act"

section \<open>The catalog as the analyzer sees it\<close>

definition modDependencies :: "mod_dependency list \<Rightarrow> pack_dependency list" where
  "modDependencies items =
     map (\<lambda>i. \<lparr>pd_mod_id = dep_mod_id i, pd_name = dep_name i, pd_requirement = dep_version i\<rparr>) items"

definition packVersion :: "mod_version \<Rightarrow> pack_version" where
  "packVersion v = \<lparr>pv_id = mv_id v, pv_version = mv_version v, pv_release_type = mv_release_type v,
     pv_game_versions = mv_game_versions v, pv_changelog = mv_changelog v, pv_dependencies = []\<rparr>"

text \<open>\<open>latestIndex\<close>: the first release with the catalog's latest version gets the dependencies.\<close>

fun attachDependencies :: "string \<Rightarrow> pack_dependency list \<Rightarrow> pack_version list \<Rightarrow> pack_version list" where
  "attachDependencies latest deps [] = []"
| "attachDependencies latest deps (v # vs) =
     (if pv_version v \<noteq> [] \<and> pv_version v = latest then v\<lparr>pv_dependencies := deps\<rparr> # vs
      else v # attachDependencies latest deps vs)"

definition packInfo :: "mod_details \<Rightarrow> pack_info" where
  "packInfo details =
     \<lparr>pk_id = canonicalCatalogModID details, pk_latest = ms_latest details,
      pk_versions = attachDependencies (ms_latest details) (modDependencies (md_dependencies details))
        (map packVersion (md_versions details))\<rparr>"

definition adapterGet :: "env \<Rightarrow> string \<Rightarrow> pack_info act" where
  "adapterGet E modID = catchE (CatalogGet E modID) (\<lambda>r. case r of
     Inl e \<Rightarrow> (if isAppErrorCode e ErrModNotFound then returnE blankPackInfo else throwE e)
   | Inr details \<Rightarrow> returnE (packInfo details))"

section \<open>The report\<close>

definition countUpdate :: "mod_update \<Rightarrow> update_summary \<Rightarrow> update_summary" where
  "countUpdate u s =
     (case mu_status u of
        StatusUpToDate \<Rightarrow> s\<lparr>us_up_to_date := us_up_to_date s + 1\<rparr>
      | StatusUpdateAvailable \<Rightarrow>
          s\<lparr>us_available := us_available s + 1,
            us_incompatible := us_incompatible s + (if mu_compatible u then 0 else 1)\<rparr>
      | StatusNotUpdatable \<Rightarrow>
          (case mu_reason u of
             ReasonLocalMod \<Rightarrow> s\<lparr>us_local := us_local s + 1\<rparr>
           | ReasonNotInCatalog \<Rightarrow> s\<lparr>us_absent := us_absent s + 1\<rparr>
           | ReasonCatalogError \<Rightarrow> s\<lparr>us_catalog_error := us_catalog_error s + 1\<rparr>
           | OtherReason _ \<Rightarrow> s)
      | OtherStatus _ \<Rightarrow> s)"

definition summarizeModUpdates :: "mod_update list \<Rightarrow> update_summary" where
  "summarizeModUpdates updates = fold countUpdate updates (blankSummary\<lparr>us_total := int (length updates)\<rparr>)"

text \<open>The policies by mod; of several records of one mod the last one counts here.\<close>

definition reportPolicies :: "installed_mod list \<Rightarrow> string \<Rightarrow> string" where
  "reportPolicies installed = lookup_default [] (fold (\<lambda>m policies.
     case ParseModDBSource (im_source m) of
       None \<Rightarrow> policies
     | Some (modID, _) \<Rightarrow> policies(normalizeUpdateID modID \<mapsto> NormalizeUpdatePolicy (im_policy m)))
     installed Map.empty)"

definition pinUpdate :: "mod_update \<Rightarrow> mod_update" where
  "pinUpdate u = u\<lparr>mu_status := StatusUpToDate, mu_target_id := [], mu_target := []\<rparr>"

definition failUpdate :: "mod_update \<Rightarrow> mod_update" where
  "failUpdate u = u\<lparr>mu_status := StatusNotUpdatable, mu_reason := ReasonCatalogError,
     mu_target_id := [], mu_target := []\<rparr>"

definition retargetUpdate :: "mod_version \<Rightarrow> mod_update \<Rightarrow> mod_update" where
  "retargetUpdate v u = u\<lparr>mu_target_id := mv_id v, mu_target := mv_version v, mu_compatible := True,
     mu_changelog := mv_changelog v,
     mu_prerelease := (TrimSpace (mv_release_type v) \<noteq> [] \<and> \<not> EqualFold (TrimSpace (mv_release_type v)) ''stable'')\<rparr>"

definition compatibleUpdate :: "env \<Rightarrow> string \<Rightarrow> mod_details \<Rightarrow> mod_update \<Rightarrow> mod_update" where
  "compatibleUpdate E gameVersion details u =
     (case bestSatisfyingVersion E (filter (\<lambda>v. vs_compare E (mv_version v) (mu_installed u) > 0) (md_versions details))
             ''*'' [gameVersion] False of
        Some v \<Rightarrow> retargetUpdate v u
      | None \<Rightarrow> pinUpdate u)"

definition applyUpdatePolicy :: "env \<Rightarrow> string \<Rightarrow> (string \<Rightarrow> string) \<Rightarrow> mod_update \<Rightarrow> mod_update act" where
  "applyUpdatePolicy E gameVersion policies u =
     (if policies (normalizeUpdateID (mu_mod_id u)) = UpdatePolicyPinned then returnE (pinUpdate u)
      else if policies (normalizeUpdateID (mu_mod_id u)) = UpdatePolicyCompatibleOnly then
        (if mu_status u \<noteq> StatusUpdateAvailable \<or> mu_compatible u then returnE u
         else catchE (CatalogGet E (mu_mod_id u)) (\<lambda>r. returnE (case r of
           Inl _ \<Rightarrow> failUpdate u
         | Inr details \<Rightarrow> compatibleUpdate E gameVersion details u)))
      else returnE u)"

text \<open>
  The counters the loop keeps in the summary are overwritten by \<open>summarizeModUpdates\<close> at its
  end; here only the latter computes the summary.
\<close>

definition applyUpdatePolicies ::
  "env \<Rightarrow> update_report \<Rightarrow> installed_mod list \<Rightarrow> string \<Rightarrow> update_report act" where
  "applyUpdatePolicies E report installed gameVersion =
     bindE (foldE (\<lambda>u acc.
        bindE (applyUpdatePolicy E gameVersion (reportPolicies installed) u) (\<lambda>u'. returnE (acc @ [u'])))
       (rep_mods report) []) (\<lambda>updates.
     returnE (report\<lparr>rep_mods := updates, rep_summary := summarizeModUpdates updates\<rparr>))"

definition packInstall :: "env \<Rightarrow> installed_mod \<Rightarrow> pack_install act" where
  "packInstall E m =
     catchE (ReadModArchiveInfo E (im_file_path m)) (\<lambda>r.
     returnE \<lparr>pt_name = im_name m, pt_version = im_version m, pt_file_name = im_file_name m,
       pt_enabled = im_enabled m,
       pt_mod_id = (case ParseModDBSource (im_source m) of None \<Rightarrow> [] | Some (modID, _) \<Rightarrow> modID),
       pt_managed = (ParseModDBSource (im_source m) \<noteq> None),
       pt_dependencies = (case r of Inl _ \<Rightarrow> [] | Inr info \<Rightarrow> map fst (ai_dependencies info))\<rparr>)"

definition CheckInstanceModUpdates :: "env \<Rightarrow> analyzer \<Rightarrow> string \<Rightarrow> update_report act" where
  "CheckInstanceModUpdates E analyze instanceID =
     bindE (GetInstance E instanceID) (\<lambda>inst.
     catchE (GetVersion E (ir_game_version inst)) (\<lambda>r.
     let gameVersion = (case r of Inl _ \<Rightarrow> [] | Inr version \<Rightarrow> gameVersionName version) in
     bindE (ListMods E instanceID) (\<lambda>mods.
     bindE (foldE (\<lambda>m acc. bindE (packInstall E m) (\<lambda>x. returnE (acc @ [x]))) mods []) (\<lambda>installs.
     bindE (analyze \<lparr>pb_game_version = gameVersion, pb_mods = installs\<rparr> (adapterGet E)) (\<lambda>report.
     applyUpdatePolicies E report mods gameVersion)))))"

section \<open>Pending changes\<close>

definition matchingMods :: "installed_mod list \<Rightarrow> string \<Rightarrow> installed_mod list" where
  "matchingMods installed modID = filter (\<lambda>m. case ParseModDBSource (im_source m) of
     None \<Rightarrow> False | Some (i, _) \<Rightarrow> normalizeUpdateID i = modID) installed"

text \<open>The policies by mod; here the first record counts, unless any of them is pinned.\<close>

definition updatePolicies :: "installed_mod list \<Rightarrow> (string \<times> string) list" where
  "updatePolicies installed = fold (\<lambda>m policies.
     case ParseModDBSource (im_source m) of
       None \<Rightarrow> policies
     | Some (modID, _) \<Rightarrow>
         (if map_of policies (normalizeUpdateID modID) = None \<or>
             NormalizeUpdatePolicy (im_policy m) = UpdatePolicyPinned
          then AList.update (normalizeUpdateID modID) (NormalizeUpdatePolicy (im_policy m)) policies
          else policies)) installed []"

definition policyOf :: "installed_mod list \<Rightarrow> string \<Rightarrow> string" where
  "policyOf installed modID = lookup_default [] (map_of (updatePolicies installed)) modID"

definition targetKey :: "mod_target \<Rightarrow> string" where
  "targetKey t = normalizeUpdateID (tg_mod_id t) @ '':'' @ normalizeUpdateID (TrimSpace (tg_version_id t))"

definition acceptTarget ::
  "env \<Rightarrow> installed_mod list \<Rightarrow> string \<Rightarrow> bool \<Rightarrow> string \<Rightarrow> mod_version \<Rightarrow> bool" where
  "acceptTarget E installed gameVersion automatic modID version \<longleftrightarrow>
     (automatic \<longrightarrow> isUpgradeTarget E (highestInstalledVersion E (matchingMods installed modID)) version) \<and>
     (policyOf installed modID = UpdatePolicyCompatibleOnly \<longrightarrow>
        ModSupportsVersion (mv_game_versions version) gameVersion)"

definition checkTarget ::
  "env \<Rightarrow> installed_mod list \<Rightarrow> string \<Rightarrow> bool \<Rightarrow> string \<Rightarrow> string \<Rightarrow> mod_target list act" where
  "checkTarget E installed gameVersion automatic modID versionID =
     (if matchingMods installed modID = [] \<or> policyOf installed modID = UpdatePolicyPinned \<or>
         installedRelease (matchingMods installed modID) versionID
      then returnE []
      else bindE (CatalogGet E modID) (\<lambda>details.
        case findUpdateVersion (md_versions details) versionID of
          None \<Rightarrow> throwE (NewError ErrModVersionNotFound ''Mod version not found'')
        | Some version \<Rightarrow>
            returnE (if acceptTarget E installed gameVersion automatic modID version
                     then [\<lparr>tg_mod_id = modID, tg_version_id = mv_id version\<rparr>] else [])))"

definition pendingStep ::
  "env \<Rightarrow> installed_mod list \<Rightarrow> string \<Rightarrow> bool \<Rightarrow> mod_target \<Rightarrow> string list \<times> mod_target list \<Rightarrow>
     (string list \<times> mod_target list) act" where
  "pendingStep E installed gameVersion automatic target acc =
     (if normalizeUpdateID (tg_mod_id target) = [] \<or> TrimSpace (tg_version_id target) = [] \<or>
         targetKey target \<in> set (fst acc)
      then returnE acc
      else bindE (checkTarget E installed gameVersion automatic (normalizeUpdateID (tg_mod_id target))
                    (TrimSpace (tg_version_id target))) (\<lambda>accepted.
           returnE (targetKey target # fst acc, snd acc @ accepted)))"

definition skippedByPolicy :: "installed_mod list \<Rightarrow> mod_target list \<Rightarrow> int" where
  "skippedByPolicy installed targets = int (length (filter (\<lambda>(modID, policy).
     policy = UpdatePolicyPinned \<and>
     list_ex (\<lambda>t. normalizeUpdateID (tg_mod_id t) = modID \<and>
                 \<not> installedRelease (matchingMods installed modID) (TrimSpace (tg_version_id t))) targets)
     (updatePolicies installed)))"

definition pendingModChanges ::
  "env \<Rightarrow> installed_mod list \<Rightarrow> mod_target list \<Rightarrow> string \<Rightarrow> bool \<Rightarrow> (mod_target list \<times> int) act" where
  "pendingModChanges E installed targets gameVersion automatic =
     bindE (foldE (pendingStep E installed gameVersion automatic) targets ([], [])) (\<lambda>acc.
     returnE (snd acc, skippedByPolicy installed targets))"

definition pendingModUpdates ::
  "env \<Rightarrow> installed_mod list \<Rightarrow> mod_target list \<Rightarrow> string \<Rightarrow> (mod_target list \<times> int) act" where
  "pendingModUpdates E installed targets gameVersion = pendingModChanges E installed targets gameVersion True"

section \<open>Applying the changes\<close>

type_synonym update_answer = "mod_update_result \<times> go_error option"

definition blankUpdateResult :: mod_update_result where
  "blankUpdateResult = \<lparr>ur_updated = 0, ur_skipped = 0\<rparr>"

text \<open>A call whose error ends the method with the result filled so far.\<close>

definition orAnswer :: "mod_update_result \<Rightarrow> 'a act \<Rightarrow> ('a \<Rightarrow> update_answer act) \<Rightarrow> update_answer act" where
  "orAnswer result m f = catchE m (\<lambda>r. case r of Inl e \<Rightarrow> returnE (result, Some e) | Inr x \<Rightarrow> f x)"

definition targetRequest :: "instance_ref \<Rightarrow> bool \<Rightarrow> mod_target \<Rightarrow> download_mod_request" where
  "targetRequest inst allowIncompatible target =
     \<lparr>rq_mod_id = tg_mod_id target, rq_version_id = tg_version_id target, rq_instances = [ir_id inst],
      rq_download_only = False, rq_allow_incompatible = allowIncompatible\<rparr>"

definition countInstalled :: "mod_install_result \<Rightarrow> mod_update_result \<Rightarrow> mod_update_result" where
  "countInstalled download result =
     (case ins_installations download of
        i # _ \<Rightarrow> (if mir_installed i then result\<lparr>ur_updated := ur_updated result + 1\<rparr> else result)
      | [] \<Rightarrow> result)"

primrec applyPending ::
  "env \<Rightarrow> instance_ref \<Rightarrow> string \<Rightarrow> string \<Rightarrow> bool \<Rightarrow> bool \<Rightarrow> nat \<Rightarrow> mod_target list \<Rightarrow> bool \<Rightarrow>
     mod_update_result \<Rightarrow> update_answer act" where
  "applyPending E inst instanceID gameVersion automatic allowIncompatible affected [] snapshotted result =
     returnE (result, None)"
| "applyPending E inst instanceID gameVersion automatic allowIncompatible affected (target # targets) snapshotted result =
     orAnswer result (ListMods E instanceID) (\<lambda>installed.
     orAnswer result (pendingModChanges E installed [target] gameVersion automatic) (\<lambda>(fresh, _).
     case fresh of
       [] \<Rightarrow> applyPending E inst instanceID gameVersion automatic allowIncompatible affected targets snapshotted result
     | t # _ \<Rightarrow>
         orAnswer result (if snapshotted then returnE ()
                          else createSnapshot E instanceID ReasonBeforeModUpdate affected) (\<lambda>_.
         bindE (downloadCatalogMod E (targetRequest inst allowIncompatible t) [ir_id inst]) (\<lambda>(download, failure).
         case failure of
           Some e \<Rightarrow> returnE (result, Some e)
         | None \<Rightarrow>
             applyPending E inst instanceID gameVersion automatic allowIncompatible affected targets True
               (countInstalled download result)))))"

definition applyLocked ::
  "env \<Rightarrow> instance_ref \<Rightarrow> string \<Rightarrow> string \<Rightarrow> mod_target list \<Rightarrow> bool \<Rightarrow> bool \<Rightarrow> update_answer act" where
  "applyLocked E inst instanceID gameVersion targets allowIncompatible automatic =
     orAnswer blankUpdateResult (ListMods E instanceID) (\<lambda>installed.
     orAnswer blankUpdateResult (pendingModChanges E installed targets gameVersion automatic) (\<lambda>(pending, skipped).
     applyPending E inst instanceID gameVersion automatic allowIncompatible (length pending) pending False
       (blankUpdateResult\<lparr>ur_skipped := skipped\<rparr>)))"

definition answered :: "update_answer act \<Rightarrow> update_answer act" where
  "answered m = orAnswer blankUpdateResult m returnE"

definition applyInstanceModTargets ::
  "env \<Rightarrow> string \<Rightarrow> mod_target list \<Rightarrow> bool \<Rightarrow> bool \<Rightarrow> update_answer act" where
  "applyInstanceModTargets E instanceID targets allowIncompatible automatic = answered (withGate
     (if targets = [] then returnE (blankUpdateResult, None)
      else bindE (GetInstance E instanceID) (\<lambda>inst.
        bindE (GetVersion E (ir_game_version inst)) (\<lambda>version.
        withLock instanceID
          (applyLocked E inst instanceID (gameVersionName version) targets allowIncompatible automatic)))))"

definition UpdateInstanceMods :: "env \<Rightarrow> string \<Rightarrow> mod_target list \<Rightarrow> bool \<Rightarrow> update_answer act" where
  "UpdateInstanceMods E instanceID targets allowIncompatible =
     applyInstanceModTargets E instanceID targets allowIncompatible True"

definition ChangeInstanceModVersion :: "env \<Rightarrow> string \<Rightarrow> mod_target \<Rightarrow> bool \<Rightarrow> update_answer act" where
  "ChangeInstanceModVersion E instanceID target allowIncompatible =
     applyInstanceModTargets E instanceID [target] allowIncompatible False"

definition GetInstanceModUpgradeVersions :: "env \<Rightarrow> string \<Rightarrow> string \<Rightarrow> mod_version list act" where
  "GetInstanceModUpgradeVersions E instanceID modID =
     bindE (ListMods E instanceID) (\<lambda>installed.
       if matchingMods installed (normalizeUpdateID modID) = [] then returnE []
       else bindE (CatalogGet E (normalizeUpdateID modID)) (\<lambda>details.
         returnE (filter (isUpgradeTarget E
             (highestInstalledVersion E (matchingMods installed (normalizeUpdateID modID)))) (md_versions details))))"

section \<open>Policies\<close>

lemma normalizeUpdateID_idem [simp]: "normalizeUpdateID (normalizeUpdateID i) = normalizeUpdateID i"
  by (simp add: normalizeUpdateID_def ToLower_TrimSpace)

lemma normalizeUpdateID_trim [simp]: "normalizeUpdateID (TrimSpace i) = normalizeUpdateID i"
  by (simp add: normalizeUpdateID_def)

lemma matchingMods_append [simp]: "matchingMods (xs @ ys) k = matchingMods xs k @ matchingMods ys k"
  by (simp add: matchingMods_def)

lemma installedRelease_normal:
  "normalizeUpdateID v = normalizeUpdateID v' \<Longrightarrow> installedRelease ms v = installedRelease ms v'"
  by (auto simp: installedRelease_def list_ex_iff split: option.splits)

lemma NormalizeUpdatePolicy_Nil: "NormalizeUpdatePolicy p \<noteq> []"
  by (simp add: NormalizeUpdatePolicy_def)

text \<open>One pinned record pins the mod; otherwise its first record decides.\<close>

definition mod_policy :: "installed_mod list \<Rightarrow> string option" where
  "mod_policy ms = (case ms of
     [] \<Rightarrow> None
   | m # _ \<Rightarrow> Some (if \<exists>x \<in> set ms. NormalizeUpdatePolicy (im_policy x) = UpdatePolicyPinned
                   then UpdatePolicyPinned else NormalizeUpdatePolicy (im_policy m)))"

lemma mod_policy_snoc:
  "mod_policy (ms @ [x]) =
     (if mod_policy ms = None \<or> NormalizeUpdatePolicy (im_policy x) = UpdatePolicyPinned
      then Some (NormalizeUpdatePolicy (im_policy x)) else mod_policy ms)"
  by (auto simp: mod_policy_def split: list.splits)

lemma updatePolicies_eq: "map_of (updatePolicies installed) k = mod_policy (matchingMods installed k)"
proof (induction installed rule: rev_induct)
  case Nil
  then show ?case by (simp add: updatePolicies_def matchingMods_def mod_policy_def)
next
  case (snoc m ms)
  show ?case
  proof (cases "ParseModDBSource (im_source m)")
    case None
    with snoc show ?thesis by (simp add: updatePolicies_def matchingMods_def)
  next
    case (Some mv)
    obtain i v where mv: "mv = (i, v)" by fastforce
    show ?thesis
    proof (cases "normalizeUpdateID i = k")
      case True
      then have "matchingMods [m] k = [m]" using Some mv by (simp add: matchingMods_def)
      then show ?thesis
        using snoc Some mv True by (simp add: updatePolicies_def update_conv' mod_policy_snoc)
    next
      case False
      then have "matchingMods [m] k = []" using Some mv by (simp add: matchingMods_def)
      then show ?thesis
        using snoc Some mv False by (simp add: updatePolicies_def update_conv')
    qed
  qed
qed

lemma distinct_updatePolicies: "distinct (map fst (updatePolicies installed))"
proof (induction installed rule: rev_induct)
  case (snoc m ms)
  then show ?case
    by (auto simp: updatePolicies_def distinct_update split: option.splits)
qed (simp add: updatePolicies_def)

lemma policyOf_eq: "policyOf installed k = (case mod_policy (matchingMods installed k) of None \<Rightarrow> [] | Some p \<Rightarrow> p)"
  by (simp add: policyOf_def lookup_default_def updatePolicies_eq)

lemma policyOf_pinned:
  "policyOf installed k = UpdatePolicyPinned \<longleftrightarrow>
     (\<exists>m \<in> set (matchingMods installed k). NormalizeUpdatePolicy (im_policy m) = UpdatePolicyPinned)"
  by (auto simp: policyOf_eq mod_policy_def split: list.splits)

lemma pinned_keys: "(k, UpdatePolicyPinned) \<in> set (updatePolicies installed) \<longleftrightarrow> policyOf installed k = UpdatePolicyPinned"
  using distinct_updatePolicies [of installed]
  by (auto simp: policyOf_def lookup_default_def split: option.splits dest: map_of_SomeD eq_key_imp_eq_value)

lemma skippedByPolicy_card:
  "skippedByPolicy installed targets = int (card {k. policyOf installed k = UpdatePolicyPinned \<and>
     (\<exists>t \<in> set targets. normalizeUpdateID (tg_mod_id t) = k \<and>
        \<not> installedRelease (matchingMods installed k) (TrimSpace (tg_version_id t)))})"
proof -
  let ?P = "\<lambda>(k, policy). policy = UpdatePolicyPinned \<and>
     list_ex (\<lambda>t. normalizeUpdateID (tg_mod_id t) = k \<and>
        \<not> installedRelease (matchingMods installed k) (TrimSpace (tg_version_id t))) targets"
  have "distinct (map fst (filter ?P (updatePolicies installed)))"
    using distinct_updatePolicies [of installed] by (simp add: distinct_map_filter)
  then have "length (filter ?P (updatePolicies installed)) = card (fst ` set (filter ?P (updatePolicies installed)))"
    using distinct_card [of "map fst (filter ?P (updatePolicies installed))"] by simp
  moreover have "fst ` set (filter ?P (updatePolicies installed)) = {k. policyOf installed k = UpdatePolicyPinned \<and>
     (\<exists>t \<in> set targets. normalizeUpdateID (tg_mod_id t) = k \<and>
        \<not> installedRelease (matchingMods installed k) (TrimSpace (tg_version_id t)))}"
    by (force simp: pinned_keys [symmetric] list_ex_iff)
  ultimately show ?thesis by (simp add: skippedByPolicy_def)
qed

section \<open>Which changes are pending\<close>

definition update_allowed ::
  "env \<Rightarrow> installed_mod list \<Rightarrow> string \<Rightarrow> bool \<Rightarrow> mod_target \<Rightarrow> bool" where
  "update_allowed E installed gameVersion automatic t \<longleftrightarrow>
     (\<exists>n details version. ev_catalog_get E n (tg_mod_id t) = Inr details \<and> version \<in> set (md_versions details) \<and>
        mv_id version = tg_version_id t \<and> acceptTarget E installed gameVersion automatic (tg_mod_id t) version) \<and>
     matchingMods installed (tg_mod_id t) \<noteq> [] \<and>
     (\<forall>m \<in> set (matchingMods installed (tg_mod_id t)). NormalizeUpdatePolicy (im_policy m) \<noteq> UpdatePolicyPinned) \<and>
     \<not> installedRelease (matchingMods installed (tg_mod_id t)) (tg_version_id t)"

definition accepted_only ::
  "env \<Rightarrow> installed_mod list \<Rightarrow> string \<Rightarrow> bool \<Rightarrow> string \<Rightarrow> string \<Rightarrow> mod_target list \<Rightarrow> bool" where
  "accepted_only E installed gameVersion automatic modID versionID tgs \<longleftrightarrow> tgs = [] \<or>
     (\<exists>t. tgs = [t] \<and> tg_mod_id t = modID \<and> normalizeUpdateID (tg_version_id t) = normalizeUpdateID versionID \<and>
        update_allowed E installed gameVersion automatic t)"

lemma accepted_version:
  assumes "ev_catalog_get E n modID = Inr details" "findUpdateVersion (md_versions details) versionID = Some version"
    and "matchingMods installed modID \<noteq> []" "policyOf installed modID \<noteq> UpdatePolicyPinned"
    and "\<not> installedRelease (matchingMods installed modID) versionID"
    and "acceptTarget E installed gameVersion automatic modID version"
  shows "accepted_only E installed gameVersion automatic modID versionID
    [\<lparr>tg_mod_id = modID, tg_version_id = mv_id version\<rparr>]"
proof -
  have v: "version \<in> set (md_versions details)" "normalizeUpdateID (mv_id version) = normalizeUpdateID versionID"
    using assms(2) by (auto simp: findUpdateVersion_def dest!: find_SomeD)
  with assms(5) have "\<not> installedRelease (matchingMods installed modID) (mv_id version)"
    using installedRelease_normal [OF v(2)] by blast
  with assms(1,3,4,6) v show ?thesis
    by (auto simp: accepted_only_def update_allowed_def policyOf_pinned)
qed

lemma wp_checkTarget:
  "wp (checkTarget E installed gameVersion automatic modID versionID)
     (\<lambda>tgs _. accepted_only E installed gameVersion automatic modID versionID tgs) (\<lambda>_ _. True) w"
proof -
  have none: "accepted_only E installed gameVersion automatic modID versionID []"
    by (simp add: accepted_only_def)
  have answer: "wp (case findUpdateVersion (md_versions details) versionID of
          None \<Rightarrow> throwE (NewError ErrModVersionNotFound ''Mod version not found'')
        | Some version \<Rightarrow>
            returnE (if acceptTarget E installed gameVersion automatic modID version
                     then [\<lparr>tg_mod_id = modID, tg_version_id = mv_id version\<rparr>] else []))
      (\<lambda>tgs _. accepted_only E installed gameVersion automatic modID versionID tgs) (\<lambda>_ _. True) u"
    if "ev_catalog_get E n modID = Inr details" "matchingMods installed modID \<noteq> []"
      "policyOf installed modID \<noteq> UpdatePolicyPinned" "\<not> installedRelease (matchingMods installed modID) versionID"
    for n details and u :: mods_world
    using none accepted_version [OF that(1) _ that(2-4)]
    by (cases "findUpdateVersion (md_versions details) versionID") (auto simp: wp_throwE wp_returnE)
  have get: "wp (CatalogGet E modID) Q (\<lambda>_ _. True) u"
    if "\<And>n details u. ev_catalog_get E n modID = Inr details \<Longrightarrow> Q details u" for Q and u :: mods_world
    unfolding CatalogGet_def by (rule wp_callE) (use that in \<open>auto simp: wp_def split: sum.splits\<close>)
  show ?thesis
    unfolding checkTarget_def wp_if wp_bindE using none answer by (auto simp: wp_returnE intro!: get)
qed

text \<open>The loop: what was accepted is allowed, once, and its key was seen.\<close>

definition pending_ok ::
  "env \<Rightarrow> installed_mod list \<Rightarrow> string \<Rightarrow> bool \<Rightarrow> string list \<times> mod_target list \<Rightarrow> bool" where
  "pending_ok E installed gameVersion automatic acc \<longleftrightarrow>
     list_all (update_allowed E installed gameVersion automatic) (snd acc) \<and>
     distinct (map targetKey (snd acc)) \<and> set (map targetKey (snd acc)) \<subseteq> set (fst acc)"

lemma pending_ok_step:
  assumes "pending_ok E installed gameVersion automatic (seen, tgs)" "targetKey target \<notin> set seen"
    and "accepted_only E installed gameVersion automatic (normalizeUpdateID (tg_mod_id target))
          (TrimSpace (tg_version_id target)) new"
  shows "pending_ok E installed gameVersion automatic (targetKey target # seen, tgs @ new)"
proof -
  have "targetKey t = targetKey target" if "tg_mod_id t = normalizeUpdateID (tg_mod_id target)"
      "normalizeUpdateID (tg_version_id t) = normalizeUpdateID (TrimSpace (tg_version_id target))" for t
    using that by (simp add: targetKey_def)
  with assms show ?thesis by (auto simp: pending_ok_def accepted_only_def)
qed

lemma wp_pendingStep:
  assumes "pending_ok E installed gameVersion automatic acc"
  shows "wp (pendingStep E installed gameVersion automatic target acc)
    (\<lambda>acc' _. pending_ok E installed gameVersion automatic acc') (\<lambda>_ _. True) w"
proof -
  obtain seen tgs where acc: "acc = (seen, tgs)" by fastforce
  show ?thesis
    unfolding pendingStep_def wp_if wp_bindE acc fst_conv snd_conv
    using assms pending_ok_step [of E installed gameVersion automatic seen tgs target]
    by (auto simp: wp_returnE acc intro!: wp_mono [OF wp_checkTarget])
qed

lemma wp_pendingModChanges:
  "wp (pendingModChanges E installed targets gameVersion automatic)
     (\<lambda>(pending, skipped) _. list_all (update_allowed E installed gameVersion automatic) pending \<and>
        distinct (map targetKey pending) \<and> skipped = skippedByPolicy installed targets) (\<lambda>_ _. True) w"
proof -
  have "wp (foldE (pendingStep E installed gameVersion automatic) targets ([], []))
      (\<lambda>acc _. pending_ok E installed gameVersion automatic acc) (\<lambda>_ _. True) w"
    by (rule wp_foldE [where I = "\<lambda>_ acc _. pending_ok E installed gameVersion automatic acc"])
       (erule wp_pendingStep, simp add: pending_ok_def)
  then show ?thesis
    unfolding pendingModChanges_def wp_bindE
    by (rule wp_mono) (auto simp: wp_returnE pending_ok_def)
qed

text \<open>
  C7 (functional).  What the update of an instance schedules: each scheduled change names a
  listed release of a mod that the instance has from the catalog, that no record of the
  instance pins and that is not installed already; an automatic update is an upgrade of the
  highest installed release, and a mod limited to compatible releases only gets one for the
  instance's game version.  No release is scheduled twice, and the count of skipped
  requests is the number of pinned mods for which another release was requested.
\<close>

theorem pendingModChanges_allowed:
  "case pendingModChanges E installed targets gameVersion automatic w of
     (Inl _, _) \<Rightarrow> True
   | (Inr (pending, skipped), _) \<Rightarrow>
       list_all (update_allowed E installed gameVersion automatic) pending \<and> distinct (map targetKey pending) \<and>
       skipped = int (card {k. policyOf installed k = UpdatePolicyPinned \<and>
         (\<exists>t \<in> set targets. normalizeUpdateID (tg_mod_id t) = k \<and>
            \<not> installedRelease (matchingMods installed k) (TrimSpace (tg_version_id t)))})"
  using wp_pendingModChanges [of E installed targets gameVersion automatic w]
  by (auto simp: wp_def skippedByPolicy_card split: prod.splits sum.splits)

section \<open>One snapshot before the first change\<close>

lemma wp_orAnswer [wp_simps]:
  "wp (orAnswer result m f) Q X w \<longleftrightarrow> wp m (\<lambda>x. wp (f x) Q X) (\<lambda>e. Q (result, Some e)) w"
  by (simp add: orAnswer_def wp_simps)

definition quiet :: "mods_world \<Rightarrow> mods_world \<Rightarrow> bool" where
  "quiet w u \<longleftrightarrow> w_snapshots u = w_snapshots w \<and> w_events u = w_events w \<and> w_tasks u = w_tasks w"

lemma quiet_frame [simp]: "lock_closed quiet" "tick_free quiet" "ignores_fs quiet" "ignores_rows quiet"
proof -
  show tf: "tick_free quiet"
    by (auto simp: quiet_def tick_free_def preorder_rel_def reflp_def transp_def)
  have "ignores_locks quiet" by (simp add: ignores_locks_def quiet_def)
  with tf show "lock_closed quiet" by (rule lock_closed_ignores)
qed (simp_all add: quiet_def ignores_defs)

lemma quiet_fields [simp]: "quiet w (tick u) = quiet w u" "quiet w (u\<lparr>w_gate := g\<rparr>) = quiet w u"
  "quiet w (locked i u) = quiet w u" "quiet w (unlockInstance i u) = quiet w u" "quiet w w"
  by (simp_all add: quiet_def locked_def unlockInstance_def)

text \<open>
  How far the transaction has come: nothing but reading and reconciling has happened and no
  mod is counted as updated, or exactly one snapshot of the instance was taken.
\<close>

definition transaction :: "string \<Rightarrow> mods_world \<Rightarrow> bool \<Rightarrow> mod_update_result \<Rightarrow> mods_world \<Rightarrow> bool" where
  "transaction i w snapshotted result u \<longleftrightarrow>
     (if snapshotted
      then \<exists>s. w_snapshots u = w_snapshots w @ [s] \<and> sn_instance s = i \<and> sn_reason s = ReasonBeforeModUpdate
      else quiet w u \<and> ur_updated result = 0)"

lemma transaction_quiet: "transaction i w b r u \<Longrightarrow> quiet u u' \<Longrightarrow> transaction i w b r u'"
  by (auto simp: transaction_def quiet_def)

lemma transaction_keeping: "transaction i w True r u \<Longrightarrow> keeping w_snapshots u u' \<Longrightarrow> transaction i w True r' u'"
  by (auto simp: transaction_def keeping_def)

lemma transaction_fields [simp]: "transaction i w b r (tick u) = transaction i w b r u"
  "transaction i w b r (u\<lparr>w_gate := g\<rparr>) = transaction i w b r u"
  "transaction i w b r (unlockInstance j u) = transaction i w b r u"
  by (simp_all add: transaction_def)

lemma wp_quiet:
  assumes "evolves quiet m" "transaction i w b r u"
    and "\<And>x u'. transaction i w b r u' \<Longrightarrow> Q x u'" "\<And>e u'. transaction i w b r u' \<Longrightarrow> X e u'"
  shows "wp m Q X u"
  by (rule wp_mono [OF wp_evolves [OF assms(1)]]) (use assms(2-4) transaction_quiet in blast)+

lemma wp_snapshot_once:
  assumes "transaction i w b r u"
  shows "wp (if b then returnE () else createSnapshot E i ReasonBeforeModUpdate n)
    (\<lambda>_. transaction i w True r) (\<lambda>_. transaction i w b r) u"
proof (cases b)
  case False
  have "wp (createSnapshot E i ReasonBeforeModUpdate n) (\<lambda>_. transaction i w True r) (\<lambda>_. transaction i w b r) u"
    unfolding createSnapshot_def
    by (rule wp_callE) (use assms False in \<open>simp_all add: wp_Inr transaction_def quiet_def\<close>)
  with False show ?thesis by simp
qed (use assms in \<open>simp add: wp_simps\<close>)

lemma evolves_pendingModChanges [evolve_rules]:
  "tick_free R \<Longrightarrow> evolves R (pendingModChanges E installed targets gameVersion automatic)"
  unfolding pendingModChanges_def pendingStep_def checkTarget_def by (auto intro!: evolve_rules)

definition update_end :: "string \<Rightarrow> mods_world \<Rightarrow> update_answer \<Rightarrow> mods_world \<Rightarrow> bool" where
  "update_end i w answer u \<longleftrightarrow> (\<exists>b. transaction i w b (fst answer) u)"

lemma update_endI: "transaction i w b r u \<Longrightarrow> update_end i w (r, e) u"
  by (auto simp: update_end_def)

lemma wp_download_step:
  assumes tr: "transaction i w True r u"
    and rest: "\<And>r v. transaction i w True r v \<Longrightarrow> wp (k r) (update_end i w) (\<lambda>_ _. False) v"
  shows "wp (bindE (downloadCatalogMod E request ids) (\<lambda>(download, failure). case failure of
       Some e \<Rightarrow> returnE (r, Some e) | None \<Rightarrow> k (countInstalled download r))) (update_end i w) (\<lambda>_ _. False) u"
proof -
  have kept: "transaction i w True r' v" if "keeping w_snapshots u v" for r' v
    using tr that by (rule transaction_keeping)
  have "wp (downloadCatalogMod E request ids) (\<lambda>_ v. keeping w_snapshots u v) (\<lambda>_ _. False) u"
    using wp_evolves [OF evolves_download_ops(1) [of "keeping w_snapshots"]]
    by (auto simp: downloadCatalogMod_def reportedE_def wp_simps)
  then show ?thesis
    unfolding wp_bindE
    by (rule wp_mono) (use rest [OF kept] update_endI [OF kept] in \<open>auto simp: wp_returnE split: option.splits\<close>)
qed

lemma wp_snapshot_step:
  assumes tr: "transaction i w b r u"
    and rest: "\<And>r v. transaction i w True r v \<Longrightarrow> wp (k r) (update_end i w) (\<lambda>_ _. False) v"
  shows "wp (orAnswer r (if b then returnE () else createSnapshot E i ReasonBeforeModUpdate n) (\<lambda>_.
      bindE (downloadCatalogMod E request ids) (\<lambda>(download, failure). case failure of
       Some e \<Rightarrow> returnE (r, Some e) | None \<Rightarrow> k (countInstalled download r)))) (update_end i w) (\<lambda>_ _. False) u"
  unfolding wp_orAnswer
  by (rule wp_mono [OF wp_snapshot_once [OF tr]]) (use rest in \<open>blast intro: wp_download_step update_endI\<close>)+

lemma wp_applyPending:
  "transaction i w b r u \<Longrightarrow>
     wp (applyPending E inst i gv automatic allow n targets b r) (update_end i w) (\<lambda>_ _. False) u"
proof (induction targets arbitrary: b r u)
  case Nil
  then show ?case unfolding applyPending.simps wp_returnE by (rule update_endI)
next
  case (Cons t tgs)
  note IH = Cons.IH
  show ?case
    unfolding applyPending.simps wp_orAnswer [of _ "ListMods _ _"] wp_orAnswer [of _ "pendingModChanges _ _ _ _ _"]
  proof (rule wp_quiet [OF _ Cons.prems], goal_cases)
    case (2 installed u')
    show ?case
    proof (rule wp_quiet [OF _ 2], goal_cases)
      case (2 x v)
      obtain fresh m where x: "x = (fresh, m :: int)" by fastforce
      show ?case
      proof (cases fresh)
        case Nil
        then show ?thesis using IH [OF 2] by (simp add: x)
      next
        case (Cons t' more)
        show ?thesis unfolding x prod.case Cons list.case by (rule wp_snapshot_step [OF 2 IH])
      qed
    qed (auto intro!: evolve_rules simp: update_endI)
  qed (auto intro!: evolve_rules simp: update_endI)
qed

lemma wp_applyLocked:
  assumes "transaction i w False blankUpdateResult u"
  shows "wp (applyLocked E inst i gv targets allow automatic) (update_end i w) (\<lambda>_ _. False) u"
proof -
  have skipped: "transaction i w False (blankUpdateResult\<lparr>ur_skipped := n\<rparr>) v"
    if "transaction i w False blankUpdateResult v" for n v
    using that by (simp add: transaction_def)
  show ?thesis
    unfolding applyLocked_def wp_orAnswer [of _ "ListMods _ _"] wp_orAnswer [of _ "pendingModChanges _ _ _ _ _"]
  proof (rule wp_quiet [OF _ assms], goal_cases)
    case (2 installed u')
    show ?case
      by (rule wp_quiet [OF _ 2])
         (auto intro!: evolve_rules wp_applyPending skipped simp: update_endI split: prod.splits)
  qed (auto intro!: evolve_rules simp: update_endI)
qed

lemma wp_applyInstanceModTargets:
  "wp (applyInstanceModTargets E i targets allow automatic) (update_end i w) (\<lambda>_ _. False) w"
proof -
  let ?v = "w\<lparr>w_gate := (w_gate w)\<lparr>active := active (w_gate w) + 1\<rparr>\<rparr>"
  have start: "transaction i w False blankUpdateResult u" if "quiet w u" for u
    using that by (simp add: transaction_def blankUpdateResult_def)
  have keeps: "update_end i w a (u\<lparr>w_gate := g\<rparr>) = update_end i w a u"
    "update_end i w a (unlockInstance j u) = update_end i w a u" for a u g j
    by (simp_all add: update_end_def)
  have early: "update_end i w (blankUpdateResult, e) u" if "quiet w u" for e u
    using start [OF that] by (rule update_endI)
  have lock: "wp (withLock i (applyLocked E inst i gv targets allow automatic)) (update_end i w)
      (\<lambda>e. update_end i w (blankUpdateResult, Some e)) u" if "quiet w u" for inst gv u
    by (rule wp_withLock)
       (use that in \<open>auto intro!: wp_mono [OF wp_applyLocked] start early simp: keeps\<close>)
  have read: "wp m Q (\<lambda>e. update_end i w (blankUpdateResult, Some e)) u"
    if "evolves quiet m" "quiet w u" "\<And>x v. quiet w v \<Longrightarrow> Q x v" for m :: "'x act" and Q u
    using start [OF that(2)]
    by (rule wp_quiet [OF that(1)])
       (use that(3) early in \<open>auto simp: transaction_def\<close>)
  have body: "wp (bindE (GetInstance E i) (\<lambda>inst. bindE (GetVersion E (ir_game_version inst)) (\<lambda>version.
      withLock i (applyLocked E inst i (gameVersionName version) targets allow automatic))))
      (update_end i w) (\<lambda>e. update_end i w (blankUpdateResult, Some e)) ?v"
    unfolding wp_bindE
    by (rule read) (auto intro!: evolve_rules read lock)
  show ?thesis
    unfolding applyInstanceModTargets_def answered_def wp_orAnswer wp_returnE_fun
    by (rule wp_withGate) (use body early in \<open>auto simp: keeps wp_returnE\<close>)
qed


section \<open>The report respects the policies\<close>

lemma reportPolicies_snoc:
  "reportPolicies (ms @ [m]) k = (case ParseModDBSource (im_source m) of
     None \<Rightarrow> reportPolicies ms k
   | Some (i, _) \<Rightarrow> if normalizeUpdateID i = k then NormalizeUpdatePolicy (im_policy m) else reportPolicies ms k)"
  by (simp add: reportPolicies_def split: option.splits prod.splits)

text \<open>The policy that counts in the report: that of the last record of the mod.\<close>

definition report_policy :: "installed_mod list \<Rightarrow> string" where
  "report_policy ms = (if ms = [] then [] else NormalizeUpdatePolicy (im_policy (last ms)))"

lemma reportPolicies_last: "reportPolicies installed k = report_policy (matchingMods installed k)"
proof (induction installed rule: rev_induct)
  case (snoc m ms)
  then show ?case
    by (simp add: reportPolicies_snoc report_policy_def matchingMods_def [of "[m]"] split: option.splits prod.splits)
qed (simp add: reportPolicies_def report_policy_def matchingMods_def)

definition follows_policy :: "string \<Rightarrow> mod_update \<Rightarrow> mod_update \<Rightarrow> bool" where
  "follows_policy policy u u' \<longleftrightarrow> mu_mod_id u' = mu_mod_id u \<and> mu_installed u' = mu_installed u \<and>
     (policy = UpdatePolicyPinned \<longrightarrow> mu_status u' = StatusUpToDate \<and> mu_target_id u' = [] \<and> mu_target u' = []) \<and>
     (policy = UpdatePolicyCompatibleOnly \<and> mu_status u' = StatusUpdateAvailable \<longrightarrow> mu_compatible u') \<and>
     (policy \<noteq> UpdatePolicyPinned \<and> policy \<noteq> UpdatePolicyCompatibleOnly \<longrightarrow> u' = u)"

lemma wp_applyUpdatePolicy:
  "wp (applyUpdatePolicy E gv policies u)
     (\<lambda>u' _. follows_policy (policies (normalizeUpdateID (mu_mod_id u))) u u') (\<lambda>_ _. False) w"
proof -
  have get: "wp (CatalogGet E m) Q X v" if "\<And>x v. Q x v" "\<And>e v. X e v" for m Q X and v :: mods_world
    by (rule wp_any) (use that in auto)
  show ?thesis
    unfolding applyUpdatePolicy_def wp_if wp_returnE wp_catchE
    by (auto simp: follows_policy_def pinUpdate_def failUpdate_def compatibleUpdate_def retargetUpdate_def
        intro!: get split: option.splits)
qed

lemma wp_applyUpdatePolicies:
  "wp (applyUpdatePolicies E report installed gv)
     (\<lambda>report' _. list_all2 (\<lambda>u u'. follows_policy (reportPolicies installed (normalizeUpdateID (mu_mod_id u))) u u')
          (rep_mods report) (rep_mods report') \<and>
        rep_summary report' = summarizeModUpdates (rep_mods report')) (\<lambda>_ _. False) w"
proof -
  let ?R = "\<lambda>u u'. follows_policy (reportPolicies installed (normalizeUpdateID (mu_mod_id u))) u u'"
  have "wp (foldE (\<lambda>u acc. bindE (applyUpdatePolicy E gv (reportPolicies installed) u) (\<lambda>u'. returnE (acc @ [u'])))
      (rep_mods report) []) (\<lambda>us _. list_all2 ?R (rep_mods report) us) (\<lambda>_ _. False) w"
  proof (rule wp_foldE [where I = "\<lambda>ys us _. list_all2 ?R ys us"], goal_cases)
    case (1 ys u zs acc w)
    have "wp (applyUpdatePolicy E gv (reportPolicies installed) u) (\<lambda>u' _. ?R u u') (\<lambda>_ _. False) w"
      by (rule wp_applyUpdatePolicy)
    then show ?case
      unfolding wp_bindE by (rule wp_mono) (use 1(2) in \<open>auto simp: wp_returnE list_all2_appendI\<close>)
  qed simp
  then show ?thesis
    unfolding applyUpdatePolicies_def wp_bindE by (rule wp_mono) (simp_all add: wp_returnE)
qed

definition count_updates :: "(mod_update \<Rightarrow> bool) \<Rightarrow> mod_update list \<Rightarrow> int" where
  "count_updates P us = int (length (filter P us))"

text \<open>The summary counts the updates of the list, each in at most one class.\<close>

lemma summarize_counts:
  "us_total (summarizeModUpdates us) = int (length us)"
  "us_up_to_date (summarizeModUpdates us) = count_updates (\<lambda>u. mu_status u = StatusUpToDate) us"
  "us_available (summarizeModUpdates us) = count_updates (\<lambda>u. mu_status u = StatusUpdateAvailable) us"
  "us_incompatible (summarizeModUpdates us) =
     count_updates (\<lambda>u. mu_status u = StatusUpdateAvailable \<and> \<not> mu_compatible u) us"
proof -
  have total: "us_total (fold countUpdate us s) = us_total s" for s
    by (induction us arbitrary: s) (auto simp: countUpdate_def split: update_status.splits update_reason.splits)
  have up: "us_up_to_date (fold countUpdate us s) = us_up_to_date s + count_updates (\<lambda>u. mu_status u = StatusUpToDate) us"
    and av: "us_available (fold countUpdate us s) = us_available s + count_updates (\<lambda>u. mu_status u = StatusUpdateAvailable) us"
    and inc: "us_incompatible (fold countUpdate us s) = us_incompatible s +
       count_updates (\<lambda>u. mu_status u = StatusUpdateAvailable \<and> \<not> mu_compatible u) us" for s
    by (induction us arbitrary: s)
       (auto simp: countUpdate_def count_updates_def split: update_status.splits update_reason.splits)
  show "us_total (summarizeModUpdates us) = int (length us)"
    "us_up_to_date (summarizeModUpdates us) = count_updates (\<lambda>u. mu_status u = StatusUpToDate) us"
    "us_available (summarizeModUpdates us) = count_updates (\<lambda>u. mu_status u = StatusUpdateAvailable) us"
    "us_incompatible (summarizeModUpdates us) =
       count_updates (\<lambda>u. mu_status u = StatusUpdateAvailable \<and> \<not> mu_compatible u) us"
    by (simp_all add: summarizeModUpdates_def total up av inc blankSummary_def)
qed

text \<open>
  The update report respects the policies of the installed mods: a pinned
  mod has no update, a mod limited to compatible releases only a compatible one, the other
  entries are those of the analyzer; and the summary counts exactly the entries shown.
\<close>

theorem applyUpdatePolicies_respected:
  "\<exists>report' w'. applyUpdatePolicies E report installed gameVersion w = (Inr report', w') \<and>
     list_all2 (\<lambda>u u'. follows_policy (report_policy (matchingMods installed (normalizeUpdateID (mu_mod_id u)))) u u')
       (rep_mods report) (rep_mods report') \<and>
     us_total (rep_summary report') = int (length (rep_mods report)) \<and>
     us_up_to_date (rep_summary report') = count_updates (\<lambda>u. mu_status u = StatusUpToDate) (rep_mods report') \<and>
     us_available (rep_summary report') = count_updates (\<lambda>u. mu_status u = StatusUpdateAvailable) (rep_mods report') \<and>
     us_incompatible (rep_summary report') =
       count_updates (\<lambda>u. mu_status u = StatusUpdateAvailable \<and> \<not> mu_compatible u) (rep_mods report')"
  using wp_applyUpdatePolicies [of E report installed gameVersion w]
  by (auto simp: wp_def summarize_counts reportPolicies_last list_all2_lengthD split: prod.splits sum.splits)

end
