(* ===== verification/ModLinking.thy ===== *)
theory ModLinking
  imports ModUpdates
begin

text \<open>
  \<open>internal/mods/linking.go\<close>: local mod files are recognized in the catalog, gain a record in
  the library, and the records of the instances are bound to it.  A method that returns a
  value beside its error answers with both; \<open>link_error\<close> distinguishes the two sentinel
  errors its callers test with \<open>errors.Is\<close>.
\<close>

datatype link_error = NotMatched | AlreadyExists | LinkFailed go_error

type_synonym link_answer = "downloaded_mod \<times> local_mod_link \<times> link_error option"

definition newLink :: "string \<Rightarrow> local_mod_link" where
  "newLink path = \<lparr>lk_path = path, lk_name = [], lk_version = [], lk_file_name = Base path, lk_mod_id = [],
     lk_version_id = [], lk_slug = [], lk_latest = [], lk_update_available = False, lk_reason = []\<rparr>"

definition failedLink :: "local_mod_link \<Rightarrow> string \<Rightarrow> link_error \<Rightarrow> link_answer" where
  "failedLink link reason e = (blankDownloadedMod, link\<lparr>lk_reason := reason\<rparr>, Some e)"

definition linkOf :: "downloaded_mod \<Rightarrow> local_mod_link \<Rightarrow> local_mod_link" where
  "linkOf d link = link\<lparr>lk_mod_id := dm_mod_id d, lk_version_id := dm_version_id d, lk_slug := dm_slug d,
     lk_latest := dm_latest d, lk_update_available := dm_update_available d\<rparr>"

section \<open>One local file\<close>

text \<open>\<open>copyModFile\<close> of \<open>archive.go\<close>: the incomplete copy is removed when copying or closing fails.\<close>

definition copyModFile :: "env \<Rightarrow> string \<Rightarrow> string \<Rightarrow> unit act" where
  "copyModFile E sourcePath destinationPath =
     bindE (mkdirE E (Dir destinationPath)) (\<lambda>_.
     bindE (readFileE E sourcePath) (\<lambda>source.
     bindE (createE E destinationPath) (\<lambda>_.
     cleanupE E destinationPath (bindE (copyIntoE E destinationPath source) (\<lambda>_. closeE E)))))"

definition cacheModDestination :: "env \<Rightarrow> mod_details \<Rightarrow> mod_version \<Rightarrow> string \<Rightarrow> string result" where
  "cacheModDestination E details version localBase =
     (case List.map_filter (\<lambda>candidate. if TrimSpace candidate = [] then None
             else (case FilePath (storeRoot E) (ms_id details) (mv_id version) candidate of
                     Inl _ \<Rightarrow> None | Inr path \<Rightarrow> Some path)) [mv_file_name version, localBase] of
        path # _ \<Rightarrow> Inr path
      | [] \<Rightarrow> Inl (NewError ErrInvalidModFile ''Unsupported mod file type''))"

definition localRecord ::
  "env \<Rightarrow> mod_details \<Rightarrow> mod_version \<Rightarrow> string \<Rightarrow> int \<Rightarrow> time \<Rightarrow> downloaded_mod" where
  "localRecord E details version destination fileSize now =
     (releaseRecord details version destination fileSize now)
       \<lparr>dm_latest := (case newestStrictUpgrade E details (mv_version version) of
                       Some target \<Rightarrow> mv_version target | None \<Rightarrow> ms_latest details),
        dm_update_available := (newestStrictUpgrade E details (mv_version version) \<noteq> None)\<rparr>"

definition saveLocalRecord ::
  "env \<Rightarrow> mod_details \<Rightarrow> mod_version \<Rightarrow> local_mod_link \<Rightarrow> string \<Rightarrow> link_answer act" where
  "saveLocalRecord E details version link destination =
     catchE (statE E destination) (\<lambda>r. case r of
       Inl e \<Rightarrow> returnE (failedLink link ''Could not read the mod file'' (LinkFailed e))
     | Inr info \<Rightarrow>
         bindE (nowE E) (\<lambda>now.
         catchE (storeSave E (localRecord E details version destination (node_size info) now)) (\<lambda>r. case r of
           Inl e \<Rightarrow> returnE (failedLink link ''Could not save the mod metadata'' (LinkFailed e))
         | Inr _ \<Rightarrow>
             bindE (EmitDownloadsChanged [] (ms_id details) []) (\<lambda>_.
             bindE (reportEvent E EventModDownloaded) (\<lambda>_.
             returnE (localRecord E details version destination (node_size info) now,
                      linkOf (localRecord E details version destination (node_size info) now) link, None))))))"

definition intoLibrary ::
  "env \<Rightarrow> mod_details \<Rightarrow> mod_version \<Rightarrow> local_mod_link \<Rightarrow> string \<Rightarrow> link_answer act" where
  "intoLibrary E details version link sourcePath =
     (case cacheModDestination E details version (lk_file_name link) of
        Inl e \<Rightarrow> returnE (failedLink link (errorText e) (LinkFailed e))
      | Inr path \<Rightarrow>
          bindE (isFileE E path) (\<lambda>there.
          catchE (if there then returnE () else copyModFile E sourcePath path) (\<lambda>r. case r of
            Inl e \<Rightarrow> returnE (failedLink link ''Could not copy the mod into the library'' (LinkFailed e))
          | Inr _ \<Rightarrow> saveLocalRecord E details version link path)))"

definition linkMatched ::
  "env \<Rightarrow> string \<Rightarrow> bool \<Rightarrow> local_mod_link \<Rightarrow> mod_match \<Rightarrow> link_answer act" where
  "linkMatched E sourcePath copyIntoCache link match =
     (let details = fst match; version = snd match;
          link' = link\<lparr>lk_name := ms_name details, lk_version := mv_version version\<rparr>
      in bindE (cachedRelease E (ms_id details) (mv_id version)) (\<lambda>existing.
         case existing of
           Some d \<Rightarrow> returnE (d, linkOf d link', Some AlreadyExists)
         | None \<Rightarrow>
             (if copyIntoCache then intoLibrary E details version link' sourcePath
              else saveLocalRecord E details version link' sourcePath)))"

definition namedLink :: "string \<Rightarrow> string \<Rightarrow> archive_info \<Rightarrow> local_mod_link" where
  "namedLink sourcePath discovered info =
     (newLink sourcePath)\<lparr>
       lk_name := (if discovered \<noteq> [] then discovered
                   else if TrimSpace (ai_mod_id info) \<noteq> [] then TrimSpace (ai_mod_id info)
                   else TrimSuffix (Base sourcePath) (Ext sourcePath)),
       lk_version := TrimSpace (ai_version info)\<rparr>"

definition linkLocalModFile :: "env \<Rightarrow> string \<Rightarrow> bool \<Rightarrow> string \<Rightarrow> link_answer act" where
  "linkLocalModFile E sourcePath copyIntoCache discovered =
     (if ToLower (Ext sourcePath) \<notin> {''.zip'', ''.cs'', ''.dll''}
      then returnE (failedLink (newLink sourcePath) ''Unsupported mod file type''
             (LinkFailed (NewError ErrInvalidModFile ''Unsupported mod file type'')))
      else catchE (ReadModArchiveInfo E sourcePath) (\<lambda>r. case r of
        Inl e \<Rightarrow> returnE (blankDownloadedMod, newLink sourcePath, Some (LinkFailed e))
      | Inr info \<Rightarrow>
          bindE (matchLocalMod E (ai_mod_id info) (ai_version info) (Base sourcePath)) (\<lambda>m.
          case m of
            Inl reason \<Rightarrow> returnE (failedLink (namedLink sourcePath discovered info) reason NotMatched)
          | Inr match \<Rightarrow> linkMatched E sourcePath copyIntoCache (namedLink sourcePath discovered info) match)))"

section \<open>The mods of an instance\<close>

datatype link_save = Stale | Unsaved string | Saved installed_mod

definition bindable :: "string \<Rightarrow> installed_mod \<Rightarrow> installed_mod \<Rightarrow> bool" where
  "bindable instanceID m current \<longleftrightarrow> im_id current = im_id m \<and> im_instance current = im_instance m \<and>
     im_instance current = instanceID \<and> im_file_path current = im_file_path m \<and>
     \<not> im_managed current \<and> IsLocalModSource (im_source current)"

definition boundTo :: "downloaded_mod \<Rightarrow> time \<Rightarrow> installed_mod \<Rightarrow> installed_mod" where
  "boundTo d now m = m\<lparr>im_source := ModDBSource (dm_mod_id d) (dm_version_id d), im_managed := True,
     im_version := dm_version d, im_updated_at := now\<rparr>"

definition bindCurrent :: "env \<Rightarrow> string \<Rightarrow> installed_mod \<Rightarrow> downloaded_mod \<Rightarrow> link_save act" where
  "bindCurrent E instanceID m d =
     catchE (GetMod E (im_id m)) (\<lambda>r. case r of
       Inl _ \<Rightarrow> returnE (Unsaved ''Could not verify the current mod metadata'')
     | Inr current \<Rightarrow>
         (if \<not> bindable instanceID m current then returnE Stale
          else bindE (nowE E) (\<lambda>now.
            catchE (SaveMod E (boundTo d now current)) (\<lambda>r. returnE (case r of
              Inl _ \<Rightarrow> Unsaved ''Could not save the linked mod metadata''
            | Inr _ \<Rightarrow> Saved (boundTo d now current))))))"

definition blankLinkResult :: link_local_mods_result where
  "blankLinkResult = \<lparr>ll_linked = [], ll_not_matched = [], ll_failed = []\<rparr>"

definition finishLink ::
  "local_mod_link \<Rightarrow> link_local_mods_result \<Rightarrow> link_save \<Rightarrow> link_local_mods_result act" where
  "finishLink link result saved =
     (case saved of
        Stale \<Rightarrow> returnE result
      | Unsaved reason \<Rightarrow> returnE (result\<lparr>ll_failed := ll_failed result @ [link\<lparr>lk_reason := reason\<rparr>]\<rparr>)
      | Saved current \<Rightarrow>
          bindE (publishE (ModEvent ''mod:linked'' current)) (\<lambda>_.
          returnE (result\<lparr>ll_linked := ll_linked result @ [link]\<rparr>)))"

primrec linkMods ::
  "env \<Rightarrow> string \<Rightarrow> installed_mod list \<Rightarrow> link_local_mods_result \<Rightarrow>
     (link_local_mods_result \<times> go_error option) act" where
  "linkMods E instanceID [] result = returnE (result, None)"
| "linkMods E instanceID (m # ms) result =
     (if im_managed m \<or> \<not> IsLocalModSource (im_source m) then linkMods E instanceID ms result
      else bindE (linkLocalModFile E (im_file_path m) False (im_name m)) (\<lambda>(d, link, e).
        case e of
          Some NotMatched \<Rightarrow>
            linkMods E instanceID ms (result\<lparr>ll_not_matched := ll_not_matched result @ [link]\<rparr>)
        | Some (LinkFailed _) \<Rightarrow>
            linkMods E instanceID ms (result\<lparr>ll_failed := ll_failed result @ [link]\<rparr>)
        | _ \<Rightarrow>
            catchE (withLock instanceID (bindCurrent E instanceID m d)) (\<lambda>r. case r of
              Inl err \<Rightarrow> returnE (result, Some err)
            | Inr saved \<Rightarrow>
                bindE (finishLink link result saved) (\<lambda>result'. linkMods E instanceID ms result'))))"

definition LinkLocalMods :: "env \<Rightarrow> string \<Rightarrow> (link_local_mods_result \<times> go_error option) act" where
  "LinkLocalMods E instanceID =
     catchE (withGate
       (bindE (GetInstance E instanceID) (\<lambda>inst.
        bindE (ListMods E instanceID) (\<lambda>mods. linkMods E instanceID mods blankLinkResult))))
     (\<lambda>r. returnE (case r of Inl e \<Rightarrow> (blankLinkResult, Some e) | Inr answer \<Rightarrow> answer))"

section \<open>Files added to the library\<close>

definition bindMatching :: "env \<Rightarrow> downloaded_mod \<Rightarrow> installed_mod \<Rightarrow> unit act" where
  "bindMatching E target m =
     (if im_managed m \<or> \<not> IsLocalModSource (im_source m) \<or> im_file_path m = [] then returnE ()
      else bindE (matchLocalModForFile E (im_file_path m)) (\<lambda>found.
        case found of
          None \<Rightarrow> returnE ()
        | Some match \<Rightarrow>
            (if ms_id (fst match) \<noteq> dm_mod_id target \<or> mv_id (snd match) \<noteq> dm_version_id target then returnE ()
             else bindE (nowE E) (\<lambda>now. saveLinked E (linkedTo match now m)))))"

definition bindMatchingInstanceMods :: "env \<Rightarrow> downloaded_mod \<Rightarrow> unit act" where
  "bindMatchingInstanceMods E target =
     catchE (ListInstances E) (\<lambda>r. case r of
       Inl _ \<Rightarrow> returnE ()
     | Inr instances \<Rightarrow>
         forE instances (\<lambda>inst. ignoreE (withLock (ir_id inst)
           (catchE (ListModRows E (ir_id inst)) (\<lambda>r. case r of
              Inl _ \<Rightarrow> returnE ()
            | Inr mods \<Rightarrow> forE mods (bindMatching E target))))))"

definition blankUploadResult :: upload_mods_result where
  "blankUploadResult = \<lparr>up_linked = [], up_not_matched = [], up_skipped = [], up_failed = []\<rparr>"

definition uploadStep :: "env \<Rightarrow> string \<Rightarrow> upload_mods_result \<Rightarrow> upload_mods_result act" where
  "uploadStep E sourcePath result =
     bindE (linkLocalModFile E sourcePath True []) (\<lambda>(d, link, e).
     case e of
       None \<Rightarrow>
         bindE (bindMatchingInstanceMods E d) (\<lambda>_.
         returnE (result\<lparr>up_linked := up_linked result @ [link]\<rparr>))
     | Some NotMatched \<Rightarrow> returnE (result\<lparr>up_not_matched := up_not_matched result @ [link]\<rparr>)
     | Some AlreadyExists \<Rightarrow> returnE (result\<lparr>up_skipped := up_skipped result @ [Base sourcePath]\<rparr>)
     | Some (LinkFailed _) \<Rightarrow> returnE (result\<lparr>up_failed := up_failed result @ [link]\<rparr>))"

definition uploadError :: "upload_mods_result \<Rightarrow> go_error option" where
  "uploadError result =
     (if up_linked result = [] \<and> up_failed result \<noteq> []
      then Some (NewError ErrInvalidModFile ''No mods were added to the library'') else None)"

definition UploadMods :: "env \<Rightarrow> string list \<Rightarrow> (upload_mods_result \<times> go_error option) act" where
  "UploadMods E sourcePaths =
     catchE (withGate
       (if sourcePaths = [] then throwE (NewError ErrValidation ''Select at least one mod file'')
        else bindE (foldE (uploadStep E) sourcePaths blankUploadResult) (\<lambda>result.
             returnE (result, uploadError result))))
     (\<lambda>r. returnE (case r of Inl e \<Rightarrow> (blankUploadResult, Some e) | Inr answer \<Rightarrow> answer))"

section \<open>Frames\<close>

lemma evolves_copyModFile [evolve_rules]: "tick_free R \<Longrightarrow> ignores_fs R \<Longrightarrow> evolves R (copyModFile E a b)"
  unfolding copyModFile_def by (auto intro!: evolve_rules)

lemma evolves_saveLocalRecord [evolve_rules]:
  "tick_free R \<Longrightarrow> ignores_fs R \<Longrightarrow> ignores_output R \<Longrightarrow> evolves R (saveLocalRecord E d v l p)"
  unfolding saveLocalRecord_def by (auto intro!: evolve_rules)

lemma evolves_linkMatched [evolve_rules]:
  "tick_free R \<Longrightarrow> ignores_fs R \<Longrightarrow> ignores_output R \<Longrightarrow> evolves R (linkMatched E p b l m)"
  unfolding linkMatched_def intoLibrary_def by (auto intro!: evolve_rules split: sum.split)

lemma evolves_linkLocalModFile [evolve_rules]:
  "tick_free R \<Longrightarrow> ignores_fs R \<Longrightarrow> ignores_output R \<Longrightarrow> evolves R (linkLocalModFile E p b n)"
  unfolding linkLocalModFile_def by (auto intro!: evolve_rules split: sum.split)

lemma evolves_finishLink [evolve_rules]: "tick_free R \<Longrightarrow> ignores_output R \<Longrightarrow> evolves R (finishLink l r s)"
  unfolding finishLink_def by (cases s) (auto intro!: evolve_rules)

lemma evolves_case_link_error [evolve_rules]:
  "evolves R a \<Longrightarrow> evolves R b \<Longrightarrow> (\<And>e. evolves R (c e)) \<Longrightarrow>
     evolves R (case e of NotMatched \<Rightarrow> a | AlreadyExists \<Rightarrow> b | LinkFailed e \<Rightarrow> c e)"
  by (cases e) auto

lemma evolves_linkMods:
  assumes "lock_closed R" "ignores_fs R" "ignores_output R" "\<And>m d. evolves R (bindCurrent E i m d)"
  shows "evolves R (linkMods E i ms result)"
  using assms(4)
  by (induction ms arbitrary: result) (auto intro!: evolve_rules simp: assms(1-3))

lemma evolves_bindCurrent [evolve_rules]:
  "tick_free R \<Longrightarrow> ignores_rows R \<Longrightarrow> evolves R (bindCurrent E i m d)"
  unfolding bindCurrent_def by (auto intro!: evolve_rules)

lemma evolves_linking_ops [evolve_rules]:
  assumes "lock_closed R" "ignores_fs R" "ignores_rows R" "ignores_output R"
  shows "evolves R (LinkLocalMods E i)" "evolves R (UploadMods E ps)"
  unfolding LinkLocalMods_def UploadMods_def uploadStep_def bindMatchingInstanceMods_def bindMatching_def
  using assms by (auto intro!: evolve_rules evolves_linkMods)

section \<open>Linking binds only local records\<close>

text \<open>
  A record becomes bound: it was local and is now a managed catalog mod; who it is and what
  the user set stays.
\<close>

definition linked_row :: "installed_mod \<Rightarrow> installed_mod \<Rightarrow> bool" where
  "linked_row r r' \<longleftrightarrow> r' = r \<or>
     (\<not> im_managed r \<and> IsLocalModSource (im_source r) \<and> im_managed r' \<and>
      (\<exists>m v. im_source r' = ModDBSource m v) \<and> im_id r' = im_id r \<and> im_instance r' = im_instance r \<and>
      im_name r' = im_name r \<and> im_file_name r' = im_file_name r \<and> im_enabled r' = im_enabled r \<and>
      im_size r' = im_size r \<and> im_installed_at r' = im_installed_at r \<and>
      im_policy r' = NormalizeUpdatePolicy (im_policy r))"

definition linked_rows :: "installed_mod list \<Rightarrow> installed_mod list \<Rightarrow> bool" where
  "linked_rows rows rows' \<longleftrightarrow> list_all2 linked_row rows rows'"

definition links_only :: "mods_world \<Rightarrow> mods_world \<Rightarrow> bool" where
  "links_only w w' \<longleftrightarrow> linked_rows (w_rows w) (w_rows w')"

lemma linked_row_refl [simp]: "linked_row r r"
  by (simp add: linked_row_def)

lemma linked_row_trans: "linked_row a b \<Longrightarrow> linked_row b c \<Longrightarrow> linked_row a c"
  by (auto simp: linked_row_def)

lemma linked_rows_refl [simp]: "linked_rows rows rows"
  by (simp add: linked_rows_def list_all2_refl)

lemma links_only_frame [simp]:
  "tick_free links_only" "ignores_fs links_only" "ignores_output links_only" "lock_closed links_only"
proof -
  have "transp links_only"
    unfolding transp_def links_only_def linked_rows_def using list_all2_trans [of linked_row linked_row linked_row]
      linked_row_trans by blast
  then show tf: "tick_free links_only"
    by (simp add: tick_free_def preorder_rel_def reflp_def links_only_def)
  have "ignores_locks links_only" by (simp add: ignores_locks_def links_only_def)
  with tf show "lock_closed links_only" by (rule lock_closed_ignores)
qed (simp_all add: ignores_defs links_only_def)

lemma linked_rows_upsert:
  assumes "find (\<lambda>r. im_id r = i) rows = Some r" "im_id new = i"
    and "linked_row r (new\<lparr>im_instance := im_instance r, im_installed_at := im_installed_at r\<rparr>)"
  shows "linked_rows rows (upsertMod new rows)"
  using assms
  by (induction rows) (auto simp: linked_rows_def list_all2_refl split: if_splits)

lemma IsLocal_not_catalog: "IsLocalModSource (ModDBSource m v) = False"
  by (simp add: IsLocalModSource_def ModDBSource_def)

lemma bindCurrent_links: "evolves links_only (bindCurrent E i m d)"
  unfolding evolves_def
proof
  fix w
  have save: "wp (SaveMod E (boundTo d now (scanMod b r))) (\<lambda>_ u. links_only w u) (\<lambda>_ u. links_only w u) u"
    if "find (\<lambda>r. im_id r = im_id m) (w_rows w) = Some r" "bindable i m (scanMod b r)" "w_rows u = w_rows w"
    for r b now u
  proof -
    have r: "im_id r = im_id m" "r \<in> set (w_rows w)" using find_SomeD [OF that(1)] by auto
    have "linked_rows (w_rows w) (upsertMod ((boundTo d now (scanMod b r))
        \<lparr>im_policy := NormalizeUpdatePolicy (im_policy (boundTo d now (scanMod b r))),
         im_file_path := storedPath (ev_data_root E) (im_file_path (boundTo d now (scanMod b r)))\<rparr>) (w_rows w))"
      by (rule linked_rows_upsert [OF that(1)])
         (use that(2) r in \<open>auto simp: boundTo_def scanMod_def linked_row_def bindable_def\<close>)
    then show ?thesis
      unfolding SaveMod_def
      by (intro wp_callE) (use that(3) r in \<open>auto simp: wp_def links_only_def Let_def boundTo_def scanMod_def list_ex_iff\<close>)
  qed
  have "wp (bindCurrent E i m d) (\<lambda>_ u. links_only w u) (\<lambda>_ u. links_only w u) w"
    unfolding bindCurrent_def GetMod_def wp_catchE
    by (rule wp_readE)
       (auto simp: wp_simps links_only_def nowE_def split: option.splits
         intro!: wp_mono [OF save, unfolded links_only_def])
  then show "links_only w (snd (bindCurrent E i m d w))"
    by (auto simp: wp_def split: prod.splits sum.splits)
qed

text \<open>The state after the listing, if the linking came that far.\<close>

definition listed_from :: "env \<Rightarrow> string \<Rightarrow> mods_world \<Rightarrow> mods_world \<Rightarrow> bool" where
  "listed_from E i w v \<longleftrightarrow> w_rows v = w_rows w \<or> (\<exists>u r. w_rows u = w_rows w \<and> ListMods E i u = (r, v))"

definition linked_after :: "env \<Rightarrow> string \<Rightarrow> mods_world \<Rightarrow> mods_world \<Rightarrow> bool" where
  "linked_after E i w u \<longleftrightarrow> (\<exists>v. listed_from E i w v \<and> linked_rows (w_rows v) (w_rows u))"

lemma linked_after_rows: "w_rows u = w_rows w \<Longrightarrow> linked_after E i w u"
  by (auto simp: linked_after_def listed_from_def intro: exI [of _ w])

lemma wp_LinkLocalMods: "wp (LinkLocalMods E i) (\<lambda>_. linked_after E i w) (\<lambda>_ _. False) w"
proof -
  have rest: "wp (linkMods E i mods blankLinkResult) (\<lambda>_. linked_after E i w) (\<lambda>_. linked_after E i w) v"
    if "w_rows u = w_rows w" "ListMods E i u = (r, v)" for u r v mods
  proof -
    have links: "evolves links_only (linkMods E i mods blankLinkResult)"
      by (rule evolves_linkMods) (auto intro: bindCurrent_links)
    have "listed_from E i w v" using that by (auto simp: listed_from_def)
    then show ?thesis
      by (intro wp_mono [OF wp_evolves [OF links]]) (auto simp: links_only_def linked_after_def)
  qed
  have listing: "wp (ListMods E i) (\<lambda>mods. wp (linkMods E i mods blankLinkResult)
      (\<lambda>_. linked_after E i w) (\<lambda>_. linked_after E i w)) (\<lambda>_. linked_after E i w) u" if "w_rows u = w_rows w" for u
  proof (rule wpI)
    fix e v assume "ListMods E i u = (Inl e, v)"
    then have "listed_from E i w v" using that by (auto simp: listed_from_def)
    then show "linked_after E i w v" by (auto simp: linked_after_def)
  qed (use rest that in blast)
  have body: "wp (bindE (GetInstance E i) (\<lambda>inst. bindE (ListMods E i) (\<lambda>mods. linkMods E i mods blankLinkResult)))
      (\<lambda>_. linked_after E i w) (\<lambda>_. linked_after E i w) u" if "w_rows u = w_rows w" for u
    unfolding wp_bindE GetInstance_def
    by (rule wp_readE) (use that listing linked_after_rows in auto)
  have gate: "linked_after E i w (u\<lparr>w_gate := g\<rparr>) = linked_after E i w u" for u g
    by (simp add: linked_after_def)
  show ?thesis
    unfolding LinkLocalMods_def wp_catchE wp_returnE_fun
    by (rule wp_withGate) (use body linked_after_rows in \<open>simp_all add: gate\<close>)
qed


end
