(* ===== verification/LaunchWorld.thy ===== *)
theory LaunchWorld
  imports Registry Operations GameClient
begin

text \<open>
  The state of the features around a running game and their ports: the launch coordinator, the
  accounts and the client settings files.  The tables \<open>instances\<close>, \<open>game_versions\<close>,
  \<open>accounts\<close> and \<open>play_sessions\<close> (\<open>platform/sqlite\<close>), the key store and its journal of pending
  commits (\<open>platform/credentials\<close>), the client settings files, the launch logs, the game
  processes, and what is emitted (events, telemetry, presence, calls of the recovery feature).

  \<open>lenv\<close> is what the launcher does not compute itself: the authentication server, the detected
  .NET runtime, environment variables, the executable search, the Optimum installation, the
  identifiers and the process numbers, and which calls fail (\<open>le_fault\<close>, by kind and by number);
  \<open>le_late\<close> says whether a failing write of a file fails after the file was replaced.
\<close>

type_synonym process_handle = int

record game_instance =
  gi_id :: string
  gi_name :: string
  gi_description :: string
  gi_version :: string
  gi_client :: string
  gi_account :: "string option"
  gi_directory :: string
  gi_cover :: "string option"
  gi_status :: string
  gi_arguments :: "string list"
  gi_environment :: "(string \<times> string) list"
  gi_pinned :: bool
  gi_last_played :: "time option"
  gi_created :: time
  gi_updated :: time

record game_version =
  gv_id :: string
  gv_name :: string
  gv_directory :: string
  gv_executable :: string
  gv_status :: string
  gv_verified :: "time option"

record account =
  ac_id :: string
  ac_username :: string
  ac_display :: string
  ac_email :: string
  ac_uid :: string
  ac_session_key :: string
  ac_session_signature :: string
  ac_status :: string
  ac_default :: bool
  ac_created :: time
  ac_updated :: time
  ac_validated :: "time option"

record credential =
  cr_key :: string
  cr_signature :: string

text \<open>A value of the key store is an encoded credential, or \<open>None\<close> when it does not decode.\<close>

record pending_login =
  pl_email :: string
  pl_password :: string
  pl_token :: string
  pl_expected :: string
  pl_expires :: time

record play_session =
  ps_id :: string
  ps_instance :: string
  ps_account :: "string option"
  ps_version :: string
  ps_pid :: "int option"
  ps_started :: time
  ps_ended :: "time option"
  ps_duration :: int
  ps_exit :: "int option"
  ps_crashed :: bool
  ps_recovered :: bool

text \<open>A JSON object, one level deep: a member is a string or any other raw value.\<close>

datatype json_value = JString string | JRaw string

type_synonym json_object = "(string \<times> json_value) list"

datatype json_section = SectionNull | SectionObject json_object | SectionOther string

type_synonym settings_doc = "(string \<times> json_section) list"

datatype settings_node = Irregular | NotAnObject string | Settings settings_doc

text \<open>An executable file as \<open>debug/elf\<close> reads it, with the data of its \<open>PT_INTERP\<close> segment.\<close>

datatype binary = BinaryDir | NotElf | ElfUnreadable string | ElfInterpreter string

record launch_log =
  lg_open :: bool
  lg_text :: string

record game_process =
  gp_executable :: string
  gp_arguments :: "string list"
  gp_directory :: string
  gp_environment :: "(string \<times> string) list"
  gp_alive :: bool
  gp_interrupted :: bool

record launch_settings =
  st_arguments :: "string list"
  st_optimum :: string

record optimum_target =
  ot_executable :: string
  ot_directory :: string
  ot_exclusive :: bool

datatype launch_event =
    GameStartedEvent play_session
  | GameExitedEvent string string int bool int "string option"

datatype presence_call = PresenceStarted | PresenceStopped

datatype recovery_call = LastKnownGood string | FailedLaunch string

datatype launch_report = LaunchEvent string | LaunchError string string string | AuthUnavailable

record launch_world =
  l_gate :: gate
  l_registry :: "process_handle registry"
  l_instances :: "game_instance list"
  l_versions :: "game_version list"
  l_accounts :: "account list"
  l_keyring :: "(string \<times> credential option) list"
  l_pending :: "string list"
  l_flows :: "(string \<times> pending_login) list"
  l_files :: "(string \<times> settings_node) list"
  l_binaries :: "(string \<times> binary) list"
  l_directories :: "string list"
  l_logs :: "(string \<times> launch_log) list"
  l_processes :: "(process_handle \<times> game_process) list"
  l_sessions :: "play_session list"
  l_operations :: manager
  l_settings :: launch_settings
  l_events :: "launch_event list"
  l_presence :: "presence_call list"
  l_recovery :: "recovery_call list"
  l_reports :: "launch_report list"
  l_now :: time
  l_ticks :: nat

datatype call =
    FileCall | LogCall | DatabaseCall | ProcessCall | KeyringCall | LayoutCall | BinaryCall

record login_answer =
  la_key :: string
  la_signature :: string
  la_uid :: string
  la_name :: string

record lenv =
  le_fault :: "call \<Rightarrow> nat \<Rightarrow> go_error option"
  le_late :: "nat \<Rightarrow> bool"
  le_new_id :: "nat \<Rightarrow> string"
  le_pid :: "nat \<Rightarrow> process_handle"
  le_size :: "settings_node \<Rightarrow> int"
  le_login :: "nat \<Rightarrow> string \<Rightarrow> string \<Rightarrow> string \<Rightarrow> string \<Rightarrow> login_answer result \<times> string option"
  le_validate :: "nat \<Rightarrow> string \<Rightarrow> string \<Rightarrow> bool result"
  le_dotnet :: "string option"
  le_environ :: "string list"
  le_patchelf :: bool
  le_find_executable :: "string \<Rightarrow> string result"
  le_optimum :: "nat \<Rightarrow> string \<Rightarrow> string \<Rightarrow> optimum_target result"
  le_has_optitime :: "string \<Rightarrow> bool result"
  le_telemetry :: bool

type_synonym 'a launch = "(launch_world, go_error, 'a) eff"

section \<open>External calls\<close>

definition callL :: "lenv \<Rightarrow> call \<Rightarrow> (launch_world \<Rightarrow> 'a result \<times> launch_world) \<Rightarrow> 'a launch" where
  "callL E k f = (\<lambda>w.
     case le_fault E k (l_ticks w) of
       Some e \<Rightarrow> (Inl e, w\<lparr>l_ticks := Suc (l_ticks w)\<rparr>)
     | None \<Rightarrow> f (w\<lparr>l_ticks := Suc (l_ticks w)\<rparr>))"

definition readL :: "lenv \<Rightarrow> call \<Rightarrow> (launch_world \<Rightarrow> 'a result) \<Rightarrow> 'a launch" where
  "readL E k f = callL E k (\<lambda>w. (f w, w))"

definition tickL :: "(nat \<Rightarrow> 'a) \<Rightarrow> 'a launch" where
  "tickL f = (\<lambda>w. (Inr (f (l_ticks w)), w\<lparr>l_ticks := Suc (l_ticks w)\<rparr>))"

definition nowL :: "time launch" where
  "nowL = getE l_now"

definition publishL :: "launch_event \<Rightarrow> unit launch" where
  "publishL e = modifyE (\<lambda>w. w\<lparr>l_events := l_events w @ [e]\<rparr>)"

definition reportL :: "lenv \<Rightarrow> launch_report \<Rightarrow> unit launch" where
  "reportL E r = (if le_telemetry E then modifyE (\<lambda>w. w\<lparr>l_reports := l_reports w @ [r]\<rparr>) else returnE ())"

definition ignoreL :: "'a launch \<Rightarrow> unit launch" where
  "ignoreL m = catchE m (\<lambda>_. returnE ())"

text \<open>\<open>beginMutation\<close> with its deferred release, around the rest of a method.\<close>

definition beginMutation :: "unit launch" where
  "beginMutation = (\<lambda>w. case Begin (l_gate w) of (r, g) \<Rightarrow> (r, w\<lparr>l_gate := g\<rparr>))"

definition endMutation :: "launch_world \<Rightarrow> launch_world" where
  "endMutation w = w\<lparr>l_gate := End (l_gate w)\<rparr>"

definition mutating :: "'a launch \<Rightarrow> 'a launch" where
  "mutating body = bindE beginMutation (\<lambda>_. finallyE body endMutation)"

section \<open>Instances\<close>

abbreviation "InstanceReady \<equiv> ''ready''"
abbreviation "InstanceRunning \<equiv> ''running''"
text \<open>\<open>scanInstance\<close>: a row of the table with its client checked.\<close>

definition scanInstance :: "game_instance \<Rightarrow> game_instance result" where
  "scanInstance row =
     (case NormalizeGameClient (gi_client row) of
        None \<Rightarrow> Inl (NewError ErrValidation ''Stored instance has an invalid game client'')
      | Some c \<Rightarrow> Inr (row\<lparr>gi_client := c\<rparr>))"

definition findInstance :: "launch_world \<Rightarrow> string \<Rightarrow> game_instance option" where
  "findInstance w i = find (\<lambda>r. gi_id r = i) (l_instances w)"

definition getInstance :: "lenv \<Rightarrow> string \<Rightarrow> game_instance launch" where
  "getInstance E i = readL E DatabaseCall (\<lambda>w.
     case findInstance w i of
       None \<Rightarrow> Inl (NewError ErrInstanceNotFound ''Instance not found'')
     | Some row \<Rightarrow> scanInstance row)"

fun scanInstances :: "game_instance list \<Rightarrow> game_instance list result" where
  "scanInstances [] = Inr []"
| "scanInstances (row # rows) =
     (case scanInstance row of
        Inl e \<Rightarrow> Inl e
      | Inr i \<Rightarrow> (case scanInstances rows of Inl e \<Rightarrow> Inl e | Inr is \<Rightarrow> Inr (i # is)))"

text \<open>Newest first, by the text of the last launch or of the creation.\<close>

definition listInstances :: "lenv \<Rightarrow> game_instance list launch" where
  "listInstances E = readL E DatabaseCall (\<lambda>w.
     scanInstances (rev (sort_key
       (\<lambda>r. ts (case gi_last_played r of Some t \<Rightarrow> t | None \<Rightarrow> gi_created r)) (l_instances w))))"

text \<open>
  \<open>SaveInstance\<close>: inserts the row, or overwrites every column of the stored one but the pin and
  the creation time.  The directories of the rows are unique.
\<close>

fun upsertInstance :: "game_instance \<Rightarrow> game_instance list \<Rightarrow> game_instance list" where
  "upsertInstance new [] = [new]"
| "upsertInstance new (row # rows) =
     (if gi_id row = gi_id new
      then new\<lparr>gi_pinned := gi_pinned row, gi_created := gi_created row\<rparr> # rows
      else row # upsertInstance new rows)"

definition saveInstance :: "lenv \<Rightarrow> game_instance \<Rightarrow> unit launch" where
  "saveInstance E inst =
     (case NormalizeGameClient (gi_client inst) of
        None \<Rightarrow> throwE (NewError ErrValidation ''Game client must be Vanilla or Optimum'')
      | Some c \<Rightarrow> callL E DatabaseCall (\<lambda>w.
          (if list_ex (\<lambda>r. gi_id r \<noteq> gi_id inst \<and> gi_directory r = gi_directory inst) (l_instances w)
           then (Inl (NewError ErrDirectoryConflict ''The directory is already used by another instance''), w)
           else if \<not> list_ex (\<lambda>v. gv_id v = gi_version inst) (l_versions w) \<or>
                   (case gi_account inst of None \<Rightarrow> False
                    | Some a \<Rightarrow> \<not> list_ex (\<lambda>x. ac_id x = a) (l_accounts w))
           then (Inl (OtherError ''FOREIGN KEY constraint failed''), w)
           else (Inr (), w\<lparr>l_instances := upsertInstance (inst\<lparr>gi_client := c\<rparr>) (l_instances w)\<rparr>))))"

section \<open>Game versions\<close>

definition getVersion :: "lenv \<Rightarrow> string \<Rightarrow> game_version launch" where
  "getVersion E i = readL E DatabaseCall (\<lambda>w.
     case find (\<lambda>v. gv_id v = i) (l_versions w) of
       None \<Rightarrow> Inl (NewError ErrVersionNotFound ''Game version not found'')
     | Some v \<Rightarrow> Inr v)"

definition updateVersion :: "lenv \<Rightarrow> game_version \<Rightarrow> unit launch" where
  "updateVersion E v = callL E DatabaseCall (\<lambda>w.
     (if list_ex (\<lambda>x. gv_id x = gv_id v) (l_versions w)
      then (Inr (), w\<lparr>l_versions := map (\<lambda>x. if gv_id x = gv_id v then v else x) (l_versions w)\<rparr>)
      else (Inl (NewError ErrVersionNotFound ''Game version not found''), w)))"

definition executableExists :: "lenv \<Rightarrow> string \<Rightarrow> bool launch" where
  "executableExists E p = catchE
     (readL E BinaryCall (\<lambda>w. case map_of (l_binaries w) p of
        None \<Rightarrow> Inl (OsNotExist ''no such file or directory'') | Some b \<Rightarrow> Inr b))
     (\<lambda>r. returnE (case r of Inr b \<Rightarrow> b \<noteq> BinaryDir | Inl _ \<Rightarrow> False))"

definition markVersionMissing :: "lenv \<Rightarrow> game_version \<Rightarrow> (game_version \<times> bool) launch" where
  "markVersionMissing E v =
     (if gv_status v = ''failed'' \<and> gv_executable v = [] then returnE (v, False)
      else bindE nowL (\<lambda>now.
           let v' = v\<lparr>gv_executable := [], gv_status := ''failed'', gv_verified := Some now\<rparr>
           in bindE (updateVersion E v') (\<lambda>_. returnE (v', False))))"

definition verifyVersion :: "lenv \<Rightarrow> game_version \<Rightarrow> (game_version \<times> bool) launch" where
  "verifyVersion E v = bindE (executableExists E (gv_executable v)) (\<lambda>found.
     if found then
       (if gv_status v \<noteq> ''installed'' then
          bindE nowL (\<lambda>now.
            let v' = v\<lparr>gv_status := ''installed'', gv_verified := Some now\<rparr>
            in bindE (updateVersion E v') (\<lambda>_. returnE (v', True)))
        else returnE (v, True))
     else (case le_find_executable E (gv_directory v) of
             Inl _ \<Rightarrow> markVersionMissing E v
           | Inr executable \<Rightarrow>
               catchE (readL E BinaryCall (\<lambda>_. Inr ())) (\<lambda>r. case r of
                 Inl _ \<Rightarrow> markVersionMissing E v
               | Inr _ \<Rightarrow> bindE nowL (\<lambda>now.
                   let v' = v\<lparr>gv_executable := executable, gv_status := ''installed'',
                              gv_verified := Some now\<rparr>
                   in bindE (updateVersion E v') (\<lambda>_. returnE (v', True))))))"

definition ResolveExecutable :: "lenv \<Rightarrow> string \<Rightarrow> game_version launch" where
  "ResolveExecutable E i = bindE (getVersion E i) (\<lambda>v. bindE (verifyVersion E v) (\<lambda>(v', installed).
     if \<not> installed then throwE (NewError ErrVersionNotFound ''Game version executable not found'')
     else returnE v'))"

section \<open>Play sessions\<close>

definition CreateSession :: "lenv \<Rightarrow> play_session \<Rightarrow> unit launch" where
  "CreateSession E s = callL E DatabaseCall (\<lambda>w.
     (if list_ex (\<lambda>x. ps_id x = ps_id s) (l_sessions w)
      then (Inl (OtherError ''UNIQUE constraint failed: play_sessions.id''), w)
      else if \<not> list_ex (\<lambda>r. gi_id r = ps_instance s) (l_instances w) \<or>
              (case ps_account s of None \<Rightarrow> False
               | Some a \<Rightarrow> \<not> list_ex (\<lambda>x. ac_id x = a) (l_accounts w))
      then (Inl (OtherError ''FOREIGN KEY constraint failed''), w)
      else (Inr (), w\<lparr>l_sessions := l_sessions w @ [s]\<rparr>)))"

definition FinishSession :: "lenv \<Rightarrow> string \<Rightarrow> int \<Rightarrow> bool \<Rightarrow> int \<Rightarrow> unit launch" where
  "FinishSession E i code crashed duration = bindE nowL (\<lambda>ended. callL E DatabaseCall (\<lambda>w.
     (Inr (), w\<lparr>l_sessions := map (\<lambda>s. if ps_id s = i
        then s\<lparr>ps_ended := Some ended, ps_duration := duration, ps_exit := Some code, ps_crashed := crashed\<rparr>
        else s) (l_sessions w)\<rparr>)))"

text \<open>
  \<open>RecoverOpenSessions\<close>: at the start of the launcher, the sessions still open ended with the
  previous run.  The duration is the difference of the whole seconds; one transaction, so all
  of it or nothing.
\<close>

definition whole_seconds :: "time \<Rightarrow> int" where
  "whole_seconds t = t div 1000000000"

definition recoverSession :: "time \<Rightarrow> play_session \<Rightarrow> play_session" where
  "recoverSession now s =
     (if ps_ended s = None
      then s\<lparr>ps_ended := Some now, ps_duration := max 0 (whole_seconds now - whole_seconds (ps_started s)),
             ps_crashed := True, ps_recovered := True\<rparr>
      else s)"

definition RecoverOpenSessions :: "lenv \<Rightarrow> unit launch" where
  "RecoverOpenSessions E = bindE nowL (\<lambda>now. callL E DatabaseCall (\<lambda>w.
     (Inr (), w\<lparr>l_sessions := map (recoverSession now) (l_sessions w),
                l_instances := map (\<lambda>r. if gi_status r = InstanceRunning then r\<lparr>gi_status := InstanceReady\<rparr> else r)
                                 (l_instances w)\<rparr>)))"

definition InstancePlaytime :: "lenv \<Rightarrow> string \<Rightarrow> int launch" where
  "InstancePlaytime E i = readL E DatabaseCall (\<lambda>w.
     Inr (sum_list (map ps_duration (filter (\<lambda>s. ps_instance s = i) (l_sessions w)))))"

text \<open>
  \<open>SessionStatistics\<close>: the totals, and the instance with the longest positive playtime, the
  smallest identifier first among equals (\<open>GROUP BY ... HAVING ... ORDER BY ... LIMIT 1\<close>).
\<close>

record session_totals =
  tt_playtime :: int
  tt_launches :: nat
  tt_most_played :: "string option"

definition playtime :: "play_session list \<Rightarrow> string \<Rightarrow> int" where
  "playtime ss i = sum_list (map ps_duration (filter (\<lambda>s. ps_instance s = i) ss))"

fun mostPlayed :: "play_session list \<Rightarrow> string list \<Rightarrow> string option" where
  "mostPlayed ss [] = None"
| "mostPlayed ss (i # is) =
     (case mostPlayed ss is of
        None \<Rightarrow> if playtime ss i > 0 then Some i else None
      | Some j \<Rightarrow> if playtime ss i \<ge> playtime ss j then Some i else Some j)"

definition SessionStatistics :: "lenv \<Rightarrow> session_totals launch" where
  "SessionStatistics E = readL E DatabaseCall (\<lambda>w. Inr
     \<lparr>tt_playtime = sum_list (map ps_duration (l_sessions w)), tt_launches = length (l_sessions w),
      tt_most_played = mostPlayed (l_sessions w)
        (sort_strings (remdups (map ps_instance (l_sessions w))))\<rparr>)"

end
