(* ===== verification/LaunchFrames.thy ===== *)
theory LaunchFrames
  imports LaunchWorld
begin

text \<open>
  What the ports of the launch world may change.  \<open>ignores u R\<close>: the relation \<open>R\<close> does not see
  the field whose update function is \<open>u\<close>; a port that only writes such fields keeps \<open>R\<close>.
\<close>

definition ignores :: "(('f \<Rightarrow> 'f) \<Rightarrow> 'w \<Rightarrow> 'w) \<Rightarrow> ('w \<Rightarrow> 'w \<Rightarrow> bool) \<Rightarrow> bool" where
  "ignores u R \<longleftrightarrow> (\<forall>f w. R w (u f w))"

definition quiet :: "(launch_world \<Rightarrow> launch_world \<Rightarrow> bool) \<Rightarrow> bool" where
  "quiet R \<longleftrightarrow> preorder_rel R \<and> ignores l_ticks_update R"

lemma ignoresD: "ignores u R \<Longrightarrow> R w (u f w)"
  by (simp add: ignores_def)

lemma quiet_preorder [simp]: "quiet R \<Longrightarrow> preorder_rel R"
  by (simp add: quiet_def)

lemma quiet_ticks: "quiet R \<Longrightarrow> R w (w\<lparr>l_ticks := n\<rparr>)"
  using ignoresD [of l_ticks_update R w "\<lambda>_. n"] by (simp add: quiet_def)

lemma quiet_trans: "quiet R \<Longrightarrow> R a b \<Longrightarrow> R b c \<Longrightarrow> R a c"
  by (auto simp: quiet_def preorder_rel_def transp_def)

lemma quiet_refl [simp]: "quiet R \<Longrightarrow> R a a"
  by (auto simp: quiet_def preorder_rel_def reflp_def)

lemma evolves_callL:
  assumes "quiet R" "\<And>w. R w (snd (f w))" shows "evolves R (callL E k f)"
  unfolding evolves_def
proof
  fix w
  have "R w (w\<lparr>l_ticks := Suc (l_ticks w)\<rparr>)" using assms(1) by (rule quiet_ticks)
  moreover have "R (w\<lparr>l_ticks := Suc (l_ticks w)\<rparr>) (snd (f (w\<lparr>l_ticks := Suc (l_ticks w)\<rparr>)))"
    by (rule assms(2))
  ultimately show "R w (snd (callL E k f w))"
    using quiet_trans [OF assms(1)] by (auto simp: callL_def split: option.splits)
qed

lemma evolves_readL [evolve_rules]: "quiet R \<Longrightarrow> evolves R (readL E k f)"
  unfolding readL_def by (rule evolves_callL) simp_all

lemma evolves_tickL [evolve_rules]: "quiet R \<Longrightarrow> evolves R (tickL f)"
  by (simp add: evolves_def tickL_def quiet_ticks)

lemma evolves_nowL [evolve_rules]: "quiet R \<Longrightarrow> evolves R nowL"
  unfolding nowL_def by (rule evolves_getE) simp

lemma evolves_publishL [evolve_rules]: "ignores l_events_update R \<Longrightarrow> evolves R (publishL e)"
  unfolding publishL_def
  by (rule evolves_modifyE) (simp add: ignores_def)

lemma evolves_reportL [evolve_rules]:
  "quiet R \<Longrightarrow> ignores l_reports_update R \<Longrightarrow> evolves R (reportL E r)"
  unfolding reportL_def
  by (intro evolves_if evolves_modifyE evolves_returnE) (simp_all add: ignores_def)

lemma evolves_ignoreL [evolve_rules]: "quiet R \<Longrightarrow> evolves R m \<Longrightarrow> evolves R (ignoreL m)"
  unfolding ignoreL_def by (intro evolves_catchE evolves_returnE) simp_all

lemma evolves_beginMutation [evolve_rules]:
  "quiet R \<Longrightarrow> ignores l_gate_update R \<Longrightarrow> evolves R beginMutation"
  by (simp add: evolves_def beginMutation_def ignores_def split: prod.splits)

lemma evolves_getInstance [evolve_rules]: "quiet R \<Longrightarrow> evolves R (getInstance E i)"
  unfolding getInstance_def by (rule evolves_readL)

lemma evolves_listInstances [evolve_rules]: "quiet R \<Longrightarrow> evolves R (listInstances E)"
  unfolding listInstances_def by (rule evolves_readL)

lemma evolves_saveInstance [evolve_rules]:
  assumes "quiet R" "ignores l_instances_update R" shows "evolves R (saveInstance E i)"
proof -
  have "R w (w\<lparr>l_instances := x\<rparr>)" for w x
    using ignoresD [OF assms(2), of w "\<lambda>_. x"] by simp
  with assms(1) show ?thesis
    unfolding saveInstance_def
    by (intro evolves_case_option evolves_throwE evolves_callL) simp_all
qed

lemma evolves_getVersion [evolve_rules]: "quiet R \<Longrightarrow> evolves R (getVersion E i)"
  unfolding getVersion_def by (rule evolves_readL)

lemma evolves_updateVersion [evolve_rules]:
  assumes "quiet R" "ignores l_versions_update R" shows "evolves R (updateVersion E v)"
proof -
  have "R w (w\<lparr>l_versions := x\<rparr>)" for w x
    using ignoresD [OF assms(2), of w "\<lambda>_. x"] by simp
  with assms(1) show ?thesis
    unfolding updateVersion_def by (intro evolves_callL) simp_all
qed

lemma evolves_executableExists [evolve_rules]: "quiet R \<Longrightarrow> evolves R (executableExists E p)"
  unfolding executableExists_def by (intro evolves_catchE evolves_readL evolves_returnE) simp_all

lemma evolves_markVersionMissing [evolve_rules]:
  "quiet R \<Longrightarrow> ignores l_versions_update R \<Longrightarrow> evolves R (markVersionMissing E v)"
  unfolding markVersionMissing_def by (auto intro!: evolve_rules simp: Let_def)

lemma evolves_verifyVersion [evolve_rules]:
  "quiet R \<Longrightarrow> ignores l_versions_update R \<Longrightarrow> evolves R (verifyVersion E v)"
  unfolding verifyVersion_def by (auto intro!: evolve_rules simp: Let_def)

lemma evolves_ResolveExecutable [evolve_rules]:
  "quiet R \<Longrightarrow> ignores l_versions_update R \<Longrightarrow> evolves R (ResolveExecutable E i)"
  unfolding ResolveExecutable_def by (auto intro!: evolve_rules)

lemma evolves_CreateSession [evolve_rules]:
  assumes "quiet R" "ignores l_sessions_update R" shows "evolves R (CreateSession E s)"
proof -
  have "R w (w\<lparr>l_sessions := x\<rparr>)" for w x
    using ignoresD [OF assms(2), of w "\<lambda>_. x"] by simp
  with assms(1) show ?thesis
    unfolding CreateSession_def by (intro evolves_callL) simp_all
qed

lemma evolves_FinishSession [evolve_rules]:
  assumes "quiet R" "ignores l_sessions_update R" shows "evolves R (FinishSession E i c b d)"
proof -
  have "R w (w\<lparr>l_sessions := x\<rparr>)" for w x
    using ignoresD [OF assms(2), of w "\<lambda>_. x"] by simp
  with assms(1) show ?thesis
    unfolding FinishSession_def by (intro evolves_bindE evolves_nowL evolves_callL) simp_all
qed

text \<open>The relations that keep one field.\<close>

lemma quiet_keeping [simp]:
  "quiet (keeping l_gate)" "quiet (keeping l_registry)" "quiet (keeping l_instances)"
  "quiet (keeping l_versions)" "quiet (keeping l_accounts)" "quiet (keeping l_keyring)"
  "quiet (keeping l_pending)" "quiet (keeping l_files)" "quiet (keeping l_logs)"
  "quiet (keeping l_processes)" "quiet (keeping l_sessions)" "quiet (keeping l_now)"
  "quiet (keeping l_recovery)" "quiet (keeping l_flows)" "quiet (keeping l_directories)"
  by (simp_all add: quiet_def ignores_def) (simp_all add: keeping_def)

end
