(* ===== verification/ClientSettings.thy ===== *)
theory ClientSettings
  imports LaunchFrames
begin

text \<open>
  \<open>platform/filesystem/clientsettings.go\<close>: the game's \<open>clientsettings.json\<close>, into which the
  launcher writes the session of an account before a launch and from which it removes it after
  the exit, and the sanitiser for exported packages.

  A document is its decoded object; a section is an object, \<open>null\<close> or any other raw value.
  Documents and sections are Go maps; the order of the lists means nothing.  The encoding
  itself is \<open>encoding/json\<close>; \<open>le_size\<close> is the length of a file.
\<close>

definition maxClientSettingsBytes :: int where
  "maxClientSettingsBytes = 8 * 1048576"

definition injectionJournalSuffix :: string where
  "injectionJournalSuffix = ''.waxlight-auth-injection''"

definition authKeys :: "string list" where
  "authKeys = [''sessionkey'', ''sessionsignature'', ''playeruid'', ''playername'']"

definition sensitiveStringKeys :: "string list" where
  "sensitiveStringKeys = [''sessionkey'', ''sessionsignature'', ''playeruid'', ''playername'',
     ''useremail'', ''mptoken'', ''entitlements'']"

definition sensitiveStringListKeys :: "string list" where
  "sensitiveStringListKeys = [''modPaths'', ''modpaths'', ''multiplayerservers'']"

definition forbiddenKey :: "string list \<Rightarrow> string \<Rightarrow> bool" where
  "forbiddenKey forbidden k \<longleftrightarrow> list_ex (EqualFold k) forbidden"

definition matchingSections :: "settings_doc \<Rightarrow> string \<Rightarrow> settings_doc" where
  "matchingSections doc name = filter (\<lambda>(k, _). EqualFold k name) doc"

definition stripKeys :: "json_object \<Rightarrow> string list \<Rightarrow> json_object \<times> bool" where
  "stripKeys ms forbidden =
     (filter (\<lambda>(k, _). \<not> forbiddenKey forbidden k) ms, list_ex (\<lambda>(k, _). forbiddenKey forbidden k) ms)"

section \<open>Patching a document\<close>

fun decodeSections :: "settings_doc \<Rightarrow> (string \<times> json_object) list option" where
  "decodeSections [] = Some []"
| "decodeSections ((k, s) # rest) =
     (case s of
        SectionObject ms \<Rightarrow> map_option (Cons (k, ms)) (decodeSections rest)
      | SectionNull \<Rightarrow> None
      | SectionOther _ \<Rightarrow> None)"

definition primarySection :: "(string \<times> json_object) list \<Rightarrow> string" where
  "primarySection sections =
     (if map_of sections ''stringSettings'' \<noteq> None then ''stringSettings'' else ''stringsettings'')"

definition setAuth :: "account \<Rightarrow> json_object \<Rightarrow> json_object" where
  "setAuth a ms = fold (\<lambda>(k, v). AList.update k (JString v))
     [(''sessionkey'', ac_session_key a), (''sessionsignature'', ac_session_signature a),
      (''playeruid'', ac_uid a), (''playername'', ac_username a)] ms"

text \<open>\<open>root[key] = encoded\<close> for every section.\<close>

definition storeSections :: "(string \<times> json_object) list \<Rightarrow> settings_doc \<Rightarrow> settings_doc" where
  "storeSections sections doc =
     map (\<lambda>(k, s). (k, case map_of sections k of None \<Rightarrow> s | Some ms \<Rightarrow> SectionObject ms)) doc @
     map (\<lambda>(k, ms). (k, SectionObject ms)) (filter (\<lambda>(k, _). map_of doc k = None) sections)"

text \<open>\<open>None\<close>: nothing to write.\<close>

definition patchDoc :: "settings_doc \<Rightarrow> account option \<Rightarrow> settings_doc option result" where
  "patchDoc doc acct =
     (case decodeSections (matchingSections doc ''stringsettings'') of
        None \<Rightarrow> Inl (OtherError ''client settings stringsettings must be an object'')
      | Some sections \<Rightarrow>
          (let stripped = map (\<lambda>(k, ms). (k, fst (stripKeys ms authKeys))) sections;
               changed = list_ex (\<lambda>(_, ms). snd (stripKeys ms authKeys)) sections
           in case acct of
                None \<Rightarrow> Inr (if changed then Some (storeSections stripped doc) else None)
              | Some a \<Rightarrow>
                  (let primary = primarySection stripped;
                       settings = (case map_of stripped primary of None \<Rightarrow> [] | Some ms \<Rightarrow> ms)
                   in Inr (Some (storeSections (AList.update primary (setAuth a settings) stripped) doc)))))"

section \<open>Files\<close>

definition readSettings :: "lenv \<Rightarrow> string \<Rightarrow> settings_node launch" where
  "readSettings E path = readL E FileCall (\<lambda>w.
     case map_of (l_files w) path of
       None \<Rightarrow> Inl (OsNotExist ''no such file or directory'')
     | Some Irregular \<Rightarrow> Inl (OtherError ''path is not a regular file'')
     | Some n \<Rightarrow> if le_size E n > maxClientSettingsBytes then Inl (OtherError ''file is too large'')
                 else Inr n)"

text \<open>\<open>atomicfile.Write\<close>: a failure leaves the old file, or, past the rename, the new one.\<close>

definition atomicWriteL :: "lenv \<Rightarrow> string \<Rightarrow> settings_node \<Rightarrow> unit launch" where
  "atomicWriteL E path n = (\<lambda>w.
     (let w' = w\<lparr>l_ticks := Suc (l_ticks w)\<rparr>; new = w'\<lparr>l_files := AList.update path n (l_files w)\<rparr>
      in if map_of (l_files w) path = Some Irregular
         then (Inl (OtherError ''atomic file target is not a regular file''), w')
         else case le_fault E FileCall (l_ticks w) of
                None \<Rightarrow> (Inr (), new)
              | Some e \<Rightarrow> (Inl e, if le_late E (l_ticks w) then new else w')))"

definition removeFileL :: "lenv \<Rightarrow> string \<Rightarrow> unit launch" where
  "removeFileL E path = callL E FileCall (\<lambda>w.
     (if map_of (l_files w) path = None then (Inl (OsNotExist ''no such file or directory''), w)
      else (Inr (), w\<lparr>l_files := AList.delete path (l_files w)\<rparr>)))"

definition removeJournal :: "lenv \<Rightarrow> string \<Rightarrow> unit launch" where
  "removeJournal E path = catchE (removeFileL E (path @ injectionJournalSuffix)) (\<lambda>r. case r of
     Inl e \<Rightarrow> if isNotExist e then returnE () else throwE e
   | Inr _ \<Rightarrow> returnE ())"

definition writePatched :: "lenv \<Rightarrow> string \<Rightarrow> account option \<Rightarrow> settings_doc \<Rightarrow> unit launch" where
  "writePatched E path acct doc =
     (case patchDoc doc acct of
        Inl e \<Rightarrow> throwE e
      | Inr None \<Rightarrow> returnE ()
      | Inr (Some patched) \<Rightarrow> atomicWriteL E path (Settings patched))"

definition patchClientSettings :: "lenv \<Rightarrow> string \<Rightarrow> account option \<Rightarrow> unit launch" where
  "patchClientSettings E path acct = catchE (readSettings E path) (\<lambda>r. case r of
     Inr (Settings doc) \<Rightarrow> writePatched E path acct doc
   | Inr (NotAnObject text) \<Rightarrow> throwE (WrapError ''invalid client settings'' (OtherError text))
   | Inr Irregular \<Rightarrow> throwE (OtherError ''path is not a regular file'')
   | Inl e \<Rightarrow>
       if isNotExist e \<and> acct = None then returnE ()
       else if \<not> isNotExist e then throwE (WrapError ''read client settings'' e)
       else writePatched E path acct [])"

text \<open>The idempotent function that \<open>Inject\<close> returns.\<close>

definition cleanupInjected :: "lenv \<Rightarrow> string \<Rightarrow> unit launch" where
  "cleanupInjected E path = bindE (patchClientSettings E path None) (\<lambda>_. removeJournal E path)"

definition injectionJournal :: "time \<Rightarrow> settings_node" where
  "injectionJournal now = Settings [(''version'', SectionOther ''1''),
     (''injectedAt'', SectionOther (CHR 34 # ts now @ [CHR 34]))]"

definition Inject :: "lenv \<Rightarrow> string \<Rightarrow> account \<Rightarrow> unit launch" where
  "Inject E path a = bindE nowL (\<lambda>now.
     catchE (atomicWriteL E (path @ injectionJournalSuffix) (injectionJournal now)) (\<lambda>r. case r of
       Inl e \<Rightarrow> throwE (WrapError ''write authentication injection marker'' e)
     | Inr _ \<Rightarrow> catchE (patchClientSettings E path (Some a)) (\<lambda>r. case r of
         Inl e \<Rightarrow> bindE (ignoreL (patchClientSettings E path None)) (\<lambda>_.
                 bindE (ignoreL (removeFileL E (path @ injectionJournalSuffix))) (\<lambda>_. throwE e))
       | Inr _ \<Rightarrow> returnE ())))"

definition ClearSettings :: "lenv \<Rightarrow> string \<Rightarrow> unit launch" where
  "ClearSettings E path = catchE
     (readL E FileCall (\<lambda>w. if map_of (l_files w) path = None
        then Inl (OsNotExist ''no such file or directory'') else Inr ()))
     (\<lambda>r. case r of
        Inl e \<Rightarrow> if isNotExist e then removeJournal E path else cleanupInjected E path
      | Inr _ \<Rightarrow> cleanupInjected E path)"

definition ReconcileSettings :: "lenv \<Rightarrow> string \<Rightarrow> unit launch" where
  "ReconcileSettings = ClearSettings"

section \<open>The sanitiser of exported packages\<close>

fun sanitizeSections :: "string \<Rightarrow> string list \<Rightarrow> string \<Rightarrow> settings_doc \<Rightarrow> settings_doc result" where
  "sanitizeSections name forbidden problem [] = Inr []"
| "sanitizeSections name forbidden problem ((k, s) # rest) =
     (case (if EqualFold k name then
              (case s of
                 SectionNull \<Rightarrow> Inr SectionNull
               | SectionObject ms \<Rightarrow> Inr (SectionObject (fst (stripKeys ms forbidden)))
               | SectionOther _ \<Rightarrow> Inl (OtherError problem))
            else Inr s) of
        Inl e \<Rightarrow> Inl e
      | Inr s' \<Rightarrow> (case sanitizeSections name forbidden problem rest of
                    Inl e \<Rightarrow> Inl e | Inr rest' \<Rightarrow> Inr ((k, s') # rest')))"

definition SanitizeClientSettings :: "settings_node \<Rightarrow> settings_node result" where
  "SanitizeClientSettings contents =
     (case contents of
        Settings doc \<Rightarrow>
          (case sanitizeSections ''stringsettings'' sensitiveStringKeys
                  ''client settings string settings must be an object'' doc of
             Inl e \<Rightarrow> Inl e
           | Inr doc' \<Rightarrow>
               (case sanitizeSections ''stringlistsettings'' sensitiveStringListKeys
                       ''client settings string list settings must be an object'' doc' of
                  Inl e \<Rightarrow> Inl e | Inr doc'' \<Rightarrow> Inr (Settings doc'')))
      | NotAnObject text \<Rightarrow> Inl (WrapError ''invalid client settings'' (OtherError text))
      | Irregular \<Rightarrow> Inl (OtherError ''path is not a regular file''))"

section \<open>What a patch removes and keeps\<close>

definition freeOf :: "string list \<Rightarrow> json_section \<Rightarrow> bool" where
  "freeOf forbidden s = (case s of
     SectionObject ms \<Rightarrow> list_all (\<lambda>(k, _). \<not> forbiddenKey forbidden k) ms | _ \<Rightarrow> True)"

definition authFree :: "settings_doc \<Rightarrow> bool" where
  "authFree doc = list_all (\<lambda>(_, s). freeOf authKeys s) (matchingSections doc ''stringsettings'')"

definition authFreeNode :: "settings_node option \<Rightarrow> bool" where
  "authFreeNode n = (case n of None \<Rightarrow> True | Some (Settings doc) \<Rightarrow> authFree doc | _ \<Rightarrow> False)"

definition sectionMember :: "json_section option \<Rightarrow> string \<Rightarrow> json_value option" where
  "sectionMember s m = (case s of Some (SectionObject ms) \<Rightarrow> map_of ms m | _ \<Rightarrow> None)"

definition settingOf :: "settings_doc \<Rightarrow> string \<Rightarrow> string \<Rightarrow> json_value option" where
  "settingOf doc k m = sectionMember (map_of doc k) m"

lemma map_of_filter_key: "map_of (filter (\<lambda>(k, _). P k) xs) k = (if P k then map_of xs k else None)"
  by (induction xs) auto

lemma map_of_matching:
  "map_of (matchingSections doc name) k = (if EqualFold k name then map_of doc k else None)"
  unfolding matchingSections_def by (rule map_of_filter_key)

lemma decodeSections_iff:
  "decodeSections ss = Some secs \<longleftrightarrow> ss = map (\<lambda>(k, ms). (k, SectionObject ms)) secs"
  by (induction ss arbitrary: secs rule: decodeSections.induct)
     (auto split: json_section.splits simp: Cons_eq_map_conv)

lemma stripKeys_free: "list_all (\<lambda>(k, _). \<not> forbiddenKey f k) (fst (stripKeys ms f))"
  by (auto simp: stripKeys_def list_all_iff)

lemma stripKeys_unchanged: "\<not> snd (stripKeys ms f) \<longleftrightarrow> list_all (\<lambda>(k, _). \<not> forbiddenKey f k) ms"
  by (auto simp: stripKeys_def list_all_iff list_ex_iff)

lemma map_of_stripKeys:
  "map_of (fst (stripKeys ms f)) m = (if forbiddenKey f m then None else map_of ms m)"
  by (simp add: stripKeys_def map_of_filter_key)

lemma map_of_map_section: "map_of (map (\<lambda>(k, ms). (k, f ms)) ss) k = map_option f (map_of ss k)"
  by (induction ss) auto

lemma map_of_storeSections:
  "map_of (storeSections ss doc) k =
     (case map_of doc k of
        Some s \<Rightarrow> Some (case map_of ss k of None \<Rightarrow> s | Some ms \<Rightarrow> SectionObject ms)
      | None \<Rightarrow> map_option SectionObject (map_of ss k))"
proof -
  have here: "map_of (map (\<lambda>(k, s). (k, g k s)) doc) k = map_option (g k) (map_of doc k)" for g
    by (induction doc) auto
  show ?thesis
    by (auto simp: storeSections_def map_add_def here map_of_map_section map_of_filter_key
        split: option.splits)
qed

lemma sections_of:
  assumes "decodeSections (matchingSections doc name) = Some secs"
  shows "map_option SectionObject (map_of secs k) = (if EqualFold k name then map_of doc k else None)"
  using assms map_of_matching [of doc name k]
  by (simp add: decodeSections_iff map_of_map_section)

lemma sections_key:
  assumes "decodeSections (matchingSections doc name) = Some secs" "(k, s) \<in> set doc" "EqualFold k name"
  shows "map_of secs k \<noteq> None"
proof -
  have "map_of doc k \<noteq> None" using weak_map_of_SomeI [OF assms(2)] by auto
  with sections_of [OF assms(1), of k] assms(3) show ?thesis by (cases "map_of secs k") auto
qed

abbreviation stripAll :: "string list \<Rightarrow> (string \<times> json_object) list \<Rightarrow> (string \<times> json_object) list" where
  "stripAll f secs \<equiv> map (\<lambda>(k, ms). (k, fst (stripKeys ms f))) secs"

lemma authFree_store:
  assumes "decodeSections (matchingSections doc ''stringsettings'') = Some secs"
  shows "authFree (storeSections (stripAll authKeys secs) doc)"
proof -
  have "freeOf authKeys s" if "(k, s) \<in> set (storeSections (stripAll authKeys secs) doc)"
    "EqualFold k ''stringsettings''" for k s
  proof -
    from that(1) consider (old) t where "(k, t) \<in> set doc"
        "s = (case map_of (stripAll authKeys secs) k of None \<Rightarrow> t | Some ms \<Rightarrow> SectionObject ms)"
      | (new) ms where "s = SectionObject (fst (stripKeys ms authKeys))"
      by (auto simp: storeSections_def)
    then show ?thesis
    proof cases
      case old
      with sections_key [OF assms old(1) that(2)] show ?thesis
        by (auto simp: map_of_map_section freeOf_def stripKeys_free)
    next
      case new
      then show ?thesis by (auto simp: freeOf_def stripKeys_free)
    qed
  qed
  then show ?thesis by (auto simp: authFree_def matchingSections_def list_all_iff)
qed

lemma authFree_unchanged:
  assumes "decodeSections (matchingSections doc ''stringsettings'') = Some secs"
    and "\<not> list_ex (\<lambda>(_, ms). snd (stripKeys ms authKeys)) secs"
  shows "authFree doc"
  using assms
  by (fastforce simp: authFree_def decodeSections_iff list_all_iff list_ex_iff freeOf_def stripKeys_def)

definition patched :: "settings_doc \<Rightarrow> settings_doc option \<Rightarrow> settings_doc" where
  "patched doc r = (case r of None \<Rightarrow> doc | Some d \<Rightarrow> d)"

lemma patchDoc_None_free: "patchDoc doc None = Inr r \<Longrightarrow> authFree (patched doc r)"
  by (auto simp: patchDoc_def Let_def patched_def authFree_store authFree_unchanged
      split: option.splits if_splits)

text \<open>A section is stored for every key the patch touches, and only for string settings.\<close>

lemma primarySection_fold: "EqualFold (primarySection secs) ''stringsettings''"
proof -
  have "EqualFold ''stringSettings'' ''stringsettings''" by code_simp
  then show ?thesis by (simp add: primarySection_def)
qed

lemma patchDoc_other_section:
  assumes "patchDoc doc acct = Inr r" "\<not> EqualFold k ''stringsettings''"
  shows "map_of (patched doc r) k = map_of doc k"
proof -
  from assms(1) obtain secs where dec: "decodeSections (matchingSections doc ''stringsettings'') = Some secs"
    by (auto simp: patchDoc_def split: option.splits)
  have none: "map_of secs k = None" using sections_of [OF dec, of k] assms(2) by (auto split: if_splits)
  have "k \<noteq> primarySection x" for x using assms(2) primarySection_fold by auto
  with none assms(1) dec show ?thesis
    by (auto simp: patchDoc_def Let_def patched_def map_of_storeSections map_of_map_section update_conv
        split: option.splits if_splits)
qed

definition authValue :: "account \<Rightarrow> string \<Rightarrow> json_value option" where
  "authValue a m = map_of [(''sessionkey'', JString (ac_session_key a)),
     (''sessionsignature'', JString (ac_session_signature a)),
     (''playeruid'', JString (ac_uid a)), (''playername'', JString (ac_username a))] m"

lemma map_of_setAuth: "map_of (setAuth a ms) m = (case authValue a m of Some v \<Rightarrow> Some v | None \<Rightarrow> map_of ms m)"
  by (simp add: setAuth_def authValue_def update_conv)

lemma authValue_key: "authValue a m \<noteq> None \<longleftrightarrow> m \<in> set authKeys"
  by (auto simp: authValue_def authKeys_def)

lemma forbidden_authKey: "m \<in> set authKeys \<Longrightarrow> forbiddenKey authKeys m"
  unfolding forbiddenKey_def list_ex_iff by (rule bexI [of _ m]) simp_all

lemma authValue_forbidden: "\<not> forbiddenKey authKeys m \<Longrightarrow> authValue a m = None"
  using authValue_key [of a m] forbidden_authKey by blast

lemma map_of_stripped:
  "map_of (stripAll f secs) k = map_option (\<lambda>ms. fst (stripKeys ms f)) (map_of secs k)"
  by (rule map_of_map_section)

lemma settingOf_store:
  assumes dec: "decodeSections (matchingSections doc ''stringsettings'') = Some secs"
    and new: "\<And>k ms. map_of ss k = Some ms \<Longrightarrow>
      map_of ms m = sectionMember (map_option SectionObject (map_of secs k)) m \<and> EqualFold k ''stringsettings''"
  shows "settingOf (storeSections ss doc) k m = settingOf doc k m"
proof (cases "map_of ss k")
  case None
  then show ?thesis by (simp add: settingOf_def map_of_storeSections split: option.splits)
next
  case (Some ms)
  with new [OF Some] sections_of [OF dec, of k] show ?thesis
    by (simp add: settingOf_def map_of_storeSections sectionMember_def split: option.splits)
qed

lemma patchDoc_member:
  assumes p: "patchDoc doc acct = Inr r" and m: "\<not> forbiddenKey authKeys m"
  shows "settingOf (patched doc r) k m = settingOf doc k m"
proof -
  from p obtain secs where dec: "decodeSections (matchingSections doc ''stringsettings'') = Some secs"
    by (auto simp: patchDoc_def split: option.splits)
  have fold: "EqualFold k ''stringsettings''" if "map_of secs k = Some ms" for k ms
    using sections_of [OF dec, of k] that by (auto split: if_splits)
  show ?thesis
  proof (cases acct)
    case None
    have "settingOf (storeSections (stripAll authKeys secs) doc) k m = settingOf doc k m"
      by (rule settingOf_store [OF dec])
         (use m fold in \<open>auto simp: map_of_stripped map_of_stripKeys sectionMember_def\<close>)
    with p dec None show ?thesis by (auto simp: patchDoc_def Let_def patched_def split: if_splits)
  next
    case (Some a)
    let ?p = "primarySection (stripAll authKeys secs)"
    let ?old = "case map_of (stripAll authKeys secs) ?p of None \<Rightarrow> [] | Some ms \<Rightarrow> ms"
    have "settingOf (storeSections (AList.update ?p (setAuth a ?old) (stripAll authKeys secs)) doc) k m =
        settingOf doc k m"
      by (rule settingOf_store [OF dec])
         (use m fold primarySection_fold in \<open>auto simp: update_conv map_of_stripped map_of_stripKeys
            sectionMember_def map_of_setAuth authValue_forbidden split: if_splits option.splits\<close>)
    with p dec Some show ?thesis by (auto simp: patchDoc_def Let_def patched_def)
  qed
qed

text \<open>What the game reads of an account: one section has its four values, no other has any.\<close>

definition sessionStored :: "account \<Rightarrow> settings_doc \<Rightarrow> bool" where
  "sessionStored a doc = (\<exists>k\<in>{''stringSettings'', ''stringsettings''}.
     list_all (\<lambda>m. settingOf doc k m = authValue a m) authKeys \<and>
     list_all (\<lambda>(k', s). k' = k \<or> freeOf authKeys s) (matchingSections doc ''stringsettings''))"

lemma in_set_updateD: "(k, v) \<in> set (AList.update p x al) \<Longrightarrow> k = p \<and> v = x \<or> (k, v) \<in> set al"
  by (induction al) (auto split: if_splits)

lemma patchDoc_Some_stored:
  assumes "patchDoc doc (Some a) = Inr r"
  shows "\<exists>d. r = Some d \<and> sessionStored a d"
proof -
  from assms obtain secs where dec: "decodeSections (matchingSections doc ''stringsettings'') = Some secs"
    by (auto simp: patchDoc_def split: option.splits)
  let ?st = "stripAll authKeys secs"
  let ?p = "primarySection ?st"
  let ?old = "case map_of ?st ?p of None \<Rightarrow> [] | Some ms \<Rightarrow> ms"
  let ?new = "AList.update ?p (setAuth a ?old) ?st"
  from assms dec have r: "r = Some (storeSections ?new doc)" by (auto simp: patchDoc_def Let_def)
  have "settingOf (storeSections ?new doc) ?p m = authValue a m" if "m \<in> set authKeys" for m
  proof -
    from that authValue_key [of a m] obtain v where "authValue a m = Some v" by auto
    then show ?thesis
      by (simp add: settingOf_def map_of_storeSections update_conv sectionMember_def map_of_setAuth
          split: option.splits)
  qed
  then have vals: "list_all (\<lambda>m. settingOf (storeSections ?new doc) ?p m = authValue a m) authKeys"
    by (simp add: list_all_iff)
  have "k = ?p \<or> freeOf authKeys s" if "(k, s) \<in> set (storeSections ?new doc)" "EqualFold k ''stringsettings''" for k s
  proof (cases "k = ?p")
    case False
    from that(1) consider (old) t where "(k, t) \<in> set doc"
        "s = (case map_of ?new k of None \<Rightarrow> t | Some ms \<Rightarrow> SectionObject ms)"
      | (new) ms where "(k, ms) \<in> set ?new" "s = SectionObject ms"
      by (auto simp: storeSections_def)
    then show ?thesis
    proof cases
      case old
      with sections_key [OF dec old(1) that(2)] False show ?thesis
        by (auto simp: update_conv map_of_stripped freeOf_def stripKeys_free)
    next
      case new
      then have "(k, ms) \<in> set ?st" using False in_set_updateD [of k ms ?p] by blast
      then show ?thesis using new by (auto simp: freeOf_def stripKeys_free)
    qed
  qed simp
  then have "list_all (\<lambda>(k', s). k' = ?p \<or> freeOf authKeys s)
      (matchingSections (storeSections ?new doc) ''stringsettings'')"
    by (auto simp: matchingSections_def list_all_iff)
  moreover have "?p \<in> {''stringSettings'', ''stringsettings''}" by (simp add: primarySection_def)
  ultimately show ?thesis using r vals unfolding sessionStored_def by blast
qed

section \<open>What the operations leave on disk\<close>

text \<open>The calls of the file system only report a missing file when it is missing.\<close>

definition honest :: "lenv \<Rightarrow> bool" where
  "honest E \<longleftrightarrow> (\<forall>n e. le_fault E FileCall n = Some e \<longrightarrow> \<not> isNotExist e)"

definition lateFailure :: "lenv \<Rightarrow> bool" where
  "lateFailure E \<longleftrightarrow> (\<exists>n. le_fault E FileCall n \<noteq> None \<and> le_late E n)"

lemma isNotExist_simps [simp]:
  "isNotExist (OsNotExist t)" "\<not> isNotExist (OtherError t)" "isNotExist (WrapError t e) = isNotExist e"
  by (simp_all add: isNotExist_def)

lemma readSettings_result:
  assumes "readSettings E p w = (r, w')"
  shows "w' = w\<lparr>l_ticks := Suc (l_ticks w)\<rparr> \<and>
    (case r of Inr n \<Rightarrow> map_of (l_files w) p = Some n \<and> n \<noteq> Irregular
     | Inl e \<Rightarrow> honest E \<longrightarrow> isNotExist e \<longrightarrow> map_of (l_files w) p = None)"
  using assms
  by (auto simp: readSettings_def readL_def callL_def honest_def
      split: option.splits settings_node.splits if_splits)

lemma atomicWriteL_result:
  assumes "atomicWriteL E p n w = (r, w')"
  shows "(l_files w' = AList.update p n (l_files w) \<and> (r = Inr () \<or> lateFailure E)) \<or>
    (l_files w' = l_files w \<and> isl r)"
  using assms by (auto simp: atomicWriteL_def Let_def lateFailure_def split: if_splits option.splits)

lemma journal_suffix [simp]: "injectionJournalSuffix \<noteq> []"
  by (simp add: injectionJournalSuffix_def)

lemma removeJournal_result:
  assumes "removeJournal E p w = (r, w')"
  shows "(\<forall>q. q \<noteq> p @ injectionJournalSuffix \<longrightarrow> map_of (l_files w') q = map_of (l_files w) q) \<and>
    (honest E \<longrightarrow> r = Inr () \<longrightarrow> map_of (l_files w') (p @ injectionJournalSuffix) = None)"
  using assms
  by (auto simp: removeJournal_def removeFileL_def catchE_def callL_def honest_def delete_conv
      split: option.splits if_splits prod.splits sum.splits)

lemma removeJournal_keeps:
  "removeJournal E p w = (r, w') \<Longrightarrow> q \<noteq> p @ injectionJournalSuffix \<Longrightarrow>
     map_of (l_files w') q = map_of (l_files w) q"
  using removeJournal_result by blast

text \<open>The setting of a section in the document stored at a path; any other content has none.\<close>

definition fileSetting :: "launch_world \<Rightarrow> string \<Rightarrow> string \<Rightarrow> string \<Rightarrow> json_value option" where
  "fileSetting w p k m = (case map_of (l_files w) p of Some (Settings doc) \<Rightarrow> settingOf doc k m | _ \<Rightarrow> None)"

definition otherSettingsKept :: "string \<Rightarrow> launch_world \<Rightarrow> launch_world \<Rightarrow> bool" where
  "otherSettingsKept p w w' \<longleftrightarrow>
     (\<forall>q. q \<noteq> p \<longrightarrow> q \<noteq> p @ injectionJournalSuffix \<longrightarrow> map_of (l_files w') q = map_of (l_files w) q) \<and>
     (\<forall>k m. \<not> forbiddenKey authKeys m \<longrightarrow> fileSetting w' p k m = fileSetting w p k m)"

lemma otherSettingsKept_refl [simp]: "l_files w' = l_files w \<Longrightarrow> otherSettingsKept p w w'"
  by (simp add: otherSettingsKept_def fileSetting_def)

lemma otherSettingsKept_trans:
  "otherSettingsKept p a b \<Longrightarrow> otherSettingsKept p b c \<Longrightarrow> otherSettingsKept p a c"
  by (simp add: otherSettingsKept_def)

lemma patchDoc_empty:
  "patchDoc [] acct = Inr r \<Longrightarrow> \<not> forbiddenKey authKeys m \<Longrightarrow> settingOf (patched [] r) k m = None"
  using patchDoc_member [of "[]"] by (simp add: settingOf_def sectionMember_def)

lemma stored_keeps:
  assumes "l_files w' = AList.update p (Settings d) (l_files w)"
    and "\<And>k m. \<not> forbiddenKey authKeys m \<Longrightarrow> settingOf d k m = fileSetting w p k m"
  shows "otherSettingsKept p w w'"
  using assms by (simp add: otherSettingsKept_def fileSetting_def update_conv)

text \<open>
  A patch of the document \<open>doc\<close> that is in the file (or of the empty one when there is no
  file): either the file keeps its content and the patch failed or had nothing to do, or the
  file has the patched document.
\<close>

lemma writePatched_result:
  assumes run: "writePatched E p acct doc w = (r, w')"
    and doc: "map_of (l_files w) p = Some (Settings doc) \<or> map_of (l_files w) p = None \<and> doc = []"
  shows "(l_files w' = l_files w \<and> (isl r \<or> patchDoc doc acct = Inr None)) \<or>
    (\<exists>d. patchDoc doc acct = Inr (Some d) \<and> l_files w' = AList.update p (Settings d) (l_files w) \<and>
         (r = Inr () \<or> lateFailure E))"
  using run atomicWriteL_result [of E p _ w r w']
  by (auto simp: writePatched_def split: sum.splits option.splits)

definition docAt :: "launch_world \<Rightarrow> string \<Rightarrow> settings_doc \<Rightarrow> bool" where
  "docAt w p doc \<longleftrightarrow>
     map_of (l_files w) p = Some (Settings doc) \<or> map_of (l_files w) p = None \<and> doc = []"

lemma docAt_setting: "docAt w p doc \<Longrightarrow> fileSetting w p k m = settingOf doc k m"
  by (auto simp: docAt_def fileSetting_def settingOf_def sectionMember_def)

lemma patchDoc_Some_None: "patchDoc doc (Some a) \<noteq> Inr None"
  by (auto simp: patchDoc_def Let_def split: option.splits)

lemma patchClientSettings_result:
  assumes honest: "honest E" and run: "patchClientSettings E p acct w = (r, w')"
  shows "(l_files w' = l_files w \<and> (isl r \<or> acct = None \<and> authFreeNode (map_of (l_files w) p))) \<or>
    (\<exists>doc d. docAt w p doc \<and> patchDoc doc acct = Inr (Some d) \<and>
       l_files w' = AList.update p (Settings d) (l_files w) \<and> (r = Inr () \<or> lateFailure E))"
proof -
  obtain x w1 where read: "readSettings E p w = (x, w1)" by fastforce
  note rd = readSettings_result [OF read]
  then have files: "l_files w1 = l_files w" by simp
  have wp: "?thesis" if dc: "docAt w p doc" and wr: "writePatched E p acct doc w1 = (r, w')" for doc
  proof -
    have "authFreeNode (map_of (l_files w) p) \<and> acct = None" if "patchDoc doc acct = Inr None"
    proof -
      from that have "acct = None" using patchDoc_Some_None [of doc] by (cases acct) auto
      with that dc patchDoc_None_free [of doc None] show ?thesis
        by (auto simp: patched_def docAt_def authFreeNode_def)
    qed
    with writePatched_result [OF wr] dc files show ?thesis unfolding docAt_def by auto
  qed
  show ?thesis
  proof (cases x)
    case (Inl e)
    show ?thesis
    proof (cases "isNotExist e")
      case True
      with rd Inl honest have absent: "map_of (l_files w) p = None" by simp
      then have dc: "docAt w p []" by (simp add: docAt_def)
      show ?thesis
      proof (cases "acct = None")
        case True
        with run read Inl \<open>isNotExist e\<close> files absent show ?thesis
          by (auto simp: patchClientSettings_def catchE_def authFreeNode_def)
      next
        case False
        with run read Inl \<open>isNotExist e\<close> have "writePatched E p acct [] w1 = (r, w')"
          by (simp add: patchClientSettings_def catchE_def)
        then show ?thesis by (rule wp [OF dc])
      qed
    next
      case False
      with run read Inl files show ?thesis by (auto simp: patchClientSettings_def catchE_def)
    qed
  next
    case (Inr n)
    show ?thesis
    proof (cases n)
      case (Settings doc)
      with rd run read Inr have "docAt w p doc" "writePatched E p acct doc w1 = (r, w')"
        by (simp_all add: patchClientSettings_def catchE_def docAt_def)
      then show ?thesis by (rule wp)
    qed (use rd run read files Inr in \<open>auto simp: patchClientSettings_def catchE_def\<close>)
  qed
qed

lemma patch_frame:
  assumes "honest E" "patchClientSettings E p acct w = (r, w')"
  shows "otherSettingsKept p w w'" and "q \<noteq> p \<Longrightarrow> map_of (l_files w') q = map_of (l_files w) q"
proof -
  from patchClientSettings_result [OF assms] consider (same) "l_files w' = l_files w"
    | (stored) doc d where "docAt w p doc" "patchDoc doc acct = Inr (Some d)"
        "l_files w' = AList.update p (Settings d) (l_files w)" by auto
  then show kept: "otherSettingsKept p w w'"
  proof cases
    case stored
    show ?thesis
      by (rule stored_keeps [OF stored(3)])
         (use patchDoc_member [OF stored(2)] docAt_setting [OF stored(1)] in \<open>simp add: patched_def\<close>)
  qed simp
  from patchClientSettings_result [OF assms]
  show "q \<noteq> p \<Longrightarrow> map_of (l_files w') q = map_of (l_files w) q"
    by (auto simp: update_conv)
qed

lemma patch_None_free:
  assumes "honest E" "patchClientSettings E p None w = (r, w')"
  shows "r = Inr () \<Longrightarrow> authFreeNode (map_of (l_files w') p)"
    and "map_of (l_files w') p = map_of (l_files w) p \<or> authFreeNode (map_of (l_files w') p)"
proof -
  have free: "authFree d" if "patchDoc doc None = Inr (Some d)" for doc d
    using patchDoc_None_free [OF that] by (simp add: patched_def)
  show "authFreeNode (map_of (l_files w') p)" if "r = Inr ()"
    using patchClientSettings_result [OF assms] that free
    by (auto simp: authFreeNode_def update_conv)
  show "map_of (l_files w') p = map_of (l_files w) p \<or> authFreeNode (map_of (l_files w') p)"
    using patchClientSettings_result [OF assms] free by (auto simp: authFreeNode_def update_conv)
qed

lemma removeJournal_kept: "removeJournal E p w = (r, w') \<Longrightarrow> otherSettingsKept p w w'"
  using removeJournal_keeps [of E p w r w'] by (simp add: otherSettingsKept_def fileSetting_def)

text \<open>After the credentials have been removed: no session in the file and no journal.\<close>

definition signedOut :: "launch_world \<Rightarrow> string \<Rightarrow> bool" where
  "signedOut w p \<longleftrightarrow> authFreeNode (map_of (l_files w) p) \<and>
     map_of (l_files w) (p @ injectionJournalSuffix) = None"

lemma cleanupInjected_result:
  assumes h: "honest E" and run: "cleanupInjected E p w = (r, w')"
  shows "otherSettingsKept p w w' \<and> (r = Inr () \<longrightarrow> signedOut w' p) \<and>
    (map_of (l_files w') p = map_of (l_files w) p \<or> authFreeNode (map_of (l_files w') p))"
proof -
  obtain x w1 where p1: "patchClientSettings E p None w = (x, w1)" by fastforce
  note kept = patch_frame(1) [OF h p1]
  show ?thesis
  proof (cases x)
    case (Inl e)
    with run p1 have "w' = w1" "r = Inl e" by (simp_all add: cleanupInjected_def bindE_def)
    with kept patch_None_free(2) [OF h p1] show ?thesis by simp
  next
    case (Inr u)
    with run p1 have j: "removeJournal E p w1 = (r, w')" by (simp add: cleanupInjected_def bindE_def)
    have "authFreeNode (map_of (l_files w1) p)" using patch_None_free(1) [OF h p1] Inr by simp
    then have free: "authFreeNode (map_of (l_files w') p)"
      using removeJournal_keeps [OF j, of p] by simp
    moreover have "r = Inr () \<longrightarrow> map_of (l_files w') (p @ injectionJournalSuffix) = None"
      using removeJournal_result [OF j] h by simp
    moreover have "otherSettingsKept p w w'"
      using kept removeJournal_kept [OF j] by (rule otherSettingsKept_trans)
    ultimately show ?thesis by (simp add: signedOut_def)
  qed
qed

lemma ClearSettings_result:
  assumes h: "honest E" and run: "ClearSettings E p w = (r, w')"
  shows "otherSettingsKept p w w' \<and> (r = Inr () \<longrightarrow> signedOut w' p)"
proof -
  let ?stat = "readL E FileCall (\<lambda>w. if map_of (l_files w) p = None
      then Inl (OsNotExist ''no such file or directory'') else Inr ())"
  obtain x w1 where st: "?stat w = (x, w1)" by fastforce
  have files: "l_files w1 = l_files w"
    using st by (auto simp: readL_def callL_def split: option.splits)
  then have same: "otherSettingsKept p w w1" by simp
  have absent: "map_of (l_files w) p = None" if "x = Inl e" "isNotExist e" for e
    using st that h by (auto simp: readL_def callL_def honest_def split: option.splits if_splits)
  show ?thesis
  proof (cases "\<exists>e. x = Inl e \<and> isNotExist e")
    case True
    with run st have j: "removeJournal E p w1 = (r, w')"
      by (auto simp: ClearSettings_def catchE_def)
    from True absent files have "map_of (l_files w1) p = None" by auto
    with removeJournal_keeps [OF j, of p] removeJournal_result [OF j] h
    have "r = Inr () \<longrightarrow> signedOut w' p" by (simp add: signedOut_def authFreeNode_def)
    with removeJournal_kept [OF j] same otherSettingsKept_trans show ?thesis by blast
  next
    case False
    with run st have "cleanupInjected E p w1 = (r, w')"
      by (auto simp: ClearSettings_def catchE_def split: sum.splits if_splits)
    from cleanupInjected_result [OF h this] same otherSettingsKept_trans show ?thesis by blast
  qed
qed

text \<open>
  C26 (safety).  When \<open>Clear\<close> (or \<open>Reconcile\<close>, or the cleanup of an injection) returns without an
  error, the settings file holds no session value under any spelling of its section and the
  journal is gone, whatever the file held before; every other setting and every other file is
  unchanged, and unchanged also when it fails.
\<close>

theorem clear_removes_credentials:
  assumes "honest E"
  shows "(fst (ClearSettings E p w) = Inr () \<longrightarrow> signedOut (snd (ClearSettings E p w)) p) \<and>
    (fst (cleanupInjected E p w) = Inr () \<longrightarrow> signedOut (snd (cleanupInjected E p w)) p) \<and>
    otherSettingsKept p w (snd (ClearSettings E p w)) \<and>
    otherSettingsKept p w (snd (cleanupInjected E p w))"
  using ClearSettings_result [OF assms] cleanupInjected_result [OF assms]
  by (metis prod.collapse)

text \<open>Injection.\<close>

lemma Inject_result:
  assumes h: "honest E" and run: "Inject E p a w = (r, w')"
  shows "otherSettingsKept p w w' \<and>
    (r = Inr () \<longrightarrow> (\<exists>d. map_of (l_files w') p = Some (Settings d) \<and> sessionStored a d) \<and>
       map_of (l_files w') (p @ injectionJournalSuffix) = Some (injectionJournal (l_now w))) \<and>
    (isl r \<longrightarrow> map_of (l_files w') p = map_of (l_files w) p \<or> authFreeNode (map_of (l_files w') p) \<or>
       lateFailure E)"
proof -
  let ?J = "p @ injectionJournalSuffix"
  obtain x w1 where jw: "atomicWriteL E ?J (injectionJournal (l_now w)) w = (x, w1)" by fastforce
  have l1: "l_files w1 = AList.update ?J (injectionJournal (l_now w)) (l_files w) \<or> l_files w1 = l_files w \<and> isl x"
    using atomicWriteL_result [OF jw] by auto
  have k1: "otherSettingsKept p w w1" and p1: "map_of (l_files w1) p = map_of (l_files w) p"
    using l1 by (auto simp: otherSettingsKept_def fileSetting_def update_conv)
  show ?thesis
  proof (cases x)
    case (Inl e)
    with run jw k1 p1 show ?thesis by (auto simp: Inject_def nowL_def catchE_def bindE_def)
  next
    case (Inr u)
    with l1 have j1: "map_of (l_files w1) ?J = Some (injectionJournal (l_now w))" by (simp add: update_conv)
    obtain y w2 where pw: "patchClientSettings E p (Some a) w1 = (y, w2)" by fastforce
    note pf = patch_frame [OF h pw] and pr = patchClientSettings_result [OF h pw]
    show ?thesis
    proof (cases y)
      case (Inr v)
      with run jw \<open>x = Inr u\<close> pw have w': "w' = w2" "r = Inr ()"
        by (simp_all add: Inject_def nowL_def catchE_def bindE_def)
      from pr Inr obtain doc d where "patchDoc doc (Some a) = Inr (Some d)"
        "l_files w2 = AList.update p (Settings d) (l_files w1)" by auto
      with patchDoc_Some_stored [of doc a] have
        "\<exists>d. map_of (l_files w2) p = Some (Settings d) \<and> sessionStored a d" by (auto simp: update_conv)
      moreover have "map_of (l_files w2) ?J = Some (injectionJournal (l_now w))"
        using pf(2) [of ?J] j1 by simp
      ultimately show ?thesis
        using w' otherSettingsKept_trans [OF k1 pf(1)] by simp
    next
      case (Inl e)
      obtain z w3 where cw: "patchClientSettings E p None w2 = (z, w3)" by fastforce
      note cf = patch_frame [OF h cw] and cn = patch_None_free(2) [OF h cw]
      obtain v w4 where rw: "removeFileL E ?J w3 = (v, w4)" by fastforce
      have l4: "q \<noteq> ?J \<Longrightarrow> map_of (l_files w4) q = map_of (l_files w3) q" for q
        using rw by (auto simp: removeFileL_def callL_def delete_conv split: option.splits if_splits)
      from run jw \<open>x = Inr u\<close> pw Inl cw rw have w': "w' = w4" "r = Inl e"
        by (simp_all add: Inject_def nowL_def catchE_def bindE_def ignoreL_def)
      have "otherSettingsKept p w3 w4" using l4 by (simp add: otherSettingsKept_def fileSetting_def)
      with k1 pf(1) cf(1) have kept: "otherSettingsKept p w w4" by (blast intro: otherSettingsKept_trans)
      have "map_of (l_files w2) p = map_of (l_files w) p \<or> lateFailure E"
        using pr p1 Inl by auto
      with cn l4 [of p] kept w' show ?thesis by auto
    qed
  qed
qed

text \<open>
  C27 (safety).  After a successful injection exactly one section of the file holds the four
  session values of the account, no other spelling of the section holds any, and the journal of
  a crash is in place.  A failed injection leaves the old file or one without a session, unless a
  write failed after replacing the file.  Every other setting and file is unchanged either way.
\<close>

theorem inject_writes_session:
  assumes "honest E"
  shows "(fst (Inject E p a w) = Inr () \<longrightarrow>
      (\<exists>d. map_of (l_files (snd (Inject E p a w))) p = Some (Settings d) \<and> sessionStored a d) \<and>
      map_of (l_files (snd (Inject E p a w))) (p @ injectionJournalSuffix) =
        Some (injectionJournal (l_now w))) \<and>
    (isl (fst (Inject E p a w)) \<longrightarrow>
      map_of (l_files (snd (Inject E p a w))) p = map_of (l_files w) p \<or>
      authFreeNode (map_of (l_files (snd (Inject E p a w))) p) \<or> lateFailure E) \<and>
    otherSettingsKept p w (snd (Inject E p a w))"
  using Inject_result [OF assms, of p a w] by (metis prod.collapse)

section \<open>What the sanitiser removes and keeps\<close>

definition sanitized :: "string list \<Rightarrow> json_section \<Rightarrow> json_section" where
  "sanitized forbidden s =
     (case s of SectionObject ms \<Rightarrow> SectionObject (fst (stripKeys ms forbidden)) | _ \<Rightarrow> s)"

definition rawSection :: "json_section \<Rightarrow> bool" where
  "rawSection s = (case s of SectionOther _ \<Rightarrow> True | _ \<Rightarrow> False)"

definition objectsOnly :: "string \<Rightarrow> settings_doc \<Rightarrow> bool" where
  "objectsOnly name doc = list_all (\<lambda>(_, s). \<not> rawSection s) (matchingSections doc name)"

definition sanitizeDoc :: "string \<Rightarrow> string list \<Rightarrow> settings_doc \<Rightarrow> settings_doc" where
  "sanitizeDoc name forbidden doc = map (\<lambda>(k, s). (k, if EqualFold k name then sanitized forbidden s else s)) doc"

lemma sanitizeSections_spec:
  "sanitizeSections name forbidden problem doc =
     (if objectsOnly name doc then Inr (sanitizeDoc name forbidden doc) else Inl (OtherError problem))"
  by (induction name forbidden problem doc rule: sanitizeSections.induct)
     (auto simp: objectsOnly_def sanitizeDoc_def sanitized_def matchingSections_def rawSection_def
       split: sum.splits json_section.splits if_splits)

lemma strip_idem: "stripKeys (fst (stripKeys ms f)) f = (fst (stripKeys ms f), False)"
  by (auto simp: stripKeys_def list_ex_iff)

lemma sanitized_idem [simp]: "sanitized f (sanitized f s) = sanitized f s"
  by (cases s) (simp_all add: sanitized_def strip_idem)

lemma sanitized_free: "freeOf f (sanitized f s)"
  by (cases s) (simp_all add: sanitized_def freeOf_def stripKeys_free)

lemma sanitized_other [simp]: "rawSection (sanitized f s) = rawSection s"
  by (cases s) (simp_all add: sanitized_def rawSection_def)

lemma sanitizeDoc_idem [simp]: "sanitizeDoc n f (sanitizeDoc n f doc) = sanitizeDoc n f doc"
  by (simp add: sanitizeDoc_def split_def)

lemma sanitizeDoc_commute:
  assumes "\<And>k. \<not> (EqualFold k n \<and> EqualFold k n')"
  shows "sanitizeDoc n f (sanitizeDoc n' f' doc) = sanitizeDoc n' f' (sanitizeDoc n f doc)"
  using assms by (auto simp: sanitizeDoc_def split_def)

lemma objectsOnly_sanitizeDoc [simp]: "objectsOnly n (sanitizeDoc n' f doc) = objectsOnly n doc"
  by (induction doc) (auto simp: objectsOnly_def sanitizeDoc_def matchingSections_def split: if_splits)

lemma sections_differ: "\<not> (EqualFold k ''stringsettings'' \<and> EqualFold k ''stringlistsettings'')"
proof -
  have "\<not> EqualFold ''stringsettings'' ''stringlistsettings''" by code_simp
  then show ?thesis using EqualFold_trans EqualFold_sym by blast
qed

definition sanitizedBoth :: "settings_doc \<Rightarrow> settings_doc" where
  "sanitizedBoth doc = sanitizeDoc ''stringlistsettings'' sensitiveStringListKeys
     (sanitizeDoc ''stringsettings'' sensitiveStringKeys doc)"

lemma Sanitize_spec:
  "SanitizeClientSettings (Settings doc) = Inr n \<Longrightarrow> n = Settings (sanitizedBoth doc) \<and>
     objectsOnly ''stringsettings'' doc \<and> objectsOnly ''stringlistsettings'' doc"
  by (auto simp: SanitizeClientSettings_def sanitizeSections_spec sanitizedBoth_def split: if_splits)

lemma Sanitize_ok:
  "objectsOnly ''stringsettings'' doc \<Longrightarrow> objectsOnly ''stringlistsettings'' doc \<Longrightarrow>
     SanitizeClientSettings (Settings doc) = Inr (Settings (sanitizedBoth doc))"
  by (simp add: SanitizeClientSettings_def sanitizeSections_spec sanitizedBoth_def)

lemma sanitizedBoth_idem [simp]: "sanitizedBoth (sanitizedBoth doc) = sanitizedBoth doc"
  unfolding sanitizedBoth_def
  by (subst sanitizeDoc_commute) (use sections_differ in \<open>auto\<close>)

lemma sanitizedBoth_eq: "sanitizedBoth doc = map (\<lambda>(k, s). (k,
    if EqualFold k ''stringsettings'' then sanitized sensitiveStringKeys s
    else if EqualFold k ''stringlistsettings'' then sanitized sensitiveStringListKeys s else s)) doc"
  using sections_differ by (auto simp: sanitizedBoth_def sanitizeDoc_def split_def)

text \<open>Which members of a section must not leave the machine.\<close>

definition sensitiveMember :: "string \<Rightarrow> string \<Rightarrow> bool" where
  "sensitiveMember k m \<longleftrightarrow> EqualFold k ''stringsettings'' \<and> forbiddenKey sensitiveStringKeys m \<or>
     EqualFold k ''stringlistsettings'' \<and> forbiddenKey sensitiveStringListKeys m"

lemma map_of_map_value: "map_of (map (\<lambda>(k, s). (k, f k s)) xs) k = map_option (f k) (map_of xs k)"
  by (induction xs) auto

lemma sectionMember_sanitized:
  "sectionMember (map_option (sanitized f) s) m = (if forbiddenKey f m then None else sectionMember s m)"
  by (cases s; cases "the s") (auto simp: sectionMember_def sanitized_def map_of_stripKeys)

lemma settingOf_sanitizedBoth:
  "settingOf (sanitizedBoth doc) k m = (if sensitiveMember k m then None else settingOf doc k m)"
  using sections_differ [of k]
  by (cases "EqualFold k ''stringsettings''"; cases "EqualFold k ''stringlistsettings''")
     (simp_all add: settingOf_def sanitizedBoth_eq map_of_map_value sensitiveMember_def
       sectionMember_sanitized option.map_ident)


section \<open>Witnesses\<close>

text \<open>An environment in which no call fails, and a signed-in instance.\<close>

definition plainEnv :: lenv where
  "plainEnv = \<lparr>le_fault = (\<lambda>k n. None), le_late = (\<lambda>n. False), le_new_id = (\<lambda>n. Itoa (int n)),
     le_pid = int, le_size = (\<lambda>n. 100), le_login = (\<lambda>n e p c t. (Inl NotFoundError, None)),
     le_validate = (\<lambda>n u k. Inr True), le_dotnet = None, le_environ = [], le_patchelf = True,
     le_find_executable = (\<lambda>d. Inl NotFoundError), le_optimum = (\<lambda>n p v. Inl NotFoundError),
     le_has_optitime = (\<lambda>d. Inr False), le_telemetry = True\<rparr>"

definition emptyLaunch :: launch_world where
  "emptyLaunch = \<lparr>l_gate = newGate, l_registry = NewRegistry newSlot, l_instances = [], l_versions = [],
     l_accounts = [], l_keyring = [], l_pending = [], l_flows = [], l_files = [], l_binaries = [],
     l_directories = [], l_logs = [], l_processes = [], l_sessions = [], l_operations = NewManager [],
     l_settings = \<lparr>st_arguments = [], st_optimum = []\<rparr>, l_events = [], l_presence = [], l_recovery = [],
     l_reports = [], l_now = 0, l_ticks = 0\<rparr>"

definition signedIn :: launch_world where
  "signedIn = emptyLaunch\<lparr>l_files := [(''/i/clientsettings.json'',
     Settings [(''stringSettings'', SectionObject [(''SessionKey'', JString ''k''), (''language'', JString ''en'')])])]\<rparr>"

definition sampleAccount :: account where
  "sampleAccount = \<lparr>ac_id = ''a'', ac_username = ''player'', ac_display = ''player'', ac_email = ''p@q'',
     ac_uid = ''u'', ac_session_key = ''key'', ac_session_signature = ''sig'', ac_status = ''valid'',
     ac_default = True, ac_created = 0, ac_updated = 0, ac_validated = None\<rparr>"

lemma honest_plainEnv: "honest plainEnv"
  by (simp add: honest_def plainEnv_def)

theorem clear_removes_credentials_witness:
  "signedOut (snd (ClearSettings plainEnv ''/i/clientsettings.json'' signedIn)) ''/i/clientsettings.json''"
proof -
  have "fst (ClearSettings plainEnv ''/i/clientsettings.json'' signedIn) = Inr ()" by code_simp
  then show ?thesis
    using clear_removes_credentials [OF honest_plainEnv, of "''/i/clientsettings.json''" signedIn] by blast
qed

theorem inject_writes_session_witness:
  "\<exists>d. map_of (l_files (snd (Inject plainEnv ''/i/clientsettings.json'' sampleAccount signedIn)))
        ''/i/clientsettings.json'' = Some (Settings d) \<and> sessionStored sampleAccount d"
proof -
  have "fst (Inject plainEnv ''/i/clientsettings.json'' sampleAccount signedIn) = Inr ()" by code_simp
  then show ?thesis
    using inject_writes_session [OF honest_plainEnv, of "''/i/clientsettings.json''" sampleAccount signedIn]
    by blast
qed

end
