(* ===== verification/Accounts.thy ===== *)
theory Accounts
  imports ClientSettings
begin

text \<open>
  Package \<open>internal/accounts\<close> with its stores: the table \<open>accounts\<close>
  (\<open>platform/sqlite/accounts.go\<close>), the key store of the operating system and the journal of
  pending commits (\<open>platform/credentials/store.go\<close>, \<open>codec.go\<close>, \<open>pending.go\<close>).  The
  authentication server is \<open>le_login\<close> and \<open>le_validate\<close>; the failures of the key store are
  \<open>le_fault E KeyringCall\<close>, already classified as by \<open>mapStoreError\<close>.  \<open>persistMu\<close> and
  \<open>flowMu\<close> make \<open>persistSession\<close> and the accesses to the flows atomic.
\<close>

abbreviation "AccountValid \<equiv> ''valid''"
abbreviation "AccountExpired \<equiv> ''expired''"
abbreviation "AccountNeedsReauth \<equiv> ''needs_reauth''"

abbreviation "ErrInvalidCredentials \<equiv> OtherError ''invalid credentials''"
abbreviation "ErrTOTPRequired \<equiv> OtherError ''totp required''"
abbreviation "ErrIPChanged \<equiv> OtherError ''ip changed''"
abbreviation "ErrTemporarilyBlocked \<equiv> OtherError ''temporarily blocked''"
abbreviation "ErrInvalidAuthReply \<equiv> OtherError ''invalid auth response''"
abbreviation "ErrAuthNetworkFailure \<equiv> OtherError ''auth network error''"
abbreviation "ErrAuthServerFailure \<equiv> OtherError ''auth server error''"
abbreviation "ErrCredentialsNotFound \<equiv> OtherError ''account secret not found''"
abbreviation "ErrStoreLocked \<equiv> OtherError ''credential store locked''"
abbreviation "ErrStoreUnavailable \<equiv> OtherError ''credential store unavailable''"
abbreviation "ErrStoreUnlockFailed \<equiv> OtherError ''credential store unlock failed''"
abbreviation "ErrStoreDesktopSession \<equiv> OtherError ''credential store desktop session unavailable''"
abbreviation "ErrStoreUnknown \<equiv> OtherError ''unknown credential store failure''"
abbreviation "ErrPermissionDenied \<equiv> OtherError ''credential store permission denied''"
abbreviation "ErrCorruptCredentials \<equiv> OtherError ''stored account secret is corrupt''"

section \<open>The table of accounts\<close>

definition safeAccount :: "account \<Rightarrow> account" where
  "safeAccount a = a\<lparr>ac_session_key := [], ac_session_signature := []\<rparr>"

definition listAccountRows :: "lenv \<Rightarrow> account list launch" where
  "listAccountRows E = readL E DatabaseCall (\<lambda>w.
     let rows = sort_key ac_display (l_accounts w)
     in Inr (filter ac_default rows @ filter (\<lambda>a. \<not> ac_default a) rows))"

definition getAccountRow :: "lenv \<Rightarrow> string \<Rightarrow> account launch" where
  "getAccountRow E i = readL E DatabaseCall (\<lambda>w.
     case find (\<lambda>a. ac_id a = i) (l_accounts w) of
       None \<Rightarrow> Inl (NewError ErrAccountNotFound ''Account not found'')
     | Some a \<Rightarrow> Inr a)"

text \<open>The columns hold no session; the creation time of a stored row stays.\<close>

fun upsertAccount :: "account \<Rightarrow> account list \<Rightarrow> account list" where
  "upsertAccount new [] = [safeAccount new]"
| "upsertAccount new (row # rows) =
     (if ac_id row = ac_id new then (safeAccount new)\<lparr>ac_created := ac_created row\<rparr> # rows
      else row # upsertAccount new rows)"

definition saveAccountRow :: "lenv \<Rightarrow> account \<Rightarrow> unit launch" where
  "saveAccountRow E a = callL E DatabaseCall (\<lambda>w.
     (Inr (), w\<lparr>l_accounts := upsertAccount a (l_accounts w)\<rparr>))"

definition clearDefaults :: "account list \<Rightarrow> account list" where
  "clearDefaults = map (\<lambda>a. a\<lparr>ac_default := False\<rparr>)"

definition saveAccountAndSelect :: "lenv \<Rightarrow> account \<Rightarrow> bool \<Rightarrow> unit launch" where
  "saveAccountAndSelect E a select = callL E DatabaseCall (\<lambda>w.
     (Inr (), w\<lparr>l_accounts :=
        (if select then upsertAccount (a\<lparr>ac_default := True\<rparr>) (clearDefaults (l_accounts w))
         else upsertAccount a (l_accounts w))\<rparr>))"

definition setDefaultAccount :: "lenv \<Rightarrow> string \<Rightarrow> unit launch" where
  "setDefaultAccount E i = callL E DatabaseCall (\<lambda>w.
     (if list_ex (\<lambda>a. ac_id a = i) (l_accounts w)
      then (Inr (), w\<lparr>l_accounts := map (\<lambda>a. a\<lparr>ac_default := (ac_id a = i)\<rparr>) (l_accounts w)\<rparr>)
      else (Inl (NewError ErrAccountNotFound ''Account not found''), w)))"

text \<open>The foreign keys of instances and sessions are set to \<open>NULL\<close>.\<close>

definition dropReference :: "string \<Rightarrow> string option \<Rightarrow> string option" where
  "dropReference i r = (if r = Some i then None else r)"

definition deleteAccountRow :: "lenv \<Rightarrow> string \<Rightarrow> unit launch" where
  "deleteAccountRow E i = callL E DatabaseCall (\<lambda>w.
     (if list_ex (\<lambda>a. ac_id a = i) (l_accounts w)
      then (Inr (), w\<lparr>l_accounts := filter (\<lambda>a. ac_id a \<noteq> i) (l_accounts w),
              l_instances := map (\<lambda>r. r\<lparr>gi_account := dropReference i (gi_account r)\<rparr>) (l_instances w),
              l_sessions := map (\<lambda>s. s\<lparr>ps_account := dropReference i (ps_account s)\<rparr>) (l_sessions w)\<rparr>)
      else (Inl (NewError ErrAccountNotFound ''Account not found''), w)))"

section \<open>The key store and the journal of pending commits\<close>

definition validateRequest :: "string \<Rightarrow> unit launch" where
  "validateRequest i =
     (if i = [] \<or> length i > 128 \<or> list_ex (\<lambda>c. c \<in> {CHR 0x00, CHR 0x0D, CHR 0x0A}) i
      then throwE (WrapError ''invalid account identifier'' ErrPermissionDenied) else returnE ())"

definition credentialGet :: "lenv \<Rightarrow> string \<Rightarrow> credential launch" where
  "credentialGet E i = bindE (validateRequest i) (\<lambda>_. readL E KeyringCall (\<lambda>w.
     case map_of (l_keyring w) i of
       None \<Rightarrow> Inl ErrCredentialsNotFound
     | Some None \<Rightarrow> Inl ErrCorruptCredentials
     | Some (Some c) \<Rightarrow> if cr_key c = [] \<or> cr_signature c = [] then Inl ErrCorruptCredentials else Inr c))"

definition credentialSet :: "lenv \<Rightarrow> string \<Rightarrow> credential \<Rightarrow> unit launch" where
  "credentialSet E i c = bindE (validateRequest i) (\<lambda>_.
     if cr_key c = [] \<or> cr_signature c = [] then throwE ErrCorruptCredentials
     else callL E KeyringCall (\<lambda>w. (Inr (), w\<lparr>l_keyring := AList.update i (Some c) (l_keyring w)\<rparr>)))"

definition credentialDelete :: "lenv \<Rightarrow> string \<Rightarrow> unit launch" where
  "credentialDelete E i = bindE (validateRequest i) (\<lambda>_. callL E KeyringCall (\<lambda>w.
     (if map_of (l_keyring w) i = None then (Inl ErrCredentialsNotFound, w)
      else (Inr (), w\<lparr>l_keyring := AList.delete i (l_keyring w)\<rparr>))))"

definition loadPending :: "lenv \<Rightarrow> string list launch" where
  "loadPending E = readL E FileCall (\<lambda>w. Inr (l_pending w))"

definition savePending :: "lenv \<Rightarrow> string list \<Rightarrow> unit launch" where
  "savePending E ids = (\<lambda>w.
     (let w' = w\<lparr>l_ticks := Suc (l_ticks w)\<rparr>
      in case le_fault E FileCall (l_ticks w) of
           None \<Rightarrow> (Inr (), w'\<lparr>l_pending := ids\<rparr>)
         | Some e \<Rightarrow> (Inl e, if le_late E (l_ticks w) then w'\<lparr>l_pending := ids\<rparr> else w')))"

definition MarkPending :: "lenv \<Rightarrow> string \<Rightarrow> unit launch" where
  "MarkPending E i = bindE (validateRequest i) (\<lambda>_. bindE (loadPending E) (\<lambda>ids.
     if i \<in> set ids then returnE () else savePending E (ids @ [i])))"

text \<open>An empty journal is removed; removing a missing one is no error.\<close>

definition removePending :: "lenv \<Rightarrow> unit launch" where
  "removePending E = catchE (callL E FileCall (\<lambda>w. (Inr (), w\<lparr>l_pending := []\<rparr>))) (\<lambda>r. case r of
     Inl e \<Rightarrow> if isNotExist e then returnE () else throwE e | Inr _ \<Rightarrow> returnE ())"

definition ClearPending :: "lenv \<Rightarrow> string \<Rightarrow> unit launch" where
  "ClearPending E i = bindE (loadPending E) (\<lambda>ids.
     let filtered = filter (\<lambda>x. x \<noteq> i) ids
     in if filtered = [] then removePending E else savePending E filtered)"

definition ReconcilePending :: "lenv \<Rightarrow> string list \<Rightarrow> unit launch" where
  "ReconcilePending E known = bindE (loadPending E) (\<lambda>ids.
     bindE (forE ids (\<lambda>i.
       if i \<in> set known then returnE ()
       else catchE (credentialDelete E i) (\<lambda>r. case r of
              Inl e \<Rightarrow> if errIs e ErrCredentialsNotFound then returnE () else throwE e
            | Inr _ \<Rightarrow> returnE ())))
     (\<lambda>_. removePending E))"

section \<open>Errors\<close>

definition storeMessage :: "string \<Rightarrow> go_error \<Rightarrow> string" where
  "storeMessage message e =
     (if errIs e ErrStoreLocked
        then ''The system credential store is locked. Unlock the desktop keyring and try again.''
      else if errIs e ErrStoreUnlockFailed
        then ''The system credential store is locked and could not be unlocked. On Linux desktop environments such as COSMIC, this can happen when the session login manager does not automatically unlock the system keyring.''
      else if errIs e ErrPermissionDenied
        then ''Waxlight does not have permission to access the system credential store.''
      else if errIs e ErrStoreDesktopSession
        then ''Waxlight could not connect to the desktop session D-Bus. Start Waxlight from an active desktop session and try again.''
      else if errIs e ErrStoreUnavailable
        then ''No system credential store is available. Make sure a Secret Service provider is installed and running in this desktop session.''
      else if errIs e ErrStoreUnknown
        then ''An unknown system credential-store error occurred. Check that the desktop keyring service is working and try again.''
      else if errIs e ErrCorruptCredentials
        then ''The saved account session is corrupt and must be replaced''
      else message)"

definition credentialStoreError :: "string \<Rightarrow> go_error \<Rightarrow> go_error" where
  "credentialStoreError message e = AppError ErrSecretStorage (storeMessage message e)
     (errIs e ErrStoreLocked \<or> errIs e ErrStoreUnlockFailed \<or> errIs e ErrStoreDesktopSession \<or>
      errIs e ErrStoreUnavailable) (Some e)"

definition mapAuthError :: "go_error \<Rightarrow> go_error" where
  "mapAuthError e =
     (if errIs e ErrAuthNetworkFailure
        then AppError ErrAuthNetwork ''Could not connect to the Vintage Story authentication server'' True None
      else if errIs e ErrAuthServerFailure
        then AppError ErrAuthServer ''The Vintage Story authentication server is unavailable'' True None
      else if errIs e ErrInvalidAuthReply
        then NewError ErrAuthInvalidResponse ''The authentication server returned an invalid response''
      else NewError ErrAuthInvalidResponse ''Could not validate the account session'')"

definition reportFailure :: "lenv \<Rightarrow> go_error \<Rightarrow> unit launch" where
  "reportFailure E e =
     (if errIs e ErrAuthNetworkFailure \<or> errIs e ErrAuthServerFailure then reportL E AuthUnavailable
      else returnE ())"

section \<open>Signing in\<close>

record login_result =
  lr_status :: string
  lr_account :: "account option"
  lr_flow :: string

definition loginStatus :: "string \<Rightarrow> login_result" where
  "loginStatus s = \<lparr>lr_status = s, lr_account = None, lr_flow = []\<rparr>"

definition loginFailure :: "go_error \<Rightarrow> login_result" where
  "loginFailure e = loginStatus
     (if errIs e ErrInvalidCredentials then ''invalid_credentials''
      else if errIs e ErrIPChanged then ''ip_changed''
      else if errIs e ErrTemporarilyBlocked then ''temporarily_blocked''
      else if errIs e ErrAuthNetworkFailure then ''network_error''
      else if errIs e ErrAuthServerFailure then ''server_error''
      else if errIs e ErrInvalidAuthReply then ''invalid_response''
      else ''unknown_error'')"

definition clearPending :: "lenv \<Rightarrow> string \<Rightarrow> unit launch" where
  "clearPending E i = ignoreL (ClearPending E i)"

definition rollbackCredential :: "lenv \<Rightarrow> string \<Rightarrow> credential option \<Rightarrow> unit launch" where
  "rollbackCredential E i previous = ignoreL
     (case previous of Some c \<Rightarrow> credentialSet E i c | None \<Rightarrow> credentialDelete E i)"

text \<open>The account a session belongs to: the expected one, or the one with its player, or none.\<close>

definition sessionAccount :: "lenv \<Rightarrow> string \<Rightarrow> login_answer \<Rightarrow> account list \<Rightarrow> account option option launch" where
  "sessionAccount E expected answer stored =
     (let candidate = find (\<lambda>a. ac_uid a = la_uid answer \<and> ac_uid a \<noteq> []) stored
      in if expected = [] then returnE (Some candidate)
         else bindE (getAccountRow E expected) (\<lambda>a.
           if ac_uid a \<noteq> [] \<and> ac_uid a \<noteq> la_uid answer then returnE None
           else returnE (Some (Some a))))"

definition blankAccount :: "string \<Rightarrow> time \<Rightarrow> bool \<Rightarrow> account" where
  "blankAccount i now isDefault = \<lparr>ac_id = i, ac_username = [], ac_display = [], ac_email = [], ac_uid = [],
     ac_session_key = [], ac_session_signature = [], ac_status = [], ac_default = isDefault,
     ac_created = now, ac_updated = now, ac_validated = None\<rparr>"

definition signedAccount :: "account \<Rightarrow> string \<Rightarrow> login_answer \<Rightarrow> time \<Rightarrow> account" where
  "signedAccount a email answer now = a\<lparr>ac_username := la_name answer, ac_display := la_name answer,
     ac_email := email, ac_uid := la_uid answer, ac_status := AccountValid, ac_updated := now,
     ac_validated := Some now\<rparr>"

text \<open>The stored session of the account before the sign-in; a missing one is no error.\<close>

definition storedCredential :: "lenv \<Rightarrow> string \<Rightarrow> string \<Rightarrow> credential option launch" where
  "storedCredential E message i = catchE (credentialGet E i) (\<lambda>r. case r of
     Inr c \<Rightarrow> returnE (Some c)
   | Inl e \<Rightarrow> if errIs e ErrCredentialsNotFound then returnE None
             else throwE (credentialStoreError message e))"

definition forgetCredential :: "lenv \<Rightarrow> string \<Rightarrow> unit launch" where
  "forgetCredential E i = catchE (credentialDelete E i) (\<lambda>r. case r of
     Inl e \<Rightarrow> if errIs e ErrCredentialsNotFound then returnE ()
             else throwE (credentialStoreError ''Could not remove the saved account session'' e)
   | Inr _ \<Rightarrow> returnE ())"

definition commitSession :: "lenv \<Rightarrow> account \<Rightarrow> credential \<Rightarrow> login_result launch" where
  "commitSession E a c = bindE (storedCredential E ''Could not read the existing account session'' (ac_id a)) (\<lambda>previous.
     catchE (MarkPending E (ac_id a)) (\<lambda>r. case r of
       Inl e \<Rightarrow> throwE (credentialStoreError ''Could not prepare the account session commit'' e)
     | Inr _ \<Rightarrow> catchE (credentialSet E (ac_id a) c) (\<lambda>r. case r of
         Inl e \<Rightarrow> bindE (clearPending E (ac_id a)) (\<lambda>_.
                 throwE (credentialStoreError ''Could not save the account session'' e))
       | Inr _ \<Rightarrow> catchE (saveAccountAndSelect E a (ac_default a)) (\<lambda>r. case r of
           Inl e \<Rightarrow> bindE (rollbackCredential E (ac_id a) previous) (\<lambda>_.
                   bindE (clearPending E (ac_id a)) (\<lambda>_. throwE e))
         | Inr _ \<Rightarrow> bindE (clearPending E (ac_id a)) (\<lambda>_.
             returnE \<lparr>lr_status = ''success'', lr_account = Some (safeAccount a), lr_flow = []\<rparr>)))))"

definition persistSession :: "lenv \<Rightarrow> string \<Rightarrow> string \<Rightarrow> login_answer \<Rightarrow> login_result launch" where
  "persistSession E expected email answer = mutating
     (bindE (listAccountRows E) (\<lambda>stored.
      bindE (sessionAccount E expected answer stored) (\<lambda>found. case found of
        None \<Rightarrow> returnE (loginStatus ''invalid_credentials'')
      | Some existing \<Rightarrow>
          bindE nowL (\<lambda>now.
          bindE (case existing of
                   Some a \<Rightarrow> returnE a
                 | None \<Rightarrow> bindE (tickL (le_new_id E)) (\<lambda>i. returnE (blankAccount i now (stored = []))))
          (\<lambda>a. commitSession E (signedAccount a email answer now)
                 \<lparr>cr_key = la_key answer, cr_signature = la_signature answer\<rparr>)))))"

text \<open>The flows of sign-ins that wait for a one-time code, for five minutes.\<close>

definition flowTTL :: time where
  "flowTTL = 5 * 60 * 1000000000"

definition purgeExpired :: "launch_world \<Rightarrow> launch_world" where
  "purgeExpired w = w\<lparr>l_flows := filter (\<lambda>(_, f). pl_expires f > l_now w) (l_flows w)\<rparr>"

definition deleteFlow :: "string \<Rightarrow> unit launch" where
  "deleteFlow i = modifyE (\<lambda>w. w\<lparr>l_flows := AList.delete i (l_flows w)\<rparr>)"

definition CancelLogin :: "string \<Rightarrow> unit launch" where
  "CancelLogin = deleteFlow"

definition serverLogin ::
  "lenv \<Rightarrow> string \<Rightarrow> string \<Rightarrow> string \<Rightarrow> string \<Rightarrow> (login_answer result \<times> string option) launch" where
  "serverLogin E email password code token = (\<lambda>w.
     (Inr (le_login E (l_ticks w) email password code token), w\<lparr>l_ticks := Suc (l_ticks w)\<rparr>))"

definition startLogin :: "lenv \<Rightarrow> string \<Rightarrow> string \<Rightarrow> string \<Rightarrow> login_result launch" where
  "startLogin E expected email0 password =
     (let email = TrimSpace email0
      in if email = [] \<or> \<not> Contains email ''@''
           then throwE (NewError ErrValidation ''Enter a valid email address'')
         else if password = [] then throwE (NewError ErrValidation ''Enter your password'')
         else bindE (serverLogin E email password [] []) (\<lambda>(r, challenge).
           case r of
             Inl e \<Rightarrow>
               (case (if errIs e ErrTOTPRequired then challenge else None) of
                  Some token \<Rightarrow>
                    bindE (tickL (le_new_id E)) (\<lambda>i.
                    bindE (modifyE purgeExpired) (\<lambda>_.
                    bindE (modifyE (\<lambda>w. w\<lparr>l_flows := AList.update i
                       \<lparr>pl_email = email, pl_password = password, pl_token = token,
                        pl_expected = expected, pl_expires = l_now w + flowTTL\<rparr> (l_flows w)\<rparr>)) (\<lambda>_.
                    returnE \<lparr>lr_status = ''totp_required'', lr_account = None, lr_flow = i\<rparr>)))
                | None \<Rightarrow> bindE (reportFailure E e) (\<lambda>_. returnE (loginFailure e)))
           | Inr answer \<Rightarrow> persistSession E expected email answer))"

definition Login :: "lenv \<Rightarrow> string \<Rightarrow> string \<Rightarrow> login_result launch" where
  "Login E = startLogin E []"

definition ReauthenticateAccount :: "lenv \<Rightarrow> string \<Rightarrow> string \<Rightarrow> string \<Rightarrow> login_result launch" where
  "ReauthenticateAccount E i email password =
     bindE (getAccountRow E i) (\<lambda>_. startLogin E i email password)"

definition CompleteTOTP :: "lenv \<Rightarrow> string \<Rightarrow> string \<Rightarrow> login_result launch" where
  "CompleteTOTP E flowID code0 =
     (let code = TrimSpace code0
      in if code = [] \<or> length code > 16
           then throwE (NewError ErrValidation ''Enter the authentication code'')
         else bindE (modifyE purgeExpired) (\<lambda>_.
           bindE (getE (\<lambda>w. map_of (l_flows w) flowID)) (\<lambda>found. case found of
             None \<Rightarrow> throwE (NewError ErrAuthFlowExpired ''The login attempt has expired'')
           | Some flow \<Rightarrow>
               bindE (serverLogin E (pl_email flow) (pl_password flow) code (pl_token flow)) (\<lambda>(r, _).
                 case r of
                   Inl e \<Rightarrow> bindE (reportFailure E e) (\<lambda>_. returnE (loginFailure e))
                 | Inr answer \<Rightarrow>
                     bindE (persistSession E (pl_expected flow) (pl_email flow) answer) (\<lambda>result.
                       if lr_status result = ''success''
                       then bindE (deleteFlow flowID) (\<lambda>_. returnE result)
                       else returnE result)))))"

section \<open>Accounts in use\<close>

definition GetAccount :: "lenv \<Rightarrow> string \<Rightarrow> account launch" where
  "GetAccount E i = bindE (getAccountRow E i) (\<lambda>a. returnE (safeAccount a))"

definition ListAccounts :: "lenv \<Rightarrow> account list launch" where
  "ListAccounts E = bindE (listAccountRows E) (\<lambda>as. returnE (map safeAccount as))"

definition SelectAccount :: "lenv \<Rightarrow> string \<Rightarrow> unit launch" where
  "SelectAccount E i = mutating (bindE (getAccountRow E i) (\<lambda>_. setDefaultAccount E i))"

definition saveAccountMutation :: "lenv \<Rightarrow> account \<Rightarrow> unit launch" where
  "saveAccountMutation E a = mutating (saveAccountRow E a)"

definition authorizedAccount :: "lenv \<Rightarrow> string \<Rightarrow> account launch" where
  "authorizedAccount E i = bindE (getAccountRow E i) (\<lambda>a.
     catchE (credentialGet E i) (\<lambda>r. case r of
       Inr c \<Rightarrow> returnE (a\<lparr>ac_session_key := cr_key c, ac_session_signature := cr_signature c\<rparr>)
     | Inl e \<Rightarrow>
         if errIs e ErrCredentialsNotFound then
           bindE nowL (\<lambda>now.
           bindE (ignoreL (saveAccountMutation E (a\<lparr>ac_status := AccountNeedsReauth, ac_updated := now\<rparr>))) (\<lambda>_.
           throwE (NewError ErrSessionExpired ''The account needs to be authenticated again'')))
         else throwE (credentialStoreError ''Could not read the account session'' e)))"

text \<open>\<open>ValidateAuthorizedAccount\<close>, before and after the answer of the server.\<close>

definition recordValidation :: "lenv \<Rightarrow> account \<Rightarrow> bool \<Rightarrow> account launch" where
  "recordValidation E a valid = bindE nowL (\<lambda>now.
     let checked = a\<lparr>ac_validated := Some now, ac_updated := now\<rparr>
     in if \<not> valid then
          bindE (saveAccountMutation E (safeAccount (checked\<lparr>ac_status := AccountExpired\<rparr>))) (\<lambda>_.
          throwE (NewError ErrSessionExpired ''The account session has expired''))
        else bindE (saveAccountMutation E (safeAccount (checked\<lparr>ac_status := AccountValid\<rparr>))) (\<lambda>_.
          returnE (checked\<lparr>ac_status := AccountValid\<rparr>)))"

definition ValidateAuthorizedAccount :: "lenv \<Rightarrow> string \<Rightarrow> account launch" where
  "ValidateAuthorizedAccount E i = bindE (authorizedAccount E i) (\<lambda>a.
     bindE (tickL (\<lambda>n. le_validate E n (ac_uid a) (ac_session_key a))) (\<lambda>answer. case answer of
       Inl e \<Rightarrow> bindE (reportFailure E e) (\<lambda>_. throwE (mapAuthError e))
     | Inr valid \<Rightarrow> recordValidation E a valid))"

definition ValidateAccount :: "lenv \<Rightarrow> string \<Rightarrow> account launch" where
  "ValidateAccount E i = bindE (ValidateAuthorizedAccount E i) (\<lambda>a. returnE (safeAccount a))"

definition ValidateStaleAccounts :: "lenv \<Rightarrow> time \<Rightarrow> unit launch" where
  "ValidateStaleAccounts E maxAge = catchE (listAccountRows E) (\<lambda>r. case r of
     Inl _ \<Rightarrow> returnE ()
   | Inr stored \<Rightarrow> bindE nowL (\<lambda>now. forE stored (\<lambda>a.
       if ac_uid a = [] \<or> (case ac_validated a of Some t \<Rightarrow> t > now - maxAge | None \<Rightarrow> False)
       then returnE () else ignoreL (ValidateAccount E (ac_id a)))))"

text \<open>
  \<open>cleanup\<close> is the coordinator's \<open>ClearAccountFromInstances\<close>, passed in when the services are
  built.
\<close>

definition RemoveAccount :: "lenv \<Rightarrow> (string \<Rightarrow> unit launch) \<Rightarrow> string \<Rightarrow> unit launch" where
  "RemoveAccount E cleanup i = mutating
     (bindE (getAccountRow E i) (\<lambda>_.
      bindE (cleanup i) (\<lambda>_.
      bindE (storedCredential E ''Could not read the saved account session'' i) (\<lambda>previous.
        bindE (forgetCredential E i) (\<lambda>_.
        catchE (deleteAccountRow E i) (\<lambda>r. case r of
          Inl e \<Rightarrow> bindE (case previous of Some c \<Rightarrow> rollbackCredential E i (Some c) | None \<Rightarrow> returnE ())
                   (\<lambda>_. throwE e)
        | Inr _ \<Rightarrow> returnE ()))))))"

definition LogOutLocally :: "lenv \<Rightarrow> (string \<Rightarrow> unit launch) \<Rightarrow> string \<Rightarrow> unit launch" where
  "LogOutLocally E cleanup i = mutating
     (bindE (getAccountRow E i) (\<lambda>a.
      bindE (cleanup i) (\<lambda>_.
      bindE (forgetCredential E i) (\<lambda>_.
      bindE nowL (\<lambda>now.
      saveAccountRow E (a\<lparr>ac_status := AccountNeedsReauth, ac_updated := now\<rparr>))))))"

end
