(* ===== verification/AccountFacts.thy ===== *)
theory AccountFacts
  imports Accounts
begin

text \<open>
  Correctness of the accounts: the table keeps unique identifiers, at most one default account
  and no session secret under every operation; a failed sign-in changes neither the table nor
  the key store; sign-in flows expire and are used up.  The last section shows what the
  unprotected interval of \<open>ValidateAuthorizedAccount\<close> allows.
\<close>

section \<open>Calls\<close>

lemma wp_keep:
  assumes "evolves (keeping f) m"
    and "\<And>x w'. f w' = f w \<Longrightarrow> Q x w'" and "\<And>e w'. f w' = f w \<Longrightarrow> X e w'"
  shows "wp m Q X w"
  using evolves_keepingD [OF assms(1), of w] assms(2,3)
  by (cases "m w") (auto simp: wp_def split: sum.splits)

abbreviation ticked :: "launch_world \<Rightarrow> launch_world" where
  "ticked w \<equiv> w\<lparr>l_ticks := Suc (l_ticks w)\<rparr>"

lemma wp_callL [wp_simps]:
  "wp (callL E k f) Q X w \<longleftrightarrow>
     (case le_fault E k (l_ticks w) of Some e \<Rightarrow> X e (ticked w) | None \<Rightarrow> wp f Q X (ticked w))"
  by (simp add: wp_def callL_def split: option.splits)

lemma wp_readL [wp_simps]:
  "wp (readL E k f) Q X w \<longleftrightarrow>
     (case le_fault E k (l_ticks w) of Some e \<Rightarrow> X e (ticked w)
      | None \<Rightarrow> (case f (ticked w) of Inl e \<Rightarrow> X e (ticked w) | Inr x \<Rightarrow> Q x (ticked w)))"
  by (simp add: wp_def readL_def callL_def split: option.splits sum.splits)

lemma wp_step [wp_simps]:
  "wp (\<lambda>w. (r w, g w)) Q X w \<longleftrightarrow> (case r w of Inl e \<Rightarrow> X e (g w) | Inr x \<Rightarrow> Q x (g w))"
  by (simp add: wp_def)

lemma wp_throwE_fun [wp_simps]: "wp (throwE e) Q X = X e"
  by (simp add: wp_def fun_eq_iff)

lemma wp_tickL [wp_simps]: "wp (tickL f) Q X w \<longleftrightarrow> Q (f (l_ticks w)) (ticked w)"
  by (simp add: wp_def tickL_def)

lemma wp_nowL [wp_simps]: "wp nowL Q X w \<longleftrightarrow> Q (l_now w) w"
  by (simp add: nowL_def wp_simps)

lemma wp_ignoreL [wp_simps]: "wp (ignoreL m) Q X w \<longleftrightarrow> wp m (\<lambda>_. Q ()) (\<lambda>_. Q ()) w"
  by (simp add: ignoreL_def wp_simps)

lemma beginMutation_eq:
  "beginMutation w = (if relocating (l_gate w) then (Inl busyError, w)
     else (Inr (), w\<lparr>l_gate := (l_gate w)\<lparr>active := active (l_gate w) + 1\<rparr>\<rparr>))"
  by (simp add: beginMutation_def Begin_def)

lemma wp_mutating:
  "wp (mutating m) Q X w \<longleftrightarrow>
     (if relocating (l_gate w) then X busyError w
      else wp m (\<lambda>x w. Q x (endMutation w)) (\<lambda>e w. X e (endMutation w))
             (w\<lparr>l_gate := (l_gate w)\<lparr>active := active (l_gate w) + 1\<rparr>\<rparr>))"
  unfolding mutating_def wp_bindE wp_finallyE by (simp add: wp_def [of beginMutation] beginMutation_eq)

lemma wp_mutatingI:
  assumes "X busyError w"
    and "wp m (\<lambda>x w. Q x (endMutation w)) (\<lambda>e w. X e (endMutation w))
           (w\<lparr>l_gate := (l_gate w)\<lparr>active := active (l_gate w) + 1\<rparr>\<rparr>)"
  shows "wp (mutating m) Q X w"
  using assms by (simp add: wp_mutating)

lemma wp_case_sum: "wp (case r of Inl e \<Rightarrow> f e | Inr x \<Rightarrow> g x) Q X w \<longleftrightarrow>
    (case r of Inl e \<Rightarrow> wp (f e) Q X w | Inr x \<Rightarrow> wp (g x) Q X w)"
  by (simp split: sum.splits)

lemma wp_case_option: "wp (case r of None \<Rightarrow> f | Some x \<Rightarrow> g x) Q X w \<longleftrightarrow>
    (case r of None \<Rightarrow> wp f Q X w | Some x \<Rightarrow> wp (g x) Q X w)"
  by (simp split: option.splits)

section \<open>The invariant of the table\<close>

definition defaults :: "account list \<Rightarrow> nat" where
  "defaults as = length (filter ac_default as)"

definition secretFree :: "account \<Rightarrow> bool" where
  "secretFree a \<longleftrightarrow> ac_session_key a = [] \<and> ac_session_signature a = []"

definition accounts_wf :: "account list \<Rightarrow> bool" where
  "accounts_wf as \<longleftrightarrow> distinct (map ac_id as) \<and> defaults as \<le> 1 \<and> list_all secretFree as"

lemma ids_upsert:
  "map ac_id (upsertAccount a as) = (if ac_id a \<in> ac_id ` set as then map ac_id as else map ac_id as @ [ac_id a])"
  by (induction as) (auto simp: safeAccount_def)

lemma secretFree_upsert: "list_all secretFree as \<Longrightarrow> list_all secretFree (upsertAccount a as)"
  by (induction as) (auto simp: secretFree_def safeAccount_def)

lemma defaults_absent: "ac_id a \<notin> ac_id ` set as \<Longrightarrow> filter (\<lambda>x. ac_id x \<noteq> ac_id a) as = as"
  by (induction as) auto

lemma defaults_upsert:
  "distinct (map ac_id as) \<Longrightarrow>
     defaults (upsertAccount a as) = defaults (filter (\<lambda>x. ac_id x \<noteq> ac_id a) as) + (if ac_default a then 1 else 0)"
proof (induction as)
  case (Cons x xs)
  show ?case
  proof (cases "ac_id x = ac_id a")
    case True
    with Cons.prems have "filter (\<lambda>y. ac_id y \<noteq> ac_id a) xs = xs" by (simp add: defaults_absent)
    with True show ?thesis by (simp add: defaults_def safeAccount_def)
  next
    case False
    with Cons show ?thesis by (simp add: defaults_def)
  qed
qed (simp add: defaults_def safeAccount_def)

lemma defaults_filter_le: "defaults (filter P as) \<le> defaults as"
  by (induction as) (auto simp: defaults_def)

lemma defaults_filter_less:
  "a \<in> set as \<Longrightarrow> ac_default a \<Longrightarrow> defaults (filter (\<lambda>x. ac_id x \<noteq> ac_id a) as) < defaults as"
proof (induction as)
  case (Cons x xs)
  show ?case
  proof (cases "a = x")
    case True
    then show ?thesis
      using Cons.prems defaults_filter_le [of "\<lambda>y. ac_id y \<noteq> ac_id x" xs] by (simp add: defaults_def)
  next
    case False
    with Cons have "defaults (filter (\<lambda>y. ac_id y \<noteq> ac_id a) xs) < defaults xs" by simp
    then show ?thesis by (auto simp: defaults_def)
  qed
qed simp

lemma accounts_wf_update:
  assumes wf: "accounts_wf as" and a: "a \<in> set as" and same: "ac_id b = ac_id a" "ac_default b = ac_default a"
  shows "accounts_wf (upsertAccount b as)"
proof -
  have d: "distinct (map ac_id as)" using wf by (simp add: accounts_wf_def)
  have "defaults (upsertAccount b as) \<le> defaults as"
    using defaults_upsert [OF d, of b] defaults_filter_le [of "\<lambda>x. ac_id x \<noteq> ac_id a" as]
      defaults_filter_less [OF a] same by auto
  with wf show ?thesis
    by (auto simp: accounts_wf_def ids_upsert secretFree_upsert)
qed

lemma defaults_clear [simp]: "defaults (clearDefaults as) = 0"
  by (induction as) (auto simp: defaults_def clearDefaults_def)

lemma clearDefaults_wf: "accounts_wf as \<Longrightarrow> accounts_wf (clearDefaults as)"
proof -
  assume wf: "accounts_wf as"
  have "map ac_id (clearDefaults as) = map ac_id as" "list_all secretFree (clearDefaults as) = list_all secretFree as"
    by (simp_all add: clearDefaults_def list_all_iff secretFree_def)
  with wf show ?thesis by (simp add: accounts_wf_def)
qed

lemma accounts_wf_select:
  assumes "accounts_wf as" shows "accounts_wf (upsertAccount b (clearDefaults as))"
proof -
  note wf = clearDefaults_wf [OF assms]
  then have d: "distinct (map ac_id (clearDefaults as))" by (simp add: accounts_wf_def)
  have "defaults (upsertAccount b (clearDefaults as)) \<le> 1"
    using defaults_upsert [OF d, of b] defaults_filter_le [of "\<lambda>x. ac_id x \<noteq> ac_id b" "clearDefaults as"] by simp
  with wf show ?thesis by (auto simp: accounts_wf_def ids_upsert secretFree_upsert)
qed

lemma accounts_wf_insert:
  assumes wf: "accounts_wf as" and "\<not> ac_default b" shows "accounts_wf (upsertAccount b as)"
proof -
  have d: "distinct (map ac_id as)" using wf by (simp add: accounts_wf_def)
  have "defaults (upsertAccount b as) \<le> defaults as"
    using defaults_upsert [OF d, of b] defaults_filter_le [of "\<lambda>x. ac_id x \<noteq> ac_id b" as] assms(2) by simp
  with wf show ?thesis by (auto simp: accounts_wf_def ids_upsert secretFree_upsert)
qed

lemma filter_eq_distinct: "distinct xs \<Longrightarrow> length (filter (\<lambda>x. i = x) xs) \<le> 1"
proof (induction xs)
  case (Cons x xs)
  then show ?case by (cases "i = x") (auto simp: filter_empty_conv)
qed simp

lemma accounts_wf_default:
  assumes "accounts_wf as" shows "accounts_wf (map (\<lambda>a. a\<lparr>ac_default := (ac_id a = i)\<rparr>) as)"
proof -
  have ids: "map ac_id (map (\<lambda>a. a\<lparr>ac_default := (ac_id a = i)\<rparr>) as) = map ac_id as" by (simp add: comp_def)
  have "defaults (map (\<lambda>a. a\<lparr>ac_default := (ac_id a = i)\<rparr>) as) = length (filter (\<lambda>a. ac_id a = i) as)"
    by (induction as) (auto simp: defaults_def)
  also have "\<dots> = length (filter (\<lambda>x. i = x) (map ac_id as))"
    by (simp add: filter_map comp_def eq_commute [of i])
  also have "\<dots> \<le> 1" using assms by (intro filter_eq_distinct) (simp add: accounts_wf_def)
  finally show ?thesis using assms ids by (simp add: accounts_wf_def list_all_iff secretFree_def comp_def)
qed

lemma accounts_wf_filter: "accounts_wf as \<Longrightarrow> accounts_wf (filter P as)"
  using defaults_filter_le [of P as]
  by (auto simp: accounts_wf_def distinct_map_filter list_all_iff)

section \<open>Frames\<close>

lemma evolves_readSettings [evolve_rules]: "quiet R \<Longrightarrow> evolves R (readSettings E p)"
  unfolding readSettings_def by (rule evolves_readL)

lemma evolves_validateRequest [evolve_rules]: "quiet R \<Longrightarrow> evolves R (validateRequest i)"
  unfolding validateRequest_def by (intro evolves_if evolves_throwE evolves_returnE) simp_all

lemma evolves_account_reads [evolve_rules]:
  "quiet R \<Longrightarrow> evolves R (listAccountRows E)" "quiet R \<Longrightarrow> evolves R (getAccountRow E i)"
  "quiet R \<Longrightarrow> evolves R (credentialGet E i)" "quiet R \<Longrightarrow> evolves R (loadPending E)"
  unfolding listAccountRows_def getAccountRow_def credentialGet_def loadPending_def
  by (auto intro!: evolve_rules)

lemma evolves_keyring_writes [evolve_rules]:
  assumes "quiet R" "ignores l_keyring_update R"
  shows "evolves R (credentialSet E i c)" "evolves R (credentialDelete E i)"
proof -
  have "R w (w\<lparr>l_keyring := x\<rparr>)" for w x using ignoresD [OF assms(2), of w "\<lambda>_. x"] by simp
  with assms(1) show "evolves R (credentialSet E i c)" "evolves R (credentialDelete E i)"
    unfolding credentialSet_def credentialDelete_def
    by (auto intro!: evolves_bindE evolves_validateRequest evolves_if evolves_throwE evolves_callL)
qed

lemma evolves_pending_writes [evolve_rules]:
  assumes "quiet R" "ignores l_pending_update R"
  shows "evolves R (savePending E ids)" "evolves R (removePending E)"
proof -
  have upd: "R w (w\<lparr>l_pending := x\<rparr>)" for w x
    using ignoresD [OF assms(2), of w "\<lambda>_. x"] by simp
  have "R w (w\<lparr>l_ticks := n, l_pending := x\<rparr>)" for w n x
    using quiet_trans [OF assms(1) quiet_ticks [OF assms(1)] upd] .
  then show "evolves R (savePending E ids)"
    using quiet_ticks [OF assms(1)]
    by (auto simp: evolves_def savePending_def Let_def split: option.splits)
  show "evolves R (removePending E)"
    unfolding removePending_def using upd assms(1)
    by (auto intro!: evolves_catchE evolves_callL evolves_case_sum evolves_if evolves_throwE evolves_returnE)
qed

lemma evolves_pending_ops [evolve_rules]:
  assumes "quiet R" "ignores l_pending_update R"
  shows "evolves R (MarkPending E i)" "evolves R (ClearPending E i)" "evolves R (clearPending E i)"
  unfolding MarkPending_def ClearPending_def clearPending_def Let_def
  using assms by (auto intro!: evolve_rules)

lemma evolves_credential_ops [evolve_rules]:
  assumes "quiet R"
  shows "evolves R (storedCredential E m i)"
    and "ignores l_keyring_update R \<Longrightarrow> evolves R (forgetCredential E i)"
    and "ignores l_keyring_update R \<Longrightarrow> evolves R (rollbackCredential E i p)"
  unfolding storedCredential_def forgetCredential_def rollbackCredential_def
  using assms by (auto intro!: evolve_rules)

lemma evolves_reportFailure [evolve_rules]:
  "quiet R \<Longrightarrow> ignores l_reports_update R \<Longrightarrow> evolves R (reportFailure E e)"
  unfolding reportFailure_def by (auto intro!: evolve_rules)

lemma ignores_keeping_accounts [simp]:
  "ignores l_keyring_update (keeping l_accounts)" "ignores l_pending_update (keeping l_accounts)"
  "ignores l_reports_update (keeping l_accounts)" "ignores l_flows_update (keeping l_accounts)"
  by (simp_all add: ignores_def keeping_def)

section \<open>The operations keep the table well-formed\<close>

definition tableWf :: "launch_world \<Rightarrow> bool" where
  "tableWf w \<longleftrightarrow> accounts_wf (l_accounts w)"

definition keepsTable :: "'a launch \<Rightarrow> bool" where
  "keepsTable m \<longleftrightarrow> (\<forall>w. tableWf w \<longrightarrow> wp m (\<lambda>_. tableWf) (\<lambda>_. tableWf) w)"

lemma keepsTableI: "(\<And>w. tableWf w \<Longrightarrow> wp m (\<lambda>_. tableWf) (\<lambda>_. tableWf) w) \<Longrightarrow> keepsTable m"
  by (simp add: keepsTable_def)

lemma keepsTableD: "keepsTable m \<Longrightarrow> tableWf w \<Longrightarrow> wp m (\<lambda>_. tableWf) (\<lambda>_. tableWf) w"
  by (simp add: keepsTable_def)

lemma keepsTable_run: "keepsTable m \<Longrightarrow> tableWf w \<Longrightarrow> tableWf (snd (m w))"
  by (cases "m w"; cases "fst (m w)") (auto dest!: keepsTableD simp: wp_def)

lemma keepsTable_evolves: "evolves (keeping l_accounts) m \<Longrightarrow> keepsTable m"
  by (intro keepsTableI wp_keep [where f = l_accounts]) (simp_all add: tableWf_def)

lemma keepsTable_bindE: "keepsTable m \<Longrightarrow> (\<And>x. keepsTable (f x)) \<Longrightarrow> keepsTable (bindE m f)"
  by (rule keepsTableI) (auto simp: wp_bindE intro: wp_mono keepsTableD)

lemma keepsTable_catchE: "keepsTable m \<Longrightarrow> (\<And>r. keepsTable (f r)) \<Longrightarrow> keepsTable (catchE m f)"
  by (rule keepsTableI) (auto simp: wp_catchE intro: wp_mono keepsTableD)

lemma tableWf_gate [simp]:
  "tableWf (w\<lparr>l_gate := g\<rparr>) = tableWf w" "tableWf (endMutation w) = tableWf w"
  by (simp_all add: tableWf_def endMutation_def)

lemma keepsTable_mutating: "keepsTable m \<Longrightarrow> keepsTable (mutating m)"
  by (rule keepsTableI) (simp add: wp_mutating keepsTableD)

lemma keepsTable_returnE: "keepsTable (returnE x)"
  by (rule keepsTableI) (simp add: wp_simps)

lemma keepsTable_ignoreL: "keepsTable m \<Longrightarrow> keepsTable (ignoreL m)"
  unfolding ignoreL_def by (intro keepsTable_catchE keepsTable_returnE)

lemma keepsTable_saveAndSelect: "keepsTable (saveAccountAndSelect E a (ac_default a))"
  unfolding saveAccountAndSelect_def
  by (rule keepsTableI)
     (auto simp: wp_simps tableWf_def accounts_wf_select accounts_wf_insert split: option.splits)

lemma keepsTable_setDefault: "keepsTable (setDefaultAccount E i)"
  unfolding setDefaultAccount_def
  by (rule keepsTableI)
     (auto simp: wp_def callL_def tableWf_def accounts_wf_default split: option.splits)

lemma keepsTable_deleteRow: "keepsTable (deleteAccountRow E i)"
  unfolding deleteAccountRow_def
  by (rule keepsTableI)
     (auto simp: wp_def callL_def tableWf_def accounts_wf_filter split: option.splits)

lemma keepsTable_case_sum:
  "(\<And>e. keepsTable (f e)) \<Longrightarrow> (\<And>x. keepsTable (g x)) \<Longrightarrow>
     keepsTable (case r of Inl e \<Rightarrow> f e | Inr x \<Rightarrow> g x)"
  by (cases r) auto

lemma keepsTable_case_option:
  "keepsTable f \<Longrightarrow> (\<And>x. keepsTable (g x)) \<Longrightarrow> keepsTable (case r of None \<Rightarrow> f | Some x \<Rightarrow> g x)"
  by (cases r) auto

lemma keepsTable_if: "keepsTable m \<Longrightarrow> keepsTable n \<Longrightarrow> keepsTable (if b then m else n)"
  by simp

lemma keepsTable_throwE: "keepsTable (throwE e)"
  by (rule keepsTableI) (simp add: wp_simps)

lemma keepsTable_modifyE: "(\<And>w. l_accounts (f w) = l_accounts w) \<Longrightarrow> keepsTable (modifyE f)"
  by (rule keepsTableI) (simp add: wp_simps tableWf_def)

lemma keepsTable_getE: "keepsTable (getE f)"
  by (rule keepsTableI) (simp add: wp_simps)

lemma keepsTable_ports:
  "keepsTable (listAccountRows E)" "keepsTable (getAccountRow E i)" "keepsTable (credentialGet E i)"
  "keepsTable (MarkPending E i)" "keepsTable (clearPending E i)" "keepsTable (credentialSet E i c)"
  "keepsTable (storedCredential E m i)" "keepsTable (rollbackCredential E i p)"
  "keepsTable (forgetCredential E i)" "keepsTable (reportFailure E e)" "keepsTable nowL"
  "keepsTable (tickL f)"
  by (intro keepsTable_evolves, simp add: evolve_rules)+

lemmas keepsTable_rules = keepsTable_bindE keepsTable_catchE keepsTable_mutating keepsTable_ignoreL
  keepsTable_case_sum keepsTable_case_option keepsTable_if keepsTable_throwE keepsTable_returnE
  keepsTable_modifyE keepsTable_getE keepsTable_ports keepsTable_saveAndSelect
  keepsTable_setDefault keepsTable_deleteRow

lemma keepsTable_sessionAccount: "keepsTable (sessionAccount E x a st)"
  unfolding sessionAccount_def Let_def by (intro keepsTable_rules)

lemma keepsTable_commitSession: "keepsTable (commitSession E a c)"
  unfolding commitSession_def by (intro keepsTable_rules)

lemma keepsTable_persistSession: "keepsTable (persistSession E x email answer)"
  unfolding persistSession_def
  by (intro keepsTable_rules keepsTable_sessionAccount keepsTable_commitSession)

lemma keepsTable_serverLogin: "keepsTable (serverLogin E e p c t)"
  by (rule keepsTableI) (simp add: wp_def serverLogin_def tableWf_def)

lemma keepsTable_startLogin: "keepsTable (startLogin E x email password)"
  unfolding startLogin_def Let_def split_def
  by (intro keepsTable_rules keepsTable_persistSession keepsTable_serverLogin)
     (simp_all add: purgeExpired_def)

lemma keepsTable_signIn: "keepsTable (Login E email p)" "keepsTable (ReauthenticateAccount E i email p)"
  "keepsTable (CompleteTOTP E flowID code)"
  unfolding Login_def ReauthenticateAccount_def CompleteTOTP_def Let_def split_def deleteFlow_def
  by (intro keepsTable_rules keepsTable_startLogin keepsTable_persistSession keepsTable_serverLogin;
      simp add: purgeExpired_def)+

lemma keepsTable_SelectAccount: "keepsTable (SelectAccount E i)"
  unfolding SelectAccount_def by (intro keepsTable_rules)

lemma keepsTable_RemoveAccount:
  "(\<And>i. keepsTable (cleanup i)) \<Longrightarrow> keepsTable (RemoveAccount E cleanup i)"
  unfolding RemoveAccount_def by (intro keepsTable_rules)

text \<open>The operations that write a row back which they read before.\<close>

definition rowOf :: "launch_world \<Rightarrow> account \<Rightarrow> bool" where
  "rowOf w b \<longleftrightarrow> tableWf w \<and> (\<exists>a\<in>set (l_accounts w). ac_id b = ac_id a \<and> ac_default b = ac_default a)"

lemma wp_getAccountRow:
  "tableWf w \<Longrightarrow> wp (getAccountRow E i) (\<lambda>a w'. rowOf w' a) (\<lambda>_. tableWf) w"
  by (auto simp: getAccountRow_def wp_simps tableWf_def rowOf_def split: option.splits dest!: find_SomeD)

lemma rowOf_update [simp]:
  "rowOf w (a\<lparr>ac_status := s\<rparr>) = rowOf w a" "rowOf w (a\<lparr>ac_updated := t\<rparr>) = rowOf w a"
  "rowOf w (a\<lparr>ac_validated := v\<rparr>) = rowOf w a" "rowOf w (a\<lparr>ac_session_key := k\<rparr>) = rowOf w a"
  "rowOf w (a\<lparr>ac_session_signature := k\<rparr>) = rowOf w a" "rowOf w (safeAccount a) = rowOf w a"
  by (simp_all add: rowOf_def safeAccount_def)

lemma rowOf_frame: "l_accounts w' = l_accounts w \<Longrightarrow> rowOf w' a = rowOf w a"
  by (simp add: rowOf_def tableWf_def)

lemma rowOf_tableWf: "rowOf w a \<Longrightarrow> tableWf w"
  by (simp add: rowOf_def)

lemma wp_saveAccountRow: "rowOf w b \<Longrightarrow> wp (saveAccountRow E b) (\<lambda>_. tableWf) (\<lambda>_. tableWf) w"
  by (auto simp: saveAccountRow_def wp_def callL_def rowOf_def tableWf_def intro: accounts_wf_update
      split: option.splits)

lemma wp_saveAccountMutation:
  "rowOf w b \<Longrightarrow> wp (saveAccountMutation E b) (\<lambda>_. tableWf) (\<lambda>_. tableWf) w"
  unfolding saveAccountMutation_def
  by (auto simp: wp_mutating rowOf_tableWf intro!: wp_saveAccountRow) (simp add: rowOf_def tableWf_def)

lemma wp_frame_rowOf:
  assumes "evolves (keeping l_accounts) m" "rowOf w a"
  shows "wp m (\<lambda>_ w'. rowOf w' a) (\<lambda>_ w'. rowOf w' a) w"
  by (rule wp_keep [OF assms(1)]) (simp_all add: rowOf_frame assms(2))

lemma wp_authorizedAccount:
  assumes "tableWf w" shows "wp (authorizedAccount E i) (\<lambda>a w'. rowOf w' a) (\<lambda>_. tableWf) w"
proof -
  let ?rest = "\<lambda>a. catchE (credentialGet E i) (\<lambda>r. case r of
       Inr c \<Rightarrow> returnE (a\<lparr>ac_session_key := cr_key c, ac_session_signature := cr_signature c\<rparr>)
     | Inl e \<Rightarrow>
         if errIs e ErrCredentialsNotFound then
           bindE nowL (\<lambda>now.
           bindE (ignoreL (saveAccountMutation E (a\<lparr>ac_status := AccountNeedsReauth, ac_updated := now\<rparr>))) (\<lambda>_.
           throwE (NewError ErrSessionExpired ''The account needs to be authenticated again'')))
         else throwE (credentialStoreError ''Could not read the account session'' e))"
  have rest: "wp (?rest a) (\<lambda>a w'. rowOf w' a) (\<lambda>_. tableWf) w1" if a: "rowOf w1 a" for a w1
    unfolding wp_catchE
    by (rule wp_mono [OF wp_frame_rowOf [OF _ a]])
       (auto simp: wp_simps wp_saveAccountMutation rowOf_tableWf intro: evolve_rules)
  show ?thesis
    unfolding authorizedAccount_def wp_bindE
    by (rule wp_mono [OF wp_getAccountRow [OF assms]]) (rule rest, simp_all)
qed

lemma wp_recordValidation:
  "rowOf w a \<Longrightarrow> wp (recordValidation E a valid) (\<lambda>_. tableWf) (\<lambda>_. tableWf) w"
  unfolding recordValidation_def Let_def
  by (cases valid) (auto simp: wp_simps intro!: wp_mono [OF wp_saveAccountMutation])

lemma keepsTable_Validate: "keepsTable (ValidateAuthorizedAccount E i)"
proof (rule keepsTableI)
  fix w assume w: "tableWf w"
  have rest: "wp (bindE (tickL (\<lambda>n. le_validate E n (ac_uid a) (ac_session_key a))) (\<lambda>answer. case answer of
       Inl e \<Rightarrow> bindE (reportFailure E e) (\<lambda>_. throwE (mapAuthError e))
     | Inr valid \<Rightarrow> recordValidation E a valid)) (\<lambda>_. tableWf) (\<lambda>_. tableWf) w1" if a: "rowOf w1 a" for a w1
  proof -
    have "rowOf (ticked w1) a" using a by (simp add: rowOf_def tableWf_def)
    moreover have "keepsTable (reportFailure E e)" for e by (rule keepsTable_ports)
    ultimately show ?thesis
      by (auto simp: wp_simps wp_recordValidation rowOf_tableWf keepsTableD
          split: sum.splits)
  qed
  show "wp (ValidateAuthorizedAccount E i) (\<lambda>_. tableWf) (\<lambda>_. tableWf) w"
    unfolding ValidateAuthorizedAccount_def wp_bindE [of "authorizedAccount E i"]
    by (rule wp_mono [OF wp_authorizedAccount [OF w]]) (rule rest, simp_all)
qed

lemma keepsTable_ValidateAll:
  "keepsTable (ValidateAccount E i)" "keepsTable (ValidateStaleAccounts E age)"
proof -
  show one: "keepsTable (ValidateAccount E i)" for i
    unfolding ValidateAccount_def by (intro keepsTable_rules keepsTable_Validate)
  have loop: "keepsTable (forE xs f)" if "\<And>x. keepsTable (f x)" for xs and f :: "account \<Rightarrow> unit launch"
  proof (induction xs)
    case Nil
    show ?case unfolding forE.simps by (rule keepsTable_returnE)
  next
    case (Cons x xs)
    then show ?case unfolding forE.simps by (intro keepsTable_bindE that)
  qed
  show "keepsTable (ValidateStaleAccounts E age)"
    unfolding ValidateStaleAccounts_def by (intro keepsTable_rules loop one)
qed

lemma keepsTable_LogOut:
  assumes cleanup: "\<And>i. evolves (keeping l_accounts) (cleanup i)"
  shows "keepsTable (LogOutLocally E cleanup i)"
  unfolding LogOutLocally_def
proof (rule keepsTable_mutating, rule keepsTableI)
  fix w assume w: "tableWf w"
  have save: "wp (bindE nowL (\<lambda>now. saveAccountRow E (a\<lparr>ac_status := AccountNeedsReauth, ac_updated := now\<rparr>)))
      (\<lambda>_. tableWf) (\<lambda>_. tableWf) w1" if "rowOf w1 a" for a w1
    using that by (simp add: wp_simps wp_saveAccountRow)
  have rest: "wp (bindE (cleanup i) (\<lambda>_. bindE (forgetCredential E i) (\<lambda>_.
      bindE nowL (\<lambda>now. saveAccountRow E (a\<lparr>ac_status := AccountNeedsReauth, ac_updated := now\<rparr>)))))
      (\<lambda>_. tableWf) (\<lambda>_. tableWf) w1" if a: "rowOf w1 a" for a w1
    unfolding wp_bindE [of "cleanup i"] wp_bindE [of "forgetCredential E i"]
    by (rule wp_mono [OF wp_frame_rowOf [OF cleanup a]],
        rule wp_mono [OF wp_frame_rowOf], auto intro: evolve_rules save rowOf_tableWf)
  show "wp (bindE (getAccountRow E i) (\<lambda>a. bindE (cleanup i) (\<lambda>_. bindE (forgetCredential E i) (\<lambda>_.
      bindE nowL (\<lambda>now. saveAccountRow E (a\<lparr>ac_status := AccountNeedsReauth, ac_updated := now\<rparr>))))))
      (\<lambda>_. tableWf) (\<lambda>_. tableWf) w"
    unfolding wp_bindE [of "getAccountRow E i"]
    by (rule wp_mono [OF wp_getAccountRow [OF w]]) (rule rest, simp_all)
qed

text \<open>
  C25 (invariant).  Every operation of the accounts, run to its end, keeps the table: unique
  identifiers, at most one default account, and no session secret in any row, on every branch
  and for every failing call.  (\<open>cleanup\<close> is the coordinator's cleanup of the instances, which
  does not touch the table.)
\<close>

theorem accounts_table_invariant:
  assumes "tableWf w" and "\<And>i. evolves (keeping l_accounts) (cleanup i)"
  shows "tableWf (snd (Login E email password w)) \<and>
    tableWf (snd (ReauthenticateAccount E i email password w)) \<and>
    tableWf (snd (CompleteTOTP E flowID code w)) \<and>
    tableWf (snd (SelectAccount E i w)) \<and> tableWf (snd (RemoveAccount E cleanup i w)) \<and>
    tableWf (snd (LogOutLocally E cleanup i w)) \<and> tableWf (snd (ValidateAuthorizedAccount E i w)) \<and>
    tableWf (snd (ValidateStaleAccounts E age w))"
proof -
  have "keepsTable (cleanup i)" for i by (rule keepsTable_evolves) (rule assms(2))
  then show ?thesis
    using assms by (simp add: keepsTable_run keepsTable_signIn keepsTable_SelectAccount
        keepsTable_RemoveAccount keepsTable_LogOut keepsTable_Validate keepsTable_ValidateAll)
qed

section \<open>A failed sign-in changes nothing\<close>

abbreviation ring :: "launch_world \<Rightarrow> string \<Rightarrow> credential option option" where
  "ring w \<equiv> map_of (l_keyring w)"

definition keyringFault :: "lenv \<Rightarrow> bool" where
  "keyringFault E \<longleftrightarrow> (\<exists>n. le_fault E KeyringCall n \<noteq> None)"

definition stores :: "launch_world \<Rightarrow> account list \<times> (string \<times> credential option) list" where
  "stores w = (l_accounts w, l_keyring w)"

lemma quiet_stores [simp]:
  "quiet (keeping stores)" "ignores l_pending_update (keeping stores)" "ignores l_gate_update (keeping stores)"
  by (simp_all add: quiet_def ignores_def) (simp_all add: keeping_def stores_def)

definition validId :: "string \<Rightarrow> bool" where
  "validId i \<longleftrightarrow> i \<noteq> [] \<and> length i \<le> 128 \<and> \<not> list_ex (\<lambda>c. c \<in> {CHR 0x00, CHR 0x0D, CHR 0x0A}) i"

lemma validateRequest_eq:
  "validateRequest i = (if validId i then returnE ()
     else throwE (WrapError ''invalid account identifier'' ErrPermissionDenied))"
  by (auto simp: validateRequest_def validId_def)

definition nonEmpty :: "credential \<Rightarrow> bool" where
  "nonEmpty c \<longleftrightarrow> cr_key c \<noteq> [] \<and> cr_signature c \<noteq> []"

lemma wp_credentialSet:
  "wp (credentialSet E i c)
     (\<lambda>_ w'. validId i \<and> nonEmpty c \<and> l_accounts w' = l_accounts w \<and> l_keyring w' = AList.update i (Some c) (l_keyring w))
     (\<lambda>e w'. stores w' = stores w \<and> (validId i \<and> nonEmpty c \<longrightarrow> keyringFault E)) w"
  by (auto simp: credentialSet_def wp_simps validateRequest_eq nonEmpty_def stores_def keyringFault_def
      split: option.splits)

lemma wp_credentialDelete:
  "wp (credentialDelete E i)
     (\<lambda>_ w'. l_accounts w' = l_accounts w \<and> l_keyring w' = AList.delete i (l_keyring w))
     (\<lambda>e w'. stores w' = stores w \<and> (validId i \<longrightarrow> keyringFault E \<or> ring w i = None)) w"
  by (auto simp: credentialDelete_def wp_simps validateRequest_eq stores_def keyringFault_def wp_def callL_def
      split: option.splits)

text \<open>What is known of the stored session of an account.\<close>

definition wasStored :: "lenv \<Rightarrow> launch_world \<Rightarrow> string \<Rightarrow> credential option \<Rightarrow> bool" where
  "wasStored E w i previous \<longleftrightarrow> validId i \<and>
     (case previous of Some c \<Rightarrow> ring w i = Some (Some c) \<and> nonEmpty c
      | None \<Rightarrow> ring w i = None \<or> keyringFault E)"

lemma wp_storedCredential:
  "wp (storedCredential E m i) (\<lambda>p w'. stores w' = stores w \<and> wasStored E w i p) (\<lambda>_ w'. stores w' = stores w) w"
  by (auto simp: storedCredential_def credentialGet_def wp_simps validateRequest_eq stores_def wasStored_def
      nonEmpty_def keyringFault_def errIs_def split: option.splits)

lemma wp_rollback:
  assumes "wasStored E w0 i previous" and "\<And>j. j \<noteq> i \<Longrightarrow> ring w j = ring w0 j"
  shows "wp (rollbackCredential E i previous)
    (\<lambda>_ w'. l_accounts w' = l_accounts w \<and> (keyringFault E \<or> ring w' = ring w0)) X w"
proof (cases previous)
  case (Some c)
  have "AList.update i (Some c) (l_keyring w) = l \<Longrightarrow> map_of l = ring w0" for l
    using assms Some by (auto simp: wasStored_def update_conv fun_eq_iff)
  then show ?thesis
    unfolding rollbackCredential_def wp_ignoreL Some option.case
    using assms(1) Some
    by (intro wp_mono [OF wp_credentialSet]) (auto simp: wasStored_def stores_def)
next
  case None
  have del: "AList.delete i (l_keyring w) = l \<Longrightarrow> keyringFault E \<or> map_of l = ring w0" for l
    using assms None by (auto simp: wasStored_def delete_conv fun_eq_iff)
  have "ring w = ring w0" if "ring w i = None" "ring w0 i = None"
  proof
    fix x show "ring w x = ring w0 x" by (cases "x = i") (simp_all add: that assms(2))
  qed
  with None assms(1) have "ring w i = None \<Longrightarrow> keyringFault E \<or> ring w = ring w0"
    by (auto simp: wasStored_def)
  with del show ?thesis
    unfolding rollbackCredential_def wp_ignoreL None option.case
    using assms(1)
    by (intro wp_mono [OF wp_credentialDelete]) (auto simp: wasStored_def stores_def)
qed

lemma wp_stores: "evolves (keeping stores) m \<Longrightarrow> wp m (\<lambda>_ w'. stores w' = stores w) (\<lambda>_ w'. stores w' = stores w) w"
  by (rule wp_keep) auto

lemma upsert_mem: "\<exists>b\<in>set (upsertAccount a as). ac_id b = ac_id a \<and> ac_uid b = ac_uid a \<and> ac_status b = ac_status a"
  by (induction as) (auto simp: safeAccount_def)

definition committed :: "launch_world \<Rightarrow> account \<Rightarrow> credential \<Rightarrow> launch_world \<Rightarrow> bool" where
  "committed w a c w' \<longleftrightarrow> ring w' (ac_id a) = Some (Some c) \<and>
     (\<forall>j. j = ac_id a \<or> ring w' j = ring w j) \<and>
     (\<exists>b\<in>set (l_accounts w'). ac_id b = ac_id a \<and> ac_uid b = ac_uid a \<and> ac_status b = ac_status a)"

lemma wp_saveAndSelect:
  "wp (saveAccountAndSelect E a sel)
     (\<lambda>_ w'. l_keyring w' = l_keyring w \<and>
        (\<exists>b\<in>set (l_accounts w'). ac_id b = ac_id a \<and> ac_uid b = ac_uid a \<and> ac_status b = ac_status a))
     (\<lambda>_ w'. stores w' = stores w) w"
  using upsert_mem [of a] upsert_mem [of "a\<lparr>ac_default := True\<rparr>"]
  by (auto simp: saveAccountAndSelect_def wp_simps stores_def split: option.splits)

lemma wp_clearPending: "wp (clearPending E i) (\<lambda>_ w'. stores w' = stores w) X w"
proof -
  have "wp (clearPending E i) (\<lambda>_ w'. stores w' = stores w) (\<lambda>_ _. False) w"
    using evolves_keepingD [OF evolves_pending_ops(3) [of "keeping stores" E i], of w]
    by (cases "ClearPending E i w") (auto simp: clearPending_def wp_def ignoreL_def catchE_def)
  then show ?thesis by (rule wp_mono) simp_all
qed

lemma wp_commitSession:
  "wp (commitSession E a c) (\<lambda>r w'. lr_status r = ''success'' \<and> committed w a c w')
     (\<lambda>e w'. l_accounts w' = l_accounts w \<and> (keyringFault E \<or> ring w' = ring w)) w"
proof -
  let ?Q = "\<lambda>r w'. lr_status r = ''success'' \<and> committed w a c w'"
  let ?X = "\<lambda>e w'. l_accounts w' = l_accounts w \<and> (keyringFault E \<or> ring w' = ring w)"
  have undo: "wp (bindE (rollbackCredential E (ac_id a) p) (\<lambda>_. bindE (clearPending E (ac_id a)) (\<lambda>_. throwE e))) ?Q ?X w1"
    if "wasStored E w (ac_id a) p" "l_accounts w1 = l_accounts w" "\<And>j. j \<noteq> ac_id a \<Longrightarrow> ring w1 j = ring w j"
    for p e w1
  proof -
    have "wp (rollbackCredential E (ac_id a) p)
        (\<lambda>_ w'. l_accounts w' = l_accounts w1 \<and> (keyringFault E \<or> ring w' = ring w)) (\<lambda>_ _. False) w1"
      using that(1,3) by (rule wp_rollback)
    then show ?thesis
      unfolding wp_bindE wp_throwE_fun
      by (rule wp_mono, intro wp_mono [OF wp_clearPending [where X = "\<lambda>_ _. False"]])
         (auto simp: stores_def that(2))
  qed
  have saved: "wp (catchE (saveAccountAndSelect E a (ac_default a)) (\<lambda>r. case r of
      Inl e \<Rightarrow> bindE (rollbackCredential E (ac_id a) p) (\<lambda>_. bindE (clearPending E (ac_id a)) (\<lambda>_. throwE e))
    | Inr _ \<Rightarrow> bindE (clearPending E (ac_id a)) (\<lambda>_.
        returnE \<lparr>lr_status = ''success'', lr_account = Some (safeAccount a), lr_flow = []\<rparr>))) ?Q ?X w1"
    if p: "wasStored E w (ac_id a) p" and w1: "l_accounts w1 = l_accounts w" "l_keyring w1 = AList.update (ac_id a) (Some c) (l_keyring w)"
    for p w1
    unfolding wp_catchE sum.case
  proof (rule wp_mono [OF wp_saveAndSelect], goal_cases)
    case (1 u w2)
    show ?case
      unfolding wp_bindE wp_returnE_fun
      by (rule wp_mono [OF wp_clearPending [where X = "\<lambda>_ _. False"]])
         (use 1 w1 in \<open>auto simp: stores_def committed_def update_conv\<close>)
  next
    case (2 e w2)
    show ?case by (rule undo [OF p]) (use 2 w1 in \<open>auto simp: stores_def update_conv\<close>)
  qed
  show ?thesis
    unfolding commitSession_def wp_bindE [of "storedCredential E m i" for m i]
  proof (rule wp_mono [OF wp_storedCredential], goal_cases)
    case (1 p w1)
    show ?case
      unfolding wp_catchE [of "MarkPending E i" for i] sum.case wp_throwE_fun
    proof (rule wp_mono [OF wp_stores], goal_cases)
      case 1
      show ?case by (intro evolve_rules) simp_all
    next
      case (2 u w2)
      with 1 have w2: "stores w2 = stores w" by simp
      show ?case
        unfolding wp_catchE [of "credentialSet E i c" for i c] sum.case
      proof (rule wp_mono [OF wp_credentialSet], goal_cases)
        case (1 v w3)
        then show ?case using \<open>_ \<and> wasStored E w (ac_id a) p\<close> w2 by (intro saved) (auto simp: stores_def)
      next
        case (2 e w3)
        with w2 have "stores w3 = stores w" by simp
        then show ?case
          unfolding wp_bindE wp_throwE_fun
          by (intro wp_mono [OF wp_clearPending [where X = "\<lambda>_ _. False"]]) (auto simp: stores_def)
      qed
    qed (use 1 in \<open>auto simp: stores_def\<close>)
  qed (auto simp: stores_def)
qed


text \<open>
  A session that does not decode can neither be replaced by signing in nor removed with its
  account: both read it first and stop at the error, although its message says that it must be
  replaced.
\<close>

lemma corrupt_read:
  "ring w i = Some None \<Longrightarrow> wp (storedCredential E m i) (\<lambda>_ _. False) (\<lambda>_ w'. stores w' = stores w) w
     \<or> (\<exists>e. errIs e ErrCredentialsNotFound \<and> (\<exists>n. le_fault E KeyringCall n = Some e))"
  by (auto simp: storedCredential_def credentialGet_def wp_simps validateRequest_eq stores_def errIs_def
      split: option.splits)

theorem corrupt_session_blocks:
  assumes corrupt: "ring w i = Some None"
    and "\<And>n e. le_fault E KeyringCall n = Some e \<Longrightarrow> \<not> errIs e ErrCredentialsNotFound"
    and cleanup: "\<And>i. evolves (keeping stores) (cleanup i)"
  shows "isl (fst (RemoveAccount E cleanup i w)) \<and> isl (fst (commitSession E (a\<lparr>ac_id := i\<rparr>) c w))"
proof
  have read: "wp (storedCredential E m i) (\<lambda>_ _. False) (\<lambda>_ _. True) w1" if "stores w1 = stores w" for m w1
  proof -
    have "ring w1 i = Some None" using that corrupt by (simp add: stores_def)
    from corrupt_read [OF this, of E m] assms(2) show ?thesis by (auto intro: wp_mono)
  qed
  show "isl (fst (commitSession E (a\<lparr>ac_id := i\<rparr>) c w))"
    using read [of w "''Could not read the existing account session''"]
    by (auto simp: commitSession_def bindE_def wp_def split: prod.splits sum.splits)
  have "wp (RemoveAccount E cleanup i) (\<lambda>_ _. False) (\<lambda>_ _. True) w"
    unfolding RemoveAccount_def
  proof (rule wp_mutatingI, simp, unfold wp_bindE [of "getAccountRow E i"],
      rule wp_mono [OF wp_stores], goal_cases)
    case 1
    show ?case by (intro evolve_rules) simp
  next
    case (2 row w1)
    then have w1: "stores w1 = stores w" by (simp add: stores_def)
    show ?case
      unfolding wp_bindE [of "cleanup i"]
    proof (rule wp_mono [OF wp_stores [OF cleanup]], goal_cases)
      case (1 u w2)
      show ?case
        unfolding wp_bindE [of "storedCredential E m i" for m]
        by (rule wp_mono [OF read]) (use 1 w1 in auto)
    qed simp
  qed simp
  then show "isl (fst (RemoveAccount E cleanup i w))"
    by (cases "RemoveAccount E cleanup i w"; cases "fst (RemoveAccount E cleanup i w)") (auto simp: wp_def)
qed

section \<open>Flows\<close>

lemma purge_flow:
  "distinct (map fst (l_flows w)) \<Longrightarrow> map_of (l_flows (purgeExpired w)) i =
     (case map_of (l_flows w) i of Some f \<Rightarrow> if pl_expires f > l_now w then Some f else None | None \<Rightarrow> None)"
proof -
  assume "distinct (map fst (l_flows w))"
  moreover have "map_of (filter (\<lambda>(_, f). P f) xs) i = (case map_of xs i of Some f \<Rightarrow> if P f then Some f else None | None \<Rightarrow> None)"
    if "distinct (map fst xs)" for P and xs :: "(string \<times> pending_login) list"
    using that
  proof (induction xs)
    case (Cons x xs)
    then have "map_of xs (fst x) = None" by (simp add: map_of_eq_None_iff)
    with Cons show ?case by (cases x) auto
  qed simp
  ultimately show ?thesis by (simp add: purgeExpired_def)
qed

text \<open>
  A flow that is unknown or five minutes old is refused before the server is asked, and nothing
  but the expired flows is dropped.  A flow that led to a sign-in is gone.
\<close>

theorem login_flow_used_once:
  assumes "distinct (map fst (l_flows w))"
    and "TrimSpace code \<noteq> []" and "length (TrimSpace code) \<le> 16"
  shows "(case map_of (l_flows w) i of None \<Rightarrow> True | Some f \<Rightarrow> pl_expires f \<le> l_now w) \<Longrightarrow>
      CompleteTOTP E i code w =
        (Inl (NewError ErrAuthFlowExpired ''The login attempt has expired''), purgeExpired w)"
    and "wp (CompleteTOTP E i code)
      (\<lambda>r w'. lr_status r = ''success'' \<longrightarrow> map_of (l_flows w') i = None) (\<lambda>_ _. True) w"
proof -
  show "CompleteTOTP E i code w =
      (Inl (NewError ErrAuthFlowExpired ''The login attempt has expired''), purgeExpired w)"
    if "case map_of (l_flows w) i of None \<Rightarrow> True | Some f \<Rightarrow> pl_expires f \<le> l_now w"
  proof -
    from that have "map_of (l_flows (purgeExpired w)) i = None"
      using purge_flow [OF assms(1), of i] by (auto split: option.splits)
    then show ?thesis using assms(2,3) by (simp add: CompleteTOTP_def Let_def bindE_def)
  qed
  have refused: "lr_status (loginFailure e) \<noteq> ''success''" for e
    by (simp add: loginFailure_def loginStatus_def)
  have top: "wp m (\<lambda>_ _. True) (\<lambda>_ _. True) w" for m :: "'x launch" and w
    by (auto simp: wp_def split: prod.splits sum.splits)
  have "wp (bindE (persistSession E x y z) (\<lambda>result. if lr_status result = ''success''
      then bindE (deleteFlow i) (\<lambda>_. returnE result) else returnE result))
      (\<lambda>r w'. lr_status r = ''success'' \<longrightarrow> map_of (l_flows w') i = None) (\<lambda>_ _. True) v" for x y z v
    unfolding wp_bindE
    by (rule wp_mono [OF top]) (auto simp: wp_simps deleteFlow_def delete_conv)
  moreover have "wp (bindE (reportFailure E e) (\<lambda>_. returnE (loginFailure e)))
      (\<lambda>r w'. lr_status r = ''success'' \<longrightarrow> map_of (l_flows w') i = None) (\<lambda>_ _. True) v" for e v
    unfolding wp_bindE by (rule wp_mono [OF top]) (simp_all add: wp_simps refused)
  ultimately show "wp (CompleteTOTP E i code)
      (\<lambda>r w'. lr_status r = ''success'' \<longrightarrow> map_of (l_flows w') i = None) (\<lambda>_ _. True) w"
    by (auto simp: CompleteTOTP_def Let_def wp_simps wp_step serverLogin_def split_def
        split: option.splits sum.splits)
qed

section \<open>The interval of a validation\<close>

text \<open>
  Between reading the account and writing the answer of the server back, the validation holds
  neither the gate nor \<open>persistMu\<close>: the whole row that it read is written over whatever another
  operation stored in the meantime.
\<close>

definition twoAccounts :: launch_world where
  "twoAccounts = emptyLaunch\<lparr>
     l_accounts := [(safeAccount sampleAccount), (safeAccount sampleAccount)\<lparr>ac_id := ''b'', ac_uid := ''v'', ac_default := False\<rparr>],
     l_keyring := [(''a'', Some \<lparr>cr_key = ''k'', cr_signature = ''s''\<rparr>)]\<rparr>"

lemma twoAccounts_wf: "tableWf twoAccounts"
  by (simp add: tableWf_def twoAccounts_def accounts_wf_def defaults_def secretFree_def safeAccount_def sampleAccount_def)

definition readA :: "account \<times> launch_world" where
  "readA = (case authorizedAccount plainEnv ''a'' twoAccounts of (Inr a, w) \<Rightarrow> (a, w) | (Inl _, w) \<Rightarrow> (sampleAccount, w))"

text \<open>
  Selecting another account during a validation leaves two default accounts; removing the
  account during its validation brings the row back, without a session in the key store.
\<close>

theorem validation_overwrites:
  "tableWf twoAccounts \<and> fst (authorizedAccount plainEnv ''a'' twoAccounts) = Inr (fst readA) \<and>
   fst (SelectAccount plainEnv ''b'' (snd readA)) = Inr () \<and>
   \<not> tableWf (snd (recordValidation plainEnv (fst readA) True (snd (SelectAccount plainEnv ''b'' (snd readA))))) \<and>
   fst (RemoveAccount plainEnv (\<lambda>_. returnE ()) ''a'' (snd readA)) = Inr () \<and>
   (let w = snd (recordValidation plainEnv (fst readA) True
                   (snd (RemoveAccount plainEnv (\<lambda>_. returnE ()) ''a'' (snd readA))))
    in list_ex (\<lambda>a. ac_id a = ''a'') (l_accounts w) \<and> ring w ''a'' = None)"
  unfolding tableWf_def by code_simp

theorem accounts_table_invariant_witness:
  "tableWf (snd (RemoveAccount plainEnv (\<lambda>_. returnE ()) ''a'' twoAccounts))"
proof -
  have "evolves (keeping l_accounts) (returnE () :: unit launch)" by (rule evolves_returnE) simp
  from accounts_table_invariant [OF twoAccounts_wf this, of plainEnv] show ?thesis by simp
qed

end
