(* ===== verification/Launching.thy ===== *)
theory Launching
  imports AccountFacts
begin

text \<open>
  \<open>internal/launching/coordinator.go\<close> with \<open>platform/process/launcher.go\<close>: the validation and
  the start of a game, the work after its exit, and the maintenance of the instances'
  credentials.  A launch returns the session and the frame of the goroutine that waits for the
  process (\<open>wait_frame\<close>).

  The Linux build is modelled.  Detection of the .NET runtime, the search for Optimum and for
  OptiTime are values of \<open>lenv\<close>; \<open>EnsureLayout\<close> is modelled in \<open>ModFiles\<close> and only its error
  matters here.  Log timestamps are taken in UTC.
\<close>

definition gameStartupWindow :: time where
  "gameStartupWindow = 60 * 1000000000"

section \<open>Processes\<close>

text \<open>\<open>splitEnvironment\<close>: the key and the value around the first \<open>=\<close>.\<close>

fun splitEnvironment :: "string \<Rightarrow> (string \<times> string) option" where
  "splitEnvironment [] = None"
| "splitEnvironment (c # cs) =
     (if c = CHR ''='' then Some ([], cs)
      else map_option (\<lambda>(k, v). (c # k, v)) (splitEnvironment cs))"

definition mergeEnvironment :: "string list \<Rightarrow> (string \<times> string) list \<Rightarrow> (string \<times> string) list" where
  "mergeEnvironment base overrides =
     fold (\<lambda>(k, v). AList.update k v) overrides
       (fold (\<lambda>(k, v). AList.update k v) (List.map_filter splitEnvironment base) [])"

definition Getenv :: "lenv \<Rightarrow> string \<Rightarrow> string" where
  "Getenv E k = lookup_default [] (map_of (List.map_filter splitEnvironment (le_environ E))) k"

definition startProcess ::
  "lenv \<Rightarrow> string \<Rightarrow> string list \<Rightarrow> string \<Rightarrow> (string \<times> string) list \<Rightarrow> process_handle launch" where
  "startProcess E executable arguments directory environment = callL E ProcessCall (\<lambda>w.
     let pid = le_pid E (l_ticks w)
     in (Inr pid, w\<lparr>l_processes := AList.update pid
          \<lparr>gp_executable = executable, gp_arguments = arguments, gp_directory = directory,
           gp_environment = mergeEnvironment (le_environ E) environment,
           gp_alive = True, gp_interrupted = False\<rparr> (l_processes w)\<rparr>))"

definition setProcess :: "process_handle \<Rightarrow> (game_process \<Rightarrow> game_process) \<Rightarrow> launch_world \<Rightarrow> launch_world" where
  "setProcess pid f w = w\<lparr>l_processes := map (\<lambda>(p, x). (p, if p = pid then f x else x)) (l_processes w)\<rparr>"

definition killProcess :: "lenv \<Rightarrow> process_handle \<Rightarrow> unit launch" where
  "killProcess E pid = callL E ProcessCall (\<lambda>w. (Inr (), setProcess pid (\<lambda>x. x\<lparr>gp_alive := False\<rparr>) w))"

definition interruptProcess :: "lenv \<Rightarrow> process_handle \<Rightarrow> unit launch" where
  "interruptProcess E pid = callL E ProcessCall (\<lambda>w. (Inr (), setProcess pid (\<lambda>x. x\<lparr>gp_interrupted := True\<rparr>) w))"

section \<open>Arguments, paths and the log\<close>

definition buildLaunchArguments :: "string list \<Rightarrow> string list \<Rightarrow> string \<Rightarrow> string \<Rightarrow> string list" where
  "buildLaunchArguments global inst dataPath serverAddress =
     global @ inst @ [''--dataPath'', dataPath] @
     (if serverAddress \<noteq> [] then [''--connect'', serverAddress] else [])"

definition SplitList :: "string \<Rightarrow> string list" where
  "SplitList path = (if path = [] then [] else Split path (CHR '':''))"

definition pathContains :: "string \<Rightarrow> string \<Rightarrow> bool" where
  "pathContains path entry = list_ex (\<lambda>c. Clean c = Clean entry) (SplitList path)"

definition processStartMessage :: "string \<Rightarrow> string" where
  "processStartMessage c =
     (if c = GameClientOptimum
      then ''Failed to start Optimum. Check the configured installation or switch this instance to Vanilla''
      else ''Failed to start Vintage Story'')"

definition launchIssue :: "go_error \<Rightarrow> string" where
  "launchIssue e =
     (case asAppError e of
        Some a \<Rightarrow> if TrimSpace (err_message a) \<noteq> [] then err_message a
                  else ''Optimum could not be prepared for launch. Configure Optimum or switch this instance to Vanilla''
      | None \<Rightarrow> ''Optimum could not be prepared for launch. Configure Optimum or switch this instance to Vanilla'')"

fun date_digits :: "int \<times> int \<times> int \<Rightarrow> string" where
  "date_digits (y, m, d) = pad 4 y @ pad 2 m @ pad 2 d"

definition logName :: "time \<Rightarrow> string" where
  "logName t =
     (let sod = t div 1000000000 mod 86400
      in date_digits (civil_date (t div 1000000000 div 86400)) @ ''-'' @
         pad 2 (sod div 3600) @ pad 2 (sod mod 3600 div 60) @ pad 2 (sod mod 60) @ ''.'' @
         pad 9 (t mod 1000000000) @ ''.log'')"

text \<open>
  \<open>LaunchLogs.Open\<close>: exclusive creation; when securing the new file fails, it is closed and
  stays.
\<close>

definition openLog :: "lenv \<Rightarrow> string \<Rightarrow> unit launch" where
  "openLog E path = (\<lambda>w.
     (let w' = w\<lparr>l_ticks := Suc (l_ticks w)\<rparr>
      in if map_of (l_logs w) path \<noteq> None then (Inl (OtherError ''file exists''), w')
         else case le_fault E LogCall (l_ticks w) of
                None \<Rightarrow> (Inr (), w'\<lparr>l_logs := (path, \<lparr>lg_open = True, lg_text = []\<rparr>) # l_logs w\<rparr>)
              | Some e \<Rightarrow> (Inl e, if le_late E (l_ticks w)
                  then w'\<lparr>l_logs := (path, \<lparr>lg_open = False, lg_text = []\<rparr>) # l_logs w\<rparr> else w')))"

definition setLog :: "string \<Rightarrow> (launch_log \<Rightarrow> launch_log) \<Rightarrow> launch_world \<Rightarrow> launch_world" where
  "setLog path f w = w\<lparr>l_logs := map (\<lambda>(p, x). (p, if p = path then f x else x)) (l_logs w)\<rparr>"

definition writeLaunchCommand :: "lenv \<Rightarrow> string \<Rightarrow> string \<Rightarrow> unit launch" where
  "writeLaunchCommand E path executable = callL E LogCall (\<lambda>w.
     (Inr (), setLog path (\<lambda>x. x\<lparr>lg_text := lg_text x @ ''Executing: '' @ executable @
        '' [arguments omitted]'' @ [CHR 0x0A]\<rparr>) w))"

definition closeLaunchLog :: "string \<Rightarrow> unit launch" where
  "closeLaunchLog path = modifyE (setLog path (\<lambda>x. x\<lparr>lg_open := False\<rparr>))"

definition hardenLogs :: "lenv \<Rightarrow> string \<Rightarrow> unit launch" where
  "hardenLogs E directory = readL E LogCall (\<lambda>_. Inr ())"

definition ensureLayout :: "lenv \<Rightarrow> string \<Rightarrow> unit launch" where
  "ensureLayout E directory = callL E LayoutCall (\<lambda>w.
     (Inr (), w\<lparr>l_directories := List.insert directory (l_directories w)\<rparr>))"

text \<open>\<open>ensureLinuxInterpreter\<close>: patches the ELF interpreter of the game once.\<close>

definition trimNul :: "string \<Rightarrow> string" where
  "trimNul s = rev (dropWhile (\<lambda>c. c = CHR 0x00) (rev s))"

definition ensureLinuxInterpreter :: "lenv \<Rightarrow> string \<Rightarrow> string \<Rightarrow> unit launch" where
  "ensureLinuxInterpreter E executable interpreter =
     bindE (getE (\<lambda>w. map_of (l_binaries w) executable)) (\<lambda>b. case b of
       Some (ElfUnreadable text) \<Rightarrow>
         throwE (WrapError ''read the game ELF interpreter'' (OtherError text))
     | Some (ElfInterpreter raw) \<Rightarrow>
         (if trimNul raw = [] \<or> trimNul raw = interpreter then returnE ()
          else if \<not> le_patchelf E
            then throwE (WrapError ''patchelf is required to run the game on this platform''
                   (OtherError ''executable file not found in $PATH''))
          else catchE (callL E BinaryCall (\<lambda>w. (Inr (),
                 w\<lparr>l_binaries := AList.update executable (ElfInterpreter interpreter) (l_binaries w)\<rparr>)))
               (\<lambda>r. case r of Inl e \<Rightarrow> throwE (WrapError ''set the game ELF interpreter'' e)
                    | Inr _ \<Rightarrow> returnE ()))
     | _ \<Rightarrow> returnE ())"

section \<open>Choosing the account and the executable\<close>

definition chosen :: "string option \<Rightarrow> string option" where
  "chosen r = (case r of Some x \<Rightarrow> if TrimSpace x \<noteq> [] then Some x else None | None \<Rightarrow> None)"

definition resolveAccountID :: "lenv \<Rightarrow> game_instance \<Rightarrow> string option \<Rightarrow> string option launch" where
  "resolveAccountID E inst requested =
     (case chosen requested of
        Some r \<Rightarrow> bindE (GetAccount E r) (\<lambda>_. returnE (Some r))
      | None \<Rightarrow>
          (case chosen (gi_account inst) of
             Some r \<Rightarrow> bindE (GetAccount E r) (\<lambda>_. returnE (Some r))
           | None \<Rightarrow> bindE (ListAccounts E) (\<lambda>stored.
               returnE (map_option ac_id (find ac_default stored)))))"

definition getSettings :: "lenv \<Rightarrow> launch_settings launch" where
  "getSettings E = readL E DatabaseCall (\<lambda>w. Inr (l_settings w))"

definition resolveLaunchTarget :: "lenv \<Rightarrow> game_instance \<Rightarrow> game_version \<Rightarrow> optimum_target launch" where
  "resolveLaunchTarget E inst version =
     (if gi_client inst \<noteq> GameClientOptimum
      then returnE \<lparr>ot_executable = gv_executable version, ot_directory = Dir (gv_executable version),
                    ot_exclusive = False\<rparr>
      else bindE (getSettings E) (\<lambda>settings.
        bindE (tickL (\<lambda>n. le_optimum E n (st_optimum settings) (Dir (gv_executable version)))) (\<lambda>r. case r of
          Inl e \<Rightarrow> throwE e
        | Inr target \<Rightarrow>
            bindE (getE (\<lambda>w. ClientRunning (l_registry w) GameClientOptimum)) (\<lambda>used.
              if ot_exclusive target \<and> used
              then throwE (NewError ErrValidation
                     ''This Optimum installation is already being used by another running instance'')
              else returnE target))))"

section \<open>Validation\<close>

record launch_validation =
  lv_valid :: bool
  lv_issues :: "string list"
  lv_warnings :: "string list"

definition validLaunch :: launch_validation where
  "validLaunch = \<lparr>lv_valid = True, lv_issues = [], lv_warnings = []\<rparr>"

definition issue :: "string \<Rightarrow> launch_validation \<Rightarrow> launch_validation" where
  "issue text v = v\<lparr>lv_valid := False, lv_issues := lv_issues v @ [text]\<rparr>"

definition warning :: "string \<Rightarrow> launch_validation \<Rightarrow> launch_validation" where
  "warning text v = v\<lparr>lv_warnings := lv_warnings v @ [text]\<rparr>"

definition checkExecutable :: "lenv \<Rightarrow> game_instance \<Rightarrow> string \<Rightarrow> launch_validation \<Rightarrow> launch_validation launch" where
  "checkExecutable E inst executable v = bindE (executableExists E executable) (\<lambda>found.
     returnE (if found then v
       else if gi_client inst = GameClientOptimum
         then issue ''The configured Optimum executable could not be found. Configure Optimum or switch this instance to Vanilla'' v
       else issue ''The Vintagestory executable could not be found'' v))"

definition checkAccount :: "lenv \<Rightarrow> game_instance \<Rightarrow> string option \<Rightarrow> launch_validation \<Rightarrow> launch_validation launch" where
  "checkAccount E inst requested v = catchE (resolveAccountID E inst requested) (\<lambda>r.
     let v' = (case r of Inl _ \<Rightarrow> issue ''The selected account no longer exists'' v | Inr _ \<Rightarrow> v)
     in case (case r of Inl _ \<Rightarrow> None | Inr c \<Rightarrow> c) of
          None \<Rightarrow> returnE (warning ''No account is selected. The game will start without authentication data.'' v')
        | Some i \<Rightarrow> catchE (GetAccount E i) (\<lambda>q. case q of
            Inl _ \<Rightarrow> returnE (issue ''The selected account no longer exists'' v')
          | Inr a \<Rightarrow> returnE (if ac_status a = AccountExpired \<or> ac_status a = AccountNeedsReauth
              then issue ''The selected account must be authenticated again'' v' else v')))"

definition checkMods :: "lenv \<Rightarrow> game_instance \<Rightarrow> launch_validation \<Rightarrow> launch_validation" where
  "checkMods E inst v =
     (if gi_client inst = GameClientOptimum \<and> le_has_optitime E (gi_directory inst) = Inr True
      then warning ''OptiTime is installed in this instance. Optimum already provides the functionality of OptiTime and using both may cause problems.'' v
      else v)"

definition ValidateLaunch :: "lenv \<Rightarrow> string \<Rightarrow> string option \<Rightarrow> launch_validation launch" where
  "ValidateLaunch E instanceID requested = bindE (getInstance E instanceID) (\<lambda>inst.
     catchE (ResolveExecutable E (gi_version inst)) (\<lambda>rv. case rv of
       Inl e \<Rightarrow> returnE (issue (if isAppErrorCode e ErrVersionNotFound
           then ''The selected game version is not installed''
           else ''The Vintagestory executable could not be found'') validLaunch)
     | Inr version \<Rightarrow> catchE (resolveLaunchTarget E inst version) (\<lambda>rt. case rt of
         Inl e \<Rightarrow> returnE (issue (launchIssue e) validLaunch)
       | Inr target \<Rightarrow>
           bindE (checkExecutable E inst (ot_executable target) validLaunch) (\<lambda>v.
           bindE (checkAccount E inst requested v) (\<lambda>v.
           bindE (getE (\<lambda>w. Running (l_registry w) instanceID)) (\<lambda>running.
             returnE (checkMods E inst
               (if running then issue ''This instance is already running'' v else v))))))))"

section \<open>Launch\<close>

definition settingsPath :: "game_instance \<Rightarrow> string" where
  "settingsPath inst = JoinPath [gi_directory inst, ''clientsettings.json'']"

text \<open>What the goroutine \<open>waitForGame\<close> is started with.\<close>

record wait_frame =
  wf_instance :: game_instance
  wf_pid :: process_handle
  wf_session :: string
  wf_started :: time
  wf_log :: string
  wf_cleanup :: "string option"
  wf_dotnet :: bool

definition onError :: "unit launch \<Rightarrow> 'a launch \<Rightarrow> 'a launch" where
  "onError c m = catchE m (\<lambda>r. case r of Inl e \<Rightarrow> bindE c (\<lambda>_. throwE e) | Inr x \<Rightarrow> returnE x)"

text \<open>The cleanup function of a launch: of the injected file, or nothing.\<close>

definition clearInjectedCredentials :: "lenv \<Rightarrow> string option \<Rightarrow> unit launch" where
  "clearInjectedCredentials E cleanup =
     (case cleanup of None \<Rightarrow> returnE () | Some path \<Rightarrow> ignoreL (cleanupInjected E path))"

definition injectAccount :: "lenv \<Rightarrow> string \<Rightarrow> string option \<Rightarrow> string option launch" where
  "injectAccount E path accountID =
     (case accountID of
        Some i \<Rightarrow> bindE (ValidateAuthorizedAccount E i) (\<lambda>a. catchE (Inject E path a) (\<lambda>r. case r of
          Inl e \<Rightarrow> throwE (AppError ErrClientSettings
                   ''Could not write authentication to the instance settings'' False (Some e))
        | Inr _ \<Rightarrow> returnE (Some path)))
      | None \<Rightarrow> catchE (ClearSettings E path) (\<lambda>r. case r of
          Inl e \<Rightarrow> throwE (AppError ErrClientSettings
                   ''Could not clear authentication from the instance settings'' False (Some e))
        | Inr _ \<Rightarrow> returnE None))"

text \<open>The environment of the process, and whether a compatible runtime was found.\<close>

definition launchEnvironment :: "lenv \<Rightarrow> game_instance \<Rightarrow> (string \<times> string) list \<times> bool" where
  "launchEnvironment E inst =
     (let base = AList.update ''WAXLIGHT_INSTANCE_DIR'' (gi_directory inst) (gi_environment inst)
      in if gi_client inst = GameClientOptimum then (base, False)
         else case le_dotnet E of
           None \<Rightarrow> (base, False)
         | Some runtime \<Rightarrow>
             (let rooted = AList.update ''DOTNET_ROOT'' runtime base;
                  own = lookup_default [] (map_of rooted) ''PATH'';
                  path = (if own = [] then Getenv E ''PATH'' else own)
              in (if pathContains path runtime then rooted
                  else AList.update ''PATH'' (runtime @ '':'' @ path) rooted, True)))"

definition prepareInterpreter :: "lenv \<Rightarrow> game_instance \<Rightarrow> string \<Rightarrow> unit launch" where
  "prepareInterpreter E inst executable =
     (let interpreter = Getenv E ''WAXLIGHT_ELF_INTERPRETER''
      in if gi_client inst \<noteq> GameClientOptimum \<and> interpreter \<noteq> []
         then catchE (ensureLinuxInterpreter E executable interpreter) (\<lambda>r. case r of
                Inl e \<Rightarrow> throwE (AppError ErrFilePermission
                  ''Could not prepare the game executable for this platform'' False (Some e))
              | Inr _ \<Rightarrow> returnE ())
         else returnE ())"

text \<open>The error path of every step with an open log.\<close>

definition abortLaunch :: "lenv \<Rightarrow> string \<Rightarrow> string option \<Rightarrow> unit launch" where
  "abortLaunch E logPath cleanup =
     bindE (closeLaunchLog logPath) (\<lambda>_. clearInjectedCredentials E cleanup)"

definition logPathOf :: "game_instance \<Rightarrow> time \<Rightarrow> string" where
  "logPathOf inst now = JoinPath [JoinPath [gi_directory inst, ''Logs''], logName now]"

definition prepareLog :: "lenv \<Rightarrow> game_instance \<Rightarrow> (launch_settings \<times> string) launch" where
  "prepareLog E inst =
     bindE (ensureLayout E (gi_directory inst)) (\<lambda>_.
     bindE (hardenLogs E (JoinPath [gi_directory inst, ''Logs''])) (\<lambda>_.
     bindE (getSettings E) (\<lambda>settings.
     bindE nowL (\<lambda>now.
     bindE (openLog E (logPathOf inst now)) (\<lambda>_.
     returnE (settings, logPathOf inst now))))))"

definition writeCommand :: "lenv \<Rightarrow> string \<Rightarrow> string \<Rightarrow> unit launch" where
  "writeCommand E logPath executable =
     catchE (writeLaunchCommand E logPath executable) (\<lambda>r. case r of
       Inl e \<Rightarrow> throwE (AppError ErrFilePermission
         ''Could not write the launch command to the instance log'' False (Some e))
     | Inr _ \<Rightarrow> returnE ())"

definition launchProcess ::
  "lenv \<Rightarrow> game_instance \<Rightarrow> optimum_target \<Rightarrow> string list \<Rightarrow> string \<Rightarrow> string option \<Rightarrow> process_handle launch" where
  "launchProcess E inst target arguments logPath cleanup =
     catchE (startProcess E (ot_executable target) arguments (ot_directory target)
               (fst (launchEnvironment E inst))) (\<lambda>r. case r of
       Inl e \<Rightarrow> bindE (abortLaunch E logPath cleanup) (\<lambda>_.
               bindE (reportL E (LaunchEvent ''game_launch_failed'')) (\<lambda>_.
               bindE (reportL E (LaunchError ''GAME_LAUNCH_FAILED'' ''game_launcher'' ''launch_game'')) (\<lambda>_.
               throwE (AppError ErrProcessStart (processStartMessage (gi_client inst)) False (Some e)))))
     | Inr pid \<Rightarrow> returnE pid)"

definition saveSession ::
  "lenv \<Rightarrow> game_instance \<Rightarrow> string option \<Rightarrow> game_version \<Rightarrow> process_handle \<Rightarrow> string \<Rightarrow> string option \<Rightarrow>
     play_session launch" where
  "saveSession E inst accountID version pid logPath cleanup =
     bindE nowL (\<lambda>now. bindE (tickL (le_new_id E)) (\<lambda>i.
     let session = \<lparr>ps_id = i, ps_instance = gi_id inst, ps_account = accountID, ps_version = gv_id version,
           ps_pid = Some pid, ps_started = now, ps_ended = None, ps_duration = 0, ps_exit = None,
           ps_crashed = False, ps_recovered = False\<rparr>
     in bindE (onError (bindE (ignoreL (killProcess E pid)) (\<lambda>_. abortLaunch E logPath cleanup))
                 (CreateSession E session)) (\<lambda>_. returnE session)))"

text \<open>The process runs and its session is saved: the launch can no longer fail.\<close>

definition registerGame ::
  "lenv \<Rightarrow> game_instance \<Rightarrow> play_session \<Rightarrow> process_handle \<Rightarrow> string \<Rightarrow> string option \<Rightarrow> wait_frame launch" where
  "registerGame E inst session pid logPath cleanup =
     (let now = ps_started session;
          running = inst\<lparr>gi_status := InstanceRunning, gi_last_played := Some now, gi_updated := now\<rparr>
      in bindE (ignoreL (saveInstance E running)) (\<lambda>_.
         bindE (modifyE (\<lambda>w. w\<lparr>l_registry := StartGame (l_registry w) (gi_id inst)
           \<lparr>process = pid, sessionID = ps_id session, started = now, client = gi_client inst\<rparr>\<rparr>)) (\<lambda>_.
         bindE (publishL (GameStartedEvent session)) (\<lambda>_.
         bindE (modifyE (\<lambda>w. w\<lparr>l_presence := l_presence w @ [PresenceStarted]\<rparr>)) (\<lambda>_.
         bindE (reportL E (LaunchEvent ''game_launch_succeeded'')) (\<lambda>_.
         returnE \<lparr>wf_instance = running, wf_pid = pid, wf_session = ps_id session, wf_started = now,
           wf_log = logPath, wf_cleanup = cleanup, wf_dotnet = snd (launchEnvironment E inst)\<rparr>))))))"

text \<open>With the credentials in place, up to the saved session: every error undoes what was done.\<close>

definition startGame ::
  "lenv \<Rightarrow> game_instance \<Rightarrow> game_version \<Rightarrow> optimum_target \<Rightarrow> string option \<Rightarrow> string \<Rightarrow> string option \<Rightarrow>
     (play_session \<times> process_handle \<times> string) launch" where
  "startGame E inst version target accountID serverAddress cleanup =
     bindE (onError (clearInjectedCredentials E cleanup) (prepareLog E inst)) (\<lambda>(settings, logPath).
     bindE (onError (abortLaunch E logPath cleanup)
              (bindE (writeCommand E logPath (ot_executable target)) (\<lambda>_.
               prepareInterpreter E inst (ot_executable target)))) (\<lambda>_.
     bindE (launchProcess E inst target
              (buildLaunchArguments (st_arguments settings) (gi_arguments inst) (gi_directory inst) serverAddress)
              logPath cleanup) (\<lambda>pid.
     bindE (saveSession E inst accountID version pid logPath cleanup) (\<lambda>session.
     returnE (session, pid, logPath)))))"

definition launchInjected ::
  "lenv \<Rightarrow> game_instance \<Rightarrow> game_version \<Rightarrow> optimum_target \<Rightarrow> string option \<Rightarrow> string \<Rightarrow> string option \<Rightarrow>
     (play_session \<times> wait_frame) launch" where
  "launchInjected E inst version target accountID serverAddress cleanup =
     bindE (startGame E inst version target accountID serverAddress cleanup) (\<lambda>(session, pid, logPath).
     bindE (registerGame E inst session pid logPath cleanup) (\<lambda>frame. returnE (session, frame)))"

definition launchChecked ::
  "lenv \<Rightarrow> string \<Rightarrow> string option \<Rightarrow> string \<Rightarrow> (play_session \<times> wait_frame) launch" where
  "launchChecked E instanceID requested serverAddress =
     bindE (getE (\<lambda>w. InstanceBusy (l_registry w) instanceID)) (\<lambda>busy.
     if busy then throwE instanceBusyError
     else bindE (ValidateLaunch E instanceID requested) (\<lambda>v.
     if \<not> lv_valid v then throwE (NewError ErrValidation (Join (lv_issues v) ''; ''))
     else bindE (getInstance E instanceID) (\<lambda>inst.
     bindE (ResolveExecutable E (gi_version inst)) (\<lambda>version.
     bindE (resolveLaunchTarget E inst version) (\<lambda>target.
     bindE (resolveAccountID E inst requested) (\<lambda>accountID.
     bindE (injectAccount E (settingsPath inst) accountID) (\<lambda>cleanup.
     launchInjected E inst version target accountID serverAddress cleanup)))))))"

text \<open>The gate stays taken when the launch succeeds: the waiting goroutine releases it.\<close>

definition launch ::
  "lenv \<Rightarrow> string \<Rightarrow> string option \<Rightarrow> string \<Rightarrow> (play_session \<times> wait_frame) launch" where
  "launch E instanceID requested serverAddress = bindE beginMutation (\<lambda>_.
     onError (modifyE endMutation) (launchChecked E instanceID requested serverAddress))"

definition Launch :: "lenv \<Rightarrow> string \<Rightarrow> string option \<Rightarrow> (play_session \<times> wait_frame) launch" where
  "Launch E instanceID requested = launch E instanceID requested []"

definition LaunchServer :: "lenv \<Rightarrow> string \<Rightarrow> string option \<Rightarrow> string \<Rightarrow> (play_session \<times> wait_frame) launch" where
  "LaunchServer E instanceID requested address0 =
     (let address = TrimSpace address0
      in if address = [] \<or> length address > 255 \<or>
            list_ex (\<lambda>c. c \<in> {CHR '' '', CHR 0x09, CHR 0x0D, CHR 0x0A, CHR ''/'', CHR ''?'', CHR ''#''}) address
         then throwE (NewError ErrValidation ''Enter a valid server address'')
         else launch E instanceID requested address)"

section \<open>While the game runs and after it\<close>

definition recordRecovery :: "recovery_call \<Rightarrow> unit launch" where
  "recordRecovery c = modifyE (\<lambda>w. w\<lparr>l_recovery := l_recovery w @ [c]\<rparr>)"

text \<open>\<open>markLaunchEstablished\<close>, once its timer has fired.\<close>

definition markLaunchEstablished :: "game_instance \<Rightarrow> string \<Rightarrow> unit launch" where
  "markLaunchEstablished inst session =
     bindE (getE (\<lambda>w. GetGame (l_registry w) (gi_id inst))) (\<lambda>g. case g of
       None \<Rightarrow> returnE ()
     | Some game \<Rightarrow> if sessionID game \<noteq> session then returnE ()
                    else recordRecovery (LastKnownGood (gi_id inst)))"

definition RecordEstablishedOnShutdown :: "lenv \<Rightarrow> unit launch" where
  "RecordEstablishedOnShutdown E =
     bindE (getE (\<lambda>w. filter (\<lambda>i. case GetGame (l_registry w) i of
         Some game \<Rightarrow> l_now w - started game \<ge> gameStartupWindow | None \<Rightarrow> False)
       (RunningInstanceIDs (l_registry w)))) (\<lambda>established.
     forE established (\<lambda>i. catchE (getInstance E i) (\<lambda>r. case r of
       Inl _ \<Rightarrow> returnE ()
     | Inr inst \<Rightarrow> recordRecovery (LastKnownGood (gi_id inst)))))"

text \<open>
  \<open>waitForGame\<close>: first the running entry goes, then the rest follows, in steps that other
  goroutines may come between.  The times are read as they pass.
\<close>

definition stopTracking :: "wait_frame \<Rightarrow> unit launch" where
  "stopTracking f = modifyE (\<lambda>w. w\<lparr>l_registry := StopGame (l_registry w) (gi_id (wf_instance f))\<rparr>)"

definition releaseResources :: "lenv \<Rightarrow> wait_frame \<Rightarrow> unit launch" where
  "releaseResources E f = bindE (closeLaunchLog (wf_log f)) (\<lambda>_. clearInjectedCredentials E (wf_cleanup f))"

definition dotnetMessage :: string where
  "dotnetMessage = ''Vintage Story could not start because a compatible .NET runtime was not found. Vintage Story 1.22 requires .NET 10.''"

definition recordExit :: "lenv \<Rightarrow> wait_frame \<Rightarrow> int \<Rightarrow> bool \<Rightarrow> unit launch" where
  "recordExit E f exitCode waitFailed = bindE nowL (\<lambda>now.
     let duration = (now - wf_started f) div 1000000000;
         crashed = (waitFailed \<or> exitCode \<noteq> 0);
         early = (now - wf_started f < gameStartupWindow);
         inst = wf_instance f
     in bindE (if crashed \<and> early then recordRecovery (FailedLaunch (gi_id inst)) else returnE ()) (\<lambda>_.
        bindE (ignoreL (FinishSession E (wf_session f) exitCode crashed duration)) (\<lambda>_.
        bindE (ignoreL (saveInstance E (inst\<lparr>gi_status := InstanceReady, gi_updated := now\<rparr>))) (\<lambda>_.
        bindE (publishL (GameExitedEvent (gi_id inst) (wf_session f) exitCode crashed duration
          (if exitCode = 131 \<and> \<not> wf_dotnet f \<and> early then Some dotnetMessage else None))) (\<lambda>_.
        modifyE (\<lambda>w. if RunningInstanceIDs (l_registry w) = []
          then w\<lparr>l_presence := l_presence w @ [PresenceStopped]\<rparr> else w))))))"

definition waitForGame :: "lenv \<Rightarrow> wait_frame \<Rightarrow> int \<Rightarrow> bool \<Rightarrow> unit launch" where
  "waitForGame E f exitCode waitFailed = finallyE
     (bindE (stopTracking f) (\<lambda>_. bindE (releaseResources E f) (\<lambda>_. recordExit E f exitCode waitFailed)))
     endMutation"

definition Stop :: "lenv \<Rightarrow> string \<Rightarrow> bool \<Rightarrow> unit launch" where
  "Stop E instanceID force =
     bindE (getE (\<lambda>w. GetGame (l_registry w) instanceID)) (\<lambda>g. case g of
       None \<Rightarrow> throwE (NewError ErrValidation ''The instance is not running'')
     | Some game \<Rightarrow>
         catchE (if force then killProcess E (process game) else interruptProcess E (process game)) (\<lambda>r. case r of
           Inl e \<Rightarrow> throwE (AppError ErrProcessStop ''Failed to stop Vintage Story'' False (Some e))
         | Inr _ \<Rightarrow> returnE ()))"

section \<open>Maintenance\<close>

definition CheckDataRootRelocation :: "lenv \<Rightarrow> unit launch" where
  "CheckDataRootRelocation E =
     bindE (getE (\<lambda>w. RunningInstanceIDs (l_registry w) \<noteq> [])) (\<lambda>running.
     if running then throwE (NewError ErrInstanceRunning ''Stop the game before moving the data folder'')
     else bindE (readL E DatabaseCall (\<lambda>w. Inr (ListOperations 1000 (op_rows (l_operations w))))) (\<lambda>tracked.
       if list_ex (\<lambda>r. op_status r = StatusRunning \<or> op_status r = StatusQueued) tracked
       then throwE (NewError ErrDataFolderBusy
              ''Wait for running operations to finish before moving the data folder'')
       else returnE ()))"

text \<open>\<open>errors.Join\<close> of the collected errors: none is success.\<close>

definition joinErrors :: "go_error list \<Rightarrow> unit launch" where
  "joinErrors es = (if es = [] then returnE () else throwE (OtherError (Join (map errorText es) [CHR 0x0A])))"

definition collectErrors :: "game_instance list \<Rightarrow> (game_instance \<Rightarrow> unit launch) \<Rightarrow> (game_instance \<Rightarrow> go_error \<Rightarrow> go_error) \<Rightarrow>
    go_error list \<Rightarrow> go_error list launch" where
  "collectErrors targets f wrap es = foldE (\<lambda>inst acc. catchE (f inst) (\<lambda>r. case r of
     Inl e \<Rightarrow> returnE (acc @ [wrap inst e]) | Inr _ \<Rightarrow> returnE acc)) targets es"

definition ReconcileInjectedCredentials :: "lenv \<Rightarrow> unit launch" where
  "ReconcileInjectedCredentials E = mutating (bindE (listInstances E) (\<lambda>stored.
     bindE (getE (\<lambda>w. filter (\<lambda>i. gi_directory i \<in> set (l_directories w)) stored)) (\<lambda>targets.
     bindE (collectErrors targets (\<lambda>i. ReconcileSettings E (settingsPath i))
       (\<lambda>i e. WrapError (''instance '' @ gi_name i @ '': reconcile client settings'')
          (AppError ErrClientSettings ''Could not clear stale instance authentication'' False (Some e))) []) (\<lambda>es.
     bindE (collectErrors targets (\<lambda>i. hardenLogs E (JoinPath [gi_directory i, ''Logs'']))
       (\<lambda>i e. WrapError (''instance '' @ gi_name i @ '': harden logs'') e) es) joinErrors))))"

definition ClearAccountFromInstances :: "lenv \<Rightarrow> string \<Rightarrow> unit launch" where
  "ClearAccountFromInstances E accountID = mutating (bindE (listInstances E) (\<lambda>stored.
     forE stored (\<lambda>inst. catchE (ClearSettings E (settingsPath inst)) (\<lambda>r. case r of
       Inl e \<Rightarrow> throwE (AppError ErrClientSettings
                ''Could not clear account authentication from an instance'' False (Some e))
     | Inr _ \<Rightarrow>
         if gi_account inst = Some accountID
         then bindE nowL (\<lambda>now. saveInstance E (inst\<lparr>gi_account := None, gi_updated := now\<rparr>))
         else returnE ()))))"

end
