(* ===== verification/LaunchFacts.thy ===== *)
theory LaunchFacts
  imports Launching
begin

text \<open>
  What a launch leaves behind, on its failing branches and when it succeeds, and what the work
  after the exit of the game restores.
\<close>

section \<open>Frames\<close>

text \<open>
  \<open>calm\<close>: the registry, the logs, the processes, the sessions and the settings files are as
  before, and so is the gate.
\<close>

definition resources :: "launch_world \<Rightarrow> process_handle registry \<times> (string \<times> launch_log) list \<times>
    (process_handle \<times> game_process) list \<times> play_session list \<times> (string \<times> settings_node) list \<times>
    recovery_call list \<times> launch_event list \<times> time" where
  "resources w = (l_registry w, l_logs w, l_processes w, l_sessions w, l_files w, l_recovery w, l_events w, l_now w)"

definition gateSame :: "launch_world \<Rightarrow> launch_world \<Rightarrow> bool" where
  "gateSame w w' \<longleftrightarrow> (0 \<le> active (l_gate w) \<longrightarrow> l_gate w' = l_gate w)"

definition calm :: "launch_world \<Rightarrow> launch_world \<Rightarrow> bool" where
  "calm w w' \<longleftrightarrow> gateSame w w' \<and> resources w' = resources w"

lemma quiet_calm [simp]: "quiet calm"
  by (auto simp: quiet_def preorder_rel_def reflp_def transp_def ignores_def calm_def gateSame_def resources_def)

lemma ignores_calm [simp]:
  "ignores l_instances_update calm" "ignores l_versions_update calm" "ignores l_accounts_update calm"
  "ignores l_keyring_update calm" "ignores l_pending_update calm" "ignores l_flows_update calm"
  "ignores l_reports_update calm" "ignores l_binaries_update calm" "ignores l_directories_update calm"
  "ignores l_presence_update calm"
  by (simp_all add: ignores_def calm_def gateSame_def resources_def)

lemma calm_refl [simp]: "calm w w"
  by (simp add: calm_def gateSame_def)

lemma calm_trans: "calm a b \<Longrightarrow> calm b c \<Longrightarrow> calm a c"
  by (rule quiet_trans [OF quiet_calm])

lemma calm_mutating:
  assumes "evolves calm m" shows "evolves calm (mutating m)"
  unfolding evolves_def
proof
  fix w :: launch_world
  let ?w1 = "w\<lparr>l_gate := (l_gate w)\<lparr>active := active (l_gate w) + 1\<rparr>\<rparr>"
  obtain r w2 where m: "m ?w1 = (r, w2)" by fastforce
  then have "calm ?w1 w2" using assms by (rule evolvesD [rotated])
  then have "calm w (endMutation w2)"
    by (auto simp: calm_def gateSame_def resources_def endMutation_def End_def)
  with m show "calm w (snd (mutating m w))"
    by (simp add: mutating_def bindE_def beginMutation_eq finallyE_def)
qed

lemma evolves_saveAccountRow:
  "quiet R \<Longrightarrow> ignores l_accounts_update R \<Longrightarrow> evolves R (saveAccountRow E a)"
  unfolding saveAccountRow_def
  by (rule evolves_callL) (auto dest: ignoresD)

lemma calm_reads:
  "evolves calm (GetAccount E i)" "evolves calm (ListAccounts E)" "evolves calm (getSettings E)"
  unfolding GetAccount_def ListAccounts_def getSettings_def by (auto intro!: evolve_rules)

lemma calm_Validate: "evolves calm (ValidateAuthorizedAccount E i)"
  unfolding ValidateAuthorizedAccount_def authorizedAccount_def recordValidation_def saveAccountMutation_def Let_def
  by (auto intro!: evolve_rules calm_mutating evolves_saveAccountRow)

lemma calm_resolve:
  "evolves calm (resolveAccountID E inst r)" "evolves calm (resolveLaunchTarget E inst v)"
  unfolding resolveAccountID_def resolveLaunchTarget_def
  by (auto intro!: evolve_rules calm_reads)

lemma calm_ValidateLaunch: "evolves calm (ValidateLaunch E i r)"
  unfolding ValidateLaunch_def checkExecutable_def checkAccount_def Let_def
  by (auto intro!: evolve_rules calm_resolve calm_reads split: sum.split)

lemma wp_calm: "evolves calm m \<Longrightarrow> wp m (\<lambda>_ w'. calm w w') (\<lambda>_ w'. calm w w') w"
  by (auto intro!: wpI dest: evolvesD)

section \<open>Files without sessions\<close>

definition cleaned :: "launch_world \<Rightarrow> launch_world \<Rightarrow> bool" where
  "cleaned w w' \<longleftrightarrow> (\<forall>p. map_of (l_files w') p = map_of (l_files w) p \<or> authFreeNode (map_of (l_files w') p))"

lemma cleaned_files: "l_files w2 = l_files w1 \<Longrightarrow> cleaned w w2 = cleaned w w1"
  by (simp add: cleaned_def)

lemma cleaned_refl [simp]: "cleaned w w"
  by (simp add: cleaned_def)

lemma cleaned_trans: "cleaned a b \<Longrightarrow> cleaned b c \<Longrightarrow> cleaned a c"
  unfolding cleaned_def by metis

lemma authFreeNode_None [simp]: "authFreeNode None"
  by (simp add: authFreeNode_def)

lemma journal_authFree: "authFreeNode (Some (injectionJournal t))"
proof -
  have "\<not> EqualFold ''version'' ''stringsettings''" "\<not> EqualFold ''injectedAt'' ''stringsettings''" by code_simp+
  then show ?thesis by (simp add: authFreeNode_def injectionJournal_def authFree_def matchingSections_def)
qed

lemma cleaned_removeJournal: "removeJournal E p w = (r, w') \<Longrightarrow> cleaned w w'"
proof -
  assume run: "removeJournal E p w = (r, w')"
  have "map_of (l_files w') (p @ injectionJournalSuffix) \<in> {None, map_of (l_files w) (p @ injectionJournalSuffix)}"
    using run
    by (auto simp: removeJournal_def removeFileL_def catchE_def callL_def delete_conv
        split: option.splits if_splits prod.splits sum.splits)
  then have "map_of (l_files w') q = map_of (l_files w) q \<or> map_of (l_files w') q = None" for q
    using removeJournal_keeps [OF run] by (cases "q = p @ injectionJournalSuffix") auto
  then show "cleaned w w'" unfolding cleaned_def by (metis authFreeNode_None)
qed

lemma preorder_cleaned [simp]: "preorder_rel cleaned"
  by (auto simp: preorder_rel_def reflp_def transp_def intro: cleaned_trans)

lemma cleaned_updateI:
  "l_files w' = AList.update p (Settings d) (l_files w) \<Longrightarrow> authFree d \<Longrightarrow> cleaned w w'"
  by (auto simp: cleaned_def update_conv authFreeNode_def)

lemma evolvesI: "(\<And>w r w'. m w = (r, w') \<Longrightarrow> R w w') \<Longrightarrow> evolves R m"
  by (metis evolves_def prod.collapse)

lemma evolves_removeJournal: "evolves cleaned (removeJournal E p)"
  by (rule evolvesI) (rule cleaned_removeJournal)

lemma evolves_patch_None: "honest E \<Longrightarrow> evolves cleaned (patchClientSettings E p None)"
proof (rule evolvesI)
  fix w r w' assume h: "honest E" and run: "patchClientSettings E p None w = (r, w')"
  have "map_of (l_files w') q = map_of (l_files w) q \<or> authFreeNode (map_of (l_files w') q)" for q
    using patch_frame(2) [OF h run, of q] patch_None_free(2) [OF h run] by (cases "q = p") auto
  then show "cleaned w w'" by (simp add: cleaned_def)
qed

lemma evolves_cleanupInjected: "honest E \<Longrightarrow> evolves cleaned (cleanupInjected E p)"
  unfolding cleanupInjected_def by (intro evolves_bindE evolves_patch_None evolves_removeJournal) simp_all

lemma evolves_readCleaned: "evolves cleaned (readL E k f)"
  by (rule evolvesI) (auto simp: readL_def callL_def cleaned_def split: option.splits)

lemma evolves_ClearSettings: "honest E \<Longrightarrow> evolves cleaned (ClearSettings E p)"
  unfolding ClearSettings_def
  by (intro evolves_catchE evolves_case_sum evolves_if evolves_removeJournal evolves_cleanupInjected evolves_readCleaned) simp_all

lemma evolves_removeFile: "evolves cleaned (removeFileL E p)"
proof (rule evolvesI)
  fix w r w' assume "removeFileL E p w = (r, w')"
  then have "map_of (l_files w') q = map_of (l_files w) q \<or> map_of (l_files w') q = None" for q
    by (auto simp: removeFileL_def callL_def delete_conv split: option.splits if_splits)
  then show "cleaned w w'" unfolding cleaned_def by (metis authFreeNode_None)
qed

section \<open>Injection and its cleanup\<close>

definition calmFiles :: "lenv \<Rightarrow> bool" where
  "calmFiles E \<longleftrightarrow> (\<forall>n. le_fault E FileCall n = None) \<and> (\<forall>x. le_size E x \<le> maxClientSettingsBytes)"

lemma calmFiles_honest: "calmFiles E \<Longrightarrow> honest E \<and> \<not> lateFailure E"
  by (simp add: calmFiles_def honest_def lateFailure_def)

text \<open>A document whose session can be removed again.\<close>

definition cleanable :: "settings_doc \<Rightarrow> bool" where
  "cleanable d \<longleftrightarrow> decodeSections (matchingSections d ''stringsettings'') \<noteq> None"

lemma cleanable_iff: "cleanable d \<longleftrightarrow> (\<forall>(k, s) \<in> set d. EqualFold k ''stringsettings'' \<longrightarrow> (\<exists>ms. s = SectionObject ms))"
proof -
  have "decodeSections ss \<noteq> None \<longleftrightarrow> (\<forall>(k, s) \<in> set ss. \<exists>ms. s = SectionObject ms)" for ss
    by (induction ss rule: decodeSections.induct) (auto split: json_section.splits)
  then show ?thesis by (auto simp: cleanable_def matchingSections_def)
qed

lemma patchDoc_cleanable:
  assumes "patchDoc doc acct = Inr (Some d)" shows "cleanable d"
proof -
  from assms obtain secs where dec: "decodeSections (matchingSections doc ''stringsettings'') = Some secs"
    by (auto simp: patchDoc_def split: option.splits)
  let ?st = "stripAll authKeys secs"
  have st: "dom (map_of ?st) = dom (map_of secs)" by (auto simp: map_of_stripped dom_def)
  have "d = storeSections ?st doc \<or> (\<exists>x. d = storeSections (AList.update (primarySection ?st) x ?st) doc)"
    using assms dec by (auto simp: patchDoc_def Let_def split: option.splits if_splits)
  moreover have "dom (map_of secs) \<subseteq> dom (map_of (AList.update k x ?st))" for k x
    using st by (auto simp: update_conv')
  ultimately obtain ss where d: "d = storeSections ss doc" and dom: "dom (map_of secs) \<subseteq> dom (map_of ss)"
    using st by blast
  show ?thesis
    unfolding cleanable_iff d
  proof clarify
    fix k s assume k: "(k, s) \<in> set (storeSections ss doc)" and fold: "EqualFold k ''stringsettings''"
    from k consider t where "(k, t) \<in> set doc"
        "s = (case map_of ss k of None \<Rightarrow> t | Some ms \<Rightarrow> SectionObject ms)" | ms where "s = SectionObject ms"
      by (auto simp: storeSections_def)
    then show "\<exists>ms. s = SectionObject ms"
    proof cases
      case 1
      then show ?thesis using sections_key [OF dec _ fold] dom by (auto split: option.splits)
    qed auto
  qed
qed

lemma patch_cleanable_succeeds:
  assumes calm: "calmFiles E" and doc: "map_of (l_files w) p = Some (Settings d)" and ok: "cleanable d"
  shows "fst (patchClientSettings E p None w) = Inr ()"
proof -
  from ok obtain x where x: "patchDoc d None = Inr x"
    by (auto simp: cleanable_def patchDoc_def Let_def)
  have "\<not> le_size E n > maxClientSettingsBytes" "le_fault E FileCall t = None" for n t
    using calm by (auto simp: calmFiles_def not_less)
  with x doc show ?thesis
    by (simp add: patchClientSettings_def readSettings_def readL_def callL_def catchE_def writePatched_def
        atomicWriteL_def Let_def split: option.splits)
qed

lemma cleanup_cleans:
  assumes calm: "calmFiles E" and doc: "map_of (l_files w) p = Some (Settings d)" "cleanable d"
    and run: "cleanupInjected E p w = (r, w')"
  shows "authFreeNode (map_of (l_files w') p)"
proof -
  from calm have h: "honest E" by (simp add: calmFiles_honest)
  obtain w1 where p1: "patchClientSettings E p None w = (Inr (), w1)"
    using patch_cleanable_succeeds [OF calm doc] by (metis prod.collapse)
  with run have j: "removeJournal E p w1 = (r, w')" by (simp add: cleanupInjected_def bindE_def)
  from patch_None_free(1) [OF h p1] cleaned_removeJournal [OF j] show ?thesis
    unfolding cleaned_def by metis
qed

lemma nowL_bind: "bindE nowL f w = f (l_now w) w"
  by (simp add: nowL_def bindE_def getE_def)

lemma Inject_cleaned:
  assumes calm: "calmFiles E" and run: "Inject E p a w = (r, w')"
  shows "case r of Inl _ \<Rightarrow> cleaned w w'
     | Inr _ \<Rightarrow> (\<exists>d. map_of (l_files w') p = Some (Settings d) \<and> cleanable d \<and> sessionStored a d) \<and>
         (\<forall>q. q \<noteq> p \<longrightarrow> map_of (l_files w') q = map_of (l_files w) q \<or> authFreeNode (map_of (l_files w') q))"
proof -
  from calm have h: "honest E" "\<not> lateFailure E" by (simp_all add: calmFiles_honest)
  obtain x w1 where jw: "atomicWriteL E (p @ injectionJournalSuffix) (injectionJournal (l_now w)) w = (x, w1)"
    by fastforce
  have j: "cleaned w w1"
    using atomicWriteL_result [OF jw] journal_authFree [of "l_now w"]
    by (auto simp: cleaned_def update_conv)
  show ?thesis
  proof (cases x)
    case (Inl e)
    with run jw j show ?thesis by (auto simp: Inject_def bindE_def catchE_def nowL_def)
  next
    case (Inr u)
    let ?undo = "\<lambda>e. bindE (ignoreL (patchClientSettings E p None)) (\<lambda>_.
        bindE (ignoreL (removeFileL E (p @ injectionJournalSuffix))) (\<lambda>_. throwE e :: unit launch))"
    have undo: "evolves cleaned (?undo e)" for e
      unfolding ignoreL_def
      by (intro evolves_bindE evolves_catchE evolves_patch_None evolves_removeFile evolves_returnE evolves_throwE)
         (simp_all add: h)
    have fails: "isl (fst (?undo e v))" for e v
      by (auto simp: bindE_def split: prod.splits sum.splits)
    obtain y w2 where pw: "patchClientSettings E p (Some a) w1 = (y, w2)" by fastforce
    note res = patchClientSettings_result [OF h(1) pw]
    have tail: "(case y of Inl e \<Rightarrow> ?undo e | Inr _ \<Rightarrow> returnE ()) w2 = (r, w')"
      using run jw Inr pw by (cases y) (auto simp: Inject_def nowL_bind catchE_def)
    show ?thesis
    proof (cases y)
      case (Inl e)
      with res h(2) have "l_files w2 = l_files w1" by auto
      moreover from Inl tail have "?undo e w2 = (r, w')" by simp
      ultimately have "cleaned w1 w'" "isl r"
        using evolvesD [OF undo, of e w2 r w'] fails [of e w2] by (auto simp: cleaned_def)
      with j show ?thesis by (auto split: sum.splits intro: cleaned_trans)
    next
      case (Inr v)
      with res obtain doc d where d: "patchDoc doc (Some a) = Inr (Some d)" "l_files w2 = AList.update p (Settings d) (l_files w1)"
        by auto
      from Inr tail have [simp]: "r = Inr ()" "w' = w2" by simp_all
      from patchDoc_cleanable [OF d(1)] patchDoc_Some_stored [OF d(1)] j show ?thesis
        by (auto simp: d(2) update_conv cleaned_def)
    qed
  qed
qed

section \<open>What a launch owes\<close>

definition openLogs :: "launch_world \<Rightarrow> string set" where
  "openLogs w = {p. \<exists>x. (p, x) \<in> set (l_logs w) \<and> lg_open x}"

definition alive :: "launch_world \<Rightarrow> process_handle set" where
  "alive w = {p. \<exists>x. (p, x) \<in> set (l_processes w) \<and> gp_alive x}"

text \<open>
  \<open>owes c L P S w w'\<close>: from \<open>w\<close> to \<open>w'\<close> the launch has injected a session into the settings
  file \<open>c\<close>, opened the logs \<open>L\<close>, started the processes \<open>P\<close> and stored the sessions \<open>S\<close>; apart
  from these everything that it must give back is as it was.
\<close>

definition injected :: "string option \<Rightarrow> launch_world \<Rightarrow> bool" where
  "injected c w = (case c of None \<Rightarrow> True
     | Some p \<Rightarrow> \<exists>d. map_of (l_files w) p = Some (Settings d) \<and> cleanable d)"

definition owes :: "string option \<Rightarrow> string set \<Rightarrow> process_handle set \<Rightarrow> play_session list \<Rightarrow>
    launch_world \<Rightarrow> launch_world \<Rightarrow> bool" where
  "owes c L P S w w' \<longleftrightarrow>
     gateSame w w' \<and> l_registry w' = l_registry w \<and> l_recovery w' = l_recovery w \<and>
     l_events w' = l_events w \<and> l_now w' = l_now w \<and> l_sessions w' = l_sessions w @ S \<and>
     openLogs w' = openLogs w \<union> L \<and> alive w' \<subseteq> alive w \<union> P \<and> injected c w' \<and>
     (\<forall>q. Some q \<noteq> c \<longrightarrow> map_of (l_files w') q = map_of (l_files w) q \<or> authFreeNode (map_of (l_files w') q))"

lemma owes_refl: "owes None {} {} [] w w"
  by (simp add: owes_def injected_def gateSame_def)

lemma injected_cong: "l_files w' = l_files w \<Longrightarrow> injected c w' = injected c w"
  by (cases c) (simp_all add: injected_def)

lemma owes_calm: "owes c L P S w w1 \<Longrightarrow> calm w1 w2 \<Longrightarrow> owes c L P S w w2"
proof -
  assume o: "owes c L P S w w1" and c: "calm w1 w2"
  from c have "openLogs w2 = openLogs w1" "alive w2 = alive w1" "injected c w2 = injected c w1"
    by (simp_all add: calm_def resources_def openLogs_def alive_def injected_def split: option.splits)
  with o c show ?thesis by (auto simp: owes_def calm_def resources_def gateSame_def)
qed

lemma calm_owes: "calm w w' \<Longrightarrow> owes None {} {} [] w w'"
  by (rule owes_calm [OF owes_refl])

text \<open>Undoing.\<close>

text \<open>The relation that sees only the files and the ticks.\<close>

definition filesOnly :: "launch_world \<Rightarrow> launch_world \<Rightarrow> bool" where
  "filesOnly w w' \<longleftrightarrow> w'\<lparr>l_files := [], l_ticks := 0\<rparr> = w\<lparr>l_files := [], l_ticks := 0\<rparr>"

lemma quiet_filesOnly [simp]: "quiet filesOnly"
  by (auto simp: quiet_def preorder_rel_def reflp_def transp_def ignores_def filesOnly_def)

lemma ignores_filesOnly [simp]: "ignores l_files_update filesOnly"
  by (simp add: ignores_def filesOnly_def)

lemma filesOnlyD:
  assumes "filesOnly w w'"
  shows "l_gate w' = l_gate w" "l_registry w' = l_registry w" "l_recovery w' = l_recovery w" "l_events w' = l_events w"
    "l_now w' = l_now w" "l_sessions w' = l_sessions w" "l_logs w' = l_logs w" "l_processes w' = l_processes w"
    "l_accounts w' = l_accounts w" "l_instances w' = l_instances w"
proof -
  have eq: "f (w'\<lparr>l_files := [], l_ticks := 0\<rparr>) = f (w\<lparr>l_files := [], l_ticks := 0\<rparr>)" for f :: "launch_world \<Rightarrow> 'x"
    using assms by (simp add: filesOnly_def)
  show "l_gate w' = l_gate w" using eq [of l_gate] by simp
  show "l_registry w' = l_registry w" using eq [of l_registry] by simp
  show "l_recovery w' = l_recovery w" using eq [of l_recovery] by simp
  show "l_events w' = l_events w" using eq [of l_events] by simp
  show "l_now w' = l_now w" using eq [of l_now] by simp
  show "l_sessions w' = l_sessions w" using eq [of l_sessions] by simp
  show "l_logs w' = l_logs w" using eq [of l_logs] by simp
  show "l_processes w' = l_processes w" using eq [of l_processes] by simp
  show "l_accounts w' = l_accounts w" using eq [of l_accounts] by simp
  show "l_instances w' = l_instances w" using eq [of l_instances] by simp
qed

lemma evolves_settings_ports:
  assumes "quiet R" "ignores l_files_update R"
  shows "evolves R (atomicWriteL E p n)" "evolves R (removeFileL E p)" "evolves R (patchClientSettings E p acct)"
    "evolves R (cleanupInjected E p)" "evolves R (ClearSettings E p)" "evolves R (Inject E p a)"
proof -
  have upd: "R w (w\<lparr>l_files := x\<rparr>)" for w x
    using ignoresD [OF assms(2), of w "\<lambda>_. x"] by simp
  have "R w (w\<lparr>l_ticks := n, l_files := x\<rparr>)" for w n x
    using quiet_trans [OF assms(1) quiet_ticks [OF assms(1)] upd] .
  then show w: "evolves R (atomicWriteL E p n)" for p n
    using quiet_ticks [OF assms(1)] by (auto simp: evolves_def atomicWriteL_def Let_def split: option.splits)
  show r: "evolves R (removeFileL E p)" for p
    unfolding removeFileL_def by (rule evolves_callL) (use assms(1) upd in auto)
  show pt: "evolves R (patchClientSettings E p acct)" for p acct
    unfolding patchClientSettings_def writePatched_def using assms(1) w
    by (auto intro!: evolve_rules split: sum.splits option.splits settings_node.splits)
  have j: "evolves R (removeJournal E p)" for p
    unfolding removeJournal_def using assms(1) r by (auto intro!: evolve_rules split: sum.splits)
  show c: "evolves R (cleanupInjected E p)" for p
    unfolding cleanupInjected_def using assms(1) pt j by (auto intro!: evolve_rules)
  show "evolves R (ClearSettings E p)"
    unfolding ClearSettings_def using assms(1) c j by (auto intro!: evolve_rules split: sum.splits)
  show "evolves R (Inject E p a)"
    unfolding Inject_def using assms(1) w pt r by (auto intro!: evolve_rules split: sum.splits)
qed

lemma owes_cleaned:
  assumes o: "owes c L P S w w1" and f: "filesOnly w1 w2" "cleaned w1 w2"
    and gone: "\<And>p. c = Some p \<Longrightarrow> authFreeNode (map_of (l_files w2) p)"
  shows "owes None L P S w w2"
proof -
  have "map_of (l_files w2) q = map_of (l_files w) q \<or> authFreeNode (map_of (l_files w2) q)" for q
  proof (cases "c = Some q")
    case False
    then show ?thesis using o f(2) unfolding owes_def cleaned_def by metis
  qed (simp add: gone)
  with o filesOnlyD [OF f(1)] show ?thesis
    by (simp add: owes_def gateSame_def injected_def openLogs_def alive_def)
qed

lemma wp_clear:
  assumes calm: "calmFiles E" and o: "owes c L P S w w1" and Q: "\<And>w2. owes None L P S w w2 \<Longrightarrow> Q () w2"
  shows "wp (clearInjectedCredentials E c) Q X w1"
proof (cases c)
  case None
  with o Q show ?thesis by (simp add: clearInjectedCredentials_def wp_simps)
next
  case (Some p)
  obtain r w2 where run: "cleanupInjected E p w1 = (r, w2)" by fastforce
  from o Some obtain d where d: "map_of (l_files w1) p = Some (Settings d)" "cleanable d"
    by (auto simp: owes_def injected_def)
  have "filesOnly w1 w2" using evolves_settings_ports(4) run by (rule evolvesD) simp_all
  moreover have "cleaned w1 w2"
    using evolves_cleanupInjected run by (rule evolvesD) (simp add: calm calmFiles_honest)
  ultimately have "owes None L P S w w2"
    using o cleanup_cleans [OF calm d run] Some by (intro owes_cleaned) auto
  with Q run Some show ?thesis
    by (auto simp: clearInjectedCredentials_def ignoreL_def wp_def catchE_def split: sum.splits)
qed

lemma openLogs_setLog:
  "openLogs (setLog p f w) = {q \<in> openLogs w. q \<noteq> p} \<union> {q. q = p \<and> (\<exists>x. (p, x) \<in> set (l_logs w) \<and> lg_open (f x))}"
proof -
  have "(q, x) \<in> set (map (\<lambda>(p', x). (p', if p' = p then f x else x)) xs) \<longleftrightarrow>
      (\<exists>y. (q, y) \<in> set xs \<and> x = (if q = p then f y else y))" for q x xs
    by (induction xs) auto
  then show ?thesis by (auto simp: openLogs_def setLog_def simp del: set_map split: if_splits)
qed

lemma owes_log:
  assumes "owes c L P S w w1" "openLogs (setLog p f w1) = openLogs w \<union> L'"
  shows "owes c L' P S w (setLog p f w1)"
proof -
  have "injected c (setLog p f w1) = injected c w1" "alive (setLog p f w1) = alive w1"
    by (rule injected_cong) (simp_all add: alive_def setLog_def)
  with assms show ?thesis by (simp add: owes_def gateSame_def) (simp add: setLog_def)
qed

lemma wp_abort:
  assumes calm: "calmFiles E" and o: "owes c {p} P S w w1" and p: "p \<notin> openLogs w"
    and Q: "\<And>w2. owes None {} P S w w2 \<Longrightarrow> Q () w2"
  shows "wp (abortLaunch E p c) Q X w1"
proof -
  from o have "openLogs w1 = openLogs w \<union> {p}" by (simp add: owes_def)
  then have "openLogs (setLog p (\<lambda>x. x\<lparr>lg_open := False\<rparr>) w1) = openLogs w \<union> {}"
    using p by (auto simp: openLogs_setLog)
  with o have "owes c {} P S w (setLog p (\<lambda>x. x\<lparr>lg_open := False\<rparr>) w1)" by (rule owes_log)
  with Q show ?thesis
    by (simp add: abortLaunch_def closeLaunchLog_def wp_simps wp_clear [OF calm])
qed

lemma owes_process:
  assumes "owes c L P S w w1" "alive (w1\<lparr>l_processes := ps\<rparr>) \<subseteq> alive w \<union> P'"
  shows "owes c L P' S w (w1\<lparr>l_processes := ps\<rparr>)"
proof -
  have "injected c (w1\<lparr>l_processes := ps\<rparr>) = injected c w1" "openLogs (w1\<lparr>l_processes := ps\<rparr>) = openLogs w1"
    by (rule injected_cong) (simp_all add: openLogs_def)
  with assms show ?thesis by (simp add: owes_def gateSame_def)
qed

lemma owes_ticked: "owes c L P S w w1 \<Longrightarrow> owes c L P S w (ticked w1)"
  by (erule owes_calm) (simp add: calm_def gateSame_def resources_def)

definition processFault :: "lenv \<Rightarrow> bool" where
  "processFault E \<longleftrightarrow> (\<exists>n. le_fault E ProcessCall n \<noteq> None)"

lemma wp_kill:
  assumes o: "owes c L {pid} S w w1" and Q: "\<And>w2. owes c L {} S w w2 \<Longrightarrow> Q () w2"
    and X: "\<And>w2 e. owes c L {pid} S w w2 \<Longrightarrow> processFault E \<Longrightarrow> X e w2"
  shows "wp (killProcess E pid) Q X w1"
proof (cases "le_fault E ProcessCall (l_ticks w1)")
  case None
  let ?w2 = "setProcess pid (\<lambda>x. x\<lparr>gp_alive := False\<rparr>) (ticked w1)"
  have "alive ?w2 \<subseteq> alive w1 - {pid}" by (auto simp: alive_def setProcess_def split: if_splits)
  also have "\<dots> \<subseteq> alive w" using o by (auto simp: owes_def)
  finally have "owes c L {} S w ?w2"
    using owes_ticked [OF o] unfolding setProcess_def by (intro owes_process) auto
  with Q None show ?thesis by (simp add: killProcess_def wp_simps)
next
  case (Some e)
  with X owes_ticked [OF o] show ?thesis
    by (auto simp: killProcess_def wp_simps processFault_def)
qed

text \<open>The end of a failing launch.\<close>

definition undone :: "lenv \<Rightarrow> launch_world \<Rightarrow> launch_world \<Rightarrow> bool" where
  "undone E w w' \<longleftrightarrow> (\<exists>P. owes None {} P [] w w' \<and> (P = {} \<or> processFault E))"

lemma undoneI: "owes None {} {} [] w w' \<Longrightarrow> undone E w w'"
  by (auto simp: undone_def)

section \<open>Starting the game\<close>

lemma wp_bindE_fun: "wp (bindE m f) Q X = wp m (\<lambda>x. wp (f x) Q X) X"
  by (simp add: fun_eq_iff wp_bindE)

lemma wp_owes_calm:
  assumes "evolves calm m" "owes c L P S w w1"
    and "\<And>x w2. owes c L P S w w2 \<Longrightarrow> calm w1 w2 \<Longrightarrow> Q x w2"
    and "\<And>e w2. owes c L P S w w2 \<Longrightarrow> calm w1 w2 \<Longrightarrow> X e w2"
  shows "wp m Q X w1"
  by (rule wp_mono [OF wp_calm [OF assms(1)]]) (use assms(2-4) owes_calm in blast)+

lemma calm_layout: "evolves calm (ensureLayout E d)" "evolves calm (hardenLogs E d)"
  unfolding ensureLayout_def hardenLogs_def
  by (auto intro!: evolve_rules evolves_callL simp: calm_def gateSame_def resources_def)

lemma calm_interpreter: "evolves calm (prepareInterpreter E inst x)"
  unfolding prepareInterpreter_def ensureLinuxInterpreter_def Let_def
  by (auto intro!: evolve_rules evolves_callL split: sum.splits option.splits binary.splits
      simp: calm_def gateSame_def resources_def)

definition addLog :: "string \<Rightarrow> launch_log \<Rightarrow> launch_world \<Rightarrow> launch_world" where
  "addLog p x w = w\<lparr>l_logs := (p, x) # l_logs w\<rparr>"

lemma owes_openLog:
  assumes "owes c {} P S w w1" "map_of (l_logs w1) p = None"
  shows "owes c (if lg_open x then {p} else {}) P S w (addLog p x w1)" and "p \<notin> openLogs w"
proof -
  have "injected c (addLog p x w1) = injected c w1" by (rule injected_cong) (simp add: addLog_def)
  moreover have "openLogs (addLog p x w1) = openLogs w1 \<union> (if lg_open x then {p} else {})"
      "alive (addLog p x w1) = alive w1"
    by (auto simp: openLogs_def alive_def addLog_def)
  ultimately show "owes c (if lg_open x then {p} else {}) P S w (addLog p x w1)"
    using assms(1) by (simp add: owes_def gateSame_def) (simp add: addLog_def)
  have "p \<notin> openLogs w1" using assms(2) by (force simp: openLogs_def map_of_eq_None_iff)
  with assms(1) show "p \<notin> openLogs w" by (simp add: owes_def)
qed

lemma wp_openLog:
  assumes o: "owes c {} P S w w1"
  shows "wp (openLog E p) (\<lambda>_ w2. owes c {p} P S w w2 \<and> p \<notin> openLogs w) (\<lambda>_. owes c {} P S w) w1"
proof (cases "map_of (l_logs w1) p")
  case None
  then have "map_of (l_logs (ticked w1)) p = None" by simp
  note opened = owes_openLog [OF owes_ticked [OF o] this]
  show ?thesis
    using opened(1) [of "\<lparr>lg_open = True, lg_text = []\<rparr>"] opened(1) [of "\<lparr>lg_open = False, lg_text = []\<rparr>"]
      opened(2) owes_ticked [OF o] None
    by (auto simp: wp_def openLog_def Let_def addLog_def split: option.splits)
next
  case (Some x)
  with owes_ticked [OF o] show ?thesis by (simp add: wp_def openLog_def Let_def)
qed

lemma wp_prepareLog:
  assumes o: "owes c {} {} [] w w1"
  shows "wp (prepareLog E inst) (\<lambda>(st, lp) w2. owes c {lp} {} [] w w2 \<and> lp \<notin> openLogs w)
    (\<lambda>_. owes c {} {} [] w) w1"
  unfolding prepareLog_def wp_bindE
proof (rule wp_owes_calm [OF calm_layout(1) o], goal_cases)
  case (1 x w2)
  show ?case
  proof (rule wp_owes_calm [OF calm_layout(2) 1(1)], goal_cases)
    case (1 x w3)
    show ?case
    proof (rule wp_owes_calm [OF calm_reads(3) 1(1)], goal_cases)
      case (1 x w4)
      show ?case
        unfolding wp_nowL by (rule wp_mono [OF wp_openLog [OF 1(1)]]) (simp_all add: wp_simps)
    qed
  qed
qed

lemma wp_writeCommand:
  assumes o: "owes c {p} P S w w1"
  shows "wp (writeCommand E p x) (\<lambda>_. owes c {p} P S w) (\<lambda>_. owes c {p} P S w) w1"
proof -
  have "openLogs (setLog p (\<lambda>x. x\<lparr>lg_text := lg_text x @ t\<rparr>) (ticked w1)) = openLogs (ticked w1)" for t
    by (auto simp: openLogs_setLog) (auto simp: openLogs_def)
  then have "openLogs (setLog p (\<lambda>x. x\<lparr>lg_text := lg_text x @ t\<rparr>) (ticked w1)) = openLogs w \<union> {p}" for t
    using o by (simp add: owes_def openLogs_def)
  then have "owes c {p} P S w (setLog p (\<lambda>x. x\<lparr>lg_text := lg_text x @ t\<rparr>) (ticked w1))" for t
    by (rule owes_log [OF owes_ticked [OF o]])
  then show ?thesis
    using owes_ticked [OF o] by (auto simp: writeCommand_def writeLaunchCommand_def wp_simps split: option.splits)
qed

text \<open>The process that a launch started, as the process table has it.\<close>

definition runsGame :: "lenv \<Rightarrow> game_instance \<Rightarrow> optimum_target \<Rightarrow> string list \<Rightarrow> process_handle \<Rightarrow> launch_world \<Rightarrow> bool" where
  "runsGame E inst target arguments pid w \<longleftrightarrow> map_of (l_processes w) pid = Some
     \<lparr>gp_executable = ot_executable target, gp_arguments = arguments, gp_directory = ot_directory target,
      gp_environment = mergeEnvironment (le_environ E) (fst (launchEnvironment E inst)),
      gp_alive = True, gp_interrupted = False\<rparr>"

lemma owes_report:
  assumes "owes c L P S w w1"
    and "\<And>w2. owes c L P S w w2 \<Longrightarrow> Q () w2"
  shows "wp (reportL E r) Q X w1"
proof -
  have "owes c L P S w (w1\<lparr>l_reports := x\<rparr>)" for x
    using assms(1) by (rule owes_calm) (simp add: calm_def gateSame_def resources_def)
  then show ?thesis using assms by (simp add: reportL_def wp_simps)
qed

lemma wp_launchProcess:
  assumes calm: "calmFiles E" and o: "owes c {p} {} [] w w1" and p: "p \<notin> openLogs w"
  shows "wp (launchProcess E inst target arguments p c)
    (\<lambda>pid w2. owes c {p} {pid} [] w w2 \<and> runsGame E inst target arguments pid w2) (\<lambda>_. undone E w) w1"
proof -
  have "wp (abortLaunch E p c) (\<lambda>_. wp (reportL E r) (\<lambda>_. wp (reportL E q) (\<lambda>_. undone E w) X) X) X (ticked w1)"
    for X :: "go_error \<Rightarrow> launch_world \<Rightarrow> bool" and r q
    using calm owes_ticked [OF o] p
    by (rule wp_abort) (auto intro!: owes_report undoneI)
  moreover have "owes c {p} {pid} [] w (ticked w1\<lparr>l_processes := AList.update pid x (l_processes w1)\<rparr>)" for pid x
  proof (rule owes_process [OF owes_ticked [OF o]])
    have "alive (ticked w1\<lparr>l_processes := AList.update pid x (l_processes w1)\<rparr>) \<subseteq> alive w1 \<union> {pid}"
      by (auto simp: alive_def dest!: in_set_updateD)
    then show "alive (ticked w1\<lparr>l_processes := AList.update pid x (l_processes w1)\<rparr>) \<subseteq> alive w \<union> {pid}"
      using o by (auto simp: owes_def)
  qed
  ultimately show ?thesis
    by (auto simp: launchProcess_def startProcess_def wp_simps wp_bindE_fun Let_def runsGame_def update_conv split: option.splits)
qed

definition freshSession ::
  "game_instance \<Rightarrow> string option \<Rightarrow> game_version \<Rightarrow> process_handle \<Rightarrow> launch_world \<Rightarrow> play_session \<Rightarrow> bool" where
  "freshSession inst accountID version pid w s \<longleftrightarrow>
     ps_instance s = gi_id inst \<and> ps_account s = accountID \<and> ps_version s = gv_id version \<and>
     ps_pid s = Some pid \<and> ps_started s = l_now w \<and> ps_ended s = None \<and> ps_duration s = 0 \<and>
     ps_exit s = None \<and> \<not> ps_crashed s \<and> \<not> ps_recovered s \<and>
     \<not> list_ex (\<lambda>x. ps_id x = ps_id s) (l_sessions w)"

lemma owes_session:
  assumes "owes c L P [] w w1" shows "owes c L P [s] w (w1\<lparr>l_sessions := l_sessions w1 @ [s]\<rparr>)"
proof -
  let ?w2 = "w1\<lparr>l_sessions := l_sessions w1 @ [s]\<rparr>"
  have "injected c ?w2 = injected c w1" by (rule injected_cong) simp
  moreover have "openLogs ?w2 = openLogs w1" "alive ?w2 = alive w1" by (simp_all add: openLogs_def alive_def)
  ultimately show ?thesis using assms by (simp add: owes_def gateSame_def)
qed

lemma wp_CreateSession:
  assumes "\<not> list_ex (\<lambda>x. ps_id x = ps_id s) (l_sessions w) \<Longrightarrow> Q () (ticked w\<lparr>l_sessions := l_sessions w @ [s]\<rparr>)"
    and "\<And>e. X e (ticked w)"
  shows "wp (CreateSession E s) Q X w"
  using assms by (simp add: CreateSession_def callL_def wp_def split: option.splits)

lemma wp_saveSession:
  assumes calm: "calmFiles E" and o: "owes c {p} {pid} [] w w1" and p: "p \<notin> openLogs w"
  shows "wp (saveSession E inst accountID version pid p c)
    (\<lambda>s w2. owes c {p} {pid} [s] w w2 \<and> freshSession inst accountID version pid w s \<and>
       l_processes w2 = l_processes w1 \<and> l_files w2 = l_files w1) (\<lambda>_. undone E w) w1"
proof -
  have ended: "wp (abortLaunch E p c) (\<lambda>_. undone E w) X w2" if "owes c {p} P [] w w2" "P = {} \<or> processFault E"
    for X w2 P
    by (rule wp_abort [OF calm that(1) p]) (use that(2) in \<open>auto simp: undone_def\<close>)
  have undo: "wp (killProcess E pid) (\<lambda>_. wp (abortLaunch E p c) (\<lambda>_. undone E w) X)
      (\<lambda>_. wp (abortLaunch E p c) (\<lambda>_. undone E w) X) w2" if "owes c {p} {pid} [] w w2" for X w2
    using that by (rule wp_kill) (auto intro!: ended)
  have same: "l_now w1 = l_now w" "l_sessions w1 = l_sessions w" using o by (simp_all add: owes_def)
  have created: "wp (onError (bindE (ignoreL (killProcess E pid)) (\<lambda>_. abortLaunch E p c)) (CreateSession E s))
      (\<lambda>_ w2. owes c {p} {pid} [s] w w2 \<and> \<not> list_ex (\<lambda>x. ps_id x = ps_id s) (l_sessions w) \<and>
         l_processes w2 = l_processes w1 \<and> l_files w2 = l_files w1) (\<lambda>_. undone E w) (ticked w1)" for s
    unfolding onError_def wp_catchE sum.case wp_throwE_fun wp_returnE_fun
  proof (rule wp_CreateSession, goal_cases)
    case 1
    with owes_session [OF owes_ticked [OF owes_ticked [OF o]], of s] same show ?case by simp
  next
    case (2 e)
    from undo owes_ticked [OF owes_ticked [OF o]] show ?case by (simp add: wp_simps wp_bindE_fun)
  qed
  show ?thesis
    unfolding saveSession_def wp_bindE wp_nowL wp_tickL Let_def
    by (rule wp_mono [OF created]) (simp_all add: wp_simps freshSession_def same)
qed

lemma wp_startGame:
  assumes calm: "calmFiles E" and o: "owes c {} {} [] w w1"
  shows "wp (startGame E inst version target accountID server c)
    (\<lambda>(s, pid, p) w2. owes c {p} {pid} [s] w w2 \<and> p \<notin> openLogs w \<and> freshSession inst accountID version pid w s \<and>
       (\<exists>settings :: launch_settings. runsGame E inst target
          (buildLaunchArguments (st_arguments settings) (gi_arguments inst) (gi_directory inst) server) pid w2))
    (\<lambda>_. undone E w) w1"
proof -
  have clear: "wp (clearInjectedCredentials E c) (\<lambda>_. undone E w) X w2" if "owes c {} {} [] w w2" for X w2
    by (rule wp_clear [OF calm that]) (rule undoneI)
  have abort: "wp (abortLaunch E p c) (\<lambda>_. undone E w) X w2"
    if "owes c {p} {} [] w w2" "p \<notin> openLogs w" for X w2 p
    by (rule wp_abort [OF calm that]) (rule undoneI)
  let ?Q = "\<lambda>(s, pid, p) w2. owes c {p} {pid} [s] w w2 \<and> p \<notin> openLogs w \<and> freshSession inst accountID version pid w s \<and>
       (\<exists>settings :: launch_settings. runsGame E inst target
          (buildLaunchArguments (st_arguments settings) (gi_arguments inst) (gi_directory inst) server) pid w2)"
  have run: "wp (bindE (launchProcess E inst target
      (buildLaunchArguments (st_arguments settings) (gi_arguments inst) (gi_directory inst) server) p c) (\<lambda>pid.
      bindE (saveSession E inst accountID version pid p c) (\<lambda>session. returnE (session, pid, p)))) ?Q (\<lambda>_. undone E w) w2"
    if "owes c {p} {} [] w w2" and p: "p \<notin> openLogs w" for p w2 and settings :: launch_settings
    unfolding wp_bindE
  proof (rule wp_mono [OF wp_launchProcess [OF calm that]], goal_cases)
    case (1 pid w3)
    then show ?case
      by (intro wp_mono [OF wp_saveSession [OF calm _ p]]) (auto simp: wp_simps p runsGame_def)
  qed
  have logged: "wp (onError (abortLaunch E p c) (bindE (writeCommand E p x) (\<lambda>_. prepareInterpreter E inst x)))
      (\<lambda>_ w3. owes c {p} {} [] w w3) (\<lambda>_. undone E w) w2"
    if o2: "owes c {p} {} [] w w2" and p: "p \<notin> openLogs w" for p w2 x
    unfolding onError_def wp_catchE wp_bindE sum.case wp_throwE_fun wp_returnE_fun
    by (rule wp_mono [OF wp_writeCommand [OF o2]], rule wp_owes_calm [OF calm_interpreter])
       (auto intro: abort [OF _ p])
  have "wp (onError (clearInjectedCredentials E c) (prepareLog E inst))
      (\<lambda>(st, lp) w2. owes c {lp} {} [] w w2 \<and> lp \<notin> openLogs w) (\<lambda>_. undone E w) w1"
    unfolding onError_def wp_catchE wp_bindE sum.case wp_throwE_fun wp_returnE_fun
    by (rule wp_mono [OF wp_prepareLog [OF o]]) (auto intro: clear)
  then show ?thesis
    unfolding startGame_def wp_bindE [of "onError (clearInjectedCredentials E c) m" for m]
  proof (rule wp_mono, goal_cases)
    case (1 x w2)
    obtain settings lp where x: "x = (settings, lp)" by fastforce
    with 1 have o2: "owes c {lp} {} [] w w2" "lp \<notin> openLogs w" by simp_all
    show ?case
      unfolding x prod.case wp_bindE [of "onError (abortLaunch E p c) m" for p m]
      by (rule wp_mono [OF logged [OF o2]]) (use o2 run in blast)+
  qed
qed

text \<open>A start that succeeds leaves the settings files alone.\<close>

definition okKeeps :: "'a launch \<Rightarrow> bool" where
  "okKeeps m \<longleftrightarrow> (\<forall>w. wp m (\<lambda>_ w'. l_files w' = l_files w) (\<lambda>_ _. True) w)"

lemma okKeeps_bindE:
  assumes m: "okKeeps m" and f: "\<And>x. okKeeps (f x)" shows "okKeeps (bindE m f)"
  unfolding okKeeps_def wp_bindE
proof
  fix w
  from m have "wp m (\<lambda>_ w'. l_files w' = l_files w) (\<lambda>_ _. True) w" by (simp add: okKeeps_def)
  then show "wp m (\<lambda>x. wp (f x) (\<lambda>_ w'. l_files w' = l_files w) (\<lambda>_ _. True)) (\<lambda>_ _. True) w"
  proof (rule wp_mono)
    fix x and w' :: launch_world assume "l_files w' = l_files w"
    with f [of x] show "wp (f x) (\<lambda>_ w'. l_files w' = l_files w) (\<lambda>_ _. True) w'"
      unfolding okKeeps_def by metis
  qed
qed

lemma wp_True: "wp m (\<lambda>_ _. True) (\<lambda>_ _. True) w"
  by (auto simp: wp_def split: prod.splits sum.splits)

lemma okKeeps_onError: "okKeeps m \<Longrightarrow> okKeeps (onError c m)"
  unfolding okKeeps_def onError_def wp_catchE sum.case wp_returnE_fun wp_bindE_fun wp_throwE_fun
  by (auto intro: wp_mono wp_True)

lemma okKeeps_evolves: "evolves (keeping l_files) m \<Longrightarrow> okKeeps m"
  by (auto simp: okKeeps_def intro!: wp_keep)

lemma okKeeps_calm: "evolves calm m \<Longrightarrow> okKeeps m"
  unfolding okKeeps_def by (auto intro!: wp_mono [OF wp_calm] simp: calm_def resources_def)

lemma okKeeps_log: "okKeeps (openLog E p)" "okKeeps (writeLaunchCommand E p x)"
  by (auto simp: okKeeps_def wp_def openLog_def writeLaunchCommand_def callL_def setLog_def Let_def split: option.splits)

lemma okKeeps_startGame: "okKeeps (startGame E inst version target accountID server c)"
proof -
  have wrote: "okKeeps (writeCommand E p x)" for p x
    unfolding writeCommand_def okKeeps_def wp_catchE sum.case wp_throwE_fun wp_returnE_fun
    using okKeeps_log(2) by (auto simp: okKeeps_def)
  have log: "okKeeps (prepareLog E inst)"
    unfolding prepareLog_def
    by (intro okKeeps_bindE okKeeps_calm okKeeps_log calm_layout calm_reads evolve_rules) simp_all
  have start: "okKeeps (launchProcess E inst target arguments p c)" for arguments p
    unfolding launchProcess_def okKeeps_def wp_catchE sum.case wp_bindE_fun wp_throwE_fun wp_returnE_fun
    by (auto simp: startProcess_def wp_simps Let_def intro!: wp_mono [OF wp_True] split: option.splits)
  have save: "okKeeps (saveSession E inst accountID version pid p c)" for pid p
    unfolding saveSession_def Let_def
    by (intro okKeeps_bindE okKeeps_onError okKeeps_evolves evolve_rules) (simp_all add: ignores_def keeping_def)
  show ?thesis
    unfolding startGame_def split_def
    by (intro okKeeps_bindE okKeeps_onError log wrote okKeeps_calm [OF calm_interpreter] start save)
       (simp add: okKeeps_def wp_simps)
qed

section \<open>The whole launch\<close>

text \<open>Who is signed in by the settings file of an instance.\<close>

definition signsIn :: "string option \<Rightarrow> string \<Rightarrow> launch_world \<Rightarrow> bool" where
  "signsIn accountID path w = (case accountID of
     None \<Rightarrow> signedOut w path
   | Some i \<Rightarrow> (\<exists>a d. ac_id a = i \<and> map_of (l_files w) path = Some (Settings d) \<and> sessionStored a d))"

lemma wp_conj:
  "wp m Q X w \<Longrightarrow> wp m Q' X' w \<Longrightarrow> wp m (\<lambda>x w. Q x w \<and> Q' x w) (\<lambda>e w. X e w \<and> X' e w) w"
  by (auto simp: wp_def split: prod.splits sum.splits)

lemma wp_getAccountRow_id: "wp (getAccountRow E i) (\<lambda>a _. ac_id a = i) (\<lambda>_ _. True) w"
  by (auto simp: getAccountRow_def wp_simps find_Some_iff split: option.splits)

lemma wp_trivial:
  "(\<And>x w. Q x w) \<Longrightarrow> (\<And>e w. X e w) \<Longrightarrow> wp m Q X w"
  by (auto simp: wp_def split: prod.splits sum.splits)

lemma wp_Validate_id: "wp (ValidateAuthorizedAccount E i) (\<lambda>a _. ac_id a = i) (\<lambda>_ _. True) w"
proof -
  have "wp (authorizedAccount E i) (\<lambda>a _. ac_id a = i) (\<lambda>_ _. True) w" for w
    unfolding authorizedAccount_def wp_bindE [of "getAccountRow E i"]
    by (rule wp_mono [OF wp_getAccountRow_id])
       (simp_all add: wp_catchE wp_if wp_bindE wp_bindE_fun wp_nowL wp_throwE_fun wp_returnE_fun wp_ignoreL wp_trivial)
  then show ?thesis
    unfolding ValidateAuthorizedAccount_def wp_bindE [of "authorizedAccount E i"]
    by (rule wp_mono)
       (simp_all add: wp_bindE wp_bindE_fun wp_tickL wp_nowL recordValidation_def Let_def wp_if wp_throwE_fun
          wp_returnE_fun wp_case_sum wp_trivial split: sum.splits)
qed

lemma owes_injected:
  assumes o: "owes None {} {} [] w w1" and f: "filesOnly w1 w2"
    and p: "map_of (l_files w2) p = Some (Settings d)" "cleanable d"
    and q: "\<forall>q. q \<noteq> p \<longrightarrow> map_of (l_files w2) q = map_of (l_files w1) q \<or> authFreeNode (map_of (l_files w2) q)"
  shows "owes (Some p) {} {} [] w w2"
proof -
  have "map_of (l_files w2) q' = map_of (l_files w) q' \<or> authFreeNode (map_of (l_files w2) q')" if "q' \<noteq> p" for q'
    using o q that unfolding owes_def by (metis option.distinct(1))
  with o p filesOnlyD [OF f] show ?thesis
    by (simp add: owes_def gateSame_def injected_def openLogs_def alive_def)
qed

lemma wp_injectAccount:
  assumes calm: "calmFiles E" and o: "owes None {} {} [] w w1"
  shows "wp (injectAccount E path accountID)
    (\<lambda>c w2. owes c {} {} [] w w2 \<and> signsIn accountID path w2 \<and> c = map_option (\<lambda>_. path) accountID)
    (\<lambda>_. owes None {} {} [] w) w1"
proof (cases accountID)
  case None
  obtain r w2 where run: "ClearSettings E path w1 = (r, w2)" by fastforce
  have "filesOnly w1 w2" using evolves_settings_ports(5) run by (rule evolvesD) simp_all
  moreover have "cleaned w1 w2"
    using evolves_ClearSettings run by (rule evolvesD) (simp add: calm calmFiles_honest)
  ultimately have "owes None {} {} [] w w2" using o by (intro owes_cleaned) auto
  moreover have "r = Inr () \<Longrightarrow> signedOut w2 path"
    using ClearSettings_result [OF _ run] calm calmFiles_honest by blast
  ultimately show ?thesis
    using run None by (auto simp: injectAccount_def wp_def catchE_def signsIn_def split: sum.splits)
next
  case (Some i)
  have "wp (Inject E path a) (\<lambda>_ w3. owes (Some path) {} {} [] w w3 \<and> signsIn (Some i) path w3)
      (\<lambda>_. owes None {} {} [] w) w2" if a: "ac_id a = i" and o2: "owes None {} {} [] w w2" for a w2
  proof -
    obtain r w3 where run: "Inject E path a w2 = (r, w3)" by fastforce
    have f: "filesOnly w2 w3" using evolves_settings_ports(6) run by (rule evolvesD) simp_all
    note res = Inject_cleaned [OF calm run]
    show ?thesis
    proof (cases r)
      case (Inl e)
      with res f o2 have "owes None {} {} [] w w3" by (intro owes_cleaned) auto
      with run Inl show ?thesis by (simp add: wp_def)
    next
      case (Inr u)
      with res f o2 have "owes (Some path) {} {} [] w w3" by (auto intro: owes_injected)
      moreover from Inr res a have "signsIn (Some i) path w3" by (auto simp: signsIn_def)
      ultimately show ?thesis using run Inr by (simp add: wp_def)
    qed
  qed
  then have "wp (catchE (Inject E path a) (\<lambda>r. case r of Inl e \<Rightarrow> throwE (f e) | Inr _ \<Rightarrow> returnE (Some path)))
      (\<lambda>c w3. owes c {} {} [] w w3 \<and> signsIn (Some i) path w3 \<and> c = Some path) (\<lambda>_. owes None {} {} [] w) w2"
    if "ac_id a = i" "owes None {} {} [] w w2" for a w2 f
    unfolding wp_catchE sum.case wp_throwE_fun wp_returnE_fun
    by (rule wp_mono) (use that in auto)
  with Some show ?thesis
    unfolding injectAccount_def
    by (simp add: wp_bindE) (rule wp_mono [OF wp_conj [OF wp_Validate_id wp_calm [OF calm_Validate]]],
         use owes_calm [OF o] in auto)
qed

lemma wp_getInstance: "wp (getInstance E i) (\<lambda>x _. gi_id x = i) (\<lambda>_ _. True) w"
  by (auto simp: getInstance_def wp_simps findInstance_def scanInstance_def find_Some_iff split: option.splits)

lemma wp_ValidateLaunch:
  "wp (ValidateLaunch E i r) (\<lambda>v w'. lv_valid v \<longrightarrow> \<not> Running (l_registry w') i) (\<lambda>_ _. True) w"
proof -
  have mods: "lv_valid (checkMods E inst v) = lv_valid v" for inst v
    by (simp add: checkMods_def warning_def)
  show ?thesis
    by (simp add: ValidateLaunch_def wp_bindE wp_bindE_fun wp_catchE wp_getE wp_returnE_fun mods issue_def wp_trivial)
qed

text \<open>
  A launch that succeeded: the game is registered with its session, whose row is stored; its log
  is open and its process runs with the data path of the instance; the settings file signs in
  the account of the session, or nobody; and the waiting goroutine got all of this.
\<close>

definition launched :: "string \<Rightarrow> string \<Rightarrow> launch_world \<Rightarrow> play_session \<Rightarrow> wait_frame \<Rightarrow> launch_world \<Rightarrow> bool" where
  "launched i server w s f w' \<longleftrightarrow>
     (let path = settingsPath (wf_instance f) in
      gi_id (wf_instance f) = i \<and> gi_status (wf_instance f) = InstanceRunning \<and>
      \<not> Running (l_registry w) i \<and> \<not> InstanceBusy (l_registry w) i \<and>
      l_registry w' = StartGame (l_registry w) i
        \<lparr>process = wf_pid f, sessionID = ps_id s, started = l_now w, client = gi_client (wf_instance f)\<rparr> \<and>
      wf_session f = ps_id s \<and> wf_started f = l_now w \<and>
      l_sessions w' = l_sessions w @ [s] \<and> ps_instance s = i \<and> ps_ended s = None \<and>
      \<not> list_ex (\<lambda>x. ps_id x = ps_id s) (l_sessions w) \<and>
      wf_log f \<notin> openLogs w \<and> openLogs w' = openLogs w \<union> {wf_log f} \<and>
      (\<exists>x arguments. map_of (l_processes w') (wf_pid f) = Some x \<and> gp_alive x \<and>
         gp_arguments x = arguments @ [''--dataPath'', gi_directory (wf_instance f)] @
           (if server = [] then [] else [''--connect'', server])) \<and>
      alive w' \<subseteq> alive w \<union> {wf_pid f} \<and>
      wf_cleanup f = map_option (\<lambda>_. path) (ps_account s) \<and> injected (wf_cleanup f) w' \<and>
      signsIn (ps_account s) path w' \<and>
      (\<forall>q. Some q \<noteq> wf_cleanup f \<longrightarrow> map_of (l_files w') q = map_of (l_files w) q \<or> authFreeNode (map_of (l_files w') q)) \<and>
      l_events w' = l_events w @ [GameStartedEvent s])"

lemma launched_files:
  assumes "launched i server w s f w'"
  shows "injected (wf_cleanup f) w'"
    and "Some q \<noteq> wf_cleanup f \<Longrightarrow> map_of (l_files w') q = map_of (l_files w) q \<or> authFreeNode (map_of (l_files w') q)"
  using assms unfolding launched_def Let_def by blast+

lemma wp_registerGame:
  assumes o: "owes c {p} {pid} [s] w w1" and p: "p \<notin> openLogs w"
    and fresh: "freshSession inst accountID version pid w s"
    and run: "runsGame E inst target (arguments @ [''--dataPath'', gi_directory inst] @
        (if server = [] then [] else [''--connect'', server])) pid w1"
    and idle: "\<not> Running (l_registry w) i" "\<not> InstanceBusy (l_registry w) i" and i: "gi_id inst = i"
    and c: "c = map_option (\<lambda>_. settingsPath inst) accountID" and sign: "signsIn accountID (settingsPath inst) w1"
  shows "wp (registerGame E inst s pid p c) (\<lambda>f w'. launched i server w s f w' \<and> gateSame w w') X w1"
proof -
  let ?running = "inst\<lparr>gi_status := InstanceRunning, gi_last_played := Some (ps_started s), gi_updated := ps_started s\<rparr>"
  have saved: "evolves calm (saveInstance E ?running)"
    by (intro evolve_rules) simp_all
  have path: "settingsPath (inst\<lparr>gi_status := x, gi_last_played := y, gi_updated := z\<rparr>) = settingsPath inst" for x y z
    by (simp add: settingsPath_def)
  have fin: "launched i server w s f w' \<and> gateSame w w'"
    if calm: "calm w1 w2" and f: "f = \<lparr>wf_instance = ?running, wf_pid = pid, wf_session = ps_id s, wf_started = ps_started s,
           wf_log = p, wf_cleanup = c, wf_dotnet = d\<rparr>"
      and w': "l_gate w' = l_gate w2" "l_registry w' = StartGame (l_registry w2) i
           \<lparr>process = pid, sessionID = ps_id s, started = ps_started s, client = gi_client inst\<rparr>"
        "l_sessions w' = l_sessions w2" "l_logs w' = l_logs w2" "l_processes w' = l_processes w2"
        "l_files w' = l_files w2" "l_events w' = l_events w2 @ [GameStartedEvent s]" for f w2 w' d
  proof -
    note o2 = owes_calm [OF o calm]
    have same: "l_processes w2 = l_processes w1" "l_files w2 = l_files w1"
      using calm by (simp_all add: calm_def resources_def)
    have "openLogs w' = openLogs w2" "alive w' = alive w2" by (simp_all add: openLogs_def alive_def w')
    moreover have "injected c w' = injected c w2" by (rule injected_cong) (rule w')
    moreover have "signsIn accountID (settingsPath inst) w'"
      using sign w' same by (simp add: signsIn_def signedOut_def split: option.splits)
    ultimately show ?thesis
      using o2 fresh run idle i c p same
      by (auto simp: launched_def owes_def f w' path Let_def freshSession_def runsGame_def gateSame_def)
  qed
  show ?thesis
    unfolding registerGame_def Let_def wp_bindE wp_ignoreL
    by (rule wp_mono [OF wp_calm [OF saved]])
       (simp_all add: wp_simps wp_bindE_fun publishL_def reportL_def i fin)
qed

lemma wp_launchInjected:
  assumes calm: "calmFiles E" and o: "owes c {} {} [] w w2"
    and idle: "\<not> Running (l_registry w) i" "\<not> InstanceBusy (l_registry w) i"
    and i: "gi_id inst = i" and c: "c = map_option (\<lambda>_. settingsPath inst) accountID"
    and sign: "signsIn accountID (settingsPath inst) w2"
  shows "wp (launchInjected E inst version target accountID server c)
    (\<lambda>(s, f) w'. launched i server w s f w' \<and> gateSame w w') (\<lambda>_. undone E w) w2"
  unfolding launchInjected_def wp_bindE [of "startGame E inst version target accountID server c"]
proof (rule wp_mono [OF wp_conj [OF wp_startGame [OF calm o] okKeeps_startGame [unfolded okKeeps_def, THEN spec]]], goal_cases)
  case (1 x w3)
  obtain s pid p where x: "x = (s, pid, p)" by (cases x) auto
  from 1 x have "owes c {p} {pid} [s] w w3" "p \<notin> openLogs w" "freshSession inst accountID version pid w s"
    by simp_all
  moreover from 1 x obtain settings :: launch_settings where "runsGame E inst target
      ((st_arguments settings @ gi_arguments inst) @ [''--dataPath'', gi_directory inst] @
        (if server = [] then [] else [''--connect'', server])) pid w3"
    by (auto simp: buildLaunchArguments_def split: if_splits)
  moreover from 1 x have "signsIn accountID (settingsPath inst) w3"
    using sign by (simp add: signsIn_def signedOut_def split: option.splits)
  ultimately have "wp (registerGame E inst s pid p c) (\<lambda>f w'. launched i server w s f w' \<and> gateSame w w') (\<lambda>_. undone E w) w3"
    using idle i c by (intro wp_registerGame)
  then show ?case unfolding x prod.case wp_bindE wp_returnE_fun .
qed simp

lemma wp_launchChecked:
  assumes calm: "calmFiles E" and o: "owes None {} {} [] w w1"
  shows "wp (launchChecked E i r server) (\<lambda>(s, f) w'. launched i server w s f w' \<and> gateSame w w') (\<lambda>_. undone E w) w1"
proof -
  let ?Q = "\<lambda>(s, f) w'. launched i server w s f w' \<and> gateSame w w'"
  note undo = undoneI
  have inject: "wp (bindE (injectAccount E (settingsPath inst) accountID) (\<lambda>c.
      launchInjected E inst version target accountID server c)) ?Q (\<lambda>_. undone E w) w2"
    if "owes None {} {} [] w w2" "\<not> Running (l_registry w) i" "\<not> InstanceBusy (l_registry w) i" "gi_id inst = i"
    for inst version target accountID w2
    unfolding wp_bindE
    by (rule wp_mono [OF wp_injectAccount [OF calm that(1)]])
       (use that in \<open>auto intro!: wp_launchInjected [OF calm] undo\<close>)
  have resolve: "wp (bindE (ResolveExecutable E (gi_version inst)) (\<lambda>version.
     bindE (resolveLaunchTarget E inst version) (\<lambda>target.
     bindE (resolveAccountID E inst r) (\<lambda>accountID.
     bindE (injectAccount E (settingsPath inst) accountID) (\<lambda>cleanup.
     launchInjected E inst version target accountID server cleanup))))) ?Q (\<lambda>_. undone E w) w2"
    if "owes None {} {} [] w w2" "\<not> Running (l_registry w) i" "\<not> InstanceBusy (l_registry w) i" "gi_id inst = i"
    for inst w2
  proof -
    have ex: "evolves calm (ResolveExecutable E v)" for v by (intro evolve_rules) simp_all
    show ?thesis
      unfolding wp_bindE [of "ResolveExecutable E (gi_version inst)"]
    proof (rule wp_owes_calm [OF ex that(1)], goal_cases)
      case (1 version w3)
      show ?case
        unfolding wp_bindE [of "resolveLaunchTarget E inst version"]
      proof (rule wp_owes_calm [OF calm_resolve(2) 1(1)], goal_cases)
        case (1 target w4)
        show ?case
          unfolding wp_bindE [of "resolveAccountID E inst r"]
          by (rule wp_owes_calm [OF calm_resolve(1) 1(1)]) (use that inject undo in blast)+
      qed (rule undo)
    qed (rule undo)
  qed
  have checked: "wp (bindE (getInstance E i) (\<lambda>inst. bindE (ResolveExecutable E (gi_version inst)) (\<lambda>version.
     bindE (resolveLaunchTarget E inst version) (\<lambda>target.
     bindE (resolveAccountID E inst r) (\<lambda>accountID.
     bindE (injectAccount E (settingsPath inst) accountID) (\<lambda>cleanup.
     launchInjected E inst version target accountID server cleanup)))))) ?Q (\<lambda>_. undone E w) w2"
    if o2: "owes None {} {} [] w w2" and idle: "\<not> Running (l_registry w) i" "\<not> InstanceBusy (l_registry w) i" for w2
  proof -
    have get: "evolves calm (getInstance E i)" by (intro evolve_rules) simp
    show ?thesis
      unfolding wp_bindE [of "getInstance E i"]
    proof (rule wp_mono [OF wp_conj [OF wp_getInstance wp_calm [OF get]]], goal_cases)
      case (1 inst w3)
      with owes_calm [OF o2] idle show ?case by (intro resolve) auto
    next
      case (2 e w3)
      with owes_calm [OF o2] show ?case by (auto intro: undo)
    qed
  qed
  show ?thesis
  proof (cases "InstanceBusy (l_registry w1) i")
    case True
    with o show ?thesis by (simp add: launchChecked_def wp_simps undo)
  next
    case False
    with o have free: "\<not> InstanceBusy (l_registry w) i" by (simp add: owes_def)
    have "wp (ValidateLaunch E i r) (\<lambda>v w2. (lv_valid v \<longrightarrow> \<not> Running (l_registry w2) i) \<and> calm w1 w2)
        (\<lambda>_ w2. True \<and> calm w1 w2) w1"
      by (rule wp_conj [OF wp_ValidateLaunch wp_calm [OF calm_ValidateLaunch]])
    then show ?thesis
      unfolding launchChecked_def wp_bindE [of "getE f" for f] wp_getE
      using False
    proof (simp only: if_False wp_bindE [of "ValidateLaunch E i r"], elim wp_mono, goal_cases)
      case (1 v w2)
      then have o2: "owes None {} {} [] w w2" using owes_calm [OF o] by blast
      then have "l_registry w2 = l_registry w" by (simp add: owes_def)
      with 1 free o2 show ?case
        by (cases "lv_valid v") (simp_all add: wp_throwE_fun undo checked)
    next
      case (2 e w2)
      with owes_calm [OF o] show ?case by (blast intro: undo)
    qed
  qed
qed

lemma wp_launch:
  assumes calm: "calmFiles E" and gate: "0 \<le> active (l_gate w)"
  shows "wp (launch E i r server)
    (\<lambda>(s, f) w'. launched i server w s f w' \<and> l_gate w' = (l_gate w)\<lparr>active := active (l_gate w) + 1\<rparr>)
    (\<lambda>_ w'. undone E w w' \<and> l_gate w' = l_gate w) w"
proof (cases "relocating (l_gate w)")
  case True
  then show ?thesis
    by (simp add: launch_def wp_bindE wp_def [of beginMutation] beginMutation_eq undoneI [OF owes_refl])
next
  case False
  let ?w1 = "w\<lparr>l_gate := (l_gate w)\<lparr>active := active (l_gate w) + 1\<rparr>\<rparr>"
  have begun: "launched i server w s f w' \<and> l_gate w' = (l_gate w)\<lparr>active := active (l_gate w) + 1\<rparr>"
    if "launched i server ?w1 s f w'" "gateSame ?w1 w'" for s f w'
    using that gate by (simp add: launched_def gateSame_def openLogs_def alive_def)
  have ended: "undone E w (endMutation w') \<and> l_gate (endMutation w') = l_gate w" if "undone E ?w1 w'" for w'
  proof -
    from that obtain P where P: "owes None {} P [] ?w1 w'" "P = {} \<or> processFault E" by (auto simp: undone_def)
    have g: "l_gate (endMutation w') = l_gate w"
      using P(1) gate by (simp add: owes_def gateSame_def endMutation_def End_def)
    moreover have "openLogs (endMutation w') = openLogs w'" "alive (endMutation w') = alive w'"
      "openLogs ?w1 = openLogs w" "alive ?w1 = alive w" by (simp_all add: openLogs_def alive_def endMutation_def)
    ultimately have "owes None {} P [] w (endMutation w')"
      using P(1) by (simp add: owes_def gateSame_def injected_def endMutation_def)
    with P(2) g show ?thesis by (auto simp: undone_def)
  qed
  have "wp (onError (modifyE endMutation) (launchChecked E i r server))
      (\<lambda>(s, f) w'. launched i server w s f w' \<and> l_gate w' = (l_gate w)\<lparr>active := active (l_gate w) + 1\<rparr>)
      (\<lambda>_ w'. undone E w w' \<and> l_gate w' = l_gate w) ?w1"
    unfolding onError_def wp_catchE sum.case wp_throwE_fun wp_returnE_fun wp_bindE_fun
  proof (rule wp_mono [OF wp_launchChecked [OF calm owes_refl]], goal_cases)
    case (1 x w')
    obtain s f where x: "x = (s, f)" by fastforce
    with 1 show ?case using begun [of s f w'] by simp
  next
    case (2 e w')
    then show ?case unfolding wp_modifyE by (rule ended)
  qed
  with False show ?thesis
    by (simp add: launch_def wp_bindE wp_def [of beginMutation] beginMutation_eq)
qed

text \<open>
  C15 (error).  A launch that fails, at whatever call, leaves nothing behind when the settings
  files can be written: the gate, the registry, the sessions, the open logs and the events are
  as before; every settings file is as before or carries no session; and no process that it
  started is left running, unless the operating system refused to kill it.
\<close>

theorem launch_failure_undone:
  assumes "calmFiles E" and "0 \<le> active (l_gate w)" and "launch E i r server w = (Inl e, w')"
  shows "l_gate w' = l_gate w \<and> l_registry w' = l_registry w \<and> l_sessions w' = l_sessions w \<and>
    l_events w' = l_events w \<and> openLogs w' = openLogs w \<and> cleaned w w' \<and>
    (alive w' \<subseteq> alive w \<or> processFault E)"
  using wp_InlD [OF wp_launch [OF assms(1,2)] assms(3)]
  by (auto simp: undone_def owes_def cleaned_def)


section \<open>The exit of the game\<close>

text \<open>What \<open>waitForGame\<close> takes over from a launch.\<close>

definition exited :: "lenv \<Rightarrow> wait_frame \<Rightarrow> int \<Rightarrow> bool \<Rightarrow> launch_world \<Rightarrow> launch_world \<Rightarrow> bool" where
  "exited E f code failed w w' \<longleftrightarrow>
     l_gate w' = End (l_gate w) \<and>
     l_registry w' = StopGame (l_registry w) (gi_id (wf_instance f)) \<and>
     openLogs w' = openLogs w - {wf_log f} \<and>
     (\<forall>p. wf_cleanup f = Some p \<longrightarrow> authFreeNode (map_of (l_files w') p)) \<and> cleaned w w' \<and>
     l_recovery w' = l_recovery w @
       (if (failed \<or> code \<noteq> 0) \<and> l_now w - wf_started f < gameStartupWindow
        then [FailedLaunch (gi_id (wf_instance f))] else [])"

lemma recordExit_result:
  "wp (recordExit E f code failed) (\<lambda>_ w'. l_gate w' = l_gate w \<and> l_registry w' = l_registry w \<and>
     l_logs w' = l_logs w \<and> l_files w' = l_files w \<and> l_recovery w' = l_recovery w @
       (if (failed \<or> code \<noteq> 0) \<and> l_now w - wf_started f < gameStartupWindow
        then [FailedLaunch (gi_id (wf_instance f))] else [])) (\<lambda>_ _. False) w"
proof -
  let ?kept = "\<lambda>w :: launch_world. (l_gate w, l_registry w, l_logs w, l_files w, l_recovery w)"
  have q: "quiet (keeping ?kept)" "ignores l_sessions_update (keeping ?kept)" "ignores l_instances_update (keeping ?kept)"
    by (simp_all add: quiet_def ignores_def) (simp_all add: keeping_def)
  have fin: "wp (FinishSession E i c b d) (\<lambda>_. Q) (\<lambda>_. Q) v" if "\<And>v'. ?kept v' = ?kept v \<Longrightarrow> Q v'" for i c b d Q v
    by (rule wp_keep [where f = ?kept]) (auto intro!: evolve_rules q that)
  have sav: "wp (saveInstance E i) (\<lambda>_. Q) (\<lambda>_. Q) v" if "\<And>v'. ?kept v' = ?kept v \<Longrightarrow> Q v'" for i Q v
    by (rule wp_keep [where f = ?kept]) (auto intro!: evolve_rules q that)
  show ?thesis
    unfolding recordExit_def Let_def
    by (auto simp: wp_simps wp_bindE_fun recordRecovery_def publishL_def intro!: fin sav)
qed

lemma wp_waitForGame:
  assumes calm: "calmFiles E" and inj: "injected (wf_cleanup f) w"
  shows "wp (waitForGame E f code failed) (\<lambda>_. exited E f code failed w) (\<lambda>_ _. False) w"
proof -
  let ?w1 = "setLog (wf_log f) (\<lambda>x. x\<lparr>lg_open := False\<rparr>) (w\<lparr>l_registry := StopGame (l_registry w) (gi_id (wf_instance f))\<rparr>)"
  have logs: "openLogs ?w1 = openLogs w - {wf_log f}"
    by (auto simp: openLogs_setLog) (auto simp: openLogs_def)
  have "wp (clearInjectedCredentials E (wf_cleanup f)) (\<lambda>_ w2. filesOnly ?w1 w2 \<and> cleaned ?w1 w2 \<and>
      (\<forall>p. wf_cleanup f = Some p \<longrightarrow> authFreeNode (map_of (l_files w2) p))) X ?w1" for X
  proof (cases "wf_cleanup f")
    case None
    then show ?thesis by (simp add: clearInjectedCredentials_def wp_simps filesOnly_def)
  next
    case (Some p)
    obtain r w2 where run: "cleanupInjected E p ?w1 = (r, w2)" by fastforce
    from inj Some obtain d where d: "map_of (l_files ?w1) p = Some (Settings d)" "cleanable d"
      by (auto simp: injected_def setLog_def)
    have "filesOnly ?w1 w2" using evolves_settings_ports(4) run by (rule evolvesD) simp_all
    moreover have "cleaned ?w1 w2"
      using evolves_cleanupInjected run by (rule evolvesD) (simp add: calm calmFiles_honest)
    ultimately show ?thesis
      using cleanup_cleans [OF calm d run] run Some
      by (auto simp: clearInjectedCredentials_def ignoreL_def wp_def catchE_def split: sum.splits)
  qed
  then have "wp (clearInjectedCredentials E (wf_cleanup f))
      (\<lambda>_. wp (recordExit E f code failed) (\<lambda>_ w'. exited E f code failed w (endMutation w')) (\<lambda>_ _. False))
      (\<lambda>_ _. False) ?w1"
  proof (rule wp_mono)
    fix u w2 assume w2: "filesOnly ?w1 w2 \<and> cleaned ?w1 w2 \<and>
      (\<forall>p. wf_cleanup f = Some p \<longrightarrow> authFreeNode (map_of (l_files w2) p))"
    then have same: "l_gate w2 = l_gate w" "l_registry w2 = StopGame (l_registry w) (gi_id (wf_instance f))"
      "l_logs w2 = l_logs ?w1" "l_recovery w2 = l_recovery w" "l_now w2 = l_now w"
      using filesOnlyD [of ?w1 w2] by (simp_all add: setLog_def)
    show "wp (recordExit E f code failed) (\<lambda>_ w'. exited E f code failed w (endMutation w')) (\<lambda>_ _. False) w2"
    proof (rule wp_mono [OF recordExit_result], goal_cases)
      case (1 x w')
      then have "openLogs (endMutation w') = openLogs ?w1" by (simp add: openLogs_def endMutation_def same)
      moreover have "cleaned w (endMutation w')" "l_files (endMutation w') = l_files w2"
        using w2 1 by (simp_all add: cleaned_def endMutation_def setLog_def)
      ultimately show ?case
        using 1 w2 same logs by (simp add: exited_def endMutation_def)
    qed
  qed simp
  then show ?thesis
    by (simp add: waitForGame_def stopTracking_def releaseResources_def closeLaunchLog_def wp_simps wp_bindE_fun)
qed

lemma delete_update_absent: "i \<notin> fst ` set al \<Longrightarrow> AList.delete i (AList.update i g al) = al"
  by (induction al) (auto simp: AList.delete_eq)

lemma Stop_Start_absent: "\<not> Running r i \<Longrightarrow> StopGame (StartGame r i g) i = r"
  by (simp add: StopGame_def StartGame_def Running_def delete_update_absent map_of_eq_None_iff)


section \<open>A launch, evaluated\<close>

definition readyWorld :: launch_world where
  "readyWorld = emptyLaunch\<lparr>
     l_instances := [\<lparr>gi_id = ''i'', gi_name = ''n'', gi_description = [], gi_version = ''v'', gi_client = GameClientVanilla,
       gi_account = None, gi_directory = ''/i'', gi_cover = None, gi_status = InstanceReady, gi_arguments = [''-x''],
       gi_environment = [], gi_pinned = False, gi_last_played = None, gi_created = 0, gi_updated = 0\<rparr>],
     l_versions := [\<lparr>gv_id = ''v'', gv_name = ''v'', gv_directory = ''/v'', gv_executable = ''/v/g'',
       gv_status = ''installed'', gv_verified = None\<rparr>],
     l_binaries := [(''/v/g'', NotElf)],
     l_accounts := [safeAccount sampleAccount],
     l_keyring := [(''a'', Some \<lparr>cr_key = ''k'', cr_signature = ''s''\<rparr>)]\<rparr>"

text \<open>An environment where only the operating system's process calls may fail.\<close>

definition processEnv :: "go_error option \<Rightarrow> lenv" where
  "processEnv pf = plainEnv\<lparr>le_fault := (\<lambda>k n. if k = ProcessCall then pf else None)\<rparr>"

lemma processEnv_fields:
  "le_fault (processEnv pf) k n = (if k = ProcessCall then pf else None)" "le_new_id (processEnv pf) = (\<lambda>n. Itoa (int n))"
  "le_pid (processEnv pf) = int" "le_size (processEnv pf) = (\<lambda>n. 100)" "le_validate (processEnv pf) = (\<lambda>n u k. Inr True)"
  "le_dotnet (processEnv pf) = None" "le_environ (processEnv pf) = []" "le_has_optitime (processEnv pf) = (\<lambda>d. Inr False)"
  "le_telemetry (processEnv pf) = True"
  by (simp_all add: processEnv_def plainEnv_def)

lemma calm_processEnv: "calmFiles (processEnv pf)"
  by (simp add: calmFiles_def processEnv_fields maxClientSettingsBytes_def)

lemma readyWorld_fields:
  "l_gate readyWorld = newGate" "l_registry readyWorld = NewRegistry newSlot"
  "l_instances readyWorld = [\<lparr>gi_id = ''i'', gi_name = ''n'', gi_description = [], gi_version = ''v'',
     gi_client = GameClientVanilla, gi_account = None, gi_directory = ''/i'', gi_cover = None,
     gi_status = InstanceReady, gi_arguments = [''-x''], gi_environment = [], gi_pinned = False,
     gi_last_played = None, gi_created = 0, gi_updated = 0\<rparr>]"
  "l_versions readyWorld = [\<lparr>gv_id = ''v'', gv_name = ''v'', gv_directory = ''/v'', gv_executable = ''/v/g'',
     gv_status = ''installed'', gv_verified = None\<rparr>]"
  "l_binaries readyWorld = [(''/v/g'', NotElf)]" "l_accounts readyWorld = [safeAccount sampleAccount]"
  "l_keyring readyWorld = [(''a'', Some \<lparr>cr_key = ''k'', cr_signature = ''s''\<rparr>)]"
  "l_files readyWorld = []" "l_logs readyWorld = []" "l_processes readyWorld = []" "l_sessions readyWorld = []"
  "l_now readyWorld = 0" "l_ticks readyWorld = 0"
  by (simp_all add: readyWorld_def emptyLaunch_def)

lemma ready_gate: "0 \<le> active (l_gate readyWorld)"
  by (simp add: readyWorld_fields newGate_def)

lemma wp_modifyE_fun: "wp (modifyE f) Q X = (\<lambda>w. Q () (f w))"
  by (simp add: fun_eq_iff wp_modifyE)

lemma wp_True_fun: "wp m (\<lambda>_ _. True) (\<lambda>_ _. True) = (\<lambda>_. True)"
  by (simp add: fun_eq_iff wp_True)

lemma registerGame_returns: "wp (registerGame E inst s pid p c) (\<lambda>_ _. True) X w"
  unfolding registerGame_def Let_def wp_bindE [of "ignoreL m" for m] wp_ignoreL
  by (rule wp_mono [OF wp_True]) (simp_all add: publishL_def reportL_def wp_simps)

lemma processEnv_writes:
  "map_of (l_logs w) p = None \<Longrightarrow> wp (openLog (processEnv pf) p) Q X w =
     Q () (ticked w\<lparr>l_logs := (p, \<lparr>lg_open = True, lg_text = []\<rparr>) # l_logs w\<rparr>)"
  "map_of (l_files w) p \<noteq> Some Irregular \<Longrightarrow> wp (atomicWriteL (processEnv pf) p n) Q X w =
     Q () (ticked w\<lparr>l_files := AList.update p n (l_files w)\<rparr>)"
  "\<not> list_ex (\<lambda>x. ps_id x = ps_id s) (l_sessions w) \<Longrightarrow> list_ex (\<lambda>r. gi_id r = ps_instance s) (l_instances w) \<Longrightarrow>
   (case ps_account s of None \<Rightarrow> True | Some a \<Rightarrow> list_ex (\<lambda>x. ac_id x = a) (l_accounts w)) \<Longrightarrow>
   wp (CreateSession (processEnv pf) s) Q X w = Q () (ticked w\<lparr>l_sessions := l_sessions w @ [s]\<rparr>)"
  by (auto simp: openLog_def atomicWriteL_def CreateSession_def callL_def wp_def processEnv_fields split: option.splits)

lemmas ready_simps = processEnv_fields readyWorld_fields processEnv_writes registerGame_returns wp_simps wp_bindE_fun wp_modifyE_fun wp_True_fun
  wp_True wp_mutating beginMutation_eq endMutation_def End_def newGate_def Let_def
  getInstance_def findInstance_def scanInstance_def NormalizeGameClient_def ResolveExecutable_def getVersion_def
  verifyVersion_def executableExists_def resolveLaunchTarget_def checkExecutable_def checkAccount_def checkMods_def
  resolveAccountID_def GetAccount_def ListAccounts_def getAccountRow_def listAccountRows_def chosen_def
  safeAccount_def sampleAccount_def newSlot_def NewRegistry_def Running_def InstanceBusy_def IsBusy_def BusyMarker_def
  injectAccount_def ValidateAuthorizedAccount_def authorizedAccount_def credentialGet_def validateRequest_def
  recordValidation_def saveAccountMutation_def saveAccountRow_def
  launch_def launchChecked_def ValidateLaunch_def validLaunch_def onError_def launchInjected_def startGame_def
  prepareLog_def ensureLayout_def hardenLogs_def getSettings_def
  Inject_def patchClientSettings_def writePatched_def readSettings_def patchDoc_def matchingSections_def
  primarySection_def injectionJournalSuffix_def isNotExist_def writeCommand_def writeLaunchCommand_def setLog_def
  prepareInterpreter_def Getenv_def lookup_default_def launchProcess_def startProcess_def saveSession_def

lemma ready_launches: "wp (launch (processEnv None) ''i'' None []) (\<lambda>_ _. True) (\<lambda>_ _. False) readyWorld"
  by (simp add: ready_simps wp_def [of beginMutation])

lemma ready_fails: "wp (launch (processEnv (Some NotFoundError)) ''i'' None []) (\<lambda>_ _. False) (\<lambda>_ _. True) readyWorld"
  by (simp add: ready_simps wp_def [of beginMutation])

lemma ready_launched: "\<exists>s f w'. launch (processEnv None) ''i'' None [] readyWorld = (Inr (s, f), w')"
  using ready_launches by (auto simp: wp_def split: prod.splits sum.splits)

lemma ready_failed: "\<exists>e w'. launch (processEnv (Some NotFoundError)) ''i'' None [] readyWorld = (Inl e, w')"
  using ready_fails by (auto simp: wp_def split: prod.splits sum.splits)

theorem launch_failure_undone_witness:
  "\<exists>e w'. launch (processEnv (Some NotFoundError)) ''i'' None [] readyWorld = (Inl e, w') \<and>
     l_gate w' = newGate \<and> openLogs w' = {} \<and> cleaned readyWorld w'"
proof -
  obtain e w' where run: "launch (processEnv (Some NotFoundError)) ''i'' None [] readyWorld = (Inl e, w')"
    using ready_failed by blast
  with launch_failure_undone [OF calm_processEnv ready_gate run] show ?thesis
    by (simp add: readyWorld_fields openLogs_def)
qed



end
