(* ===== verification/DownloadManager.thy ===== *)
theory DownloadManager
  imports Errs
begin

text \<open>
  \<open>platform/downloader/manager.go\<close>: one limit of concurrent transfers for all downloads, which
  can change while they run.  A goroutine \<open>runDownload\<close> per download asks for a slot, transfers,
  gives the slot back and, when the transfer was only paused, starts over.

  \<open>manager.mu\<close> makes every access to the manager one atomic step.  A wake channel is its number:
  closing it is moving to the next one.  \<open>dl_cancelled\<close> are the tasks whose run context was
  cancelled through \<open>runningTasks\<close>.  The transfer itself is \<open>HTTPDownloader.Download\<close> (in
  \<open>Downloader\<close>): here it ends with any outcome, but with a cancellation only when its context
  was cancelled.  A caller's context ends by cancellation, not by a deadline.
\<close>

section \<open>The manager\<close>

type_synonym task = nat

record dl_manager =
  dl_limit :: int
  dl_running :: int
  dl_wake :: nat
  dl_active :: "task list"
  dl_cancelled :: "task list"

definition NewManager :: "int \<Rightarrow> dl_manager" where
  "NewManager parallel =
     \<lparr>dl_limit = (if parallel < 1 then 1 else parallel), dl_running = 0, dl_wake = 0,
      dl_active = [], dl_cancelled = []\<rparr>"

definition notifyLocked :: "dl_manager \<Rightarrow> dl_manager" where
  "notifyLocked m = m\<lparr>dl_wake := Suc (dl_wake m)\<rparr>"

text \<open>The loop over \<open>runningTasks\<close>, in some order of the map.\<close>

fun cancelExcess :: "int \<Rightarrow> task list \<Rightarrow> task list \<Rightarrow> task list" where
  "cancelExcess excess [] cancelled = cancelled"
| "cancelExcess excess (t # order) cancelled =
     (if excess \<le> 0 then cancelled else cancelExcess (excess - 1) order (List.insert t cancelled))"

definition SetLimit :: "int \<Rightarrow> task list \<Rightarrow> dl_manager \<Rightarrow> dl_manager" where
  "SetLimit parallel0 order m =
     (let parallel = (if parallel0 < 1 then 1 else parallel0)
      in notifyLocked (m\<lparr>dl_limit := parallel,
           dl_cancelled := cancelExcess (int (length (dl_active m)) - parallel) order (dl_cancelled m)\<rparr>))"

text \<open>One pass of \<open>acquireSlot\<close>: the slot, or the channel to wait on.\<close>

definition acquireSlot :: "task \<Rightarrow> dl_manager \<Rightarrow> nat option \<times> dl_manager" where
  "acquireSlot t m =
     (if dl_running m < dl_limit m
      then (None, m\<lparr>dl_running := dl_running m + 1, dl_active := t # dl_active m\<rparr>)
      else (Some (dl_wake m), m))"

definition finishTransfer :: "task \<Rightarrow> dl_manager \<Rightarrow> dl_manager" where
  "finishTransfer t m = notifyLocked (m\<lparr>dl_running := dl_running m - 1,
     dl_active := removeAll t (dl_active m), dl_cancelled := removeAll t (dl_cancelled m)\<rparr>)"

text \<open>What \<open>runDownload\<close> makes of the outcome: a result, or another pass (\<open>None\<close>).\<close>

definition afterTransfer :: "bool \<Rightarrow> unit result \<Rightarrow> unit result option" where
  "afterTransfer ctxDone r =
     (case r of
        Inr _ \<Rightarrow> Some (Inr ())
      | Inl e \<Rightarrow> if ctxDone then Some (Inl CtxCanceled)
                 else if \<not> isCanceled e then Some (Inl e) else None)"

section \<open>The goroutines\<close>

datatype phase =
  Acquire | Sleep nat | Transfer | Ended "unit result" | Released "unit result" | Finished "unit result"

record dl_sys =
  sy_manager :: dl_manager
  sy_phase :: "task \<Rightarrow> phase option"
  sy_ctx :: "task set"

definition dl_init :: "int \<Rightarrow> dl_sys" where
  "dl_init parallel = \<lparr>sy_manager = NewManager parallel, sy_phase = Map.empty, sy_ctx = {}\<rparr>"

text \<open>What the goroutines do by themselves.\<close>

inductive work :: "dl_sys \<Rightarrow> dl_sys \<Rightarrow> bool" where
  acquired: "sy_phase s t = Some Acquire \<Longrightarrow> acquireSlot t (sy_manager s) = (None, m) \<Longrightarrow>
     work s (s\<lparr>sy_manager := m, sy_phase := (sy_phase s)(t \<mapsto> Transfer)\<rparr>)"
| queued: "sy_phase s t = Some Acquire \<Longrightarrow> acquireSlot t (sy_manager s) = (Some g, m) \<Longrightarrow>
     work s (s\<lparr>sy_manager := m, sy_phase := (sy_phase s)(t \<mapsto> Sleep g)\<rparr>)"
| woken: "sy_phase s t = Some (Sleep g) \<Longrightarrow> g \<noteq> dl_wake (sy_manager s) \<Longrightarrow>
     work s (s\<lparr>sy_phase := (sy_phase s)(t \<mapsto> Acquire)\<rparr>)"
| given_up: "sy_phase s t = Some (Sleep g) \<Longrightarrow> t \<in> sy_ctx s \<Longrightarrow>
     work s (s\<lparr>sy_phase := (sy_phase s)(t \<mapsto> Finished (Inl CtxCanceled))\<rparr>)"
| transferred: "sy_phase s t = Some Transfer \<Longrightarrow>
     (\<And>e. r = Inl e \<Longrightarrow> isCanceled e \<Longrightarrow> t \<in> set (dl_cancelled (sy_manager s)) \<or> t \<in> sy_ctx s) \<Longrightarrow>
     work s (s\<lparr>sy_phase := (sy_phase s)(t \<mapsto> Ended r)\<rparr>)"
| released: "sy_phase s t = Some (Ended r) \<Longrightarrow>
     work s (s\<lparr>sy_manager := finishTransfer t (sy_manager s), sy_phase := (sy_phase s)(t \<mapsto> Released r)\<rparr>)"
| finished: "sy_phase s t = Some (Released r) \<Longrightarrow> afterTransfer (t \<in> sy_ctx s) r = Some x \<Longrightarrow>
     work s (s\<lparr>sy_phase := (sy_phase s)(t \<mapsto> Finished x)\<rparr>)"
| resumed: "sy_phase s t = Some (Released r) \<Longrightarrow> afterTransfer (t \<in> sy_ctx s) r = None \<Longrightarrow>
     work s (s\<lparr>sy_phase := (sy_phase s)(t \<mapsto> Acquire)\<rparr>)"

text \<open>What the callers do: \<open>Download\<close>, cancelling its context, \<open>SetLimit\<close>.\<close>

inductive outside :: "dl_sys \<Rightarrow> dl_sys \<Rightarrow> bool" where
  download: "sy_phase s t = None \<Longrightarrow> outside s (s\<lparr>sy_phase := (sy_phase s)(t \<mapsto> Acquire)\<rparr>)"
| cancel: "outside s (s\<lparr>sy_ctx := insert t (sy_ctx s)\<rparr>)"
| set_limit: "distinct order \<Longrightarrow> set order = set (dl_active (sy_manager s)) \<Longrightarrow>
     outside s (s\<lparr>sy_manager := SetLimit parallel order (sy_manager s)\<rparr>)"

text \<open>\<open>Download\<close> returns the result, or the cancellation as soon as its context is done.\<close>

inductive returns :: "dl_sys \<Rightarrow> task \<Rightarrow> unit result \<Rightarrow> bool" where
  result: "sy_phase s t = Some (Finished x) \<Longrightarrow> returns s t x"
| ctx_done: "sy_phase s t \<noteq> None \<Longrightarrow> t \<in> sy_ctx s \<Longrightarrow> returns s t (Inl CtxCanceled)"

inductive_simps returns_iff: "returns s t x"
inductive_cases workE: "work s s'"
inductive_cases outsideE: "outside s s'"

inductive dl_reachable :: "int \<Rightarrow> dl_sys \<Rightarrow> bool" for parallel where
  init: "dl_reachable parallel (dl_init parallel)"
| works: "dl_reachable parallel s \<Longrightarrow> work s s' \<Longrightarrow> dl_reachable parallel s'"
| outer: "dl_reachable parallel s \<Longrightarrow> outside s s' \<Longrightarrow> dl_reachable parallel s'"

section \<open>The invariant\<close>

definition holding :: "phase option \<Rightarrow> bool" where
  "holding p = (case p of Some Transfer \<Rightarrow> True | Some (Ended _) \<Rightarrow> True | _ \<Rightarrow> False)"

text \<open>The transfers that were not told to stop.\<close>

definition transfers :: "dl_manager \<Rightarrow> task list" where
  "transfers m = filter (\<lambda>t. t \<notin> set (dl_cancelled m)) (dl_active m)"

definition manager_inv :: "dl_manager \<Rightarrow> bool" where
  "manager_inv m \<longleftrightarrow> 1 \<le> dl_limit m \<and> dl_running m = int (length (dl_active m)) \<and> distinct (dl_active m) \<and>
     set (dl_cancelled m) \<subseteq> set (dl_active m) \<and> int (length (transfers m)) \<le> dl_limit m"

definition sys_inv :: "dl_sys \<Rightarrow> bool" where
  "sys_inv s \<longleftrightarrow> manager_inv (sy_manager s) \<and>
     (\<forall>t. t \<in> set (dl_active (sy_manager s)) \<longleftrightarrow> holding (sy_phase s t)) \<and>
     (\<forall>t g. sy_phase s t = Some (Sleep g) \<longrightarrow> g = dl_wake (sy_manager s) \<longrightarrow>
        dl_limit (sy_manager s) \<le> dl_running (sy_manager s)) \<and>
     (\<forall>t g. sy_phase s t = Some (Sleep g) \<longrightarrow> g \<le> dl_wake (sy_manager s)) \<and>
     (\<forall>t e. sy_phase s t = Some (Finished (Inl e)) \<longrightarrow> isCanceled e \<longrightarrow> t \<in> sy_ctx s) \<and>
     finite (dom (sy_phase s))"

lemma cancelExcess_set: "set cs \<subseteq> set (cancelExcess n order cs) \<and> set (cancelExcess n order cs) \<subseteq> set cs \<union> set order"
  by (induction n order cs rule: cancelExcess.induct) auto

lemma cancelExcess_left:
  "distinct order \<Longrightarrow> n \<le> int (length order) \<Longrightarrow> int (length (filter (\<lambda>t. t \<notin> set (cancelExcess n order cs)) order)) \<le> int (length order) - n \<or> n \<le> 0"
proof (induction n order cs rule: cancelExcess.induct)
  case (2 n t order cs)
  show ?case
  proof (cases "n \<le> 0")
    case False
    then have "t \<in> set (cancelExcess (n - 1) order (List.insert t cs))"
      using cancelExcess_set [of "List.insert t cs" "n - 1" order] by auto
    moreover have "int (length (filter (\<lambda>u. u \<notin> set (cancelExcess (n - 1) order (List.insert t cs))) order)) \<le> int (length order) - (n - 1) \<or> n = 1"
      using 2 False by auto
    moreover have "length (filter P order) \<le> length order" for P by simp
    ultimately show ?thesis using False by auto
  qed simp
qed simp

lemma length_filter_set:
  "distinct xs \<Longrightarrow> distinct ys \<Longrightarrow> set xs = set ys \<Longrightarrow> length (filter P xs) = length (filter P ys)"
  by (metis distinct_card distinct_filter set_filter)

lemma manager_inv_SetLimit:
  assumes inv: "manager_inv m" and order: "distinct order" "set order = set (dl_active m)"
  shows "manager_inv (SetLimit parallel order m)"
proof -
  let ?p = "if parallel < 1 then 1 else parallel"
  let ?n = "int (length (dl_active m)) - ?p"
  let ?c = "cancelExcess ?n order (dl_cancelled m)"
  have len: "length order = length (dl_active m)"
    using inv order length_filter_set [of order "dl_active m" "\<lambda>_. True"] by (simp add: manager_inv_def)
  have "int (length (filter (\<lambda>t. t \<notin> set ?c) (dl_active m))) = int (length (filter (\<lambda>t. t \<notin> set ?c) order))"
    using inv order length_filter_set [of order "dl_active m"] by (simp add: manager_inv_def)
  also have "\<dots> \<le> ?p"
  proof (cases "?n \<le> 0")
    case True
    have "length (filter (\<lambda>t. t \<notin> set ?c) order) \<le> length order" by simp
    with True len show ?thesis by linarith
  next
    case False
    moreover have "?n \<le> int (length order)" using len by simp
    ultimately show ?thesis using cancelExcess_left [OF order(1), of ?n "dl_cancelled m"] len by linarith
  qed
  finally have "int (length (filter (\<lambda>t. t \<notin> set ?c) (dl_active m))) \<le> ?p" .
  moreover have "set ?c \<subseteq> set (dl_active m)"
    using cancelExcess_set [of "dl_cancelled m" ?n order] inv order by (auto simp: manager_inv_def)
  ultimately show ?thesis
    using inv by (simp add: manager_inv_def SetLimit_def notifyLocked_def transfers_def Let_def)
qed

lemma manager_inv_New: "manager_inv (NewManager parallel)"
  by (simp add: manager_inv_def NewManager_def transfers_def)

lemma transfers_le: "length (transfers m) \<le> length (dl_active m)"
  by (simp add: transfers_def)

lemma manager_inv_acquire:
  assumes "manager_inv m" "acquireSlot t m = (None, m')" "t \<notin> set (dl_active m)"
  shows "manager_inv m'"
proof -
  have "int (length (transfers m)) + 1 \<le> dl_limit m"
    using assms(1,2) transfers_le [of m] by (simp add: manager_inv_def acquireSlot_def split: if_splits)
  with assms show ?thesis
    by (auto simp: manager_inv_def acquireSlot_def transfers_def split: if_splits)
qed

lemma length_removeAll_in: "distinct xs \<Longrightarrow> t \<in> set xs \<Longrightarrow> int (length (removeAll t xs)) = int (length xs) - 1"
  by (induction xs) auto

lemma manager_inv_finish:
  assumes inv: "manager_inv m" and t: "t \<in> set (dl_active m)"
  shows "manager_inv (finishTransfer t m)"
proof -
  have "transfers (finishTransfer t m) = removeAll t (transfers m)"
    unfolding transfers_def finishTransfer_def notifyLocked_def removeAll_filter_not_eq
    by (auto simp: filter_eq_iff intro: filter_cong)
  then have "length (transfers (finishTransfer t m)) \<le> length (transfers m)" by (simp add: length_removeAll_less_eq)
  then show ?thesis
    using inv t by (auto simp: manager_inv_def finishTransfer_def notifyLocked_def length_removeAll_in distinct_removeAll)
qed

lemma holding_simps [simp]:
  "holding None = False" "holding (Some Acquire) = False" "holding (Some (Sleep g)) = False"
  "holding (Some Transfer) = True" "holding (Some (Ended r)) = True"
  "holding (Some (Released r)) = False" "holding (Some (Finished r)) = False"
  by (simp_all add: holding_def)

lemma sys_inv_init: "sys_inv (dl_init parallel)"
  by (simp add: sys_inv_def dl_init_def manager_inv_New) (simp add: NewManager_def)

lemma acquired_fields:
  "acquireSlot t m = (None, m') \<Longrightarrow>
     dl_active m' = t # dl_active m \<and> dl_wake m' = dl_wake m \<and> dl_limit m' = dl_limit m \<and>
     dl_running m' = dl_running m + 1 \<and> dl_cancelled m' = dl_cancelled m"
  by (auto simp: acquireSlot_def split: if_splits)

lemma queued_fields: "acquireSlot t m = (Some g, m') \<Longrightarrow> m' = m \<and> g = dl_wake m \<and> dl_limit m \<le> dl_running m"
  by (auto simp: acquireSlot_def split: if_splits)

lemma finish_fields:
  "dl_active (finishTransfer t m) = removeAll t (dl_active m)" "dl_wake (finishTransfer t m) = Suc (dl_wake m)"
  "dl_cancelled (finishTransfer t m) = removeAll t (dl_cancelled m)"
  by (simp_all add: finishTransfer_def notifyLocked_def)

lemma sys_inv_work:
  assumes "work s s'" "sys_inv s" shows "sys_inv s'"
  using assms
proof cases
  case (acquired t m)
  then have free: "t \<notin> set (dl_active (sy_manager s))" using assms(2) by (auto simp: sys_inv_def)
  with acquired assms(2) have "manager_inv m" by (auto simp: sys_inv_def intro: manager_inv_acquire)
  with acquired assms(2) acquired_fields [OF acquired(3)] show ?thesis by (auto simp: sys_inv_def)
next
  case (queued t g m)
  with queued_fields [OF queued(3)] assms(2) show ?thesis by (auto simp: sys_inv_def)
next
  case (woken t g)
  with assms(2) show ?thesis by (auto simp: sys_inv_def)
next
  case (given_up t g)
  with assms(2) show ?thesis by (auto simp: sys_inv_def)
next
  case (transferred t r)
  then have "t \<in> set (dl_active (sy_manager s))" using assms(2) by (simp add: sys_inv_def)
  with transferred assms(2) show ?thesis by (auto simp: sys_inv_def)
next
  case (released t r)
  then have t: "t \<in> set (dl_active (sy_manager s))" using assms(2) by (simp add: sys_inv_def)
  have "manager_inv (finishTransfer t (sy_manager s))"
    using assms(2) t by (auto simp: sys_inv_def intro: manager_inv_finish)
  then show ?thesis
    using released assms(2) by (auto simp: sys_inv_def finish_fields) (metis Suc_n_not_le_n le_SucI)+
next
  case (finished t r x)
  have "isCanceled e \<Longrightarrow> t \<in> sy_ctx s" if "x = Inl e" for e
    using finished(3) that by (auto simp: afterTransfer_def split: sum.splits if_splits)
  with finished assms(2) show ?thesis by (auto simp: sys_inv_def)
next
  case (resumed t r)
  with assms(2) show ?thesis by (auto simp: sys_inv_def)
qed

lemma sys_inv_outside:
  assumes "outside s s'" "sys_inv s" shows "sys_inv s'"
  using assms
proof cases
  case (set_limit order parallel)
  have "manager_inv (SetLimit parallel order (sy_manager s))"
    using set_limit assms(2) by (auto simp: sys_inv_def intro: manager_inv_SetLimit)
  moreover have "dl_active (SetLimit parallel order (sy_manager s)) = dl_active (sy_manager s)"
    "dl_wake (SetLimit parallel order (sy_manager s)) = Suc (dl_wake (sy_manager s))"
    by (simp_all add: SetLimit_def notifyLocked_def Let_def)
  ultimately show ?thesis
    using set_limit assms(2) by (auto simp: sys_inv_def) (metis Suc_n_not_le_n le_SucI)+
qed (use assms(2) in \<open>auto simp: sys_inv_def\<close>)

lemma reachable_inv: "dl_reachable parallel s \<Longrightarrow> sys_inv s"
  by (induction rule: dl_reachable.induct) (auto intro: sys_inv_init sys_inv_work sys_inv_outside)

section \<open>What the manager promises\<close>

text \<open>
  C19 (bounds).  However the limit is changed while downloads run, start, are paused, fail or are
  cancelled: the manager counts exactly the downloads that hold a slot, and the transfers that
  were not told to stop are never more than the current limit, which is at least one.
\<close>

theorem transfers_within_limit:
  assumes "dl_reachable parallel s"
  shows "1 \<le> dl_limit (sy_manager s) \<and>
    dl_running (sy_manager s) = int (card {t. holding (sy_phase s t)}) \<and>
    int (card {t. holding (sy_phase s t) \<and> t \<notin> set (dl_cancelled (sy_manager s))}) \<le> dl_limit (sy_manager s)"
proof -
  let ?m = "sy_manager s"
  from assms have inv: "sys_inv s" by (rule reachable_inv)
  then have m: "manager_inv ?m" and h: "{t. holding (sy_phase s t)} = set (dl_active ?m)"
    by (auto simp: sys_inv_def)
  have "{t. holding (sy_phase s t) \<and> t \<notin> set (dl_cancelled ?m)} = set (transfers ?m)"
    using inv by (auto simp: sys_inv_def transfers_def)
  moreover have "card (set (transfers ?m)) = length (transfers ?m)" "card (set (dl_active ?m)) = length (dl_active ?m)"
    using m by (auto simp: transfers_def manager_inv_def simp del: set_filter intro!: distinct_card)
  ultimately show ?thesis
    using m h by (simp add: manager_inv_def)
qed

text \<open>
  C20 (safety).  A pause never reaches a caller: \<open>Download\<close> returns a cancellation only when the
  context of its caller was cancelled, whatever \<open>SetLimit\<close> stopped meanwhile.
\<close>

theorem pauses_hidden:
  assumes "dl_reachable parallel s" and "returns s t (Inl e)" and "isCanceled e"
  shows "t \<in> sy_ctx s"
  using reachable_inv [OF assms(1)] assms(2,3) by (auto simp: sys_inv_def returns_iff)

section \<open>Progress\<close>

definition phaseRank :: "nat \<Rightarrow> phase \<Rightarrow> nat" where
  "phaseRank wake p =
     (case p of Finished _ \<Rightarrow> 0 | Ended _ \<Rightarrow> 1 | Transfer \<Rightarrow> 2
      | Sleep g \<Rightarrow> if g = wake then 3 else 5 | Acquire \<Rightarrow> 4 | Released _ \<Rightarrow> 6)"

text \<open>How often a download will still give a slot back.\<close>

definition releases :: "dl_sys \<Rightarrow> task \<Rightarrow> phase \<Rightarrow> nat" where
  "releases s t p =
     (let paused = (\<lambda>r. afterTransfer (t \<in> sy_ctx s) r = None)
      in case p of
        Finished _ \<Rightarrow> 0
      | Released r \<Rightarrow> of_bool (paused r)
      | Ended r \<Rightarrow> 1 + of_bool (paused r)
      | Transfer \<Rightarrow> 1 + of_bool (t \<in> set (dl_cancelled (sy_manager s)))
      | _ \<Rightarrow> 1)"

definition workMeasure :: "dl_sys \<Rightarrow> nat \<times> nat" where
  "workMeasure s = (\<Sum>t\<in>dom (sy_phase s). releases s t (the (sy_phase s t)),
     \<Sum>t\<in>dom (sy_phase s). phaseRank (dl_wake (sy_manager s)) (the (sy_phase s t)))"

abbreviation smaller :: "((nat \<times> nat) \<times> (nat \<times> nat)) set" where
  "smaller \<equiv> less_than <*lex*> less_than"

lemma sum_le_one_less:
  fixes f g :: "'a \<Rightarrow> nat"
  assumes "finite A" "a \<in> A" "\<And>b. b \<in> A \<Longrightarrow> b \<noteq> a \<Longrightarrow> g b = f b"
  shows "g a \<le> f a \<Longrightarrow> sum g A \<le> sum f A" and "g a < f a \<Longrightarrow> sum g A < sum f A"
proof -
  have "sum g (A - {a}) = sum f (A - {a})" using assms(3) by (intro sum.cong) auto
  with assms show "g a \<le> f a \<Longrightarrow> sum g A \<le> sum f A" "g a < f a \<Longrightarrow> sum g A < sum f A"
    by (simp_all add: sum.remove [of A a])
qed

text \<open>A step that moves one download, and not the wake channel unless it saves a release.\<close>

lemma smallerI:
  assumes fin: "finite (dom (sy_phase s))" and t: "sy_phase s t = Some x"
    and s': "sy_phase s' = (sy_phase s)(t \<mapsto> y)" "sy_ctx s' = sy_ctx s"
    and cs: "\<And>u. u \<noteq> t \<Longrightarrow> u \<in> set (dl_cancelled (sy_manager s')) \<longleftrightarrow> u \<in> set (dl_cancelled (sy_manager s))"
    and step: "releases s' t y < releases s t x \<or>
      releases s' t y \<le> releases s t x \<and> dl_wake (sy_manager s') = dl_wake (sy_manager s) \<and>
      phaseRank (dl_wake (sy_manager s)) y < phaseRank (dl_wake (sy_manager s)) x"
  shows "(workMeasure s', workMeasure s) \<in> smaller"
proof -
  have d: "dom (sy_phase s') = dom (sy_phase s)" "t \<in> dom (sy_phase s)" using t s' by auto
  have "releases s' u p = releases s u p" if "u \<noteq> t" for u p
    using that s' cs by (simp add: releases_def Let_def split: phase.split)
  then have r: "releases s' u (the (sy_phase s' u)) = releases s u (the (sy_phase s u))" if "u \<noteq> t" for u
    using that s' by simp
  note one = sum_le_one_less [OF fin d(2)]
  show ?thesis
    using step d(1) t s' one(1) [of "\<lambda>u. releases s' u (the (sy_phase s' u))", OF r]
      one(2) [of "\<lambda>u. releases s' u (the (sy_phase s' u))", OF r]
      one(2) [of "\<lambda>u. phaseRank (dl_wake (sy_manager s)) (the (sy_phase s' u))"
        "\<lambda>u. phaseRank (dl_wake (sy_manager s)) (the (sy_phase s u))"]
    by (auto simp: workMeasure_def le_less)
qed

lemma work_smaller:
  assumes "work s s'" "sys_inv s" shows "(workMeasure s', workMeasure s) \<in> smaller"
proof -
  have fin: "finite (dom (sy_phase s))" using assms(2) by (simp add: sys_inv_def)
  note step = smallerI [OF fin] and rank = phaseRank_def releases_def Let_def
  show ?thesis
    using assms
  proof cases
    case (acquired t m)
    then have "t \<notin> set (dl_cancelled (sy_manager s))" using assms(2) by (auto simp: sys_inv_def manager_inv_def)
    with acquired acquired_fields [OF acquired(3)] show ?thesis
      by (intro step [of t Acquire _ Transfer]) (auto simp: rank)
  next
    case (queued t g m)
    with queued_fields [OF queued(3)] show ?thesis
      by (intro step [of t Acquire _ "Sleep g"]) (auto simp: rank)
  next
    case (woken t g)
    then show ?thesis by (intro step [of t "Sleep g" _ Acquire]) (auto simp: rank)
  next
    case (given_up t g)
    then show ?thesis by (intro step [of t "Sleep g" _ "Finished (Inl CtxCanceled)"]) (auto simp: rank)
  next
    case (transferred t r)
    then show ?thesis
      by (intro step [of t Transfer _ "Ended r"]) (auto simp: rank afterTransfer_def split: sum.splits if_splits)
  next
    case (released t r)
    then show ?thesis by (intro step [of t "Ended r" _ "Released r"]) (auto simp: rank finish_fields)
  next
    case (finished t r x)
    then show ?thesis by (intro step [of t "Released r" _ "Finished x"]) (auto simp: rank)
  next
    case (resumed t r)
    then show ?thesis by (intro step [of t "Released r" _ Acquire]) (auto simp: rank)
  qed
qed

lemma stuck_finished:
  assumes inv: "sys_inv s" and stuck: "\<And>s'. \<not> work s s'" and t: "sy_phase s t = Some p"
  shows "\<exists>r. p = Finished r"
proof -
  have idle: "sy_phase s u \<noteq> Some Acquire" for u
  proof
    assume a: "sy_phase s u = Some Acquire"
    obtain g m where "acquireSlot u (sy_manager s) = (g, m)" by fastforce
    with a stuck acquired queued show False by (cases g) metis+
  qed
  have held: "\<not> holding (sy_phase s u)" for u
  proof
    assume "holding (sy_phase s u)"
    then consider "sy_phase s u = Some Transfer" | r where "sy_phase s u = Some (Ended r)"
      by (auto simp: holding_def split: option.splits phase.splits)
    then show False
    proof cases
      case 1
      from transferred [OF 1, of "Inr ()"] stuck show False by simp
    next
      case 2
      from released [OF 2] stuck show False by simp
    qed
  qed
  have over: "sy_phase s u \<noteq> Some (Released r)" for u r
    using finished [of s u r] resumed [of s u r] stuck by (cases "afterTransfer (u \<in> sy_ctx s) r") auto
  from held have "dl_active (sy_manager s) = []" using inv by (auto simp: sys_inv_def)
  then have "dl_running (sy_manager s) < dl_limit (sy_manager s)"
    using inv by (simp add: sys_inv_def manager_inv_def)
  then have "sy_phase s u \<noteq> Some (Sleep g)" for u g
    using inv woken [of s u g] stuck by (metis linorder_not_less sys_inv_def)
  with t idle [of t] held [of t] over [of t] show ?thesis by (cases p) (auto simp: holding_def)
qed

text \<open>
  C18 (liveness).  Once the callers leave the manager alone, every run of the goroutines is finite
  and ends with all downloads finished: no wakeup is lost, no slot leaks and no pause repeats
  for ever.
\<close>

theorem downloads_finish:
  assumes "dl_reachable parallel s"
  shows "(\<nexists>run. run 0 = s \<and> (\<forall>n. work (run n) (run (Suc n)))) \<and>
    (\<forall>s'. work\<^sup>*\<^sup>* s s' \<longrightarrow> (\<nexists>s''. work s' s'') \<longrightarrow>
       (\<forall>t p. sy_phase s' t = Some p \<longrightarrow> (\<exists>r. p = Finished r)))"
proof (intro conjI notI allI impI)
  assume "\<exists>run. run 0 = s \<and> (\<forall>n. work (run n) (run (Suc n)))"
  then obtain run where run: "run 0 = s" "\<And>n. work (run n) (run (Suc n))" by blast
  have inv: "sys_inv (run n)" for n
    by (induction n) (use run assms in \<open>auto intro: reachable_inv sys_inv_work\<close>)
  have "wf smaller" by auto
  moreover have "(workMeasure (run (Suc n)), workMeasure (run n)) \<in> smaller" for n
    by (rule work_smaller [OF run(2) inv])
  ultimately show False
    unfolding wf_iff_no_infinite_down_chain by (auto dest: spec [of _ "\<lambda>n. workMeasure (run n)"])
next
  fix s' t p assume star: "work\<^sup>*\<^sup>* s s'" and stuck: "\<nexists>s''. work s' s''" and t: "sy_phase s' t = Some p"
  from star have "sys_inv s'"
    by (induction rule: rtranclp_induct) (use assms in \<open>auto intro: reachable_inv sys_inv_work\<close>)
  then show "\<exists>r. p = Finished r" using stuck t by (intro stuck_finished) auto
qed

section \<open>A run, evaluated\<close>

text \<open>One download transfers under a limit of 1, a second one waits and its caller gives up.\<close>

definition fullManager :: dl_manager where
  "fullManager = snd (acquireSlot 0 (NewManager 1))"

definition givenUp :: dl_sys where
  "givenUp = \<lparr>sy_manager = fullManager,
     sy_phase = [0 \<mapsto> Transfer, 1 \<mapsto> Finished (Inl CtxCanceled)], sy_ctx = {1}\<rparr>"

lemmas run_simps = dl_init_def NewManager_def acquireSlot_def fullManager_def

lemma givenUp_reachable: "dl_reachable 1 givenUp"
proof -
  define at where "at = (\<lambda>m p c. \<lparr>sy_manager = m, sy_phase = p, sy_ctx = c\<rparr>)"
  note [simp] = at_def
  have goW: "dl_reachable 1 s''" if "dl_reachable 1 s" "work s s'" "s' = s''" for s s' s''
    using works that by blast
  have goO: "dl_reachable 1 s''" if "dl_reachable 1 s" "outside s s'" "s' = s''" for s s' s''
    using outer that by blast
  have "dl_reachable 1 (at (NewManager 1) [0 \<mapsto> Acquire] {})"
    by (rule goO [OF init download [of _ 0]]) (simp_all add: run_simps)
  then have "dl_reachable 1 (at fullManager [0 \<mapsto> Transfer] {})"
    by (rule goW [OF _ acquired [of _ 0 fullManager]]) (simp_all add: run_simps)
  then have "dl_reachable 1 (at fullManager [0 \<mapsto> Transfer, 1 \<mapsto> Acquire] {})"
    by (rule goO [OF _ download [of _ 1]]) simp_all
  then have "dl_reachable 1 (at fullManager [0 \<mapsto> Transfer, 1 \<mapsto> Sleep 0] {})"
    by (rule goW [OF _ queued [of _ 1 0 fullManager]]) (simp_all add: run_simps)
  then have "dl_reachable 1 (at fullManager [0 \<mapsto> Transfer, 1 \<mapsto> Sleep 0] {1})"
    by (rule goO [OF _ cancel [of _ 1]]) simp_all
  then show ?thesis
    by (rule goW [OF _ given_up [of _ 1 0]]) (simp_all add: givenUp_def)
qed

lemma givenUp_holding: "{t. holding (sy_phase givenUp t)} = {0}"
  by (auto simp: givenUp_def split: if_splits)

theorem transfers_within_limit_witness:
  "dl_running (sy_manager givenUp) = 1 \<and> card {t. holding (sy_phase givenUp t)} = 1 \<and> dl_limit (sy_manager givenUp) = 1"
  using transfers_within_limit [OF givenUp_reachable] givenUp_holding by (simp add: givenUp_def run_simps)

theorem pauses_hidden_witness: "1 \<in> sy_ctx givenUp \<and> 0 \<notin> sy_ctx givenUp"
proof -
  have "returns givenUp 1 (Inl CtxCanceled)" by (simp add: returns_iff givenUp_def)
  then have "1 \<in> sy_ctx givenUp" by (rule pauses_hidden [OF givenUp_reachable]) (simp add: isCanceled_def)
  then show ?thesis by (simp add: givenUp_def)
qed

theorem downloads_finish_witness:
  "\<nexists>run. run 0 = givenUp \<and> (\<forall>n. work (run n) (run (Suc n)))"
  using downloads_finish [OF givenUp_reachable] by blast

end
