(* ===== verification/SnapshotStore.thy ===== *)
theory SnapshotStore
  imports ModCatalog
begin

text \<open>
  \<open>internal/platform/snapshots/store.go\<close>, the directories and manifests of the snapshots, and the
  file operations around them: \<open>os.MkdirTemp\<close>, \<open>HardenLogs\<close> of \<open>instancedirectory/storage.go\<close>,
  \<open>SafeRemoveAll\<close> of \<open>instances/safe_remove.go\<close>, \<open>TotalSizeContext\<close> of \<open>dataroot/copy.go\<close>.

  \<open>snap_ports\<close> are the functions the snapshot service is built with that other theories model on
  another state, or that ask the operating system: the sanitiser of \<open>clientsettings.json\<close>, the
  removal of credentials from it, the free disk space and the home directory.
\<close>

record snap_ports =
  sp_sanitize :: "content \<Rightarrow> content result"
  sp_clear :: "content \<Rightarrow> content option"
  sp_available :: "nat \<Rightarrow> int result"
  sp_home :: string

section \<open>Further file operations\<close>

definition osMkdir :: "string \<Rightarrow> fs \<Rightarrow> unit result \<times> fs" where
  "osMkdir p t =
     (if fs_node t p \<noteq> None then (Inl (OtherError ''file exists''), t)
      else if \<not> is_dir t (Dir p) then (Inl (OsNotExist ''no such file or directory''), t)
      else (Inr (), (p, DirNode) # t))"

text \<open>The random part of the name is the next identifier; a name that is taken is an error.\<close>

definition MkdirTemp :: "env \<Rightarrow> string \<Rightarrow> string \<Rightarrow> string act" where
  "MkdirTemp E dir prefix =
     bindE (newIDE E) (\<lambda>x.
     bindE (fsE E (osMkdir (JoinPath [dir, prefix @ x]))) (\<lambda>_.
     returnE (JoinPath [dir, prefix @ x])))"

definition removeAllE :: "env \<Rightarrow> string \<Rightarrow> unit act" where
  "removeAllE E p = fsE E (\<lambda>t. (Inr (), osRemoveAll p t))"

definition writeFileE :: "env \<Rightarrow> string \<Rightarrow> content \<Rightarrow> unit act" where
  "writeFileE E p c = bindE (createE E p) (\<lambda>_. bindE (copyIntoE E p c) (\<lambda>_. closeE E))"

definition relativeTo :: "string \<Rightarrow> string \<Rightarrow> string" where
  "relativeTo base p = drop (length (below base)) p"

text \<open>
  The nodes below a root, in the order \<open>filepath.Walk\<close> visits them.  It joins the names of directory
  entries, which never are empty, \<open>.\<close> or \<open>..\<close>.
\<close>

definition walk_nodes :: "string \<Rightarrow> fs \<Rightarrow> (string \<times> node) list" where
  "walk_nodes base t = sort_key (\<lambda>(p, _). Split p (CHR ''/''))
     (filter (\<lambda>(p, _). under base p \<and> list_all plain (Split (relativeTo base p) (CHR ''/''))) t)"

definition osWalk :: "string \<Rightarrow> fs \<Rightarrow> (string \<times> node) list result" where
  "osWalk base t =
     (case fs_node t base of
        None \<Rightarrow> Inl (OsNotExist ''no such file or directory'')
      | Some (FileNode _) \<Rightarrow> Inr []
      | Some DirNode \<Rightarrow> Inr (walk_nodes base t))"

definition walkE :: "env \<Rightarrow> string \<Rightarrow> (string \<times> node) list act" where
  "walkE E base = readE E (\<lambda>w. osWalk base (w_fs w))"

text \<open>\<open>HardenLogs\<close>: the directory, and permissions, which the tree does not record.\<close>

definition HardenLogs :: "env \<Rightarrow> string \<Rightarrow> unit act" where
  "HardenLogs E logs =
     bindE (statE E (Dir (Clean logs))) (\<lambda>info.
       if info \<noteq> DirNode then throwE (OtherError ''instance root is not a regular directory'')
       else bindE (fsE E (\<lambda>t. if fs_node t logs \<noteq> None then (Inr (), t) else osMkdir logs t)) (\<lambda>_.
            bindE (walkE E logs) (\<lambda>entries. forE entries (\<lambda>_. closeE E))))"

definition safeRemovalPath :: "env \<Rightarrow> snap_ports \<Rightarrow> string \<Rightarrow> string \<Rightarrow> (string \<times> bool) act" where
  "safeRemovalPath E P path marker =
     (if Clean path = ''/'' \<or> Clean path = sp_home P \<or> Clean path = Clean (ev_data_root E) \<or> length (Clean path) < 5
      then throwE (NewError ErrValidation ''Unsafe deletion path'')
      else catchE (statE E (Clean path)) (\<lambda>r. case r of
        Inl e \<Rightarrow> (if isNotExist e then returnE (Clean path, False) else throwE e)
      | Inr _ \<Rightarrow> catchE (statE E (JoinPath [Clean path, marker])) (\<lambda>r. case r of
          Inl _ \<Rightarrow> throwE (NewError ErrValidation
                     ''The directory is not managed by Waxlight; no files were deleted'')
        | Inr _ \<Rightarrow> returnE (Clean path, True))))"

text \<open>One attempt on Linux: the removal, and the check that nothing is left.\<close>

definition removeAllReliably :: "env \<Rightarrow> string \<Rightarrow> unit act" where
  "removeAllReliably E path =
     bindE (removeAllE E path) (\<lambda>_.
     catchE (statE E path) (\<lambda>r. case r of
       Inl e \<Rightarrow> (if isNotExist e then returnE () else throwE e)
     | Inr _ \<Rightarrow> throwE (OtherError (''directory still exists after recursive removal: '' @ path))))"

definition SafeRemoveAll :: "env \<Rightarrow> snap_ports \<Rightarrow> string \<Rightarrow> unit act" where
  "SafeRemoveAll E P path =
     bindE (safeRemovalPath E P path ''.waxlight-instance'') (\<lambda>(absPath, there).
       if \<not> there
       then throwE (NewError ErrValidation ''The directory is not managed by Waxlight; no files were deleted'')
       else removeAllReliably E absPath)"

definition reservedNames :: "string list" where
  "reservedNames = [''data-root'', ''data-root-pending'', ''data-root-previous'', ''data-root-error'',
     ''waxlight.db'', ''waxlight.db-wal'', ''waxlight.db-shm'']"

text \<open>The launcher's own files lie directly under the root; a reserved directory is skipped whole.\<close>

definition TotalSizeContext :: "env \<Rightarrow> string \<Rightarrow> int act" where
  "TotalSizeContext E base =
     bindE (walkE E base) (\<lambda>entries.
     bindE (ctxE E) (\<lambda>_.
     returnE (sum_list (map (\<lambda>(p, n). node_size n)
       (filter (\<lambda>(p, _). hd (Split (relativeTo base p) (CHR ''/'')) \<notin> set reservedNames) entries)))))"

section \<open>The store\<close>

abbreviation "manifestFileName \<equiv> ''manifest.json''"
abbreviation "tempPrefix \<equiv> ''.tmp-''"

definition snapshotsRoot :: "env \<Rightarrow> string" where
  "snapshotsRoot E = JoinPath [ev_data_root E, ''backups'', ''instances'']"

definition snapshotSegment :: "string \<Rightarrow> string result" where
  "snapshotSegment value =
     (let t = TrimSpace value
      in if t = [] \<or> t = ''.'' \<or> t = ''..'' \<or> Base t \<noteq> t \<or> CHR ''/'' \<in> set t \<or> CHR 0x5C \<in> set t
         then Inl (NewError ErrValidation ''Invalid snapshot identifier'') else Inr t)"

definition InstancePath :: "env \<Rightarrow> string \<Rightarrow> string result" where
  "InstancePath E i =
     (case snapshotSegment i of Inl e \<Rightarrow> Inl e | Inr i \<Rightarrow> Inr (JoinPath [snapshotsRoot E, i]))"

definition InstanceDir :: "env \<Rightarrow> string \<Rightarrow> string act" where
  "InstanceDir E i = bindE (liftE (InstancePath E i)) (\<lambda>d. bindE (mkdirE E d) (\<lambda>_. returnE d))"

definition SnapshotDir :: "env \<Rightarrow> string \<Rightarrow> string \<Rightarrow> string result" where
  "SnapshotDir E i s =
     (case snapshotSegment i of
        Inl e \<Rightarrow> Inl e
      | Inr i \<Rightarrow>
          (case snapshotSegment s of
             Inl e \<Rightarrow> Inl e
           | Inr s \<Rightarrow>
               (let d = JoinPath [snapshotsRoot E, i, s]
                in if Dir (Dir d) \<noteq> snapshotsRoot E \<or> Dir d \<noteq> JoinPath [snapshotsRoot E, i]
                   then Inl (NewError ErrValidation ''Unsafe snapshot path'') else Inr d)))"

definition DataDir :: "string \<Rightarrow> string" where
  "DataDir d = JoinPath [d, ''data'']"

definition TempDir :: "env \<Rightarrow> string \<Rightarrow> string act" where
  "TempDir E i = bindE (InstanceDir E i) (\<lambda>d. MkdirTemp E d tempPrefix)"

definition manifestValue :: "content \<Rightarrow> manifest result" where
  "manifestValue c =
     (case c of
        Blob _ \<Rightarrow> Inl (OtherError ''invalid character looking for beginning of value'')
      | MetadataJson _ \<Rightarrow> Inl (OtherError ''unsupported snapshot format version'')
      | MarkerJson _ \<Rightarrow> Inl (OtherError ''unsupported snapshot format version'')
      | ZipArchive _ \<Rightarrow> Inl (OtherError ''invalid character looking for beginning of value'')
      | ManifestJson m \<Rightarrow>
          (if mf_format m \<noteq> FormatVersion1 \<and> mf_format m \<noteq> FormatVersion
           then Inl (OtherError ''unsupported snapshot format version'')
           else if TrimSpace (mf_id m) = [] \<or> TrimSpace (mf_instance m) = []
           then Inl (OtherError ''snapshot manifest misses its identifiers'')
           else if mf_type m \<noteq> TypeManual \<and> mf_type m \<noteq> TypeAutomatic
           then Inl (OtherError ''unsupported snapshot type'')
           else if mf_type m = TypeAutomatic \<and> mf_reason m = []
           then Inl (OtherError ''automatic snapshot manifest misses its reason'')
           else if IsZero (mf_created m)
           then Inl (OtherError ''snapshot manifest misses its creation time'')
           else Inr m))"

definition ReadManifest :: "env \<Rightarrow> string \<Rightarrow> manifest act" where
  "ReadManifest E d = bindE (readFileE E (JoinPath [d, manifestFileName])) (\<lambda>c. liftE (manifestValue c))"

definition WriteManifest :: "env \<Rightarrow> string \<Rightarrow> manifest \<Rightarrow> unit act" where
  "WriteManifest E d m = atomicWrite E (JoinPath [d, manifestFileName]) (ManifestJson m)"

definition snapshotInfo :: "manifest \<Rightarrow> instance_snapshot" where
  "snapshotInfo m = \<lparr>si_id = mf_id m, si_instance = mf_instance m, si_instance_name = mf_instance_name m,
     si_type = mf_type m, si_reason = mf_reason m, si_context = mf_context m,
     si_game_version = mf_game_version m, si_created = mf_created m, si_size = mf_size m,
     si_mod_count = mf_mod_count m, si_world_count = mf_world_count m\<rparr>"

definition listEntry :: "env \<Rightarrow> string \<Rightarrow> string \<times> bool \<Rightarrow> instance_snapshot list \<Rightarrow> instance_snapshot list act" where
  "listEntry E d entry found =
     bindE (ctxE E) (\<lambda>_.
       if \<not> snd entry \<or> HasPrefix (fst entry) ''.'' then returnE found
       else catchE (ReadManifest E (JoinPath [d, fst entry])) (\<lambda>r. case r of
         Inl _ \<Rightarrow> returnE found
       | Inr m \<Rightarrow> returnE (if mf_id m \<noteq> fst entry then found else found @ [snapshotInfo m])))"

text \<open>\<open>sort.Slice\<close> leaves the order of snapshots with equal times open; here they keep theirs.\<close>

definition newestFirst :: "instance_snapshot list \<Rightarrow> instance_snapshot list" where
  "newestFirst = SliceStable (\<lambda>a b. si_created a > si_created b)"

definition readEntries :: "env \<Rightarrow> string \<Rightarrow> (string \<times> bool) list act" where
  "readEntries E d = readE E (\<lambda>w. case osReadDir d (w_fs w) of
     Inl e \<Rightarrow> Inl e
   | Inr names \<Rightarrow> Inr (map (\<lambda>n. (n, is_dir (w_fs w) (JoinPath [d, n]))) names))"

definition ListSnapshots :: "env \<Rightarrow> string \<Rightarrow> instance_snapshot list act" where
  "ListSnapshots E i =
     bindE (liftE (InstancePath E i)) (\<lambda>d.
     catchE (readEntries E d) (\<lambda>r. case r of
       Inl e \<Rightarrow> (if isNotExist e then returnE [] else throwE e)
     | Inr entries \<Rightarrow> bindE (foldE (listEntry E d) entries []) (\<lambda>found. returnE (newestFirst found))))"

definition RemoveSnapshot :: "env \<Rightarrow> string \<Rightarrow> string \<Rightarrow> unit act" where
  "RemoveSnapshot E i s =
     bindE (liftE (SnapshotDir E i s)) (\<lambda>d.
     catchE (statE E d) (\<lambda>r. case r of
       Inl e \<Rightarrow> throwE (if isNotExist e then NewError ErrSnapshotNotFound ''Snapshot not found'' else e)
     | Inr info \<Rightarrow>
         (if info \<noteq> DirNode then throwE (NewError ErrSnapshotInvalid ''Snapshot path is not a directory'')
          else removeAllE E d)))"

definition SnapshotSize :: "env \<Rightarrow> string \<Rightarrow> int act" where
  "SnapshotSize E d =
     catchE (walkE E (DataDir d)) (\<lambda>r. case r of
       Inl e \<Rightarrow> (if isNotExist e then returnE 0 else throwE e)
     | Inr entries \<Rightarrow> returnE (sum_list (map (\<lambda>(p, n). node_size n) entries)))"

end
