(* ===== verification/Snapshots.thy ===== *)
theory Snapshots
  imports SnapshotStore
begin

text \<open>
  \<open>internal/snapshots/copy.go\<close> and \<open>service.go\<close>: capturing an instance, listing, deleting and
  pruning its snapshots.  \<open>snapshots.InstalledMod\<close> is the record of the mods feature without an
  update policy, which the adapter of \<open>app/adapters.go\<close> drops.
\<close>

section \<open>Copying the data of an instance\<close>

abbreviation "instanceMarkerFile \<equiv> ''.waxlight-instance''"

record snapshot_stats =
  st_size :: int
  st_worlds :: int

definition countWorlds :: "env \<Rightarrow> string \<Rightarrow> int act" where
  "countWorlds E d =
     catchE (readEntries E d) (\<lambda>r. returnE (case r of
       Inl _ \<Rightarrow> 0
     | Inr entries \<Rightarrow> int (length (filter (\<lambda>(n, isDir). isDir \<and> \<not> HasPrefix n ''.'') entries))))"

text \<open>\<open>io.LimitReader(file, 8<<20)\<close>.\<close>

fun limitContent :: "content \<Rightarrow> content" where
  "limitContent (Blob b) = Blob (take 8388608 b)"
| "limitContent c = c"

definition sanitizeClientSettingsCopy :: "env \<Rightarrow> snap_ports \<Rightarrow> string \<Rightarrow> string \<Rightarrow> int act" where
  "sanitizeClientSettingsCopy E P source destination =
     bindE (readFileE E source) (\<lambda>c.
     bindE (liftE (sp_sanitize P (limitContent c))) (\<lambda>sanitized.
     bindE (mkdirE E (Dir destination)) (\<lambda>_.
     bindE (writeFileE E destination sanitized) (\<lambda>_.
     returnE (content_size sanitized)))))"

definition copySnapshotFile :: "env \<Rightarrow> string \<Rightarrow> string \<Rightarrow> int act" where
  "copySnapshotFile E source destination =
     bindE (readFileE E source) (\<lambda>c.
     bindE (mkdirE E (Dir destination)) (\<lambda>_.
     bindE (createE E destination) (\<lambda>_.
     bindE (copyIntoE E destination c) (\<lambda>_.
     bindE (closeE E) (\<lambda>_.
     returnE (content_size c))))))"

definition skippedName :: "string \<Rightarrow> bool" where
  "skippedName name \<longleftrightarrow> name = instanceMarkerFile \<or> HasSuffix name ''.waxlight-auth-injection''"

definition isSettingsFile :: "string \<Rightarrow> bool" where
  "isSettingsFile name = EqualFold name ''clientsettings.json''"

text \<open>
  The visit of one path.  The progress callback is \<open>progress\<close> with its own state; the tree has
  no symbolic links, which the code refuses.
\<close>

definition copyVisit ::
  "env \<Rightarrow> snap_ports \<Rightarrow> string \<Rightarrow> string \<Rightarrow> string list \<Rightarrow> (int \<Rightarrow> 'p \<Rightarrow> 'p act) \<Rightarrow>
     string \<times> node \<Rightarrow> int \<times> 'p \<Rightarrow> (int \<times> 'p) act" where
  "copyVisit E P source destination skip progress entry acc =
     (let path = fst entry; target = JoinPath [destination, relativeTo source path]
      in bindE (ctxE E) (\<lambda>_.
        if skippedName (Base path) \<or> path \<in> set skip then returnE acc
        else if snd entry = DirNode then bindE (mkdirE E target) (\<lambda>_. returnE acc)
        else bindE (if isSettingsFile (Base path) then sanitizeClientSettingsCopy E P path target
                    else copySnapshotFile E path target) (\<lambda>n.
             bindE (progress n (snd acc)) (\<lambda>p. returnE (fst acc + n, p)))))"

text \<open>The walk stops at the first error; the state of the callback is what it was then.\<close>

primrec visitAll :: "('x \<Rightarrow> 'a \<Rightarrow> 'a act) \<Rightarrow> 'x list \<Rightarrow> 'a \<Rightarrow> ('a \<times> go_error option) act" where
  "visitAll f [] acc = returnE (acc, None)"
| "visitAll f (x # xs) acc = catchE (f x acc) (\<lambda>r. case r of
     Inl e \<Rightarrow> returnE (acc, Some e)
   | Inr acc' \<Rightarrow> visitAll f xs acc')"

definition copySnapshotData ::
  "env \<Rightarrow> snap_ports \<Rightarrow> string \<Rightarrow> string \<Rightarrow> string list \<Rightarrow> (int \<Rightarrow> 'p \<Rightarrow> 'p act) \<Rightarrow> 'p \<Rightarrow>
     (snapshot_stats \<times> 'p \<times> go_error option) act" where
  "copySnapshotData E P source destination skip progress p0 =
     bindE (countWorlds E (JoinPath [source, ''SaveGame''])) (\<lambda>worlds.
     catchE (walkE E source) (\<lambda>r. case r of
       Inl e \<Rightarrow> returnE (\<lparr>st_size = 0, st_worlds = worlds\<rparr>, p0, Some e)
     | Inr entries \<Rightarrow>
         bindE (visitAll (copyVisit E P source destination skip progress) entries (0, p0)) (\<lambda>(acc, err).
         returnE (\<lparr>st_size = fst acc, st_worlds = worlds\<rparr>, snd acc, err))))"

section \<open>Operations and progress\<close>

abbreviation "EventCreated \<equiv> ''operation:created''"
abbreviation "EventProgress \<equiv> ''operation:progress''"
abbreviation "EventCompleted \<equiv> ''operation:completed''"
abbreviation "EventFailed \<equiv> ''operation:failed''"

definition saveOp :: "env \<Rightarrow> operation \<Rightarrow> string \<Rightarrow> unit act" where
  "saveOp E oper event = (\<lambda>w.
     case Save oper event (ev_fault E (w_ticks w)) (w_operations w) of
       (r, m) \<Rightarrow> (r, w\<lparr>w_operations := m, w_ticks := Suc (w_ticks w)\<rparr>))"

definition SaveBestEffort :: "env \<Rightarrow> operation \<Rightarrow> string \<Rightarrow> unit act" where
  "SaveBestEffort E oper event = ignoreE (saveOp E oper event)"

definition publishOp :: "string \<Rightarrow> operation \<Rightarrow> unit act" where
  "publishOp event oper =
     modifyE (\<lambda>w. w\<lparr>w_operations := (w_operations w)\<lparr>op_events := op_events (w_operations w) @ [(event, oper)]\<rparr>\<rparr>)"

record copy_progress =
  cp_operation :: operation
  cp_copied :: int
  cp_saved :: time

definition startProgress :: "operation \<Rightarrow> copy_progress" where
  "startProgress oper = \<lparr>cp_operation = oper, cp_copied = 0, cp_saved = zeroTime\<rparr>"

abbreviation "snapshotProgressInterval \<equiv> 250000000 :: int"

definition operationScaledProgress :: "env \<Rightarrow> (rat \<Rightarrow> rat) \<Rightarrow> int \<Rightarrow> copy_progress \<Rightarrow> copy_progress act" where
  "operationScaledProgress E scale n c =
     (let copied = cp_copied c + n;
          oper = (cp_operation c)\<lparr>op_current_bytes := copied,
            op_progress := (if op_total_bytes (cp_operation c) > 0
                            then scale (of_int copied / of_int (op_total_bytes (cp_operation c)))
                            else op_progress (cp_operation c))\<rparr>
      in bindE (publishOp EventProgress oper) (\<lambda>_.
         bindE (nowE E) (\<lambda>now.
           if now - cp_saved c < snapshotProgressInterval
           then returnE (c\<lparr>cp_operation := oper, cp_copied := copied\<rparr>)
           else bindE (ignoreE (SaveOperationE E oper)) (\<lambda>_.
                returnE \<lparr>cp_operation = oper, cp_copied = copied, cp_saved = now\<rparr>))))"

definition operationProgress :: "env \<Rightarrow> int \<Rightarrow> copy_progress \<Rightarrow> copy_progress act" where
  "operationProgress E = operationScaledProgress E (\<lambda>fraction. fraction)"

definition finishOperation :: "env \<Rightarrow> operation \<Rightarrow> go_error \<Rightarrow> string \<Rightarrow> unit act" where
  "finishOperation E oper cause code =
     bindE (nowE E) (\<lambda>now.
     SaveBestEffort E (oper\<lparr>op_finished := Some now, op_status := StatusFailed, op_error_code := Some code,
       op_error_message := Some (errorText cause)\<rparr>) EventFailed)"

definition completeOperation :: "operation \<Rightarrow> time \<Rightarrow> int \<Rightarrow> operation" where
  "completeOperation oper now n = oper\<lparr>op_finished := Some now, op_status := StatusCompleted,
     op_progress := 1, op_current_bytes := n\<rparr>"

section \<open>The configuration of an instance\<close>

definition cachedEntry :: "snapshot_mod \<Rightarrow> downloaded_mod \<Rightarrow> snapshot_mod" where
  "cachedEntry m cached =
     m\<lparr>sm_identifier := (if TrimSpace (dm_slug cached) \<noteq> [] then dm_slug cached else sm_identifier m),
       sm_version := (if TrimSpace (dm_version cached) \<noteq> [] then dm_version cached else sm_version m),
       sm_file_name := (if TrimSpace (dm_file_name cached) \<noteq> [] then dm_file_name cached else sm_file_name m),
       sm_sha256 := dm_checksum cached\<rparr>"

definition installedEntry :: "installed_mod \<Rightarrow> string \<Rightarrow> string \<Rightarrow> string \<Rightarrow> snapshot_mod" where
  "installedEntry m source modID versionID =
     \<lparr>sm_source = source, sm_mod_id = modID, sm_release_id = versionID, sm_identifier = im_name m,
      sm_version = im_version m, sm_file_name = im_file_name m, sm_sha256 = [], sm_enabled = im_enabled m\<rparr>"

definition manifestEntry :: "env \<Rightarrow> installed_mod \<Rightarrow> snapshot_mod act" where
  "manifestEntry E m =
     (case ParseModDBSource (im_source m) of
        None \<Rightarrow> returnE (installedEntry m ModSourceUnknown [] [])
      | Some (modID, versionID) \<Rightarrow>
          catchE (GetDownloadedMod E modID versionID) (\<lambda>r. returnE (case r of
            Inl _ \<Rightarrow> installedEntry m ModSourceModDB modID versionID
          | Inr cached \<Rightarrow> cachedEntry (installedEntry m ModSourceModDB modID versionID) cached)))"

text \<open>The stored paths are absolute; \<open>filepath.Abs\<close> of a relative path needs the working directory.\<close>

definition skipPath :: "installed_mod \<Rightarrow> string list" where
  "skipPath m = (if TrimSpace (im_file_path m) \<noteq> [] \<and> IsAbs (im_file_path m) then [Clean (im_file_path m)] else [])"

definition modManifest :: "env \<Rightarrow> installed_mod list \<Rightarrow> (snapshot_mod list \<times> string list) act" where
  "modManifest E mods =
     bindE (foldE (\<lambda>m found. bindE (manifestEntry E m) (\<lambda>x. returnE (found @ [x]))) mods []) (\<lambda>entries.
     returnE (entries, remdups (concat (map skipPath mods))))"

definition ModManifest :: "env \<Rightarrow> installed_mod list \<Rightarrow> snapshot_mod list act" where
  "ModManifest E mods = bindE (modManifest E mods) (\<lambda>r. returnE (fst r))"

definition GameVersionName :: "env \<Rightarrow> string \<Rightarrow> string act" where
  "GameVersionName E v = catchE (GetVersion E v) (\<lambda>r. returnE (case r of
     Inl _ \<Rightarrow> v | Inr version \<Rightarrow> (if TrimSpace (snd version) \<noteq> [] then snd version else v)))"

definition ensureSpace :: "env \<Rightarrow> snap_ports \<Rightarrow> int \<Rightarrow> unit act" where
  "ensureSpace E P required =
     catchE (callE E (\<lambda>w. (sp_available P (w_ticks w), w))) (\<lambda>r. case r of
       Inl e \<Rightarrow> throwE (AppError ErrFilePermission ''Could not check available disk space'' False (Some e))
     | Inr available \<Rightarrow>
         (if available < required then throwE (NewError ErrInsufficientSpace ''Not enough free disk space'')
          else returnE ()))"

section \<open>The last known good marker, as deletion and retention see it\<close>

text \<open>\<open>platform/sqlite/recovery.go\<close>: one row per instance.\<close>

definition GetLastKnownGood :: "env \<Rightarrow> string \<Rightarrow> last_known_good act" where
  "GetLastKnownGood E i = readE E (\<lambda>w.
     case find (\<lambda>m. lkg_instance m = i) (w_last_good w) of None \<Rightarrow> Inl NotFoundError | Some m \<Rightarrow> Inr m)"

definition upsertMarker :: "last_known_good \<Rightarrow> last_known_good list \<Rightarrow> last_known_good list" where
  "upsertMarker m rows = m # filter (\<lambda>r. lkg_instance r \<noteq> lkg_instance m) rows"

definition SaveLastKnownGood :: "env \<Rightarrow> last_known_good \<Rightarrow> unit act" where
  "SaveLastKnownGood E m = callE E (\<lambda>w.
     (if list_ex (\<lambda>r. ir_id r = lkg_instance m) (w_instances w)
      then (Inr (), w\<lparr>w_last_good := upsertMarker m (w_last_good w)\<rparr>)
      else (Inl (OtherError ''FOREIGN KEY constraint failed''), w)))"

definition ClearSnapshotReference :: "env \<Rightarrow> string \<Rightarrow> string \<Rightarrow> unit act" where
  "ClearSnapshotReference E i s = ignoreE (withGate
     (catchE (GetLastKnownGood E i) (\<lambda>r. case r of
        Inl _ \<Rightarrow> returnE ()
      | Inr m \<Rightarrow>
          (if lkg_snapshot m \<noteq> s then returnE ()
           else ignoreE (SaveLastKnownGood E (m\<lparr>lkg_snapshot := []\<rparr>))))))"

definition ProtectedSnapshotID :: "env \<Rightarrow> string \<Rightarrow> string act" where
  "ProtectedSnapshotID E i = catchE (GetLastKnownGood E i) (\<lambda>r. returnE (case r of
     Inl _ \<Rightarrow> [] | Inr m \<Rightarrow> lkg_snapshot m))"

section \<open>Creating a snapshot\<close>

record create_input =
  ci_instance :: string
  ci_type :: string
  ci_reason :: string
  ci_context :: "(string \<times> string) list"

definition subtractSkipped :: "env \<Rightarrow> string list \<Rightarrow> int \<Rightarrow> int act" where
  "subtractSkipped E skip needed = foldE (\<lambda>p n. catchE (statE E p) (\<lambda>r. returnE (case r of
     Inl _ \<Rightarrow> n | Inr info \<Rightarrow> (if info = DirNode then n else n - node_size info)))) skip needed"

definition newOperation :: "string \<Rightarrow> string \<Rightarrow> string \<Rightarrow> string \<Rightarrow> string \<Rightarrow> int \<Rightarrow> time \<Rightarrow> operation" where
  "newOperation i kind resource title titleKey needed now =
     \<lparr>op_id = i, op_type = kind, op_resource = Some resource, op_title = title, op_title_key = titleKey,
      op_title_params = [], op_status = StatusRunning, op_progress = 0, op_current_bytes = 0,
      op_total_bytes = needed, op_bytes_per_second = 0, op_error_code = None, op_error_message = None,
      op_created = now, op_started = Some now, op_finished = None\<rparr>"

definition createOperation :: "create_input \<Rightarrow> string \<Rightarrow> int \<Rightarrow> time \<Rightarrow> operation" where
  "createOperation input i needed now =
     (if ci_type input = TypeAutomatic
      then newOperation i ''snapshot_create'' (ci_instance input) ''Creating safety backup...''
             ''operation_creating_safety_backup'' needed now
      else newOperation i ''snapshot_create'' (ci_instance input) ''Creating snapshot''
             ''operation_creating_snapshot'' needed now)"

text \<open>\<open>slot.TryAcquire\<close>: an instance its caller holds already stays the caller's.\<close>

definition withTrySlot :: "string \<Rightarrow> string \<Rightarrow> 'a act \<Rightarrow> 'a act" where
  "withTrySlot i marker body = (\<lambda>w.
     case TryAcquire (slots (w_registry w)) i marker of
       (hld, s) \<Rightarrow>
         (if hld = []
          then finallyE body (\<lambda>w. w\<lparr>w_registry := releaseSlot (w_registry w) i marker\<rparr>)
                 (w\<lparr>w_registry := (w_registry w)\<lparr>slots := s\<rparr>\<rparr>)
          else body (w\<lparr>w_registry := (w_registry w)\<lparr>slots := s\<rparr>\<rparr>)))"

text \<open>The closure \<open>fail\<close>, with the deferred removal of the staging directory after it.\<close>

definition removeStaging :: "env \<Rightarrow> string \<Rightarrow> unit act" where
  "removeStaging E staging = (if staging \<noteq> [] then ignoreE (removeAllE E staging) else returnE ())"

definition failCreate :: "env \<Rightarrow> create_input \<Rightarrow> operation \<Rightarrow> string \<Rightarrow> go_error \<Rightarrow> string \<Rightarrow> 'a act" where
  "failCreate E input oper staging cause code =
     bindE (removeStaging E staging) (\<lambda>_.
     bindE (finishOperation E oper cause code) (\<lambda>_.
     bindE (removeStaging E staging) (\<lambda>_.
     throwE (AppError code
       (if ci_type input = TypeAutomatic
        then ''Could not create a safety backup. The instance was not modified''
        else ''Could not create snapshot'') False (Some cause)))))"

definition orFail :: "'a act \<Rightarrow> (go_error \<Rightarrow> 'b act) \<Rightarrow> ('a \<Rightarrow> 'b act) \<Rightarrow> 'b act" where
  "orFail m fail ok = catchE m (\<lambda>r. case r of Inl e \<Rightarrow> fail e | Inr x \<Rightarrow> ok x)"

definition snapshotManifest ::
  "create_input \<Rightarrow> instance_ref \<Rightarrow> string \<Rightarrow> time \<Rightarrow> string \<Rightarrow> snapshot_stats \<Rightarrow> nat \<Rightarrow> snapshot_mod list \<Rightarrow> manifest" where
  "snapshotManifest input inst i now gameVersion stats modCount mods =
     \<lparr>mf_format = FormatVersion, mf_id = i, mf_instance = ir_id inst, mf_instance_name = ir_name inst,
      mf_created = now, mf_type = ci_type input, mf_reason = ci_reason input, mf_context = ci_context input,
      mf_game_version = gameVersion, mf_size = st_size stats, mf_mod_count = int modCount,
      mf_world_count = st_worlds stats, mf_mods = mods\<rparr>"

text \<open>From the copy on: the manifest is written and read back before the staging directory is published.\<close>

definition publishSnapshot ::
  "env \<Rightarrow> create_input \<Rightarrow> operation \<Rightarrow> string \<Rightarrow> string \<Rightarrow> manifest \<Rightarrow> operation act" where
  "publishSnapshot E input oper staging final manifest =
     orFail (WriteManifest E staging manifest) (\<lambda>e. failCreate E input oper staging e ErrFilePermission) (\<lambda>_.
     orFail (ReadManifest E staging) (\<lambda>e. failCreate E input oper staging e ErrSnapshotInvalid) (\<lambda>_.
     orFail (renameE E staging final) (\<lambda>e. failCreate E input oper staging e ErrFilePermission) (\<lambda>_.
     bindE (nowE E) (\<lambda>finished.
     bindE (SaveBestEffort E (completeOperation oper finished (mf_size manifest)) EventCompleted) (\<lambda>_.
     returnE (completeOperation oper finished (mf_size manifest)))))))"

definition captureData ::
  "env \<Rightarrow> snap_ports \<Rightarrow> create_input \<Rightarrow> operation \<Rightarrow> instance_ref \<Rightarrow> nat \<Rightarrow> snapshot_mod list \<Rightarrow> string list \<Rightarrow>
     string \<Rightarrow> string \<Rightarrow> operation act" where
  "captureData E P input oper inst modCount mods skip staging final =
     bindE (copySnapshotData E P (ir_directory inst) (DataDir staging) skip (operationProgress E) (startProgress oper))
       (\<lambda>(stats, progress, err).
     case err of
       Some e \<Rightarrow> failCreate E input (cp_operation progress) staging e ErrFilePermission
     | None \<Rightarrow>
         bindE (GameVersionName E (ir_game_version inst)) (\<lambda>gameVersion.
         publishSnapshot E input (cp_operation progress) staging final
           (snapshotManifest input inst (op_id oper) (op_created oper) gameVersion stats modCount mods)))"

definition captureInstance ::
  "env \<Rightarrow> snap_ports \<Rightarrow> create_input \<Rightarrow> operation \<Rightarrow> instance_ref \<Rightarrow> nat \<Rightarrow> snapshot_mod list \<Rightarrow> string list \<Rightarrow>
     operation act" where
  "captureInstance E P input oper inst modCount mods skip =
     orFail (TempDir E (ir_id inst)) (\<lambda>e. failCreate E input oper [] e ErrFilePermission) (\<lambda>staging.
     orFail (liftE (SnapshotDir E (ir_id inst) (op_id oper))) (\<lambda>e. failCreate E input oper staging e ErrValidation)
       (captureData E P input oper inst modCount mods skip staging))"

definition createCore :: "env \<Rightarrow> snap_ports \<Rightarrow> create_input \<Rightarrow> operation act" where
  "createCore E P input =
     bindE (GetInstance E (ci_instance input)) (\<lambda>inst.
     bindE (ListMods E (ci_instance input)) (\<lambda>installed.
     bindE (modManifest E installed) (\<lambda>(mods, skip).
     bindE (catchE (TotalSizeContext E (ir_directory inst)) (\<lambda>r. case r of
         Inl e \<Rightarrow> throwE (AppError ErrFilePermission ''Could not read the instance files'' False (Some e))
       | Inr n \<Rightarrow> returnE n)) (\<lambda>needed.
     bindE (subtractSkipped E skip needed) (\<lambda>estimated.
     bindE (ensureSpace E P estimated) (\<lambda>_.
     bindE (nowE E) (\<lambda>now.
     bindE (newIDE E) (\<lambda>i.
     bindE (ignoreE (saveOp E (createOperation input i estimated now) EventCreated)) (\<lambda>_.
     withTrySlot (ir_id inst) i
       (captureInstance E P input (createOperation input i estimated now) inst (length installed) mods skip))))))))))"

definition guardE :: "string \<Rightarrow> string \<Rightarrow> string \<Rightarrow> unit act" where
  "guardE i marker message = (\<lambda>w. case Guard (w_registry w) i marker message of (r, reg) \<Rightarrow> (r, w\<lparr>w_registry := reg\<rparr>))"

definition withGuard :: "string \<Rightarrow> string \<Rightarrow> string \<Rightarrow> 'a act \<Rightarrow> 'a act" where
  "withGuard i marker message body = bindE (guardE i marker message)
     (\<lambda>_. finallyE body (\<lambda>w. w\<lparr>w_registry := releaseSlot (w_registry w) i marker\<rparr>))"

abbreviation "stopTheGame \<equiv> ''Stop the game before modifying this instance''"

definition createGuarded :: "env \<Rightarrow> snap_ports \<Rightarrow> create_input \<Rightarrow> operation act" where
  "createGuarded E P input =
     withGate (withGuard (ci_instance input) SnapshotReservationMarker stopTheGame (createCore E P input))"

definition createLocked :: "env \<Rightarrow> snap_ports \<Rightarrow> create_input \<Rightarrow> operation act" where
  "createLocked E P input = withGate
     (bindE (getE (\<lambda>w. Running (w_registry w) (ci_instance input))) (\<lambda>running.
        if running then throwE (NewError ErrInstanceRunning stopTheGame) else createCore E P input))"

definition CreateManual :: "env \<Rightarrow> snap_ports \<Rightarrow> string \<Rightarrow> operation act" where
  "CreateManual E P i =
     createGuarded E P \<lparr>ci_instance = i, ci_type = TypeManual, ci_reason = [], ci_context = []\<rparr>"

section \<open>Retention, listing and deletion\<close>

text \<open>\<open>settings/reader.go\<close>: a retention out of range is the default.\<close>

definition safetySettings :: "env \<Rightarrow> safety_settings act" where
  "safetySettings E = readE E (\<lambda>w.
     Inr (if ss_retention (w_settings w) < 1 \<or> ss_retention (w_settings w) > 100
          then (w_settings w)\<lparr>ss_retention := 10\<rparr> else w_settings w))"

definition pruneOne :: "env \<Rightarrow> string \<Rightarrow> string \<Rightarrow> instance_snapshot \<Rightarrow> unit act" where
  "pruneOne E i protected old =
     (if si_id old = protected then returnE () else ignoreE (RemoveSnapshot E i (si_id old)))"

definition enforceRetention :: "env \<Rightarrow> string \<Rightarrow> int \<Rightarrow> unit act" where
  "enforceRetention E i retention =
     orFail (ListSnapshots E i) (\<lambda>_. returnE ()) (\<lambda>found.
       (let automatic = filter (\<lambda>x. si_type x = TypeAutomatic) found
        in if int (length automatic) \<le> retention then returnE ()
           else bindE (ProtectedSnapshotID E i) (\<lambda>protected.
                forE (drop (nat retention) automatic) (pruneOne E i protected))))"

definition CreateSafety ::
  "env \<Rightarrow> snap_ports \<Rightarrow> string \<Rightarrow> string \<Rightarrow> (string \<times> string) list \<Rightarrow> operation option act" where
  "CreateSafety E P i reason context =
     bindE (safetySettings E) (\<lambda>settings.
       if \<not> ss_automatic settings then returnE None
       else bindE (createLocked E P \<lparr>ci_instance = i, ci_type = TypeAutomatic, ci_reason = reason, ci_context = context\<rparr>) (\<lambda>oper.
            bindE (enforceRetention E i (ss_retention settings)) (\<lambda>_. returnE (Some oper))))"

definition ListOfInstance :: "env \<Rightarrow> string \<Rightarrow> instance_snapshot list act" where
  "ListOfInstance E i = bindE (GetInstance E i) (\<lambda>_. ListSnapshots E i)"

definition ReadSnapshotManifest :: "env \<Rightarrow> string \<Rightarrow> string \<Rightarrow> manifest act" where
  "ReadSnapshotManifest E i s =
     bindE (GetInstance E i) (\<lambda>_. bindE (liftE (SnapshotDir E i s)) (ReadManifest E))"

definition IsRestorable :: "env \<Rightarrow> string \<Rightarrow> string \<Rightarrow> bool act" where
  "IsRestorable E i s =
     orFail (bindE (liftE (SnapshotDir E i s)) (ReadManifest E)) (\<lambda>_. returnE False) (\<lambda>m.
       returnE (mf_instance m = i \<and> ValidateMods (mf_mods m) = Inr ()))"

definition DeleteSnapshot :: "env \<Rightarrow> string \<Rightarrow> string \<Rightarrow> unit act" where
  "DeleteSnapshot E i s = withGate
     (bindE (GetInstance E i) (\<lambda>_.
      bindE (getE (\<lambda>w. IsBusy (slots (w_registry w)) i)) (\<lambda>busy.
        if busy then throwE (NewError ErrSnapshotInProgress
                       ''Wait for the running operation on this instance to finish'')
        else bindE (RemoveSnapshot E i s) (\<lambda>_. ClearSnapshotReference E i s))))"

end
