(* ===== verification/SnapshotRestore.thy ===== *)
theory SnapshotRestore
  imports Snapshots
begin

text \<open>
  \<open>internal/snapshots/restore.go\<close>.  The restored copy is staged beside the instance and swapped
  with it at the end.  The mods of a snapshot are fetched by up to four goroutines; here they run
  one after the other, in the order they finish, and none is started after the first failure (a
  cancelled context makes the remaining ones fail at their first call).
\<close>

section \<open>Staging and swapping\<close>

definition clearSettingsE :: "env \<Rightarrow> snap_ports \<Rightarrow> string \<Rightarrow> unit act" where
  "clearSettingsE E P path = catchE (readFileE E path) (\<lambda>r. case r of
     Inl e \<Rightarrow> (if isNotExist e then returnE () else throwE e)
   | Inr c \<Rightarrow> (case sp_clear P c of None \<Rightarrow> returnE () | Some c' \<Rightarrow> atomicWrite E path c'))"

text \<open>
  A failure of the copy is told apart from the other failures (\<open>errRestoreStaging\<close>); of the
  wrapped error only the sentinel reaches the caller, because \<open>errors.Unwrap\<close> of
  \<open>fmt.Errorf("%w: %v", errRestoreStaging, err)\<close> is the sentinel.
\<close>

datatype staged = Staged string | CopyFailed | StagingFailed go_error

definition restoreStagingCause :: go_error where
  "restoreStagingCause = OtherError ''snapshot data could not be restored''"

definition dropStaging :: "env \<Rightarrow> string \<Rightarrow> 'a act \<Rightarrow> 'a act" where
  "dropStaging E staging m = bindE (ignoreE (removeAllE E staging)) (\<lambda>_. m)"

definition markStaging :: "env \<Rightarrow> instance_ref \<Rightarrow> string \<Rightarrow> staged act" where
  "markStaging E inst staging =
     orFail (writeFileE E (JoinPath [staging, instanceMarkerFile]) (Blob (ir_id inst)))
       (\<lambda>e. dropStaging E staging (returnE (StagingFailed e))) (\<lambda>_.
     orFail (HardenLogs E (JoinPath [staging, ''Logs'']))
       (\<lambda>e. dropStaging E staging (returnE (StagingFailed e))) (\<lambda>_.
     returnE (Staged staging)))"

definition prepareRestoreStaging ::
  "env \<Rightarrow> snap_ports \<Rightarrow> instance_ref \<Rightarrow> string \<Rightarrow> (int \<Rightarrow> 'p \<Rightarrow> 'p act) \<Rightarrow> 'p \<Rightarrow> (staged \<times> 'p) act" where
  "prepareRestoreStaging E P inst snapshotDir progress p0 =
     orFail (MkdirTemp E (Dir (ir_directory inst)) ''.waxlight-restore-'')
       (\<lambda>e. returnE (StagingFailed e, p0)) (\<lambda>staging.
     bindE (copySnapshotData E P (DataDir snapshotDir) staging [] progress p0) (\<lambda>(stats, p, err).
     case err of
       Some e \<Rightarrow> dropStaging E staging (returnE (CopyFailed, p))
     | None \<Rightarrow> bindE (markStaging E inst staging) (\<lambda>r. returnE (r, p))))"

definition moveBack :: "env \<Rightarrow> string \<Rightarrow> string \<Rightarrow> go_error \<Rightarrow> unit act" where
  "moveBack E previous directory e = bindE (ignoreE (renameE E previous directory)) (\<lambda>_. throwE e)"

definition swapRestoredInstance :: "env \<Rightarrow> snap_ports \<Rightarrow> instance_ref \<Rightarrow> string \<Rightarrow> unit act" where
  "swapRestoredInstance E P inst staging =
     bindE (newIDE E) (\<lambda>x.
     let previous = JoinPath [Dir (ir_directory inst), ''.waxlight-restore-old-'' @ take 12 x]
     in orFail (renameE E (ir_directory inst) previous) (\<lambda>e. dropStaging E staging (throwE e)) (\<lambda>_.
        orFail (renameE E staging (ir_directory inst)) (moveBack E previous (ir_directory inst)) (\<lambda>_.
        ignoreE (SafeRemoveAll E P previous))))"

section \<open>The mods of a snapshot\<close>

record restored_mod =
  rm_entry :: snapshot_mod
  rm_name :: string
  rm_path :: string

definition snapshotModsDirectoryFor :: "bool \<Rightarrow> string" where
  "snapshotModsDirectoryFor enabled = (if enabled then ''Mods'' else ''ModsDisabled'')"

definition restoreSnapshotMod :: "env \<Rightarrow> string \<Rightarrow> snapshot_mod \<Rightarrow> restored_mod act" where
  "restoreSnapshotMod E staging m =
     bindE (DownloadRelease E (sm_mod_id m) (sm_release_id m)) (\<lambda>d.
       if sm_sha256 m \<noteq> [] \<and> dm_checksum d \<noteq> [] \<and> \<not> EqualFold (sm_sha256 m) (dm_checksum d)
       then throwE (OtherError ''the downloaded release does not match the snapshot checksum'')
       else bindE (ignoreE (ReadModArchiveInfo E (dm_file_path d))) (\<lambda>_.
       let targetDir = JoinPath [staging, snapshotModsDirectoryFor (sm_enabled m)];
           target = JoinPath [targetDir, Base (dm_file_path d)]
       in bindE (mkdirE E targetDir) (\<lambda>_.
          bindE (copySnapshotFile E (dm_file_path d) target) (\<lambda>_.
          returnE \<lparr>rm_entry = m, rm_name = (if TrimSpace (dm_name d) = [] then sm_identifier m else dm_name d),
                   rm_path = target\<rparr>))))"

abbreviation "restoreDownloadPhaseStart \<equiv> 4 / 10 :: rat"

definition restoredProgress :: "operation \<Rightarrow> nat \<Rightarrow> nat \<Rightarrow> operation" where
  "restoredProgress oper n howMany =
     oper\<lparr>op_title := ''Restoring mods '' @ Itoa (int n) @ '' / '' @ Itoa (int howMany),
       op_title_key := ''operation_restoring_mods_progress'',
       op_title_params := [(''done'', Itoa (int n)), (''total'', Itoa (int howMany))],
       op_progress := restoreDownloadPhaseStart + 5 / 10 * of_nat n / of_nat howMany\<rparr>"

primrec restoreMods ::
  "env \<Rightarrow> string \<Rightarrow> nat \<Rightarrow> snapshot_mod list \<Rightarrow> operation \<times> restored_mod list \<Rightarrow>
     (operation \<times> restored_mod list + operation \<times> snapshot_mod \<times> go_error) act" where
  "restoreMods E staging howMany [] acc = returnE (Inl acc)"
| "restoreMods E staging howMany (m # mods) acc =
     orFail (restoreSnapshotMod E staging m) (\<lambda>e. returnE (Inr (fst acc, m, e))) (\<lambda>installed.
       let oper = restoredProgress (fst acc) (Suc (length (snd acc))) howMany
       in bindE (SaveBestEffort E oper EventProgress) (\<lambda>_.
          restoreMods E staging howMany mods (oper, snd acc @ [installed])))"

definition restoreSnapshotMods ::
  "env \<Rightarrow> string \<Rightarrow> snapshot_mod list \<Rightarrow> operation \<Rightarrow>
     (operation \<times> restored_mod list + operation \<times> snapshot_mod \<times> go_error) act" where
  "restoreSnapshotMods E staging mods oper = restoreMods E staging (length mods) mods (oper, [])"

definition modDownloadError :: "snapshot_mod \<Rightarrow> go_error \<Rightarrow> go_error" where
  "modDownloadError m cause =
     WrapError (''could not restore the mod '' @ ModDisplayName m @ '' '' @ sm_version m) cause"

definition modRestoreMessage :: "snapshot_mod \<Rightarrow> go_error \<Rightarrow> string" where
  "modRestoreMessage m cause =
     (if isAppErrorCode cause ErrModVersionNotFound
      then ''Snapshot could not be restored. The following mod release is no longer available: '' @
           ModDisplayName m @ '' '' @ sm_version m
      else ''Snapshot could not be restored. Could not download the mod '' @ ModDisplayName m @ '' '' @
           sm_version m @ '': '' @ (if is_AppError cause then err_message cause else errorText cause))"

definition validateRestoredMods :: "env \<Rightarrow> restored_mod list \<Rightarrow> unit act" where
  "validateRestoredMods E restored = forE restored (\<lambda>m. catchE (statE E (rm_path m)) (\<lambda>r. case r of
     Inl e \<Rightarrow> throwE (WrapError ''restored mod file is missing'' e)
   | Inr _ \<Rightarrow> returnE ()))"

text \<open>The snapshot's record of a mod has no update policy, so the row gets the default one.\<close>

definition restoredRecord :: "instance_ref \<Rightarrow> string \<Rightarrow> string \<Rightarrow> int \<Rightarrow> time \<Rightarrow> restored_mod \<Rightarrow> installed_mod" where
  "restoredRecord inst i path stored now m =
     (let e = rm_entry m; managed = (sm_source e = ModSourceModDB)
      in \<lparr>im_id = i, im_instance = ir_id inst,
          im_name = (if TrimSpace (rm_name m) = [] then sm_identifier e else rm_name m),
          im_version = sm_version e, im_file_name = Base path, im_file_path = path,
          im_enabled = sm_enabled e, im_managed = managed,
          im_source = (if managed then ModDBSource (sm_mod_id e) (sm_release_id e) else ''local''),
          im_policy = [], im_size = stored, im_installed_at = now, im_updated_at = now\<rparr>)"

definition recordRestored :: "env \<Rightarrow> instance_ref \<Rightarrow> string \<Rightarrow> time \<Rightarrow> restored_mod \<Rightarrow> unit act" where
  "recordRestored E inst staging now m =
     (case relInside staging (rm_path m) of
        None \<Rightarrow> throwE (OtherError ''restored mod file escapes the instance directory'')
      | Some relative \<Rightarrow>
          (let path = JoinPath [ir_directory inst, relative]
           in bindE (statE E path) (\<lambda>info.
              bindE (newIDE E) (\<lambda>i.
              SaveMod E (restoredRecord inst i path (node_size info) now m)))))"

definition rebuildInstanceMods :: "env \<Rightarrow> instance_ref \<Rightarrow> string \<Rightarrow> restored_mod list \<Rightarrow> unit act" where
  "rebuildInstanceMods E inst staging restored =
     bindE (ListMods E (ir_id inst)) (\<lambda>existing.
     bindE (forE existing (\<lambda>stale. DeleteModRow E (im_id stale))) (\<lambda>_.
     bindE (nowE E) (\<lambda>now. forE restored (recordRestored E inst staging now))))"

section \<open>Restoring\<close>

definition beginRestore :: "env \<Rightarrow> instance_ref \<Rightarrow> int \<Rightarrow> operation act" where
  "beginRestore E inst stored =
     bindE (nowE E) (\<lambda>now.
     bindE (newIDE E) (\<lambda>i.
     let oper = newOperation i ''snapshot_restore'' (ir_id inst) ''Restoring snapshot''
                  ''operation_restoring_snapshot'' stored now
     in bindE (ignoreE (saveOp E oper EventCreated)) (\<lambda>_. returnE oper)))"

text \<open>\<open>slot.Set\<close> and the release it returns.\<close>

definition withSetSlot :: "string \<Rightarrow> string \<Rightarrow> 'a act \<Rightarrow> 'a act" where
  "withSetSlot i marker body = bindE
     (modifyE (\<lambda>w. w\<lparr>w_registry := (w_registry w)\<lparr>slots := SetMarker (slots (w_registry w)) i marker\<rparr>\<rparr>))
     (\<lambda>_. finallyE body (\<lambda>w. w\<lparr>w_registry := releaseSlot (w_registry w) i marker\<rparr>))"

definition failRestore :: "env \<Rightarrow> operation \<Rightarrow> go_error \<Rightarrow> string \<Rightarrow> 'a act" where
  "failRestore E oper cause code =
     bindE (finishOperation E oper cause code) (\<lambda>_.
     throwE (AppError code ''Could not restore snapshot'' False (Some cause)))"

definition finalizeRestore :: "env \<Rightarrow> snap_ports \<Rightarrow> instance_ref \<Rightarrow> operation \<Rightarrow> int \<Rightarrow> unit act" where
  "finalizeRestore E P inst oper stored =
     bindE (ignoreE (clearSettingsE E P (JoinPath [ir_directory inst, ''clientsettings.json'']))) (\<lambda>_.
     bindE (ignoreE (HardenLogs E (JoinPath [ir_directory inst, ''Logs'']))) (\<lambda>_.
     bindE (nowE E) (\<lambda>finished.
     SaveBestEffort E ((completeOperation oper finished stored)\<lparr>op_title := ''Restoring snapshot'',
       op_title_key := ''operation_restoring_snapshot'', op_title_params := []\<rparr>) EventCompleted)))"

definition snapshotSizeOrInvalid :: "env \<Rightarrow> string \<Rightarrow> int act" where
  "snapshotSizeOrInvalid E snapshotDir = catchE (SnapshotSize E snapshotDir) (\<lambda>r. case r of
     Inl e \<Rightarrow> throwE (AppError ErrSnapshotInvalid ''Snapshot is corrupted or incomplete'' False (Some e))
   | Inr n \<Rightarrow> returnE n)"

definition stageRestore ::
  "env \<Rightarrow> snap_ports \<Rightarrow> instance_ref \<Rightarrow> string \<Rightarrow> (int \<Rightarrow> 'p \<Rightarrow> 'p act) \<Rightarrow> 'p \<Rightarrow> ('p \<Rightarrow> operation) \<Rightarrow>
     (string \<times> 'p) act" where
  "stageRestore E P inst snapshotDir progress p0 operOf =
     bindE (prepareRestoreStaging E P inst snapshotDir progress p0) (\<lambda>(staged, p).
     case staged of
       StagingFailed e \<Rightarrow> failRestore E (operOf p) e ErrFilePermission
     | CopyFailed \<Rightarrow> failRestore E (operOf p) restoreStagingCause ErrSnapshotInvalid
     | Staged staging \<Rightarrow> returnE (staging, p))"

definition restoreV1 :: "env \<Rightarrow> snap_ports \<Rightarrow> instance_ref \<Rightarrow> string \<Rightarrow> unit act" where
  "restoreV1 E P inst snapshotDir =
     bindE (snapshotSizeOrInvalid E snapshotDir) (\<lambda>stored.
     bindE (ensureSpace E P stored) (\<lambda>_.
     bindE (beginRestore E inst stored) (\<lambda>oper.
     withSetSlot (ir_id inst) (op_id oper)
       (bindE (stageRestore E P inst snapshotDir (\<lambda>_ p. returnE p) () (\<lambda>_. oper)) (\<lambda>(staging, _).
        orFail (swapRestoredInstance E P inst staging) (\<lambda>e. failRestore E oper e ErrFilePermission) (\<lambda>_.
        finalizeRestore E P inst oper stored))))))"

definition titled :: "operation \<Rightarrow> string \<Rightarrow> string \<Rightarrow> operation" where
  "titled oper title titleKey = oper\<lparr>op_title := title, op_title_key := titleKey, op_title_params := []\<rparr>"

definition failMods :: "env \<Rightarrow> string \<Rightarrow> operation \<Rightarrow> go_error \<Rightarrow> string \<Rightarrow> 'a act" where
  "failMods E staging oper cause message = dropStaging E staging
     (bindE (finishOperation E oper cause ErrSnapshotInvalid) (\<lambda>_.
      throwE (AppError ErrSnapshotInvalid message False (Some cause))))"

definition stageMods ::
  "env \<Rightarrow> string \<Rightarrow> snapshot_mod list \<Rightarrow> operation \<Rightarrow> (operation \<times> restored_mod list) act" where
  "stageMods E staging mods oper0 =
     (if mods = [] then returnE (oper0, [])
      else let oper = titled oper0 ''Downloading mods...'' ''operation_downloading_mods''
      in bindE (SaveBestEffort E oper EventProgress) (\<lambda>_.
         bindE (restoreSnapshotMods E staging mods oper) (\<lambda>r. case r of
           Inr (oper, m, cause) \<Rightarrow> failMods E staging oper (modDownloadError m cause) (modRestoreMessage m cause)
         | Inl (oper, restored) \<Rightarrow>
             orFail (validateRestoredMods E restored)
               (\<lambda>e. failMods E staging oper e ''Could not restore snapshot'')
               (\<lambda>_. returnE (oper, restored)))))"

definition finishV2 ::
  "env \<Rightarrow> snap_ports \<Rightarrow> instance_ref \<Rightarrow> string \<Rightarrow> operation \<Rightarrow> restored_mod list \<Rightarrow> int \<Rightarrow> unit act" where
  "finishV2 E P inst staging oper0 restored stored =
     (let oper = (titled oper0 ''Finishing restore...'' ''operation_finishing_restore'')\<lparr>op_progress := 95 / 100\<rparr>
      in bindE (SaveBestEffort E oper EventProgress) (\<lambda>_.
         orFail (swapRestoredInstance E P inst staging) (\<lambda>e. failRestore E oper e ErrFilePermission) (\<lambda>_.
         bindE (ignoreE (rebuildInstanceMods E inst staging restored)) (\<lambda>_.
         finalizeRestore E P inst oper stored))))"

definition restoreV2 :: "env \<Rightarrow> snap_ports \<Rightarrow> instance_ref \<Rightarrow> string \<Rightarrow> manifest \<Rightarrow> unit act" where
  "restoreV2 E P inst snapshotDir m =
     bindE (liftE (ValidateMods (mf_mods m))) (\<lambda>_.
     bindE (snapshotSizeOrInvalid E snapshotDir) (\<lambda>stored.
     bindE (ensureSpace E P stored) (\<lambda>_.
     bindE (beginRestore E inst stored) (\<lambda>oper0.
     withSetSlot (ir_id inst) (op_id oper0)
       (let oper = titled oper0 ''Restoring files...'' ''operation_restoring_files''
        in bindE (SaveBestEffort E oper EventProgress) (\<lambda>_.
           bindE (stageRestore E P inst snapshotDir
                    (operationScaledProgress E (\<lambda>fraction. restoreDownloadPhaseStart * fraction))
                    (startProgress oper) cp_operation) (\<lambda>(staging, p).
           bindE (stageMods E staging (mf_mods m) (cp_operation p)) (\<lambda>(oper, restored).
           finishV2 E P inst staging oper restored stored))))))))"

definition readForRestore :: "env \<Rightarrow> instance_ref \<Rightarrow> string \<Rightarrow> manifest act" where
  "readForRestore E inst snapshotDir = catchE (ReadManifest E snapshotDir) (\<lambda>r. case r of
     Inl e \<Rightarrow> throwE (if isNotExist e then NewError ErrSnapshotNotFound ''Snapshot not found''
                      else NewError ErrSnapshotInvalid ''Snapshot is corrupted or incomplete'')
   | Inr m \<Rightarrow>
       (if mf_instance m \<noteq> ir_id inst
        then throwE (NewError ErrSnapshotInvalid ''This snapshot does not belong to the selected instance'')
        else returnE m))"

definition Restore :: "env \<Rightarrow> snap_ports \<Rightarrow> string \<Rightarrow> string \<Rightarrow> unit act" where
  "Restore E P i s = withGate
     (bindE (GetInstance E i) (\<lambda>inst.
      withGuard i SnapshotReservationMarker stopTheGame
        (bindE (liftE (SnapshotDir E i s)) (\<lambda>snapshotDir.
         bindE (readForRestore E inst snapshotDir) (\<lambda>m.
           if mf_format m = FormatVersion1 then restoreV1 E P inst snapshotDir
           else restoreV2 E P inst snapshotDir m)))))"

end
