(* ===== verification/SnapshotFrames.thy ===== *)
theory SnapshotFrames
  imports SnapshotRestore
begin

text \<open>
  What the operations on snapshots leave unchanged.  Besides the relations that ignore a field of
  the state there is \<open>spares S\<close>: the paths of \<open>S\<close> keep their nodes.  \<open>yields\<close> says what an effect
  answers in every state, for effects whose later calls depend on an answer.
\<close>

section \<open>What an effect answers\<close>

definition yields :: "('a \<Rightarrow> bool) \<Rightarrow> ('w, 'e, 'a) eff \<Rightarrow> bool" where
  "yields Q m \<longleftrightarrow> (\<forall>w x w'. m w = (Inr x, w') \<longrightarrow> Q x)"

named_theorems yield_rules \<open>introduction rules for yields, one per effect combinator\<close>

lemma yieldsD: "yields Q m \<Longrightarrow> m w = (Inr x, w') \<Longrightarrow> Q x"
  unfolding yields_def by blast

lemma yields_returnE [yield_rules]: "Q x \<Longrightarrow> yields Q (returnE x)"
  by (simp add: yields_def)

lemma yields_throwE [yield_rules]: "yields Q (throwE e)"
  by (simp add: yields_def)

lemma yields_bindE [yield_rules]: "(\<And>x. yields Q (f x)) \<Longrightarrow> yields Q (bindE m f)"
  by (auto simp: yields_def bindE_def split: prod.splits sum.splits)

lemma yields_bindE_from: "yields P m \<Longrightarrow> (\<And>x. P x \<Longrightarrow> yields Q (f x)) \<Longrightarrow> yields Q (bindE m f)"
  by (auto simp: yields_def bindE_def split: prod.splits sum.splits) blast

lemma yields_catchE [yield_rules]: "(\<And>r. yields Q (f r)) \<Longrightarrow> yields Q (catchE m f)"
  by (auto simp: yields_def catchE_def split: prod.splits)

lemma yields_orFail_from:
  "yields P m \<Longrightarrow> (\<And>e. yields Q (g e)) \<Longrightarrow> (\<And>x. P x \<Longrightarrow> yields Q (f x)) \<Longrightarrow> yields Q (orFail m g f)"
  by (auto simp: yields_def orFail_def catchE_def split: prod.splits sum.splits) blast+

lemma yields_orFail [yield_rules]:
  "(\<And>e. yields Q (g e)) \<Longrightarrow> (\<And>x. yields Q (f x)) \<Longrightarrow> yields Q (orFail m g f)"
  by (rule yields_orFail_from [where P = "\<lambda>_. True"]) (simp_all add: yields_def)

lemma yields_if [yield_rules]: "(b \<Longrightarrow> yields Q m) \<Longrightarrow> (\<not> b \<Longrightarrow> yields Q n) \<Longrightarrow> yields Q (if b then m else n)"
  by simp

lemma yields_case_option [yield_rules]:
  "yields Q f \<Longrightarrow> (\<And>x. yields Q (g x)) \<Longrightarrow> yields Q (case r of None \<Rightarrow> f | Some x \<Rightarrow> g x)"
  by (cases r) auto

lemma yields_case_sum [yield_rules]:
  "(\<And>e. yields Q (f e)) \<Longrightarrow> (\<And>x. yields Q (g x)) \<Longrightarrow> yields Q (case r of Inl e \<Rightarrow> f e | Inr x \<Rightarrow> g x)"
  by (cases r) auto

lemma yields_case_prod [yield_rules]:
  "(\<And>x y. yields Q (f x y)) \<Longrightarrow> yields Q (case p of (x, y) \<Rightarrow> f x y)"
  by (cases p) auto

lemma evolves_bindE_from:
  assumes "preorder_rel R" "evolves R m" "yields P m" "\<And>x. P x \<Longrightarrow> evolves R (f x)"
  shows "evolves R (bindE m f)"
  unfolding evolves_def
proof
  fix w
  obtain r w' where m: "m w = (r, w')" by fastforce
  have step: "R w w'" using assms(2) m by (rule evolvesD)
  show "R w (snd (bindE m f w))"
  proof (cases r)
    case (Inr x)
    with m assms(3) have "P x" by (auto dest: yieldsD)
    then have "R w' (snd (f x w'))" using assms(4) by (simp add: evolves_def)
    with m Inr step assms(1) show ?thesis by (auto simp: bindE_def intro: preorder_trans)
  qed (use m step in \<open>simp add: bindE_def\<close>)
qed

lemma orFail_bindE: "orFail m g f = catchE m (\<lambda>r. case r of Inl e \<Rightarrow> g e | Inr x \<Rightarrow> f x)"
  by (simp add: orFail_def)

lemma evolves_orFail_from:
  assumes "preorder_rel R" "evolves R m" "yields P m" "\<And>e. evolves R (g e)" "\<And>x. P x \<Longrightarrow> evolves R (f x)"
  shows "evolves R (orFail m g f)"
  unfolding evolves_def
proof
  fix w
  obtain r w' where m: "m w = (r, w')" by fastforce
  have step: "R w w'" using assms(2) m by (rule evolvesD)
  show "R w (snd (orFail m g f w))"
  proof (cases r)
    case (Inl e)
    have "R w' (snd (g e w'))" using assms(4) by (simp add: evolves_def)
    with m Inl step assms(1) show ?thesis by (auto simp: orFail_def catchE_def intro: preorder_trans)
  next
    case (Inr x)
    with m assms(3) have "P x" by (auto dest: yieldsD)
    then have "R w' (snd (f x w'))" using assms(5) by (simp add: evolves_def)
    with m Inr step assms(1) show ?thesis by (auto simp: orFail_def catchE_def intro: preorder_trans)
  qed
qed

lemma evolves_orFail [evolve_rules]:
  "preorder_rel R \<Longrightarrow> evolves R m \<Longrightarrow> (\<And>e. evolves R (g e)) \<Longrightarrow> (\<And>x. evolves R (f x)) \<Longrightarrow> evolves R (orFail m g f)"
  by (rule evolves_orFail_from [where P = "\<lambda>_. True"]) (simp_all add: yields_def)

lemma wp_orFail [wp_simps]: "wp (orFail m g f) Q X w \<longleftrightarrow> wp m (\<lambda>x. wp (f x) Q X) (\<lambda>e. wp (g e) Q X) w"
  by (simp add: orFail_def wp_catchE)

lemma evolves_visitAll [evolve_rules]:
  "preorder_rel R \<Longrightarrow> (\<And>x acc. evolves R (f x acc)) \<Longrightarrow> evolves R (visitAll f xs acc)"
  by (induction xs arbitrary: acc) (auto intro!: evolve_rules)

lemma wp_evolves_to: "evolves R m \<Longrightarrow> (\<And>x w'. R w w' \<Longrightarrow> Q x w') \<Longrightarrow> (\<And>e w'. R w w' \<Longrightarrow> X e w') \<Longrightarrow> wp m Q X w"
  by (auto intro!: wpI dest: evolvesD)

section \<open>The ports of the snapshot service\<close>

lemma evolves_snapshot_reads [evolve_rules]:
  assumes "tick_free R"
  shows "evolves R (walkE E d)" "evolves R (readEntries E d)" "evolves R (ReadManifest E d)"
    "evolves R (ListSnapshots E i)" "evolves R (SnapshotSize E d)" "evolves R (TotalSizeContext E d)"
    "evolves R (GetLastKnownGood E i)" "evolves R (ProtectedSnapshotID E i)" "evolves R (safetySettings E)"
    "evolves R (GameVersionName E v)" "evolves R (ensureSpace E P n)" "evolves R (countWorlds E d)"
    "evolves R (snapshotSizeOrInvalid E d)" "evolves R (readForRestore E inst d)"
    "evolves R (validateRestoredMods E ms)" "evolves R (safeRemovalPath E P d mk)"
    "evolves R (ctxE E)"
proof -
  have avail: "R w (snd ((\<lambda>w. (sp_available P (w_ticks w), w)) w))" for w
    using assms by (simp add: preorder_refl)
  note [evolve_rules] = evolves_callE [OF assms avail]
  show "evolves R (walkE E d)" "evolves R (readEntries E d)" "evolves R (ReadManifest E d)"
    "evolves R (ListSnapshots E i)" "evolves R (SnapshotSize E d)" "evolves R (TotalSizeContext E d)"
    "evolves R (GetLastKnownGood E i)" "evolves R (ProtectedSnapshotID E i)" "evolves R (safetySettings E)"
    "evolves R (GameVersionName E v)" "evolves R (ensureSpace E P n)" "evolves R (countWorlds E d)"
    "evolves R (snapshotSizeOrInvalid E d)" "evolves R (readForRestore E inst d)"
    "evolves R (validateRestoredMods E ms)" "evolves R (safeRemovalPath E P d mk)"
    "evolves R (ctxE E)"
    using assms
    unfolding walkE_def readEntries_def ReadManifest_def ListSnapshots_def listEntry_def SnapshotSize_def
      TotalSizeContext_def GetLastKnownGood_def ProtectedSnapshotID_def safetySettings_def GameVersionName_def
      ensureSpace_def countWorlds_def snapshotSizeOrInvalid_def readForRestore_def validateRestoredMods_def
      safeRemovalPath_def ctxE_def
    by (auto intro!: evolve_rules)
qed

lemma evolves_saveOp [evolve_rules]:
  assumes "tick_free R" "ignores_operations R" shows "evolves R (saveOp E oper event)"
  unfolding evolves_def
proof
  fix w
  have "R w (w\<lparr>w_operations := m\<rparr>)" "R (w\<lparr>w_operations := m\<rparr>) (w\<lparr>w_operations := m, w_ticks := n\<rparr>)" for m n
    using assms tick_freeD [OF assms(1), of "w\<lparr>w_operations := m\<rparr>"] by (simp_all add: ignores_operations_def)
  then show "R w (snd (saveOp E oper event w))"
    using preorder_trans [OF tick_free_preorder [OF assms(1)]]
    by (cases "Save oper event (ev_fault E (w_ticks w)) (w_operations w)") (auto simp: saveOp_def, blast)
qed

lemma evolves_operation_ports [evolve_rules]:
  assumes "tick_free R" "ignores_operations R"
  shows "evolves R (SaveBestEffort E oper event)" "evolves R (publishOp event oper)"
    "evolves R (operationScaledProgress E scale n c)" "evolves R (operationProgress E n c)"
    "evolves R (finishOperation E oper cause code)" "evolves R (failRestore E oper cause code)"
    "evolves R (beginRestore E inst n)"
proof -
  have "evolves R (publishOp event oper)" for event oper
    unfolding publishOp_def by (rule evolves_modifyE) (use assms(2) in \<open>simp add: ignores_operations_def\<close>)
  note [evolve_rules] = this
  show "evolves R (SaveBestEffort E oper event)" "evolves R (publishOp event oper)"
    "evolves R (operationScaledProgress E scale n c)" "evolves R (operationProgress E n c)"
    "evolves R (finishOperation E oper cause code)" "evolves R (failRestore E oper cause code)"
    "evolves R (beginRestore E inst n)"
    using assms
    unfolding SaveBestEffort_def operationProgress_def operationScaledProgress_def finishOperation_def
      failRestore_def beginRestore_def Let_def
    by (auto intro!: evolve_rules)
qed

lemma evolves_snapshot_files [evolve_rules]:
  assumes "tick_free R" "ignores_fs R"
  shows "evolves R (removeAllE E d)" "evolves R (writeFileE E d c)" "evolves R (MkdirTemp E d p)"
    "evolves R (HardenLogs E d)" "evolves R (SafeRemoveAll E P d)" "evolves R (TempDir E i)"
    "evolves R (WriteManifest E d m)" "evolves R (RemoveSnapshot E i s)"
    "evolves R (copySnapshotFile E a b)" "evolves R (sanitizeClientSettingsCopy E P a b)"
    "evolves R (clearSettingsE E P d)" "evolves R (removeStaging E d)"
    "evolves R (markStaging E inst st)" "evolves R (swapRestoredInstance E P inst st)"
  using assms
  unfolding removeAllE_def writeFileE_def MkdirTemp_def HardenLogs_def SafeRemoveAll_def removeAllReliably_def
    TempDir_def InstanceDir_def WriteManifest_def RemoveSnapshot_def copySnapshotFile_def
    sanitizeClientSettingsCopy_def clearSettingsE_def removeStaging_def markStaging_def dropStaging_def
    swapRestoredInstance_def moveBack_def Let_def
  by (auto intro!: evolve_rules)

lemma evolves_copySnapshotData [evolve_rules]:
  assumes "tick_free R" "ignores_fs R" "\<And>n p. evolves R (progress n p)"
  shows "evolves R (copySnapshotData E P a b skip progress p0)"
  using assms unfolding copySnapshotData_def copyVisit_def Let_def by (auto intro!: evolve_rules)

lemma evolves_prepareRestoreStaging [evolve_rules]:
  assumes "tick_free R" "ignores_fs R" "\<And>n p. evolves R (progress n p)"
  shows "evolves R (prepareRestoreStaging E P inst d progress p0)"
  using assms unfolding prepareRestoreStaging_def dropStaging_def by (auto intro!: evolve_rules)

lemma evolves_stageRestore [evolve_rules]:
  assumes "tick_free R" "ignores_fs R" "ignores_operations R" "\<And>n p. evolves R (progress n p)"
  shows "evolves R (stageRestore E P inst d progress p0 operOf)"
  unfolding stageRestore_def
  by (intro evolve_rules evolves_bindE)
    (use assms in \<open>auto intro!: evolve_rules split: staged.splits\<close>)

lemma evolves_restoreMods [evolve_rules]:
  assumes "tick_free R" "ignores_fs R" "ignores_operations R" "ignores_output R" "ignores_tasks R"
  shows "evolves R (restoreMods E st n ms acc)"
  using assms
  by (induction ms arbitrary: acc)
    (auto simp: restoreSnapshotMod_def Let_def intro!: evolve_rules)

lemma evolves_stageMods [evolve_rules]:
  assumes "tick_free R" "ignores_fs R" "ignores_operations R" "ignores_output R" "ignores_tasks R"
  shows "evolves R (stageMods E st ms oper)"
  using assms
  unfolding stageMods_def restoreSnapshotMods_def failMods_def dropStaging_def Let_def
  by (auto intro!: evolve_rules)

end
