(* ===== verification/TreeFrames.thy ===== *)
theory TreeFrames
  imports SnapshotFrames
begin

text \<open>
  Which paths a file operation leaves alone.  \<open>apart d p\<close>: the path \<open>p\<close> is neither the directory
  \<open>d\<close> nor below it; an operation on such a path spares the whole subtree of \<open>d\<close>, creating the
  directories above \<open>p\<close> included.  Two incomparable directories are apart with all they contain.
\<close>

section \<open>Paths\<close>

definition subtree :: "string \<Rightarrow> string set" where
  "subtree d = {q. q = d \<or> under d q}"

definition apart :: "string \<Rightarrow> string \<Rightarrow> bool" where
  "apart d p \<longleftrightarrow> p \<noteq> d \<and> \<not> HasPrefix p (below d)"

definition proper :: "string \<Rightarrow> bool" where
  "proper d \<longleftrightarrow> d \<noteq> [] \<and> d \<noteq> ''/''"

definition incomparable :: "string \<Rightarrow> string \<Rightarrow> bool" where
  "incomparable a b \<longleftrightarrow> proper a \<and> proper b \<and> apart a b \<and> apart b a"

lemma below_plain: "proper d \<Longrightarrow> below d = d @ ''/''"
  by (simp add: below_def proper_def)

lemma subtree_iff: "proper d \<Longrightarrow> q \<in> subtree d \<longleftrightarrow> q = d \<or> (\<exists>r. r \<noteq> [] \<and> q = d @ ''/'' @ r)"
  by (auto simp: subtree_def under_def below_plain HasPrefix_iff)

lemma apart_not_subtree: "apart d p \<Longrightarrow> p \<notin> subtree d"
  by (auto simp: apart_def subtree_def under_def)

lemma ancestor_prefix: "a \<in> set (ancestors p) \<Longrightarrow> HasPrefix p (a @ ''/'')"
proof -
  assume "a \<in> set (ancestors p)"
  then obtain i where a: "a = take i p" and i: "i < length p" "p ! i = CHR ''/''"
    by (auto simp: ancestors_def)
  then have "take (Suc i) p = a @ ''/''" by (simp add: take_Suc_conv_app_nth)
  then have "p = (a @ ''/'') @ drop (Suc i) p" by (metis append_take_drop_id)
  then show ?thesis by (metis HasPrefix_append)
qed

lemma HasPrefix_Cons [simp]: "HasPrefix (a @ c # r) (a @ [c])"
  by (simp add: HasPrefix_def)

lemma HasPrefix_trans: "HasPrefix a b \<Longrightarrow> HasPrefix b c \<Longrightarrow> HasPrefix a c"
  by (auto simp: HasPrefix_iff)

lemma ancestor_apart:
  assumes "proper d" "apart d p" "a \<in> set (ancestors p)" shows "a \<notin> subtree d"
proof
  assume "a \<in> subtree d"
  moreover have p: "HasPrefix p (a @ ''/'')" using assms(3) by (rule ancestor_prefix)
  moreover have "HasPrefix p a" using HasPrefix_trans [OF p] by simp
  ultimately have "HasPrefix p (below d)"
    using assms(1) by (auto simp: subtree_def under_def below_plain dest: HasPrefix_trans [of p a])
  with assms(2) show False by (simp add: apart_def)
qed

lemma slash_prefix:
  assumes "a @ ''/'' @ x = b @ ''/'' @ y"
  shows "a = b \<or> HasPrefix a (b @ ''/'') \<or> HasPrefix b (a @ ''/'')"
proof -
  from assms consider us where "a @ us = b" "CHR ''/'' # x = us @ CHR ''/'' # y"
    | us where "a = b @ us" "us @ CHR ''/'' # x = CHR ''/'' # y"
    by (auto simp: append_eq_append_conv2)
  then show ?thesis
  proof cases
    case 1
    then show ?thesis by (cases us) (auto simp: HasPrefix_iff)
  next
    case 2
    then show ?thesis by (cases us) (auto simp: HasPrefix_iff)
  qed
qed

lemma incomparable_apart:
  assumes "incomparable a b" "p = a \<or> HasPrefix p (a @ ''/'')" shows "apart b p"
proof -
  have "p \<noteq> b \<and> \<not> HasPrefix p (b @ ''/'')"
    using assms slash_prefix [of a _ b] by (auto simp: incomparable_def apart_def below_plain HasPrefix_iff)
  then show ?thesis using assms(1) by (simp add: apart_def incomparable_def below_plain)
qed

lemma incomparable_sym: "incomparable a b \<Longrightarrow> incomparable b a"
  by (auto simp: incomparable_def)

lemma incomparable_disjoint: "incomparable a b \<Longrightarrow> p \<in> subtree a \<Longrightarrow> p \<notin> subtree b"
  using incomparable_apart [of a b p] apart_not_subtree [of b p]
  by (auto simp: subtree_iff incomparable_def HasPrefix_iff)

text \<open>Clean absolute paths.\<close>

definition clean_path :: "string \<Rightarrow> bool" where
  "clean_path p \<longleftrightarrow> (\<exists>es. (\<forall>e \<in> set es. plain e) \<and> p = abs_path es)"

lemma JoinPath_clean:
  assumes "IsAbs x" shows "clean_path (JoinPath (x # xs))"
proof -
  let ?es = "filter (\<lambda>e. e \<noteq> []) (x # xs)"
  have x: "x \<noteq> []" using assms by (auto simp: IsAbs_def HasPrefix_def)
  then obtain y ys where es: "?es = x # ys" "JoinPath (x # xs) = Clean (Join (x # ys) ''/'')"
    by (auto simp: JoinPath_def)
  have "IsAbs (Join (x # ys) ''/'')"
    using assms x by (cases ys; cases x) (auto simp: IsAbs_def HasPrefix_def)
  then show ?thesis unfolding es(2) clean_path_def by (metis Clean_IsAbs)
qed

lemma IsAbs_abs_path [simp]: "IsAbs (abs_path es)"
  by (simp add: IsAbs_def HasPrefix_def abs_path_def)

lemma clean_IsAbs: "clean_path p \<Longrightarrow> IsAbs p"
  by (auto simp: clean_path_def)

lemma Dir_prefix: "clean_path p \<Longrightarrow> Dir p = ''/'' \<or> HasPrefix p (Dir p @ ''/'')"
proof -
  assume "clean_path p"
  then obtain es where es: "\<forall>e \<in> set es. plain e" "p = abs_path es" by (auto simp: clean_path_def)
  show ?thesis
  proof (cases es rule: rev_cases)
    case Nil
    then show ?thesis using es
      by (simp add: abs_path_def Dir_def after_last_def Clean_def IsAbs_def HasPrefix_def)
  next
    case (snoc ds e)
    show ?thesis
    proof (cases "ds = []")
      case True
      then have "p = ''/'' @ e" "CHR ''/'' \<notin> set e" using es snoc by (auto simp: abs_path_def plain_def)
      then have "Dir p = Clean ''/''"
        using after_last_append [of "CHR ''/''" e "[]"] by (simp add: Dir_def)
      then show ?thesis by (simp add: Clean_def IsAbs_def HasPrefix_def)
    next
      case False
      then have "Dir p = abs_path ds" using Dir_abs_path es snoc by simp
      moreover have "p = (abs_path ds @ ''/'') @ e"
        using es(2) snoc False by (simp add: abs_path_def Join_append)
      ultimately show ?thesis by (metis HasPrefix_append)
    qed
  qed
qed

lemma apart_Dir: "clean_path p \<Longrightarrow> proper d \<Longrightarrow> apart d p \<Longrightarrow> apart d (Dir p)"
  using Dir_prefix [of p]
  by (cases d) (auto simp: apart_def below_plain HasPrefix_iff proper_def)

section \<open>What the operations spare\<close>

definition spares :: "string set \<Rightarrow> mods_world \<Rightarrow> mods_world \<Rightarrow> bool" where
  "spares S w w' \<longleftrightarrow> (\<forall>q \<in> S. fs_node (w_fs w') q = fs_node (w_fs w) q)"

lemma tick_free_spares [simp]: "tick_free (spares S)"
  by (auto simp: tick_free_def preorder_rel_def reflp_def transp_def spares_def)

lemma spares_ignores [simp]:
  "ignores_rows (spares S)" "ignores_output (spares S)" "ignores_operations (spares S)"
  "ignores_tasks (spares S)" "ignores_snapshots (spares S)"
  by (simp_all add: ignores_defs spares_def)

lemma fs_node_Cons: "fs_node ((p, n) # t) q = (if q = p then Some n else fs_node t q)"
  by (simp add: fs_node_def)

lemma evolves_fsE_spares:
  assumes "\<And>t q. q \<in> S \<Longrightarrow> fs_node (snd (f t)) q = fs_node t q" shows "evolves (spares S) (fsE E f)"
  unfolding fsE_def by (rule evolves_callE) (use assms in \<open>auto simp: spares_def split: prod.splits\<close>, metis snd_conv)

lemma evolves_fsNowE_spares:
  assumes "\<And>now t q. q \<in> S \<Longrightarrow> fs_node (snd (f now t)) q = fs_node t q" shows "evolves (spares S) (fsNowE E f)"
  unfolding fsNowE_def by (rule evolves_callE) (use assms in \<open>auto simp: spares_def split: prod.splits\<close>, metis snd_conv)

lemma osRename_other:
  assumes "osRename a b t = (r, t')" "q \<noteq> a" "q \<noteq> b" "\<not> under a q" "\<not> under b q"
  shows "fs_node t' q = fs_node t q"
proof -
  have "map_of (map (\<lambda>(p, n). (move_path a b p, n)) u) q = map_of u q" if "\<And>p. p \<in> fst ` set u \<Longrightarrow> p \<noteq> b" for u :: fs
    using that
  proof (induction u)
    case (Cons x u)
    obtain p n where x: "x = (p, n)" by fastforce
    have "move_path a b p = q \<longleftrightarrow> p = q"
    proof (cases "p = a \<or> under a p")
      case True
      then have "move_path a b p = b \<or> under b (move_path a b p)"
        by (auto simp: move_path_def under_def HasPrefix_iff)
      then show ?thesis using True assms by auto
    qed (auto simp: move_path_def)
    then show ?case using Cons by (auto simp: x)
  qed simp
  moreover have "map_of (AList.delete b t) q = map_of t q" using assms(3) by (simp add: delete_conv)
  moreover have "p \<noteq> b" if "p \<in> fst ` set (AList.delete b t)" for p
    using that by (auto simp: AList.delete_eq)
  ultimately show ?thesis
    using assms by (auto simp: osRename_def fs_node_def split: option.splits node.splits if_splits simp: delete_conv update_conv)
qed

text \<open>The directory that moves, with all it contains.\<close>

lemma osRename_dir:
  assumes "osRename a b t = (Inr u, t')" "is_dir t a" "a \<noteq> b" "proper a" "proper b"
  shows "fs_node t' q = (if q = b then Some DirNode
     else if under b q then fs_node t (a @ ''/'' @ drop (length (below b)) q)
     else if q \<in> subtree a then None else fs_node t q)"
proof -
  have t': "t' = map (\<lambda>(p, n). (move_path a b p, n)) (AList.delete b t)"
    and ab: "\<not> under a b" and nob: "\<And>p n. (p, n) \<in> set t \<Longrightarrow> \<not> under b p"
    using assms by (auto simp: osRename_def is_dir_def list_ex_iff split: if_splits)
  have "a \<in> fst ` set t" using assms(2) by (metis fs_node_def is_dir_def map_of_SomeD fst_conv image_eqI)
  then have ba: "\<not> under b a" using nob by force
  have keys: "p \<noteq> b \<and> \<not> under b p" if "p \<in> fst ` set (AList.delete b t)" for p
    using that nob by (auto simp: AList.delete_eq)
  define origin where "origin = (if q = b then Some a else if under b q then Some (a @ ''/'' @ drop (length (below b)) q)
     else if q \<in> subtree a then None else Some q)"
  have move: "move_path a b p = q \<longleftrightarrow> origin = Some p" if "p \<noteq> b" "\<not> under b p" for p
  proof (cases "p \<in> subtree a")
    case True
    with assms(4) consider "p = a" | r where "r \<noteq> []" "p = a @ ''/'' @ r" by (auto simp: subtree_iff)
    then show ?thesis
    proof cases
      case 1
      then show ?thesis using assms(3,4,5) ab ba by (auto simp: origin_def move_path_def under_def below_plain subtree_def)
    next
      case 2
      then have u: "under a p" "p \<noteq> a" using assms(4) by (auto simp: under_def below_plain)
      have "move_path a b p = b @ ''/'' @ r" using u 2 assms(4,5) by (simp add: move_path_def below_plain)
      moreover have "b @ ''/'' @ r = q \<longleftrightarrow> origin = Some (a @ ''/'' @ r)"
      proof (cases "under b q")
        case True
        then show ?thesis using assms(5) by (auto simp: origin_def under_def below_plain HasPrefix_iff)
      next
        case False
        moreover have "a @ ''/'' @ r \<in> subtree a" using 2 assms(4) by (auto simp: subtree_iff)
        ultimately show ?thesis using 2 assms(5) by (auto simp: origin_def under_def below_plain)
      qed
      ultimately show ?thesis using 2 by simp
    qed
  next
    case False
    then have "move_path a b p = p" by (auto simp: move_path_def subtree_def)
    moreover have "a \<in> subtree a" by (simp add: subtree_def)
    moreover have "a @ ''/'' @ drop (length (below b)) q \<in> subtree a" if "under b q"
      using that assms(4) by (auto simp: subtree_iff under_def)
    ultimately show ?thesis using False that by (auto simp: origin_def)
  qed
  have look: "map_of (map (\<lambda>(p, n). (move_path a b p, n)) u) q =
      (case origin of None \<Rightarrow> None | Some p \<Rightarrow> map_of u p)"
    if "\<And>p. p \<in> fst ` set u \<Longrightarrow> p \<noteq> b \<and> \<not> under b p" for u :: fs
    using that
  proof (induction u)
    case (Cons x u)
    obtain p n where x: "x = (p, n)" by fastforce
    then have "move_path a b p = q \<longleftrightarrow> origin = Some p" using Cons.prems [of p] by (intro move) auto
    then show ?case using Cons x by (auto split: option.splits)
  qed (simp split: option.splits)
  have "fs_node t' q = (case origin of None \<Rightarrow> None | Some p \<Rightarrow> map_of (AList.delete b t) p)"
    unfolding t' fs_node_def by (rule look) (use keys in auto)
  moreover have "map_of (AList.delete b t) p = fs_node t p" if "p \<noteq> b" for p
    using that by (simp add: delete_conv fs_node_def)
  moreover have "a @ ''/'' @ drop (length (below b)) q \<noteq> b" if "under b q"
  proof
    assume eq: "a @ ''/'' @ drop (length (below b)) q = b"
    have "drop (length (below b)) q \<noteq> []" using that by (simp add: under_def)
    then have "under a (a @ ''/'' @ drop (length (below b)) q)"
      using assms(4) by (simp add: under_def below_plain)
    with eq ab show False by simp
  qed
  ultimately show ?thesis using assms(2,3) by (simp add: origin_def is_dir_def)
qed

text \<open>
  The rules for \<open>spares\<close>: the combinators and the ports that write no file come from
  \<open>evolve_rules\<close>, the ports that write one follow, for a path apart from the directory.
\<close>

named_theorems spare_rules \<open>introduction rules for evolves (spares S)\<close>

declare evolves_returnE [spare_rules] evolves_throwE [spare_rules] evolves_getE [spare_rules]
  evolves_catchE [spare_rules] evolves_bindE [spare_rules] evolves_if [spare_rules]
  evolves_case_sum [spare_rules] evolves_case_option [spare_rules] evolves_case_prod [spare_rules]
  evolves_case_list [spare_rules] evolves_Let [spare_rules] evolves_forE [spare_rules]
  evolves_foldE [spare_rules] evolves_orFail [spare_rules] evolves_visitAll [spare_rules]
  evolves_ignoreE [spare_rules] evolves_readE [spare_rules] evolves_statE [spare_rules]
  evolves_nowE [spare_rules] evolves_newIDE [spare_rules] evolves_publishE [spare_rules]
  evolves_reportEvent [spare_rules] evolves_reportError [spare_rules] evolves_liftE [spare_rules]
  evolves_stat_ports [spare_rules] evolves_snapshot_reads [spare_rules] evolves_saveOp [spare_rules]
  evolves_operation_ports [spare_rules] evolves_GetInstance [spare_rules] evolves_SaveMod [spare_rules]
  evolves_DeleteModRow [spare_rules] evolves_CatalogGet [spare_rules] evolves_storeGet [spare_rules]
  evolves_readMetadata [spare_rules] evolves_storeFilePath [spare_rules] evolves_ReadModArchiveInfo [spare_rules]
  evolves_requestAttempt [spare_rules] evolves_withTask [spare_rules] evolves_claimRelease [spare_rules]

lemma spare_reads [spare_rules]:
  "evolves (spares S) (readFileE E p)" "evolves (spares S) (closeE E)"
  by (simp_all add: readFileE_def closeE_def evolves_readE)

lemma mkdirE_spares [spare_rules]:
  assumes "proper d" "apart d p" shows "evolves (spares (subtree d)) (mkdirE E p)"
  unfolding mkdirE_def
proof (rule evolves_fsE_spares)
  fix t q assume q: "q \<in> subtree d"
  have "q \<notin> set (ancestors p @ [p])"
    using q ancestor_apart [OF assms] apart_not_subtree [OF assms(2)] by auto
  then show "fs_node (snd (osMkdirAll p t)) q = fs_node t q"
    by (auto simp: osMkdirAll_def fs_node_add_dirs simp del: fold_append)
qed

lemma path_ports_spare [spare_rules]:
  assumes "apart d p"
  shows "evolves (spares (subtree d)) (createE E p)" "evolves (spares (subtree d)) (copyIntoE E p c)"
    "evolves (spares (subtree d)) (removeE E p)" "evolves (spares (subtree d)) (appendE E p piece)"
    "evolves (spares (subtree d)) (fsNowE E (openAppend p))" "evolves (spares (subtree d)) (fsE E (osMkdir p))"
  using apart_not_subtree [OF assms]
  unfolding createE_def copyIntoE_def removeE_def appendE_def
  by (auto intro!: evolves_fsE_spares evolves_fsNowE_spares
      simp: osCreate_def writeContent_def osRemove_def appendTo_def openAppend_def osMkdir_def fs_node_Cons
      split: sum.splits option.splits node.splits)

lemma tree_ports_spare [spare_rules]:
  assumes "incomparable a d" shows "evolves (spares (subtree d)) (removeAllE E a)"
    and "incomparable b d \<Longrightarrow> evolves (spares (subtree d)) (renameE E a b)"
proof -
  show "evolves (spares (subtree d)) (removeAllE E a)"
    unfolding removeAllE_def
    by (rule evolves_fsE_spares)
      (use incomparable_disjoint [OF assms] in \<open>auto simp: osRemoveAll_node subtree_def\<close>)
  assume b: "incomparable b d"
  show "evolves (spares (subtree d)) (renameE E a b)"
    unfolding renameE_def
  proof (rule evolves_fsE_spares)
    fix t q assume q: "q \<in> subtree d"
    have "q \<notin> subtree a" "q \<notin> subtree b"
      using q incomparable_disjoint [OF assms] incomparable_disjoint [OF b] by auto
    then show "fs_node (snd (osRename a b t)) q = fs_node t q"
      by (auto simp: subtree_def intro!: osRename_other [of a b t "fst (osRename a b t)"])
  qed
qed

lemma written_files_spare [spare_rules]:
  assumes "proper d" "clean_path p" "apart d p"
  shows "evolves (spares (subtree d)) (atomicWrite E p c)" "evolves (spares (subtree d)) (writeFileE E p c)"
    "evolves (spares (subtree d)) (copySnapshotFile E a p)"
    "evolves (spares (subtree d)) (sanitizeClientSettingsCopy E P a p)"
  using assms apart_Dir [OF assms(2,1,3)]
  unfolding atomicWrite_def writeFileE_def copySnapshotFile_def sanitizeClientSettingsCopy_def
  by (auto intro!: spare_rules)

lemma HardenLogs_spares [spare_rules]:
  assumes "apart d p" shows "evolves (spares (subtree d)) (HardenLogs E p)"
proof -
  have "evolves (spares (subtree d)) (fsE E (\<lambda>t. if fs_node t p \<noteq> None then (Inr (), t) else osMkdir p t))"
    by (rule evolves_fsE_spares)
      (use apart_not_subtree [OF assms] in \<open>auto simp: osMkdir_def fs_node_Cons\<close>)
  then show ?thesis unfolding HardenLogs_def by (auto intro!: spare_rules)
qed

section \<open>Downloading into the library\<close>

lemma Download_spares [spare_rules]:
  assumes "proper d" "clean_path (dr_destination req)" "incomparable (dr_destination req) d"
    and "incomparable (dr_destination req @ ''.partial'') d" "\<And>a b. evolves (spares (subtree d)) (progress a b)"
  shows "evolves (spares (subtree d)) (Download E req progress)"
proof -
  have apart: "apart d (dr_destination req)" "apart d (dr_destination req @ ''.partial'')"
    using assms(3,4) by (simp_all add: incomparable_def)
  have body: "evolves (spares (subtree d)) (copyBody E (dr_destination req @ ''.partial'') m n progress err pieces k)"
    for m n err pieces k
    by (induction pieces arbitrary: k) (auto intro!: spare_rules assms apart simp: emitUpdate_def)
  show ?thesis
    unfolding Download_def resumeOffset_def doDownloadRequest_def receiveBody_def verifyChecksum_def
      checksumFile_def Let_def
    using assms apart apart_Dir [OF assms(2,1) apart(1)]
    by (auto intro!: spare_rules body)
qed

text \<open>What lies below the root of the library.\<close>

lemma storeRoot_below:
  assumes "root_path (ev_data_root E) es" "plain m" "plain v" "plain f"
  shows "HasPrefix (abs_path (es @ [''cache'', ''mods'', m, v, f])) (storeRoot E @ ''/'')"
proof -
  have "root_path (storeRoot E) (es @ [''cache'', ''mods''])"
    unfolding storeRoot_def by (rule cacheRoot_root [OF assms(1)])
  then have "storeRoot E = abs_path (es @ [''cache'', ''mods''])" by (simp add: root_path_def)
  moreover have "abs_path ((es @ [''cache'', ''mods'']) @ [m, v, f]) =
      abs_path (es @ [''cache'', ''mods'']) @ ''/'' @ Join [m, v, f] ''/''"
    using Join_append [of "es @ [''cache'', ''mods'']" "[m, v, f]" "''/''"] by (simp add: abs_path_def)
  ultimately show ?thesis by simp
qed

lemma incomparable_below:
  assumes "incomparable a d" "HasPrefix p (a @ ''/'')" shows "incomparable p d"
proof -
  have "proper p" using assms by (cases a) (auto simp: incomparable_def proper_def HasPrefix_iff)
  moreover have "apart d p" using assms by (auto intro: incomparable_apart)
  moreover have "apart p d"
    using assms \<open>proper p\<close> HasPrefix_trans [of d "p @ ''/''" p] HasPrefix_trans [of d p "a @ ''/''"]
    by (auto simp: apart_def incomparable_def below_plain)
  ultimately show ?thesis using assms(1) by (simp add: incomparable_def)
qed

definition release_path :: "env \<Rightarrow> string \<Rightarrow> bool" where
  "release_path E p \<longleftrightarrow> clean_path p \<and> HasPrefix p (storeRoot E @ ''/'')"

lemma release_path_spares:
  assumes "incomparable (storeRoot E) d" "release_path E p"
  shows "clean_path p" "incomparable p d" "incomparable (p @ ''.partial'') d" "apart d p" "apart d (p @ ''.partial'')"
proof -
  show "clean_path p" using assms(2) by (simp add: release_path_def)
  show i: "incomparable p d" using assms incomparable_below by (simp add: release_path_def)
  have "HasPrefix (p @ ''.partial'') (storeRoot E @ ''/'')"
    by (rule HasPrefix_trans [of _ p]) (use assms(2) in \<open>simp_all add: release_path_def\<close>)
  with assms(1) show j: "incomparable (p @ ''.partial'') d" by (rule incomparable_below)
  show "apart d p" "apart d (p @ ''.partial'')" using i j by (simp_all add: incomparable_def)
qed

lemma store_release_path:
  assumes "root_path (ev_data_root E) es"
  shows "metadataPath (storeRoot E) m v = Inr p \<Longrightarrow> release_path E p"
    and "FilePath (storeRoot E) m v f = Inr q \<Longrightarrow> release_path E q"
proof -
  have root: "root_path (storeRoot E) (es @ [''cache'', ''mods''])"
    unfolding storeRoot_def by (rule cacheRoot_root [OF assms])
  have plains: "\<forall>e \<in> set es. plain e" "plain ''cache''" "plain ''mods''" "plain metadataFile"
    using assms by (auto simp: root_path_def plain_def)
  have path: "release_path E (abs_path ((es @ [''cache'', ''mods'']) @ [m, v, f]))" if "plain m" "plain v" "plain f" for m v f
  proof -
    have "\<forall>e \<in> set (es @ [''cache'', ''mods'', m, v, f]). plain e" using that plains by auto
    then have "clean_path (abs_path (es @ [''cache'', ''mods'', m, v, f]))" unfolding clean_path_def by blast
    with storeRoot_below [OF assms that] show ?thesis by (simp add: release_path_def)
  qed
  show "release_path E p" if "metadataPath (storeRoot E) m v = Inr p"
    using metadataPath_Inr [OF root that] plains(4) by (metis path)
  have confined: "plain (TrimSpace m) \<and> plain (TrimSpace v)" if "FilePath (storeRoot E) m v f = Inr q"
    using that metadataPath_Inr [OF root] by (auto simp: FilePath_def split: sum.splits)
  show "release_path E q" if "FilePath (storeRoot E) m v f = Inr q"
    using FilePath_Inr [OF root that] confined [OF that] by (metis path)
qed

lemma storeSave_spares [spare_rules]:
  assumes "root_path (ev_data_root E) es" "incomparable (storeRoot E) d"
  shows "evolves (spares (subtree d)) (storeSave E v)"
proof -
  have d: "proper d" using assms(2) by (simp add: incomparable_def)
  show ?thesis
    unfolding storeSave_def liftE_def
  proof (cases "metadataPath (storeRoot E) (dm_mod_id v) (dm_version_id v)")
    case (Inr p)
    from release_path_spares [OF assms(2) store_release_path(1) [OF assms(1) this]]
    show "evolves (spares (subtree d)) (bindE (case metadataPath (storeRoot E) (dm_mod_id v) (dm_version_id v) of
        Inl e \<Rightarrow> throwE e | Inr x \<Rightarrow> returnE x) (\<lambda>path. atomicWrite E path (encodeMetadata
          (v\<lparr>dm_file_path := storedPath (storeRoot E) (dm_file_path v)\<rparr>))))"
      using Inr d by (auto intro!: spare_rules)
  qed (auto intro!: spare_rules)
qed

lemma storeFilePath_yields:
  assumes "root_path (ev_data_root E) es" shows "yields (release_path E) (storeFilePath E m v f)"
  using store_release_path(2) [OF assms]
  by (auto simp: yields_def storeFilePath_def liftE_def split: sum.splits)

lemma DownloadRelease_spares [spare_rules]:
  assumes "root_path (ev_data_root E) es" "incomparable (storeRoot E) d"
  shows "evolves (spares (subtree d)) (DownloadRelease E m v)"
proof -
  have d: "proper d" using assms(2) by (simp add: incomparable_def)
  have stored: "evolves (spares (subtree d)) (storeRelease E t details sel p)" if "release_path E p"
    for t p sel and details :: "'a mod_details_scheme"
    unfolding storeRelease_def fetchRelease_def reportModDownloadError_def EmitProgress_def releaseDownload_def
    using release_path_spares [OF assms(2) that] d
    by (auto intro!: spare_rules assms)
  have cached: "evolves (spares (subtree d)) (cachedRelease E m v)" for m v
    unfolding cachedRelease_def by (auto intro!: spare_rules)
  have "evolves (spares (subtree d)) (downloadCatalogVersion E t details sel)"
    for t sel and details :: "'a mod_details_scheme"
    unfolding downloadCatalogVersion_def
    by (auto intro!: spare_rules evolves_bindE_from [OF _ _ storeFilePath_yields [OF assms(1)]] cached stored)
  then show ?thesis
    unfolding DownloadRelease_def by (auto intro!: spare_rules cached)
qed

end
