(* ===== verification/SnapshotFacts.thy ===== *)
theory SnapshotFacts
  imports TreeFrames
begin

text \<open>
  What restoring and creating a snapshot guarantee, for every combination of failing calls.  The
  instance lives in \<open>abs_path (ps @ [nm])\<close>, restore works in siblings of it.
\<close>

section \<open>Paths of a restore\<close>

lemma abs_path_snoc: "ps \<noteq> [] \<Longrightarrow> abs_path (ps @ es) = (if es = [] then abs_path ps else abs_path ps @ ''/'' @ Join es ''/'')"
  by (auto simp: abs_path_def Join_append)

lemma clean_elems_append: "\<forall>e \<in> set ds. plain e \<Longrightarrow> clean_elems b out (ds @ es) = clean_elems b (rev ds @ out) es"
  by (induction ds arbitrary: out) (auto simp: plain_def)

lemma JoinPath_elems:
  assumes "\<forall>e \<in> set ds. plain e" "ds \<noteq> []" "b \<noteq> []"
  shows "JoinPath [abs_path ds, b] = abs_path (clean_elems True (rev ds) (Split b (CHR ''/'')))"
proof -
  have "Split (Join ds ''/'' @ CHR ''/'' # b) (CHR ''/'') = ds @ Split b (CHR ''/'')"
    using assms(1,2) by (induction ds rule: induct_list012) (auto simp: plain_def Split_append)
  then have "Split (abs_path ds @ CHR ''/'' # b) (CHR ''/'') = [] # ds @ Split b (CHR ''/'')"
    by (simp add: abs_path_def)
  moreover have "IsAbs (abs_path ds @ CHR ''/'' # b)" by (simp add: IsAbs_def HasPrefix_def abs_path_def)
  ultimately have "Clean (abs_path ds @ CHR ''/'' # b) = abs_path (clean_elems True (rev ds) (Split b (CHR ''/'')))"
    using clean_elems_append [OF assms(1), of True "[]" "Split b (CHR ''/'')"]
    by (simp add: Clean_def abs_path_def)
  moreover have "abs_path ds \<noteq> []" by (simp add: abs_path_def)
  ultimately show ?thesis using assms(3) by (simp add: JoinPath_def)
qed

lemma JoinPath_plain:
  assumes "\<forall>e \<in> set ds. plain e" "ds \<noteq> []" "list_all plain (Split b (CHR ''/''))"
  shows "JoinPath [abs_path ds, b] = abs_path (ds @ Split b (CHR ''/''))"
proof -
  have "b \<noteq> []" using assms(3) by (auto simp: plain_def)
  then show ?thesis
    using JoinPath_elems [OF assms(1,2)] clean_elems_plain [of "Split b (CHR ''/'')" True "rev ds"] assms(3)
    by (simp add: list_all_iff)
qed

lemma plain_Split: "plain e \<Longrightarrow> Split e (CHR ''/'') = [e]"
  by (simp add: plain_def Split_id)

lemma below_clean_dir:
  assumes "\<forall>e \<in> set ds. plain e" "ds \<noteq> []" "es \<noteq> []"
  shows "HasPrefix (abs_path (ds @ es)) (abs_path ds @ ''/'')"
  using assms by (simp add: abs_path_snoc)

lemma proper_abs_path: "\<forall>e \<in> set ds. plain e \<Longrightarrow> ds \<noteq> [] \<Longrightarrow> proper (abs_path ds)"
  by (cases ds; cases "tl ds") (auto simp: proper_def abs_path_def plain_def Join_Cons)

text \<open>Two siblings.\<close>

lemma siblings_incomparable:
  assumes "\<forall>e \<in> set ps. plain e" "ps \<noteq> []" "plain a" "plain b" "a \<noteq> b"
  shows "incomparable (abs_path (ps @ [a])) (abs_path (ps @ [b]))"
proof -
  have one: "apart (abs_path (ps @ [a])) (abs_path (ps @ [b]))" if "plain a" "plain b" "a \<noteq> b" for a b
  proof -
    have "proper (abs_path (ps @ [a]))" using assms that by (intro proper_abs_path) auto
    moreover have "CHR ''/'' \<notin> set b" using that by (simp add: plain_def)
    ultimately show ?thesis
      using assms(2) that(3) by (auto simp: apart_def below_plain abs_path_snoc HasPrefix_iff)
  qed
  moreover have "proper (abs_path (ps @ [a]))" "proper (abs_path (ps @ [b]))"
    using assms by (auto intro!: proper_abs_path)
  ultimately show ?thesis using assms by (simp add: incomparable_def)
qed

text \<open>Identifiers: no separators, and never starting like the name of the directory set aside.\<close>

definition good_ids :: "env \<Rightarrow> bool" where
  "good_ids E \<longleftrightarrow> (\<forall>n. CHR ''/'' \<notin> set (ev_new_id E n) \<and> \<not> HasPrefix (ev_new_id E n) ''old-'')"

definition restore_place :: "env \<Rightarrow> string list \<Rightarrow> string \<Rightarrow> bool" where
  "restore_place E ps nm \<longleftrightarrow> ps \<noteq> [] \<and> (\<forall>e \<in> set ps. plain e) \<and> plain nm \<and> \<not> HasPrefix nm ''.waxlight-restore-'' \<and>
     (\<exists>es. root_path (ev_data_root E) es) \<and> incomparable (storeRoot E) (abs_path (ps @ [nm]))"

definition staging_name :: "env \<Rightarrow> string \<Rightarrow> bool" where
  "staging_name E s \<longleftrightarrow> (\<exists>n. s = ''.waxlight-restore-'' @ ev_new_id E n)"

definition staging_path :: "env \<Rightarrow> string list \<Rightarrow> string \<Rightarrow> bool" where
  "staging_path E ps p \<longleftrightarrow> (\<exists>n. p = abs_path (ps @ [''.waxlight-restore-'' @ ev_new_id E n]))"

lemma prefixed_plain: "CHR ''/'' \<notin> set x \<Longrightarrow> plain (''.waxlight-restore-'' @ x)"
  by (simp add: plain_def)

lemma staging_path_facts:
  assumes "good_ids E" "restore_place E ps nm" "staging_path E ps p"
  obtains s where "p = abs_path (ps @ [s])" "plain s" "s \<noteq> nm" "incomparable p (abs_path (ps @ [nm]))"
    "clean_path p" "\<not> HasPrefix s ''.waxlight-restore-old-''"
proof -
  from assms(3) obtain n where p: "p = abs_path (ps @ [''.waxlight-restore-'' @ ev_new_id E n])"
    by (auto simp: staging_path_def)
  let ?s = "''.waxlight-restore-'' @ ev_new_id E n"
  have s: "plain ?s" using assms(1) by (intro prefixed_plain) (simp add: good_ids_def)
  have "HasPrefix ?s ''.waxlight-restore-''" by (rule HasPrefix_append)
  then have ne: "?s \<noteq> nm" using assms(2) by (auto simp: restore_place_def)
  show ?thesis
  proof (rule that [of ?s])
    show "incomparable p (abs_path (ps @ [nm]))"
      unfolding p using assms(2) s ne by (intro siblings_incomparable) (auto simp: restore_place_def)
    show "clean_path p" unfolding p clean_path_def using assms(2) s by (auto simp: restore_place_def intro!: exI [of _ "ps @ [?s]"])
    have "\<not> HasPrefix (ev_new_id E n) ''old-''" using assms(1) by (simp add: good_ids_def)
    then show "\<not> HasPrefix ?s ''.waxlight-restore-old-''" by (simp add: HasPrefix_def)
  qed (use p s ne in auto)
qed

section \<open>What happens before the swap\<close>

abbreviation (input) "here ps nm \<equiv> abs_path (ps @ [nm])"

lemma walk_nodes_below:
  "(p, n) \<in> set (walk_nodes d t) \<Longrightarrow> under d p \<and> list_all plain (Split (relativeTo d p) (CHR ''/''))"
  by (auto simp: walk_nodes_def)

lemma walkE_yields: "yields (\<lambda>es. \<forall>(p, n) \<in> set es. under d p \<and> list_all plain (Split (relativeTo d p) (CHR ''/''))) (walkE E d)"
  by (auto simp: yields_def walkE_def readE_def callE_def osWalk_def dest!: walk_nodes_below
      split: option.splits node.splits)

lemma evolves_catchE_from:
  fixes m :: "'a act"
  assumes "preorder_rel R" "evolves R m" "yields P m" "\<And>e. evolves R (f (Inl e))" "\<And>x. P x \<Longrightarrow> evolves R (f (Inr x))"
  shows "evolves R (catchE m f)"
proof -
  have "catchE m f = orFail m (\<lambda>e. f (Inl e)) (\<lambda>x. f (Inr x))"
    by (auto simp: orFail_def catchE_def fun_eq_iff split: prod.splits sum.splits)
  then show ?thesis using assms by (simp add: evolves_orFail_from)
qed

lemma evolves_visitAll_set:
  assumes "preorder_rel R" "\<And>x acc. x \<in> set xs \<Longrightarrow> evolves R (f x acc)" shows "evolves R (visitAll f xs acc)"
  using assms(2)
proof (induction xs arbitrary: acc)
  case (Cons x xs)
  then show ?case using assms(1) by (auto intro!: evolves_catchE evolves_returnE split: sum.split)
qed (simp add: assms(1) evolves_returnE)

lemma copySnapshotData_spares:
  assumes "\<forall>e \<in> set ds. plain e" "ds \<noteq> []" "incomparable (abs_path ds) d" "\<And>n p. evolves (spares (subtree d)) (progress n p)"
  shows "evolves (spares (subtree d)) (copySnapshotData E P src (abs_path ds) skip progress p0)"
proof -
  have d: "proper d" using assms(3) by (simp add: incomparable_def)
  have visit: "evolves (spares (subtree d)) (copyVisit E P src (abs_path ds) skip progress (p, n) acc)"
    if "list_all plain (Split (relativeTo src p) (CHR ''/''))" for p n acc
  proof -
    let ?target = "JoinPath [abs_path ds, relativeTo src p]"
    have t: "?target = abs_path (ds @ Split (relativeTo src p) (CHR ''/''))"
      by (rule JoinPath_plain [OF assms(1,2) that])
    then have "HasPrefix ?target (abs_path ds @ ''/'')"
      using assms(1,2) by (simp add: below_clean_dir)
    then have "incomparable ?target d" using assms(3) by (rule incomparable_below [rotated])
    then have "apart d ?target" by (simp add: incomparable_def)
    moreover have "clean_path ?target"
      unfolding t clean_path_def using assms(1) that by (intro exI conjI) (auto simp: list_all_iff)
    ultimately show ?thesis
      unfolding copyVisit_def Let_def using d assms(4) by (auto intro!: spare_rules)
  qed
  show ?thesis
    unfolding copySnapshotData_def
    by (rule evolves_bindE [OF _ _ evolves_catchE_from [OF _ _ walkE_yields]])
      (auto intro!: spare_rules visit evolves_visitAll_set)
qed

lemma MkdirTemp_spares:
  assumes "\<And>n. apart d (JoinPath [dir, prefix @ ev_new_id E n])"
  shows "evolves (spares (subtree d)) (MkdirTemp E dir prefix)"
proof -
  have "yields (\<lambda>x. \<exists>n. x = ev_new_id E n) (newIDE E)" by (auto simp: yields_def newIDE_def)
  then show ?thesis
    unfolding MkdirTemp_def
    by (rule evolves_bindE_from [rotated 2]) (auto intro!: spare_rules assms)
qed

lemma MkdirTemp_yields: "yields (\<lambda>p. \<exists>n. p = JoinPath [dir, prefix @ ev_new_id E n]) (MkdirTemp E dir prefix)"
proof -
  have "yields (\<lambda>x. \<exists>n. x = ev_new_id E n) (newIDE E)" by (auto simp: yields_def newIDE_def)
  then show ?thesis
    unfolding MkdirTemp_def
    by (rule yields_bindE_from) (auto intro!: yield_rules)
qed

definition restore_site :: "env \<Rightarrow> string list \<Rightarrow> string \<Rightarrow> bool" where
  "restore_site E ps nm \<longleftrightarrow> good_ids E \<and> restore_place E ps nm"

lemma site_plain:
  assumes "restore_site E ps nm" shows "\<forall>e \<in> set ps. plain e" "ps \<noteq> []" "plain nm"
  using assms by (auto simp: restore_site_def restore_place_def)

lemma site_proper: "restore_site E ps nm \<Longrightarrow> proper (here ps nm)"
  using site_plain [of E ps nm] by (intro proper_abs_path) auto

lemma site_Dir: "restore_site E ps nm \<Longrightarrow> Dir (here ps nm) = abs_path ps"
  using site_plain [of E ps nm] by (simp add: Dir_abs_path)

lemma site_cache:
  assumes "restore_site E ps nm" obtains es where "root_path (ev_data_root E) es" "incomparable (storeRoot E) (here ps nm)"
  using assms by (auto simp: restore_site_def restore_place_def)

lemma site_join:
  assumes "restore_site E ps nm"
  shows "JoinPath [abs_path ps, ''.waxlight-restore-'' @ ev_new_id E n] = abs_path (ps @ [''.waxlight-restore-'' @ ev_new_id E n])"
proof -
  have "plain (''.waxlight-restore-'' @ ev_new_id E n)"
    using assms by (intro prefixed_plain) (simp add: good_ids_def restore_site_def)
  then show ?thesis
    using JoinPath_plain [OF site_plain(1,2) [OF assms], of "''.waxlight-restore-'' @ ev_new_id E n"]
    by (simp only: plain_Split) simp
qed

lemma site_staging:
  assumes "restore_site E ps nm" "staging_path E ps p"
  obtains s where "p = abs_path (ps @ [s])" "plain s" "s \<noteq> nm" "incomparable p (here ps nm)"
    "clean_path p" "\<not> HasPrefix s ''.waxlight-restore-old-''"
  using assms staging_path_facts by (metis restore_site_def)

lemma site_tempdir_yields:
  assumes "restore_site E ps nm"
  shows "yields (staging_path E ps) (MkdirTemp E (Dir (here ps nm)) ''.waxlight-restore-'')"
  using MkdirTemp_yields [of "abs_path ps" "''.waxlight-restore-''" E] site_join [OF assms]
  by (auto simp: yields_def staging_path_def site_Dir [OF assms])

lemma site_tempdir_spares [spare_rules]:
  assumes "restore_site E ps nm"
  shows "evolves (spares (subtree (here ps nm))) (MkdirTemp E (Dir (here ps nm)) ''.waxlight-restore-'')"
proof -
  have "apart (here ps nm) (JoinPath [abs_path ps, ''.waxlight-restore-'' @ ev_new_id E n])" for n
    unfolding site_join [OF assms]
    by (rule site_staging [OF assms, of "abs_path (ps @ [''.waxlight-restore-'' @ ev_new_id E n])"])
      (auto simp: staging_path_def incomparable_def)
  then show ?thesis unfolding site_Dir [OF assms] by (rule MkdirTemp_spares)
qed

lemma prepare_spares [spare_rules]:
  assumes site: "restore_site E ps nm" and dir: "ir_directory inst = here ps nm"
    and prog: "\<And>n p. evolves (spares (subtree (here ps nm))) (progress n p)"
  shows "evolves (spares (subtree (here ps nm))) (prepareRestoreStaging E P inst src progress p0)"
proof -
  have staged: "evolves (spares (subtree (here ps nm)))
      (bindE (copySnapshotData E P (DataDir src) st [] progress p0) (\<lambda>(stats, p, err). case err of
         Some e \<Rightarrow> dropStaging E st (returnE (CopyFailed, p))
       | None \<Rightarrow> bindE (markStaging E inst st) (\<lambda>r. returnE (r, p))))"
    if "staging_path E ps st" for st
  proof -
    from site that obtain s where st: "st = abs_path (ps @ [s])" "plain s" "incomparable st (here ps nm)" "clean_path st"
      by (rule site_staging)
    have plains: "\<forall>e \<in> set (ps @ [s]). plain e" using st(2) site_plain [OF site] by auto
    have inside: "JoinPath [st, e] = abs_path ((ps @ [s]) @ [e])" "apart (here ps nm) (abs_path ((ps @ [s]) @ [e]))"
      "clean_path (abs_path ((ps @ [s]) @ [e]))" if "plain e" for e
    proof -
      show "JoinPath [st, e] = abs_path ((ps @ [s]) @ [e])"
        using JoinPath_plain [OF plains, of e] that st(1) by (simp add: plain_Split)
      have "HasPrefix (abs_path ((ps @ [s]) @ [e])) (st @ ''/'')" using below_clean_dir [OF plains, of "[e]"] st(1) by simp
      then have "incomparable (abs_path ((ps @ [s]) @ [e])) (here ps nm)" by (rule incomparable_below [OF st(3)])
      then show "apart (here ps nm) (abs_path ((ps @ [s]) @ [e]))" by (simp add: incomparable_def)
      show "clean_path (abs_path ((ps @ [s]) @ [e]))" unfolding clean_path_def using plains that by (intro exI conjI) auto
    qed
    have names: "plain instanceMarkerFile" "plain ''Logs''" by (simp_all add: plain_def)
    note copy = copySnapshotData_spares [OF plains _ _ prog, folded st(1)]
    show ?thesis
      using st(3) site_proper [OF site] inside [OF names(1)] inside [OF names(2)]
      unfolding markStaging_def dropStaging_def
      by (auto intro!: spare_rules copy)
  qed
  show ?thesis
    unfolding prepareRestoreStaging_def dir
    by (rule evolves_orFail_from [OF _ _ site_tempdir_yields [OF site]])
      (auto intro!: spare_rules staged site)
qed

end
