(* ===== verification/RestoreFacts.thy ===== *)
theory RestoreFacts
  imports SnapshotFacts
begin

text \<open>
  A failed restore.  Everything before the swap spares the instance's directory and the table of
  mods; the swap itself either leaves the old directory in place or leaves it, complete, beside it;
  and nothing after the swap can fail.
\<close>

section \<open>The mods are put into the staging directory\<close>

lemma Base_cases: "Base x = ''/'' \<or> (Base x \<noteq> [] \<and> CHR ''/'' \<notin> set (Base x))"
proof -
  have no: "CHR ''/'' \<notin> set (after_last (CHR ''/'') s)" for s
    unfolding after_last_def by (auto dest: set_takeWhileD)
  have ne: "after_last (CHR ''/'') (strip_slashes s) \<noteq> []" if "strip_slashes s \<noteq> []" for s
    using that hd_dropWhile [of "\<lambda>x. x = CHR ''/''" "rev s"]
    by (cases "dropWhile (\<lambda>x. x = CHR ''/'') (rev s)") (auto simp: after_last_def strip_slashes_def)
  show ?thesis using no ne by (auto simp: Base_def)
qed

lemma staged_target:
  assumes "\<forall>e \<in> set ds. plain e" "ds \<noteq> []" "plain k"
  shows "\<exists>es. (\<forall>e \<in> set es. plain e) \<and> JoinPath [abs_path (ds @ [k]), Base x] = abs_path (ds @ es)"
proof -
  let ?b = "Base x"
  have ne: "?b \<noteq> []" using Base_cases [of x] by auto
  have "\<forall>e \<in> set (ds @ [k]). plain e" using assms by auto
  from JoinPath_elems [OF this _ ne]
  have join: "JoinPath [abs_path (ds @ [k]), ?b] = abs_path (clean_elems True (k # rev ds) (Split ?b (CHR ''/'')))"
    by simp
  show ?thesis
  proof (cases "CHR ''/'' \<in> set ?b")
    case True
    then have b: "?b = ''/''" using Base_cases [of x] by blast
    have "clean_elems True (k # rev ds) (Split ?b (CHR ''/'')) = ds @ [k]" unfolding b by simp
    then show ?thesis using join assms(3) by (intro exI [of _ "[k]"]) simp
  next
    case False
    then have split: "Split ?b (CHR ''/'') = [?b]" by (rule Split_id)
    consider "?b = ''.''" | "?b = ''..''" | "plain ?b" using False ne by (auto simp: plain_def)
    then show ?thesis
    proof cases
      case 1
      then show ?thesis using join split assms(3) by (intro exI [of _ "[k]"]) simp
    next
      case 2
      then show ?thesis using join split assms(3) by (intro exI [of _ "[]"]) (simp add: plain_def)
    next
      case 3
      then show ?thesis using join split assms(3) by (intro exI [of _ "[k, ?b]"]) (simp add: plain_def)
    qed
  qed
qed

lemma staged_below:
  assumes "\<forall>e \<in> set (ds @ es). plain e" "ds \<noteq> []" "incomparable (abs_path ds) d"
  shows "clean_path (abs_path (ds @ es))" "apart d (abs_path (ds @ es))"
proof -
  show "clean_path (abs_path (ds @ es))" unfolding clean_path_def using assms(1) by blast
  have "incomparable (abs_path (ds @ es)) d"
    using below_clean_dir [of ds es] incomparable_below [OF assms(3)] assms by (cases "es = []") auto
  then show "apart d (abs_path (ds @ es))" by (simp add: incomparable_def)
qed

lemma stageMods_spares:
  assumes site: "restore_site E ps nm" and st: "staging_path E ps staging"
  shows "evolves (spares (subtree (here ps nm))) (stageMods E staging ms oper)"
proof -
  from site obtain es where root: "root_path (ev_data_root E) es" "incomparable (storeRoot E) (here ps nm)"
    by (rule site_cache)
  from site st obtain s where s: "staging = abs_path (ps @ [s])" "plain s" "incomparable staging (here ps nm)"
    by (rule site_staging)
  have ds: "\<forall>e \<in> set (ps @ [s]). plain e" using s(2) site_plain [OF site] by auto
  have d: "proper (here ps nm)" by (rule site_proper [OF site])
  have one: "evolves (spares (subtree (here ps nm))) (restoreSnapshotMod E staging m)" for m
  proof -
    let ?k = "snapshotModsDirectoryFor (sm_enabled m)"
    have k: "plain ?k" by (simp add: snapshotModsDirectoryFor_def plain_def)
    have dir: "JoinPath [staging, ?k] = abs_path ((ps @ [s]) @ [?k])"
      unfolding s(1) using JoinPath_plain [OF ds, of ?k] k by (simp add: plain_Split)
    have apart: "apart (here ps nm) (JoinPath [staging, ?k])"
      unfolding dir by (rule staged_below(2) [OF _ _ s(3) [unfolded s(1)]]) (use ds k in auto)
    have target: "clean_path (JoinPath [JoinPath [staging, ?k], Base x])"
      "apart (here ps nm) (JoinPath [JoinPath [staging, ?k], Base x])" for x
    proof -
      obtain es where es: "\<forall>e \<in> set es. plain e"
          and eq: "JoinPath [JoinPath [staging, ?k], Base x] = abs_path ((ps @ [s]) @ es)"
        using staged_target [OF ds _ k, of x] unfolding dir by blast
      have plains: "\<forall>e \<in> set ((ps @ [s]) @ es). plain e" using ds es by auto
      show "clean_path (JoinPath [JoinPath [staging, ?k], Base x])"
        "apart (here ps nm) (JoinPath [JoinPath [staging, ?k], Base x])"
        unfolding eq by (rule staged_below [OF plains _ s(3) [unfolded s(1)]]; simp)+
    qed
    show ?thesis
      unfolding restoreSnapshotMod_def Let_def
      by (auto intro!: spare_rules DownloadRelease_spares [OF root] apart target d)
  qed
  have mods: "evolves (spares (subtree (here ps nm))) (restoreMods E staging n ms acc)" for n ms acc
    by (induction ms arbitrary: acc) (auto simp: Let_def intro!: spare_rules one)
  show ?thesis
    unfolding stageMods_def failMods_def dropStaging_def restoreSnapshotMods_def Let_def
    by (auto intro!: spare_rules mods s(3))
qed

section \<open>The swap\<close>

text \<open>The directory \<open>d\<close> of the state \<open>w\<close>, with all it contains, is at \<open>p\<close> in \<open>w'\<close>.\<close>

definition relocated :: "string \<Rightarrow> mods_world \<Rightarrow> string \<Rightarrow> mods_world \<Rightarrow> bool" where
  "relocated d w p w' \<longleftrightarrow> fs_node (w_fs w') p = fs_node (w_fs w) d \<and>
     (\<forall>r. r \<noteq> [] \<longrightarrow> fs_node (w_fs w') (p @ ''/'' @ r) = fs_node (w_fs w) (d @ ''/'' @ r))"

definition set_aside :: "string list \<Rightarrow> string \<Rightarrow> string" where
  "set_aside ps x = abs_path (ps @ [''.waxlight-restore-old-'' @ x])"

definition kept_whole :: "string list \<Rightarrow> string \<Rightarrow> mods_world \<Rightarrow> mods_world \<Rightarrow> bool" where
  "kept_whole ps nm w w' \<longleftrightarrow> w_rows w' = w_rows w \<and>
     (spares (subtree (here ps nm)) w w' \<or> (\<exists>x. relocated (here ps nm) w (set_aside ps x) w'))"

abbreviation "same_files \<equiv> keeping (\<lambda>w. (w_fs w, w_rows w))"

definition before_swap :: "string list \<Rightarrow> string \<Rightarrow> mods_world \<Rightarrow> mods_world \<Rightarrow> bool" where
  "before_swap ps nm w w' \<longleftrightarrow> spares (subtree (here ps nm)) w w' \<and> w_rows w' = w_rows w"

lemma evolves_before_swap:
  "evolves (spares (subtree (here ps nm))) m \<Longrightarrow> evolves (keeping w_rows) m \<Longrightarrow> evolves (before_swap ps nm) m"
  by (simp add: evolves_def before_swap_def keeping_def)

lemma evolves_same_files: "evolves (keeping w_fs) m \<Longrightarrow> evolves (keeping w_rows) m \<Longrightarrow> evolves same_files m"
  by (simp add: evolves_def keeping_def)

lemma kept_whole_same: "same_files w1 w2 \<Longrightarrow> kept_whole ps nm w w1 \<Longrightarrow> kept_whole ps nm w w2"
  by (auto simp: kept_whole_def keeping_def spares_def relocated_def)

lemma kept_whole_after:
  assumes "spares (subtree (here ps nm)) w w1" "w_rows w1 = w_rows w" "proper (here ps nm)" "kept_whole ps nm w1 w2"
  shows "kept_whole ps nm w w2"
proof -
  have node: "fs_node (w_fs w1) q = fs_node (w_fs w) q" if "q \<in> subtree (here ps nm)" for q
    using that assms(1) by (simp add: spares_def)
  have "relocated (here ps nm) w p w2" if "relocated (here ps nm) w1 p w2" for p
    using that node by (auto simp: relocated_def subtree_iff [OF assms(3)])
  then show ?thesis using assms by (auto simp: kept_whole_def spares_def)
qed

lemma wp_renameE:
  assumes "\<And>e w'. same_files w w' \<Longrightarrow> X e w'"
    and "\<And>t w'. osRename a b (w_fs w) = (Inr (), t) \<Longrightarrow> w_fs w' = t \<Longrightarrow> w_rows w' = w_rows w \<Longrightarrow> Q () w'"
  shows "wp (renameE E a b) Q X w"
  using assms
  by (auto simp: wp_def renameE_def fsE_def callE_def keeping_def dest: osRename_Inl
      split: option.splits sum.splits prod.splits)

lemma wp_newIDE_same: "(\<And>n w'. same_files w w' \<Longrightarrow> Q (ev_new_id E n) w') \<Longrightarrow> wp (newIDE E) Q X w"
  by (simp add: wp_def newIDE_def keeping_def)

lemma wp_ignoreE: "wp (ignoreE m) Q X w \<longleftrightarrow> wp m (\<lambda>_. Q ()) (\<lambda>_. Q ()) w"
  by (simp add: ignoreE_def wp_simps)

lemma move_there_and_back:
  assumes "osRename a b t = (Inr u, t1)" "osRename b a t1 = (Inr v, t2)" "is_dir t a" "a \<noteq> b" "proper a" "proper b"
    and "q \<in> subtree a"
  shows "fs_node t2 q = fs_node t q"
proof -
  note first = osRename_dir [OF assms(1,3,4,5,6)]
  have "is_dir t1 b" by (simp add: is_dir_def first)
  note second = osRename_dir [OF assms(2) this assms(4) [symmetric] assms(6,5)]
  from assms(5,7) consider "q = a" | r where "r \<noteq> []" "q = a @ ''/'' @ r" by (auto simp: subtree_iff)
  then show ?thesis
  proof cases
    case 1
    then show ?thesis using assms(3) by (simp add: second is_dir_def)
  next
    case 2
    then have "under a q" "drop (length (below a)) q = r" "q \<noteq> a" using assms(5) by (auto simp: under_def below_plain)
    moreover have "under b (b @ ''/'' @ r)" "drop (length (below b)) (b @ ''/'' @ r) = r" "b @ ''/'' @ r \<noteq> b"
      using 2 assms(6) by (auto simp: under_def below_plain)
    ultimately show ?thesis using 2 by (simp add: second first)
  qed
qed

lemma moved_relocated:
  assumes "osRename d p (w_fs w) = (Inr u, w_fs w')" "is_dir (w_fs w) d" "d \<noteq> p" "proper d" "proper p"
  shows "relocated d w p w'"
proof -
  note moved = osRename_dir [OF assms]
  have "fs_node (w_fs w') (p @ ''/'' @ r) = fs_node (w_fs w) (d @ ''/'' @ r)" if "r \<noteq> []" for r
    using that assms(5) by (simp add: moved under_def below_plain)
  then show ?thesis using assms(2) by (simp add: relocated_def moved is_dir_def)
qed

lemma take_plain: "CHR ''/'' \<notin> set x \<Longrightarrow> plain (''.waxlight-restore-old-'' @ take n x)"
  by (auto simp: plain_def dest: in_set_takeD)

lemma wp_swap:
  assumes site: "restore_site E ps nm" and inst: "ir_directory inst = here ps nm"
    and st: "staging_path E ps staging" and dir: "is_dir (w_fs w) (here ps nm)"
  shows "wp (swapRestoredInstance E P inst staging) (\<lambda>_ _. True) (\<lambda>_. kept_whole ps nm w) w"
proof -
  let ?d = "here ps nm"
  have d: "proper ?d" by (rule site_proper [OF site])
  from site st obtain s where s: "incomparable staging ?d" by (rule site_staging)
  have aside: "JoinPath [abs_path ps, ''.waxlight-restore-old-'' @ take 12 (ev_new_id E n)] = set_aside ps (take 12 (ev_new_id E n))"
    "proper (set_aside ps (take 12 (ev_new_id E n)))" "?d \<noteq> set_aside ps (take 12 (ev_new_id E n))" for n
  proof -
    have p: "plain (''.waxlight-restore-old-'' @ take 12 (ev_new_id E n))"
      using site by (intro take_plain) (simp add: restore_site_def good_ids_def)
    show "JoinPath [abs_path ps, ''.waxlight-restore-old-'' @ take 12 (ev_new_id E n)] = set_aside ps (take 12 (ev_new_id E n))"
      using p JoinPath_plain [OF site_plain(1,2) [OF site], of "''.waxlight-restore-old-'' @ take 12 (ev_new_id E n)"]
      unfolding set_aside_def by (simp only: plain_Split) simp
    show "proper (set_aside ps (take 12 (ev_new_id E n)))"
      unfolding set_aside_def using p site_plain [OF site] by (intro proper_abs_path) auto
    have "nm \<noteq> ''.waxlight-restore-old-'' @ take 12 (ev_new_id E n)"
      using site by (auto simp: restore_site_def restore_place_def HasPrefix_def)
    then have "incomparable ?d (set_aside ps (take 12 (ev_new_id E n)))"
      unfolding set_aside_def using site_plain [OF site] p by (intro siblings_incomparable) auto
    then show "?d \<noteq> set_aside ps (take 12 (ev_new_id E n))" by (auto simp: incomparable_def apart_def)
  qed
  have refl: "kept_whole ps nm w w'" if "same_files w w'" for w'
    using that by (auto simp: kept_whole_def keeping_def spares_def)
  have undo: "wp (moveBack E p ?d e) (\<lambda>_ _. True) (\<lambda>_. kept_whole ps nm w) w2"
    if "osRename ?d p (w_fs w) = (Inr (), w_fs w2)" "w_rows w2 = w_rows w" "p = set_aside ps x" "proper p" "?d \<noteq> p"
    for p x e w2
  proof -
    note there = that
    have "kept_whole ps nm w w2"
      using there(2,3) moved_relocated [OF there(1) dir there(5) d there(4)] by (auto simp: kept_whole_def)
    moreover have "kept_whole ps nm w w'"
      if t: "osRename p ?d (w_fs w2) = (Inr (), w_fs w')" "w_rows w' = w_rows w2" for w'
      using move_there_and_back [OF there(1) t(1) dir there(5) d there(4)] there(2) t(2)
      by (simp add: kept_whole_def spares_def)
    ultimately show ?thesis
      unfolding moveBack_def wp_simps wp_ignoreE by (intro wp_renameE) (auto intro: kept_whole_same)
  qed
  have drop: "wp (dropStaging E staging (throwE e :: unit act)) (\<lambda>_ _. True) (\<lambda>_. kept_whole ps nm w) w2"
    if "same_files w w2" for e w2
  proof -
    have "evolves (before_swap ps nm) (dropStaging E staging (throwE e :: unit act))"
      unfolding dropStaging_def by (rule evolves_before_swap) (auto intro!: spare_rules s, auto intro!: evolve_rules)
    then show ?thesis
      by (rule wp_evolves_to) (use that in \<open>auto simp: kept_whole_def keeping_def spares_def before_swap_def\<close>)
  qed
  show ?thesis
    unfolding swapRestoredInstance_def Let_def wp_simps inst site_Dir [OF site]
  proof (rule wp_newIDE_same)
    fix n w1 assume same: "same_files w w1"
    let ?p = "set_aside ps (take 12 (ev_new_id E n))"
    have w1: "w_fs w1 = w_fs w" "w_rows w1 = w_rows w" using same by (simp_all add: keeping_def)
    show "wp (renameE E ?d (JoinPath [abs_path ps, ''.waxlight-restore-old-'' @ take 12 (ev_new_id E n)]))
       (\<lambda>x. wp (renameE E staging ?d) (\<lambda>x. wp (ignoreE (SafeRemoveAll E P
          (JoinPath [abs_path ps, ''.waxlight-restore-old-'' @ take 12 (ev_new_id E n)]))) (\<lambda>_ _. True) (\<lambda>_. kept_whole ps nm w))
         (\<lambda>e. wp (moveBack E (JoinPath [abs_path ps, ''.waxlight-restore-old-'' @ take 12 (ev_new_id E n)]) ?d e)
            (\<lambda>_ _. True) (\<lambda>_. kept_whole ps nm w)))
       (\<lambda>e. wp (dropStaging E staging (throwE e :: unit act)) (\<lambda>_ _. True) (\<lambda>_. kept_whole ps nm w)) w1"
      unfolding aside(1)
    proof (rule wp_renameE, unfold w1)
      fix e w2 assume "same_files w1 w2"
      then show "wp (dropStaging E staging (throwE e :: unit act)) (\<lambda>_ _. True) (\<lambda>_. kept_whole ps nm w) w2"
        using same by (intro drop) (simp add: keeping_def)
    next
      fix t and w2 :: mods_world assume w2: "osRename ?d ?p (w_fs w) = (Inr (), t)" "w_fs w2 = t" "w_rows w2 = w_rows w"
      show "wp (renameE E staging ?d) (\<lambda>x. wp (ignoreE (SafeRemoveAll E P ?p)) (\<lambda>_ _. True) (\<lambda>_. kept_whole ps nm w))
          (\<lambda>e. wp (moveBack E ?p ?d e) (\<lambda>_ _. True) (\<lambda>_. kept_whole ps nm w)) w2"
      proof (rule wp_renameE)
        fix e w3 assume "same_files w2 w3"
        then show "wp (moveBack E ?p ?d e) (\<lambda>_ _. True) (\<lambda>_. kept_whole ps nm w) w3"
          using w2 aside(2,3) by (intro undo) (auto simp: keeping_def)
      qed (simp add: wp_ignoreE, simp add: wp_def split: prod.split sum.split)
    qed
  qed
qed

section \<open>A failed restore\<close>

text \<open>\<open>failing R m\<close>: a failed run of \<open>m\<close> relates the state it began in to the state it ends in.\<close>

definition failing :: "(mods_world \<Rightarrow> mods_world \<Rightarrow> bool) \<Rightarrow> 'a act \<Rightarrow> bool" where
  "failing R m \<longleftrightarrow> (\<forall>w. wp m (\<lambda>_ _. True) (\<lambda>_. R w) w)"

lemma failingD: "failing R m \<Longrightarrow> wp m (\<lambda>_ _. True) (\<lambda>_. R w) w"
  by (simp add: failing_def)

text \<open>The relation of the claim, for a state that has the instance's directory.\<close>

definition failed_restore :: "string list \<Rightarrow> string \<Rightarrow> mods_world \<Rightarrow> mods_world \<Rightarrow> bool" where
  "failed_restore ps nm w w' \<longleftrightarrow> (is_dir (w_fs w) (here ps nm) \<longrightarrow> kept_whole ps nm w w')"

lemma before_swap_failed: "before_swap ps nm w w' \<Longrightarrow> failed_restore ps nm w w'"
  by (simp add: before_swap_def failed_restore_def kept_whole_def)

lemma before_swap_then:
  assumes "proper (here ps nm)" "before_swap ps nm w w1" "failed_restore ps nm w1 w2"
  shows "failed_restore ps nm w w2"
proof -
  have "here ps nm \<in> subtree (here ps nm)" by (simp add: subtree_def)
  then have "is_dir (w_fs w1) (here ps nm) = is_dir (w_fs w) (here ps nm)"
    using assms(2) by (simp add: before_swap_def spares_def is_dir_def)
  then show ?thesis
    using assms kept_whole_after [OF _ _ assms(1)] by (auto simp: before_swap_def failed_restore_def)
qed

lemma failing_evolves: "evolves (before_swap ps nm) m \<Longrightarrow> failing (failed_restore ps nm) m"
  by (auto simp: failing_def intro!: wpI dest: evolvesD before_swap_failed)

lemma failing_bindE:
  assumes "proper (here ps nm)" "evolves (before_swap ps nm) m" "yields Q m"
    "\<And>x. Q x \<Longrightarrow> failing (failed_restore ps nm) (f x)"
  shows "failing (failed_restore ps nm) (bindE m f)"
  unfolding failing_def wp_simps
proof (rule allI, rule wpI)
  fix w e w1 assume "m w = (Inl e, w1)"
  then show "failed_restore ps nm w w1" using assms(2) by (blast dest: evolvesD before_swap_failed)
next
  fix w x w1 assume m: "m w = (Inr x, w1)"
  then have "wp (f x) (\<lambda>_ _. True) (\<lambda>_. failed_restore ps nm w1) w1"
    using assms(3,4) by (auto simp: failing_def dest: yieldsD)
  moreover have step: "before_swap ps nm w w1" using assms(2) m by (rule evolvesD)
  ultimately show "wp (f x) (\<lambda>_ _. True) (\<lambda>_. failed_restore ps nm w) w1"
    using before_swap_then [OF assms(1) step] by (auto simp: wp_def split: prod.split sum.split)
qed

lemma failing_finallyE:
  assumes "failing (failed_restore ps nm) m" "\<And>w. w_fs (c w) = w_fs w" "\<And>w. w_rows (c w) = w_rows w"
  shows "failing (failed_restore ps nm) (finallyE m c)"
proof -
  have "failed_restore ps nm w (c w')" if "failed_restore ps nm w w'" for w w'
    using that kept_whole_same [of w' "c w'"] assms(2,3) by (auto simp: failed_restore_def keeping_def)
  then show ?thesis using assms(1) by (auto simp: failing_def wp_simps intro: wp_mono)
qed

text \<open>Once the directories are swapped nothing throws.\<close>

definition throwless :: "'a act \<Rightarrow> bool" where
  "throwless m \<longleftrightarrow> (\<forall>w e w'. m w \<noteq> (Inl e, w'))"

lemma wp_throwless: "throwless m \<Longrightarrow> wp m (\<lambda>_ _. True) X w"
  by (auto simp: throwless_def wp_def split: prod.split sum.split)

lemma throwless_rules:
  "throwless (returnE x)" "throwless (getE f)" "throwless (ignoreE m')"
  "throwless m \<Longrightarrow> (\<And>x. throwless (g x)) \<Longrightarrow> throwless (bindE m g)"
  by (auto simp: throwless_def ignoreE_def catchE_def bindE_def returnE_def getE_def split: prod.splits sum.splits)

lemma throwless_finalize: "throwless (finalizeRestore E P inst oper n)"
  unfolding finalizeRestore_def SaveBestEffort_def nowE_def by (intro throwless_rules)

lemma failing_swap:
  assumes "restore_site E ps nm" "ir_directory inst = here ps nm" "staging_path E ps staging"
    and "\<And>x. throwless (f x)"
  shows "failing (failed_restore ps nm)
    (orFail (swapRestoredInstance E P inst staging) (\<lambda>e. failRestore E oper e code) f)"
  unfolding failing_def wp_simps
proof
  fix w
  have fails: "wp (failRestore E oper e code) (\<lambda>_ _. True) (\<lambda>_. failed_restore ps nm w) w1"
    if "failed_restore ps nm w w1" for e w1
  proof -
    have "evolves same_files (failRestore E oper e code)"
      by (rule evolves_same_files) (auto intro!: evolve_rules)
    then show ?thesis
      by (rule wp_evolves_to) (use that kept_whole_same in \<open>auto simp: failed_restore_def\<close>)
  qed
  have "wp (swapRestoredInstance E P inst staging) (\<lambda>_ _. True) (\<lambda>_. failed_restore ps nm w) w"
    using wp_swap [OF assms(1-3), of w P]
    by (cases "is_dir (w_fs w) (here ps nm)") (auto simp: failed_restore_def wp_def split: prod.split sum.split)
  then show "wp (swapRestoredInstance E P inst staging)
      (\<lambda>x. wp (f x) (\<lambda>_ _. True) (\<lambda>_. failed_restore ps nm w))
      (\<lambda>e. wp (failRestore E oper e code) (\<lambda>_ _. True) (\<lambda>_. failed_restore ps nm w)) w"
    by (rule wp_mono) (auto intro: fails wp_throwless assms(4))
qed

lemma prepare_yields:
  assumes "restore_site E ps nm" "ir_directory inst = here ps nm"
  shows "yields (\<lambda>(r, p). \<forall>st. r = Staged st \<longrightarrow> staging_path E ps st) (prepareRestoreStaging E P inst src progress p0)"
  unfolding prepareRestoreStaging_def assms(2)
proof (rule yields_orFail_from [OF site_tempdir_yields [OF assms(1)]])
  fix st assume "staging_path E ps st"
  then have mark: "yields (\<lambda>r. \<forall>s. r = Staged s \<longrightarrow> staging_path E ps s) (markStaging E inst st)"
    unfolding markStaging_def dropStaging_def by (auto intro!: yield_rules)
  have drop: "yields (\<lambda>(r, p). \<forall>s. r = Staged s \<longrightarrow> staging_path E ps s) (dropStaging E st (returnE (CopyFailed, p)))" for p
    unfolding dropStaging_def by (auto intro!: yield_rules)
  show "yields (\<lambda>(r, p). \<forall>s. r = Staged s \<longrightarrow> staging_path E ps s)
      (bindE (copySnapshotData E P (DataDir src) st [] progress p0) (\<lambda>(stats, p, err). case err of
         Some e \<Rightarrow> dropStaging E st (returnE (CopyFailed, p))
       | None \<Rightarrow> bindE (markStaging E inst st) (\<lambda>r. returnE (r, p))))"
    by (rule yields_bindE, intro yields_case_prod yields_case_option drop, rule yields_bindE_from [OF mark])
      (auto intro!: yields_returnE)
qed (auto intro!: yield_rules)

lemma stageRestore_before:
  assumes "restore_site E ps nm" "ir_directory inst = here ps nm"
    and "\<And>n p. evolves (spares (subtree (here ps nm))) (progress n p)" "\<And>n p. evolves (keeping w_rows) (progress n p)"
  shows "evolves (before_swap ps nm) (stageRestore E P inst src progress p0 operOf)"
    "yields (\<lambda>(st, p). staging_path E ps st) (stageRestore E P inst src progress p0 operOf)"
proof -
  have "evolves (spares (subtree (here ps nm))) (stageRestore E P inst src progress p0 operOf)"
    unfolding stageRestore_def
    by (auto intro!: spare_rules prepare_spares [OF assms(1-3)] split: staged.split)
  moreover have "evolves (keeping w_rows) (stageRestore E P inst src progress p0 operOf)"
    by (auto intro!: evolve_rules assms(4))
  ultimately show "evolves (before_swap ps nm) (stageRestore E P inst src progress p0 operOf)"
    by (rule evolves_before_swap)
  show "yields (\<lambda>(st, p). staging_path E ps st) (stageRestore E P inst src progress p0 operOf)"
    unfolding stageRestore_def failRestore_def
    by (rule yields_bindE_from [OF prepare_yields [OF assms(1,2)]])
      (auto intro!: yield_rules split: staged.split)
qed

lemma preorder_before_swap [simp]: "tick_free (before_swap ps nm)"
  by (auto simp: tick_free_def preorder_rel_def reflp_def transp_def before_swap_def spares_def)

lemma before_swap_ignores [simp]: "ignores_operations (before_swap ps nm)"
  by (simp add: ignores_defs before_swap_def spares_def)

lemma failing_any: "yields (\<lambda>_. True) m"
  by (simp add: yields_def)

lemma failing_withSetSlot:
  assumes "proper (here ps nm)" "failing (failed_restore ps nm) m"
  shows "failing (failed_restore ps nm) (withSetSlot i marker m)"
  unfolding withSetSlot_def
  by (rule failing_bindE [OF assms(1) _ failing_any])
    (auto intro!: evolves_modifyE failing_finallyE assms(2) simp: before_swap_def spares_def)

lemma failing_restoreV1:
  assumes "restore_site E ps nm" "ir_directory inst = here ps nm"
  shows "failing (failed_restore ps nm) (restoreV1 E P inst d)"
proof -
  note d = site_proper [OF assms(1)]
  note stage = stageRestore_before [OF assms, of "\<lambda>_ p. returnE p"]
  have rest: "failing (failed_restore ps nm)
      (bindE (stageRestore E P inst d (\<lambda>_ p. returnE p) () (\<lambda>_. oper)) (\<lambda>(staging, _).
        orFail (swapRestoredInstance E P inst staging) (\<lambda>e. failRestore E oper e ErrFilePermission) (\<lambda>_.
        finalizeRestore E P inst oper n)))" for oper n
    by (rule failing_bindE [OF d stage(1) stage(2)])
      (auto intro!: evolve_rules failing_swap [OF assms] throwless_finalize)
  show ?thesis
    unfolding restoreV1_def
    by (intro failing_bindE [OF d _ failing_any] failing_withSetSlot [OF d] rest evolve_rules) simp_all
qed

lemma failing_restoreV2:
  assumes "restore_site E ps nm" "ir_directory inst = here ps nm"
  shows "failing (failed_restore ps nm) (restoreV2 E P inst d m)"
proof -
  note d = site_proper [OF assms(1)]
  have swap: "failing (failed_restore ps nm) (finishV2 E P inst staging oper restored n)"
    if "staging_path E ps staging" for staging oper restored n
    unfolding finishV2_def Let_def
    by (intro failing_bindE [OF d _ failing_any] failing_swap [OF assms that] throwless_rules throwless_finalize
        evolve_rules) simp_all
  have mods: "evolves (before_swap ps nm) (stageMods E staging ms oper)" if "staging_path E ps staging" for staging ms oper
    by (rule evolves_before_swap [OF stageMods_spares [OF assms(1) that]]) (auto intro!: evolve_rules)
  note stage = stageRestore_before [OF assms, where progress = "operationScaledProgress E f" for f]
  have rest: "failing (failed_restore ps nm)
      (bindE (stageRestore E P inst d (operationScaledProgress E f) p0 cp_operation) (\<lambda>(staging, p).
       bindE (stageMods E staging (mf_mods m) (cp_operation p)) (\<lambda>(oper, restored).
       finishV2 E P inst staging oper restored n)))" for f p0 n
  proof (rule failing_bindE [OF d stage(1) stage(2)])
    fix x :: "string \<times> copy_progress" assume "case x of (st, p) \<Rightarrow> staging_path E ps st"
    then obtain st p where x: "x = (st, p)" "staging_path E ps st" by (cases x) auto
    show "failing (failed_restore ps nm) (case x of (staging, p) \<Rightarrow>
        bindE (stageMods E staging (mf_mods m) (cp_operation p)) (\<lambda>(oper, restored).
        finishV2 E P inst staging oper restored n))"
      unfolding x by (auto intro!: failing_bindE [OF d mods [OF x(2)] failing_any] swap x(2))
  qed (auto intro!: evolve_rules spare_rules)
  show ?thesis
    unfolding restoreV2_def Let_def
    by (intro failing_bindE [OF d _ failing_any] failing_withSetSlot [OF d] rest evolve_rules) simp_all
qed

lemma failing_Restore:
  assumes "restore_site E ps nm" "ir_directory inst = here ps nm"
  shows "failing (failed_restore ps nm) (withGuard i marker message
    (bindE (liftE r) (\<lambda>d. bindE (readForRestore E inst d) (\<lambda>m.
       if mf_format m = FormatVersion1 then restoreV1 E P inst d else restoreV2 E P inst d m))))"
proof -
  note d = site_proper [OF assms(1)]
  have guard: "evolves (before_swap ps nm) (guardE i marker message)"
    by (auto simp: evolves_def guardE_def before_swap_def spares_def split: prod.split)
  have body: "failing (failed_restore ps nm) (if mf_format m = FormatVersion1 then restoreV1 E P inst d else restoreV2 E P inst d m)"
    for d m using failing_restoreV1 [OF assms] failing_restoreV2 [OF assms] by simp
  show ?thesis
    unfolding withGuard_def
    by (intro failing_bindE [OF d guard failing_any] failing_finallyE failing_bindE [OF d _ failing_any] body evolve_rules)
      simp_all
qed


text \<open>A run in which the second rename of the swap fails: the old directory is moved back.\<close>

definition restoreWorld :: mods_world where
  "restoreWorld = (sampleWorld
     [(''/'', DirNode), (''/g'', DirNode), (''/g/i'', DirNode),
      (''/g/i/f'', FileNode \<lparr>fd_content = Blob ''old'', fd_mtime = 1\<rparr>),
      (''/d'', DirNode), (''/d/backups'', DirNode), (''/d/backups/instances'', DirNode),
      (''/d/backups/instances/i'', DirNode), (''/d/backups/instances/i/s'', DirNode),
      (''/d/backups/instances/i/s/data'', DirNode),
      (''/d/backups/instances/i/s/data/f'', FileNode \<lparr>fd_content = Blob ''new'', fd_mtime = 2\<rparr>),
      (''/d/backups/instances/i/s/manifest.json'', FileNode \<lparr>fd_content = ManifestJson
        \<lparr>mf_format = 1, mf_id = ''s'', mf_instance = ''i'', mf_instance_name = ''I'', mf_created = 5,
         mf_type = ''manual'', mf_reason = [], mf_context = [], mf_game_version = ''v'', mf_size = 3,
         mf_mod_count = 0, mf_world_count = 0, mf_mods = []\<rparr>, fd_mtime = 3\<rparr>)] [])
     \<lparr>w_instances := [plainInstance ''i'' ''I'' ''/g/i'' ''v'']\<rparr>"

definition restorePorts :: snap_ports where
  "restorePorts = \<lparr>sp_sanitize = Inr, sp_clear = (\<lambda>c. None), sp_available = (\<lambda>n. Inr 1000), sp_home = ''/h''\<rparr>"

definition faultyEnv :: "nat \<Rightarrow> env" where
  "faultyEnv k = sampleEnv\<lparr>ev_fault := (\<lambda>n. if n = k then Some (OtherError ''busy'') else None)\<rparr>"

lemma faultyEnv_site: "restore_site (faultyEnv k) [''g''] ''i''"
proof -
  have root: "root_path (ev_data_root (faultyEnv k)) [''d'']"
    by (simp add: faultyEnv_def sampleEnv_def root_path_def abs_path_def plain_def)
  have "replicate n (CHR ''i'') \<noteq> ''old-''" for n by (cases n) auto
  then have "good_ids (faultyEnv k)"
    by (auto simp: good_ids_def faultyEnv_def sampleEnv_def HasPrefix_def take_replicate)
  moreover have "storeRoot (faultyEnv k) = ''/d/cache/mods''"
    by (simp add: storeRoot_def cacheRoot_def faultyEnv_def sampleEnv_def path_eval)
  then have "restore_place (faultyEnv k) [''g''] ''i''"
    using root by (auto simp: restore_place_def plain_def incomparable_def proper_def apart_def below_def
        HasPrefix_def abs_path_def)
  ultimately show ?thesis by (simp add: restore_site_def)
qed


end
