(* ===== verification/Recovery.thy ===== *)
theory Recovery
  imports SnapshotFrames
begin

text \<open>
  \<open>internal/recovery\<close>: the last known good configuration of an instance, its comparison with the
  current one, and the suggestion after a failed launch.  Go iterates over a map in an order of its
  own; the order is the argument \<open>order\<close>, any permutation of the keys.  The log lines are left out.
\<close>

section \<open>Comparison of configurations\<close>

type_synonym key_order = "string list \<Rightarrow> string list"

definition keysOf :: "snapshot_mod list \<Rightarrow> string list" where
  "keysOf mods = remdups (map ModKey mods)"

definition configurationModName :: "string \<Rightarrow> (string \<times> string) list \<Rightarrow> snapshot_mod \<Rightarrow> string" where
  "configurationModName key names m =
     (case map_of names key of
        Some name \<Rightarrow> (if TrimSpace name \<noteq> [] then name else ModDisplayName m)
      | None \<Rightarrow> ModDisplayName m)"

definition sortModChanges :: "mod_change list \<Rightarrow> mod_change list" where
  "sortModChanges = sort_key (\<lambda>c. ToLower (mc_name c))"

text \<open>The entry of one key of the current configuration, for the list of additions or of updates.\<close>

definition additionOf :: "snapshot_mod list \<Rightarrow> snapshot_mod list \<Rightarrow> (string \<times> string) list \<Rightarrow> string \<Rightarrow> mod_change list" where
  "additionOf good current names key =
     (case (byKey good key, byKey current key) of
        (None, Some m) \<Rightarrow> [\<lparr>mc_name = configurationModName key names m, mc_from = [], mc_to = sm_version m\<rparr>]
      | _ \<Rightarrow> [])"

definition updateOf :: "snapshot_mod list \<Rightarrow> snapshot_mod list \<Rightarrow> (string \<times> string) list \<Rightarrow> string \<Rightarrow> mod_change list" where
  "updateOf good current names key =
     (case (byKey good key, byKey current key) of
        (Some previous, Some m) \<Rightarrow>
          (if sm_version previous \<noteq> sm_version m
           then [\<lparr>mc_name = configurationModName key names m, mc_from = sm_version previous, mc_to = sm_version m\<rparr>]
           else [])
      | _ \<Rightarrow> [])"

definition removalOf :: "snapshot_mod list \<Rightarrow> snapshot_mod list \<Rightarrow> string \<Rightarrow> mod_change list" where
  "removalOf good current key =
     (case (byKey current key, byKey good key) of
        (None, Some m) \<Rightarrow> [\<lparr>mc_name = ModDisplayName m, mc_from = sm_version m, mc_to = []\<rparr>]
      | _ \<Rightarrow> [])"

definition compareConfigurations ::
  "key_order \<Rightarrow> last_known_good \<Rightarrow> snapshot_mod list \<Rightarrow> (string \<times> string) list \<Rightarrow> string \<Rightarrow> configuration_changes" where
  "compareConfigurations order lkg current names gameVersion =
     (let good = lkg_mods lkg; changed = (lkg_game_version lkg \<noteq> gameVersion)
      in \<lparr>cc_version_from = (if changed then lkg_game_version lkg else []),
          cc_version_to = (if changed then gameVersion else []),
          cc_updated = sortModChanges (concat (map (updateOf good current names) (order (keysOf current)))),
          cc_added = sortModChanges (concat (map (additionOf good current names) (order (keysOf current)))),
          cc_removed = sortModChanges (concat (map (removalOf good current) (order (keysOf good))))\<rparr>)"

definition changeCount :: "configuration_changes \<Rightarrow> int" where
  "changeCount c = int (length (cc_updated c) + length (cc_added c) + length (cc_removed c)) +
     (if cc_version_from c \<noteq> [] \<and> cc_version_from c \<noteq> cc_version_to c then 1 else 0)"

definition noChanges :: "configuration_changes \<Rightarrow> bool" where
  "noChanges c \<longleftrightarrow> changeCount c = 0"

definition installedModKey :: "installed_mod \<Rightarrow> string" where
  "installedModKey m =
     (case ParseModDBSource (im_source m) of
        Some (modID, _) \<Rightarrow> ''moddb:'' @ modID
      | None \<Rightarrow> (let name = TrimSpace (im_name m)
                 in ''local:'' @ (if name = [] then TrimSpace (im_file_name m) else name)))"

text \<open>The hash is \<open>sha256\<close> with the hexadecimal encoding, of the bytes written to it.\<close>

definition configurationSignature :: "env \<Rightarrow> snapshot_mod list \<Rightarrow> string \<Rightarrow> string" where
  "configurationSignature E mods gameVersion =
     ev_checksum E ''sha256'' (Blob (gameVersion @ concat (map (\<lambda>entry. CHR 0x00 # entry)
       (sort (map (\<lambda>m. ModKey m @ ''::'' @ sm_version m) mods)))))"

section \<open>The service\<close>

definition matchesConfiguration :: "string \<Rightarrow> string \<Rightarrow> snapshot_mod list \<Rightarrow> manifest \<Rightarrow> bool" where
  "matchesConfiguration i gameVersion mods m \<longleftrightarrow>
     mf_instance m = i \<and> mf_game_version m = gameVersion \<and> SameModSet (mf_mods m) mods \<and>
     ValidateMods (mf_mods m) = Inr ()"

primrec firstMatching ::
  "env \<Rightarrow> string \<Rightarrow> string \<Rightarrow> snapshot_mod list \<Rightarrow> instance_snapshot list \<Rightarrow> string act" where
  "firstMatching E i gameVersion mods [] = returnE []"
| "firstMatching E i gameVersion mods (s # later) =
     catchE (ReadSnapshotManifest E i (si_id s)) (\<lambda>r. case r of
       Inl _ \<Rightarrow> firstMatching E i gameVersion mods later
     | Inr m \<Rightarrow> (if matchesConfiguration i gameVersion mods m then returnE (si_id s)
                 else firstMatching E i gameVersion mods later))"

definition findMatchingSnapshot :: "env \<Rightarrow> string \<Rightarrow> string \<Rightarrow> snapshot_mod list \<Rightarrow> string act" where
  "findMatchingSnapshot E i gameVersion mods =
     bindE (ListOfInstance E i) (firstMatching E i gameVersion mods)"

definition currentConfiguration ::
  "env \<Rightarrow> instance_ref \<Rightarrow> (string \<times> snapshot_mod list \<times> (string \<times> string) list) act" where
  "currentConfiguration E inst =
     bindE (ListMods E (ir_id inst)) (\<lambda>installed.
     bindE (ModManifest E installed) (\<lambda>mods.
     bindE (GameVersionName E (ir_game_version inst)) (\<lambda>version.
     returnE (version, mods, rev (map (\<lambda>m. (installedModKey m, im_name m)) installed)))))"

definition matchingOrEmpty :: "env \<Rightarrow> string \<Rightarrow> string \<Rightarrow> snapshot_mod list \<Rightarrow> string act" where
  "matchingOrEmpty E i gameVersion mods =
     catchE (findMatchingSnapshot E i gameVersion mods) (\<lambda>r. returnE (case r of Inl _ \<Rightarrow> [] | Inr s \<Rightarrow> s))"

definition recordMarker :: "env \<Rightarrow> instance_ref \<Rightarrow> installed_mod list \<Rightarrow> unit act" where
  "recordMarker E inst installed =
     bindE (ModManifest E installed) (\<lambda>mods.
     bindE (GameVersionName E (ir_game_version inst)) (\<lambda>gameVersion.
     bindE (ignoreE (GetLastKnownGood E (ir_id inst))) (\<lambda>_.
     bindE (nowE E) (\<lambda>now.
     bindE (matchingOrEmpty E (ir_id inst) gameVersion mods) (\<lambda>s.
     orFail (SaveLastKnownGood E \<lparr>lkg_instance = ir_id inst, lkg_recorded = now,
               lkg_game_version = gameVersion, lkg_snapshot = s, lkg_mods = mods\<rparr>)
       (\<lambda>_. returnE ()) (\<lambda>_. publishE (LastKnownGoodUpdated (ir_id inst))))))))"

definition RecordLastKnownGood :: "env \<Rightarrow> instance_ref \<Rightarrow> unit act" where
  "RecordLastKnownGood E inst = ignoreE (withGate
     (orFail (ListMods E (ir_id inst)) (\<lambda>_. returnE ()) (recordMarker E inst)))"

definition ResolveRecoverySnapshot :: "env \<Rightarrow> string \<Rightarrow> last_known_good \<Rightarrow> (string \<times> bool) act" where
  "ResolveRecoverySnapshot E i lkg =
     bindE (if lkg_snapshot lkg = [] then returnE False else IsRestorable E i (lkg_snapshot lkg)) (\<lambda>own.
       if own then returnE (lkg_snapshot lkg, True)
       else bindE (matchingOrEmpty E i (lkg_game_version lkg) (lkg_mods lkg)) (\<lambda>s. returnE (s, s \<noteq> [])))"

definition suggestRecovery ::
  "env \<Rightarrow> instance_ref \<Rightarrow> last_known_good \<Rightarrow> configuration_changes \<Rightarrow> string \<Rightarrow> unit act" where
  "suggestRecovery E inst lkg changes signature =
     bindE (ResolveRecoverySnapshot E (ir_id inst) lkg) (\<lambda>(s, ex).
     publishE (RecoverySuggested \<lparr>rs_instance = ir_id inst, rs_recorded = lkg_recorded lkg, rs_snapshot = s,
       rs_snapshot_exists = ex, rs_changes = changes, rs_signature = signature\<rparr>))"

definition HandleFailedLaunch :: "env \<Rightarrow> key_order \<Rightarrow> instance_ref \<Rightarrow> unit act" where
  "HandleFailedLaunch E order inst =
     orFail (GetLastKnownGood E (ir_id inst)) (\<lambda>_. returnE ()) (\<lambda>lkg.
     orFail (currentConfiguration E inst) (\<lambda>_. returnE ()) (\<lambda>(gameVersion, mods, names).
     let changes = compareConfigurations order lkg mods names gameVersion
     in if noChanges changes then returnE ()
        else suggestRecovery E inst lkg changes (configurationSignature E mods gameVersion)))"

definition zeroStatus :: last_known_good_status where
  "zeroStatus = \<lparr>ls_recorded = zeroTime, ls_game_version = [], ls_mod_count = 0, ls_snapshot = [],
     ls_snapshot_exists = False, ls_matches = False,
     ls_changes = \<lparr>cc_version_from = [], cc_version_to = [], cc_updated = [], cc_added = [], cc_removed = []\<rparr>\<rparr>"

definition statusOf :: "env \<Rightarrow> key_order \<Rightarrow> string \<Rightarrow> last_known_good \<Rightarrow> last_known_good_status act" where
  "statusOf E order i lkg =
     bindE (GetInstance E i) (\<lambda>inst.
     bindE (currentConfiguration E inst) (\<lambda>(gameVersion, mods, names).
     let changes = compareConfigurations order lkg mods names gameVersion
     in bindE (ResolveRecoverySnapshot E i lkg) (\<lambda>(s, ex).
        returnE \<lparr>ls_recorded = lkg_recorded lkg, ls_game_version = lkg_game_version lkg,
          ls_mod_count = int (length (lkg_mods lkg)), ls_snapshot = s, ls_snapshot_exists = ex,
          ls_matches = noChanges changes, ls_changes = changes\<rparr>)))"

definition StatusOfLastKnownGood :: "env \<Rightarrow> key_order \<Rightarrow> string \<Rightarrow> last_known_good_status act" where
  "StatusOfLastKnownGood E order i =
     bindE (GetInstance E i) (\<lambda>_.
     catchE (GetLastKnownGood E i) (\<lambda>r. case r of
       Inl e \<Rightarrow> (if errIs e NotFoundError then returnE zeroStatus else throwE e)
     | Inr lkg \<Rightarrow> statusOf E order i lkg))"

section \<open>The comparison is exact\<close>

definition versionAt :: "snapshot_mod list \<Rightarrow> string \<Rightarrow> string option" where
  "versionAt mods key = map_option sm_version (byKey mods key)"

lemma byKey_None: "byKey mods key = None \<longleftrightarrow> key \<notin> set (keysOf mods)"
  by (auto simp: byKey_def keysOf_def find_None_iff)

lemma byKey_Some: "byKey mods key = Some m \<Longrightarrow> key \<in> set (keysOf mods)"
  using byKey_None by (metis option.distinct(1))

lemma changeCount_zero:
  "noChanges c \<longleftrightarrow> cc_updated c = [] \<and> cc_added c = [] \<and> cc_removed c = [] \<and>
     (cc_version_from c = [] \<or> cc_version_from c = cc_version_to c)"
  unfolding noChanges_def changeCount_def
  by (cases "cc_updated c"; cases "cc_added c"; cases "cc_removed c") auto

lemma sortModChanges_Nil [simp]: "sortModChanges cs = [] \<longleftrightarrow> cs = []"
  unfolding sortModChanges_def by (metis set_sort set_empty)

lemma set_sortModChanges [simp]: "set (sortModChanges cs) = set cs"
  by (simp add: sortModChanges_def)

lemma changes_of:
  "x \<in> set (updateOf good current names k) \<longleftrightarrow> (\<exists>a b. byKey good k = Some a \<and> byKey current k = Some b \<and>
     sm_version a \<noteq> sm_version b \<and>
     x = \<lparr>mc_name = configurationModName k names b, mc_from = sm_version a, mc_to = sm_version b\<rparr>)"
  "x \<in> set (additionOf good current names k) \<longleftrightarrow> (\<exists>b. byKey good k = None \<and> byKey current k = Some b \<and>
     x = \<lparr>mc_name = configurationModName k names b, mc_from = [], mc_to = sm_version b\<rparr>)"
  "x \<in> set (removalOf good current k) \<longleftrightarrow> (\<exists>a. byKey good k = Some a \<and> byKey current k = None \<and>
     x = \<lparr>mc_name = ModDisplayName a, mc_from = sm_version a, mc_to = []\<rparr>)"
  by (cases "byKey good k"; cases "byKey current k"; auto simp: updateOf_def additionOf_def removalOf_def)+

lemma changes_ne:
  "updateOf good current names k \<noteq> [] \<longleftrightarrow>
     (\<exists>a b. byKey good k = Some a \<and> byKey current k = Some b \<and> sm_version a \<noteq> sm_version b)"
  "additionOf good current names k \<noteq> [] \<longleftrightarrow> byKey good k = None \<and> byKey current k \<noteq> None"
  "removalOf good current k \<noteq> [] \<longleftrightarrow> byKey good k \<noteq> None \<and> byKey current k = None"
  by (cases "byKey good k"; cases "byKey current k"; simp add: updateOf_def additionOf_def removalOf_def)+

lemma changes_le_1:
  "length (updateOf good current names k) \<le> 1" "length (additionOf good current names k) \<le> 1"
  "length (removalOf good current k) \<le> 1"
  by (auto simp: updateOf_def additionOf_def removalOf_def split: option.split)

lemma length_concat_keys:
  assumes "distinct ks" "\<And>k. length (f k) \<le> 1"
  shows "length (concat (map f ks)) = card {k \<in> set ks. f k \<noteq> []}"
  using assms(1)
proof (induction ks)
  case (Cons k ks)
  have "{x \<in> set (k # ks). f x \<noteq> []} = (if f k = [] then {x \<in> set ks. f x \<noteq> []} else insert k {x \<in> set ks. f x \<noteq> []})"
    by auto
  moreover have "f k \<noteq> [] \<Longrightarrow> length (f k) = 1" using assms(2) [of k] by (cases "f k") auto
  ultimately show ?case using Cons by auto
qed simp

text \<open>
  C22 (equivalence).  Whatever order Go visits its maps in, the comparison reports no change exactly
  when both configurations give every mod key the same version, and the game version is the same or
  was not recorded (an empty recorded version is never reported as a change).
\<close>

theorem comparison_empty_iff:
  assumes "\<And>ks. set (order ks) = set ks"
  shows "noChanges (compareConfigurations order lkg current names v) \<longleftrightarrow>
    versionAt (lkg_mods lkg) = versionAt current \<and> (lkg_game_version lkg = [] \<or> lkg_game_version lkg = v)"
proof -
  let ?good = "lkg_mods lkg"
  have same: "versionAt ?good = versionAt current \<longleftrightarrow>
      (\<forall>k \<in> set (keysOf current). updateOf ?good current names k = [] \<and> additionOf ?good current names k = []) \<and>
      (\<forall>k \<in> set (keysOf ?good). removalOf ?good current k = [])" (is "_ \<longleftrightarrow> ?none")
  proof
    assume eq: "versionAt ?good = versionAt current"
    have "updateOf ?good current names k = [] \<and> additionOf ?good current names k = [] \<and> removalOf ?good current k = []" for k
      using fun_cong [OF eq, of k]
      by (cases "byKey ?good k"; cases "byKey current k")
        (simp_all add: versionAt_def updateOf_def additionOf_def removalOf_def)
    then show ?none by blast
  next
    assume none: ?none
    have "versionAt ?good k = versionAt current k" for k
    proof (cases "byKey current k")
      case None
      then show ?thesis
        using none byKey_Some [of ?good k]
        by (cases "byKey ?good k") (auto simp: versionAt_def removalOf_def)
    next
      case (Some m)
      then show ?thesis
        using none byKey_Some [of current k m]
        by (cases "byKey ?good k") (auto simp: versionAt_def updateOf_def additionOf_def split: if_splits)
    qed
    then show "versionAt ?good = versionAt current" by (rule ext)
  qed
  show ?thesis
    unfolding same by (auto simp: changeCount_zero compareConfigurations_def Let_def assms)
qed

definition sampleEntry :: "string \<Rightarrow> string \<Rightarrow> snapshot_mod" where
  "sampleEntry m version = \<lparr>sm_source = ModSourceModDB, sm_mod_id = m, sm_release_id = ''r'', sm_identifier = m,
     sm_version = version, sm_file_name = m @ ''.zip'', sm_sha256 = [], sm_enabled = True\<rparr>"

definition sampleMarker :: last_known_good where
  "sampleMarker = \<lparr>lkg_instance = ''i'', lkg_recorded = 7, lkg_game_version = ''1.19.0'', lkg_snapshot = ''s'',
     lkg_mods = [sampleEntry ''a'' ''1'', sampleEntry ''b'' ''1'']\<rparr>"

lemma comparison_empty_iff_witness:
  "noChanges (compareConfigurations rev sampleMarker [sampleEntry ''b'' ''1'', sampleEntry ''a'' ''1''] [] ''1.19.0'')"
proof -
  have "versionAt (lkg_mods sampleMarker) = versionAt [sampleEntry ''b'' ''1'', sampleEntry ''a'' ''1'']"
    by (auto simp: fun_eq_iff versionAt_def byKey_def sampleMarker_def ModKey_def sampleEntry_def)
  then show ?thesis
    using comparison_empty_iff [of rev sampleMarker "[sampleEntry ''b'' ''1'', sampleEntry ''a'' ''1'']" "[]" "''1.19.0''"]
    by (simp add: sampleMarker_def)
qed

text \<open>
  C23 (functional).  What the three lists of changes hold, for any order of the maps: one entry per
  mod key whose version differs, appeared or disappeared, and nothing else; every list is sorted by
  the lower-case name.
\<close>

theorem comparison_exact:
  assumes perm: "\<And>ks. mset (order ks) = mset ks" and c: "c = compareConfigurations order lkg current names v"
  shows "set (cc_updated c) = {\<lparr>mc_name = configurationModName k names b, mc_from = sm_version a, mc_to = sm_version b\<rparr> |k a b.
        byKey (lkg_mods lkg) k = Some a \<and> byKey current k = Some b \<and> sm_version a \<noteq> sm_version b} \<and>
    set (cc_added c) = {\<lparr>mc_name = configurationModName k names b, mc_from = [], mc_to = sm_version b\<rparr> |k b.
        byKey (lkg_mods lkg) k = None \<and> byKey current k = Some b} \<and>
    set (cc_removed c) = {\<lparr>mc_name = ModDisplayName a, mc_from = sm_version a, mc_to = []\<rparr> |k a.
        byKey (lkg_mods lkg) k = Some a \<and> byKey current k = None} \<and>
    length (cc_updated c) = card {k. \<exists>a b. byKey (lkg_mods lkg) k = Some a \<and> byKey current k = Some b \<and> sm_version a \<noteq> sm_version b} \<and>
    length (cc_added c) = card {k. byKey (lkg_mods lkg) k = None \<and> byKey current k \<noteq> None} \<and>
    length (cc_removed c) = card {k. byKey (lkg_mods lkg) k \<noteq> None \<and> byKey current k = None} \<and>
    sorted (map (\<lambda>m. ToLower (mc_name m)) (cc_updated c)) \<and> sorted (map (\<lambda>m. ToLower (mc_name m)) (cc_added c)) \<and>
    sorted (map (\<lambda>m. ToLower (mc_name m)) (cc_removed c))"
proof -
  let ?good = "lkg_mods lkg"
  have set_order: "set (order ks) = set ks" for ks by (metis perm set_mset_mset)
  have dist: "distinct (order (keysOf ms))" for ms
    using perm [of "keysOf ms"] by (metis distinct_remdups keysOf_def mset_eq_imp_distinct_iff)
  note lists = c compareConfigurations_def Let_def
  have updated: "set (cc_updated c) = {\<lparr>mc_name = configurationModName k names b, mc_from = sm_version a, mc_to = sm_version b\<rparr> |k a b.
      byKey ?good k = Some a \<and> byKey current k = Some b \<and> sm_version a \<noteq> sm_version b}"
    by (auto simp: lists set_order changes_of intro: byKey_Some) blast
  have added: "set (cc_added c) = {\<lparr>mc_name = configurationModName k names b, mc_from = [], mc_to = sm_version b\<rparr> |k b.
      byKey ?good k = None \<and> byKey current k = Some b}"
    by (auto simp: lists set_order changes_of intro: byKey_Some) blast
  have removed: "set (cc_removed c) = {\<lparr>mc_name = ModDisplayName a, mc_from = sm_version a, mc_to = []\<rparr> |k a.
      byKey ?good k = Some a \<and> byKey current k = None}"
    by (auto simp: lists set_order changes_of intro: byKey_Some) blast
  have "length (sortModChanges (concat (map f (order (keysOf ms))))) = card {k \<in> set (keysOf ms). f k \<noteq> []}"
    if "\<And>k. length (f k) \<le> 1" for f ms
    using length_concat_keys [OF dist that] by (simp add: sortModChanges_def set_order)
  from this [OF changes_le_1(1)] this [OF changes_le_1(2)] this [OF changes_le_1(3)]
  have "length (cc_updated c) = card {k \<in> set (keysOf current). updateOf ?good current names k \<noteq> []}"
    "length (cc_added c) = card {k \<in> set (keysOf current). additionOf ?good current names k \<noteq> []}"
    "length (cc_removed c) = card {k \<in> set (keysOf ?good). removalOf ?good current k \<noteq> []}"
    by (simp_all add: lists)
  moreover have "{k \<in> set (keysOf current). updateOf ?good current names k \<noteq> []} =
      {k. \<exists>a b. byKey ?good k = Some a \<and> byKey current k = Some b \<and> sm_version a \<noteq> sm_version b}"
    "{k \<in> set (keysOf current). additionOf ?good current names k \<noteq> []} =
      {k. byKey ?good k = None \<and> byKey current k \<noteq> None}"
    "{k \<in> set (keysOf ?good). removalOf ?good current k \<noteq> []} =
      {k. byKey ?good k \<noteq> None \<and> byKey current k = None}"
    unfolding changes_ne by (auto dest: byKey_Some)
  moreover have "sorted (map (\<lambda>m. ToLower (mc_name m)) (sortModChanges cs))" for cs by (simp add: sortModChanges_def)
  ultimately show ?thesis using updated added removed by (simp add: lists)
qed

section \<open>What a suggestion promises\<close>

text \<open>A snapshot directory of these files can be restored for the instance.\<close>

definition restorable_at :: "env \<Rightarrow> string \<Rightarrow> fs \<Rightarrow> string \<Rightarrow> bool" where
  "restorable_at E i t s \<longleftrightarrow> (\<exists>d c m. SnapshotDir E i s = Inr d \<and> osReadFile (JoinPath [d, manifestFileName]) t = Inr c \<and>
     manifestValue c = Inr m \<and> mf_instance m = i \<and> ValidateMods (mf_mods m) = Inr ())"

definition captures_at :: "env \<Rightarrow> string \<Rightarrow> string \<Rightarrow> snapshot_mod list \<Rightarrow> fs \<Rightarrow> string \<Rightarrow> bool" where
  "captures_at E i v mods t s \<longleftrightarrow> (\<exists>d c m. SnapshotDir E i s = Inr d \<and> osReadFile (JoinPath [d, manifestFileName]) t = Inr c \<and>
     manifestValue c = Inr m \<and> matchesConfiguration i v mods m)"

lemma capturesI:
  "SnapshotDir E i s = Inr d \<Longrightarrow> osReadFile (JoinPath [d, manifestFileName]) t = Inr c \<Longrightarrow> manifestValue c = Inr m \<Longrightarrow>
     matchesConfiguration i v mods m \<Longrightarrow> captures_at E i v mods t s"
  by (auto simp: captures_at_def)

lemma captures_restorable: "captures_at E i v mods t s \<Longrightarrow> restorable_at E i t s"
  by (auto simp: captures_at_def restorable_at_def matchesConfiguration_def)

definition at_point :: "fs \<Rightarrow> mod_event list \<Rightarrow> mods_world \<Rightarrow> bool" where
  "at_point t ev w \<longleftrightarrow> w_fs w = t \<and> w_events w = ev"

lemma at_point_evolves:
  assumes "evolves (keeping w_fs) m" "evolves (keeping w_events) m" "at_point t ev w"
  shows "wp m (\<lambda>_. at_point t ev) (\<lambda>_. at_point t ev) w"
  using assms by (cases "m w") (auto simp: wp_def at_point_def keeping_def evolves_def dest: spec [of _ w] split: sum.split)

lemma wp_ReadManifest:
  assumes "at_point t ev w"
  shows "wp (ReadManifest E d) (\<lambda>m w'. at_point t ev w' \<and>
      (\<exists>c. osReadFile (JoinPath [d, manifestFileName]) t = Inr c \<and> manifestValue c = Inr m)) (\<lambda>_. at_point t ev) w"
  using assms
  by (auto simp: wp_def ReadManifest_def readFileE_def readE_def callE_def bindE_def liftE_def returnE_def throwE_def
      at_point_def split: option.splits sum.splits prod.splits)

lemma wp_SnapshotManifest:
  assumes "at_point t ev w"
  shows "wp (bindE (liftE (SnapshotDir E i s)) (ReadManifest E)) (\<lambda>m w'. at_point t ev w' \<and>
      (\<exists>d c. SnapshotDir E i s = Inr d \<and> osReadFile (JoinPath [d, manifestFileName]) t = Inr c \<and> manifestValue c = Inr m))
    (\<lambda>_. at_point t ev) w"
proof (cases "SnapshotDir E i s")
  case (Inr d)
  then show ?thesis
    using wp_ReadManifest [OF assms, of E d] by (auto simp: wp_simps liftE_def elim: wp_mono)
qed (simp add: wp_simps liftE_def assms)

lemma wp_IsRestorable:
  assumes "at_point t ev w"
  shows "wp (IsRestorable E i s) (\<lambda>b w'. at_point t ev w' \<and> (b \<longrightarrow> restorable_at E i t s)) (\<lambda>_. at_point t ev) w"
  unfolding IsRestorable_def wp_orFail
  by (rule wp_mono [OF wp_SnapshotManifest [OF assms]]) (auto simp: restorable_at_def wp_returnE)

lemma wp_ReadSnapshotManifest:
  assumes "at_point t ev w"
  shows "wp (ReadSnapshotManifest E i s) (\<lambda>m w'. at_point t ev w' \<and>
      (\<exists>d c. SnapshotDir E i s = Inr d \<and> osReadFile (JoinPath [d, manifestFileName]) t = Inr c \<and> manifestValue c = Inr m))
    (\<lambda>_. at_point t ev) w"
  unfolding ReadSnapshotManifest_def wp_bindE [of "GetInstance E i"]
  by (rule wp_mono [OF at_point_evolves [OF _ _ assms]], (rule evolve_rules; simp)+, rule wp_SnapshotManifest)

lemma wp_firstMatching:
  assumes "at_point t ev w"
  shows "wp (firstMatching E i v mods listing) (\<lambda>s w'. at_point t ev w' \<and> (s \<noteq> [] \<longrightarrow> captures_at E i v mods t s))
    (\<lambda>_. at_point t ev) w"
  using assms
proof (induction listing arbitrary: w)
  case (Cons x xs)
  show ?case
    unfolding firstMatching.simps wp_catchE
    by (rule wp_mono [OF wp_ReadSnapshotManifest [OF Cons.prems]])
      (auto simp: wp_simps intro: capturesI Cons.IH)
qed (simp add: wp_simps)

lemma wp_matchingOrEmpty:
  assumes "at_point t ev w"
  shows "wp (matchingOrEmpty E i v mods) (\<lambda>s w'. at_point t ev w' \<and> (s \<noteq> [] \<longrightarrow> captures_at E i v mods t s))
    (\<lambda>_. at_point t ev) w"
  unfolding matchingOrEmpty_def findMatchingSnapshot_def wp_catchE wp_bindE
  by (rule wp_mono [OF at_point_evolves [OF _ _ assms]])
    (auto intro!: evolve_rules wp_mono [OF wp_firstMatching] simp: ListOfInstance_def wp_simps)

lemma wp_Resolve:
  assumes "at_point t ev w"
  shows "wp (ResolveRecoverySnapshot E i lkg) (\<lambda>(s, ex) w'. at_point t ev w' \<and>
      (ex \<longrightarrow> restorable_at E i t s \<and> (s = lkg_snapshot lkg \<or> captures_at E i (lkg_game_version lkg) (lkg_mods lkg) t s)))
    (\<lambda>_. at_point t ev) w"
proof -
  have own: "wp (if lkg_snapshot lkg = [] then returnE False else IsRestorable E i (lkg_snapshot lkg))
      (\<lambda>b w'. at_point t ev w' \<and> (b \<longrightarrow> restorable_at E i t (lkg_snapshot lkg))) (\<lambda>_. at_point t ev) w"
    using assms wp_IsRestorable by (simp add: wp_simps)
  show ?thesis
    unfolding ResolveRecoverySnapshot_def wp_bindE
    by (rule wp_mono [OF own])
      (auto simp: wp_simps wp_bindE intro!: wp_mono [OF wp_matchingOrEmpty] dest: captures_restorable)
qed

text \<open>What has been announced and recorded.\<close>

abbreviation "announced \<equiv> keeping (\<lambda>w. (w_events w, w_last_good w))"

lemma announced_frame [simp]:
  "tick_free announced" "ignores_fs announced" "ignores_rows announced" "lock_closed announced"
proof -
  show t: "tick_free announced" by (simp add: tick_free_def) (simp add: keeping_def)
  show "ignores_fs announced" "ignores_rows announced" by (simp_all add: ignores_defs keeping_def)
  show "lock_closed announced"
    by (rule lock_closed_ignores [OF t]) (simp add: ignores_locks_def keeping_def)
qed

lemma evolves_currentConfiguration: "evolves announced (currentConfiguration E inst)"
  unfolding currentConfiguration_def ModManifest_def modManifest_def manifestEntry_def
  by (auto intro!: evolve_rules)

lemma evolves_Resolve:
  assumes "tick_free R" shows "evolves R (ResolveRecoverySnapshot E i lkg)"
proof -
  have first: "evolves R (firstMatching E i v mods xs)" for v mods xs
    using tick_free_preorder [OF assms] by (induction xs) (auto intro!: evolve_rules assms simp: ReadSnapshotManifest_def)
  show ?thesis
    unfolding ResolveRecoverySnapshot_def matchingOrEmpty_def findMatchingSnapshot_def IsRestorable_def ListOfInstance_def
    using tick_free_preorder [OF assms] by (auto intro!: evolve_rules assms first)
qed


lemma comparison_exact_witness:
  "length (cc_updated (compareConfigurations rev sampleMarker [sampleEntry ''a'' ''2''] [] ''1.19.0'')) =
     card {k. \<exists>a b. byKey (lkg_mods sampleMarker) k = Some a \<and> byKey [sampleEntry ''a'' ''2''] k = Some b \<and>
       sm_version a \<noteq> sm_version b}"
  using comparison_exact [of rev, OF _ refl, of sampleMarker "[sampleEntry ''a'' ''2'']" "[]" "''1.19.0''"] by simp

definition failedWorld :: mods_world where
  "failedWorld = (sampleWorld
     [(''/'', DirNode), (''/d'', DirNode), (''/d/backups'', DirNode), (''/d/backups/instances'', DirNode),
      (''/d/backups/instances/i'', DirNode), (''/d/backups/instances/i/s'', DirNode),
      (''/d/backups/instances/i/s/manifest.json'', FileNode \<lparr>fd_content = ManifestJson
        \<lparr>mf_format = 2, mf_id = ''s'', mf_instance = ''i'', mf_instance_name = ''I'', mf_created = 5,
         mf_type = ''manual'', mf_reason = [], mf_context = [], mf_game_version = ''1.19.0'', mf_size = 3,
         mf_mod_count = 2, mf_world_count = 0, mf_mods = lkg_mods sampleMarker\<rparr>, fd_mtime = 3\<rparr>)] [])
     \<lparr>w_last_good := [sampleMarker]\<rparr>"

definition failedInstance :: instance_ref where
  "failedInstance = plainInstance ''i'' ''I'' ''/i'' ''v''"


end
