(* ===== verification/DataRoot.thy ===== *)
theory DataRoot
  imports Snapshots
begin

text \<open>
  \<open>internal/platform/dataroot\<close>: the move of the data folder.  The running launcher copies the data
  beside the target and leaves a marker in its home directory; the next start, before it opens the
  database, hands the database over, puts the copy in place and points the pointer at it; the old
  folder is removed once the database has been opened from the new one.  A crash is an environment
  whose calls all fail from some point on.

  The pending marker is a JSON file, the other files of the home directory hold plain text.  The
  library that copies a directory tree, the process identifier, the restart and the working
  directory are parameters; waiting for the old process to exit changes nothing and is left out.
\<close>

record data_ports =
  dp_home :: string
  dp_cwd :: string
  dp_copy :: "nat \<Rightarrow> string \<Rightarrow> string \<Rightarrow> fs \<Rightarrow> unit result \<times> fs"
  dp_pid :: int
  dp_relaunch :: "nat \<Rightarrow> unit result"

abbreviation "PhaseCopy \<equiv> ''copy''"
abbreviation "PhaseFinalize \<equiv> ''finalize''"
abbreviation "pointerFile \<equiv> ''data-root''"
abbreviation "pendingFile \<equiv> ''data-root-pending''"
abbreviation "previousFile \<equiv> ''data-root-previous''"
abbreviation "errorFile \<equiv> ''data-root-error''"
abbreviation "databaseName \<equiv> ''waxlight.db''"

definition DatabaseFiles :: "string list" where
  "DatabaseFiles = [databaseName, ''waxlight.db-wal'', ''waxlight.db-shm'']"

section \<open>The files of the home directory\<close>

definition homeFile :: "data_ports \<Rightarrow> string \<Rightarrow> string" where
  "homeFile P name = JoinPath [dp_home P, name]"

definition readMarkerFile :: "env \<Rightarrow> data_ports \<Rightarrow> string \<Rightarrow> string act" where
  "readMarkerFile E P name = catchE (readFileE E (homeFile P name)) (\<lambda>r. case r of
     Inl e \<Rightarrow> (if isNotExist e then returnE [] else throwE e)
   | Inr c \<Rightarrow> returnE (TrimSpace (case c of Blob b \<Rightarrow> b | _ \<Rightarrow> ev_encoded E c)))"

definition writeMarker :: "env \<Rightarrow> data_ports \<Rightarrow> string \<Rightarrow> string \<Rightarrow> unit act" where
  "writeMarker E P name value = atomicWrite E (homeFile P name) (Blob value)"

definition clearMarker :: "env \<Rightarrow> data_ports \<Rightarrow> string \<Rightarrow> unit act" where
  "clearMarker E P name = catchE (removeE E (homeFile P name)) (\<lambda>r. case r of
     Inl e \<Rightarrow> (if isNotExist e then returnE () else throwE e)
   | Inr _ \<Rightarrow> returnE ())"

definition writePending :: "env \<Rightarrow> data_ports \<Rightarrow> relocation_marker \<Rightarrow> unit act" where
  "writePending E P m = atomicWrite E (homeFile P pendingFile) (MarkerJson m)"

definition clearPending :: "env \<Rightarrow> data_ports \<Rightarrow> unit act" where
  "clearPending E P = clearMarker E P pendingFile"

definition writeError :: "env \<Rightarrow> data_ports \<Rightarrow> string \<Rightarrow> unit act" where
  "writeError E P message = writeMarker E P errorFile message"

definition relocationError :: "env \<Rightarrow> data_ports \<Rightarrow> go_error \<Rightarrow> unit act" where
  "relocationError E P cause =
     ignoreE (writeError E P (''data folder relocation failed: '' @ errorText cause))"

definition Current :: "env \<Rightarrow> data_ports \<Rightarrow> string act" where
  "Current E P = bindE (readMarkerFile E P pointerFile) (\<lambda>pointer.
     returnE (if pointer \<noteq> [] then pointer else dp_home P))"

definition Pending :: "env \<Rightarrow> data_ports \<Rightarrow> relocation_marker option act" where
  "Pending E P = catchE (readFileE E (homeFile P pendingFile)) (\<lambda>r. case r of
     Inl e \<Rightarrow> (if isNotExist e then returnE None else throwE e)
   | Inr (MarkerJson m) \<Rightarrow> returnE (Some m)
   | Inr _ \<Rightarrow> throwE (WrapError ''parse pending data root marker''
                (OtherError ''invalid character looking for beginning of value'')))"

definition copyTargetOf :: "relocation_marker \<Rightarrow> string" where
  "copyTargetOf m = (if rk_copy m \<noteq> [] then rk_copy m else rk_to m)"

section \<open>The requested folder\<close>

definition Abs :: "data_ports \<Rightarrow> string \<Rightarrow> string" where
  "Abs P p = (if IsAbs p then Clean p else JoinPath [dp_cwd P, p])"

text \<open>\<open>filepath.Rel\<close> of two clean absolute paths does not start with \<open>..\<close>.\<close>

definition isSubpath :: "string \<Rightarrow> string \<Rightarrow> bool" where
  "isSubpath child base \<longleftrightarrow> child = base \<or> under base child"

definition ValidateTarget :: "env \<Rightarrow> data_ports \<Rightarrow> string \<Rightarrow> string \<Rightarrow> unit act" where
  "ValidateTarget E P current target =
     (if TrimSpace target = [] then throwE (OtherError ''the data folder must not be empty'')
      else let currentAbs = Abs P current; targetAbs = Abs P target
      in if targetAbs = currentAbs then throwE (OtherError ''the data folder must differ from the current one'')
      else if isSubpath targetAbs currentAbs
      then throwE (OtherError ''the data folder must not be inside the current data root'')
      else if isSubpath currentAbs targetAbs
      then throwE (OtherError ''the data folder must not contain the current data root'')
      else catchE (statE E targetAbs) (\<lambda>r. case r of
        Inl e \<Rightarrow> (if isNotExist e then returnE () else throwE e)
      | Inr info \<Rightarrow>
          (if info \<noteq> DirNode then throwE (OtherError ''the data folder target is not a directory'')
           else bindE (readE E (\<lambda>w. osReadDir targetAbs (w_fs w))) (\<lambda>entries.
                if entries \<noteq> [] then throwE (OtherError ''the data folder target must be empty'')
                else returnE ()))))"

text \<open>The failure is \<open>fmt.Errorf("%w: %v", ErrDataFolderNotWritable, err)\<close>; its detail is left out.\<close>

definition ErrDataFolderNotWritable :: go_error where
  "ErrDataFolderNotWritable = OtherError ''data folder target is not writable''"

definition ensureTargetWritable :: "env \<Rightarrow> string \<Rightarrow> bool act" where
  "ensureTargetWritable E target =
     bindE (catchE (statE E target) (\<lambda>r. case r of
       Inl e \<Rightarrow> (if isNotExist e
                 then orFail (mkdirE E target) (\<lambda>_. throwE ErrDataFolderNotWritable) (\<lambda>_. returnE True)
                 else throwE ErrDataFolderNotWritable)
     | Inr _ \<Rightarrow> returnE False)) (\<lambda>created.
     orFail (createE E (JoinPath [target, ''.waxlight-write-probe'']))
       (\<lambda>_. bindE (if created then ignoreE (removeAllE E target) else returnE ())
              (\<lambda>_. throwE ErrDataFolderNotWritable))
       (\<lambda>_. bindE (ignoreE (closeE E)) (\<lambda>_.
            bindE (ignoreE (removeE E (JoinPath [target, ''.waxlight-write-probe'']))) (\<lambda>_.
            returnE created))))"

definition CheckTarget :: "env \<Rightarrow> data_ports \<Rightarrow> string \<Rightarrow> unit act" where
  "CheckTarget E P target =
     bindE (Current E P) (\<lambda>current.
     bindE (ValidateTarget E P current target) (\<lambda>_.
     bindE (ensureTargetWritable E target) (\<lambda>created.
       if created then removeE E target else returnE ())))"

section \<open>The copy\<close>

definition cleanRelocationTarget :: "env \<Rightarrow> relocation_marker \<Rightarrow> unit act" where
  "cleanRelocationTarget E m =
     (if rk_copy m \<noteq> [] \<or> rk_created m then removeAllE E (copyTargetOf m)
      else catchE (readE E (\<lambda>w. osReadDir (copyTargetOf m) (w_fs w))) (\<lambda>r. case r of
        Inl e \<Rightarrow> (if isNotExist e then returnE () else throwE e)
      | Inr entries \<Rightarrow> forE entries (\<lambda>name. removeAllE E (JoinPath [copyTargetOf m, name]))))"

definition cleanupFailedRelocation :: "env \<Rightarrow> data_ports \<Rightarrow> relocation_marker \<Rightarrow> go_error \<Rightarrow> unit act" where
  "cleanupFailedRelocation E P m cause =
     bindE (orFail (cleanRelocationTarget E m) (\<lambda>_. returnE ()) (\<lambda>_. ignoreE (clearPending E P))) (\<lambda>_.
     relocationError E P cause)"

definition newMarker :: "string \<Rightarrow> string \<Rightarrow> string \<Rightarrow> bool \<Rightarrow> relocation_marker" where
  "newMarker current target staged created =
     \<lparr>rk_from = current, rk_to = target, rk_copy = staged, rk_phase = PhaseCopy, rk_pid = 0,
      rk_created = created, rk_committed = False, rk_owner = ''.waxlight-relocation-copy-'' @ Base staged\<rparr>"

definition PrepareRelocation :: "env \<Rightarrow> data_ports \<Rightarrow> string \<Rightarrow> relocation_marker act" where
  "PrepareRelocation E P target =
     bindE (Current E P) (\<lambda>current.
     bindE (ValidateTarget E P current target) (\<lambda>_.
     bindE (ensureTargetWritable E target) (\<lambda>created.
     bindE (if created then removeE E target else returnE ()) (\<lambda>_.
     bindE (MkdirTemp E (Dir target) (''.'' @ Base target @ ''.waxlight-copy-'')) (\<lambda>staged.
     let m = newMarker current target staged created
     in orFail (writePending E P m)
          (\<lambda>e. bindE (ignoreE (cleanRelocationTarget E m)) (\<lambda>_. throwE e)) (\<lambda>_.
        returnE m))))))"

definition CopyDataContext :: "env \<Rightarrow> data_ports \<Rightarrow> string \<Rightarrow> string \<Rightarrow> unit act" where
  "CopyDataContext E P src dst =
     bindE (TotalSizeContext E src) (\<lambda>_.
     bindE (mkdirE E dst) (\<lambda>_.
     callE E (\<lambda>w. case dp_copy P (w_ticks w) src dst (w_fs w) of (r, t) \<Rightarrow> (r, w\<lparr>w_fs := t\<rparr>))))"

definition validateUnchangedTarget :: "env \<Rightarrow> relocation_marker \<Rightarrow> unit act" where
  "validateUnchangedTarget E m = catchE (readE E (\<lambda>w. osReadDir (rk_to m) (w_fs w))) (\<lambda>r. case r of
     Inl e \<Rightarrow> (if rk_created m \<and> isNotExist e then returnE () else throwE e)
   | Inr entries \<Rightarrow> (if entries \<noteq> [] then throwE (OtherError ''the data folder target changed during relocation'')
                     else returnE ()))"

definition markOwner :: "env \<Rightarrow> relocation_marker \<Rightarrow> unit act" where
  "markOwner E m = catchE (statE E (JoinPath [copyTargetOf m, rk_owner m])) (\<lambda>r. case r of
     Inr _ \<Rightarrow> throwE (OtherError ''the data folder contains a reserved relocation file'')
   | Inl e \<Rightarrow> (if isNotExist e then writeFileE E (JoinPath [copyTargetOf m, rk_owner m]) (Blob (rk_copy m))
              else throwE e))"

definition finalMarker :: "data_ports \<Rightarrow> relocation_marker \<Rightarrow> relocation_marker" where
  "finalMarker P m = m\<lparr>rk_phase := PhaseFinalize, rk_pid := dp_pid P\<rparr>"

definition RunRelocation :: "env \<Rightarrow> data_ports \<Rightarrow> relocation_marker \<Rightarrow> unit act" where
  "RunRelocation E P m =
     (let failed = (\<lambda>m e. bindE (cleanupFailedRelocation E P m e) (\<lambda>_. throwE e)); final = finalMarker P m
      in orFail (bindE (CopyDataContext E P (rk_from m) (copyTargetOf m)) (\<lambda>_.
                 bindE (ctxE E) (\<lambda>_.
                 bindE (validateUnchangedTarget E m) (\<lambda>_. markOwner E m)))) (failed m) (\<lambda>_.
         orFail (writePending E P final) (\<lambda>e. bindE (cleanupFailedRelocation E P final
             (WrapError ''could not record the data folder move'' e)) (\<lambda>_. throwE e)) (\<lambda>_.
         orFail (ctxE E) (failed final) (\<lambda>_.
         orFail (callE E (\<lambda>w. (dp_relaunch P (w_ticks w), w))) (\<lambda>e. bindE (cleanupFailedRelocation E P final
             (WrapError ''could not restart the launcher'' e)) (\<lambda>_. throwE e)) (\<lambda>_.
         returnE ())))))"

section \<open>The start after a move\<close>

definition relocationTargetOwned :: "env \<Rightarrow> string \<Rightarrow> string \<Rightarrow> string \<Rightarrow> bool act" where
  "relocationTargetOwned E target ownerFile owner =
     (if ownerFile = [] then returnE False
      else catchE (readFileE E (JoinPath [target, ownerFile])) (\<lambda>r. case r of
        Inl e \<Rightarrow> (if isNotExist e then returnE False else throwE e)
      | Inr c \<Rightarrow> returnE (c = Blob owner)))"

text \<open>Where the copy is, and whether the move is committed: the copy may be in its place already.\<close>

definition stagedCopy :: "env \<Rightarrow> data_ports \<Rightarrow> relocation_marker \<Rightarrow> (string \<times> bool) act" where
  "stagedCopy E P m =
     (if rk_copy m = [] then returnE (copyTargetOf m, rk_committed m)
      else catchE (statE E (copyTargetOf m)) (\<lambda>r. case r of
        Inr _ \<Rightarrow> returnE (copyTargetOf m, rk_committed m)
      | Inl e \<Rightarrow>
          (if isNotExist e
           then bindE (relocationTargetOwned E (rk_to m) (rk_owner m) (rk_copy m)) (\<lambda>owned.
                bindE (Current E P) (\<lambda>current.
                  if \<not> owned \<and> Clean current \<noteq> Clean (rk_to m)
                  then throwE (OtherError ''the staged data folder copy is missing'')
                  else returnE (rk_to m, True)))
           else throwE e)))"

text \<open>\<open>copyFile\<close>: the destination is truncated before the source is read.\<close>

definition copyFileE :: "env \<Rightarrow> string \<Rightarrow> string \<Rightarrow> unit act" where
  "copyFileE E source destination =
     bindE (statE E source) (\<lambda>_.
     bindE (createE E destination) (\<lambda>_.
     bindE (readFileE E source) (\<lambda>c.
     bindE (copyIntoE E destination c) (\<lambda>_.
     bindE (closeE E) (\<lambda>_. closeE E)))))"

definition handOverFile :: "env \<Rightarrow> string \<Rightarrow> string \<Rightarrow> string \<Rightarrow> unit act" where
  "handOverFile E from target name = catchE (statE E (JoinPath [from, name])) (\<lambda>r. case r of
     Inl e \<Rightarrow> (if isNotExist e then returnE () else throwE e)
   | Inr _ \<Rightarrow> copyFileE E (JoinPath [from, name]) (JoinPath [target, name]))"

definition handOver :: "env \<Rightarrow> string \<Rightarrow> string \<Rightarrow> unit act" where
  "handOver E from target = catchE (statE E (JoinPath [from, databaseName])) (\<lambda>r.
     if (case r of Inl e \<Rightarrow> isNotExist e | Inr _ \<Rightarrow> False)
     then throwE (OtherError (''the database is missing in the previous data folder '' @ from))
     else forE DatabaseFiles (handOverFile E from target))"

text \<open>The answer is whether the move is committed, and the error, if any.\<close>

definition switchPointer :: "env \<Rightarrow> data_ports \<Rightarrow> relocation_marker \<Rightarrow> bool \<Rightarrow> (bool \<times> go_error option) act" where
  "switchPointer E P m committed =
     (let failed = (\<lambda>e. returnE (committed, Some e))
      in orFail (writeMarker E P pointerFile (rk_to m)) failed (\<lambda>_.
         orFail (writeMarker E P previousFile (rk_from m)) failed (\<lambda>_.
         bindE (if rk_owner m \<noteq> [] then ignoreE (removeE E (JoinPath [rk_to m, rk_owner m])) else returnE ()) (\<lambda>_.
         orFail (clearPending E P) failed (\<lambda>_. returnE (committed, None))))))"

definition removeIfThere :: "env \<Rightarrow> string \<Rightarrow> unit act" where
  "removeIfThere E p = catchE (removeE E p) (\<lambda>r. case r of
     Inl e \<Rightarrow> (if isNotExist e then returnE () else throwE e)
   | Inr _ \<Rightarrow> returnE ())"

definition publishCopy ::
  "env \<Rightarrow> data_ports \<Rightarrow> relocation_marker \<Rightarrow> string \<Rightarrow> bool \<Rightarrow> (bool \<times> go_error option) act" where
  "publishCopy E P m target committed =
     (let failed = (\<lambda>e. returnE (committed, Some e))
      in if Clean target = Clean (rk_to m) then switchPointer E P m committed
         else orFail (removeIfThere E (rk_to m)) failed (\<lambda>_.
              orFail (renameE E target (rk_to m))
                (\<lambda>e. bindE (if rk_created m then returnE () else ignoreE (mkdirE E (rk_to m))) (\<lambda>_. failed e)) (\<lambda>_.
              orFail (writePending E P (m\<lparr>rk_committed := True\<rparr>)) (\<lambda>e. returnE (True, Some e)) (\<lambda>_.
              switchPointer E P m True))))"

definition finishPending :: "env \<Rightarrow> data_ports \<Rightarrow> relocation_marker \<Rightarrow> (bool \<times> go_error option) act" where
  "finishPending E P m =
     orFail (bindE (statE E (rk_from m)) (\<lambda>_. stagedCopy E P m)) (\<lambda>e. returnE (rk_committed m, Some e)) (\<lambda>(target, committed).
     orFail (handOver E (rk_from m) target) (\<lambda>e. returnE (committed, Some e)) (\<lambda>_.
     publishCopy E P m target committed))"

definition validatePointerTarget :: "env \<Rightarrow> data_ports \<Rightarrow> string \<Rightarrow> string act" where
  "validatePointerTarget E P current =
     bindE (readMarkerFile E P pointerFile) (\<lambda>pointer.
       if pointer = [] then returnE current
       else catchE (statE E pointer) (\<lambda>r. case r of
         Inl e \<Rightarrow> throwE (if isNotExist e
           then OtherError (''the data folder '' @ pointer @ '' does not exist; restore it or correct the pointer'')
           else e)
       | Inr _ \<Rightarrow> returnE current))"

definition fallBack :: "env \<Rightarrow> data_ports \<Rightarrow> relocation_marker \<Rightarrow> string \<Rightarrow> go_error \<Rightarrow> string act" where
  "fallBack E P m current e =
     bindE (orFail (cleanRelocationTarget E m) (\<lambda>_. returnE ()) (\<lambda>_. ignoreE (clearPending E P))) (\<lambda>_.
     bindE (relocationError E P e) (\<lambda>_. validatePointerTarget E P current))"

definition startPending :: "env \<Rightarrow> data_ports \<Rightarrow> relocation_marker \<Rightarrow> string \<Rightarrow> string act" where
  "startPending E P m current =
     (if rk_phase m = PhaseCopy
      then bindE (cleanRelocationTarget E m) (\<lambda>_. bindE (clearPending E P) (\<lambda>_. validatePointerTarget E P current))
      else if rk_phase m = PhaseFinalize
      then bindE (finishPending E P m) (\<lambda>(committed, err). case err of
             None \<Rightarrow> returnE (rk_to m)
           | Some e \<Rightarrow> (if committed then bindE (relocationError E P e) (\<lambda>_. throwE e)
                       else fallBack E P m current e))
      else bindE (ignoreE (clearPending E P)) (\<lambda>_. validatePointerTarget E P current))"

definition PrepareStartup :: "env \<Rightarrow> data_ports \<Rightarrow> string act" where
  "PrepareStartup E P =
     bindE (mkdirE E (dp_home P)) (\<lambda>_.
     bindE (Pending E P) (\<lambda>pending.
     bindE (Current E P) (\<lambda>current.
     case pending of
       None \<Rightarrow> validatePointerTarget E P current
     | Some m \<Rightarrow> startPending E P m current)))"

section \<open>After the database was opened\<close>

definition movedDirectories :: "string list" where
  "movedDirectories = [''versions'', ''instances'', ''downloads'', ''cache'', ''security'', ''updates'', ''logs'', ''backups'']"

definition removeOldRoot :: "env \<Rightarrow> data_ports \<Rightarrow> string \<Rightarrow> unit act" where
  "removeOldRoot E P previous =
     (if Clean previous = Clean (dp_home P)
      then forE (movedDirectories @ DatabaseFiles) (\<lambda>name. removeAllE E (homeFile P name))
      else removeAllE E previous)"

definition dropPrevious :: "env \<Rightarrow> data_ports \<Rightarrow> unit act" where
  "dropPrevious E P = bindE (ignoreE (clearMarker E P previousFile)) (\<lambda>_. ignoreE (clearMarker E P errorFile))"

definition FinalizePrevious :: "env \<Rightarrow> data_ports \<Rightarrow> (string \<Rightarrow> string \<Rightarrow> unit act) \<Rightarrow> unit act" where
  "FinalizePrevious E P relocatePaths =
     bindE (readMarkerFile E P previousFile) (\<lambda>previous.
       if previous = [] then returnE ()
       else bindE (Current E P) (\<lambda>current.
         if Clean previous = Clean current then dropPrevious E P
         else orFail (relocatePaths previous current)
           (\<lambda>e. bindE (ignoreE (writeError E P (''could not rewrite stored data paths: '' @ errorText e))) (\<lambda>_. throwE e)) (\<lambda>_.
         orFail (removeOldRoot E P previous)
           (\<lambda>e. bindE (ignoreE (writeError E P (''could not remove the previous data folder: '' @ errorText e))) (\<lambda>_. throwE e)) (\<lambda>_.
         dropPrevious E P))))"

section \<open>The settings service\<close>

definition DataFolder :: "env \<Rightarrow> data_ports \<Rightarrow> (string \<times> string \<times> string) act" where
  "DataFolder E P = bindE (Current E P) (\<lambda>current.
     bindE (readMarkerFile E P errorFile) (\<lambda>lastError. returnE (current, dp_home P, lastError)))"

definition mapNotWritable :: "'a act \<Rightarrow> 'a act" where
  "mapNotWritable m = catchE m (\<lambda>r. case r of
     Inl e \<Rightarrow> throwE (if errIs e ErrDataFolderNotWritable
                     then NewError ErrFilePermission ''Waxlight has no write access to this folder'' else e)
   | Inr x \<Rightarrow> returnE x)"

definition CheckDataFolder :: "env \<Rightarrow> data_ports \<Rightarrow> string \<Rightarrow> unit act" where
  "CheckDataFolder E P target = mapNotWritable (CheckTarget E P target)"

text \<open>\<open>Move\<close> up to the start of its goroutine, which owns the gate from then on; \<open>starts\<close> is \<open>workers.Go\<close>.\<close>

definition beginRelocationE :: "unit act" where
  "beginRelocationE = (\<lambda>w. case BeginRelocation (w_gate w) of (r, g) \<Rightarrow> (r, w\<lparr>w_gate := g\<rparr>))"

definition endRelocation :: "mods_world \<Rightarrow> mods_world" where
  "endRelocation w = w\<lparr>w_gate := EndRelocation (w_gate w)\<rparr>"

definition MoveDataFolder :: "env \<Rightarrow> data_ports \<Rightarrow> unit act \<Rightarrow> bool act \<Rightarrow> string \<Rightarrow> relocation_marker act" where
  "MoveDataFolder E P check starts target =
     bindE beginRelocationE (\<lambda>_.
     orFail (bindE check (\<lambda>_.
             bindE (mapNotWritable (PrepareRelocation E P target)) (\<lambda>m.
             bindE (publishE (DataFolderEvent ''preparing'')) (\<lambda>_.
             bindE starts (\<lambda>started.
               if started then returnE m
               else throwE (NewError ErrDataFolderBusy ''The launcher is shutting down''))))))
       (\<lambda>e. bindE (modifyE endRelocation) (\<lambda>_. throwE e)) returnE)"

text \<open>The goroutine; after a success the process quits, with the gate still closed.\<close>

definition runMove :: "env \<Rightarrow> data_ports \<Rightarrow> relocation_marker \<Rightarrow> unit act" where
  "runMove E P m = orFail (RunRelocation E P m)
     (\<lambda>e. bindE (modifyE endRelocation) (\<lambda>_. publishE (DataFolderEvent ''error'')))
     (\<lambda>_. publishE (DataFolderEvent ''relaunching''))"

end
