(* ===== verification/DataRootFacts.thy ===== *)
theory DataRootFacts
  imports DataRoot SnapshotFacts
begin

text \<open>
  What a start after a move of the data folder does to the database, whichever calls fail: the
  files of the old folder are never written, the pointer names the new folder only once it holds a
  copy of them, and a start that answers the new folder has a complete copy there.
\<close>

section \<open>The files an effect may write\<close>

definition cont :: "mods_world \<Rightarrow> string \<Rightarrow> content option" where
  "cont w q = (case fs_node (w_fs w) q of Some (FileNode d) \<Rightarrow> Some (fd_content d) | _ \<Rightarrow> None)"

definition confined :: "string set \<Rightarrow> mods_world \<Rightarrow> mods_world \<Rightarrow> bool" where
  "confined T w w' \<longleftrightarrow> (\<forall>q. q \<notin> T \<longrightarrow> cont w' q = cont w q)"

lemma confinedD: "confined T w w' \<Longrightarrow> q \<notin> T \<Longrightarrow> cont w' q = cont w q"
  by (simp add: confined_def)

lemma confined_refl [simp]: "confined T w w"
  by (simp add: confined_def)

lemma confined_trans: "confined S w w1 \<Longrightarrow> confined S' w1 w2 \<Longrightarrow> S \<union> S' \<subseteq> T \<Longrightarrow> confined T w w2"
  unfolding confined_def by (metis Un_iff subsetD)

lemma confined_mono: "confined S w w' \<Longrightarrow> S \<subseteq> T \<Longrightarrow> confined T w w'"
  by (auto simp: confined_def)

lemma cont_fields [simp]:
  "cont (w\<lparr>w_ticks := n\<rparr>) = cont w" "cont (w\<lparr>w_events := e\<rparr>) = cont w" "cont (w\<lparr>w_gate := g\<rparr>) = cont w"
  "cont (tick w) = cont w"
  by (simp_all add: cont_def fun_eq_iff tick_def)

lemma cont_written [simp]:
  "cont (u\<lparr>w_fs := writeContent p c now (w_fs v)\<rparr>) = (cont v)(p := Some c)"
  by (simp add: cont_def writeContent_def fun_eq_iff)

lemma tick_free_confined [simp]: "tick_free (confined T)"
  by (auto simp: tick_free_def preorder_rel_def reflp_def transp_def confined_def)

lemma confined_tick [simp]: "confined T (tick w) w' = confined T w w'" "confined T w (tick w') = confined T w w'"
  by (simp_all add: confined_def)

named_theorems confined_rules \<open>introduction rules for evolves (confined T)\<close>

declare evolves_returnE [confined_rules] evolves_throwE [confined_rules] evolves_catchE [confined_rules]
  evolves_bindE [confined_rules] evolves_if [confined_rules] evolves_case_sum [confined_rules]
  evolves_case_option [confined_rules] evolves_case_prod [confined_rules] evolves_forE [confined_rules]
  evolves_orFail [confined_rules] evolves_ignoreE [confined_rules] evolves_readE [confined_rules]
  evolves_statE [confined_rules]

lemma evolves_fsE_confined:
  assumes "\<And>w t q. q \<notin> T \<Longrightarrow> cont (w\<lparr>w_fs := snd (f t)\<rparr>) q = cont (w\<lparr>w_fs := t\<rparr>) q"
  shows "evolves (confined T) (fsE E f)"
proof -
  have "confined T w (snd (case f (w_fs w) of (r, t) \<Rightarrow> (r, w\<lparr>w_fs := t\<rparr>)))" for w :: mods_world
    using assms [where w = w and t = "w_fs w"] by (auto simp: confined_def split: prod.splits)
  then show ?thesis unfolding fsE_def by (intro evolves_callE) simp_all
qed

lemma evolves_fsNowE_confined:
  assumes "\<And>w now t q. q \<notin> T \<Longrightarrow> cont (w\<lparr>w_fs := snd (f now t)\<rparr>) q = cont (w\<lparr>w_fs := t\<rparr>) q"
  shows "evolves (confined T) (fsNowE E f)"
proof -
  have "confined T w (snd (case f (ev_clock E (w_ticks w)) (w_fs w) of (r, t) \<Rightarrow> (r, w\<lparr>w_fs := t\<rparr>)))" for w :: mods_world
    using assms [where w = w and t = "w_fs w" and now = "ev_clock E (w_ticks w)"] by (auto simp: confined_def split: prod.splits)
  then show ?thesis unfolding fsNowE_def by (intro evolves_callE) simp_all
qed

lemma mkdir_cont: "osMkdirAll p t = (r, t') \<Longrightarrow> cont (w\<lparr>w_fs := t'\<rparr>) q = cont (w\<lparr>w_fs := t\<rparr>) q"
proof -
  assume run: "osMkdirAll p t = (r, t')"
  show ?thesis
    using osMkdirAll_keeps [OF run, of q] osMkdirAll_only_dirs [OF run, of q]
    by (cases "fs_node t q") (auto simp: cont_def)
qed

lemma confined_ports [confined_rules]:
  "evolves (confined T) (readFileE E p)" "evolves (confined T) (closeE E)" "evolves (confined T) (isDirE E p)"
  "evolves (confined T) (mkdirE E p)"
  "p \<in> T \<Longrightarrow> evolves (confined T) (createE E p)" "p \<in> T \<Longrightarrow> evolves (confined T) (copyIntoE E p c)"
  "p \<in> T \<Longrightarrow> evolves (confined T) (removeE E p)"
  "subtree p \<subseteq> T \<Longrightarrow> evolves (confined T) (removeAllE E p)"
  "subtree p \<subseteq> T \<Longrightarrow> subtree p' \<subseteq> T \<Longrightarrow> evolves (confined T) (renameE E p p')"
proof -
  show "evolves (confined T) (readFileE E p)" "evolves (confined T) (closeE E)" "evolves (confined T) (isDirE E p)"
    by (auto simp: readFileE_def closeE_def isDirE_def intro!: confined_rules)
  show "evolves (confined T) (mkdirE E p)"
    unfolding mkdirE_def by (intro evolves_fsE_confined) (metis mkdir_cont prod.collapse)
  show "p \<in> T \<Longrightarrow> evolves (confined T) (createE E p)" "p \<in> T \<Longrightarrow> evolves (confined T) (copyIntoE E p c)"
    unfolding createE_def copyIntoE_def
    by (intro evolves_fsNowE_confined, auto simp: cont_def osCreate_def writeContent_def)+
  show "p \<in> T \<Longrightarrow> evolves (confined T) (removeE E p)"
    unfolding removeE_def
    by (intro evolves_fsE_confined) (auto simp: cont_def osRemove_def split: option.split node.split)
  show "subtree p \<subseteq> T \<Longrightarrow> evolves (confined T) (removeAllE E p)"
    unfolding removeAllE_def
    by (intro evolves_fsE_confined) (auto simp: cont_def osRemoveAll_node subtree_def)
  assume sub: "subtree p \<subseteq> T" "subtree p' \<subseteq> T"
  show "evolves (confined T) (renameE E p p')"
    unfolding renameE_def
  proof (rule evolves_fsE_confined)
    fix t q and w :: mods_world assume q: "q \<notin> T"
    have "fs_node (snd (osRename p p' t)) q = fs_node t q"
      by (rule osRename_other [where r = "fst (osRename p p' t)" and a = p and b = p'])
        (use q sub in \<open>auto simp: subtree_def\<close>)
    then show "cont (w\<lparr>w_fs := snd (osRename p p' t)\<rparr>) q = cont (w\<lparr>w_fs := t\<rparr>) q" by (simp add: cont_def)
  qed
qed

lemma confined_atomicWrite [confined_rules]: "p \<in> T \<Longrightarrow> evolves (confined T) (atomicWrite E p c)"
  unfolding atomicWrite_def by (auto intro!: confined_rules)

lemma wp_confined: "evolves (confined T) m \<Longrightarrow> (\<And>x w'. confined T w w' \<Longrightarrow> Q x w') \<Longrightarrow> (\<And>e w'. confined T w w' \<Longrightarrow> X e w') \<Longrightarrow> wp m Q X w"
  by (rule wp_evolves_to)

section \<open>The markers\<close>

text \<open>A failing call does not claim that a file is missing when it is there.\<close>

definition truthful :: "env \<Rightarrow> bool" where
  "truthful E \<longleftrightarrow> (\<forall>n e. ev_fault E n = Some e \<longrightarrow> \<not> isNotExist e)"

lemma wp_readE_truthful:
  assumes "truthful E" "\<And>x. f (tick w) = Inr x \<Longrightarrow> Q x (tick w)"
    and "\<And>e. f (tick w) = Inl e \<or> \<not> isNotExist e \<Longrightarrow> X e (tick w)"
  shows "wp (readE E f) Q X w"
  using assms by (auto simp: wp_def readE_def callE_def truthful_def tick_def split: option.splits sum.splits)

definition points :: "data_ports \<Rightarrow> mods_world \<Rightarrow> string" where
  "points P w = (case cont w (homeFile P pointerFile) of Some (Blob b) \<Rightarrow> TrimSpace b | _ \<Rightarrow> [])"

definition pend :: "data_ports \<Rightarrow> mods_world \<Rightarrow> content option" where
  "pend P w = cont w (homeFile P pendingFile)"

definition currentRoot :: "data_ports \<Rightarrow> mods_world \<Rightarrow> string" where
  "currentRoot P w = (if points P w = [] then dp_home P else points P w)"

definition plain_pointer :: "data_ports \<Rightarrow> mods_world \<Rightarrow> bool" where
  "plain_pointer P w \<longleftrightarrow> (\<forall>c. cont w (homeFile P pointerFile) = Some c \<longrightarrow> (\<exists>b. c = Blob b))"

lemma wp_readMarkerFile:
  assumes "truthful E" "plain_pointer P w" "Q (points P w) (tick w)" "\<And>e. X e (tick w)"
  shows "wp (readMarkerFile E P pointerFile) Q X w"
  unfolding readMarkerFile_def readFileE_def wp_catchE
proof (rule wp_readE_truthful [OF assms(1)])
  fix c assume "osReadFile (homeFile P pointerFile) (w_fs (tick w)) = Inr c"
  then have "cont w (homeFile P pointerFile) = Some c"
    by (auto simp: osReadFile_def cont_def split: option.splits node.splits)
  with assms(2,3) show "wp (case Inr c of Inl e \<Rightarrow> if isNotExist e then returnE [] else throwE e
      | Inr c \<Rightarrow> returnE (TrimSpace (case c of Blob b \<Rightarrow> b | _ \<Rightarrow> ev_encoded E c))) Q X (tick w)"
    by (auto simp: wp_simps points_def plain_pointer_def)
next
  fix e assume "osReadFile (homeFile P pointerFile) (w_fs (tick w)) = Inl e \<or> \<not> isNotExist e"
  then have "isNotExist e \<Longrightarrow> cont w (homeFile P pointerFile) = None"
    by (auto simp: osReadFile_def cont_def split: option.splits node.splits)
  then have "isNotExist e \<Longrightarrow> points P w = []" by (simp add: points_def)
  with assms(3,4) show "wp (case Inl e of Inl e \<Rightarrow> if isNotExist e then returnE [] else throwE e
      | Inr c \<Rightarrow> returnE (TrimSpace (case c of Blob b \<Rightarrow> b | _ \<Rightarrow> ev_encoded E c))) Q X (tick w)"
    by (cases "isNotExist e") (simp_all add: wp_simps)
qed

lemma wp_Current:
  assumes "truthful E" "plain_pointer P w" "Q (currentRoot P w) (tick w)" "\<And>e. X e (tick w)"
  shows "wp (Current E P) Q X w"
  unfolding Current_def wp_bindE
  by (rule wp_readMarkerFile) (use assms in \<open>auto simp: wp_simps currentRoot_def\<close>)

lemma wp_Pending:
  assumes "truthful E" "\<And>m. pend P w = Some (MarkerJson m) \<Longrightarrow> Q (Some m) (tick w)" "pend P w = None \<Longrightarrow> Q None (tick w)"
    and "\<And>e. X e (tick w)"
  shows "wp (Pending E P) Q X w"
  unfolding Pending_def readFileE_def wp_catchE
  by (rule wp_readE_truthful [OF assms(1)])
    (use assms in \<open>auto simp: wp_simps osReadFile_def pend_def cont_def split: option.splits node.splits content.split\<close>)

text \<open>An atomic write that fails has written all or nothing.\<close>

lemma wp_atomicWrite_cont:
  "wp (atomicWrite E p c) (\<lambda>_ w'. cont w' p = Some c \<and> confined {p} w w')
     (\<lambda>_ w'. (cont w' p = cont w p \<or> cont w' p = Some c) \<and> confined {p} w w') w"
proof -
  define I where "I v \<longleftrightarrow> cont v p = cont w p \<and> confined {p} w v" for v
  have I: "evolves (confined {}) m \<Longrightarrow> I v \<Longrightarrow> (\<And>x v'. I v' \<Longrightarrow> Q x v') \<Longrightarrow> (\<And>e v'. I v' \<Longrightarrow> X e v') \<Longrightarrow> wp m Q X v" for m Q X v
    by (rule wp_confined) (auto simp: I_def confined_def)
  have written: "wp (copyIntoE E p c) (\<lambda>_ v'. cont v' p = Some c \<and> confined {p} w v') (\<lambda>_. I) v" if "I v" for v
    unfolding copyIntoE_def
    by (rule wp_fsNowE) (use that in \<open>auto simp: I_def writeContent_def cont_def confined_def\<close>)
  have weak: "I v \<Longrightarrow> (cont v p = cont w p \<or> cont v p = Some c) \<and> confined {p} w v" for v
    by (simp add: I_def)
  have last: "wp (closeE E) (\<lambda>_ w'. cont w' p = Some c \<and> confined {p} w w')
      (\<lambda>_ w'. (cont w' p = cont w p \<or> cont w' p = Some c) \<and> confined {p} w w') v"
    if "cont v p = Some c \<and> confined {p} w v" for v
    by (rule wp_closeE) (use that in simp_all)
  have rest: "wp (closeE E) (\<lambda>_. wp (copyIntoE E p c) (\<lambda>_. wp (closeE E)
      (\<lambda>_ w'. cont w' p = Some c \<and> confined {p} w w')
      (\<lambda>_ w'. (cont w' p = cont w p \<or> cont w' p = Some c) \<and> confined {p} w w'))
      (\<lambda>_ w'. (cont w' p = cont w p \<or> cont w' p = Some c) \<and> confined {p} w w'))
      (\<lambda>_ w'. (cont w' p = cont w p \<or> cont w' p = Some c) \<and> confined {p} w w') v" if "I v" for v
    by (rule I) (auto intro!: confined_rules that wp_mono [OF written] weak last)
  have start: "I w" by (simp add: I_def)
  show ?thesis
    unfolding atomicWrite_def wp_bindE
  proof (rule I [OF _ start])
    fix u v assume v: "I v"
    let ?Q = "\<lambda>_ w'. cont w' p = Some c \<and> confined {p} w w'"
    let ?X = "\<lambda>_ w'. (cont w' p = cont w p \<or> cont w' p = Some c) \<and> confined {p} w w'"
    show "wp (isDirE E (Dir p)) (\<lambda>safe. wp (if \<not> safe then throwE (OtherError ''atomic file parent is not a safe directory'')
       else bindE (catchE (statE E path) (\<lambda>r. case r of
            Inr n \<Rightarrow> (if n = DirNode then throwE (OtherError ''atomic file target is not a regular file'')
                     else returnE ())
          | Inl e \<Rightarrow> (if isNotExist e then returnE () else throwE e))) (\<lambda>_.
       bindE (closeE E) (\<lambda>_. bindE (copyIntoE E p c) (\<lambda>_. closeE E)))) ?Q ?X) ?X v" for path
    proof (rule I [OF _ v])
      fix safe v1 assume v1: "I v1"
      have "wp (catchE (statE E path) (\<lambda>r. case r of
            Inr n \<Rightarrow> (if n = DirNode then throwE (OtherError ''atomic file target is not a regular file'')
                     else returnE ())
          | Inl e \<Rightarrow> (if isNotExist e then returnE () else throwE e))) (\<lambda>_ v2. I v2) (\<lambda>_ v2. I v2) v1"
        by (rule I [OF _ v1]) (auto intro!: confined_rules)
      then show "wp (if \<not> safe then throwE (OtherError ''atomic file parent is not a safe directory'')
       else bindE (catchE (statE E path) (\<lambda>r. case r of
            Inr n \<Rightarrow> (if n = DirNode then throwE (OtherError ''atomic file target is not a regular file'')
                     else returnE ())
          | Inl e \<Rightarrow> (if isNotExist e then returnE () else throwE e))) (\<lambda>_.
       bindE (closeE E) (\<lambda>_. bindE (copyIntoE E p c) (\<lambda>_. closeE E)))) ?Q ?X v1"
        unfolding wp_if wp_bindE wp_throwE
        using v1 by (auto intro!: rest weak elim!: wp_mono)
    qed (auto intro!: confined_rules weak)
  qed (auto intro!: confined_rules weak)
qed

lemma wp_clearMarker:
  assumes "truthful E"
  shows "wp (clearMarker E P k) (\<lambda>_ w'. cont w' (homeFile P k) = None \<and> confined {homeFile P k} w w')
     (\<lambda>_ w'. confined {} w w') w"
proof -
  let ?p = "homeFile P k"
  have ok: "cont (w\<lparr>w_ticks := n, w_fs := t\<rparr>) ?p = None \<and> confined {?p} w (w\<lparr>w_ticks := n, w_fs := t\<rparr>)"
    if "osRemove ?p (w_fs w) = (Inr (), t)" for n t
    using osRemove_node [OF that] by (auto simp: confined_def cont_def)
  have no: "t = w_fs w \<and> (isNotExist e \<longrightarrow> cont w ?p = None)" if "osRemove ?p (w_fs w) = (Inl e, t)" for e t
    using that by (auto simp: osRemove_def cont_def split: option.splits node.splits if_splits)
  show ?thesis
    unfolding clearMarker_def removeE_def wp_catchE fsE_def
    using assms ok no
    by (cases "osRemove ?p (w_fs w)")
      (auto simp: wp_def callE_def truthful_def split: option.splits sum.splits, auto simp: confined_def cont_def)
qed

section \<open>The place of a move\<close>

abbreviation "markerNames \<equiv> [pointerFile, pendingFile, previousFile, errorFile]"

definition move_site :: "data_ports \<Rightarrow> string \<Rightarrow> string \<Rightarrow> string \<Rightarrow> bool" where
  "move_site P f t c \<longleftrightarrow>
     (\<forall>r \<in> {dp_home P, f, t, c}. \<exists>es. root_path r es) \<and>
     incomparable f c \<and> incomparable f t \<and> incomparable c t \<and> TrimSpace t = t \<and>
     (\<forall>k \<in> set markerNames. homeFile P k \<notin> subtree c \<union> subtree t)"

lemma JoinPath_file: "root_path r es \<Longrightarrow> plain n \<Longrightarrow> JoinPath [r, n] = r @ ''/'' @ n"
  using JoinPath_abs [of es "[n]"] by (simp add: root_path_def abs_path_def Join_append)

lemma file_below:
  assumes "root_path r es" "plain n"
  shows "under r (JoinPath [r, n])" "JoinPath [r, n] \<in> subtree r"
proof -
  have "proper r" using assms proper_abs_path by (auto simp: root_path_def)
  then show "under r (JoinPath [r, n])"
    using JoinPath_file [OF assms] assms(2) by (simp add: under_def below_plain plain_def)
  then show "JoinPath [r, n] \<in> subtree r" by (simp add: subtree_def)
qed

lemma JoinPath_inj:
  assumes "root_path r es" "root_path s fs" "plain n" "plain k" "JoinPath [r, n] = JoinPath [s, k]"
  shows "n = k"
  using assms JoinPath_file [OF assms(1,3)] JoinPath_file [OF assms(2,4)]
    after_last_append [of "CHR ''/''" n r] after_last_append [of "CHR ''/''" k s]
  by (simp add: plain_def)

lemma marker_names_plain: "k \<in> set markerNames \<union> set DatabaseFiles \<Longrightarrow> plain k"
  by (auto simp: plain_def DatabaseFiles_def)

lemma site_facts:
  assumes "move_site P f t c" "n \<in> set DatabaseFiles"
  shows "JoinPath [f, n] \<notin> subtree c" "JoinPath [f, n] \<notin> subtree t"
    and "JoinPath [c, n] \<in> subtree c" "JoinPath [t, n] \<in> subtree t"
    and "k \<in> set markerNames \<Longrightarrow> homeFile P k \<notin> subtree c \<and> homeFile P k \<notin> subtree t \<and> homeFile P k \<noteq> JoinPath [f, n]"
proof -
  from assms obtain fs ts cs hs where roots: "root_path f fs" "root_path t ts" "root_path c cs" "root_path (dp_home P) hs"
    by (auto simp: move_site_def)
  have n: "plain n" using assms(2) marker_names_plain by auto
  have "JoinPath [f, n] \<in> subtree f" by (rule file_below [OF roots(1) n])
  then show "JoinPath [f, n] \<notin> subtree c" "JoinPath [f, n] \<notin> subtree t"
    using assms(1) incomparable_disjoint by (auto simp: move_site_def)
  show "JoinPath [c, n] \<in> subtree c" "JoinPath [t, n] \<in> subtree t"
    using file_below [OF roots(3) n] file_below [OF roots(2) n] by simp_all
  assume k: "k \<in> set markerNames"
  then have "homeFile P k \<noteq> JoinPath [f, n]"
    using JoinPath_inj [OF roots(4) roots(1), of k n] n assms(2) marker_names_plain [of k]
    by (auto simp: homeFile_def DatabaseFiles_def)
  with k assms(1) show "homeFile P k \<notin> subtree c \<and> homeFile P k \<notin> subtree t \<and> homeFile P k \<noteq> JoinPath [f, n]"
    by (auto simp: move_site_def)
qed

lemma site_markers:
  assumes "move_site P f t c" "k \<in> set markerNames" "j \<in> set markerNames"
  shows "homeFile P k = homeFile P j \<longleftrightarrow> k = j"
  using assms JoinPath_inj marker_names_plain unfolding homeFile_def move_site_def by blast

section \<open>The database is handed over\<close>

definition handedOver :: "string \<Rightarrow> string \<Rightarrow> mods_world \<Rightarrow> bool" where
  "handedOver f t w \<longleftrightarrow> (\<forall>n \<in> set DatabaseFiles. cont w (JoinPath [f, n]) \<noteq> None \<longrightarrow>
     cont w (JoinPath [t, n]) = cont w (JoinPath [f, n]))"

lemma wp_handOverFile:
  assumes "truthful E" "JoinPath [f, n] \<noteq> JoinPath [d, n]"
  shows "wp (handOverFile E f d n)
     (\<lambda>_ w'. confined {JoinPath [d, n]} w w' \<and>
        (cont w' (JoinPath [f, n]) \<noteq> None \<longrightarrow> cont w' (JoinPath [d, n]) = cont w' (JoinPath [f, n])))
     (\<lambda>_ w'. confined {JoinPath [d, n]} w w') w"
proof -
  let ?s = "JoinPath [f, n]" and ?d = "JoinPath [d, n]"
  let ?Q = "\<lambda>_ w'. confined {?d} w w' \<and> (cont w' ?s \<noteq> None \<longrightarrow> cont w' ?d = cont w' ?s)"
  let ?X = "\<lambda>_ w'. confined {?d} w w'"
  have close: "wp (bindE (closeE E) (\<lambda>_. closeE E)) ?Q ?X v" if "?Q () v" for v
    unfolding wp_bindE using that by (intro wp_closeE) simp_all
  have store: "wp (bindE (copyIntoE E ?d c) (\<lambda>_. bindE (closeE E) (\<lambda>_. closeE E))) ?Q ?X v"
    if "confined {?d} w v" "cont v ?s = Some c" for v c
    unfolding wp_bindE [of "copyIntoE E ?d c"] unfolding copyIntoE_def
  proof (rule wp_fsNowE)
    fix now x t assume "(Inr (), writeContent ?d c now (w_fs v)) = (Inr x, t)"
    then show "wp (bindE (closeE E) (\<lambda>_. closeE E)) ?Q ?X ((tick v)\<lparr>w_fs := t\<rparr>)"
      using that assms(2) by (intro close) (auto simp: confined_def)
  qed (use that in simp_all)
  have copy: "wp (copyFileE E ?s ?d) ?Q ?X v" if "confined {?d} w v" for v
    unfolding copyFileE_def wp_bindE [of "statE E ?s"] wp_bindE [of "createE E ?d"] wp_bindE [of "readFileE E ?s"]
  proof (rule wp_confined [where T = "{}"])
    fix x v1 assume "confined {} v v1"
    with that have v1: "confined {?d} w v1" by (auto simp: confined_def)
    show "wp (createE E ?d) (\<lambda>_. wp (readFileE E ?s) (\<lambda>c. wp (bindE (copyIntoE E ?d c)
        (\<lambda>_. bindE (closeE E) (\<lambda>_. closeE E))) ?Q ?X) ?X) ?X v1"
    proof (rule wp_confined [where T = "{?d}"])
      fix y v2 assume "confined {?d} v1 v2"
      with v1 have v2: "confined {?d} w v2" by (auto simp: confined_def)
      show "wp (readFileE E ?s) (\<lambda>c. wp (bindE (copyIntoE E ?d c)
          (\<lambda>_. bindE (closeE E) (\<lambda>_. closeE E))) ?Q ?X) ?X v2"
        unfolding readFileE_def
      proof (rule wp_readE)
        fix c assume "osReadFile ?s (w_fs (tick v2)) = Inr c"
        then have "cont v2 ?s = Some c" by (auto simp: osReadFile_def cont_def split: option.splits node.splits)
        with v2 show "wp (bindE (copyIntoE E ?d c) (\<lambda>_. bindE (closeE E) (\<lambda>_. closeE E))) ?Q ?X (tick v2)"
          by (intro store) simp_all
      qed (use v2 in simp)
    qed (use v1 in \<open>auto simp: confined_def intro!: confined_rules\<close>)
  qed (use that in \<open>auto simp: confined_def intro!: confined_rules\<close>)
  have none: "osStat ?s (w_fs w) = Inl e \<Longrightarrow> cont w ?s = None" for e
    by (auto simp: osStat_def cont_def split: option.splits)
  show ?thesis
    unfolding handOverFile_def wp_catchE statE_def
    by (rule wp_readE_truthful [OF assms(1)]) (use copy [of "tick w"] in \<open>auto simp: wp_simps none\<close>)
qed

lemma wp_handOver:
  assumes "truthful E" "\<And>n. n \<in> set DatabaseFiles \<Longrightarrow> JoinPath [f, n] \<notin> U \<and> JoinPath [d, n] \<in> U"
    and "\<exists>es. root_path d es"
  shows "wp (handOver E f d) (\<lambda>_ w'. confined U w w' \<and> handedOver f d w') (\<lambda>_ w'. confined U w w') w"
proof -
  define I where "I ns v \<longleftrightarrow> confined U w v \<and> (\<forall>n \<in> set ns. cont v (JoinPath [f, n]) \<noteq> None \<longrightarrow>
      cont v (JoinPath [d, n]) = cont v (JoinPath [f, n]))" for ns v
  have step: "wp (handOverFile E f d n) (\<lambda>_. I (ns @ [n])) (\<lambda>_ w'. confined U w w') v"
    if ns: "DatabaseFiles = ns @ n # ms" and v: "I ns v" for ns n ms v
  proof (rule wp_mono [OF wp_handOverFile [OF assms(1)]])
    have n: "n \<in> set DatabaseFiles" and dist: "n \<notin> set ns"
      using ns by (auto simp: DatabaseFiles_def Cons_eq_append_conv)
    from assms(2) [OF n] show "JoinPath [f, n] \<noteq> JoinPath [d, n]" by auto
    have other: "JoinPath [d, k] \<noteq> JoinPath [d, n]" if "k \<in> set ns" for k
    proof -
      obtain es where d: "root_path d es" using assms(3) by blast
      have "k \<in> set DatabaseFiles" using that unfolding ns by simp
      moreover have "k \<noteq> n" using that dist by auto
      ultimately show ?thesis using JoinPath_inj [OF d d, of k n] n marker_names_plain by auto
    qed
    fix v' assume "confined {JoinPath [d, n]} v v' \<and> (cont v' (JoinPath [f, n]) \<noteq> None \<longrightarrow>
      cont v' (JoinPath [d, n]) = cont v' (JoinPath [f, n]))"
    moreover have "JoinPath [f, k] \<noteq> JoinPath [d, n]" if "k \<in> set ns" for k
    proof -
      have "k \<in> set DatabaseFiles" using that unfolding ns by simp
      then show ?thesis using assms(2) [of k] assms(2) [OF n] by auto
    qed
    moreover have "confined U w v'" if "confined {JoinPath [d, n]} v v'"
      using v that assms(2) [OF n] confined_trans [of "U" w v] by (auto simp: I_def)
    moreover have "cont v (JoinPath [d, k]) = cont v (JoinPath [f, k])"
      if "k \<in> set ns" "cont v (JoinPath [f, k]) \<noteq> None" for k using v that by (simp add: I_def)
    ultimately show "I (ns @ [n]) v'"
      using other unfolding I_def by (auto simp: confined_def)
  next
    fix v' assume "confined {JoinPath [d, n]} v v'"
    then show "confined U w v'"
      using v assms(2) [of n] confined_trans [of "U" w v "{JoinPath [d, n]}" v'] unfolding ns by (auto simp: I_def)
  qed
  have loop: "wp (forE DatabaseFiles (handOverFile E f d))
      (\<lambda>_ w'. confined U w w' \<and> handedOver f d w') (\<lambda>_ w'. confined U w w') v" if "confined {} w v" for v
  proof (rule wp_mono [OF wp_forE_prefix [where I = I and X = "\<lambda>_ w'. confined U w w'"]])
    show "I [] v" using that by (auto simp: I_def confined_def)
  qed (auto simp: I_def handedOver_def intro: step)
  show ?thesis
    unfolding handOver_def wp_catchE
    by (rule wp_confined [where T = "{}"])
      (auto simp: wp_simps intro!: confined_rules loop intro: confined_mono)
qed

section \<open>One start\<close>

definition move_marker :: "string \<Rightarrow> string \<Rightarrow> string \<Rightarrow> relocation_marker \<Rightarrow> bool" where
  "move_marker f t c m \<longleftrightarrow> rk_from m = f \<and> rk_to m = t \<and> rk_copy m = c \<and> rk_phase m = PhaseFinalize \<and>
     plain (rk_owner m) \<and> rk_owner m \<notin> set DatabaseFiles"

text \<open>A start writes in the copy, the target and the marker files, and never makes the copy a file.\<close>

definition moves :: "string \<Rightarrow> string set \<Rightarrow> mods_world \<Rightarrow> mods_world \<Rightarrow> bool" where
  "moves c T w w' \<longleftrightarrow> confined T w w' \<and> (cont w c = None \<longrightarrow> cont w' c = None)"

lemma tick_free_moves [simp]: "tick_free (moves c T)"
  by (auto simp: tick_free_def preorder_rel_def reflp_def transp_def moves_def confined_def)

lemma evolves_moves: "evolves (confined (T - {c})) m \<Longrightarrow> evolves (moves c T) m"
  unfolding evolves_def moves_def confined_def by auto

lemma moves_in: "confined S w w' \<Longrightarrow> S \<subseteq> T - {c} \<Longrightarrow> moves c T w w'"
  unfolding moves_def confined_def by (metis DiffD1 DiffD2 insertCI subsetD)

definition places :: "data_ports \<Rightarrow> string \<Rightarrow> string \<Rightarrow> string set" where
  "places P t c = subtree c \<union> subtree t \<union> homeFile P ` set markerNames"

definition beneath :: "string \<Rightarrow> string set" where
  "beneath d = {q. under d q}"

lemma places_facts:
  assumes "move_site P f t c"
  shows "beneath c \<subseteq> places P t c - {c}" "subtree t \<subseteq> places P t c - {c}" "subtree c \<subseteq> places P t c"
    and "k \<in> set markerNames \<Longrightarrow> homeFile P k \<in> places P t c - {c}"
proof -
  have c: "c \<in> subtree c" by (simp add: subtree_def)
  show "beneath c \<subseteq> places P t c - {c}" "subtree c \<subseteq> places P t c"
    by (auto simp: beneath_def places_def subtree_def under_irrefl)
  show "subtree t \<subseteq> places P t c - {c}"
    using assms incomparable_disjoint [OF _ c] by (auto simp: places_def move_site_def)
  assume "k \<in> set markerNames"
  then show "homeFile P k \<in> places P t c - {c}"
    using assms c by (auto simp: places_def move_site_def)
qed

lemma copy_removed: "evolves (moves c (places P t c)) (removeAllE E c)"
proof -
  have sub: "subtree c \<subseteq> places P t c" by (auto simp: places_def)
  have "cont (w\<lparr>w_fs := osRemoveAll c (w_fs w)\<rparr>) c = None" for w by (simp add: cont_def osRemoveAll_node)
  then have "evolves (\<lambda>w w'. cont w c = None \<longrightarrow> cont w' c = None) (removeAllE E c)"
    by (auto simp: evolves_def removeAllE_def fsE_def callE_def cont_def osRemoveAll_node split: option.split)
  with confined_ports(8) [OF sub, of E] show ?thesis by (auto simp: evolves_def moves_def)
qed

text \<open>The copy takes the place of the target.\<close>

lemma wp_renameE_copy:
  assumes "incomparable c t" "cont w c = None"
  shows "wp (renameE E c t)
     (\<lambda>_ w'. confined (subtree c \<union> subtree t) w w' \<and> cont w' c = None \<and>
        (\<forall>r. r \<noteq> [] \<longrightarrow> cont w' (t @ ''/'' @ r) = cont w (c @ ''/'' @ r)))
     (\<lambda>_ w'. confined {} w w') w"
  unfolding renameE_def
proof (rule wp_fsE)
  fix u fs' assume run: "osRename c t (w_fs w) = (Inr u, fs')"
  have "fs_node (w_fs w) c \<noteq> None" using run by (auto simp: osRename_def split: option.splits)
  with assms(2) have dir: "is_dir (w_fs w) c" by (auto simp: cont_def is_dir_def split: node.splits)
  have p: "proper c" "proper t" "c \<noteq> t" using assms(1) by (auto simp: incomparable_def apart_def)
  note node = osRename_dir [OF run dir p(3,1,2)]
  have "\<not> under t c" using assms(1) incomparable_apart [of c t c] apart_not_subtree by (auto simp: subtree_def)
  then have "cont (w\<lparr>w_fs := fs'\<rparr>) c = None" using p by (simp add: cont_def node subtree_def)
  moreover have "cont (w\<lparr>w_fs := fs'\<rparr>) (t @ ''/'' @ r) = cont w (c @ ''/'' @ r)" if "r \<noteq> []" for r
    using that p(2) by (simp add: cont_def node under_def below_plain)
  moreover have "confined (subtree c \<union> subtree t) w (w\<lparr>w_fs := fs'\<rparr>)"
    by (auto simp: confined_def cont_def node subtree_def)
  ultimately show "confined (subtree c \<union> subtree t) w ((tick w)\<lparr>w_fs := fs'\<rparr>) \<and> cont ((tick w)\<lparr>w_fs := fs'\<rparr>) c = None \<and>
      (\<forall>r. r \<noteq> [] \<longrightarrow> cont ((tick w)\<lparr>w_fs := fs'\<rparr>) (t @ ''/'' @ r) = cont w (c @ ''/'' @ r))"
    by (simp add: cont_def confined_def)
next
  fix e fs' assume "osRename c t (w_fs w) = (Inl e, fs')"
  then have "fs' = w_fs w" by (auto simp: osRename_def split: option.splits node.splits if_splits)
  then show "confined {} w ((tick w)\<lparr>w_fs := fs'\<rparr>)" by (simp add: confined_def cont_def)
qed simp

lemma handedOver_renamed:
  assumes "move_site P f t c" "handedOver f c w" "confined (subtree c \<union> subtree t) w w'"
    and "\<forall>r. r \<noteq> [] \<longrightarrow> cont w' (t @ ''/'' @ r) = cont w (c @ ''/'' @ r)"
  shows "handedOver f t w'"
  unfolding handedOver_def
proof (intro ballI impI)
  fix n assume n: "n \<in> set DatabaseFiles" "cont w' (JoinPath [f, n]) \<noteq> None"
  from assms(1) obtain ts cs where roots: "root_path t ts" "root_path c cs" by (auto simp: move_site_def)
  have plain: "plain n" using n(1) marker_names_plain by auto
  have f: "cont w' (JoinPath [f, n]) = cont w (JoinPath [f, n])"
    using site_facts [OF assms(1) n(1)] assms(3) by (auto simp: confined_def)
  have "cont w' (JoinPath [t, n]) = cont w (JoinPath [c, n])"
    using assms(4) plain JoinPath_file [OF roots(1) plain] JoinPath_file [OF roots(2) plain] by (simp add: plain_def)
  with assms(2) n f show "cont w' (JoinPath [t, n]) = cont w' (JoinPath [f, n])" by (simp add: handedOver_def)
qed

text \<open>The state after the steps of a start that ended with \<open>err\<close>.\<close>

definition finish_state ::
  "data_ports \<Rightarrow> string \<Rightarrow> string \<Rightarrow> relocation_marker \<Rightarrow> mods_world \<Rightarrow> bool \<times> go_error option \<Rightarrow> mods_world \<Rightarrow> bool" where
  "finish_state P f t m w out w' \<longleftrightarrow> (case out of (committed, err) \<Rightarrow>
     plain_pointer P w' \<and> (rk_committed m \<longrightarrow> committed) \<and>
     (case err of
        None \<Rightarrow> points P w' = t \<and> pend P w' = None \<and> handedOver f t w'
      | Some _ \<Rightarrow> (points P w' = points P w \<or> handedOver f t w') \<and>
          (if committed then pend P w' \<in> {Some (MarkerJson m), Some (MarkerJson (m\<lparr>rk_committed := True\<rparr>))}
           else pend P w' = pend P w \<and> points P w' = points P w)))"

lemma pointer_cont:
  "cont w' (homeFile P pointerFile) = cont w (homeFile P pointerFile) \<Longrightarrow> points P w' = points P w"
  "cont w' (homeFile P pointerFile) = cont w (homeFile P pointerFile) \<Longrightarrow> plain_pointer P w' = plain_pointer P w"
  "cont w' (homeFile P pointerFile) = Some (Blob b) \<Longrightarrow> points P w' = TrimSpace b"
  "cont w' (homeFile P pointerFile) = Some (Blob b) \<Longrightarrow> plain_pointer P w'"
  by (simp_all add: points_def plain_pointer_def)

lemma handedOver_outside:
  assumes "move_site P f t c" "handedOver f t w" "confined S w w'"
    and "\<And>n. n \<in> set DatabaseFiles \<Longrightarrow> JoinPath [f, n] \<notin> S \<and> JoinPath [t, n] \<notin> S"
  shows "handedOver f t w'"
  using assms(2-4) by (auto simp: handedOver_def confined_def)

lemma marker_outside:
  assumes "move_site P f t c" "k \<in> set markerNames" "n \<in> set DatabaseFiles"
  shows "JoinPath [f, n] \<noteq> homeFile P k" "JoinPath [t, n] \<noteq> homeFile P k"
  using site_facts(5) [OF assms(1,3,2)] site_facts(4) [OF assms(1,3)] by auto

lemma owner_outside:
  assumes "move_site P f t c" "plain x" "x \<notin> set DatabaseFiles" "n \<in> set DatabaseFiles"
  shows "JoinPath [f, n] \<noteq> JoinPath [t, x]" "JoinPath [t, n] \<noteq> JoinPath [t, x]"
    and "k \<in> set markerNames \<Longrightarrow> homeFile P k \<noteq> JoinPath [t, x]" "JoinPath [t, x] \<in> subtree t"
proof -
  from assms(1) obtain ts fs where t: "root_path t ts" and f: "root_path f fs" by (auto simp: move_site_def)
  show x: "JoinPath [t, x] \<in> subtree t" by (rule file_below [OF t assms(2)])
  then show "JoinPath [f, n] \<noteq> JoinPath [t, x]" using site_facts(2) [OF assms(1,4)] by auto
  show "JoinPath [t, n] \<noteq> JoinPath [t, x]"
    using JoinPath_inj [OF t t, of n x] assms(2-4) marker_names_plain [of n] by auto
  show "k \<in> set markerNames \<Longrightarrow> homeFile P k \<noteq> JoinPath [t, x]"
    using x site_facts(5) [OF assms(1,4), of k] by auto
qed

lemma wp_switchPointer:
  assumes "truthful E" "move_site P f t c" "move_marker f t c m"
    and "plain_pointer P w" "handedOver f t w"
    and "pend P w \<in> {Some (MarkerJson m), Some (MarkerJson (m\<lparr>rk_committed := True\<rparr>))}"
  shows "wp (switchPointer E P m True) (finish_state P f t m w0) (\<lambda>_ _. False) w"
proof -
  have m: "rk_to m = t" "plain (rk_owner m)" "rk_owner m \<notin> set DatabaseFiles" using assms(3) by (auto simp: move_marker_def)
  note owner = owner_outside [OF assms(2) m(2,3)]
  have trim: "TrimSpace t = t" using assms(2) by (simp add: move_site_def)
  define G where "G v \<longleftrightarrow> handedOver f t v \<and>
    pend P v \<in> {Some (MarkerJson m), Some (MarkerJson (m\<lparr>rk_committed := True\<rparr>))}" for v
  have G: "G v'" if "G v" "confined {q} v v'" "homeFile P pendingFile \<noteq> q"
    "\<And>n. n \<in> set DatabaseFiles \<Longrightarrow> JoinPath [f, n] \<noteq> q \<and> JoinPath [t, n] \<noteq> q" for v v' q
  proof -
    have "pend P v' = pend P v" using that(2,3) by (auto simp: pend_def confined_def)
    moreover have "handedOver f t v'" using that by (intro handedOver_outside [OF assms(2) _ that(2)]) (auto simp: G_def)
    ultimately show ?thesis using that(1) by (simp add: G_def)
  qed
  have same: "points P v' = points P v \<and> plain_pointer P v' = plain_pointer P v"
    if "confined {q} v v'" "homeFile P pointerFile \<noteq> q" for v v' q
    using that by (auto simp: confined_def intro!: pointer_cont)
  have names: "homeFile P k \<noteq> homeFile P j" if "k \<noteq> j" "k \<in> set markerNames" "j \<in> set markerNames" for k j
    using site_markers [OF assms(2) that(2,3)] that(1) by simp
  let ?J = "\<lambda>v. G v \<and> plain_pointer P v"
  have failed: "finish_state P f t m w0 (True, Some e) v" if "?J v" for v e
    using that by (simp add: G_def finish_state_def)
  have J: "?J w" using assms(4-6) by (simp add: G_def)
  have 1: "wp (writeMarker E P pointerFile t) (\<lambda>_ v. ?J v \<and> points P v = t) (\<lambda>_ v. ?J v) w"
    unfolding writeMarker_def
  proof (rule wp_mono [OF wp_atomicWrite_cont])
    let ?p = "homeFile P pointerFile"
    have kept: "G v" if "confined {?p} w v" for v
      by (rule G [OF _ that]) (use J names marker_outside [OF assms(2), of pointerFile] in auto)
    show "?J v \<and> points P v = t" if "cont v ?p = Some (Blob t) \<and> confined {?p} w v" for v
      using that kept pointer_cont(3,4) [of v P t] trim by simp
    show "?J v" if "(cont v ?p = cont w ?p \<or> cont v ?p = Some (Blob t)) \<and> confined {?p} w v" for v
      using that kept J pointer_cont(2) [of v P w] pointer_cont(4) [of v P t] by auto
  qed
  have step: "?J v' \<and> points P v' = t" if "?J v \<and> points P v = t" "confined {q} v v'"
    "homeFile P pendingFile \<noteq> q" "homeFile P pointerFile \<noteq> q"
    "\<And>n. n \<in> set DatabaseFiles \<Longrightarrow> JoinPath [f, n] \<noteq> q \<and> JoinPath [t, n] \<noteq> q" for v v' q
    using that G [of v q v'] same [OF that(2,4)] by simp
  have 2: "wp (writeMarker E P previousFile x) (\<lambda>_ v. ?J v \<and> points P v = t) (\<lambda>_ v. ?J v) v"
    if "?J v \<and> points P v = t" for v x
    unfolding writeMarker_def
    by (rule wp_mono [OF wp_atomicWrite_cont])
      (use step [OF that, of "homeFile P previousFile"] names marker_outside [OF assms(2), of previousFile] in auto)
  have 3: "wp (if rk_owner m \<noteq> [] then ignoreE (removeE E (JoinPath [t, rk_owner m])) else returnE ())
      (\<lambda>_ v. ?J v \<and> points P v = t) (\<lambda>_ _. False) v" if "?J v \<and> points P v = t" for v
  proof -
    have "wp (removeE E (JoinPath [t, rk_owner m])) (\<lambda>_ v. ?J v \<and> points P v = t) (\<lambda>_ v. ?J v \<and> points P v = t) v"
    proof (rule wp_confined [where T = "{JoinPath [t, rk_owner m]}"])
      fix v' assume v': "confined {JoinPath [t, rk_owner m]} v v'"
      have db: "databaseName \<in> set DatabaseFiles" by (simp add: DatabaseFiles_def)
      show "?J v' \<and> points P v' = t"
        by (rule step [OF that v']) (use owner(3) [OF db] owner(1,2) in auto)
      then show "?J v' \<and> points P v' = t" .
    qed (auto intro!: confined_rules)
    then show ?thesis using that by (simp add: ignoreE_def wp_simps)
  qed
  have 4: "wp (clearPending E P) (\<lambda>_. finish_state P f t m w0 (True, None)) (\<lambda>_ v. ?J v) v"
    if "?J v \<and> points P v = t" for v
    unfolding clearPending_def
  proof (rule wp_mono [OF wp_clearMarker [OF assms(1)]])
    let ?p = "homeFile P pendingFile"
    fix v' assume v': "cont v' ?p = None \<and> confined {?p} v v'"
    have "handedOver f t v'"
      by (rule handedOver_outside [OF assms(2), of v "{?p}"])
        (use that v' marker_outside [OF assms(2), of pendingFile] in \<open>auto simp: G_def\<close>)
    then show "finish_state P f t m w0 (True, None) v'"
      using v' same [of ?p v v'] names that by (simp add: finish_state_def pend_def)
  next
    fix v' assume "confined {} v v'"
    then show "?J v'" using that step [of v "[]" v'] by (auto simp: G_def handedOver_def pend_def confined_def plain_pointer_def)
  qed
  show ?thesis
    unfolding switchPointer_def Let_def wp_orFail wp_bindE wp_returnE m(1)
    by (rule wp_mono [OF 1], rule wp_mono [OF 2], assumption, rule wp_mono [OF 3], assumption, rule wp_mono [OF 4],
        assumption) (assumption | rule failed)+
qed

text \<open>A step that spared the markers leaves a start that can only be given up.\<close>

definition unmoved :: "data_ports \<Rightarrow> mods_world \<Rightarrow> mods_world \<Rightarrow> bool" where
  "unmoved P w w' \<longleftrightarrow> confined (- {homeFile P pointerFile, homeFile P pendingFile}) w w'"

lemma unmovedI: "confined S w w' \<Longrightarrow> homeFile P pointerFile \<notin> S \<Longrightarrow> homeFile P pendingFile \<notin> S \<Longrightarrow> unmoved P w w'"
  by (auto simp: unmoved_def confined_def)

lemma unmoved_trans: "unmoved P w w1 \<Longrightarrow> unmoved P w1 w2 \<Longrightarrow> unmoved P w w2"
  by (simp add: unmoved_def confined_def)

lemma unmovedD:
  "unmoved P w w' \<Longrightarrow> points P w' = points P w" "unmoved P w w' \<Longrightarrow> pend P w' = pend P w"
  "unmoved P w w' \<Longrightarrow> plain_pointer P w' = plain_pointer P w"
  by (auto simp: unmoved_def confined_def pend_def intro!: pointer_cont)

lemma finish_state_given_up:
  assumes "unmoved P w w'" "plain_pointer P w" "pend P w = Some (MarkerJson m)" "rk_committed m \<longrightarrow> committed"
  shows "finish_state P f t m w (committed, Some e) w'"
  using assms unmovedD [OF assms(1)] by (auto simp: finish_state_def)

lemma wp_publishCopy:
  assumes "truthful E" "move_site P f t c" "move_marker f t c m" "unmoved P w0 w"
    and "plain_pointer P w0" "pend P w0 = Some (MarkerJson m)" "cont w c = None"
    and "target = c \<and> committed = rk_committed m \<or> target = t \<and> committed" "handedOver f target w"
  shows "wp (publishCopy E P m target committed) (finish_state P f t m w0) (\<lambda>_ _. False) w"
proof -
  let ?m = "m\<lparr>rk_committed := True\<rparr>"
  have m: "rk_to m = t" using assms(3) by (auto simp: move_marker_def)
  have c: "rk_committed m \<longrightarrow> committed" using assms(8) by auto
  have inc: "incomparable c t" using assms(2) by (simp add: move_site_def)
  have roots: "\<exists>es. root_path c es" "\<exists>es. root_path t es" using assms(2) by (auto simp: move_site_def)
  have clean: "Clean c = c" "Clean t = t" using roots Clean_abs_path by (auto simp: root_path_def)
  have ct: "c \<noteq> t" using inc by (auto simp: incomparable_def apart_def)
  have up: "wp (returnE (committed, Some e)) (finish_state P f t m w0) (\<lambda>_ _. False) v" if "unmoved P w0 v" for e v
    unfolding wp_returnE by (rule finish_state_given_up [OF that assms(5,6) c])
  note switch = wp_switchPointer [OF assms(1-3)]
  have homes: "homeFile P k \<notin> subtree c" "homeFile P k \<notin> subtree t" if "k \<in> set markerNames" for k
    using assms(2) that by (auto simp: move_site_def)
  have t: "t \<in> subtree t" by (simp add: subtree_def)
  show ?thesis
  proof (cases "target = c")
    case False
    then have "target = t" "committed" using assms(8) by auto
    moreover have "wp (switchPointer E P m True) (finish_state P f t m w0) (\<lambda>_ _. False) w"
      by (rule switch) (use assms(5,6,9) unmovedD [OF assms(4)] \<open>target = t\<close> in simp_all)
    ultimately show ?thesis using m by (simp add: publishCopy_def)
  next
    case True
    have last: "wp (orFail (writePending E P ?m) (\<lambda>e. returnE (True, Some e)) (\<lambda>_. switchPointer E P m True))
        (finish_state P f t m w0) (\<lambda>_ _. False) v" if "unmoved P w0 v" "handedOver f t v" for v
      unfolding wp_orFail writePending_def
    proof (rule wp_mono [OF wp_atomicWrite_cont])
      let ?p = "homeFile P pendingFile"
      have kept: "handedOver f t v' \<and> points P v' = points P w0 \<and> plain_pointer P v'" if v': "confined {?p} v v'" for v'
      proof -
        have "handedOver f t v'"
          by (rule handedOver_outside [OF assms(2) \<open>handedOver f t v\<close> v'])
            (use marker_outside [OF assms(2), of pendingFile] in auto)
        moreover have "cont v' (homeFile P pointerFile) = cont v (homeFile P pointerFile)"
          using v' site_markers [OF assms(2), of pointerFile pendingFile] by (auto simp: confined_def)
        ultimately show ?thesis
          using pointer_cont(1,2) unmovedD [OF \<open>unmoved P w0 v\<close>] assms(5) by metis
      qed
      show "wp (switchPointer E P m True) (finish_state P f t m w0) (\<lambda>_ _. False) v'"
        if "cont v' ?p = Some (MarkerJson ?m) \<and> confined {?p} v v'" for v'
        using that kept by (intro switch) (auto simp: pend_def)
      show "wp (returnE (True, Some e)) (finish_state P f t m w0) (\<lambda>_ _. False) v'"
        if "(cont v' ?p = cont v ?p \<or> cont v' ?p = Some (MarkerJson ?m)) \<and> confined {?p} v v'" for e v'
        using that kept unmovedD(2) [OF \<open>unmoved P w0 v\<close>] assms(6) by (auto simp: wp_simps finish_state_def pend_def)
    qed
    have 1: "wp (removeIfThere E t) (\<lambda>_ v. confined {t} w v) (\<lambda>_ v. confined {t} w v) w"
      unfolding removeIfThere_def by (rule wp_confined) (auto intro!: confined_rules)
    have rest: "wp (renameE E c t) (\<lambda>_. wp (orFail (writePending E P ?m) (\<lambda>e. returnE (True, Some e))
          (\<lambda>_. switchPointer E P m True)) (finish_state P f t m w0) (\<lambda>_ _. False))
        (\<lambda>e. wp (bindE (if rk_created m then returnE () else ignoreE (mkdirE E t)) (\<lambda>_. returnE (committed, Some e)))
          (finish_state P f t m w0) (\<lambda>_ _. False)) v" if v: "confined {t} w v" for v
    proof -
      have u: "unmoved P w0 v"
        by (rule unmoved_trans [OF assms(4) unmovedI [OF v]]) (use homes(2) t in auto)
      have "c \<notin> {t}" using ct by simp
      with v assms(7) have gone: "cont v c = None" by (auto simp: confined_def)
      have hand: "handedOver f c v"
        using assms(9) True v t site_facts(2,3) [OF assms(2)] incomparable_disjoint [OF inc]
        unfolding handedOver_def confined_def by (metis singletonD)
      show ?thesis
      proof (rule wp_mono [OF wp_renameE_copy [OF inc gone]])
        fix v' assume v': "confined (subtree c \<union> subtree t) v v' \<and> cont v' c = None \<and>
            (\<forall>r. r \<noteq> [] \<longrightarrow> cont v' (t @ ''/'' @ r) = cont v (c @ ''/'' @ r))"
        show "wp (orFail (writePending E P ?m) (\<lambda>e. returnE (True, Some e))
          (\<lambda>_. switchPointer E P m True)) (finish_state P f t m w0) (\<lambda>_ _. False) v'"
        proof (rule last)
          show "handedOver f t v'" using handedOver_renamed [OF assms(2) hand] v' by blast
          show "unmoved P w0 v'"
            by (rule unmoved_trans [OF u unmovedI]) (use v' homes in auto)
        qed
      next
        fix e v' assume v': "confined {} v v'"
        have u': "unmoved P w0 v2" if "confined {} v' v2" for v2
          by (rule unmoved_trans [OF u unmovedI [of "{}"]]) (use v' that in \<open>auto simp: confined_def\<close>)
        have "wp (mkdirE E t) (\<lambda>_ v. confined {} v' v) (\<lambda>_ v. confined {} v' v) v'"
          by (rule wp_confined) (auto intro!: confined_rules)
        then show "wp (bindE (if rk_created m then returnE () else ignoreE (mkdirE E t)) (\<lambda>_. returnE (committed, Some e)))
          (finish_state P f t m w0) (\<lambda>_ _. False) v'"
          unfolding wp_bindE wp_if ignoreE_def wp_catchE wp_returnE [of "()"]
          by (auto elim!: wp_mono intro!: up u')
      qed
    qed
    have failing: "unmoved P w0 v" if "confined {t} w v" for v
      by (rule unmoved_trans [OF assms(4) unmovedI [OF that]]) (use homes(2) t in auto)
    show ?thesis
      unfolding publishCopy_def Let_def m True clean if_not_P [OF ct]
        wp_orFail [of "removeIfThere E t"] wp_orFail [of "renameE E c t"]
      by (rule wp_mono [OF 1], erule rest, rule up, erule failing)
  qed
qed

lemma wp_finishPending:
  assumes "truthful E" "move_site P f t c" "move_marker f t c m"
    and "plain_pointer P w" "pend P w = Some (MarkerJson m)" "cont w c = None"
  shows "wp (finishPending E P m) (finish_state P f t m w) (\<lambda>_ _. False) w"
proof -
  have m: "rk_from m = f" "rk_to m = t" "rk_copy m = c" "copyTargetOf m = c" "c \<noteq> []"
    using assms(2,3) by (auto simp: move_marker_def copyTargetOf_def move_site_def incomparable_def proper_def)
  have up: "wp (returnE (committed, Some e)) (finish_state P f t m w) (\<lambda>_ _. False) v"
    if "unmoved P w v" "rk_committed m \<longrightarrow> committed" for e v committed
    unfolding wp_returnE by (rule finish_state_given_up [OF that(1) assms(4,5) that(2)])
  let ?found = "\<lambda>(target, committed). target = c \<and> committed = rk_committed m \<or> target = t \<and> committed"
  have "evolves (confined {}) (stagedCopy E P m)"
    unfolding stagedCopy_def relocationTargetOwned_def Current_def readMarkerFile_def
    by (auto intro!: confined_rules)
  moreover have "yields ?found (stagedCopy E P m)"
    unfolding stagedCopy_def m using m(5) by (auto intro!: yield_rules)
  ultimately have staged: "wp (bindE (statE E f) (\<lambda>_. stagedCopy E P m))
      (\<lambda>x v. ?found x \<and> confined {} w v) (\<lambda>_ v. confined {} w v) w"
    unfolding wp_bindE
    by (intro wp_confined [where m = "statE E f" and T = "{}"])
      (auto intro!: confined_rules wpI dest: yieldsD evolvesD simp: confined_def)
  have empty: "unmoved P w v" if "confined {} w v" for v by (rule unmovedI [OF that]) auto
  have roots: "\<exists>es. root_path c es" "\<exists>es. root_path t es" using assms(2) by (auto simp: move_site_def)
  have inc: "incomparable c t" using assms(2) by (simp add: move_site_def)
  have rest: "wp (handOver E f target) (\<lambda>_. wp (publishCopy E P m target committed) (finish_state P f t m w) (\<lambda>_ _. False))
      (\<lambda>e. wp (returnE (committed, Some e)) (finish_state P f t m w) (\<lambda>_ _. False)) v"
    if found: "?found (target, committed)" and v: "confined {} w v" for target committed v
  proof -
    have target: "\<exists>es. root_path target es" "target = c \<or> target = t" using roots found by auto
    have files: "JoinPath [f, n] \<notin> beneath target \<and> JoinPath [target, n] \<in> beneath target" if n: "n \<in> set DatabaseFiles" for n
      using site_facts(1,2) [OF assms(2) n] target file_below(1) [of target _ n] marker_names_plain [of n] n
      by (auto simp: beneath_def subtree_def)
    have homes: "homeFile P k \<notin> beneath target" if "k \<in> set markerNames" for k
      using assms(2) that target(2) by (auto simp: move_site_def beneath_def subtree_def)
    have c: "c \<notin> beneath target"
      using target(2) incomparable_apart [OF inc, of c] under_irrefl [of c]
      by (auto simp: beneath_def apart_def under_def)
    have after: "unmoved P w v' \<and> cont v' c = None" if v': "confined (beneath target) v v'" for v'
    proof
      show "unmoved P w v'"
        by (rule unmoved_trans [OF empty [OF v] unmovedI [OF v']]) (use homes in auto)
      show "cont v' c = None" using v v' c assms(6) by (auto simp: confined_def)
    qed
    show ?thesis
    proof (rule wp_mono [OF wp_handOver [OF assms(1) files target(1)]])
      fix v' assume v': "confined (beneath target) v v' \<and> handedOver f target v'"
      show "wp (publishCopy E P m target committed) (finish_state P f t m w) (\<lambda>_ _. False) v'"
        by (rule wp_publishCopy [OF assms(1-3) _ assms(4,5)]) (use v' after found in auto)
    next
      fix e v' assume "confined (beneath target) v v'"
      then show "wp (returnE (committed, Some e)) (finish_state P f t m w) (\<lambda>_ _. False) v'"
        using after found by (intro up) auto
    qed
  qed
  show ?thesis
    unfolding finishPending_def m wp_orFail [of "bindE (statE E f) (\<lambda>_. stagedCopy E P m)"]
  proof (rule wp_mono [OF staged])
    fix x v assume x: "?found x \<and> confined {} w v"
    obtain target committed where "x = (target, committed)" by (cases x)
    with x rest [of target committed v]
    show "wp (case x of (target, committed) \<Rightarrow> orFail (handOver E f target)
        (\<lambda>e. returnE (committed, Some e)) (\<lambda>_. publishCopy E P m target committed))
      (finish_state P f t m w) (\<lambda>_ _. False) v"
      by (simp add: wp_orFail)
  next
    fix e v assume "confined {} w v"
    then show "wp (returnE (rk_committed m, Some e)) (finish_state P f t m w) (\<lambda>_ _. False) v"
      by (intro up empty) simp_all
  qed
qed

text \<open>Giving up clears the pending marker at most.\<close>

definition gives_up :: "data_ports \<Rightarrow> mods_world \<Rightarrow> mods_world \<Rightarrow> bool" where
  "gives_up P w w' \<longleftrightarrow> points P w' = points P w \<and> plain_pointer P w' = plain_pointer P w \<and>
     (pend P w' = None \<or> pend P w' = pend P w)"

lemma tick_free_gives_up [simp]: "tick_free (gives_up P)"
  by (auto simp: tick_free_def preorder_rel_def reflp_def transp_def gives_up_def points_def plain_pointer_def pend_def)

lemma evolves_gives_up:
  assumes "evolves (confined T) m" "homeFile P pointerFile \<notin> T" "homeFile P pendingFile \<notin> T"
  shows "evolves (gives_up P) m"
proof -
  have "gives_up P w w'" if "confined T w w'" for w w'
    using unmovedD [OF unmovedI [OF that assms(2,3)]] by (simp add: gives_up_def)
  with assms(1) show ?thesis by (simp add: evolves_def)
qed

lemma evolves_clearPending:
  assumes "homeFile P pointerFile \<noteq> homeFile P pendingFile" shows "evolves (gives_up P) (clearPending E P)"
proof -
  let ?p = "homeFile P pendingFile"
  have "gives_up P w (snd (removeE E ?p w))" for w
  proof -
    have "cont (snd (removeE E ?p w)) q = cont w q" if "q \<noteq> ?p" for q
      using that confined_ports(7) [of ?p "{?p}" E] by (auto simp: evolves_def confined_def)
    moreover have "cont (snd (removeE E ?p w)) ?p = None \<or> cont (snd (removeE E ?p w)) ?p = cont w ?p"
      by (auto simp: removeE_def fsE_def callE_def osRemove_def cont_def split: option.split node.split)
    ultimately show ?thesis
      using assms by (auto simp: gives_up_def pend_def intro!: pointer_cont)
  qed
  then have "evolves (gives_up P) (removeE E ?p)" by (simp add: evolves_def)
  then show ?thesis unfolding clearPending_def clearMarker_def by (auto intro!: evolve_rules)
qed

lemma fallBack_outcome:
  assumes "move_site P f t c" "move_marker f t c m"
  shows "evolves (gives_up P) (fallBack E P m current e)" "yields (\<lambda>root. root = current) (fallBack E P m current e)"
    "evolves (moves c (places P t c)) (fallBack E P m current e)"
proof -
  have c: "rk_copy m = c" "c \<noteq> []" "copyTargetOf m = c"
    using assms by (auto simp: move_marker_def move_site_def incomparable_def proper_def copyTargetOf_def)
  have clean: "cleanRelocationTarget E m = removeAllE E c" using c by (simp add: cleanRelocationTarget_def)
  note names = site_markers [OF assms(1)]
  have homes: "homeFile P k \<notin> subtree c" if "k \<in> set markerNames" for k
    using assms(1) that by (auto simp: move_site_def)
  have error: "evolves (confined {homeFile P errorFile}) (relocationError E P e)"
    unfolding relocationError_def writeError_def writeMarker_def by (auto intro!: confined_rules)
  have valid: "evolves (confined {}) (validatePointerTarget E P current)"
    unfolding validatePointerTarget_def readMarkerFile_def by (auto intro!: confined_rules)
  have clear: "evolves (confined {homeFile P pendingFile}) (clearPending E P)"
    unfolding clearPending_def clearMarker_def by (auto intro!: confined_rules)
  have "evolves (gives_up P) (removeAllE E c)"
    by (rule evolves_gives_up [OF confined_ports(8) [OF order_refl]]) (simp_all add: homes)
  moreover have "evolves (gives_up P) (clearPending E P)"
    by (rule evolves_clearPending) (simp add: names)
  moreover have "evolves (gives_up P) (relocationError E P e)" "evolves (gives_up P) (validatePointerTarget E P current)"
    by (rule evolves_gives_up [OF error], simp_all add: names, rule evolves_gives_up [OF valid], simp_all)
  ultimately show "evolves (gives_up P) (fallBack E P m current e)"
    unfolding fallBack_def clean by (intro evolves_bindE evolves_orFail evolves_ignoreE evolves_returnE) simp_all
  show "yields (\<lambda>root. root = current) (fallBack E P m current e)"
    unfolding fallBack_def validatePointerTarget_def by (auto intro!: yield_rules)
  have in_places: "evolves (moves c (places P t c)) a" if "evolves (confined S) a" "S \<subseteq> places P t c - {c}"
    for S and a :: "'a act"
    using that by (intro evolves_moves) (auto simp: evolves_def intro: confined_mono)
  note p = places_facts [OF assms(1)]
  have "evolves (moves c (places P t c)) (clearPending E P)" "evolves (moves c (places P t c)) (relocationError E P e)"
    "evolves (moves c (places P t c)) (validatePointerTarget E P current)"
    using in_places [OF clear] in_places [OF error] in_places [OF valid] p(4) by auto
  then show "evolves (moves c (places P t c)) (fallBack E P m current e)"
    unfolding fallBack_def clean
    by (intro evolves_bindE evolves_orFail evolves_ignoreE evolves_returnE copy_removed) simp_all
qed

lemma evolves_forE_in:
  "preorder_rel R \<Longrightarrow> (\<And>x. x \<in> set xs \<Longrightarrow> evolves R (f x)) \<Longrightarrow> evolves R (forE xs f)"
  by (induction xs) (auto intro!: evolve_rules)

lemma copy_renamed:
  assumes "move_site P f t c" shows "evolves (moves c (places P t c)) (renameE E c t)"
  unfolding evolves_def
proof
  fix w
  have inc: "incomparable c t" using assms by (simp add: move_site_def)
  have sub: "subtree c \<subseteq> places P t c" "subtree t \<subseteq> places P t c" by (auto simp: places_def)
  have "cont (snd (renameE E c t w)) c = None" if "cont w c = None"
    using wp_renameE_copy [OF inc that, of E]
    by (auto simp: wp_def confined_def that split: prod.splits sum.splits)
  with confined_ports(9) [OF sub, of E] show "moves c (places P t c) w (snd (renameE E c t w))"
    by (simp add: moves_def evolves_def)
qed

lemma finishPending_moves:
  assumes "move_site P f t c" "move_marker f t c m"
  shows "evolves (moves c (places P t c)) (finishPending E P m)"
proof -
  have m: "rk_from m = f" "rk_to m = t" "rk_copy m = c" "copyTargetOf m = c" "c \<noteq> []" "plain (rk_owner m)"
    using assms by (auto simp: move_marker_def copyTargetOf_def move_site_def incomparable_def proper_def)
  note p = places_facts [OF assms(1)]
  have spare: "evolves (moves c (places P t c)) a" if "evolves (confined S) a" "S \<subseteq> places P t c - {c}"
    for S and a :: "'a act"
    using that by (intro evolves_moves) (auto simp: evolves_def intro: confined_mono)
  obtain ts cs where roots: "root_path t ts" "root_path c cs" using assms(1) by (auto simp: move_site_def)
  have owner: "JoinPath [t, rk_owner m] \<in> subtree t" by (rule file_below [OF roots(1) m(6)])
  have t: "t \<in> subtree t" by (simp add: subtree_def)
  have homes: "homeFile P ` set markerNames \<subseteq> places P t c - {c}" using p(4) by auto
  have "evolves (confined {}) (stagedCopy E P m)"
    unfolding stagedCopy_def relocationTargetOwned_def Current_def readMarkerFile_def by (auto intro!: confined_rules)
  then have staged: "evolves (moves c (places P t c)) (stagedCopy E P m)" by (rule spare) simp
  have target: "target = c \<or> target = t" if "stagedCopy E P m w = (Inr (target, b), w')" for target b w w'
  proof -
    have "yields (\<lambda>(target, _). target = c \<or> target = t) (stagedCopy E P m)"
      unfolding stagedCopy_def m using m(5) by (auto intro!: yield_rules)
    from yieldsD [OF this that] show ?thesis by simp
  qed
  have hand: "evolves (moves c (places P t c)) (handOver E f d)" if d: "d = c \<or> d = t" for d
  proof (rule spare)
    have "JoinPath [d, n] \<in> beneath d" if "n \<in> set DatabaseFiles" for n
      using d roots file_below(1) [of d _ n] marker_names_plain [of n] that by (auto simp: beneath_def)
    then have "evolves (confined (beneath d)) (handOverFile E f d n)" if "n \<in> set DatabaseFiles" for n
      unfolding handOverFile_def copyFileE_def using that by (auto intro!: confined_rules)
    then have "evolves (confined (beneath d)) (forE DatabaseFiles (handOverFile E f d))"
      by (intro evolves_forE_in) simp_all
    then show "evolves (confined (beneath d)) (handOver E f d)"
      unfolding handOver_def by (auto intro!: confined_rules)
    show "beneath d \<subseteq> places P t c - {c}" using d p(1,2) by (auto simp: beneath_def subtree_def)
  qed
  have switch: "evolves (moves c (places P t c)) (switchPointer E P m b)" for b
  proof (rule spare)
    show "evolves (confined (homeFile P ` set markerNames \<union> subtree t)) (switchPointer E P m b)"
      unfolding switchPointer_def Let_def m writeMarker_def clearPending_def clearMarker_def
      using owner by (auto intro!: confined_rules)
    show "homeFile P ` set markerNames \<union> subtree t \<subseteq> places P t c - {c}" using homes p(2) by auto
  qed
  have noted: "evolves (moves c (places P t c)) (writePending E P m')" for m'
    by (rule spare [of "homeFile P ` set markerNames"])
      (use homes in \<open>auto simp: writePending_def intro!: confined_rules\<close>)
  have remove: "evolves (moves c (places P t c)) (removeIfThere E t)"
    by (rule spare [of "subtree t"]) (use t p(2) in \<open>auto simp: removeIfThere_def intro!: confined_rules\<close>)
  have mkdir: "evolves (moves c (places P t c)) (mkdirE E t)" "evolves (moves c (places P t c)) (statE E f)"
    by (rule spare [of "{}"], auto intro!: confined_rules)+
  have publish: "evolves (moves c (places P t c)) (publishCopy E P m d b)" if "d = c \<or> d = t" for d b
  proof (cases "Clean d = Clean t")
    case True
    then show ?thesis unfolding publishCopy_def Let_def m by (simp add: switch)
  next
    case False
    then have "d = c" using that by auto
    then show ?thesis
      unfolding publishCopy_def Let_def m if_not_P [OF False]
      by (intro evolves_orFail evolves_bindE evolves_if evolves_ignoreE evolves_returnE)
        (simp_all add: switch noted remove mkdir copy_renamed [OF assms(1)])
  qed
  have yielded: "yields (\<lambda>(d, _). d = c \<or> d = t) (bindE (statE E f) (\<lambda>_. stagedCopy E P m))"
    by (rule yields_bindE) (auto simp: yields_def dest: target)
  show ?thesis
    unfolding finishPending_def m
    by (rule evolves_orFail_from [OF _ evolves_bindE yielded])
      (auto intro!: evolves_orFail evolves_returnE mkdir staged hand publish)
qed

text \<open>A start that finds the marker of a finished copy.\<close>

definition found_marker :: "data_ports \<Rightarrow> string \<Rightarrow> string \<Rightarrow> string \<Rightarrow> relocation_marker \<Rightarrow> mods_world \<Rightarrow> bool" where
  "found_marker P f t c m w \<longleftrightarrow> move_site P f t c \<and> move_marker f t c m \<and> plain_pointer P w \<and>
     pend P w = Some (MarkerJson m) \<and> cont w c = None"

definition start_state ::
  "data_ports \<Rightarrow> string \<Rightarrow> string \<Rightarrow> relocation_marker \<Rightarrow> mods_world \<Rightarrow> mods_world \<Rightarrow> bool" where
  "start_state P f t m w w' \<longleftrightarrow> plain_pointer P w' \<and> (points P w' = points P w \<or> handedOver f t w') \<and>
     pend P w' \<in> {None, Some (MarkerJson m), Some (MarkerJson (m\<lparr>rk_committed := True\<rparr>))} \<and>
     (rk_committed m \<longrightarrow> pend P w' = Some (MarkerJson m))"

definition answered ::
  "data_ports \<Rightarrow> string \<Rightarrow> string \<Rightarrow> relocation_marker \<Rightarrow> mods_world \<Rightarrow> string \<Rightarrow> mods_world \<Rightarrow> bool" where
  "answered P f t m w dir w' \<longleftrightarrow>
     dir = t \<and> points P w' = t \<and> pend P w' = None \<and> handedOver f t w' \<or>
     dir = currentRoot P w \<and> points P w' = points P w \<and> \<not> rk_committed m"

lemma wp_PrepareStartup:
  assumes "truthful E" "found_marker P f t c m w"
  shows "wp (PrepareStartup E P)
     (\<lambda>dir w'. answered P f t m w dir w' \<and> moves c (places P t c) w w')
     (\<lambda>_ w'. start_state P f t m w w' \<and> moves c (places P t c) w w') w"
proof -
  have site: "move_site P f t c" "move_marker f t c m" and w: "plain_pointer P w" "pend P w = Some (MarkerJson m)" "cont w c = None"
    using assms(2) by (auto simp: found_marker_def)
  have phase: "rk_phase m = PhaseFinalize" "PhaseFinalize \<noteq> PhaseCopy" "rk_to m = t"
    using site(2) by (auto simp: move_marker_def)
  let ?M = "moves c (places P t c)"
  let ?Q = "\<lambda>dir w'. answered P f t m w dir w' \<and> ?M w w'"
  let ?X = "\<lambda>_ w'. start_state P f t m w w' \<and> ?M w w'"
  define same where "same v \<longleftrightarrow> confined {} w v" for v
  have sameD: "?M w v" "points P v = points P w" "pend P v = pend P w" "plain_pointer P v" "cont v c = None"
    "currentRoot P v = currentRoot P w" if "same v" for v
    using that w unmovedD [OF unmovedI [of "{}" w v P]]
    by (auto simp: same_def moves_def currentRoot_def) (auto simp: confined_def)
  have quiet: "?X e v" if "same v" for e v
    using sameD [OF that] w by (simp add: start_state_def)
  note trans = preorder_trans [OF tick_free_preorder [OF tick_free_moves [of c "places P t c"]]]
  have committed: "wp (bindE (relocationError E P e) (\<lambda>_. throwE e)) ?Q ?X v"
    if v: "finish_state P f t m u (True, Some e) v" "?M w v" "points P u = points P w" "pend P u = pend P w" for e v u
  proof -
    have "evolves (confined {homeFile P errorFile}) (relocationError E P e)"
      unfolding relocationError_def writeError_def writeMarker_def by (auto intro!: confined_rules)
    then have "wp (relocationError E P e) (\<lambda>_. ?X e) ?X v"
    proof (rule wp_confined)
      fix v' assume v': "confined {homeFile P errorFile} v v'"
      note names = site_markers [OF site(1)]
      have u: "unmoved P v v'" by (rule unmovedI [OF v']) (simp_all add: names)
      have "handedOver f t v'" if "handedOver f t v"
        by (rule handedOver_outside [OF site(1) that v']) (use marker_outside [OF site(1), of errorFile] in auto)
      moreover have "?M v v'"
        using moves_in [OF v'] places_facts(4) [OF site(1), of errorFile] by simp
      ultimately show "?X e v'" using v unmovedD [OF u] trans [OF v(2)]
        by (auto simp: finish_state_def start_state_def)
      then show "?X e' v'" for e' .
    qed
    then show ?thesis unfolding wp_bindE by (rule wp_mono) (simp_all add: wp_throwE)
  qed
  have given_up: "wp (fallBack E P m (currentRoot P w) e) ?Q ?X v"
    if v: "plain_pointer P v" "points P v = points P w" "pend P v = pend P w" "?M w v" "\<not> rk_committed m" for e v
  proof (rule wpI)
    note out = fallBack_outcome [OF site]
    fix r v' assume run: "fallBack E P m (currentRoot P w) e v = (Inr r, v')"
    show "?Q r v'"
      using yieldsD [OF out(2) run] evolvesD [OF out(1) run] trans [OF v(4) evolvesD [OF out(3) run]] v
      by (simp add: answered_def gives_up_def)
  next
    note out = fallBack_outcome [OF site]
    fix e' v' assume run: "fallBack E P m (currentRoot P w) e v = (Inl e', v')"
    show "?X e' v'"
      using evolvesD [OF out(1) run] trans [OF v(4) evolvesD [OF out(3) run]] v w
      by (auto simp: start_state_def gives_up_def)
  qed
  have start: "wp (startPending E P m (currentRoot P w)) ?Q ?X u" if u: "same u" for u
  proof -
    have fin: "wp (finishPending E P m) (\<lambda>out v. finish_state P f t m u out v \<and> ?M w v) (\<lambda>_ _. False) u"
    proof -
      have run: "wp (finishPending E P m) (finish_state P f t m u) (\<lambda>_ _. False) u"
        by (rule wp_finishPending [OF assms(1) site]) (use sameD [OF u] w in simp_all)
      obtain r v where r: "finishPending E P m u = (r, v)" by fastforce
      have "?M w v" by (rule trans [OF sameD(1) [OF u] evolvesD [OF finishPending_moves [OF site] r]])
      with run r show ?thesis by (auto simp: wp_def split: sum.splits)
    qed
    have step: "wp (case out of (committed, err) \<Rightarrow> case err of None \<Rightarrow> returnE t
           | Some e \<Rightarrow> (if committed then bindE (relocationError E P e) (\<lambda>_. throwE e)
                       else fallBack E P m (currentRoot P w) e)) ?Q ?X v"
      if fs: "finish_state P f t m u out v \<and> ?M w v" for out v
    proof (cases out)
      case (Pair b err)
      show ?thesis
      proof (cases err)
        case None
        with fs Pair phase show ?thesis by (simp add: wp_simps finish_state_def answered_def)
      next
        case (Some e)
        show ?thesis
        proof (cases b)
          case True
          with fs Pair Some sameD [OF u] committed [of u e v] show ?thesis by simp
        next
          case False
          with fs Pair Some sameD [OF u] show ?thesis
            by (auto simp: finish_state_def intro!: given_up)
        qed
      qed
    qed
    show ?thesis
      unfolding startPending_def phase wp_bindE if_not_P [OF phase(2)] if_P [OF refl]
      by (rule wp_mono [OF fin step]) simp_all
  qed
  have tick: "same v \<Longrightarrow> same (tick v)" for v by (simp add: same_def)
  have pending: "wp (Pending E P) (\<lambda>pending. wp (bindE (Current E P) (\<lambda>current. case pending of
       None \<Rightarrow> validatePointerTarget E P current | Some m \<Rightarrow> startPending E P m current)) ?Q ?X) ?X v"
    if v: "same v" for v
  proof (rule wp_Pending [OF assms(1)])
    fix m' assume "pend P v = Some (MarkerJson m')"
    with sameD(3) [OF v] w(2) have "m' = m" by simp
    moreover have "currentRoot P (tick v) = currentRoot P w" using sameD(6) [OF tick [OF v]] .
    ultimately show "wp (bindE (Current E P) (\<lambda>current. case Some m' of
       None \<Rightarrow> validatePointerTarget E P current | Some m \<Rightarrow> startPending E P m current)) ?Q ?X (tick v)"
      unfolding wp_bindE
      by (intro wp_Current [OF assms(1)])
        (use sameD(4) [OF tick [OF v]] start [OF tick [OF tick [OF v]]] quiet [OF tick [OF tick [OF v]]] in simp_all)
  qed (use sameD(3) [OF v] w(2) quiet [OF tick [OF v]] in simp_all)
  show ?thesis
    unfolding PrepareStartup_def wp_bindE [of "mkdirE E (dp_home P)"] wp_bindE [of "Pending E P"]
    by (rule wp_confined [where T = "{}"]) (auto intro!: confined_rules pending quiet simp: same_def)
qed

lemma source_kept:
  assumes "move_site P f t c" "moves c (places P t c) w w'" "n \<in> set DatabaseFiles"
  shows "cont w' (JoinPath [f, n]) = cont w (JoinPath [f, n])"
proof -
  have "JoinPath [f, n] \<notin> places P t c"
    using site_facts(1,2) [OF assms(1,3)] marker_outside(1) [OF assms(1) _ assms(3)] by (auto simp: places_def)
  with assms(2) show ?thesis by (simp add: moves_def confined_def)
qed

lemma committed_id: "rk_committed m \<Longrightarrow> m\<lparr>rk_committed := True\<rparr> = m"
  by (cases m) simp


text \<open>Starts that all fail, one after the other.\<close>

inductive failing_starts :: "data_ports \<Rightarrow> mods_world \<Rightarrow> mods_world \<Rightarrow> bool" for P w where
  no_start: "failing_starts P w w"
| failed_start: "failing_starts P w v \<Longrightarrow> truthful E \<Longrightarrow> PrepareStartup E P v = (Inl e, v') \<Longrightarrow> failing_starts P w v'"

lemma failing_starts_committed:
  assumes "failing_starts P w v" "found_marker P f t c m w" "rk_committed m"
  shows "found_marker P f t c m v \<and> (\<forall>n \<in> set DatabaseFiles. cont v (JoinPath [f, n]) = cont w (JoinPath [f, n]))"
  using assms(1)
proof induction
  case (failed_start v E e v')
  then have v: "found_marker P f t c m v" and db: "\<forall>n \<in> set DatabaseFiles. cont v (JoinPath [f, n]) = cont w (JoinPath [f, n])"
    by auto
  from wp_InlD [OF wp_PrepareStartup [OF failed_start.hyps(2) v] failed_start.hyps(3)]
  have "start_state P f t m v v'" "moves c (places P t c) v v'" by auto
  moreover have "move_site P f t c" using v by (simp add: found_marker_def)
  ultimately show ?case
    using v db source_kept assms(3) by (auto simp: found_marker_def start_state_def moves_def)
qed (use assms in simp)

text \<open>
  C11 (liveness).  Once the marker says that the move is committed, every start fails or finishes
  the move: after any number of failing starts, the first one that answers names the new folder,
  whose database files are those the old folder had at the first of them.
\<close>

theorem committed_move_finishes:
  assumes "found_marker P f t c m w" "rk_committed m" "failing_starts P w v" "truthful E"
    and "PrepareStartup E P v = (Inr dir, w')"
  shows "dir = t \<and> points P w' = t \<and> pend P w' = None \<and>
    (\<forall>n \<in> set DatabaseFiles. cont w (JoinPath [f, n]) \<noteq> None \<longrightarrow>
       cont w' (JoinPath [t, n]) = cont w (JoinPath [f, n]))"
proof -
  from failing_starts_committed [OF assms(3,1,2)]
  have v: "found_marker P f t c m v" and db: "\<And>n. n \<in> set DatabaseFiles \<Longrightarrow> cont v (JoinPath [f, n]) = cont w (JoinPath [f, n])"
    by auto
  have site: "move_site P f t c" using v by (simp add: found_marker_def)
  from wp_InrD [OF wp_PrepareStartup [OF assms(4) v] assms(5)]
  have out: "answered P f t m v dir w'" and kept: "moves c (places P t c) v w'" by auto
  show ?thesis
    using out assms(2) source_kept [OF site kept] db by (auto simp: answered_def handedOver_def)
qed

text \<open>Runs of a move from \<open>/h\<close> to \<open>/t\<close> with the copy in \<open>/c\<close>, some calls of which fail.\<close>

definition movePorts :: data_ports where
  "movePorts = \<lparr>dp_home = ''/h'', dp_cwd = ''/w'', dp_copy = (\<lambda>n a b t. (Inr (), t)), dp_pid = 7, dp_relaunch = (\<lambda>n. Inr ())\<rparr>"

definition moveMarker :: relocation_marker where
  "moveMarker = finalMarker movePorts (newMarker ''/h'' ''/t'' ''/c'' True)"

definition moveWorld :: "relocation_marker \<Rightarrow> mods_world" where
  "moveWorld m = sampleWorld
     [(''/'', DirNode), (''/h'', DirNode), (''/c'', DirNode),
      (''/h/waxlight.db'', FileNode \<lparr>fd_content = Blob ''rows'', fd_mtime = 1\<rparr>),
      (''/h/data-root-pending'', FileNode \<lparr>fd_content = MarkerJson m, fd_mtime = 2\<rparr>),
      (''/c/.waxlight-relocation-copy-c'', FileNode \<lparr>fd_content = Blob ''/c'', fd_mtime = 3\<rparr>)] []"

definition failingAt :: "nat list \<Rightarrow> env" where
  "failingAt ns = sampleEnv\<lparr>ev_fault := (\<lambda>n. if n \<in> set ns then Some (OtherError ''busy'') else None)\<rparr>"

lemma failingAt_truthful: "truthful (failingAt ns)"
  by (simp add: truthful_def failingAt_def isNotExist_def)

lemma moveWorld_found:
  assumes "m = moveMarker\<lparr>rk_committed := b\<rparr>" shows "found_marker movePorts ''/h'' ''/t'' ''/c'' m (moveWorld m)"
proof -
  have root: "root_path ''/h'' [''h'']" "root_path ''/t'' [''t'']" "root_path ''/c'' [''c'']"
    by (simp_all add: root_path_def abs_path_def plain_def)
  have home: "homeFile movePorts k = ''/h/'' @ k" if "plain k" for k
    using JoinPath_file [OF root(1) that] by (simp add: homeFile_def movePorts_def)
  have names: "\<forall>k \<in> set markerNames. plain k" using marker_names_plain by blast
  have homes: "dp_home movePorts = ''/h''" by (simp add: movePorts_def)
  have "move_site movePorts ''/h'' ''/t'' ''/c''"
    unfolding move_site_def homes
    using root names by (auto simp: home incomparable_def proper_def apart_def below_def HasPrefix_def subtree_def under_def
        TrimSpace_def is_space_def char_code_def)
  moreover have "move_marker ''/h'' ''/t'' ''/c'' m"
    by (simp add: assms moveMarker_def finalMarker_def newMarker_def move_marker_def plain_def DatabaseFiles_def path_eval)
  moreover have "plain_pointer movePorts (moveWorld m)" "pend movePorts (moveWorld m) = Some (MarkerJson m)"
    "cont (moveWorld m) ''/c'' = None"
    using names by (simp_all add: plain_pointer_def pend_def home cont_def moveWorld_def sampleWorld_def fs_node_def)
  ultimately show ?thesis by (simp add: found_marker_def)
qed

lemma moveWorld_points: "points movePorts (moveWorld m) = []"
proof -
  have "root_path ''/h'' [''h'']" by (simp add: root_path_def abs_path_def plain_def)
  then have "homeFile movePorts pointerFile = ''/h/data-root''"
    using JoinPath_file [of "''/h''" _ pointerFile] by (simp add: homeFile_def movePorts_def plain_def)
  then show ?thesis by (simp add: points_def cont_def moveWorld_def sampleWorld_def fs_node_def)
qed


text \<open>A start that fails while it copies the database, and one that finishes.\<close>

abbreviation "committedMarker \<equiv> moveMarker\<lparr>rk_committed := True\<rparr>"

lemma committed_move_finishes_witness:
  "\<exists>v dir w'. failing_starts movePorts (moveWorld committedMarker) v \<and> v \<noteq> moveWorld committedMarker \<and>
     PrepareStartup (failingAt []) movePorts v = (Inr dir, w') \<and>
     dir = ''/t'' \<and> points movePorts w' = ''/t'' \<and> pend movePorts w' = None \<and>
     (\<forall>n \<in> set DatabaseFiles. cont (moveWorld committedMarker) (JoinPath [''/h'', n]) \<noteq> None \<longrightarrow>
       cont w' (JoinPath [''/t'', n]) = cont (moveWorld committedMarker) (JoinPath [''/h'', n]))"
proof -
  let ?first = "PrepareStartup (failingAt [8]) movePorts (moveWorld committedMarker)"
  let ?second = "PrepareStartup (failingAt []) movePorts (snd ?first)"
  have first: "isl (fst ?first) \<and> w_ticks (snd ?first) > 0" by code_simp
  then have starts: "failing_starts movePorts (moveWorld committedMarker) (snd ?first)"
    by (cases ?first) (auto simp: isl_def intro: failing_starts.intros failingAt_truthful)
  have "w_ticks (moveWorld committedMarker) = 0" by (simp add: moveWorld_def sampleWorld_def)
  with first have new: "snd ?first \<noteq> moveWorld committedMarker" by auto
  have "\<not> isl (fst ?second)" by code_simp
  then obtain dir w' where second: "?second = (Inr dir, w')" by (cases ?second; cases "fst ?second") auto
  have committed: "rk_committed committedMarker" by simp
  show ?thesis
    using committed_move_finishes [OF moveWorld_found [OF refl] committed starts failingAt_truthful second]
    by (intro exI conjI) (rule starts, rule new, rule second, simp_all)
qed

text \<open>
  Without the commit in the marker the copy may be used half-written: the launcher points at the new
  folder, an earlier attempt to copy the database again has left it empty, and the old folder cannot
  be read for a moment; the start gives the move up and answers the new folder.
\<close>

definition halfCopied :: mods_world where
  "halfCopied = sampleWorld
     [(''/'', DirNode), (''/h'', DirNode), (''/t'', DirNode),
      (''/h/waxlight.db'', FileNode \<lparr>fd_content = Blob ''rows'', fd_mtime = 1\<rparr>),
      (''/h/data-root'', FileNode \<lparr>fd_content = Blob ''/t'', fd_mtime = 2\<rparr>),
      (''/h/data-root-previous'', FileNode \<lparr>fd_content = Blob ''/h'', fd_mtime = 2\<rparr>),
      (''/h/data-root-pending'', FileNode \<lparr>fd_content = MarkerJson moveMarker, fd_mtime = 2\<rparr>),
      (''/t/waxlight.db'', FileNode \<lparr>fd_content = Blob ''rows'', fd_mtime = 3\<rparr>)] []"

lemma uncommitted_retry_loses_copy:
  "let (r1, w1) = PrepareStartup (failingAt [11]) movePorts halfCopied;
       (r2, w2) = PrepareStartup (failingAt [21]) movePorts w1
   in isl r1 \<and> r2 = Inr ''/t'' \<and> pend movePorts w2 = None \<and> cont w2 ''/t/waxlight.db'' = Some (Blob [])"
  by code_simp

end
