(* ===== verification/InstancePackages.thy ===== *)
theory InstancePackages
  imports Snapshots
begin

text \<open>
  \<open>internal/platform/instancepackage\<close>: writing and reading the archive of a portable instance
  (\<open>pathsecurity.go\<close>, \<open>reader.go\<close>, \<open>writer.go\<close>).  An archive is the list of its entries; their
  content is the bytes, as the length limits see them, with the manifest they decode to, if any.
  Which order a Go map is walked in is the order of the list given for it.  The instance directory
  and the target are absolute paths.
\<close>

abbreviation "ManifestFileName \<equiv> ''manifest.json''"
abbreviation "IconFileName \<equiv> ''icon.png''"
abbreviation "ConfigsPrefix \<equiv> ''configs/''"
abbreviation "ModsPrefix \<equiv> ''mods/''"
abbreviation "clientSettingsName \<equiv> ''clientsettings.json''"

definition maxManifestBytes :: int where "maxManifestBytes = 2 ^ 20"
definition maxConfigBytes :: int where "maxConfigBytes = 16 * 2 ^ 20"
definition maxEmbeddedModBytes :: int where "maxEmbeddedModBytes = 512 * 2 ^ 20"
definition maxTotalUncompressed :: int where "maxTotalUncompressed = 2 * 2 ^ 30"
definition maxEntryCount :: nat where "maxEntryCount = 10000"
definition maxIconBytes :: int where "maxIconBytes = 8 * 2 ^ 20"
definition maxNestedConfigDepth :: nat where "maxNestedConfigDepth = 24"

section \<open>Names of entries\<close>

definition unsafePart :: "string \<Rightarrow> bool" where
  "unsafePart part \<longleftrightarrow> part = [] \<or> part = ''.'' \<or> part = ''..''"

text \<open>\<open>filepath.ToSlash\<close> is the identity on Linux.\<close>

definition CleanArchiveName :: "string \<Rightarrow> string result" where
  "CleanArchiveName name =
     (if name = [] then Inl (NewError ErrPackageSecurity ''Package contains an empty file name'')
      else let clean = TrimSuffix (TrimPrefix name ''./'') ''/''
      in if HasPrefix clean ''/'' \<or> HasPrefix clean ''../'' \<or> clean = ''..''
         then Inl (NewError ErrPackageSecurity ''Package contains an absolute or parent path'')
         else if CHR 0x00 \<in> set clean
         then Inl (NewError ErrPackageSecurity ''Package contains a malformed path'')
         else if list_ex unsafePart (Split clean (CHR ''/''))
         then Inl (NewError ErrPackageSecurity ''Package contains an unsafe path segment'')
         else Inr clean)"

definition isPackageMod :: "string \<Rightarrow> bool" where
  "isPackageMod name \<longleftrightarrow> ToLower (Ext name) \<in> {''.zip'', ''.cs'', ''.dll''}"

definition validateConfigRelative :: "string \<Rightarrow> unit result" where
  "validateConfigRelative relative =
     (if relative = [] then Inl (NewError ErrPackageSecurity ''Package contains an empty config path'')
      else let parts = Split relative (CHR ''/'')
      in if length parts > maxNestedConfigDepth
         then Inl (NewError ErrPackageSecurity ''Package config path is too deep'')
         else if unsafePart (last parts) \<or> list_ex unsafePart parts
         then Inl (NewError ErrPackageSecurity ''Package contains an unsafe config path'')
         else if HasPrefix (ToLower (last parts)) ''.waxlight''
         then Inl (NewError ErrPackageSecurity ''Package contains a launcher metadata file'')
         else Inr ())"

definition ValidateEntryName :: "string \<Rightarrow> string \<Rightarrow> string result" where
  "ValidateEntryName name base =
     (case CleanArchiveName name of
        Inl e \<Rightarrow> Inl e
      | Inr clean \<Rightarrow>
          (if clean = ManifestFileName
           then Inl (NewError ErrPackageSecurity ''Package contains a duplicate manifest'')
           else if clean = IconFileName then Inr (JoinPath [base, IconFileName])
           else if HasPrefix clean ConfigsPrefix
           then (case validateConfigRelative (TrimPrefix clean ConfigsPrefix) of
                   Inl e \<Rightarrow> Inl e
                 | Inr _ \<Rightarrow> Inr (JoinPath [base, TrimPrefix clean ConfigsPrefix]))
           else if HasPrefix clean ModsPrefix
           then (let relative = TrimPrefix clean ModsPrefix
                 in if Base relative \<noteq> relative
                    then Inl (NewError ErrPackageSecurity ''Package contains a mod file in a subdirectory'')
                    else if \<not> isPackageMod relative
                    then Inl (NewError ErrPackageSecurity ''Package contains an unsupported mod file type'')
                    else Inr (JoinPath [base, relative]))
           else Inl (NewError ErrPackageSecurity ''Package contains an unexpected file'')))"

definition entryLimitMessage :: "string \<Rightarrow> go_error" where
  "entryLimitMessage name =
     NewError ErrPackageInvalid (''Package entry '' @ name @ '' exceeds the allowed size'')"

section \<open>Opening a package\<close>

type_synonym zip_entry = "entry_header \<times> content \<times> package_manifest option"

abbreviation ze_name :: "zip_entry \<Rightarrow> string" where "ze_name z \<equiv> fst (fst z)"
abbreviation ze_kind :: "zip_entry \<Rightarrow> entry_kind" where "ze_kind z \<equiv> fst (snd (fst z))"
abbreviation ze_size :: "zip_entry \<Rightarrow> 64 word" where "ze_size z \<equiv> snd (snd (fst z))"

record opened_package =
  op_path :: string
  op_manifest :: package_manifest
  op_entries :: "(string \<times> int) list"
  op_icon_size :: int

text \<open>The bytes of an entry or a file: those of an encoded record are the encoder's.\<close>

definition bytesOf :: "env \<Rightarrow> content \<Rightarrow> string" where
  "bytesOf E c = (case c of Blob b \<Rightarrow> b | _ \<Rightarrow> ev_encoded E c)"

definition sizeOf :: "env \<Rightarrow> content \<Rightarrow> int" where
  "sizeOf E c = int (length (bytesOf E c))"

definition OpenReader :: "env \<Rightarrow> string \<Rightarrow> zip_entry list act" where
  "OpenReader E path = bindE (readFileE E path) (\<lambda>c. case c of
     ZipArchive es \<Rightarrow> returnE es
   | _ \<Rightarrow> throwE (OtherError ''zip: not a valid zip file''))"

definition invalidPackage :: "string \<Rightarrow> go_error" where
  "invalidPackage message = NewError ErrPackageInvalid message"

definition checkManifest :: "package_manifest \<Rightarrow> package_manifest result" where
  "checkManifest m =
     (if pk_schema m = 0
      then Inl (NewError ErrPackageUnsupported ''The package does not declare a format version'')
      else if pk_schema m < InstancePackageLegacySchemaVersion \<or> pk_schema m > InstancePackageSchemaVersion
      then Inl (NewError ErrPackageUnsupported
        (''The package format version '' @ Itoa (pk_schema m) @ '' is not supported by this launcher''))
      else case (if pk_schema m = InstancePackageLegacySchemaVersion then Some GameClientVanilla
                 else NormalizeGameClient (pk_client m)) of
        None \<Rightarrow> Inl (invalidPackage ''The package manifest declares an invalid game client'')
      | Some gc \<Rightarrow>
          (if TrimSpace (pk_name m) = []
           then Inl (invalidPackage ''The package manifest does not name the instance'')
           else if TrimSpace (pk_version_id m) = [] \<and> TrimSpace (pk_version_name m) = []
           then Inl (invalidPackage ''The package manifest does not declare a game version'')
           else Inr (m\<lparr>pk_client := gc\<rparr>)))"

definition isManifestEntry :: "zip_entry \<Rightarrow> bool" where
  "isManifestEntry z \<longleftrightarrow> CleanArchiveName (ze_name z) = Inr ManifestFileName"

text \<open>Opening the entry and reading it are two calls that may fail.\<close>

definition readManifest :: "env \<Rightarrow> zip_entry list \<Rightarrow> package_manifest act" where
  "readManifest E archive =
     (case find isManifestEntry archive of
        None \<Rightarrow> throwE (invalidPackage ''The package does not contain a manifest'')
      | Some (_, raw, decoded) \<Rightarrow>
          orFail (bindE (closeE E) (\<lambda>_. closeE E))
            (\<lambda>_. throwE (invalidPackage ''Could not read the package manifest'')) (\<lambda>_.
          if sizeOf E raw = 0 then throwE (invalidPackage ''The package does not contain a manifest'')
          else if sizeOf E raw > maxManifestBytes then throwE (invalidPackage ''The package manifest is too large'')
          else case decoded of
            None \<Rightarrow> throwE (invalidPackage ''The package manifest is not valid JSON'')
          | Some m \<Rightarrow> liftE (checkManifest m)))"

record scan_state =
  sc_seen :: bool
  sc_total :: "64 word"
  sc_entries :: "(string \<times> int) list"
  sc_icon :: int

definition entryLimit :: "string \<Rightarrow> int" where
  "entryLimit clean =
     (if clean = IconFileName then maxIconBytes
      else if HasPrefix clean ConfigsPrefix then maxConfigBytes
      else if HasPrefix clean ModsPrefix then maxEmbeddedModBytes else 0)"

definition scanZipEntry :: "zip_entry \<Rightarrow> scan_state \<Rightarrow> scan_state result" where
  "scanZipEntry z s =
     (case CleanArchiveName (ze_name z) of
        Inl e \<Rightarrow> Inl e
      | Inr clean \<Rightarrow>
          (if clean = ManifestFileName then Inr (s\<lparr>sc_seen := True\<rparr>)
           else if ze_kind z = DirectoryEntry then Inr s
           else if ze_kind z = SymlinkEntry
           then Inl (NewError ErrPackageSecurity ''Package contains a symbolic link'')
           else if ze_kind z = SpecialEntry
           then Inl (NewError ErrPackageSecurity ''Package contains a special file'')
           else case ValidateEntryName clean [] of
             Inl e \<Rightarrow> Inl e
           | Inr _ \<Rightarrow>
               (if sint (ze_size z) > entryLimit clean then Inl (entryLimitMessage clean)
                else let total' = sc_total s + ze_size z
                in if sint total' > maxTotalUncompressed
                   then Inl (invalidPackage ''The package is too large to import'')
                   else Inr (s\<lparr>sc_total := total', sc_entries := AList.update clean (sint (ze_size z)) (sc_entries s),
                     sc_icon := (if clean = IconFileName then sint (ze_size z) else sc_icon s)\<rparr>))))"

fun scanZip :: "zip_entry list \<Rightarrow> scan_state \<Rightarrow> scan_state result" where
  "scanZip [] s = Inr s"
| "scanZip (z # zs) s = (case scanZipEntry z s of Inl e \<Rightarrow> Inl e | Inr s' \<Rightarrow> scanZip zs s')"

fun checkConfigs :: "(string \<times> int) list \<Rightarrow> string list \<Rightarrow> string list \<Rightarrow> unit result" where
  "checkConfigs entries seen [] = Inr ()"
| "checkConfigs entries seen (relative # rest) =
     (case CleanArchiveName relative of
        Inl _ \<Rightarrow> Inl (invalidPackage ''The package manifest references an unsafe config path'')
      | Inr clean \<Rightarrow>
          (if clean \<in> set seen
           then Inl (invalidPackage ''The package manifest references a config path twice'')
           else if map_of entries (ConfigsPrefix @ clean) = None
           then Inl (invalidPackage ''The package manifest references a config file that is missing from the archive'')
           else checkConfigs entries (clean # seen) rest))"

definition modsArchiveName :: "package_mod \<Rightarrow> string" where
  "modsArchiveName m = (if pm_archive_path m = [] then ModsPrefix @ pm_file_name m else pm_archive_path m)"

definition checkPackageMod :: "(string \<times> int) list \<Rightarrow> package_mod \<Rightarrow> unit result" where
  "checkPackageMod entries m =
     (if pm_source m \<noteq> PackageModSourceEmbedded then Inr ()
      else if TrimSpace (pm_archive_path m) = [] \<and> TrimSpace (pm_file_name m) = []
      then Inl (invalidPackage ''The package manifest references an embedded mod without a file'')
      else case CleanArchiveName (modsArchiveName m) of
        Inl _ \<Rightarrow> Inl (invalidPackage ''The package manifest references an unsafe embedded mod path'')
      | Inr clean \<Rightarrow>
          (if map_of entries clean = None
           then Inl (invalidPackage ''The package manifest references an embedded mod that is missing from the archive'')
           else Inr ()))"

fun checkPackageMods :: "(string \<times> int) list \<Rightarrow> package_mod list \<Rightarrow> unit result" where
  "checkPackageMods entries [] = Inr ()"
| "checkPackageMods entries (m # ms) =
     (case checkPackageMod entries m of Inl e \<Rightarrow> Inl e | Inr _ \<Rightarrow> checkPackageMods entries ms)"

definition validateManifestReferencedEntries :: "package_manifest \<Rightarrow> (string \<times> int) list \<Rightarrow> unit result" where
  "validateManifestReferencedEntries m entries =
     (case checkConfigs entries [] (pk_configs m) of
        Inl e \<Rightarrow> Inl e | Inr _ \<Rightarrow> checkPackageMods entries (pk_mods m))"

definition emptyScan :: scan_state where
  "emptyScan = \<lparr>sc_seen = False, sc_total = 0, sc_entries = [], sc_icon = 0\<rparr>"

definition openedFrom :: "string \<Rightarrow> package_manifest \<Rightarrow> scan_state \<Rightarrow> opened_package result" where
  "openedFrom path m s =
     (if \<not> sc_seen s then Inl (invalidPackage ''The package does not contain a manifest'')
      else if map_of (sc_entries s) IconFileName = None \<and> pk_icon m
      then Inl (invalidPackage ''The package declares an icon that is missing'')
      else case validateManifestReferencedEntries m (sc_entries s) of
        Inl e \<Rightarrow> Inl e
      | Inr _ \<Rightarrow> Inr \<lparr>op_path = path, op_manifest = m, op_entries = sc_entries s, op_icon_size = sc_icon s\<rparr>)"

definition OpenPackage :: "env \<Rightarrow> string \<Rightarrow> opened_package act" where
  "OpenPackage E path =
     orFail (OpenReader E path) (\<lambda>_. throwE (invalidPackage ''The file is not a valid Waxlight package'')) (\<lambda>archive.
     bindE (readManifest E archive) (\<lambda>m.
     if length archive > maxEntryCount then throwE (invalidPackage ''The package contains too many files'')
     else bindE (liftE (scanZip archive emptyScan)) (\<lambda>s. liftE (openedFrom path m s))))"

definition TotalSize :: "opened_package \<Rightarrow> int" where
  "TotalSize p = sint (word_of_int (sum_list (map snd (op_entries p))) :: 64 word)"

section \<open>Extraction\<close>

definition ensureInside :: "string \<Rightarrow> string \<Rightarrow> unit result" where
  "ensureInside base path =
     (case relInside (Clean base) path of
        None \<Rightarrow> Inl (NewError ErrPackageSecurity ''Package file would escape the instance directory'')
      | Some _ \<Rightarrow> Inr ())"

definition extractEntry :: "env \<Rightarrow> zip_entry \<Rightarrow> string \<Rightarrow> int \<Rightarrow> unit act" where
  "extractEntry E z destination limit =
     bindE (closeE E) (\<lambda>_.
     bindE (mkdirE E (Dir destination)) (\<lambda>_.
     bindE (closeE E) (\<lambda>_.
     if sizeOf E (fst (snd z)) > limit then throwE (entryLimitMessage (ze_name z))
     else atomicWrite E destination (fst (snd z)))))"

definition sanitizeClientSettingsFile :: "env \<Rightarrow> snap_ports \<Rightarrow> string \<Rightarrow> unit act" where
  "sanitizeClientSettingsFile E P path =
     bindE (readFileE E path) (\<lambda>c. case sp_sanitize P c of
       Inl _ \<Rightarrow> throwE (invalidPackage ''The package contains invalid client settings'')
     | Inr sanitized \<Rightarrow> atomicWrite E path sanitized)"

definition extractConfig :: "env \<Rightarrow> snap_ports \<Rightarrow> package_manifest \<Rightarrow> string \<Rightarrow> zip_entry \<Rightarrow> string list \<Rightarrow> string list act" where
  "extractConfig E P m dir z written =
     (case CleanArchiveName (ze_name z) of
        Inl _ \<Rightarrow> returnE written
      | Inr clean \<Rightarrow>
          (if \<not> HasPrefix clean ConfigsPrefix \<or> ze_kind z = DirectoryEntry then returnE written
           else bindE (ctxE E) (\<lambda>_.
                bindE (liftE (ValidateEntryName clean dir)) (\<lambda>destination.
                bindE (liftE (ensureInside dir destination)) (\<lambda>_.
                let relative = TrimPrefix clean ConfigsPrefix
                in if relative \<notin> set (pk_configs m) then returnE written
                   else bindE (extractEntry E z destination maxConfigBytes) (\<lambda>_.
                        bindE (if EqualFold (Base destination) clientSettingsName
                               then sanitizeClientSettingsFile E P destination else returnE ()) (\<lambda>_.
                        returnE (relative # written))))))))"

definition ExtractConfigs :: "env \<Rightarrow> snap_ports \<Rightarrow> opened_package \<Rightarrow> string \<Rightarrow> unit act" where
  "ExtractConfigs E P pkg dir =
     bindE (OpenReader E (op_path pkg)) (\<lambda>archive.
     bindE (foldE (extractConfig E P (op_manifest pkg) dir) archive []) (\<lambda>written.
     if list_ex (\<lambda>relative. relative \<notin> set written) (pk_configs (op_manifest pkg))
     then throwE (invalidPackage ''A declared config file could not be extracted'')
     else returnE ()))"

definition entryNamed :: "string \<Rightarrow> zip_entry \<Rightarrow> bool" where
  "entryNamed clean z \<longleftrightarrow> CleanArchiveName (ze_name z) = Inr clean \<and> ze_kind z \<noteq> DirectoryEntry"

definition ExtractEmbeddedMod :: "env \<Rightarrow> opened_package \<Rightarrow> string \<Rightarrow> string \<Rightarrow> unit act" where
  "ExtractEmbeddedMod E pkg fileName directory =
     (case CleanArchiveName (ModsPrefix @ fileName) of
        Inl _ \<Rightarrow> throwE (invalidPackage ''The package contains an unsafe embedded mod path'')
      | Inr clean \<Rightarrow>
          bindE (OpenReader E (op_path pkg)) (\<lambda>archive.
          case find (entryNamed clean) archive of
            None \<Rightarrow> throwE (invalidPackage ''The embedded mod file could not be found in the package'')
          | Some z \<Rightarrow>
              bindE (liftE (ensureInside directory (JoinPath [directory, fileName]))) (\<lambda>_.
              extractEntry E z (JoinPath [directory, fileName]) maxEmbeddedModBytes)))"

definition ExtractIcon :: "env \<Rightarrow> opened_package \<Rightarrow> string \<Rightarrow> unit act" where
  "ExtractIcon E pkg destination =
     (if \<not> pk_icon (op_manifest pkg) then returnE ()
      else bindE (OpenReader E (op_path pkg)) (\<lambda>archive.
           case find (entryNamed IconFileName) archive of
             None \<Rightarrow> throwE (invalidPackage ''The declared package icon could not be found'')
           | Some z \<Rightarrow>
               bindE (liftE (ensureInside (Dir destination) destination)) (\<lambda>_.
               extractEntry E z destination maxIconBytes)))"

section \<open>Writing a package\<close>

record write_source =
  ws_manifest :: package_manifest
  ws_directory :: string
  ws_mods :: "(string \<times> string) list"
  ws_icon :: string

definition safeJoin :: "string \<Rightarrow> string \<Rightarrow> string result" where
  "safeJoin base relative =
     (let absRoot = Clean base; joined = JoinPath [absRoot, relative]
      in if joined \<noteq> absRoot \<and> \<not> HasPrefix joined (absRoot @ ''/'')
         then Inl (OtherError ''path escapes the instance directory'') else Inr joined)"

definition readRegular :: "env \<Rightarrow> (go_error \<Rightarrow> go_error) \<Rightarrow> string \<Rightarrow> string \<Rightarrow> int \<Rightarrow> string \<Rightarrow> content act" where
  "readRegular E missing irregular tooLarge limit path =
     orFail (statE E path) (\<lambda>e. throwE (missing e)) (\<lambda>info. case info of
       DirNode \<Rightarrow> throwE (NewError ErrValidation irregular)
     | FileNode d \<Rightarrow>
         (if sizeOf E (fd_content d) > limit then throwE (NewError ErrValidation tooLarge)
          else readFileE E path))"

definition readConfigFile :: "env \<Rightarrow> snap_ports \<Rightarrow> string \<Rightarrow> string \<Rightarrow> content act" where
  "readConfigFile E P instanceDir relative =
     bindE (liftE (CleanArchiveName relative)) (\<lambda>clean.
     if HasPrefix clean ConfigsPrefix \<or> HasPrefix clean ModsPrefix \<or> clean = ManifestFileName \<or> clean = IconFileName
     then throwE (NewError ErrValidation ''Unsafe config path in package'')
     else bindE (liftE (safeJoin instanceDir clean)) (\<lambda>path.
          bindE (readRegular E (WrapError ''config file is unavailable'') ''Config path is not a regular file''
                  ''Config file is too large to export'' maxConfigBytes path) (\<lambda>contents.
          if EqualFold (Base clean) clientSettingsName
          then (case sp_sanitize P contents of
                  Inl _ \<Rightarrow> throwE (NewError ErrValidation ''Could not sanitize client settings for export'')
                | Inr sanitized \<Rightarrow> returnE sanitized)
          else returnE contents)))"

definition readEmbeddedMod :: "env \<Rightarrow> string \<Rightarrow> content act" where
  "readEmbeddedMod E path = readRegular E (\<lambda>e. e) ''Mod source is not a regular file''
     ''Mod file is too large to embed in the package'' maxEmbeddedModBytes path"

definition readIcon :: "env \<Rightarrow> string \<Rightarrow> content act" where
  "readIcon E path = readRegular E (\<lambda>e. e) ''Icon path is not a regular file''
     ''Icon file is too large to export'' maxIconBytes path"

text \<open>
  \<open>writeEntry\<close>: creating the header and writing the content may fail, and a name that ends in a
  slash is a directory for \<open>archive/zip\<close>, which takes no content; the bytes of the manifest are the
  parameter \<open>encode\<close>, and \<open>encoding/json\<close> reads them back without the field \<open>archivePath\<close>, which
  it never writes.
\<close>

definition writtenManifest :: "package_manifest \<Rightarrow> package_manifest" where
  "writtenManifest m = m\<lparr>pk_mods := map (\<lambda>p. p\<lparr>pm_archive_path := []\<rparr>) (pk_mods m)\<rparr>"

definition zipEntry :: "env \<Rightarrow> string \<Rightarrow> content \<Rightarrow> package_manifest option \<Rightarrow> zip_entry" where
  "zipEntry E name c decoded =
     ((name, if HasSuffix name ''/'' then DirectoryEntry else RegularEntry, word_of_int (sizeOf E c)), c, decoded)"

definition writeEntry :: "env \<Rightarrow> string \<Rightarrow> content \<Rightarrow> package_manifest option \<Rightarrow> zip_entry list \<Rightarrow> zip_entry list act" where
  "writeEntry E name c decoded entries =
     bindE (closeE E) (\<lambda>_.
     if HasSuffix name ''/'' \<and> sizeOf E c \<noteq> 0 then throwE (OtherError ''zip: write to directory'')
     else bindE (closeE E) (\<lambda>_. returnE (entries @ [zipEntry E name c decoded])))"

definition writeConfigEntry :: "env \<Rightarrow> snap_ports \<Rightarrow> string \<Rightarrow> string \<Rightarrow> zip_entry list \<Rightarrow> zip_entry list act" where
  "writeConfigEntry E P dir relative entries =
     bindE (ctxE E) (\<lambda>_.
     bindE (readConfigFile E P dir relative) (\<lambda>c.
     writeEntry E (ConfigsPrefix @ relative) c None entries))"

definition writeModEntry :: "env \<Rightarrow> string \<times> string \<Rightarrow> zip_entry list \<Rightarrow> zip_entry list act" where
  "writeModEntry E m entries =
     bindE (ctxE E) (\<lambda>_.
     if Base (fst m) \<noteq> fst m then throwE (NewError ErrValidation ''Embedded mod name is not a plain file name'')
     else bindE (readEmbeddedMod E (snd m)) (\<lambda>c. writeEntry E (ModsPrefix @ fst m) c None entries))"

definition writeEntries :: "env \<Rightarrow> snap_ports \<Rightarrow> (package_manifest \<Rightarrow> string) \<Rightarrow> write_source \<Rightarrow> zip_entry list act" where
  "writeEntries E P encode src =
     bindE (writeEntry E ManifestFileName (Blob (encode (ws_manifest src))) (Some (writtenManifest (ws_manifest src))) [])
       (\<lambda>es.
     bindE (foldE (writeConfigEntry E P (ws_directory src)) (pk_configs (ws_manifest src)) es) (\<lambda>es.
     bindE (foldE (writeModEntry E) (ws_mods src) es) (\<lambda>es.
     if pk_icon (ws_manifest src) \<and> ws_icon src \<noteq> []
     then bindE (readIcon E (ws_icon src)) (\<lambda>c. writeEntry E IconFileName c None es)
     else returnE es)))"

definition abortPackageWrite :: "env \<Rightarrow> string \<Rightarrow> unit act" where
  "abortPackageWrite E targetPath =
     bindE (ignoreE (closeE E)) (\<lambda>_.
     bindE (ignoreE (closeE E)) (\<lambda>_.
     ignoreE (removeE E (targetPath @ ''.partial''))))"

definition WritePackage :: "env \<Rightarrow> snap_ports \<Rightarrow> (package_manifest \<Rightarrow> string) \<Rightarrow> string \<Rightarrow> write_source \<Rightarrow> unit act" where
  "WritePackage E P encode targetPath src =
     (let target = Clean targetPath; part = target @ ''.partial'';
          abort = (\<lambda>e. bindE (abortPackageWrite E target) (\<lambda>_. throwE e))
      in bindE (mkdirE E (Dir target)) (\<lambda>_.
         bindE (createE E part) (\<lambda>_.
         orFail (bindE (writeEntries E P encode src) (\<lambda>es. copyIntoE E part (ZipArchive es))) abort (\<lambda>_.
         orFail (closeE E) (\<lambda>e. bindE (ignoreE (removeE E part)) (\<lambda>_. throwE e)) (\<lambda>_.
         renameE E part target)))))"

end
