(* ===== verification/PackageFacts.thy ===== *)
theory PackageFacts
  imports InstancePackages DataRootFacts RestoreFacts
begin

text \<open>
  What a package can do to the disk it is imported on, whatever its archive holds, and what an
  export followed by an import gives back.
\<close>

section \<open>Names\<close>

lemma CleanArchiveName_plain:
  assumes "CleanArchiveName name = Inr clean" shows "list_all plain (Split clean (CHR ''/''))"
proof -
  have "\<not> list_ex unsafePart (Split clean (CHR ''/''))"
    using assms by (auto simp: CleanArchiveName_def Let_def split: if_splits)
  then show ?thesis
    using Split_no_sep by (auto simp: list_all_iff list_ex_iff unsafePart_def plain_def)
qed

lemma Split_prefix: "CHR ''/'' \<notin> set p \<Longrightarrow> Split (p @ ''/'' @ s) (CHR ''/'') = p # Split s (CHR ''/'')"
  using Split_append [of "CHR ''/''" p s] by simp

lemma HasPrefix_split: "HasPrefix s p \<Longrightarrow> s = p @ TrimPrefix s p"
  by (auto simp: TrimPrefix_def HasPrefix_iff)

lemma plain_after_prefix:
  assumes "list_all plain (Split clean (CHR ''/''))" "HasPrefix clean (p @ ''/'')" "CHR ''/'' \<notin> set p"
  shows "list_all plain (Split (TrimPrefix clean (p @ ''/'')) (CHR ''/''))"
proof -
  have "clean = p @ ''/'' @ TrimPrefix clean (p @ ''/'')" using HasPrefix_split [OF assms(2)] by simp
  then have "Split clean (CHR ''/'') = p # Split (TrimPrefix clean (p @ ''/'')) (CHR ''/'')"
    using Split_prefix [OF assms(3)] by (metis append_assoc)
  with assms(1) show ?thesis by simp
qed

lemma joined_below:
  assumes "root_path dir ds" "list_all plain (Split s (CHR ''/''))"
  shows "under dir (JoinPath [dir, s])" "JoinPath [dir, s] = dir @ ''/'' @ s"
proof -
  have ds: "dir = abs_path ds" "ds \<noteq> []" "\<forall>e \<in> set ds. plain e" using assms(1) by (auto simp: root_path_def)
  have "JoinPath [dir, s] = abs_path (ds @ Split s (CHR ''/''))"
    unfolding ds(1) by (rule JoinPath_plain [OF ds(3,2) assms(2)])
  then show eq: "JoinPath [dir, s] = dir @ ''/'' @ s"
    using abs_path_snoc [OF ds(2), of "Split s (CHR ''/'')"] ds(1) by simp
  have "s \<noteq> []" using assms(2) by (auto simp: plain_def)
  then show "under dir (JoinPath [dir, s])"
    using proper_abs_path [OF ds(3,2)] ds(1) eq by (simp add: under_def below_plain)
qed

lemma ValidateEntryName_below:
  assumes "root_path dir ds" "ValidateEntryName name dir = Inr destination"
  shows "under dir destination"
proof -
  obtain clean where clean: "CleanArchiveName name = Inr clean"
    using assms(2) by (auto simp: ValidateEntryName_def split: sum.splits)
  note parts = CleanArchiveName_plain [OF clean]
  have icon: "list_all plain (Split IconFileName (CHR ''/''))" by (simp add: plain_def)
  show ?thesis
    using assms(2) clean joined_below(1) [OF assms(1) icon]
      joined_below(1) [OF assms(1) plain_after_prefix [OF parts, of "''configs''"]]
      joined_below(1) [OF assms(1) plain_after_prefix [OF parts, of "''mods''"]]
    by (auto simp: ValidateEntryName_def Let_def split: if_splits sum.splits)
qed

section \<open>Extraction stays below the directory\<close>

lemma confined_extractEntry: "destination \<in> T \<Longrightarrow> evolves (confined T) (extractEntry E z destination limit)"
  unfolding extractEntry_def by (auto intro!: confined_rules)

lemma confined_liftE [confined_rules]: "evolves (confined T) (liftE r)"
  by (cases r) (auto simp: liftE_def intro!: confined_rules)

lemma confined_foldE [confined_rules]:
  "(\<And>x acc. evolves (confined T) (f x acc)) \<Longrightarrow> evolves (confined T) (foldE f xs acc)"
  by (rule evolves_foldE) simp_all

lemma confined_ctxE [confined_rules]: "evolves (confined T) (ctxE E)"
  unfolding ctxE_def by (auto intro!: confined_rules)

lemma confined_OpenReader [confined_rules]: "evolves (confined T) (OpenReader E p)"
  unfolding OpenReader_def by (auto intro!: confined_rules split: content.split)

lemma confined_bind_lift:
  "(\<And>x. r = Inr x \<Longrightarrow> evolves (confined T) (f x)) \<Longrightarrow> evolves (confined T) (bindE (liftE r) f)"
  by (cases r) (auto simp: liftE_def intro!: confined_rules)

lemma confined_extractConfig:
  assumes "root_path dir ds" shows "evolves (confined (beneath dir)) (extractConfig E P m dir z written)"
proof (cases "CleanArchiveName (ze_name z)")
  case (Inr clean)
  have unzipped: "evolves (confined (beneath dir)) (extractEntry E z d n)" if "ValidateEntryName clean dir = Inr d" for d n
    using ValidateEntryName_below [OF assms that] by (intro confined_extractEntry) (simp add: beneath_def)
  have cleaned: "evolves (confined (beneath dir)) (sanitizeClientSettingsFile E P d)" if "ValidateEntryName clean dir = Inr d" for d
    using ValidateEntryName_below [OF assms that]
    by (auto simp: sanitizeClientSettingsFile_def beneath_def intro!: confined_rules)
  show ?thesis
    unfolding extractConfig_def Inr sum.case Let_def
    by (intro evolves_if evolves_returnE evolves_bindE [OF _ confined_ctxE] confined_bind_lift evolves_bindE)
      (auto intro: unzipped cleaned intro!: confined_rules)
qed (auto simp: extractConfig_def intro!: confined_rules)

text \<open>The name of an embedded mod may end in a slash that the archive name drops.\<close>

lemma mod_name_inside:
  assumes "root_path dir ds" "CleanArchiveName (ModsPrefix @ f) = Inr clean"
  shows "JoinPath [dir, f] \<in> subtree dir"
proof -
  have ds: "dir = abs_path ds" "ds \<noteq> []" "\<forall>e \<in> set ds. plain e" using assms(1) by (auto simp: root_path_def)
  have clean: "clean = TrimSuffix (ModsPrefix @ f) ''/''"
    using assms(2) by (auto simp: CleanArchiveName_def Let_def TrimPrefix_def HasPrefix_def split: if_splits)
  note parts = CleanArchiveName_plain [OF assms(2)]
  have id: "JoinPath [dir, []] = dir"
    using ds Clean_abs_path [of ds] by (simp add: JoinPath_def abs_path_def)
  show ?thesis
  proof (cases "f = []")
    case True
    then show ?thesis using id by (simp add: subtree_def)
  next
    case False
    show ?thesis
    proof (cases "HasSuffix (ModsPrefix @ f) ''/''")
      case no: False
      then have "clean = ''mods'' @ ''/'' @ f" using clean by (simp add: TrimSuffix_def)
      then have "list_all plain (Split f (CHR ''/''))" using parts Split_prefix [of "''mods''" f] by simp
      from joined_below(1) [OF assms(1) this] show ?thesis by (simp add: subtree_def)
    next
      case True
      then obtain g where g: "f = g @ ''/''"
        using False by (cases f rule: rev_cases) (auto simp: HasSuffix_def HasPrefix_def)
      then have "clean = ''mods'' @ ''/'' @ g"
        using clean True by (simp add: TrimSuffix_def)
      then have split: "list_all plain (Split g (CHR ''/''))" using parts Split_prefix [of "''mods''" g] by simp
      have "JoinPath [dir, f] = abs_path (clean_elems True (rev ds) (Split f (CHR ''/'')))"
        unfolding ds(1) by (rule JoinPath_elems [OF ds(3,2) False])
      moreover have "Split f (CHR ''/'') = Split g (CHR ''/'') @ [[]]"
        unfolding g by (induction g) (auto split: list.splits)
      moreover have "clean_elems True (rev ds) (Split g (CHR ''/'') @ [[]]) = ds @ Split g (CHR ''/'')"
        using clean_elems_append [of "Split g (CHR ''/'')" True "rev ds" "[[]]"] split by (simp add: list_all_iff)
      ultimately have "JoinPath [dir, f] = JoinPath [dir, g]"
        using JoinPath_plain [OF ds(3,2) split] ds(1) by simp
      with joined_below(1) [OF assms(1) split] show ?thesis by (simp add: subtree_def)
    qed
  qed
qed

lemma extraction_evolves:
  assumes "root_path dir ds"
  shows "evolves (confined (subtree dir)) (ExtractConfigs E P pkg dir)"
    "evolves (confined (subtree dir)) (ExtractEmbeddedMod E pkg fileName dir)"
    "destination \<in> subtree dir \<Longrightarrow> evolves (confined (subtree dir)) (ExtractIcon E pkg destination)"
proof -
  have sub: "beneath dir \<subseteq> subtree dir" by (auto simp: beneath_def subtree_def)
  have "evolves (confined (beneath dir)) (ExtractConfigs E P pkg dir)"
    unfolding ExtractConfigs_def by (auto intro!: confined_rules confined_extractConfig [OF assms])
  then show "evolves (confined (subtree dir)) (ExtractConfigs E P pkg dir)"
    using confined_mono [OF _ sub] by (simp add: evolves_def)
  show "evolves (confined (subtree dir)) (ExtractEmbeddedMod E pkg fileName dir)"
  proof (cases "CleanArchiveName (ModsPrefix @ fileName)")
    case (Inr clean)
    note inside = mod_name_inside [OF assms Inr]
    show ?thesis
      unfolding ExtractEmbeddedMod_def Inr sum.case
      by (intro evolves_bindE evolves_case_option) (auto intro!: confined_rules confined_extractEntry inside)
  qed (auto simp: ExtractEmbeddedMod_def intro!: confined_rules)
  show "destination \<in> subtree dir \<Longrightarrow> evolves (confined (subtree dir)) (ExtractIcon E pkg destination)"
    unfolding ExtractIcon_def
    by (intro evolves_if evolves_bindE evolves_case_option evolves_returnE evolves_throwE)
      (auto intro!: confined_rules confined_extractEntry)
qed


section \<open>What an opened package promises\<close>

definition payload :: "zip_entry list \<Rightarrow> zip_entry list" where
  "payload = filter (\<lambda>z. \<not> isManifestEntry z \<and> ze_kind z \<noteq> DirectoryEntry)"

text \<open>An entry the launcher may extract: a plain relative path in one of the places for it.\<close>

definition safe_entry :: "zip_entry \<Rightarrow> bool" where
  "safe_entry z \<longleftrightarrow> ze_kind z = RegularEntry \<and>
     (\<exists>clean. CleanArchiveName (ze_name z) = Inr clean \<and> list_all plain (Split clean (CHR ''/'')) \<and>
        sint (ze_size z) \<le> entryLimit clean \<and>
        (clean = IconFileName \<or> HasPrefix clean ConfigsPrefix \<or>
         HasPrefix clean ModsPrefix \<and> isPackageMod (TrimPrefix clean ModsPrefix)))"

definition scanned :: "zip_entry list \<Rightarrow> scan_state \<Rightarrow> bool" where
  "scanned es s \<longleftrightarrow> sc_seen s = list_ex isManifestEntry es \<and> list_all safe_entry (payload es) \<and>
     {Inr n | n. n \<in> dom (map_of (sc_entries s))} = (\<lambda>z. CleanArchiveName (ze_name z)) ` set (payload es) \<and>
     ((\<forall>z \<in> set (payload es). uint (ze_size z) < 2 ^ 63) \<longrightarrow>
        uint (sc_total s) = (\<Sum>z\<leftarrow>payload es. uint (ze_size z)) \<and> (\<Sum>z\<leftarrow>payload es. uint (ze_size z)) \<le> maxTotalUncompressed)"

lemma scanned_empty: "scanned [] emptyScan"
  by (simp add: scanned_def emptyScan_def payload_def maxTotalUncompressed_def)

lemma sint_small: "uint (x :: 64 word) < 2 ^ 63 \<Longrightarrow> sint x = uint x"
  by (simp add: sint_uint signed_take_bit_eq_if_positive bit_iff_odd take_bit_int_eq_self)

lemma entryLimit_le: "entryLimit n \<le> 512 * 2 ^ 20"
  by (simp add: entryLimit_def maxIconBytes_def maxConfigBytes_def maxEmbeddedModBytes_def)

lemma small_sum:
  assumes "uint (t :: 64 word) \<le> maxTotalUncompressed" "uint x < 2 ^ 63" "sint x \<le> entryLimit n"
    and "sint (t + x) \<le> maxTotalUncompressed"
  shows "uint (t + x) = uint t + uint x" "uint (t + x) \<le> maxTotalUncompressed"
proof -
  have "uint x \<le> 512 * 2 ^ 20" using assms(3) entryLimit_le [of n] by (simp add: sint_small [OF assms(2)])
  with assms(1) have small: "uint t + uint x < 2 ^ 63" by (simp add: maxTotalUncompressed_def)
  then show sum: "uint (t + x) = uint t + uint x"
    by (simp add: uint_word_ariths zmod_trivial_iff)
  with small have "sint (t + x) = uint (t + x)" by (intro sint_small) simp
  with assms(4) show "uint (t + x) \<le> maxTotalUncompressed" by simp
qed

lemma ValidateEntryName_places:
  assumes "ValidateEntryName clean base = Inr d" "CleanArchiveName clean = Inr clean'"
  shows "clean' = IconFileName \<or> HasPrefix clean' ConfigsPrefix \<or>
    HasPrefix clean' ModsPrefix \<and> isPackageMod (TrimPrefix clean' ModsPrefix)"
  using assms by (auto simp: ValidateEntryName_def Let_def split: if_splits)

lemma plain_no_tail: "list_all plain (Split s (CHR ''/'')) \<Longrightarrow> \<not> HasSuffix s ''/''"
proof
  assume parts: "list_all plain (Split s (CHR ''/''))" and "HasSuffix s ''/''"
  then obtain g where g: "s = g @ ''/''"
    by (cases s rule: rev_cases) (auto simp: HasSuffix_def HasPrefix_def)
  have "Split (g @ ''/'') (CHR ''/'') = Split g (CHR ''/'') @ [[]]" by (induction g) (auto split: list.splits)
  with parts g show False by (simp add: plain_def)
qed

lemma CleanArchiveName_of_plain:
  assumes parts: "list_all plain (Split clean (CHR ''/''))" and nul: "CHR 0x00 \<notin> set clean"
  shows "CleanArchiveName clean = Inr clean"
proof -
  have slash: "\<not> HasPrefix clean (p @ ''/'')" if "\<not> plain p" "CHR ''/'' \<notin> set p" for p
  proof
    assume "HasPrefix clean (p @ ''/'')"
    from HasPrefix_split [OF this] have "Split clean (CHR ''/'') = p # Split (TrimPrefix clean (p @ ''/'')) (CHR ''/'')"
      using Split_prefix [OF that(2)] by (metis append_assoc)
    with parts that(1) show False by simp
  qed
  have tail: "\<not> HasSuffix clean ''/''" by (rule plain_no_tail [OF parts])
  have dot: "\<not> HasPrefix clean ''./''" "\<not> HasPrefix clean ''../''" "\<not> HasPrefix clean ''/''"
    using slash [of "''.''"] slash [of "''..''"] slash [of "[]"] by (auto simp: plain_def)
  then have "TrimSuffix (TrimPrefix clean ''./'') ''/'' = clean"
    using tail by (simp add: TrimPrefix_def TrimSuffix_def)
  moreover have "clean \<noteq> []" "clean \<noteq> ''..''" using parts by (auto simp: plain_def)
  moreover have "\<not> list_ex unsafePart (Split clean (CHR ''/''))"
    using parts by (auto simp: list_all_iff list_ex_iff unsafePart_def plain_def)
  ultimately show ?thesis using dot nul by (simp add: CleanArchiveName_def)
qed

lemma CleanArchiveName_idem: "CleanArchiveName name = Inr clean \<Longrightarrow> CleanArchiveName clean = Inr clean"
  by (rule CleanArchiveName_of_plain [OF CleanArchiveName_plain])
    (auto simp: CleanArchiveName_def Let_def split: if_splits)

lemma scanned_step:
  assumes "scanned es s" "scanZipEntry z s = Inr s'"
  shows "scanned (es @ [z]) s'"
proof -
  obtain clean where clean: "CleanArchiveName (ze_name z) = Inr clean"
    using assms(2) by (auto simp: scanZipEntry_def split: sum.splits)
  show ?thesis
  proof (cases "clean = ManifestFileName \<or> ze_kind z = DirectoryEntry")
    case True
    then have "payload (es @ [z]) = payload es" using clean by (auto simp: payload_def isManifestEntry_def)
    moreover have "s' = (if isManifestEntry z then s\<lparr>sc_seen := True\<rparr> else s)"
      using assms(2) clean True by (simp add: scanZipEntry_def isManifestEntry_def split: if_splits)
    ultimately show ?thesis using assms(1) by (simp add: scanned_def)
  next
    case False
    then have pay: "payload (es @ [z]) = payload es @ [z]" "\<not> isManifestEntry z"
      using clean by (simp_all add: payload_def isManifestEntry_def)
    obtain d where d: "ValidateEntryName clean [] = Inr d"
      using assms(2) clean False by (auto simp: scanZipEntry_def split: sum.splits if_splits)
    have kind: "ze_kind z \<noteq> SymlinkEntry" "ze_kind z \<noteq> SpecialEntry"
      using assms(2) clean False by (simp_all add: scanZipEntry_def split: if_splits)
    then have regular: "ze_kind z = RegularEntry" using False by (cases "ze_kind z") auto
    have ok: "sint (ze_size z) \<le> entryLimit clean" "sint (sc_total s + ze_size z) \<le> maxTotalUncompressed"
      using assms(2) clean False d regular by (simp_all add: scanZipEntry_def Let_def split: if_splits)
    have s': "sc_seen s' = sc_seen s" "sc_total s' = sc_total s + ze_size z"
      "sc_entries s' = AList.update clean (sint (ze_size z)) (sc_entries s)"
      using assms(2) clean False d regular ok by (auto simp: scanZipEntry_def Let_def)
    have "safe_entry z"
      using clean ok(1) CleanArchiveName_plain [OF clean]
        ValidateEntryName_places [OF d CleanArchiveName_idem [OF clean]] regular
      by (auto simp: safe_entry_def)
    moreover have "{Inr n | n. n \<in> dom (map_of (sc_entries s'))} =
        insert (CleanArchiveName (ze_name z)) {Inr n | n. n \<in> dom (map_of (sc_entries s))}"
      unfolding s' update_conv' clean by auto
    moreover have "uint (sc_total s') = uint (sc_total s) + uint (ze_size z) \<and> uint (sc_total s') \<le> maxTotalUncompressed"
      if "uint (sc_total s) \<le> maxTotalUncompressed" "uint (ze_size z) < 2 ^ 63"
      unfolding s' using small_sum [OF that ok] by simp
    ultimately show ?thesis using assms(1) pay s'(1) by (auto simp: scanned_def)
  qed
qed

lemma scanned_all: "scanZip zs s = Inr s' \<Longrightarrow> scanned es s \<Longrightarrow> scanned (es @ zs) s'"
proof (induction zs arbitrary: es s)
  case (Cons z zs)
  then show ?case using scanned_step [of es s z] by (fastforce split: sum.splits)
qed simp

lemma checkConfigs_ok:
  "checkConfigs entries seen cs = Inr () \<Longrightarrow>
     list_all (\<lambda>c. \<exists>n. CleanArchiveName c = Inr n \<and> n \<notin> set seen \<and> ConfigsPrefix @ n \<in> dom (map_of entries)) cs \<and>
     distinct (map CleanArchiveName cs)"
proof (induction cs arbitrary: seen)
  case (Cons c cs)
  then obtain n where "CleanArchiveName c = Inr n" "n \<notin> set seen" "ConfigsPrefix @ n \<in> dom (map_of entries)"
    and "checkConfigs entries (n # seen) cs = Inr ()"
    by (auto split: sum.splits if_splits)
  with Cons.IH [of "n # seen"] show ?case by (auto simp: list_all_iff)
qed simp

lemma checkPackageMods_ok:
  "checkPackageMods entries ms = Inr () \<Longrightarrow>
     list_all (\<lambda>m. pm_source m = PackageModSourceEmbedded \<longrightarrow>
       (\<exists>n. CleanArchiveName (modsArchiveName m) = Inr n \<and> n \<in> dom (map_of entries))) ms"
  by (induction ms) (auto simp: checkPackageMod_def split: sum.splits if_splits)

lemma wp_readFileE:
  assumes "\<And>c. cont w p = Some c \<Longrightarrow> Q c (tick w)" "\<And>e. X e (tick w)" shows "wp (readFileE E p) Q X w"
  using assms
  by (auto simp: readFileE_def readE_def callE_def wp_def osReadFile_def cont_def tick_def split: option.splits node.splits)

lemma wp_OpenReader:
  assumes "\<And>es. cont w p = Some (ZipArchive es) \<Longrightarrow> Q es (tick w)" "\<And>e. X e (tick w)"
  shows "wp (OpenReader E p) Q X w"
  unfolding OpenReader_def wp_bindE by (rule wp_readFileE) (auto simp: wp_simps assms split: content.split)

lemma wp_liftE [wp_simps]: "wp (liftE r) Q X w \<longleftrightarrow> (case r of Inl e \<Rightarrow> X e w | Inr x \<Rightarrow> Q x w)"
  by (cases r) (simp_all add: liftE_def wp_simps)

text \<open>What reading the manifest of an archive gives.\<close>

definition manifest_of :: "zip_entry list \<Rightarrow> package_manifest \<Rightarrow> bool" where
  "manifest_of es m \<longleftrightarrow> (\<exists>z m0. find isManifestEntry es = Some z \<and> snd (snd z) = Some m0 \<and> checkManifest m0 = Inr m)"

lemma wp_readManifest:
  assumes "\<And>m w'. manifest_of es m \<Longrightarrow> w_fs w' = w_fs w \<Longrightarrow> Q m w'" "\<And>e w'. X e w'"
  shows "wp (readManifest E es) Q X w"
proof (cases "find isManifestEntry es")
  case (Some z)
  have fin: "wp (case snd (snd z) of None \<Rightarrow> throwE err | Some m \<Rightarrow> liftE (checkManifest m)) Q X w'"
    if "w_fs w' = w_fs w" for w' err
    using assms(1) [OF _ that] assms(2) Some
    by (auto simp: wp_simps manifest_of_def split: option.split sum.split)
  then show ?thesis
    using Some assms(2)
    by (cases z) (auto simp: readManifest_def wp_simps tick_def intro!: wp_closeE)
qed (use assms(2) in \<open>simp add: readManifest_def wp_simps\<close>)

lemma wp_OpenPackage:
  assumes "\<And>es m s pkg w'. cont w path = Some (ZipArchive es) \<Longrightarrow> manifest_of es m \<Longrightarrow> length es \<le> maxEntryCount \<Longrightarrow>
      scanZip es emptyScan = Inr s \<Longrightarrow> openedFrom path m s = Inr pkg \<Longrightarrow> w_fs w' = w_fs w \<Longrightarrow> Q pkg w'"
    and "\<And>e w'. X e w'"
  shows "wp (OpenPackage E path) Q X w"
  unfolding OpenPackage_def wp_orFail
proof (rule wp_OpenReader)
  fix es assume es: "cont w path = Some (ZipArchive es)"
  show "wp (bindE (readManifest E es) (\<lambda>m. if length es > maxEntryCount then throwE (invalidPackage ''The package contains too many files'')
      else bindE (liftE (scanZip es emptyScan)) (\<lambda>s. liftE (openedFrom path m s)))) Q X (tick w)"
    unfolding wp_bindE [of "readManifest E es"]
    by (rule wp_readManifest)
      (auto simp: wp_simps assms(2) split: sum.split intro!: assms(1) [OF es] simp: tick_def)
qed (simp add: wp_simps assms(2))

lemma checkManifest_ok:
  assumes "checkManifest m0 = Inr m"
  shows "m0\<lparr>pk_client := pk_client m\<rparr> = m" "pk_schema m \<in> {1..InstancePackageSchemaVersion}"
    "NormalizeGameClient (pk_client m) = Some (pk_client m)" "TrimSpace (pk_name m) \<noteq> []"
    "TrimSpace (pk_version_id m) \<noteq> [] \<or> TrimSpace (pk_version_name m) \<noteq> []"
proof -
  have vanilla: "NormalizeGameClient GameClientVanilla = Some GameClientVanilla"
    by (simp add: NormalizeGameClient_def)
  show "m0\<lparr>pk_client := pk_client m\<rparr> = m" "pk_schema m \<in> {1..InstancePackageSchemaVersion}"
    "NormalizeGameClient (pk_client m) = Some (pk_client m)" "TrimSpace (pk_name m) \<noteq> []"
    "TrimSpace (pk_version_id m) \<noteq> [] \<or> TrimSpace (pk_version_name m) \<noteq> []"
    using assms vanilla NormalizeGameClient_idem [of "pk_client m0"]
    by (auto simp: checkManifest_def split: if_splits option.splits)
qed

section \<open>Properties\<close>

text \<open>
  C13 (safety).  An opened package is safe to unpack, whatever the archive says of itself: it has at
  most ten thousand entries; every entry but directories and manifests is a regular file with a
  plain relative name in one of the places for it, and its declared size is within the limit of the
  place; the declared sizes add up to at most two gigabytes, provided they are below two to the
  sixty-third; the entries of the package are exactly those; every configuration file and embedded
  mod of the manifest is among them, no configuration file twice; and the manifest declares a
  supported format, a client, a name and a version.
\<close>

theorem opened_package_checked:
  assumes "OpenPackage E path w = (Inr pkg, w')"
  shows "w_fs w' = w_fs w \<and> (\<exists>es. cont w path = Some (ZipArchive es) \<and> length es \<le> maxEntryCount \<and>
    list_all safe_entry (payload es) \<and>
    ((\<forall>z \<in> set (payload es). uint (ze_size z) < 2 ^ 63) \<longrightarrow>
      (\<Sum>z\<leftarrow>payload es. uint (ze_size z)) \<le> maxTotalUncompressed) \<and>
    {Inr n | n. n \<in> dom (map_of (op_entries pkg))} = (\<lambda>z. CleanArchiveName (ze_name z)) ` set (payload es)) \<and>
    (\<forall>c \<in> set (pk_configs (op_manifest pkg)).
      \<exists>n. CleanArchiveName c = Inr n \<and> ConfigsPrefix @ n \<in> dom (map_of (op_entries pkg))) \<and>
    distinct (map CleanArchiveName (pk_configs (op_manifest pkg))) \<and>
    (\<forall>m \<in> set (pk_mods (op_manifest pkg)). pm_source m = PackageModSourceEmbedded \<longrightarrow>
      (\<exists>n. CleanArchiveName (modsArchiveName m) = Inr n \<and> n \<in> dom (map_of (op_entries pkg)))) \<and>
    (pk_icon (op_manifest pkg) \<longrightarrow> IconFileName \<in> dom (map_of (op_entries pkg))) \<and>
    pk_schema (op_manifest pkg) \<in> {1..InstancePackageSchemaVersion} \<and>
    NormalizeGameClient (pk_client (op_manifest pkg)) = Some (pk_client (op_manifest pkg)) \<and>
    TrimSpace (pk_name (op_manifest pkg)) \<noteq> [] \<and>
    (TrimSpace (pk_version_id (op_manifest pkg)) \<noteq> [] \<or> TrimSpace (pk_version_name (op_manifest pkg)) \<noteq> [])"
    (is "?P pkg w'")
proof (rule wp_InrD [OF wp_OpenPackage assms, where X = "\<lambda>_ _. True"])
  fix es m s pkg and w' :: mods_world
  assume run: "cont w path = Some (ZipArchive es)" "manifest_of es m" "length es \<le> maxEntryCount"
    "scanZip es emptyScan = Inr s" "openedFrom path m s = Inr pkg" "w_fs w' = w_fs w"
  have scan: "scanned es s" using scanned_all [OF run(4) scanned_empty] by simp
  have pkg: "op_manifest pkg = m" "op_entries pkg = sc_entries s"
    and refs: "checkConfigs (sc_entries s) [] (pk_configs m) = Inr ()" "checkPackageMods (sc_entries s) (pk_mods m) = Inr ()"
    and icon: "pk_icon m \<longrightarrow> IconFileName \<in> dom (map_of (sc_entries s))"
    using run(5) by (auto simp: openedFrom_def validateManifestReferencedEntries_def split: if_splits sum.splits)
  obtain m0 where "checkManifest m0 = Inr m" using run(2) by (auto simp: manifest_of_def)
  note declared = checkManifest_ok(2-5) [OF this]
  show "?P pkg w'"
    unfolding pkg
    using run(1,3,6) scan checkConfigs_ok [OF refs(1)] checkPackageMods_ok [OF refs(2)] icon declared
    by (auto simp: scanned_def list_all_iff)
qed simp

text \<open>
  C12 (safety).  Unpacking writes only into the directory it unpacks to: whatever archive stands
  where the package was opened, and whichever calls fail, configuration files, an embedded mod of
  any name and the icon leave the content of every file outside that directory as it was.
\<close>

theorem extraction_stays_inside:
  assumes "root_path dir ds" "q \<notin> subtree dir"
  shows "cont (snd (ExtractConfigs E P pkg dir w)) q = cont w q \<and>
    cont (snd (ExtractEmbeddedMod E pkg fileName dir w)) q = cont w q \<and>
    cont (snd (ExtractIcon E pkg (JoinPath [dir, IconFileName]) w)) q = cont w q"
proof -
  have "JoinPath [dir, IconFileName] \<in> subtree dir"
    using joined_below(1) [OF assms(1), of IconFileName] by (simp add: subtree_def plain_def)
  note runs = extraction_evolves(1,2) [OF assms(1)] extraction_evolves(3) [OF assms(1) this]
  show ?thesis
    using runs assms(2) by (auto simp: evolves_def confined_def)
qed


section \<open>Instances\<close>

definition packedManifest :: package_manifest where
  "packedManifest = \<lparr>pk_schema = 3, pk_name = ''Home'', pk_description = [], pk_author = None,
     pk_version_id = ''v'', pk_version_name = ''1.20'', pk_client = [], pk_arguments = [],
     pk_mods = [\<lparr>pm_mod_id = [], pm_version_id = [], pm_name = ''own'', pm_version = [],
       pm_file_name = ''own.zip'', pm_source = PackageModSourceEmbedded, pm_checksum = [], pm_download_url = [],
       pm_enabled = True, pm_policy = [], pm_archive_path = []\<rparr>],
     pk_configs = [''a/b.json''], pk_icon = True, pk_created = 0\<rparr>"

definition packedEntries :: "zip_entry list" where
  "packedEntries =
     [((''manifest.json'', RegularEntry, 2), Blob ''{}'', Some packedManifest),
      ((''configs/a/'', DirectoryEntry, 0), Blob [], None),
      ((''configs/a/b.json'', RegularEntry, 3), Blob ''cfg'', None),
      ((''mods/own.zip'', RegularEntry, 3), Blob ''mod'', None),
      ((''icon.png'', RegularEntry, 3), Blob ''png'', None)]"

definition packedWorld :: mods_world where
  "packedWorld = sampleWorld
     [(''/'', DirNode), (''/x'', DirNode), (''/i'', DirNode),
      (''/x/p.wlx'', FileNode \<lparr>fd_content = ZipArchive packedEntries, fd_mtime = 1\<rparr>),
      (''/b.json'', FileNode \<lparr>fd_content = Blob ''mine'', fd_mtime = 1\<rparr>)] []"

lemma opened_package_checked_witness:
  "\<exists>pkg w' es. OpenPackage sampleEnv ''/x/p.wlx'' packedWorld = (Inr pkg, w') \<and>
     cont packedWorld ''/x/p.wlx'' = Some (ZipArchive es) \<and> list_all safe_entry (payload es)"
proof -
  let ?run = "OpenPackage sampleEnv ''/x/p.wlx'' packedWorld"
  have "\<not> isl (fst ?run)" by code_simp
  then obtain pkg w' where run: "?run = (Inr pkg, w')" by (cases ?run; cases "fst ?run") auto
  with opened_package_checked [OF run] show ?thesis by blast
qed

text \<open>An entry that would leave the directory, and the file it aims at.\<close>

definition hostileWorld :: mods_world where
  "hostileWorld = packedWorld\<lparr>w_fs := (''/x/p.wlx'', FileNode \<lparr>fd_content = ZipArchive
     (packedEntries @ [((''configs/../../b.json'', RegularEntry, 3), Blob ''bad'', None)]), fd_mtime = 2\<rparr>) # w_fs packedWorld\<rparr>"

lemma extraction_stays_inside_witness:
  "\<exists>pkg w1. OpenPackage sampleEnv ''/x/p.wlx'' packedWorld = (Inr pkg, w1) \<and>
     (let w' = snd (ExtractConfigs sampleEnv restorePorts pkg ''/i'' (w1\<lparr>w_fs := w_fs hostileWorld\<rparr>))
      in cont w' ''/i/a/b.json'' = Some (Blob ''cfg'') \<and> cont w' ''/b.json'' = Some (Blob ''mine''))"
proof -
  let ?run = "OpenPackage sampleEnv ''/x/p.wlx'' packedWorld"
  let ?v = "(snd ?run)\<lparr>w_fs := w_fs hostileWorld\<rparr>"
  have "\<not> isl (fst ?run)" by code_simp
  then obtain pkg where run: "?run = (Inr pkg, snd ?run)" by (cases ?run; cases "fst ?run") auto
  have "root_path ''/i'' [''i'']" by (simp add: root_path_def abs_path_def plain_def)
  from extraction_stays_inside [OF this, of "''/b.json''" sampleEnv restorePorts pkg ?v]
  have "cont (snd (ExtractConfigs sampleEnv restorePorts pkg ''/i'' ?v)) ''/b.json'' = cont ?v ''/b.json''"
    by (simp add: subtree_def under_def below_def HasPrefix_def)
  moreover have "cont ?v ''/b.json'' = Some (Blob ''mine'')"
    by (simp add: cont_def hostileWorld_def packedWorld_def sampleWorld_def fs_node_def)
  moreover have "case ?run of (Inr pkg, w1) \<Rightarrow>
      cont (snd (ExtractConfigs sampleEnv restorePorts pkg ''/i'' (w1\<lparr>w_fs := w_fs hostileWorld\<rparr>))) ''/i/a/b.json'' = Some (Blob ''cfg'')
    | _ \<Rightarrow> False" by code_simp
  ultimately show ?thesis using run by (intro exI [of _ pkg] exI [of _ "snd ?run"]) (auto simp: Let_def split: prod.splits)
qed

end
