(* ===== verification/PackageRoundTrip.thy ===== *)
theory PackageRoundTrip
  imports PackageFacts
begin

text \<open>
  An export followed by an import: the archive an export leaves, that the launcher can open it again,
  and that unpacking it gives back the files of the instance.
\<close>

section \<open>The archive of an export\<close>

lemma list_all2_partner:
  "list_all2 R xs zs \<Longrightarrow> z \<in> set zs \<Longrightarrow> \<exists>x \<in> set xs. R x z"
  "list_all2 R xs zs \<Longrightarrow> x \<in> set xs \<Longrightarrow> \<exists>z \<in> set zs. R x z"
  by (induction rule: list_all2_induct) auto

lemma same_cont: "confined {} w w' \<longleftrightarrow> cont w' = cont w"
  by (auto simp: confined_def)

lemma wp_reading:
  assumes "evolves (confined {}) m" "\<And>x v. cont v = cont w \<Longrightarrow> Q x v" "\<And>e v. X e v" shows "wp m Q X w"
  by (rule wp_confined [OF assms(1)]) (use assms(2,3) in \<open>auto simp: same_cont\<close>)

lemma wp_readRegular:
  assumes "\<And>c v. cont w p = Some c \<Longrightarrow> sizeOf E c \<le> limit \<Longrightarrow> cont v = cont w \<Longrightarrow> Q c v" "\<And>e v. X e v"
  shows "wp (readRegular E missing irregular tooLarge limit p) Q X w"
  unfolding readRegular_def wp_orFail statE_def
proof (rule wp_readE)
  fix info assume "osStat p (w_fs (tick w)) = Inr info"
  then have node: "fs_node (w_fs w) p = Some info" by (auto simp: osStat_def split: option.splits)
  show "wp (case info of DirNode \<Rightarrow> throwE (NewError ErrValidation irregular)
      | FileNode d \<Rightarrow> if sizeOf E (fd_content d) > limit then throwE (NewError ErrValidation tooLarge) else readFileE E p)
      Q X (tick w)"
    using node by (cases info) (auto simp: wp_simps assms(2) cont_def intro!: wp_readFileE assms(1))
qed (simp_all add: wp_simps assms(2))

text \<open>What the export takes for a configuration file: its content, without secrets.\<close>

definition delivered :: "snap_ports \<Rightarrow> string \<Rightarrow> content \<Rightarrow> content \<Rightarrow> bool" where
  "delivered P name c0 c \<longleftrightarrow> (if EqualFold (Base name) clientSettingsName then sp_sanitize P c0 = Inr c else c = c0)"

definition exported_config :: "snap_ports \<Rightarrow> mods_world \<Rightarrow> string \<Rightarrow> string \<Rightarrow> content \<Rightarrow> bool" where
  "exported_config P w dir relative c \<longleftrightarrow> (\<exists>clean c0. CleanArchiveName relative = Inr clean \<and>
     cont w (JoinPath [Clean dir, clean]) = Some c0 \<and> delivered P clean c0 c)"

lemma wp_readConfigFile:
  assumes "\<And>c v. exported_config P w dir relative c \<Longrightarrow> cont v = cont w \<Longrightarrow> Q c v" "\<And>e v. X e v"
  shows "wp (readConfigFile E P dir relative) Q X w"
proof (cases "CleanArchiveName relative")
  case (Inr clean)
  have read: "wp (bindE (readRegular E a b d n (JoinPath [Clean dir, clean])) (\<lambda>contents.
      if EqualFold (Base clean) clientSettingsName
      then (case sp_sanitize P contents of Inl _ \<Rightarrow> throwE err | Inr sanitized \<Rightarrow> returnE sanitized)
      else returnE contents)) Q X w" for a b d n err
    unfolding wp_bindE
    by (rule wp_readRegular)
      (auto simp: wp_simps exported_config_def delivered_def Inr split: sum.splits intro!: assms)
  then show ?thesis
    by (simp add: readConfigFile_def Inr wp_simps safeJoin_def Let_def assms(2))
qed (simp add: readConfigFile_def wp_simps assms(2))

definition config_entry :: "env \<Rightarrow> snap_ports \<Rightarrow> mods_world \<Rightarrow> string \<Rightarrow> string \<Rightarrow> zip_entry \<Rightarrow> bool" where
  "config_entry E P w dir relative z \<longleftrightarrow>
     (\<exists>c. exported_config P w dir relative c \<and> z = zipEntry E (ConfigsPrefix @ relative) c None)"

definition mod_entry :: "env \<Rightarrow> mods_world \<Rightarrow> string \<times> string \<Rightarrow> zip_entry \<Rightarrow> bool" where
  "mod_entry E w m z \<longleftrightarrow> Base (fst m) = fst m \<and>
     (\<exists>c. cont w (snd m) = Some c \<and> sizeOf E c \<le> maxEmbeddedModBytes \<and> z = zipEntry E (ModsPrefix @ fst m) c None)"

definition icon_entries :: "env \<Rightarrow> mods_world \<Rightarrow> write_source \<Rightarrow> zip_entry list \<Rightarrow> bool" where
  "icon_entries E w src zs \<longleftrightarrow>
     (if pk_icon (ws_manifest src) \<and> ws_icon src \<noteq> []
      then \<exists>c. cont w (ws_icon src) = Some c \<and> sizeOf E c \<le> maxIconBytes \<and> zs = [zipEntry E IconFileName c None]
      else zs = [])"

definition exported :: "env \<Rightarrow> snap_ports \<Rightarrow> (package_manifest \<Rightarrow> string) \<Rightarrow> mods_world \<Rightarrow> write_source \<Rightarrow> zip_entry list \<Rightarrow> bool" where
  "exported E P encode w src es \<longleftrightarrow> (\<exists>cs ms zs.
     es = zipEntry E ManifestFileName (Blob (encode (ws_manifest src))) (Some (writtenManifest (ws_manifest src))) # cs @ ms @ zs \<and>
     list_all2 (config_entry E P w (ws_directory src)) (pk_configs (ws_manifest src)) cs \<and>
     list_all2 (mod_entry E w) (ws_mods src) ms \<and> icon_entries E w src zs)"

lemma wp_writeEntry:
  assumes "\<And>v. cont v = cont w \<Longrightarrow> Q (es @ [zipEntry E name c d]) v" "\<And>e v. X e v"
  shows "wp (writeEntry E name c d es) Q X w"
  unfolding writeEntry_def wp_bindE wp_if wp_throwE wp_returnE
  by (intro wp_closeE) (auto simp: assms wp_closeE)

lemma wp_collect:
  assumes "\<And>x acc v. cont v = cont w \<Longrightarrow>
      wp (f x acc) (\<lambda>acc' v'. (\<exists>z. acc' = acc @ [z] \<and> R x z) \<and> cont v' = cont w) X v"
    and "\<And>zs v. list_all2 R xs zs \<Longrightarrow> cont v = cont w \<Longrightarrow> Q (es @ zs) v" "\<And>e v. X e v" "cont u = cont w"
  shows "wp (foldE f xs es) Q X u"
proof -
  define I where "I ys acc v \<longleftrightarrow> (\<exists>zs. acc = es @ zs \<and> list_all2 R ys zs) \<and> cont v = cont w" for ys acc v
  have "wp (foldE f xs es) (I xs) X u"
  proof (rule wp_foldE)
    fix ys x zs acc v assume "I ys acc v"
    then obtain us where us: "acc = es @ us" "list_all2 R ys us" "cont v = cont w" by (auto simp: I_def)
    show "wp (f x acc) (I (ys @ [x])) X v"
      by (rule wp_mono [OF assms(1) [OF us(3)]]) (use us in \<open>auto simp: I_def intro!: list_all2_appendI\<close>)
  qed (simp add: I_def assms(4))
  then show ?thesis by (rule wp_mono) (auto simp: I_def assms(2))
qed

lemma wp_writeEntries:
  assumes "\<And>es v. exported E P encode w src es \<Longrightarrow> cont v = cont w \<Longrightarrow> Q es v" "\<And>e v. X e v"
  shows "wp (writeEntries E P encode src) Q X w"
proof -
  let ?m = "zipEntry E ManifestFileName (Blob (encode (ws_manifest src))) (Some (writtenManifest (ws_manifest src)))"
  have quiet: "evolves (confined {}) (ctxE E)" by (rule confined_ctxE)
  have config: "wp (writeConfigEntry E P (ws_directory src) r acc)
      (\<lambda>acc' v'. (\<exists>z. acc' = acc @ [z] \<and> config_entry E P w (ws_directory src) r z) \<and> cont v' = cont w) X v"
    if "cont v = cont w" for r acc v
    unfolding writeConfigEntry_def wp_bindE
  proof (rule wp_reading [OF quiet])
    fix u v1 assume v1: "cont v1 = cont v"
    show "wp (readConfigFile E P (ws_directory src) r) (\<lambda>c. wp (writeEntry E (ConfigsPrefix @ r) c None acc)
        (\<lambda>acc' v'. (\<exists>z. acc' = acc @ [z] \<and> config_entry E P w (ws_directory src) r z) \<and> cont v' = cont w) X) X v1"
      by (intro wp_readConfigFile wp_writeEntry)
        (use v1 that in \<open>auto simp: config_entry_def exported_config_def assms(2)\<close>)
  qed (simp add: assms(2))
  have mod: "wp (writeModEntry E m acc)
      (\<lambda>acc' v'. (\<exists>z. acc' = acc @ [z] \<and> mod_entry E w m z) \<and> cont v' = cont w) X v"
    if "cont v = cont w" for m acc v
    unfolding writeModEntry_def readEmbeddedMod_def wp_bindE
  proof (rule wp_reading [OF quiet])
    fix u v1 assume v1: "cont v1 = cont v"
    show "wp (if Base (fst m) \<noteq> fst m then throwE (NewError ErrValidation ''Embedded mod name is not a plain file name'')
        else bindE (readRegular E (\<lambda>e. e) ''Mod source is not a regular file''
          ''Mod file is too large to embed in the package'' maxEmbeddedModBytes (snd m))
          (\<lambda>c. writeEntry E (ModsPrefix @ fst m) c None acc))
        (\<lambda>acc' v'. (\<exists>z. acc' = acc @ [z] \<and> mod_entry E w m z) \<and> cont v' = cont w) X v1"
      unfolding wp_if wp_bindE wp_throwE
      by (auto simp: assms(2) simp del: split_paired_Ex intro!: wp_readRegular wp_writeEntry)
        (use v1 that in \<open>auto simp: mod_entry_def\<close>)
  qed (simp add: assms(2))
  show ?thesis
    unfolding writeEntries_def wp_bindE
  proof (intro wp_writeEntry wp_collect [where w = w and R = "config_entry E P w (ws_directory src)"]
      wp_collect [where w = w and R = "mod_entry E w"])
    fix v cs v1 ms v2
    assume parts: "list_all2 (config_entry E P w (ws_directory src)) (pk_configs (ws_manifest src)) cs"
      "list_all2 (mod_entry E w) (ws_mods src) ms" and v2: "cont v2 = cont w"
    show "wp (if pk_icon (ws_manifest src) \<and> ws_icon src \<noteq> []
        then bindE (readIcon E (ws_icon src)) (\<lambda>c. writeEntry E IconFileName c None ((([] @ [?m]) @ cs) @ ms))
        else returnE ((([] @ [?m]) @ cs) @ ms)) Q X v2"
      unfolding wp_if wp_bindE wp_returnE readIcon_def
      by (auto simp: assms(2) intro!: wp_readRegular wp_writeEntry assms(1))
        (use parts v2 in \<open>auto simp: exported_def icon_entries_def\<close>)
  qed (use config mod in \<open>auto simp: assms(2)\<close>)
qed


text \<open>A file renamed onto another path.\<close>

lemma wp_renameE_file:
  assumes "cont w a = Some c" "a \<noteq> b"
    and "\<And>v. cont v b = Some c \<Longrightarrow> confined {a, b} w v \<Longrightarrow> Q () v" "\<And>e v. X e v"
  shows "wp (renameE E a b) Q X w"
  unfolding renameE_def
proof (rule wp_fsE)
  fix u t assume run: "osRename a b (w_fs w) = (Inr u, t)"
  obtain d where d: "fs_node (w_fs w) a = Some (FileNode d)" "fd_content d = c"
    using assms(1) by (auto simp: cont_def split: option.splits node.splits)
  have "\<forall>q. fs_node t q = (if q = b then Some (FileNode d) else if q = a then None else fs_node (w_fs w) q)"
    using osRename_file [OF run d(1) assms(2)] by auto
  then have "cont ((tick w)\<lparr>w_fs := t\<rparr>) b = Some c" "confined {a, b} w ((tick w)\<lparr>w_fs := t\<rparr>)"
    using d(2) by (auto simp: cont_def confined_def)
  then show "Q u ((tick w)\<lparr>w_fs := t\<rparr>)" by (simp add: assms(3))
qed (simp_all add: assms(4))

lemma wp_copyIntoE:
  assumes "\<And>v. cont v = (cont w)(p := Some c) \<Longrightarrow> Q () v" "\<And>e v. X e v" shows "wp (copyIntoE E p c) Q X w"
  unfolding copyIntoE_def by (rule wp_fsNowE) (auto simp: assms fun_eq_iff cont_def writeContent_def)

lemma wp_abandon: "(\<And>e v. X e v) \<Longrightarrow> wp (bindE m (\<lambda>_. throwE e)) Q X w"
  by (auto simp: bindE_def wp_def throwE_def split: prod.splits sum.splits)

lemma wp_WritePackage:
  assumes "Clean target = target"
    and "\<And>es v v1. exported E P encode v src es \<Longrightarrow> confined {target @ ''.partial''} w v \<Longrightarrow>
      cont v1 target = Some (ZipArchive es) \<Longrightarrow> confined {target, target @ ''.partial''} w v1 \<Longrightarrow> Q () v1"
    and "\<And>e v. X e v"
  shows "wp (WritePackage E P encode target src) Q X w"
proof -
  let ?part = "target @ ''.partial''"
  have rest: "wp (orFail (bindE (writeEntries E P encode src) (\<lambda>es. copyIntoE E ?part (ZipArchive es)))
      (\<lambda>e. bindE (abortPackageWrite E target) (\<lambda>_. throwE e)) (\<lambda>_.
       orFail (closeE E) (\<lambda>e. bindE (ignoreE (removeE E ?part)) (\<lambda>_. throwE e)) (\<lambda>_.
       renameE E ?part target))) Q X v" if v: "confined {?part} w v" for v
    unfolding wp_orFail wp_bindE [of "writeEntries E P encode src"]
  proof (intro wp_writeEntries wp_copyIntoE wp_closeE)
    fix es v1 v2 assume es: "exported E P encode v src es" "cont v1 = cont v" "cont v2 = (cont v1)(?part := Some (ZipArchive es))"
    show "wp (renameE E ?part target) Q X (tick v2)"
    proof (rule wp_renameE_file)
      fix v3 assume v3: "cont v3 target = Some (ZipArchive es)" "confined {?part, target} (tick v2) v3"
      then have "confined {target, ?part} w v3" using v es by (auto simp: confined_def)
      with assms(2) [OF es(1) v v3(1)] show "Q () v3" .
    qed (use es in \<open>simp_all add: assms(3)\<close>)
  qed (simp_all add: wp_abandon assms(3))
  show ?thesis
    unfolding WritePackage_def Let_def assms(1) wp_bindE [of "mkdirE E (Dir target)"]
  proof (rule wp_confined [where T = "{}"])
    fix u v assume v: "confined {} w v"
    show "wp (bindE (createE E ?part) (\<lambda>_.
        orFail (bindE (writeEntries E P encode src) (\<lambda>es. copyIntoE E ?part (ZipArchive es)))
        (\<lambda>e. bindE (abortPackageWrite E target) (\<lambda>_. throwE e)) (\<lambda>_.
         orFail (closeE E) (\<lambda>e. bindE (ignoreE (removeE E ?part)) (\<lambda>_. throwE e)) (\<lambda>_.
         renameE E ?part target)))) Q X v"
      unfolding wp_bindE [of "createE E ?part"]
      by (rule wp_confined [where T = "{?part}"])
        (auto intro!: confined_rules rest assms(3) intro: confined_trans [OF v])
  qed (auto intro!: confined_rules assms(3))
qed


section \<open>The launcher opens what it exported\<close>

text \<open>
  What the export relies on: a manifest the launcher supports and can read back, names of
  configuration files and mods that an import accepts, and a file for every embedded mod and the icon.
\<close>

definition portable :: "env \<Rightarrow> (package_manifest \<Rightarrow> string) \<Rightarrow> write_source \<Rightarrow> bool" where
  "portable E encode src \<longleftrightarrow> (let m = ws_manifest src in
     0 < sizeOf E (Blob (encode m)) \<and> sizeOf E (Blob (encode m)) \<le> maxManifestBytes \<and> \<not> isl (checkManifest m) \<and>
     list_all (\<lambda>c. validateConfigRelative c = Inr () \<and> CHR 0x00 \<notin> set c) (pk_configs m) \<and> distinct (pk_configs m) \<and>
     list_all (\<lambda>f. plain f \<and> isPackageMod f \<and> CHR 0x00 \<notin> set f) (map fst (ws_mods src)) \<and>
     list_all (\<lambda>p. pm_source p = PackageModSourceEmbedded \<longrightarrow> pm_file_name p \<in> fst ` set (ws_mods src)) (pk_mods m) \<and>
     (pk_icon m \<longrightarrow> ws_icon src \<noteq> []))"

definition fits :: "zip_entry list \<Rightarrow> bool" where
  "fits es \<longleftrightarrow> length es \<le> maxEntryCount \<and>
     list_all (\<lambda>z. uint (ze_size z) \<le> entryLimit (ze_name z)) (payload es) \<and>
     (\<Sum>z\<leftarrow>payload es. uint (ze_size z)) \<le> maxTotalUncompressed"

definition acceptable :: "zip_entry \<Rightarrow> bool" where
  "acceptable z \<longleftrightarrow> CleanArchiveName (ze_name z) = Inr (ze_name z) \<and> ze_kind z = RegularEntry \<and>
     (ze_name z = ManifestFileName \<or>
      \<not> isl (ValidateEntryName (ze_name z) []) \<and> uint (ze_size z) \<le> entryLimit (ze_name z))"

lemma scanZip_accepts:
  "list_all acceptable zs \<Longrightarrow> uint (sc_total s) + (\<Sum>z\<leftarrow>payload zs. uint (ze_size z)) \<le> maxTotalUncompressed \<Longrightarrow>
     \<exists>s'. scanZip zs s = Inr s'"
proof (induction zs arbitrary: s)
  case (Cons z zs)
  then have z: "acceptable z" and zs: "list_all acceptable zs" by simp_all
  have nonneg: "0 \<le> (\<Sum>z\<leftarrow>payload zs. uint (ze_size z))" by (intro sum_list_nonneg) auto
  show ?case
  proof (cases "ze_name z = ManifestFileName")
    case True
    with z have "scanZipEntry z s = Inr (s\<lparr>sc_seen := True\<rparr>)" by (simp add: scanZipEntry_def acceptable_def)
    moreover have "payload (z # zs) = payload zs"
      using True z by (simp add: payload_def acceptable_def isManifestEntry_def)
    ultimately show ?thesis using Cons.IH [of "s\<lparr>sc_seen := True\<rparr>"] Cons.prems zs by simp
  next
    case False
    with z obtain d where d: "ValidateEntryName (ze_name z) [] = Inr d" "uint (ze_size z) \<le> entryLimit (ze_name z)"
      and clean: "CleanArchiveName (ze_name z) = Inr (ze_name z)" "ze_kind z = RegularEntry"
      by (auto simp: acceptable_def isl_def split: sum.splits) (metis old.sum.exhaust)
    have pay: "payload (z # zs) = z # payload zs" using False clean by (simp add: payload_def isManifestEntry_def)
    have small: "uint (ze_size z) < 2 ^ 63" using d(2) entryLimit_le [of "ze_name z"] by simp
    let ?t = "sc_total s + ze_size z"
    have below: "uint (sc_total s) + uint (ze_size z) + (\<Sum>z\<leftarrow>payload zs. uint (ze_size z)) \<le> maxTotalUncompressed"
      using Cons.prems(2) pay by simp
    then have "uint (sc_total s) + uint (ze_size z) < 2 ^ 63" using nonneg by (simp add: maxTotalUncompressed_def)
    then have total: "uint ?t = uint (sc_total s) + uint (ze_size z)" "sint ?t = uint ?t"
      by (simp_all add: uint_word_ariths zmod_trivial_iff sint_small)
    have "sint (ze_size z) \<le> entryLimit (ze_name z)" "sint ?t \<le> maxTotalUncompressed"
      using d(2) sint_small [OF small] total below nonneg by simp_all
    then obtain s' where s': "scanZipEntry z s = Inr s'" "sc_total s' = ?t"
      using False clean d(1) by (simp add: scanZipEntry_def Let_def)
    then show ?thesis using Cons.IH [of s'] zs total(1) below by simp
  qed
qed simp

lemma plain_parts: "\<not> list_ex unsafePart (Split s (CHR ''/'')) \<Longrightarrow> list_all plain (Split s (CHR ''/''))"
  using Split_no_sep by (auto simp: list_all_iff list_ex_iff unsafePart_def plain_def)

lemma config_name:
  assumes "validateConfigRelative c = Inr ()" "CHR 0x00 \<notin> set c"
  shows "CleanArchiveName c = Inr c" "CleanArchiveName (ConfigsPrefix @ c) = Inr (ConfigsPrefix @ c)"
    "\<not> isl (ValidateEntryName (ConfigsPrefix @ c) [])"
proof -
  have parts: "list_all plain (Split c (CHR ''/''))"
    using assms(1) by (intro plain_parts) (auto simp: validateConfigRelative_def Let_def split: if_splits)
  then show "CleanArchiveName c = Inr c" using assms(2) by (rule CleanArchiveName_of_plain)
  have "Split (ConfigsPrefix @ c) (CHR ''/'') = ''configs'' # Split c (CHR ''/'')"
    using Split_prefix [of "''configs''" c] by simp
  with parts show clean: "CleanArchiveName (ConfigsPrefix @ c) = Inr (ConfigsPrefix @ c)"
    using assms(2) by (intro CleanArchiveName_of_plain) (simp_all add: plain_def)
  have "TrimPrefix (ConfigsPrefix @ c) ConfigsPrefix = c" by (simp add: TrimPrefix_def HasPrefix_def)
  then show "\<not> isl (ValidateEntryName (ConfigsPrefix @ c) [])"
    using clean assms(1) by (simp add: ValidateEntryName_def HasPrefix_def)
qed


lemma mod_name:
  assumes "plain f" "isPackageMod f" "CHR 0x00 \<notin> set f" "Base f = f"
  shows "CleanArchiveName (ModsPrefix @ f) = Inr (ModsPrefix @ f)" "\<not> isl (ValidateEntryName (ModsPrefix @ f) [])"
proof -
  have "Split (ModsPrefix @ f) (CHR ''/'') = ''mods'' # Split f (CHR ''/'')"
    using Split_prefix [of "''mods''" f] by simp
  moreover have "Split f (CHR ''/'') = [f]" using assms(1) by (intro Split_id) (simp add: plain_def)
  ultimately show clean: "CleanArchiveName (ModsPrefix @ f) = Inr (ModsPrefix @ f)"
    using assms by (intro CleanArchiveName_of_plain) (simp_all add: plain_def)
  have "TrimPrefix (ModsPrefix @ f) ModsPrefix = f" by (simp add: TrimPrefix_def HasPrefix_def)
  then show "\<not> isl (ValidateEntryName (ModsPrefix @ f) [])"
    using clean assms(2,4) by (simp add: ValidateEntryName_def HasPrefix_def)
qed

lemma mod_name_visible: "isPackageMod f \<Longrightarrow> TrimSpace f \<noteq> []"
proof
  assume mod: "isPackageMod f" and "TrimSpace f = []"
  then have "\<forall>x \<in> set f. is_space x" by (auto simp: TrimSpace_def dropWhile_eq_Nil_conv dest: set_dropWhileD) (metis dropWhile_eq_Nil_conv hd_dropWhile hd_in_set)
  moreover have "\<not> is_space (CHR ''.'')" by code_simp
  ultimately have "CHR ''.'' \<notin> set (after_last (CHR ''/'') f)" by (auto simp: after_last_def dest: set_takeWhileD)
  then have "Ext f = []" by (simp add: Ext_def Let_def)
  with mod show False by (simp add: isPackageMod_def ToLower_def)
qed

lemma zipEntry_fields [simp]:
  "ze_name (zipEntry E n c d) = n"
  "ze_kind (zipEntry E n c d) = (if HasSuffix n ''/'' then DirectoryEntry else RegularEntry)"
  "snd (zipEntry E n c d) = (c, d)"
  by (simp_all add: zipEntry_def)

lemma zipEntry_regular: "CleanArchiveName n = Inr n \<Longrightarrow> ze_kind (zipEntry E n c d) = RegularEntry"
  using plain_no_tail [OF CleanArchiveName_plain] by simp

lemma config_entry_name: "config_entry E P w dir c z \<Longrightarrow> ze_name z = ConfigsPrefix @ c"
  by (auto simp: config_entry_def)

lemma exported_acceptable:
  assumes "exported E P encode w src es" "portable E1 encode src" "fits es"
  shows "list_all acceptable es"
proof -
  let ?m = "ws_manifest src"
  obtain cs ms zs where es: "es = zipEntry E ManifestFileName (Blob (encode ?m)) (Some (writtenManifest ?m)) # cs @ ms @ zs"
    and parts: "list_all2 (config_entry E P w (ws_directory src)) (pk_configs ?m) cs" "list_all2 (mod_entry E w) (ws_mods src) ms"
      "icon_entries E w src zs"
    using assms(1) by (auto simp: exported_def)
  have sizes: "uint (ze_size z) \<le> entryLimit (ze_name z)"
    if "z \<in> set es" "ze_name z \<noteq> ManifestFileName" "CleanArchiveName (ze_name z) = Inr (ze_name z)" "ze_kind z = RegularEntry" for z
  proof -
    have "z \<in> set (payload es)" using that by (simp add: payload_def isManifestEntry_def)
    then show ?thesis using assms(3) unfolding fits_def list_all_iff by blast
  qed
  have ok: "acceptable z"
    if "z \<in> set es" "CleanArchiveName (ze_name z) = Inr (ze_name z)" "\<not> isl (ValidateEntryName (ze_name z) [])"
      "ze_kind z = RegularEntry" for z
    using that sizes [OF that(1) _ that(2,4)] by (auto simp: acceptable_def)
  have "acceptable z" if z: "z \<in> set cs" for z
  proof -
    obtain r where r: "r \<in> set (pk_configs ?m)" "config_entry E P w (ws_directory src) r z"
      using list_all2_partner(1) [OF parts(1) z] by auto
    then have "validateConfigRelative r = Inr ()" "CHR 0x00 \<notin> set r"
      using assms(2) by (auto simp: portable_def Let_def list_all_iff)
    from config_name(2,3) [OF this] r(2) show ?thesis
      using z zipEntry_regular by (intro ok) (auto simp: es config_entry_def simp del: zipEntry_fields(2))
  qed
  moreover have "acceptable z" if z: "z \<in> set ms" for z
  proof -
    obtain r where r: "r \<in> set (ws_mods src)" "mod_entry E w r z"
      using list_all2_partner(1) [OF parts(2) z] by auto
    then have "plain (fst r)" "isPackageMod (fst r)" "CHR 0x00 \<notin> set (fst r)" "Base (fst r) = fst r"
      using assms(2) by (auto simp: portable_def Let_def list_all_iff mod_entry_def)
    from mod_name [OF this] r(2) show ?thesis
      using z zipEntry_regular by (intro ok) (auto simp: es mod_entry_def simp del: zipEntry_fields(2))
  qed
  moreover have "acceptable z" if "z \<in> set zs" for z
  proof -
    have icon: "CleanArchiveName IconFileName = Inr IconFileName" by code_simp
    then have "\<not> isl (ValidateEntryName IconFileName [])" by (simp add: ValidateEntryName_def)
    then show ?thesis
      using that parts(3) icon zipEntry_regular [OF icon]
      by (intro ok) (auto simp: es icon_entries_def simp del: zipEntry_fields(2) split: if_splits)
  qed
  moreover have "acceptable (zipEntry E ManifestFileName c d)" for c d
    by (simp add: acceptable_def) code_simp
  ultimately show ?thesis by (auto simp: es list_all_iff)
qed

lemma checkConfigs_accepts:
  "distinct cs \<Longrightarrow> list_all (\<lambda>c. CleanArchiveName c = Inr c \<and> c \<notin> set seen \<and> ConfigsPrefix @ c \<in> dom (map_of entries)) cs \<Longrightarrow>
     checkConfigs entries seen cs = Inr ()"
proof (induction cs arbitrary: seen)
  case (Cons c cs)
  then have "checkConfigs entries (c # seen) cs = Inr ()" by (intro Cons.IH) (auto simp: list_all_iff)
  with Cons.prems show ?case by auto
qed simp

lemma checkPackageMods_accepts:
  "list_all (\<lambda>m. checkPackageMod entries m = Inr ()) ms \<Longrightarrow> checkPackageMods entries ms = Inr ()"
  by (induction ms) auto


lemma calm_OpenPackage:
  assumes "ev_fault E = (\<lambda>_. None)" "cont w path = Some (ZipArchive es)" "length es \<le> maxEntryCount"
    and "find isManifestEntry es = Some (h, raw, Some m0)" "0 < sizeOf E raw \<and> sizeOf E raw \<le> maxManifestBytes"
    and "checkManifest m0 = Inr m" "scanZip es emptyScan = Inr s" "openedFrom path m s = Inr pkg"
  shows "\<exists>w'. OpenPackage E path w = (Inr pkg, w')"
proof -
  have read: "readE E f v = (f (tick v), tick v)" for f :: "mods_world \<Rightarrow> 'x result" and v
    by (simp add: readE_def callE_def assms(1) tick_def)
  have "osReadFile path (w_fs (tick w)) = Inr (ZipArchive es)"
    using assms(2) by (auto simp: osReadFile_def cont_def split: option.splits node.splits)
  then have "OpenReader E path w = (Inr es, tick w)"
    by (simp add: OpenReader_def bindE_def readFileE_def read returnE_def)
  moreover have "readManifest E es (tick w) = (Inr m, tick (tick (tick w)))"
    using assms(4-6)
    by (simp add: readManifest_def orFail_def catchE_def bindE_def closeE_def read liftE_def returnE_def)
  ultimately show ?thesis
    using assms(3,7,8) by (simp add: OpenPackage_def orFail_def catchE_def bindE_def liftE_def returnE_def)
qed

lemma checkManifest_written:
  assumes "\<not> isl (checkManifest m0)"
  shows "\<exists>m. checkManifest (writtenManifest m0) = Inr m \<and> pk_configs m = pk_configs m0 \<and> pk_icon m = pk_icon m0 \<and>
    pk_mods m = pk_mods (writtenManifest m0)"
proof -
  have "isl (checkManifest (writtenManifest m0)) = isl (checkManifest m0)"
    by (auto simp: checkManifest_def writtenManifest_def split: option.split)
  then obtain m where m: "checkManifest (writtenManifest m0) = Inr m"
    using assms by (cases "checkManifest (writtenManifest m0)") auto
  note same = checkManifest_ok(1) [OF m]
  have "pk_configs m = pk_configs (writtenManifest m0)" "pk_icon m = pk_icon (writtenManifest m0)"
    "pk_mods m = pk_mods (writtenManifest m0)"
    using arg_cong [OF same, of pk_configs] arg_cong [OF same, of pk_icon] arg_cong [OF same, of pk_mods] by simp_all
  with m show ?thesis by (simp add: writtenManifest_def)
qed

lemma scanned_lists:
  assumes "scanned es s" "z \<in> set (payload es)" "CleanArchiveName (ze_name z) = Inr n"
  shows "n \<in> dom (map_of (sc_entries s))"
proof -
  have "(\<lambda>z. CleanArchiveName (ze_name z)) ` set (payload es) = {Inr n | n. n \<in> dom (map_of (sc_entries s))}"
    using assms(1) by (simp only: scanned_def)
  then have "CleanArchiveName (ze_name z) \<in> {Inr n | n. n \<in> dom (map_of (sc_entries s))}"
    using assms(2) by blast
  then show ?thesis unfolding assms(3) by blast
qed

text \<open>The scan of an exported archive lists its entries.\<close>

lemma scan_lists:
  assumes "list_all acceptable es" "scanZip es emptyScan = Inr s" "z \<in> set es" "ze_name z \<noteq> ManifestFileName"
  shows "ze_name z \<in> dom (map_of (sc_entries s))"
proof -
  have z: "CleanArchiveName (ze_name z) = Inr (ze_name z)" "ze_kind z = RegularEntry"
    using assms(1,3) by (auto simp: list_all_iff acceptable_def)
  then have "z \<in> set (payload es)" using assms(3,4) by (simp add: payload_def isManifestEntry_def)
  with scanned_all [OF assms(2) scanned_empty] z(1) show ?thesis by (intro scanned_lists) simp_all
qed

lemma exported_parts:
  assumes "exported E P encode v src es"
  shows "\<exists>cs ms. list_all2 (config_entry E P v (ws_directory src)) (pk_configs (ws_manifest src)) cs \<and> set cs \<subseteq> set es \<and>
    list_all2 (mod_entry E v) (ws_mods src) ms \<and> set ms \<subseteq> set es"
proof -
  obtain cs ms zs h where "es = h # cs @ ms @ zs" and parts: "list_all2 (mod_entry E v) (ws_mods src) ms"
    "list_all2 (config_entry E P v (ws_directory src)) (pk_configs (ws_manifest src)) cs"
    using assms unfolding exported_def by blast
  then show ?thesis by (intro exI [of _ cs] exI [of _ ms]) auto
qed

lemma exported_configs:
  assumes "exported E P encode v src es" "portable E1 encode src" "fits es" "scanZip es emptyScan = Inr s"
  shows "checkConfigs (sc_entries s) [] (pk_configs (ws_manifest src)) = Inr ()"
proof (rule checkConfigs_accepts)
  show "distinct (pk_configs (ws_manifest src))" using assms(2) by (simp add: portable_def Let_def)
  show "list_all (\<lambda>c. CleanArchiveName c = Inr c \<and> c \<notin> set [] \<and> ConfigsPrefix @ c \<in> dom (map_of (sc_entries s)))
      (pk_configs (ws_manifest src))"
    unfolding list_all_iff
  proof
    fix c assume c: "c \<in> set (pk_configs (ws_manifest src))"
    obtain cs where cs: "list_all2 (config_entry E P v (ws_directory src)) (pk_configs (ws_manifest src)) cs" "set cs \<subseteq> set es"
      using exported_parts [OF assms(1)] by blast
    then obtain z where z: "z \<in> set es" "ze_name z = ConfigsPrefix @ c"
      using list_all2_partner(2) [OF cs(1) c] config_entry_name by blast
    have "validateConfigRelative c = Inr ()" "CHR 0x00 \<notin> set c"
      using assms(2) c by (auto simp: portable_def Let_def list_all_iff)
    then show "CleanArchiveName c = Inr c \<and> c \<notin> set [] \<and> ConfigsPrefix @ c \<in> dom (map_of (sc_entries s))"
      using config_name(1) scan_lists [OF exported_acceptable [OF assms(1-3)] assms(4) z(1)] z(2) by simp
  qed
qed

lemma mod_entry_name: "mod_entry E v r z \<Longrightarrow> ze_name z = ModsPrefix @ fst r \<and> Base (fst r) = fst r"
  by (auto simp: mod_entry_def)

lemma exported_mods:
  assumes "exported E P encode v src es" "portable E1 encode src" "fits es" "scanZip es emptyScan = Inr s"
  shows "checkPackageMods (sc_entries s) (pk_mods (writtenManifest (ws_manifest src))) = Inr ()"
proof (rule checkPackageMods_accepts)
  have "checkPackageMod (sc_entries s) p = Inr ()" if p: "p \<in> set (pk_mods (writtenManifest (ws_manifest src)))" for p
  proof (cases "pm_source p = PackageModSourceEmbedded")
    case True
    then have known: "pm_file_name p \<in> fst ` set (ws_mods src)" and path: "pm_archive_path p = []"
      using p assms(2) by (auto simp: writtenManifest_def portable_def Let_def list_all_iff)
    obtain ms where ms: "list_all2 (mod_entry E v) (ws_mods src) ms" "set ms \<subseteq> set es"
      using exported_parts [OF assms(1)] by blast
    from known obtain r where r: "fst r = pm_file_name p" "r \<in> set (ws_mods src)" by force
    then obtain z where z: "z \<in> set es" "mod_entry E v r z"
      using list_all2_partner(2) [OF ms(1)] ms(2) by blast
    note name = mod_entry_name [OF z(2)]
    have "plain (pm_file_name p)" "isPackageMod (pm_file_name p)" "CHR 0x00 \<notin> set (pm_file_name p)"
      using assms(2) known by (auto simp: portable_def Let_def list_all_iff)
    then have "CleanArchiveName (ModsPrefix @ pm_file_name p) = Inr (ModsPrefix @ pm_file_name p)"
      "TrimSpace (pm_file_name p) \<noteq> []"
      using mod_name(1) mod_name_visible name r(1) by simp_all
    then show ?thesis
      using scan_lists [OF exported_acceptable [OF assms(1-3)] assms(4) z(1)] name r(1) path
      by (auto simp: checkPackageMod_def modsArchiveName_def)
  qed (simp add: checkPackageMod_def)
  then show "list_all (\<lambda>p. checkPackageMod (sc_entries s) p = Inr ()) (pk_mods (writtenManifest (ws_manifest src)))"
    by (simp add: list_all_iff)
qed

lemma exported_icon:
  assumes "exported E P encode v src es" "portable E1 encode src" "fits es" "scanZip es emptyScan = Inr s"
    and "pk_icon (ws_manifest src)"
  shows "map_of (sc_entries s) IconFileName \<noteq> None"
proof -
  have "ws_icon src \<noteq> []" using assms(2,5) by (simp add: portable_def Let_def)
  then have "\<exists>c. zipEntry E IconFileName c None \<in> set es"
    using assms(1,5) by (fastforce simp: exported_def icon_entries_def)
  then obtain c where "zipEntry E IconFileName c None \<in> set es" ..
  from scan_lists [OF exported_acceptable [OF assms(1-3)] assms(4) this] show ?thesis by auto
qed

lemma exported_opens:
  assumes "exported E P encode v src es" "portable E1 encode src" "fits es"
    and "ev_fault E1 = (\<lambda>_. None)" "cont w path = Some (ZipArchive es)"
  shows "\<exists>pkg w'. OpenPackage E1 path w = (Inr pkg, w')"
proof -
  let ?m = "ws_manifest src"
  let ?z = "zipEntry E ManifestFileName (Blob (encode ?m)) (Some (writtenManifest ?m))"
  have "uint (sc_total emptyScan) + (\<Sum>z\<leftarrow>payload es. uint (ze_size z)) \<le> maxTotalUncompressed"
    using assms(3) by (simp add: fits_def emptyScan_def)
  then obtain s where scan: "scanZip es emptyScan = Inr s"
    using scanZip_accepts [OF exported_acceptable [OF assms(1-3)]] by blast
  note entries = exported_configs [OF assms(1-3) scan] exported_mods [OF assms(1-3) scan] exported_icon [OF assms(1-3) scan]
  have plan: "0 < sizeOf E1 (Blob (encode ?m)) \<and> sizeOf E1 (Blob (encode ?m)) \<le> maxManifestBytes" "\<not> isl (checkManifest ?m)"
    using assms(2) by (simp_all add: portable_def Let_def)
  obtain m where m: "checkManifest (writtenManifest ?m) = Inr m" "pk_configs m = pk_configs ?m" "pk_icon m = pk_icon ?m"
    "pk_mods m = pk_mods (writtenManifest ?m)"
    using checkManifest_written [OF plan(2)] by blast
  have manifest: "isManifestEntry ?z" unfolding isManifestEntry_def zipEntry_fields by code_simp
  obtain rest where es: "es = ?z # rest" using assms(1) unfolding exported_def by blast
  then have "sc_seen s" using scanned_all [OF scan scanned_empty] manifest by (simp add: scanned_def)
  moreover have "\<not> (map_of (sc_entries s) IconFileName = None \<and> pk_icon m)" using entries(3) m(3) by blast
  ultimately obtain pkg where opened: "openedFrom path m s = Inr pkg"
    using entries(1,2) m(2,4) by (simp add: openedFrom_def validateManifestReferencedEntries_def)
  have found: "find isManifestEntry es = Some (fst ?z, Blob (encode ?m), Some (writtenManifest ?m))"
    using manifest by (simp add: es zipEntry_def)
  have few: "length es \<le> maxEntryCount" using assms(3) by (simp add: fits_def)
  show ?thesis using calm_OpenPackage [OF assms(4,5) few found plan(1) m(1) scan opened] by blast
qed

section \<open>What unpacking gives back\<close>

lemma after_last_tail: "after_last c (p @ c # s) = after_last c s"
  by (simp add: after_last_def takeWhile_tail)

lemma strip_slashes_id: "s \<noteq> [] \<Longrightarrow> last s \<noteq> CHR ''/'' \<Longrightarrow> strip_slashes s = s"
  by (cases s rule: rev_cases) (simp_all add: strip_slashes_def)

lemma Base_joined:
  assumes "list_all plain (Split s (CHR ''/''))" shows "Base (dir @ ''/'' @ s) = Base s"
proof -
  have ne: "s \<noteq> []" using assms by (auto simp: plain_def)
  have "last s \<noteq> CHR ''/''"
    using plain_no_tail [OF assms] ne by (cases s rule: rev_cases) (auto simp: HasSuffix_def HasPrefix_def)
  then have "strip_slashes (dir @ ''/'' @ s) = dir @ ''/'' @ s" "strip_slashes s = s"
    using ne by (simp_all add: strip_slashes_id)
  then show ?thesis using ne after_last_tail [of "CHR ''/''" dir s] by (simp add: Base_def)
qed


lemma bindE_assoc: "bindE (bindE m f) g = bindE m (\<lambda>x. bindE (f x) g)"
  by (rule ext) (simp add: bindE_def split: prod.split sum.split)

lemma wp_extractEntry:
  assumes "\<And>v. cont v d = Some (fst (snd z)) \<Longrightarrow> confined {d} w v \<Longrightarrow> Q () v" "\<And>e v. X e v"
  shows "wp (extractEntry E z d limit) Q X w"
proof -
  have rest: "wp (if sizeOf E (fst (snd z)) > limit then throwE (entryLimitMessage (ze_name z))
      else atomicWrite E d (fst (snd z))) Q X v" if v: "confined {} w v" for v
  proof -
    have "wp (atomicWrite E d (fst (snd z))) Q X v"
      by (rule wp_mono [OF wp_atomicWrite_cont]) (auto intro!: assms intro: confined_trans [OF v])
    then show ?thesis by (simp add: wp_if wp_throwE assms(2))
  qed
  have begin': "evolves (confined {}) (bindE (closeE E) (\<lambda>_. bindE (mkdirE E (Dir d)) (\<lambda>_. closeE E)))"
    by (auto intro!: confined_rules)
  have "wp (bindE (closeE E) (\<lambda>_. bindE (mkdirE E (Dir d)) (\<lambda>_. closeE E)))
      (\<lambda>_. wp (if sizeOf E (fst (snd z)) > limit then throwE (entryLimitMessage (ze_name z))
        else atomicWrite E d (fst (snd z))) Q X) X w"
    by (rule wp_confined [OF begin']) (rule rest, assumption, rule assms(2))
  then show ?thesis unfolding extractEntry_def by (simp flip: wp_bindE add: bindE_assoc)
qed

text \<open>A configuration file as it is after unpacking: the entry, without secrets.\<close>

definition unpacked :: "snap_ports \<Rightarrow> string \<Rightarrow> zip_entry list \<Rightarrow> mods_world \<Rightarrow> string \<Rightarrow> bool" where
  "unpacked P dir es w relative \<longleftrightarrow> list_all plain (Split relative (CHR ''/'')) \<and>
     (\<exists>z \<in> set es. \<exists>c. CleanArchiveName (ze_name z) = Inr (ConfigsPrefix @ relative) \<and> ze_kind z \<noteq> DirectoryEntry \<and>
        delivered P relative (fst (snd z)) c \<and> cont w (JoinPath [dir, relative]) = Some c)"

lemma wp_sanitize_file:
  assumes "cont w p = Some c0" "EqualFold (Base p) clientSettingsName"
    and "\<And>c v. delivered P p c0 c \<Longrightarrow> cont v p = Some c \<Longrightarrow> confined {p} w v \<Longrightarrow> Q () v" "\<And>e v. X e v"
  shows "wp (sanitizeClientSettingsFile E P p) Q X w"
  unfolding sanitizeClientSettingsFile_def wp_bindE
proof (rule wp_readFileE)
  fix c assume "cont w p = Some c"
  with assms(1) have c: "c = c0" by simp
  show "wp (case sp_sanitize P c of Inl _ \<Rightarrow> throwE (invalidPackage ''The package contains invalid client settings'')
      | Inr sanitized \<Rightarrow> atomicWrite E p sanitized) Q X (tick w)"
  proof (cases "sp_sanitize P c")
    case (Inr c')
    then have d: "delivered P p c0 c'" using c assms(2) by (simp add: delivered_def)
    show ?thesis
      unfolding Inr sum.case
      by (rule wp_mono [OF wp_atomicWrite_cont]) (auto intro!: assms(4) assms(3) [OF d])
  qed (simp add: wp_throwE assms(4))
qed (rule assms(4))


lemma unpacked_kept:
  assumes "root_path dir ds" "confined {JoinPath [dir, new]} w w'" "list_all plain (Split new (CHR ''/''))"
    and "unpacked P dir es w relative" "relative \<noteq> new"
  shows "unpacked P dir es w' relative"
proof -
  have "list_all plain (Split relative (CHR ''/''))" using assms(4) by (simp add: unpacked_def)
  then have "JoinPath [dir, relative] \<noteq> JoinPath [dir, new]"
    using joined_below(2) [OF assms(1)] assms(3,5) by simp
  with assms(2,4) show ?thesis by (auto simp: unpacked_def confined_def)
qed

lemma wp_extractConfig:
  assumes "root_path dir ds" "z \<in> set es" "\<forall>r \<in> set written. unpacked P dir es w r"
  shows "wp (extractConfig E P m dir z written) (\<lambda>written' v. \<forall>r \<in> set written'. unpacked P dir es v r) (\<lambda>_ _. True) w"
proof (cases "CleanArchiveName (ze_name z)")
  case (Inr clean)
  let ?rel = "TrimPrefix clean ConfigsPrefix"
  let ?Q = "\<lambda>written' v. \<forall>r \<in> set written'. unpacked P dir es v r"
  let ?sanitize = "\<lambda>d. if EqualFold (Base d) clientSettingsName then sanitizeClientSettingsFile E P d else returnE ()"
  have body: "wp (bindE (liftE (ValidateEntryName clean dir)) (\<lambda>d. bindE (liftE (ensureInside dir d)) (\<lambda>_.
      if ?rel \<notin> set (pk_configs m) then returnE written
      else bindE (extractEntry E z d maxConfigBytes) (\<lambda>_. bindE (?sanitize d) (\<lambda>_. returnE (?rel # written))))))
      ?Q (\<lambda>_ _. True) v"
    if pre: "HasPrefix clean ConfigsPrefix" "ze_kind z \<noteq> DirectoryEntry" and v: "cont v = cont w" for v
  proof -
    have parts: "list_all plain (Split ?rel (CHR ''/''))"
      using plain_after_prefix [OF CleanArchiveName_plain [OF Inr], of "''configs''"] pre(1) by simp
    have name: "CleanArchiveName (ze_name z) = Inr (ConfigsPrefix @ ?rel)"
      using Inr HasPrefix_split [OF pre(1)] by simp
    have d: "d = JoinPath [dir, ?rel]" if "ValidateEntryName clean dir = Inr d" for d
      using that pre(1) CleanArchiveName_idem [OF Inr]
      by (auto simp: ValidateEntryName_def HasPrefix_def split: if_splits sum.splits)
    have base: "Base (JoinPath [dir, ?rel]) = Base ?rel"
      using joined_below(2) [OF assms(1) parts] Base_joined [OF parts] by simp
    have old: "\<forall>r \<in> set written. unpacked P dir es v r" using assms(3) v by (simp add: unpacked_def)
    have new: "unpacked P dir es v2 r"
      if "r \<in> set (?rel # written)" "confined {JoinPath [dir, ?rel]} v v2" "cont v2 (JoinPath [dir, ?rel]) = Some c"
        "delivered P ?rel (fst (snd z)) c" for r v2 c
    proof (cases "r = ?rel")
      case True
      then show ?thesis using that(3,4) assms(2) parts name pre(2) by (auto simp: unpacked_def)
    next
      case False
      then show ?thesis using that(1) old unpacked_kept [OF assms(1) that(2) parts] by simp
    qed
    have step: "wp (bindE (extractEntry E z d maxConfigBytes) (\<lambda>_. bindE (?sanitize d) (\<lambda>_. returnE (?rel # written))))
        ?Q (\<lambda>_ _. True) v" if "d = JoinPath [dir, ?rel]" for d
      unfolding wp_bindE wp_returnE
    proof (rule wp_extractEntry)
      fix v1 assume v1: "cont v1 d = Some (fst (snd z))" "confined {d} v v1"
      show "wp (?sanitize d) (\<lambda>_. ?Q (?rel # written)) (\<lambda>_ _. True) v1"
      proof (cases "EqualFold (Base d) clientSettingsName")
        case True
        have "wp (sanitizeClientSettingsFile E P d) (\<lambda>_. ?Q (?rel # written)) (\<lambda>_ _. True) v1"
        proof (rule wp_sanitize_file [OF v1(1) True])
          fix c v2 assume c: "delivered P d (fst (snd z)) c" "cont v2 d = Some c" "confined {d} v1 v2"
          have "confined {d} v v2" using v1(2) c(3) by (auto simp: confined_def)
          moreover have "delivered P ?rel (fst (snd z)) c" using c(1) base that by (simp add: delivered_def)
          ultimately show "?Q (?rel # written) v2" using new c(2) that by blast
        qed simp
        then show ?thesis using True by simp
      next
        case False
        then have "delivered P ?rel (fst (snd z)) (fst (snd z))" using base that by (simp add: delivered_def)
        then have "?Q (?rel # written) v1" using new v1 that by blast
        then show ?thesis using False by (simp add: wp_returnE)
      qed
    qed simp
    show ?thesis
      using step d old by (auto simp: wp_bindE wp_liftE wp_if wp_returnE split: sum.split)
  qed
  show ?thesis
  proof (cases "HasPrefix clean ConfigsPrefix \<and> ze_kind z \<noteq> DirectoryEntry")
    case True
    then show ?thesis
      unfolding extractConfig_def Inr sum.case Let_def
      using wp_reading [OF confined_ctxE, of w _ _ E] body by (simp add: wp_bindE [of "ctxE E"])
  qed (use assms(3) in \<open>auto simp: extractConfig_def Inr wp_returnE\<close>)
qed (use assms(3) in \<open>simp add: extractConfig_def wp_returnE\<close>)


lemma wp_ExtractConfigs:
  assumes "root_path dir ds" "cont w (op_path pkg) = Some (ZipArchive es)"
  shows "wp (ExtractConfigs E P pkg dir)
    (\<lambda>_ v. \<forall>c \<in> set (pk_configs (op_manifest pkg)). unpacked P dir es v c) (\<lambda>_ _. True) w"
proof -
  let ?I = "\<lambda>written v. \<forall>r \<in> set written. unpacked P dir es v r"
  have loop: "wp (foldE (extractConfig E P (op_manifest pkg) dir) es []) ?I (\<lambda>_ _. True) v" for v
  proof (rule wp_foldE [where I = "\<lambda>_. ?I"])
    fix ys z zs acc u assume "es = ys @ z # zs" and acc: "?I acc u"
    then have "z \<in> set es" by simp
    from wp_extractConfig [OF assms(1) this acc]
    show "wp (extractConfig E P (op_manifest pkg) dir z acc) ?I (\<lambda>_ _. True) u" .
  qed simp
  have fin: "wp (foldE (extractConfig E P (op_manifest pkg) dir) es []) (\<lambda>written. wp
      (if list_ex (\<lambda>relative. relative \<notin> set written) (pk_configs (op_manifest pkg))
       then throwE (invalidPackage ''A declared config file could not be extracted'') else returnE ())
      (\<lambda>_ v. \<forall>c \<in> set (pk_configs (op_manifest pkg)). unpacked P dir es v c) (\<lambda>_ _. True)) (\<lambda>_ _. True) v" for v
    by (rule wp_mono [OF loop]) (auto simp: wp_if wp_throwE wp_returnE list_ex_iff)
  show ?thesis
    unfolding ExtractConfigs_def wp_bindE
    by (rule wp_OpenReader) (use fin assms(2) in simp_all)
qed

lemma exported_manifest:
  assumes "exported E P encode v src es" "manifest_of es m"
  shows "checkManifest (writtenManifest (ws_manifest src)) = Inr m"
proof -
  let ?z = "zipEntry E ManifestFileName (Blob (encode (ws_manifest src))) (Some (writtenManifest (ws_manifest src)))"
  have "isManifestEntry ?z" unfolding isManifestEntry_def zipEntry_fields by code_simp
  moreover obtain rest where "es = ?z # rest" using assms(1) unfolding exported_def by blast
  ultimately have "find isManifestEntry es = Some ?z" by simp
  with assms(2) obtain m0 where "snd (snd ?z) = Some m0" "checkManifest m0 = Inr m"
    unfolding manifest_of_def by (metis option.inject)
  then show ?thesis by simp
qed

text \<open>Only the entry of a configuration file has its name.\<close>

lemma exported_config_entry:
  assumes "exported E P encode v src es" "portable E1 encode src" "fits es" "z \<in> set es"
    and "CleanArchiveName (ze_name z) = Inr (ConfigsPrefix @ c)"
  shows "config_entry E P v (ws_directory src) c z"
proof -
  have "acceptable z" using exported_acceptable [OF assms(1-3)] assms(4) by (simp add: list_all_iff)
  then have name: "ze_name z = ConfigsPrefix @ c" using assms(5) by (simp add: acceptable_def)
  obtain cs ms zs where es: "es = zipEntry E ManifestFileName (Blob (encode (ws_manifest src))) (Some (writtenManifest (ws_manifest src))) # cs @ ms @ zs"
    and parts: "list_all2 (config_entry E P v (ws_directory src)) (pk_configs (ws_manifest src)) cs" "list_all2 (mod_entry E v) (ws_mods src) ms"
      "icon_entries E v src zs"
    using assms(1) by (auto simp: exported_def)
  have "z \<notin> set ms"
  proof
    assume "z \<in> set ms"
    then obtain r where "mod_entry E v r z" using list_all2_partner(1) [OF parts(2)] by blast
    with name show False by (auto simp: mod_entry_def)
  qed
  moreover have "z \<notin> set zs" using name parts(3) by (auto simp: icon_entries_def split: if_splits)
  ultimately have "z \<in> set cs" using assms(4) name by (auto simp: es)
  from list_all2_partner(1) [OF parts(1) this] show ?thesis
    using name config_entry_name by fastforce
qed

lemma exported_archive:
  assumes "Clean target = target" "WritePackage E P encode target src w = (Inr (), w1)"
  shows "\<exists>es v. exported E P encode v src es \<and> confined {target @ ''.partial''} w v \<and> cont w1 target = Some (ZipArchive es)"
  by (rule wp_InrD [OF wp_WritePackage assms(2), where X = "\<lambda>_ _. True"]) (use assms(1) in auto)

text \<open>
  C14 (roundtrip).  What an export writes, an import gives back.  When an instance with a portable
  manifest has been exported and the archive is within the limits, and no call fails, the launcher
  opens it and finds the manifest that was exported, but for the field that is not written and the
  normal form of the client; and wherever the configuration files are unpacked without an error,
  each of them has the content it had in the instance, the client settings without their secrets.
\<close>

theorem package_round_trip:
  assumes "Clean target = target" "portable E1 encode src"
    and "target @ ''.partial'' \<notin> (\<lambda>c. JoinPath [Clean (ws_directory src), c]) ` set (pk_configs (ws_manifest src))"
    and "WritePackage E P encode target src w = (Inr (), w1)"
    and "\<forall>es. cont w1 target = Some (ZipArchive es) \<longrightarrow> fits es" "ev_fault E1 = (\<lambda>_. None)"
  shows "\<exists>pkg w2 client. OpenPackage E1 target w1 = (Inr pkg, w2) \<and>
    op_manifest pkg = (writtenManifest (ws_manifest src))\<lparr>pk_client := client\<rparr> \<and>
    (\<forall>E2 dir ds w3. root_path dir ds \<longrightarrow> ExtractConfigs E2 P pkg dir w2 = (Inr (), w3) \<longrightarrow>
      (\<forall>c \<in> set (pk_configs (ws_manifest src)). \<exists>c0 c1 c2.
        cont w (JoinPath [Clean (ws_directory src), c]) = Some c0 \<and> delivered P c c0 c1 \<and>
        delivered P c c1 c2 \<and> cont w3 (JoinPath [dir, c]) = Some c2))"
proof -
  let ?m = "ws_manifest src"
  obtain es v where es: "exported E P encode v src es" "confined {target @ ''.partial''} w v"
    and w1: "cont w1 target = Some (ZipArchive es)"
    using exported_archive [OF assms(1,4)] by blast
  have fit: "fits es" using assms(5) w1 by blast
  obtain pkg w2 where run: "OpenPackage E1 target w1 = (Inr pkg, w2)"
    using exported_opens [OF es(1) assms(2) fit assms(6) w1] by blast
  have opened: "op_path pkg = target \<and> manifest_of es (op_manifest pkg) \<and> w_fs w2 = w_fs w1"
  proof (rule wp_InrD [OF wp_OpenPackage run, where X = "\<lambda>_ _. True"])
    fix es' m s pkg and w' :: mods_world
    assume "cont w1 target = Some (ZipArchive es')" "manifest_of es' m" "openedFrom target m s = Inr pkg" "w_fs w' = w_fs w1"
    then show "op_path pkg = target \<and> manifest_of es (op_manifest pkg) \<and> w_fs w' = w_fs w1"
      using w1 by (auto simp: openedFrom_def split: if_splits sum.splits)
  qed simp
  have "checkManifest (writtenManifest ?m) = Inr (op_manifest pkg)"
    using exported_manifest [OF es(1)] opened by blast
  note manifest = checkManifest_ok(1) [OF this]
  have "pk_configs (op_manifest pkg) = pk_configs (writtenManifest ?m)"
    using arg_cong [OF manifest, of pk_configs] by simp
  then have configs: "pk_configs (op_manifest pkg) = pk_configs ?m" by (simp add: writtenManifest_def)
  have w2: "cont w2 (op_path pkg) = Some (ZipArchive es)" using opened w1 by (simp add: cont_def)
  have restored: "\<exists>c0 c1 c2. cont w (JoinPath [Clean (ws_directory src), c]) = Some c0 \<and> delivered P c c0 c1 \<and>
      delivered P c c1 c2 \<and> cont w3 (JoinPath [dir, c]) = Some c2"
    if run: "root_path dir ds" "ExtractConfigs E2 P pkg dir w2 = (Inr (), w3)" and c: "c \<in> set (pk_configs ?m)" for E2 dir ds w3 c
  proof -
    have "unpacked P dir es w3 c" using wp_InrD [OF wp_ExtractConfigs [OF run(1) w2] run(2)] c configs by simp
    then obtain z c2 where z: "z \<in> set es" "CleanArchiveName (ze_name z) = Inr (ConfigsPrefix @ c)"
      and c2: "delivered P c (fst (snd z)) c2" "cont w3 (JoinPath [dir, c]) = Some c2"
      by (auto simp: unpacked_def)
    have "config_entry E P v (ws_directory src) c z"
      by (rule exported_config_entry [OF es(1) assms(2) fit z])
    then obtain c1 where c1: "exported_config P v (ws_directory src) c c1" "fst (snd z) = c1"
      by (auto simp: config_entry_def)
    have "CleanArchiveName c = Inr c"
      using assms(2) c by (intro config_name(1)) (auto simp: portable_def Let_def list_all_iff)
    with c1(1) obtain c0 where "cont v (JoinPath [Clean (ws_directory src), c]) = Some c0" "delivered P c c0 c1"
      by (auto simp: exported_config_def)
    moreover have "cont v (JoinPath [Clean (ws_directory src), c]) = cont w (JoinPath [Clean (ws_directory src), c])"
      using image_eqI [OF refl c, of "\<lambda>c. JoinPath [Clean (ws_directory src), c]"] assms(3)
      by (intro confinedD [OF es(2)]) auto
    ultimately show ?thesis using c2 c1(2) by auto
  qed
  show ?thesis
    by (rule exI [of _ pkg], rule exI [of _ w2], rule exI [of _ "pk_client (op_manifest pkg)"])
      (use run manifest restored in auto)
qed


section \<open>An instance\<close>

definition packedSource :: write_source where
  "packedSource = \<lparr>ws_manifest = packedManifest\<lparr>pk_configs := [''a/b.json'', ''clientsettings.json'']\<rparr>,
     ws_directory = ''/i'', ws_mods = [(''own.zip'', ''/x/own.zip'')], ws_icon = ''/x/icon.png''\<rparr>"

definition tripWorld :: mods_world where
  "tripWorld = sampleWorld
     [(''/'', DirNode), (''/x'', DirNode), (''/i'', DirNode), (''/i/a'', DirNode), (''/n'', DirNode),
      (''/i/a/b.json'', FileNode \<lparr>fd_content = Blob ''cfg'', fd_mtime = 1\<rparr>),
      (''/i/clientsettings.json'', FileNode \<lparr>fd_content = Blob ''secret'', fd_mtime = 1\<rparr>),
      (''/x/own.zip'', FileNode \<lparr>fd_content = Blob ''mod'', fd_mtime = 1\<rparr>),
      (''/x/icon.png'', FileNode \<lparr>fd_content = Blob ''png'', fd_mtime = 1\<rparr>)] []"

definition tripPorts :: snap_ports where
  "tripPorts = restorePorts\<lparr>sp_sanitize := (\<lambda>_. Inr (Blob ''clean''))\<rparr>"

definition tripWrite :: "unit result \<times> mods_world" where
  "tripWrite = WritePackage sampleEnv tripPorts (\<lambda>_. ''{}'') ''/x/p.wlx'' packedSource tripWorld"

lemma package_round_trip_witness:
  "\<exists>pkg w2. OpenPackage sampleEnv ''/x/p.wlx'' (snd tripWrite) = (Inr pkg, w2) \<and>
     (let (r, w3) = ExtractConfigs sampleEnv tripPorts pkg ''/n'' w2
      in r = Inr () \<and> cont w3 ''/n/a/b.json'' = Some (Blob ''cfg'') \<and>
         cont w3 ''/n/clientsettings.json'' = Some (Blob ''clean''))"
proof -
  have target: "Clean ''/x/p.wlx'' = ''/x/p.wlx''" by code_simp
  have portable: "portable sampleEnv (\<lambda>_. ''{}'') packedSource" by code_simp
  have part: "''/x/p.wlx'' @ ''.partial'' \<notin> (\<lambda>c. JoinPath [Clean (ws_directory packedSource), c]) ` set (pk_configs (ws_manifest packedSource))"
    by code_simp
  have "fst tripWrite = Inr ()" by code_simp
  then have run: "WritePackage sampleEnv tripPorts (\<lambda>_. ''{}'') ''/x/p.wlx'' packedSource tripWorld = (Inr (), snd tripWrite)"
    unfolding tripWrite_def by (metis prod.collapse)
  have "case cont (snd tripWrite) ''/x/p.wlx'' of Some (ZipArchive es) \<Rightarrow> fits es | _ \<Rightarrow> True" by code_simp
  then have fit: "\<forall>es. cont (snd tripWrite) ''/x/p.wlx'' = Some (ZipArchive es) \<longrightarrow> fits es" by auto
  have calm: "ev_fault sampleEnv = (\<lambda>_. None)" by (simp add: sampleEnv_def)
  obtain pkg w2 where open': "OpenPackage sampleEnv ''/x/p.wlx'' (snd tripWrite) = (Inr pkg, w2)"
    using package_round_trip [OF target portable part run fit calm] by blast
  moreover have "case OpenPackage sampleEnv ''/x/p.wlx'' (snd tripWrite) of
      (Inr pkg, w2) \<Rightarrow> (let (r, w3) = ExtractConfigs sampleEnv tripPorts pkg ''/n'' w2
        in r = Inr () \<and> cont w3 ''/n/a/b.json'' = Some (Blob ''cfg'') \<and>
           cont w3 ''/n/clientsettings.json'' = Some (Blob ''clean''))
    | _ \<Rightarrow> False" by code_simp
  ultimately show ?thesis by simp
qed

end
