(* ===== verification/Spec2Isabelle.thy ===== *)
theory Spec2Isabelle
  imports Registry LogBuffer Operations ModLinking LaunchFacts DownloadManager
    RestoreFacts Recovery DataRootFacts PackageRoundTrip
begin

text \<open>
  A verification of the core of the Waxlight launcher (Go, package paths under
  \<open>src/internal\<close>): the coordination of the operations on game instances, the mods subsystem
  with its library of downloaded releases, down to the files and rows it writes, the snapshots of
  an instance with their restore and the recovery after a failed launch, the move of the data
  folder, the packages an instance is exported to, and the launch of a game with the accounts and the sessions it signs in.

  The parts and how they interact.  The services of the launcher share a
  \<open>mutations.Gate\<close> (writes against the relocation of the data folder) and a
  \<open>mutations.Slot\<close> (one operation per instance); \<open>launching.Registry\<close> adds the running
  games to the slot.  Long operations run as goroutines of \<open>operations.Manager\<close>, which
  persists them in the sqlite table of operations.  \<open>mods.Service\<close> lists, installs, switches
  and deletes the mods of an instance; \<open>mods.CatalogService\<close> resolves dependencies in the
  catalog, downloads releases into the library (\<open>modstorage.Store\<close>) under the reservations of
  \<open>mods.ModTaskManager\<close> and installs them.  Both write the instance directory through
  \<open>filesystem.ModFileManager\<close> and the table of installed mods through sqlite.

  Theories.
  \<^item> \<open>Prelude\<close>: effects with an outcome and a state (\<open>bindE\<close>, \<open>forE\<close>, \<open>foldE\<close>, \<open>catchE\<close>, ...), two
    calculi on them (\<open>evolves\<close>: a relation between the state before and after on every
    outcome; \<open>wp\<close>: a postcondition of outcome and state) and list and map lemmas.
  \<^item> \<open>GoStrings\<close>, \<open>GoTime\<close>, \<open>Errs\<close>: the strings, paths and times of Go's library as the code
    uses them, and \<open>errs/errors.go\<close>.
  \<^item> \<open>Mutations\<close>: \<open>mutations/gate.go\<close>, \<open>mutations/slot.go\<close>.  \<open>Registry\<close>:
    \<open>launching/registry.go\<close>.  \<open>Operations\<close>: \<open>operations/operations.go\<close> and
    \<open>platform/sqlite/operations.go\<close>.  \<open>LogBuffer\<close>: \<open>platform/logging/buffer.go\<close>.
  \<^item> \<open>ModModels\<close>: \<open>mods/models.go\<close>.  \<open>ModVersions\<close>: \<open>mods/identity.go\<close>, \<open>semver.go\<close>,
    \<open>match.go\<close> and the selection of upgrades in \<open>updates.go\<close>, \<open>catalog.go\<close>.  \<open>ModTasks\<close>:
    \<open>mods/tasks.go\<close>.
  \<^item> \<open>FileSystem\<close>: a file tree (a map from absolute paths to files and directories) with the
    calls of package \<open>os\<close>.  \<open>ModWorld\<close>: the world of the mods services (file tree, rows,
    gate, slot, tasks, events, snapshots) with the faults an environment injects into the
    calls, and the sqlite operations on the rows.  \<open>ModFrames\<close>: what each primitive leaves
    unchanged.
  \<^item> \<open>ModFiles\<close>: \<open>platform/filesystem/mods.go\<close>.  \<open>ModStore\<close>: \<open>platform/modstorage/store.go\<close> and
    \<open>platform/atomicfile\<close>.  \<open>Downloader\<close>: \<open>platform/downloader/http.go\<close>.
    \<open>DownloadManager\<close>: \<open>platform/downloader/manager.go\<close>, the goroutines of the downloads as a
    step relation.
  \<^item> \<open>ModService\<close>, \<open>ModListing\<close>, \<open>ModDeletion\<close>: \<open>mods/service.go\<close>, its definitions, the
    reconciliation of a listing, and the deletions.
  \<^item> \<open>ModInstall\<close>, \<open>ModResolve\<close>: \<open>mods/download.go\<close>.  \<open>ModCatalog\<close>: \<open>mods/catalog.go\<close> and
    \<open>mods/favorites.go\<close>.  \<open>ModUpdates\<close>: \<open>mods/updates.go\<close>.  \<open>ModLinking\<close>: \<open>mods/linking.go\<close>.
    \<open>ModDownloads\<close>: what the operations of the last five theories share, and their properties.
  \<^item> \<open>SnapshotModels\<close>: \<open>snapshots/models.go\<close>, \<open>recovery/models.go\<close>.  \<open>SnapshotStore\<close>:
    \<open>platform/snapshots/store.go\<close> with the removal and size helpers it needs.  \<open>Snapshots\<close>:
    \<open>snapshots/service.go\<close>, \<open>copy.go\<close>.  \<open>SnapshotRestore\<close>: \<open>snapshots/restore.go\<close>.
    \<open>SnapshotFrames\<close>, \<open>TreeFrames\<close>: what these operations leave unchanged, down to whole
    directories of the file tree (\<open>spares\<close>).  \<open>SnapshotFacts\<close>, \<open>RestoreFacts\<close>: a failed restore
    keeps the instance.  \<open>Recovery\<close>: \<open>recovery/service.go\<close>, \<open>compare.go\<close>.
  \<^item> \<open>DataRoot\<close>: \<open>platform/dataroot\<close>, \<open>settings/dataroot.go\<close>.  \<open>DataRootFacts\<close>: no start after a
    move loses the database, whichever calls of it and of the starts before it fail (\<open>confined\<close>:
    the files an operation may write).
  \<^item> \<open>PackageModels\<close>, \<open>GameClient\<close>: \<open>instances/package_models.go\<close>, \<open>instances/models.go\<close>.
    \<open>InstancePackages\<close>: \<open>platform/instancepackage\<close>.  \<open>PackageFacts\<close>: what opening an archive of
    unknown origin promises and where unpacking it writes.  \<open>PackageRoundTrip\<close>: an export followed
    by an import.
  \<^item> \<open>LaunchWorld\<close>: the world of the features around a running game (gate, registry, rows of
    instances, versions, accounts and sessions, key store, settings files, logs, processes) with
    the sqlite operations on these rows and \<open>versions/service.go\<close> as far as it resolves an
    executable.  \<open>LaunchFrames\<close>: what each of these leaves unchanged.
  \<^item> \<open>ClientSettings\<close>: \<open>platform/filesystem/clientsettings.go\<close>.  \<open>Accounts\<close>, \<open>AccountFacts\<close>:
    \<open>accounts/persistence.go\<close>, \<open>accounts/authentication.go\<close>, \<open>platform/credentials\<close> and the
    table of accounts.
  \<^item> \<open>Launching\<close>, \<open>LaunchFacts\<close>: \<open>launching/coordinator.go\<close>, \<open>platform/process/launcher.go\<close>;
    a launch as a sequence of steps of which each undoes the earlier ones on error
    (\<open>owes\<close>: what a launch still has to give back).

  Correspondence.  A Go method is a definition of the same name (with a prefix where two
  types share one); a method that can fail and changes state is a function from the world to
  an outcome (\<open>Inl\<close> the error, \<open>Inr\<close> the result) and the world after.  A method that holds
  its mutex throughout is one atomic step; the interleavings of such steps are the
  \<open>inductive\<close> step relations of \<open>Mutations\<close>, \<open>ModTasks\<close> and \<open>Operations\<close>.  Every call that
  leaves the program (a file, a row, the network) asks the environment \<open>E\<close> whether it
  fails at this point, so theorems about all environments cover every combination of
  failures; \<open>fault_free E\<close> is the environment where none does.

  Parameters: the sqlite engine below its queries, the mod catalog client, HTTP, archive
  reading, checksums, semantic-version comparison, clock and identifier generation are
  functions in \<open>env\<close> and \<open>lenv\<close> or arguments; so are the authentication server, the detected
  .NET runtime, the installation of Optimum and the native key stores.

  Termination.  Loops over lists are structural; the work list of \<open>modDeletionSet\<close> is a
  \<open>function\<close> with its termination proof; dependency resolution takes fuel, one more than the
  number of mods in the catalog, and \<open>resolve_fuel_enough\<close> shows that it never runs out.

  Not modelled: the bodies of the services around the mods subsystem and the launch (instances,
  installation of versions, updates of the launcher, servers, settings, telemetry),
  the tailer of the game's log, the Wails transport and the operating-system integration.  The
  mods services see a safety snapshot as the call they make.  Ticker
  driven and purely visual code (presence, tray, progress throttling) is left out.
\<close>

end
